(* ===== verification/Float64.thy ===== *)
theory Float64
  imports Complex_Main "HOL-Library.Log_Nat"
begin

text \<open>
  Binary64 numbers as the monitoring agent computes with them. A number is a rational, an infinity
  or not a number, and an operation on rationals is the exact operation followed by
  rounding to nearest, ties to even, with the exponent range of the format; the sign of zero is not
  kept, since no operation of the agent depends on it. The lemmas give the two facts the
  agent's arithmetic rests on: integers up to \<open>2 ^ 53\<close> are exact, and the relative error of rounding
  in the normal range is at most \<open>2 ^ -53\<close>.
\<close>

section \<open>Numbers and comparisons\<close>

datatype f64 = Fin rat | PosInf | NegInf | NaN

fun f_lt :: "f64 \<Rightarrow> f64 \<Rightarrow> bool" where
  "f_lt (Fin x) (Fin y) \<longleftrightarrow> x < y"
| "f_lt (Fin x) PosInf \<longleftrightarrow> True"
| "f_lt NegInf (Fin y) \<longleftrightarrow> True"
| "f_lt NegInf PosInf \<longleftrightarrow> True"
| "f_lt _ _ \<longleftrightarrow> False"

definition f_eq :: "f64 \<Rightarrow> f64 \<Rightarrow> bool" where
  "f_eq x y \<longleftrightarrow> x = y \<and> x \<noteq> NaN"

definition f_ge :: "f64 \<Rightarrow> f64 \<Rightarrow> bool" where
  "f_ge x y \<longleftrightarrow> f_lt y x \<or> f_eq x y"

section \<open>Rounding\<close>

text \<open>The binary logarithm of a positive rational, rounded down.\<close>

definition ilog2 :: "rat \<Rightarrow> int" where
  "ilog2 a =
     (let (n, d) = quotient_of a; k = int (floorlog 2 (nat n)) - int (floorlog 2 (nat d))
      in if 2 powi k \<le> a then k else k - 1)"

definition round_half_even :: "rat \<Rightarrow> int" where
  "round_half_even a =
     (let n = \<lfloor>a\<rfloor>; f = a - of_int n
      in if f < 1 / 2 then n else if f > 1 / 2 then n + 1 else if even n then n else n + 1)"

definition fround :: "rat \<Rightarrow> f64" where
  "fround x =
     (if x = 0 then Fin 0
      else let e = max (ilog2 \<bar>x\<bar> - 52) (- 1074); v = of_int (round_half_even (\<bar>x\<bar> / 2 powi e)) * 2 powi e
           in if v \<ge> 2 ^ 1024 then (if x > 0 then PosInf else NegInf) else Fin (sgn x * v))"

section \<open>Arithmetic\<close>

fun f_neg :: "f64 \<Rightarrow> f64" where
  "f_neg (Fin x) = Fin (- x)"
| "f_neg PosInf = NegInf"
| "f_neg NegInf = PosInf"
| "f_neg NaN = NaN"

fun f_add :: "f64 \<Rightarrow> f64 \<Rightarrow> f64" where
  "f_add (Fin x) (Fin y) = fround (x + y)"
| "f_add NaN _ = NaN"
| "f_add _ NaN = NaN"
| "f_add PosInf NegInf = NaN"
| "f_add NegInf PosInf = NaN"
| "f_add PosInf _ = PosInf"
| "f_add _ PosInf = PosInf"
| "f_add NegInf _ = NegInf"
| "f_add _ NegInf = NegInf"

definition f_sub :: "f64 \<Rightarrow> f64 \<Rightarrow> f64" where
  "f_sub x y = f_add x (f_neg y)"

definition f_signed_inf :: "rat \<Rightarrow> f64" where
  "f_signed_inf s = (if s > 0 then PosInf else if s < 0 then NegInf else NaN)"

fun f_mul :: "f64 \<Rightarrow> f64 \<Rightarrow> f64" where
  "f_mul (Fin x) (Fin y) = fround (x * y)"
| "f_mul NaN _ = NaN"
| "f_mul _ NaN = NaN"
| "f_mul (Fin x) PosInf = f_signed_inf x"
| "f_mul (Fin x) NegInf = f_signed_inf (- x)"
| "f_mul PosInf (Fin y) = f_signed_inf y"
| "f_mul NegInf (Fin y) = f_signed_inf (- y)"
| "f_mul PosInf PosInf = PosInf"
| "f_mul NegInf NegInf = PosInf"
| "f_mul PosInf NegInf = NegInf"
| "f_mul NegInf PosInf = NegInf"

text \<open>A zero divisor counts as positive.\<close>

fun f_div :: "f64 \<Rightarrow> f64 \<Rightarrow> f64" where
  "f_div (Fin x) (Fin y) = (if y = 0 then f_signed_inf x else fround (x / y))"
| "f_div NaN _ = NaN"
| "f_div _ NaN = NaN"
| "f_div (Fin x) _ = Fin 0"
| "f_div PosInf (Fin y) = (if y < 0 then NegInf else PosInf)"
| "f_div NegInf (Fin y) = (if y < 0 then PosInf else NegInf)"
| "f_div _ _ = NaN"

text \<open>\<open>f64::max\<close>: a number beats not a number.\<close>

definition f_max :: "f64 \<Rightarrow> f64 \<Rightarrow> f64" where
  "f_max x y = (if x = NaN then y else if y = NaN then x else if f_lt x y then y else x)"

section \<open>Rounding is exact on integers and accurate\<close>

lemma floorlog_rat:
  assumes "0 < m"
  shows "2 powi (int (floorlog 2 (nat m)) - 1) \<le> (of_int m :: rat)" "of_int m < (2 powi (int (floorlog 2 (nat m))) :: rat)"
proof -
  let ?l = "floorlog 2 (nat m)"
  have b: "2 ^ (?l - 1) \<le> nat m" "nat m < 2 ^ ?l" using floorlog_bounds [of "nat m" 2] assms by auto
  have l: "0 < ?l" using assms by (simp add: floorlog_def)
  have m: "of_int m = (of_nat (nat m) :: rat)" using assms by simp
  have "of_nat (2 ^ (?l - 1)) \<le> (of_nat (nat m) :: rat)" "of_nat (nat m) < (of_nat (2 ^ ?l) :: rat)"
    using b by (simp_all only: of_nat_le_iff of_nat_less_iff)
  moreover have "(2 :: rat) powi (int ?l - 1) = 2 ^ (?l - 1)" using l by (simp add: power_int_def nat_diff_distrib)
  ultimately show "2 powi (int ?l - 1) \<le> (of_int m :: rat)" "of_int m < (2 powi (int ?l) :: rat)"
    unfolding m by simp_all
qed

lemma powi_mult: "(2 :: rat) powi x * 2 powi y = 2 powi (x + y)"
  by (simp add: power_int_add)

lemma powi_less_iff: "(2 :: rat) powi x < 2 powi y \<longleftrightarrow> x < y"
  using power_int_strict_increasing [of x y "2 :: rat"] power_int_increasing [of y x "2 :: rat"] by (cases "x < y") auto

lemma powi_le_iff: "(2 :: rat) powi x \<le> 2 powi y \<longleftrightarrow> x \<le> y"
  using powi_less_iff [of y x] by (simp add: not_less [symmetric])

lemma ilog2_bounds:
  assumes "0 < a"
  shows "2 powi (ilog2 a) \<le> a" "a < 2 powi (ilog2 a + 1)"
proof -
  obtain n d where q: "quotient_of a = (n, d)" by fastforce
  then have d: "0 < d" and a: "a = of_int n / of_int d" by (auto dest: quotient_of_denom_pos quotient_of_div)
  then have n: "0 < n" using assms by (simp add: zero_less_divide_iff)
  let ?ln = "int (floorlog 2 (nat n))" and ?ld = "int (floorlog 2 (nat d))"
  have dpos: "0 < (of_int d :: rat)" using d by simp
  have "2 powi (?ln - ?ld - 1) * of_int d \<le> 2 powi (?ln - ?ld - 1) * (2 powi ?ld :: rat)"
    using floorlog_rat(2) [OF d] by (intro mult_left_mono) auto
  also have "\<dots> = 2 powi (?ln - 1)" unfolding powi_mult by simp
  also have "\<dots> \<le> of_int n" using floorlog_rat(1) [OF n] .
  finally have lo: "2 powi (?ln - ?ld - 1) \<le> a" using dpos by (simp add: a pos_le_divide_eq)
  have "of_int n < (2 powi ?ln :: rat)" using floorlog_rat(2) [OF n] .
  also have "\<dots> = 2 powi (?ln - ?ld + 1) * 2 powi (?ld - 1)" unfolding powi_mult by simp
  also have "\<dots> \<le> 2 powi (?ln - ?ld + 1) * of_int d" using floorlog_rat(1) [OF d] by (intro mult_left_mono) auto
  finally have hi: "a < 2 powi (?ln - ?ld + 1)" using dpos by (simp add: a pos_divide_less_eq)
  show "2 powi (ilog2 a) \<le> a" "a < 2 powi (ilog2 a + 1)"
    using lo hi by (auto simp: ilog2_def q Let_def)
qed

lemma round_half_even_error: "\<bar>of_int (round_half_even a) - a\<bar> \<le> 1 / 2"
proof -
  have "of_int \<lfloor>a\<rfloor> \<le> a" "a < of_int \<lfloor>a\<rfloor> + 1" by linarith+
  then show ?thesis by (auto simp: round_half_even_def Let_def)
qed

lemma round_half_even_int [simp]: "round_half_even (of_int n) = n"
  by (simp add: round_half_even_def)

lemma powi_cancel: "(2 :: rat) powi (x - y) = 2 powi x / 2 powi y"
  by (simp add: power_int_diff)

text \<open>Integers up to \<open>2 ^ 53\<close> are exact.\<close>

lemma fround_int:
  assumes "\<bar>n\<bar> \<le> 2 ^ 53"
  shows "fround (of_int n) = Fin (of_int n)"
proof (cases "n = 0")
  case False
  let ?a = "\<bar>of_int n :: rat\<bar>" and ?k = "ilog2 \<bar>of_int n\<bar>"
  let ?e = "max (?k - 52) (- 1074)"
  have a: "0 < ?a" "?a = of_int \<bar>n\<bar>" "?a \<le> 2 ^ 53" "1 \<le> ?a"
    using False assms of_int_le_iff [of "\<bar>n\<bar>" "2 ^ 53", where ?'a = rat] of_int_le_iff [of 1 "\<bar>n\<bar>", where ?'a = rat] by auto
  have k: "0 \<le> ?k" "?k \<le> 53"
  proof -
    have "(2 :: rat) powi 0 < 2 powi (?k + 1)" using ilog2_bounds(2) [OF a(1)] a(4) by simp
    then show "0 \<le> ?k" unfolding powi_less_iff by simp
    have "(2 :: rat) powi ?k \<le> 2 powi 53" using ilog2_bounds(1) [OF a(1)] a(3) by simp
    then show "?k \<le> 53" unfolding powi_le_iff .
  qed
  have e: "?e = ?k - 52" using k by simp
  obtain q :: int where q: "?a / 2 powi ?e = of_int q"
  proof (cases "?k \<le> 52")
    case True
    have "?a / 2 powi (?k - 52) = of_int (\<bar>n\<bar> * 2 ^ nat (52 - ?k))"
    proof -
      have "(2 :: rat) powi (?k - 52) = inverse (2 powi (52 - ?k))" using power_int_minus [of "2 :: rat" "52 - ?k"] by simp
      also have "(2 :: rat) powi (52 - ?k) = 2 ^ nat (52 - ?k)" using True by (intro power_int_nonneg_exp) simp
      finally show ?thesis unfolding a(2) by (simp add: divide_inverse)
    qed
    then show thesis using that e by metis
  next
    case False
    then have k53: "?k = 53" using k by simp
    then have "2 ^ 53 \<le> ?a" using ilog2_bounds(1) [OF a(1)] by simp
    then have "?a = 2 ^ 53" using a(3) by simp
    then have "?a / 2 powi ?e = of_int (2 ^ 52)" using e k53 by simp
    then show thesis using that by metis
  qed
  have v: "of_int (round_half_even (?a / 2 powi ?e)) * 2 powi ?e = ?a" unfolding q round_half_even_int using q by (simp add: field_simps)
  have "?a < 2 ^ 1024" using a(3) by (rule order.strict_trans1) simp
  moreover have "sgn (of_int n :: rat) * ?a = of_int n" by (simp add: sgn_mult_abs)
  ultimately show ?thesis using False v by (simp add: fround_def Let_def)
qed (simp add: fround_def)

text \<open>The relative error in the normal range.\<close>

lemma scale_error:
  fixes c :: rat
  assumes "0 < c"
  shows "\<bar>q - x / c\<bar> * c = \<bar>q * c - x\<bar>"
proof -
  have "(q - x / c) * c = q * c - x" using assms by (simp add: field_simps)
  then show ?thesis using assms abs_mult [of "q - x / c" c] by simp
qed

lemma fround_error:
  assumes "2 powi (- 1022) \<le> x" "x < 2 ^ 1000"
  obtains y where "fround x = Fin y" "\<bar>y - x\<bar> \<le> x / 2 ^ 53"
proof -
  have pos: "0 < x" using assms(1) by (rule order.strict_trans2 [rotated]) simp
  let ?e = "max (ilog2 \<bar>x\<bar> - 52) (- 1074)"
  let ?q = "round_half_even (x / 2 powi ?e)"
  have "(2 :: rat) powi (- 1022) < 2 powi (ilog2 x + 1)" using assms(1) ilog2_bounds(2) [OF pos] by (rule order.strict_trans1)
  then have e: "?e = ilog2 x - 52" unfolding powi_less_iff using pos by simp
  have u: "2 powi ?e * 2 ^ 52 \<le> x"
    using ilog2_bounds(1) [OF pos] powi_mult [of ?e 52] e by simp
  have "\<bar>of_int ?q - x / 2 powi ?e\<bar> * 2 powi ?e \<le> 1 / 2 * 2 powi ?e"
    using round_half_even_error [of "x / 2 powi ?e"] by (intro mult_right_mono) auto
  moreover have "\<bar>of_int ?q - x / 2 powi ?e\<bar> * 2 powi ?e = \<bar>of_int ?q * 2 powi ?e - x\<bar>" by (rule scale_error) simp
  ultimately have "\<bar>of_int ?q * 2 powi ?e - x\<bar> \<le> 2 powi ?e / 2" by simp
  also have "\<dots> \<le> x / 2 ^ 53" using u by simp
  finally have err: "\<bar>of_int ?q * 2 powi ?e - x\<bar> \<le> x / 2 ^ 53" .
  have "x / 2 ^ 53 \<le> x" using pos by simp
  with err have "of_int ?q * 2 powi ?e \<le> x * 2" by linarith
  also have "\<dots> < 2 ^ 1000 * 2" using assms(2) by simp
  also have "\<dots> < (2 :: rat) ^ 1024" by simp
  finally have "fround x = Fin (of_int ?q * 2 powi ?e)" using pos by (simp add: fround_def Let_def)
  then show thesis using err that by blast
qed

lemma ilog2_unique:
  assumes "2 powi k \<le> a" "a < 2 powi (k + 1)"
  shows "ilog2 a = k"
proof -
  have "0 < (2 :: rat) powi k" by simp
  then have pos: "0 < a" using assms(1) by (rule order.strict_trans2)
  have "(2 :: rat) powi k < 2 powi (ilog2 a + 1)" using assms(1) ilog2_bounds(2) [OF pos] by (rule order.strict_trans1)
  moreover have "(2 :: rat) powi ilog2 a < 2 powi (k + 1)" using ilog2_bounds(1) [OF pos] assms(2) by (rule order.strict_trans1)
  ultimately show ?thesis unfolding powi_less_iff by simp
qed

text \<open>The double nearest to 0.05.\<close>

lemma fround_twentieth: "fround (1 / 20) = Fin (3602879701896397 / 72057594037927936)"
proof -
  have k: "ilog2 (1 / 20) = - 5" by (rule ilog2_unique) (simp_all add: power_int_minus)
  have "\<lfloor>1 / 20 / (2 :: rat) powi (- 57)\<rfloor> = 7205759403792793" by (simp add: power_int_minus floor_eq_iff)
  then have "round_half_even (1 / 20 / 2 powi (- 57)) = 7205759403792794"
    by (simp add: round_half_even_def Let_def power_int_minus)
  then show ?thesis by (simp add: fround_def k Let_def power_int_minus)
qed

end
