(* ===== verification/Prelude.thy ===== *)
theory Prelude
  imports "HOL-Library.Word"
begin

text \<open>
  Shared vocabulary of the development: Rust results and panics as values, 64-bit
  \<open>usize\<close> arithmetic with its overflow checks, slices and indexing that panic out of
  range, early-returning loops, and the generic list lemmas the components use.
  \<^item> \<open>'a result\<close> is \<open>error + 'a\<close>: \<open>Err (Error m)\<close> is an \<open>anyhow\<close> error or an
    \<open>Err(String)\<close>, named by the fixed part of its message; \<open>Err (Panic m)\<close> is a panic
    (a failed \<open>assert!\<close>, an index out of range, an \<open>expect\<close>).
  \<^item> \<open>usize\<close> is \<open>nat\<close>; the supported targets are 64-bit, and every \<open>checked_*\<close>
    operation of the source is written with its bound \<open>2 ^ 64\<close>.
  \<^item> \<open>u64\<close> and \<open>u32\<close> values that are stored or sent are machine words.
\<close>

unbundle bit_operations_syntax

named_theorems result_simps \<open>rewriting of results and early returns\<close>
named_theorems codec_simps \<open>lengths and round trips of fixed-width encodings\<close>
named_theorems layout_simps \<open>geometry of a validated PIR layout\<close>

type_synonym u8 = "8 word"
type_synonym u16 = "16 word"
type_synonym u32 = "32 word"
type_synonym u64 = "64 word"
type_synonym usize = nat
type_synonym bytes = "u8 list"

section \<open>Results and panics\<close>

datatype error = Error string | Panic string

type_synonym 'a result = "error + 'a"

abbreviation Ok :: "'a \<Rightarrow> 'a result" where
  "Ok \<equiv> Inr"

abbreviation Err :: "error \<Rightarrow> 'a result" where
  "Err \<equiv> Inl"

abbreviation Bail :: "string \<Rightarrow> 'a result" where
  "Bail m \<equiv> Inl (Error m)"

text \<open>The \<open>?\<close> operator: continue with the value, or return the error.\<close>

fun and_then :: "'e + 'a \<Rightarrow> ('a \<Rightarrow> 'e + 'b) \<Rightarrow> 'e + 'b" where
  "and_then (Inl e) f = Inl e"
| "and_then (Inr x) f = f x"

text \<open>\<open>anyhow::ensure!\<close> with the rest of the function after it.\<close>

definition ensure :: "bool \<Rightarrow> string \<Rightarrow> 'a result \<Rightarrow> 'a result" where
  "ensure b m r = (if b then r else Bail m)"

text \<open>\<open>assert!\<close> with the rest of the function after it.\<close>

definition assert_panic :: "bool \<Rightarrow> string \<Rightarrow> 'a result \<Rightarrow> 'a result" where
  "assert_panic b m r = (if b then r else Err (Panic m))"

definition ok_or :: "'a option \<Rightarrow> error \<Rightarrow> 'a result" where
  "ok_or x e = (case x of None \<Rightarrow> Err e | Some v \<Rightarrow> Ok v)"

definition is_ok :: "'a result \<Rightarrow> bool" where
  "is_ok r = (case r of Inl _ \<Rightarrow> False | Inr _ \<Rightarrow> True)"

lemma and_then_Ok_iff [result_simps]:
  "and_then r f = Inr y \<longleftrightarrow> (\<exists>x. r = Inr x \<and> f x = Inr y)"
  by (cases r) auto

lemma and_then_Err_iff:
  "and_then r f = Inl e \<longleftrightarrow> r = Inl e \<or> (\<exists>x. r = Inr x \<and> f x = Inl e)"
  by (cases r) auto

lemma and_then_assoc: "and_then (and_then r f) g = and_then r (\<lambda>x. and_then (f x) g)"
  by (cases r) auto

lemma and_then_cong: "r = s \<Longrightarrow> (\<And>x. s = Inr x \<Longrightarrow> f x = g x) \<Longrightarrow> and_then r f = and_then s g"
  by (cases s) auto

lemma ensure_Ok_iff [result_simps]: "ensure b m r = Inr y \<longleftrightarrow> b \<and> r = Inr y"
  by (simp add: ensure_def)

lemma ensure_True [simp]: "ensure True m r = r"
  by (simp add: ensure_def)

lemma ensure_False [simp]: "ensure False m r = Bail m"
  by (simp add: ensure_def)

lemma assert_panic_Ok_iff [result_simps]: "assert_panic b m r = Inr y \<longleftrightarrow> b \<and> r = Inr y"
  by (simp add: assert_panic_def)

lemma assert_panic_True [simp]: "assert_panic True m r = r"
  by (simp add: assert_panic_def)

lemma ok_or_Ok_iff [result_simps]: "ok_or x e = Inr y \<longleftrightarrow> x = Some y"
  by (cases x) (auto simp: ok_or_def)

lemma ok_or_simps [simp]: "ok_or (Some v) e = Inr v" "ok_or None e = Inl e"
  by (simp_all add: ok_or_def)

lemma is_ok_simps [simp]: "is_ok (Inr x)" "\<not> is_ok (Inl e)"
  by (simp_all add: is_ok_def)

lemma is_ok_iff: "is_ok r \<longleftrightarrow> (\<exists>x. r = Inr x)"
  by (cases r) (auto simp: is_ok_def)

section \<open>Loops that can return early\<close>

primrec try_fold :: "('x \<Rightarrow> 's \<Rightarrow> 's result) \<Rightarrow> 'x list \<Rightarrow> 's \<Rightarrow> 's result" where
  "try_fold f [] s = Ok s"
| "try_fold f (x # xs) s = and_then (f x s) (try_fold f xs)"

primrec try_map :: "('a \<Rightarrow> 'b result) \<Rightarrow> 'a list \<Rightarrow> 'b list result" where
  "try_map f [] = Ok []"
| "try_map f (x # xs) = and_then (f x) (\<lambda>y. and_then (try_map f xs) (\<lambda>ys. Ok (y # ys)))"

lemma try_map_Ok_iff:
  "try_map f xs = Inr ys \<longleftrightarrow> list_all2 (\<lambda>x y. f x = Inr y) xs ys"
  by (induction xs arbitrary: ys)
    (auto simp: result_simps list_all2_Cons1)

lemma try_map_all_Ok: "(\<And>x. x \<in> set xs \<Longrightarrow> f x = Inr (g x)) \<Longrightarrow> try_map f xs = Inr (map g xs)"
  by (induction xs) auto

lemma try_map_Err: "try_map f xs = Inl e \<Longrightarrow> \<exists>x \<in> set xs. f x = Inl e"
proof (induction xs)
  case Nil
  then show ?case by simp
next
  case (Cons x xs)
  then show ?case by (cases "f x"; cases "try_map f xs") auto
qed

lemma try_map_append:
  "try_map f (xs @ ys) =
     and_then (try_map f xs) (\<lambda>us. and_then (try_map f ys) (\<lambda>vs. Ok (us @ vs)))"
proof (induction xs)
  case Nil
  show ?case by (cases "try_map f ys") auto
next
  case (Cons x xs)
  then show ?case by (simp add: and_then_assoc)
qed

lemma try_fold_append:
  "try_fold f (xs @ ys) s = and_then (try_fold f xs s) (try_fold f ys)"
  by (induction xs arbitrary: s) (auto simp: and_then_assoc intro: and_then_cong)

section \<open>Indexing and slicing\<close>

definition index_res :: "'a list \<Rightarrow> usize \<Rightarrow> 'a result" where
  "index_res xs i =
     (if i < length xs then Ok (xs ! i) else Err (Panic ''index out of bounds''))"

definition slice_res :: "'a list \<Rightarrow> usize \<Rightarrow> usize \<Rightarrow> 'a list result" where
  "slice_res xs off len =
     (if off + len \<le> length xs then Ok (take len (drop off xs))
      else Err (Panic ''slice out of range''))"

text \<open>\<open>buf[off..off + n].copy_from_slice(src)\<close> with \<open>n = src.len()\<close>.\<close>

definition write_at :: "'a list \<Rightarrow> usize \<Rightarrow> 'a list \<Rightarrow> 'a list result" where
  "write_at buf off src =
     (if off + length src \<le> length buf
      then Ok (take off buf @ src @ drop (off + length src) buf)
      else Err (Panic ''slice out of range''))"

lemma index_res_Ok [simp]: "i < length xs \<Longrightarrow> index_res xs i = Inr (xs ! i)"
  by (simp add: index_res_def)

lemma index_res_Ok_iff [result_simps]: "index_res xs i = Inr y \<longleftrightarrow> i < length xs \<and> y = xs ! i"
  by (auto simp: index_res_def)

lemma slice_res_Ok_iff [result_simps]:
  "slice_res xs off len = Inr ys \<longleftrightarrow> off + len \<le> length xs \<and> ys = take len (drop off xs)"
  by (auto simp: slice_res_def)

lemma slice_res_Ok: "off + len \<le> length xs \<Longrightarrow> slice_res xs off len = Inr (take len (drop off xs))"
  by (simp add: slice_res_def)

lemma write_at_middle:
  "length ys = length src \<Longrightarrow> write_at (xs @ ys @ zs) (length xs) src = Inr (xs @ src @ zs)"
  by (simp add: write_at_def)

lemma write_at_length: "write_at buf off src = Inr buf' \<Longrightarrow> length buf' = length buf"
  by (auto simp: write_at_def split: if_splits)

text \<open>
  \<open>chunks_exact(n)\<close>: the full chunks of \<open>n\<close> elements; a shorter remainder is dropped.
  The source only calls it with a positive constant.
\<close>

fun chunks_exact :: "nat \<Rightarrow> 'a list \<Rightarrow> 'a list list" where
  "chunks_exact n xs =
     (if n = 0 \<or> length xs < n then [] else take n xs # chunks_exact n (drop n xs))"

declare chunks_exact.simps [simp del]

lemma chunks_exact_short [simp]: "length xs < n \<Longrightarrow> chunks_exact n xs = []"
  by (simp add: chunks_exact.simps)

lemma chunks_exact_Cons [simp]:
  "0 < n \<Longrightarrow> length c = n \<Longrightarrow> chunks_exact n (c @ xs) = c # chunks_exact n xs"
  by (subst chunks_exact.simps) simp

lemma chunks_exact_concat:
  "0 < n \<Longrightarrow> (\<forall>c \<in> set cs. length c = n) \<Longrightarrow> chunks_exact n (concat cs) = cs"
  by (induction cs) auto

lemma chunks_exact_lengths: "c \<in> set (chunks_exact n xs) \<Longrightarrow> length c = n"
proof (induction n xs rule: chunks_exact.induct)
  case (1 n xs)
  show ?case
  proof (cases "n = 0 \<or> length xs < n")
    case True
    with "1.prems" show ?thesis by (subst (asm) chunks_exact.simps) simp
  next
    case False
    with "1" show ?thesis by (subst (asm) (2) chunks_exact.simps) auto
  qed
qed

lemma length_chunks_exact: "0 < n \<Longrightarrow> length (chunks_exact n xs) = length xs div n"
proof (induction n xs rule: chunks_exact.induct)
  case (1 n xs)
  show ?case
  proof (cases "length xs < n")
    case True
    with "1.prems" show ?thesis by simp
  next
    case False
    with "1" show ?thesis
      by (subst chunks_exact.simps) (simp add: le_div_geq)
  qed
qed

lemma chunks_exact_nth:
  "0 < n \<Longrightarrow> i < length xs div n \<Longrightarrow> chunks_exact n xs ! i = take n (drop (i * n) xs)"
proof (induction n xs arbitrary: i rule: chunks_exact.induct)
  case (1 n xs)
  have len: "n \<le> length xs"
    using "1.prems" by (metis div_less not_less not_less_zero)
  show ?case
  proof (cases i)
    case 0
    with "1.prems" len show ?thesis by (subst chunks_exact.simps) simp
  next
    case (Suc j)
    have "j < length (drop n xs) div n"
      using "1.prems" len Suc by (simp add: le_div_geq)
    then have "chunks_exact n (drop n xs) ! j = take n (drop (j * n) (drop n xs))"
      using "1.IH" "1.prems" len by simp
    with "1.prems" len Suc show ?thesis
      by (subst chunks_exact.simps) (simp add: add.commute)
  qed
qed

lemma concat_chunks_exact: "0 < n \<Longrightarrow> length xs mod n = 0 \<Longrightarrow> concat (chunks_exact n xs) = xs"
proof (induction n xs rule: chunks_exact.induct)
  case (1 n xs)
  show ?case
  proof (cases "length xs < n")
    case True
    with "1.prems" show ?thesis by simp
  next
    case False
    then have "length (drop n xs) mod n = 0"
      using "1.prems" by (simp add: mod_if [of "length xs" n])
    with "1" False show ?thesis
      by (subst chunks_exact.simps) simp
  qed
qed

lemma concat_uniform_length: "(\<And>c. c \<in> set cs \<Longrightarrow> length c = k) \<Longrightarrow> length (concat cs) = k * length cs"
  by (induction cs) auto

lemma concat_uniform_nth:
  "(\<And>c. c \<in> set cs \<Longrightarrow> length c = k) \<Longrightarrow> i < length cs \<Longrightarrow> j < k \<Longrightarrow> concat cs ! (k * i + j) = cs ! i ! j"
proof (induction cs arbitrary: i)
  case Nil
  then show ?case by simp
next
  case (Cons c cs)
  show ?case
  proof (cases i)
    case 0
    with Cons.prems show ?thesis by (simp add: nth_append)
  next
    case (Suc m)
    with Cons show ?thesis by (simp add: nth_append)
  qed
qed

section \<open>Checked \<open>usize\<close> arithmetic\<close>

definition USIZE_BITS :: nat where
  "USIZE_BITS = 64"

definition checked_add :: "usize \<Rightarrow> usize \<Rightarrow> usize option" where
  "checked_add a b = (if a + b < 2 ^ USIZE_BITS then Some (a + b) else None)"

definition checked_mul :: "usize \<Rightarrow> usize \<Rightarrow> usize option" where
  "checked_mul a b = (if a * b < 2 ^ USIZE_BITS then Some (a * b) else None)"

definition checked_sub :: "usize \<Rightarrow> usize \<Rightarrow> usize option" where
  "checked_sub a b = (if b \<le> a then Some (a - b) else None)"

text \<open>\<open>1usize.checked_shl(s)\<close>: \<open>None\<close> when the shift reaches the width.\<close>

definition checked_shl_one :: "nat \<Rightarrow> usize option" where
  "checked_shl_one s = (if s < USIZE_BITS then Some (2 ^ s) else None)"

lemmas checked_defs = checked_add_def checked_mul_def checked_sub_def checked_shl_one_def USIZE_BITS_def

lemma checked_add_Some_iff [result_simps]:
  "checked_add a b = Some c \<longleftrightarrow> a + b < 2 ^ USIZE_BITS \<and> c = a + b"
  by (auto simp: checked_add_def)

lemma checked_mul_Some_iff [result_simps]:
  "checked_mul a b = Some c \<longleftrightarrow> a * b < 2 ^ USIZE_BITS \<and> c = a * b"
  by (auto simp: checked_mul_def)

lemma checked_sub_Some_iff [result_simps]:
  "checked_sub a b = Some c \<longleftrightarrow> b \<le> a \<and> c = a - b"
  by (auto simp: checked_sub_def)

lemma checked_shl_one_Some_iff [result_simps]:
  "checked_shl_one s = Some c \<longleftrightarrow> s < USIZE_BITS \<and> c = 2 ^ s"
  by (auto simp: checked_shl_one_def)

section \<open>Little-endian bytes\<close>

primrec le_bytes :: "nat \<Rightarrow> nat \<Rightarrow> bytes" where
  "le_bytes 0 n = []"
| "le_bytes (Suc k) n = word_of_nat n # le_bytes k (n div 256)"

primrec le_val :: "bytes \<Rightarrow> nat" where
  "le_val [] = 0"
| "le_val (b # bs) = unat b + 256 * le_val bs"

lemma length_le_bytes [simp]: "length (le_bytes k n) = k"
  by (induction k arbitrary: n) auto

lemma unat_byte_less: "unat (b :: u8) < 256"
  using unsigned_less [of b, where 'a = nat] by simp

lemma unat_word_of_nat_u8: "unat (word_of_nat n :: u8) = n mod 256"
  by (simp add: unat_of_nat)

lemma le_val_le_bytes [simp]: "le_val (le_bytes k n) = n mod 256 ^ k"
proof (induction k arbitrary: n)
  case 0
  then show ?case by simp
next
  case (Suc k)
  have "le_val (le_bytes (Suc k) n) = n mod 256 + 256 * (n div 256 mod 256 ^ k)"
    by (simp add: Suc.IH unat_word_of_nat_u8)
  also have "\<dots> = n mod (256 * 256 ^ k)"
    by (simp add: mod_mult2_eq)
  finally show ?case by simp
qed

lemma le_val_less: "le_val bs < 256 ^ length bs"
proof (induction bs)
  case Nil
  then show ?case by simp
next
  case (Cons b bs)
  have "unat b + 256 * le_val bs < 256 + 256 * le_val bs"
    using unat_byte_less [of b] by simp
  also have "\<dots> = 256 * Suc (le_val bs)" by simp
  also have "\<dots> \<le> 256 * 256 ^ length bs"
    using Cons.IH by (intro mult_le_mono2) simp
  finally show ?case by simp
qed

lemma le_bytes_le_val: "le_bytes (length bs) (le_val bs) = bs"
proof (induction bs)
  case Nil
  then show ?case by simp
next
  case (Cons b bs)
  have b: "word_of_nat (unat b + 256 * le_val bs) = b"
  proof (rule word_unat_eq_iff [THEN iffD2])
    show "unat (word_of_nat (unat b + 256 * le_val bs) :: u8) = unat b"
      using unat_byte_less [of b] by (simp only: unat_word_of_nat_u8) simp
  qed
  have d: "(unat b + 256 * le_val bs) div 256 = le_val bs"
    using unat_byte_less [of b] by simp
  show ?case
    by (simp only: le_val.simps le_bytes.simps list.size length_Cons add_Suc_right add_0_right b d Cons.IH)
qed

lemma le_val_inj: "length as = length bs \<Longrightarrow> le_val as = le_val bs \<Longrightarrow> as = bs"
  by (metis le_bytes_le_val)

text \<open>\<open>u64::to_le_bytes\<close>, \<open>u64::from_le_bytes\<close> and the 32-bit versions.\<close>

definition u64_to_le :: "u64 \<Rightarrow> bytes" where
  "u64_to_le w = le_bytes 8 (unat w)"

definition u64_from_le :: "bytes \<Rightarrow> u64" where
  "u64_from_le bs = word_of_nat (le_val bs)"

definition u32_to_le :: "u32 \<Rightarrow> bytes" where
  "u32_to_le w = le_bytes 4 (unat w)"

definition u32_from_le :: "bytes \<Rightarrow> u32" where
  "u32_from_le bs = word_of_nat (le_val bs)"

lemma length_u64_to_le [simp]: "length (u64_to_le w) = 8"
  by (simp add: u64_to_le_def)

lemma length_u32_to_le [simp]: "length (u32_to_le w) = 4"
  by (simp add: u32_to_le_def)

lemma u64_from_to [simp]: "u64_from_le (u64_to_le w) = w"
proof -
  have "unat w mod 256 ^ 8 = unat w"
    using unsigned_less [of w, where 'a = nat] by simp
  then show ?thesis
    by (simp add: u64_from_le_def u64_to_le_def)
qed

lemma u32_from_to [simp]: "u32_from_le (u32_to_le w) = w"
proof -
  have "unat w mod 256 ^ 4 = unat w"
    using unsigned_less [of w, where 'a = nat] by simp
  then show ?thesis
    by (simp add: u32_from_le_def u32_to_le_def)
qed

lemma u64_to_from:
  assumes "length bs = 8"
  shows "u64_to_le (u64_from_le bs) = bs"
proof -
  have "le_val bs < 2 ^ 64"
    using le_val_less [of bs] assms by simp
  then have "unat (word_of_nat (le_val bs) :: u64) = le_val bs"
    by (simp add: unat_of_nat)
  then show ?thesis
    using le_bytes_le_val [of bs] assms by (simp add: u64_from_le_def u64_to_le_def)
qed

lemma u32_to_from:
  assumes "length bs = 4"
  shows "u32_to_le (u32_from_le bs) = bs"
proof -
  have "le_val bs < 2 ^ 32"
    using le_val_less [of bs] assms by simp
  then have "unat (word_of_nat (le_val bs) :: u32) = le_val bs"
    by (simp add: unat_of_nat)
  then show ?thesis
    using le_bytes_le_val [of bs] assms by (simp add: u32_from_le_def u32_to_le_def)
qed

section \<open>Invariants of step relations\<close>

text \<open>
  The interface between a component that runs as a step relation and the properties of its
  runs: the component shows that a step keeps the invariant, and every reachable state has it.
\<close>

locale step_invariant =
  fixes step :: "'s \<Rightarrow> 's \<Rightarrow> bool" and inv :: "'s \<Rightarrow> bool"
  assumes step_inv: "step s s' \<Longrightarrow> inv s \<Longrightarrow> inv s'"
begin

lemma reachable_inv: "step\<^sup>*\<^sup>* s s' \<Longrightarrow> inv s \<Longrightarrow> inv s'"
  by (induction rule: rtranclp_induct) (auto intro: step_inv)

end

end
