(* ===== verification/Ascii.thy ===== *)
theory Ascii
  imports Prelude
begin

text \<open>
  The string operations of Rust's standard library that the command line and the
  configuration code use: splitting, trimming, ASCII case folding, substring and prefix
  tests, and decimal parsing of a \<open>u64\<close>.
\<close>

text \<open>\<open>str::split\<close> on a character.\<close>

fun split_on :: "char \<Rightarrow> string \<Rightarrow> string list" where
  "split_on c [] = [[]]"
| "split_on c (x # xs) =
     (if x = c then [] # split_on c xs
      else case split_on c xs of [] \<Rightarrow> [[x]] | w # ws \<Rightarrow> (x # w) # ws)"

text \<open>\<open>str::trim\<close> of ASCII white space.\<close>

definition is_space :: "char \<Rightarrow> bool" where
  "is_space c \<longleftrightarrow> c \<in> set [CHR '' '', CHR 0x09, CHR 0x0A, CHR 0x0B, CHR 0x0C, CHR 0x0D]"

definition trim :: "string \<Rightarrow> string" where
  "trim s = rev (dropWhile is_space (rev (dropWhile is_space s)))"

definition to_ascii_lowercase :: "string \<Rightarrow> string" where
  "to_ascii_lowercase = map (\<lambda>c. if 65 \<le> (of_char c :: nat) \<and> (of_char c :: nat) \<le> 90 then char_of ((of_char c :: nat) + 32) else c)"

definition eq_ignore_ascii_case :: "string \<Rightarrow> string \<Rightarrow> bool" where
  "eq_ignore_ascii_case a b \<longleftrightarrow> to_ascii_lowercase a = to_ascii_lowercase b"

fun starts_with :: "string \<Rightarrow> string \<Rightarrow> bool" where
  "starts_with s [] = True"
| "starts_with [] (p # ps) = False"
| "starts_with (c # cs) (p # ps) \<longleftrightarrow> c = p \<and> starts_with cs ps"

fun contains :: "string \<Rightarrow> string \<Rightarrow> bool" where
  "contains [] p \<longleftrightarrow> p = []"
| "contains (c # cs) p \<longleftrightarrow> starts_with (c # cs) p \<or> contains cs p"

definition is_ascii_digit :: "char \<Rightarrow> bool" where
  "is_ascii_digit c \<longleftrightarrow> 48 \<le> (of_char c :: nat) \<and> (of_char c :: nat) \<le> 57"

definition is_ascii_alphanumeric :: "char \<Rightarrow> bool" where
  "is_ascii_alphanumeric c \<longleftrightarrow> is_ascii_digit c \<or> 65 \<le> (of_char c :: nat) \<and> (of_char c :: nat) \<le> 90 \<or>
     97 \<le> (of_char c :: nat) \<and> (of_char c :: nat) \<le> 122"

text \<open>\<open>str::parse::<u64>\<close>: an optional plus sign, at least one digit, and no overflow.\<close>

definition digits_val :: "string \<Rightarrow> nat" where
  "digits_val ds = fold (\<lambda>c n. n * 10 + ((of_char c :: nat) - 48)) ds 0"

definition parse_u64 :: "string \<Rightarrow> nat option" where
  "parse_u64 s =
     (let ds = (case s of [] \<Rightarrow> [] | c # cs \<Rightarrow> if c = CHR ''+'' then cs else s)
      in if ds \<noteq> [] \<and> list_all is_ascii_digit ds \<and> digits_val ds < 2 ^ 64 then Some (digits_val ds) else None)"

text \<open>Decimal printing of an unsigned integer (\<open>Display\<close>).\<close>

fun show_nat :: "nat \<Rightarrow> string" where
  "show_nat n =
     (if n < 10 then [''0123456789'' ! n] else show_nat (n div 10) @ [''0123456789'' ! (n mod 10)])"

declare show_nat.simps [simp del]

lemma digits_val_snoc: "digits_val (ds @ [c]) = digits_val ds * 10 + ((of_char c :: nat) - 48)"
  by (simp add: digits_val_def)

lemma digit_char:
  assumes "d < 10"
  shows "is_ascii_digit (''0123456789'' ! d)" "(of_char (''0123456789'' ! d) :: nat) - 48 = d"
proof -
  have "d \<in> {0, 1, 2, 3, 4, 5, 6, 7, 8, 9}" using assms by auto
  then show "is_ascii_digit (''0123456789'' ! d)" "(of_char (''0123456789'' ! d) :: nat) - 48 = d"
    by (auto simp: is_ascii_digit_def)
qed

text \<open>What is printed is a decimal numeral of the number.\<close>

lemma show_nat_digits: "show_nat n \<noteq> [] \<and> list_all is_ascii_digit (show_nat n) \<and> digits_val (show_nat n) = n"
proof (induction n rule: show_nat.induct)
  case (1 n)
  show ?case
  proof (cases "n < 10")
    case True
    then show ?thesis using digit_char [OF True] by (simp add: show_nat.simps [of n] digits_val_def)
  next
    case False
    moreover have "n mod 10 < 10" by simp
    ultimately show ?thesis
      using 1 [OF False] digit_char [of "n mod 10"] digits_val_snoc
      by (simp add: show_nat.simps [of n] list_all_iff)
  qed
qed

lemma starts_with_iff: "starts_with s p \<longleftrightarrow> (\<exists>t. s = p @ t)"
  by (induction s p rule: starts_with.induct) auto

lemma contains_iff: "contains s p \<longleftrightarrow> (\<exists>a b. s = a @ p @ b)"
proof (induction s p rule: contains.induct)
  case (2 c cs p)
  show ?case
  proof
    assume "contains (c # cs) p"
    with 2 show "\<exists>a b. c # cs = a @ p @ b"
      by (auto simp: starts_with_iff simp del: starts_with.simps) (metis append_Nil | metis append_Cons)+
  next
    assume "\<exists>a b. c # cs = a @ p @ b"
    then obtain a b where e: "c # cs = a @ p @ b" by blast
    show "contains (c # cs) p"
    proof (cases a)
      case Nil
      with e have "starts_with (c # cs) p" by (auto simp only: starts_with_iff append_Nil)
      then show ?thesis by (simp del: starts_with.simps)
    next
      case (Cons x xs)
      with e have "\<exists>a b. cs = a @ p @ b" by auto
      then show ?thesis using 2 by (simp del: starts_with.simps)
    qed
  qed
qed simp

end
