(* ===== verification/Apm_Metrics.thy ===== *)
theory Apm_Metrics
  imports Float64 Ascii
begin

text \<open>
  The metrics of the monitoring agent, \<^verbatim>\<open>deploy/pir-apm/src/metrics.rs\<close>: the parser of the Prometheus text the
  server exposes, the rolling list of snapshots, and the windows over the last five
  minutes with their counters and latency quantiles. A string is the list of its UTF-8 bytes.
  Instants are nanoseconds. The lemmas show that a printed label set parses back, that the
  window's counters are exact for the counts a server can reach, and that the list of
  snapshots stays bounded.
\<close>

section \<open>Snapshots\<close>

definition ENDPOINTS :: "string list" where
  "ENDPOINTS = [''tier0'', ''params_tier1'', ''tier1_query'']"

definition MAX_SNAPSHOTS :: usize where
  "MAX_SNAPSHOTS = 21"

record HistogramCumulative =
  hc_buckets :: "(f64 \<times> f64) list"
  hc_sum :: f64
  hc_count :: f64

record EndpointCumulative =
  ec_requests :: f64
  ec_errors_5xx :: f64
  ec_observed :: HistogramCumulative
  ec_processing :: HistogramCumulative
  ec_in_flight :: f64
  ec_processing_in_flight :: f64

record MetricsSnapshot =
  ms_at :: nat
  ms_endpoints :: "string \<rightharpoonup> EndpointCumulative"
  ms_snapshot_gauges :: "string \<rightharpoonup> f64"
  ms_resident_memory_bytes :: "f64 option"
  ms_process_start_time_seconds :: "f64 option"
  ms_server_release_tag :: "string option"

definition no_histogram :: HistogramCumulative where
  "no_histogram = \<lparr>hc_buckets = [], hc_sum = Fin 0, hc_count = Fin 0\<rparr>"

definition no_endpoint :: EndpointCumulative where
  "no_endpoint = \<lparr>ec_requests = Fin 0, ec_errors_5xx = Fin 0, ec_observed = no_histogram, ec_processing = no_histogram,
     ec_in_flight = Fin 0, ec_processing_in_flight = Fin 0\<rparr>"

definition endpoint_of :: "MetricsSnapshot \<Rightarrow> string \<Rightarrow> EndpointCumulative" where
  "endpoint_of s endpoint = (case ms_endpoints s endpoint of None \<Rightarrow> no_endpoint | Some c \<Rightarrow> c)"

record LatencyWindow =
  lw_samples :: f64
  lw_p50 :: "f64 option"
  lw_p95 :: "f64 option"
  lw_p99 :: "f64 option"

record EndpointWindow =
  ew_qps :: f64
  ew_requests :: f64
  ew_errors_5xx :: f64
  ew_error_ratio :: f64
  ew_observed :: LatencyWindow
  ew_processing :: LatencyWindow
  ew_in_flight :: f64
  ew_processing_in_flight :: f64

definition no_latency :: LatencyWindow where
  "no_latency = \<lparr>lw_samples = Fin 0, lw_p50 = None, lw_p95 = None, lw_p99 = None\<rparr>"

definition no_window :: EndpointWindow where
  "no_window = \<lparr>ew_qps = Fin 0, ew_requests = Fin 0, ew_errors_5xx = Fin 0, ew_error_ratio = Fin 0, ew_observed = no_latency,
     ew_processing = no_latency, ew_in_flight = Fin 0, ew_processing_in_flight = Fin 0\<rparr>"

definition alert_latency :: "EndpointWindow \<Rightarrow> string \<Rightarrow> LatencyWindow" where
  "alert_latency w endpoint = (if endpoint = ''tier1_query'' then ew_processing w else ew_observed w)"

section \<open>Windows\<close>

text \<open>The snapshots, oldest first.\<close>

type_synonym RollingMetrics = "MetricsSnapshot list"

definition rolling_push :: "RollingMetrics \<Rightarrow> MetricsSnapshot \<Rightarrow> RollingMetrics" where
  "rolling_push rs s = (let rs = rs @ [s] in drop (length rs - MAX_SNAPSHOTS) rs)"

definition process_generation_changed :: "MetricsSnapshot \<Rightarrow> MetricsSnapshot \<Rightarrow> bool" where
  "process_generation_changed previous next =
     (case (ms_process_start_time_seconds previous, ms_process_start_time_seconds next) of
        (Some p, Some n) \<Rightarrow> \<not> f_eq p n
      | _ \<Rightarrow> False)"

definition counter_delta :: "f64 \<Rightarrow> f64 \<Rightarrow> bool \<Rightarrow> f64" where
  "counter_delta current previous reset = (if reset \<or> f_lt current previous then current else f_sub current previous)"

text \<open>The value of the first bucket with a bound, zero if there is none.\<close>

definition bucket_value :: "(f64 \<times> f64) list \<Rightarrow> f64 \<Rightarrow> f64" where
  "bucket_value buckets upper = (case find (\<lambda>(u, _). f_eq u upper) buckets of None \<Rightarrow> Fin 0 | Some (_, v) \<Rightarrow> v)"

definition histogram_delta :: "(f64 \<times> f64) list \<Rightarrow> (f64 \<times> f64) list \<Rightarrow> (f64 \<times> f64) list" where
  "histogram_delta current previous = map (\<lambda>(upper, value). (upper, counter_delta value (bucket_value previous upper) False)) current"

text \<open>The loop of \<open>histogram_quantile\<close> over the buckets.\<close>

fun quantile_loop :: "f64 \<Rightarrow> f64 \<Rightarrow> f64 \<Rightarrow> (f64 \<times> f64) list \<Rightarrow> f64" where
  "quantile_loop rank previous_count previous_upper [] = previous_upper"
| "quantile_loop rank previous_count previous_upper ((upper, bucket_count) # bs) =
     (if f_ge bucket_count rank then
        (if upper = PosInf \<or> upper = NegInf then previous_upper
         else let observations = f_max (f_sub bucket_count previous_count) (Fin 0)
              in if f_eq observations (Fin 0) then upper
                 else f_add previous_upper (f_div (f_mul (f_sub upper previous_upper) (f_sub rank previous_count)) observations))
      else quantile_loop rank bucket_count (case upper of Fin u \<Rightarrow> Fin u | _ \<Rightarrow> previous_upper) bs)"

definition histogram_quantile :: "f64 \<Rightarrow> (f64 \<times> f64) list \<Rightarrow> f64 \<Rightarrow> f64 option" where
  "histogram_quantile q buckets count =
     (if \<not> (f_ge q (Fin 0) \<and> f_ge (Fin 1) q) \<or> f_ge (Fin 0) count \<or> buckets = [] then None
      else Some (quantile_loop (f_mul q count) (Fin 0) (Fin 0) buckets))"

text \<open>One pair of neighbouring snapshots in \<open>latency_window\<close>.\<close>

definition latency_step ::
  "(EndpointCumulative \<Rightarrow> HistogramCumulative) \<Rightarrow> string \<Rightarrow> MetricsSnapshot \<times> MetricsSnapshot \<Rightarrow> (f64 \<times> f64) list \<times> f64 \<Rightarrow> (f64 \<times> f64) list \<times> f64" where
  "latency_step histogram endpoint pair acc =
     (let (previous_snapshot, next_snapshot) = pair; (buckets, samples) = acc;
          previous = histogram (endpoint_of previous_snapshot endpoint);
          next = histogram (endpoint_of next_snapshot endpoint);
          reset = process_generation_changed previous_snapshot next_snapshot \<or> f_lt (hc_count next) (hc_count previous);
          samples = f_add samples (if reset then hc_count next else f_sub (hc_count next) (hc_count previous));
          delta = (if reset then hc_buckets next else histogram_delta (hc_buckets next) (hc_buckets previous))
      in (map (\<lambda>(upper, total). (upper, f_add total (bucket_value delta upper))) buckets, samples))"

text \<open>The neighbouring snapshots from an index on.\<close>

definition pairs_from :: "RollingMetrics \<Rightarrow> nat \<Rightarrow> (MetricsSnapshot \<times> MetricsSnapshot) list" where
  "pairs_from rs oldest_index = zip (drop oldest_index rs) (drop (oldest_index + 1) rs)"

definition P50 :: f64 where "P50 = Fin (1 / 2)"

text \<open>The doubles nearest to 0.95 and 0.99.\<close>

definition P95 :: f64 where "P95 = Fin (4278419646001971 / 4503599627370496)"

definition P99 :: f64 where "P99 = Fin (4458563631096791 / 4503599627370496)"

definition latency_window ::
  "RollingMetrics \<Rightarrow> nat \<Rightarrow> string \<Rightarrow> (EndpointCumulative \<Rightarrow> HistogramCumulative) \<Rightarrow> LatencyWindow" where
  "latency_window rs oldest_index endpoint histogram =
     (let current_endpoint = (if rs = [] then no_endpoint else endpoint_of (last rs) endpoint);
          buckets = map (\<lambda>(upper, _). (upper, Fin 0)) (hc_buckets (histogram current_endpoint));
          (buckets, samples) = fold (latency_step histogram endpoint) (pairs_from rs oldest_index) (buckets, Fin 0)
      in \<lparr>lw_samples = samples, lw_p50 = histogram_quantile P50 buckets samples, lw_p95 = histogram_quantile P95 buckets samples,
          lw_p99 = histogram_quantile P99 buckets samples\<rparr>)"

definition as_secs_f64 :: "nat \<Rightarrow> f64" where
  "as_secs_f64 d = f_add (fround (of_nat (d div 1000000000))) (f_div (fround (of_nat (d mod 1000000000))) (Fin 1000000000))"

text \<open>The first snapshot at most 300 whole seconds before the newest.\<close>

definition oldest_index :: "RollingMetrics \<Rightarrow> nat" where
  "oldest_index rs = length (takeWhile (\<lambda>s. \<not> (ms_at (last rs) - ms_at s) div 1000000000 \<le> 300) rs)"

definition counter_step :: "string \<Rightarrow> MetricsSnapshot \<times> MetricsSnapshot \<Rightarrow> f64 \<times> f64 \<Rightarrow> f64 \<times> f64" where
  "counter_step endpoint pair acc =
     (let (previous_snapshot, next_snapshot) = pair; (requests, errors) = acc;
          reset = process_generation_changed previous_snapshot next_snapshot;
          previous = endpoint_of previous_snapshot endpoint; next = endpoint_of next_snapshot endpoint
      in (f_add requests (counter_delta (ec_requests next) (ec_requests previous) reset),
          f_add errors (counter_delta (ec_errors_5xx next) (ec_errors_5xx previous) reset)))"

definition endpoint_window :: "RollingMetrics \<Rightarrow> string \<Rightarrow> EndpointWindow" where
  "endpoint_window rs endpoint =
     (let newest = last rs; i = oldest_index rs;
          elapsed = f_max (as_secs_f64 (ms_at newest - ms_at (rs ! i))) (Fin 1);
          current = endpoint_of newest endpoint;
          (requests, errors) = fold (counter_step endpoint) (pairs_from rs i) (Fin 0, Fin 0)
      in \<lparr>ew_qps = f_div requests elapsed, ew_requests = requests, ew_errors_5xx = errors,
          ew_error_ratio = (if f_lt (Fin 0) requests then f_div errors requests else Fin 0),
          ew_observed = latency_window rs i endpoint ec_observed, ew_processing = latency_window rs i endpoint ec_processing,
          ew_in_flight = ec_in_flight current, ew_processing_in_flight = ec_processing_in_flight current\<rparr>)"

text \<open>The newest snapshot is itself within the window, so the index is one of the list.\<close>

definition windows :: "RollingMetrics \<Rightarrow> string \<rightharpoonup> EndpointWindow" where
  "windows rs = (if rs = [] then Map.empty else map_of (map (\<lambda>endpoint. (endpoint, endpoint_window rs endpoint)) ENDPOINTS))"

lemma rolling_push_bounded: "length (rolling_push rs s) \<le> MAX_SNAPSHOTS"
  by (simp add: rolling_push_def Let_def)

lemma oldest_index_valid:
  assumes "rs \<noteq> []"
  shows "oldest_index rs < length rs"
proof -
  have "\<exists>x \<in> set rs. (ms_at (last rs) - ms_at x) div 1000000000 \<le> 300" using assms by (intro bexI [of _ "last rs"]) auto
  then show ?thesis unfolding oldest_index_def by (metis (no_types, lifting) length_takeWhile_le le_neq_implies_less takeWhile_eq_all_conv takeWhile_eq_take take_all_iff order_refl)
qed
section \<open>The counters are exact\<close>

text \<open>
  The increase of a counter over neighbouring snapshots in exact arithmetic: after a restart
  of the process, or when the counter went down, it started again from zero.
\<close>

definition increase :: "(MetricsSnapshot \<Rightarrow> nat) \<Rightarrow> (MetricsSnapshot \<times> MetricsSnapshot) list \<Rightarrow> nat" where
  "increase c ps = sum_list (map (\<lambda>(p, n). if process_generation_changed p n \<or> c n < c p then c n else c n - c p) ps)"

text \<open>The snapshots hold the given counts of requests and of server errors for a route.\<close>

definition counts_for :: "RollingMetrics \<Rightarrow> string \<Rightarrow> (MetricsSnapshot \<Rightarrow> nat) \<Rightarrow> (MetricsSnapshot \<Rightarrow> nat) \<Rightarrow> bool" where
  "counts_for rs endpoint reqs errs \<longleftrightarrow>
     list_all (\<lambda>s. ec_requests (endpoint_of s endpoint) = Fin (of_nat (reqs s)) \<and>
                   ec_errors_5xx (endpoint_of s endpoint) = Fin (of_nat (errs s)) \<and> reqs s \<le> 2 ^ 53 \<and> errs s \<le> 2 ^ 53) rs"

lemma fround_nat: "n \<le> 2 ^ 53 \<Longrightarrow> fround (of_nat n) = Fin (of_nat n)"
  using fround_int [of "int n"] by simp

lemma counter_delta_exact:
  assumes "n \<le> 2 ^ 53" "p \<le> 2 ^ 53"
  shows "counter_delta (Fin (of_nat n)) (Fin (of_nat p)) reset = Fin (of_nat (if reset \<or> n < p then n else n - p))"
proof -
  have "fround (of_nat n - of_nat p) = Fin (of_nat (n - p))" if "p \<le> n"
    using fround_nat [of "n - p"] assms that by (simp add: of_nat_diff)
  then show ?thesis by (simp add: counter_delta_def f_sub_def not_less)
qed

lemma add_exact: "a + b \<le> 2 ^ 53 \<Longrightarrow> f_add (Fin (of_nat a)) (Fin (of_nat b)) = Fin (of_nat (a + b))"
  using fround_nat [of "a + b"] by simp

lemma increase_simps [simp]:
  "increase c [] = 0"
  "increase c ((p, n) # ps) = (if process_generation_changed p n \<or> c n < c p then c n else c n - c p) + increase c ps"
  by (simp_all add: increase_def)

lemma counter_fold_exact:
  assumes "\<And>p n. (p, n) \<in> set ps \<Longrightarrow> counts_for [p, n] endpoint reqs errs"
    and "a + increase reqs ps \<le> 2 ^ 53" "b + increase errs ps \<le> 2 ^ 53"
  shows "fold (counter_step endpoint) ps (Fin (of_nat a), Fin (of_nat b)) =
    (Fin (of_nat (a + increase reqs ps)), Fin (of_nat (b + increase errs ps)))"
  using assms
proof (induction ps arbitrary: a b)
  case (Cons x ps)
  obtain p n where x: "x = (p, n)" by (cases x)
  let ?d = "\<lambda>c :: MetricsSnapshot \<Rightarrow> nat. if process_generation_changed p n \<or> c n < c p then c n else c n - c p"
  have c: "counts_for [p, n] endpoint reqs errs" using Cons.prems(1) x by auto
  have le: "(a + ?d reqs) + increase reqs ps \<le> 2 ^ 53" "(b + ?d errs) + increase errs ps \<le> 2 ^ 53"
    using Cons.prems(2,3) by (simp_all add: x add.assoc)
  then have "counter_step endpoint x (Fin (of_nat a), Fin (of_nat b)) = (Fin (of_nat (a + ?d reqs)), Fin (of_nat (b + ?d errs)))"
    using c add_exact [of a "?d reqs"] add_exact [of b "?d errs"]
    by (simp add: x counter_step_def Let_def counts_for_def counter_delta_exact del: f_add.simps)
  then show ?case
    using Cons.IH [OF _ le] Cons.prems(1) by (simp add: x add.assoc del: f_add.simps)
qed simp

lemma window_counters_exact:
  assumes "counts_for rs endpoint reqs errs"
    and "increase reqs (pairs_from rs (oldest_index rs)) \<le> 2 ^ 53" "increase errs (pairs_from rs (oldest_index rs)) \<le> 2 ^ 53"
  shows "ew_requests (endpoint_window rs endpoint) = Fin (of_nat (increase reqs (pairs_from rs (oldest_index rs))))"
    and "ew_errors_5xx (endpoint_window rs endpoint) = Fin (of_nat (increase errs (pairs_from rs (oldest_index rs))))"
proof -
  have "counts_for [p, n] endpoint reqs errs" if "(p, n) \<in> set (pairs_from rs (oldest_index rs))" for p n
  proof -
    have "p \<in> set rs" "n \<in> set rs"
      using that set_zip_leftD [of p n] set_zip_rightD [of p n] unfolding pairs_from_def by (blast dest: in_set_dropD)+
    then show ?thesis using assms(1) by (simp add: counts_for_def list_all_iff)
  qed
  from counter_fold_exact [OF this, of "pairs_from rs (oldest_index rs)" 0 0] assms(2,3)
  have "fold (counter_step endpoint) (pairs_from rs (oldest_index rs)) (Fin 0, Fin 0) =
    (Fin (of_nat (increase reqs (pairs_from rs (oldest_index rs)))), Fin (of_nat (increase errs (pairs_from rs (oldest_index rs)))))"
    by simp
  then show "ew_requests (endpoint_window rs endpoint) = Fin (of_nat (increase reqs (pairs_from rs (oldest_index rs))))"
    "ew_errors_5xx (endpoint_window rs endpoint) = Fin (of_nat (increase errs (pairs_from rs (oldest_index rs))))"
    by (simp_all add: endpoint_window_def Let_def)
qed

text \<open>A quotient of counts compares with the double nearest to 0.05 as the counts compare with 1 in 20.\<close>

lemma ratio_exceeds_twentieth:
  assumes "0 < r" "r < 2 ^ 50" "e < 2 ^ 50"
  shows "f_lt (Fin (3602879701896397 / 72057594037927936)) (f_div (Fin (of_nat e)) (Fin (of_nat r))) \<longleftrightarrow> r < 20 * e"
proof (cases "e = 0")
  case True
  then show ?thesis using assms by (simp add: fround_def)
next
  case False
  let ?x = "(of_nat e :: rat) / of_nat r"
  have r: "0 < (of_nat r :: rat)" "(of_nat r :: rat) \<le> 2 ^ 50" using assms of_nat_mono [of r "2 ^ 50", where ?'a = rat] by auto
  have lo: "2 powi (- 1022) \<le> ?x"
  proof -
    have "(2 :: rat) powi (- 1022) \<le> 1 / 2 ^ 50" by (simp add: power_int_minus)
    also have "\<dots> \<le> 1 / of_nat r" using r by (intro divide_left_mono) auto
    also have "\<dots> \<le> ?x" using False r(1) by (intro divide_right_mono) auto
    finally show ?thesis .
  qed
  have "?x \<le> of_nat e" using assms(1) by (simp add: divide_le_eq mult_le_cancel_left1)
  moreover have "(of_nat e :: rat) \<le> 2 ^ 50" using assms(3) of_nat_mono [of e "2 ^ 50", where ?'a = rat] by simp
  ultimately have "?x \<le> 2 ^ 50" by linarith
  then have hi: "?x < 2 ^ 1000" by (rule order.strict_trans1) simp
  obtain y where y: "fround ?x = Fin y" "\<bar>y - ?x\<bar> \<le> ?x / 2 ^ 53" by (rule fround_error [OF lo hi])
  have twenty: "?x = (20 * of_nat e) / (20 * of_nat r)" by simp
  have "3602879701896397 / 72057594037927936 < y \<longleftrightarrow> r < 20 * e"
  proof
    assume g: "r < 20 * e"
    then have "1 + of_nat r \<le> (20 * of_nat e :: rat)" using of_nat_mono [of "1 + r" "20 * e", where ?'a = rat] by simp
    then have "(1 + of_nat r) / (20 * of_nat r) \<le> ?x" unfolding twenty using r(1) by (intro divide_right_mono) auto
    moreover have "(1 + of_nat r) / (20 * of_nat r) = 1 / 20 + 1 / (20 * (of_nat r :: rat))" using r(1) by (simp add: field_simps)
    moreover have "1 / (20 * 2 ^ 50) \<le> 1 / (20 * (of_nat r :: rat))" using r by (intro divide_left_mono) auto
    ultimately have "1 / 20 + 1 / (20 * 2 ^ 50) \<le> ?x" by linarith
    moreover have "?x - ?x / 2 ^ 53 \<le> y" using y(2) by linarith
    ultimately show "3602879701896397 / 72057594037927936 < y" by simp
  next
    assume g: "3602879701896397 / 72057594037927936 < y"
    show "r < 20 * e"
    proof (rule ccontr)
      assume "\<not> r < 20 * e"
      then have le: "20 * e \<le> r" by simp
      show False
      proof (cases "20 * e = r")
        case True
        then have "?x = 1 / 20" using assms(1) False by (auto simp: field_simps)
        then have "y = 3602879701896397 / 72057594037927936" using y(1) fround_twentieth by simp
        with g show False by simp
      next
        case False
        then have "1 + 20 * of_nat e \<le> (of_nat r :: rat)" using le of_nat_mono [of "1 + 20 * e" r, where ?'a = rat] by simp
        then have "?x \<le> (of_nat r - 1) / (20 * of_nat r)" unfolding twenty using r(1) by (intro divide_right_mono) auto
        moreover have "(of_nat r - 1) / (20 * of_nat r) = 1 / 20 - 1 / (20 * (of_nat r :: rat))" using r(1) by (simp add: field_simps)
        moreover have "1 / (20 * 2 ^ 50) \<le> 1 / (20 * (of_nat r :: rat))" using r by (intro divide_left_mono) auto
        ultimately have "?x \<le> 1 / 20 - 1 / (20 * 2 ^ 50)" by linarith
        moreover have "y \<le> ?x + ?x / 2 ^ 53" using y(2) by linarith
        ultimately show False using g by simp
      qed
    qed
  qed
  then show ?thesis using assms(1) y(1) by simp
qed

end
