(* ===== verification/Alerts.thy ===== *)
theory Alerts
  imports Apm_Metrics "HOL-Library.Char_ord" "HOL-Library.List_Lexorder"
begin

text \<open>
  The alert engine of the monitoring sidecar, \<^verbatim>\<open>deploy/pir-apm/src/alerts.rs\<close>, with its
  thresholds; a threshold is the exact value of its literal. What an alert observed is kept as
  data instead of the text that is printed from it. The wall clock is
  read once per evaluation. The engine is proved equal to a specification over the history of
  its inputs: a notification at every edge of a condition and none in between.
\<close>

section \<open>Thresholds\<close>

definition SCRAPE_FAILURE_TICKS :: nat where "SCRAPE_FAILURE_TICKS = 2"

definition READY_FAILURE_SECONDS :: nat where "READY_FAILURE_SECONDS = 5 * 60"

text \<open>The double nearest to 0.05.\<close>

definition HTTP_5XX_RATIO :: f64 where "HTTP_5XX_RATIO = Fin (3602879701896397 / 72057594037927936)"

definition HTTP_5XX_MIN_REQUESTS :: f64 where "HTTP_5XX_MIN_REQUESTS = Fin 10"

definition TIER1_PROCESSING_P99_SECONDS :: f64 where "TIER1_PROCESSING_P99_SECONDS = Fin 2"

definition TIER0_P99_SECONDS :: f64 where "TIER0_P99_SECONDS = Fin 1"

definition PARAMS_P99_SECONDS :: f64 where "PARAMS_P99_SECONDS = Fin (1 / 2)"

definition LATENCY_MIN_REQUESTS :: f64 where "LATENCY_MIN_REQUESTS = Fin 20"

text \<open>The double nearest to 0.90.\<close>

definition DISK_USED_RATIO :: f64 where "DISK_USED_RATIO = Fin (8106479329266893 / 9007199254740992)"

definition MEMORY_AVAILABLE_BYTES :: u64 where "MEMORY_AVAILABLE_BYTES = 512 * 1024 * 1024"

section \<open>Inputs\<close>

record HostHealth =
  hh_load_one :: f64
  hh_load_five :: f64
  hh_load_fifteen :: f64
  hh_total_memory_bytes :: u64
  hh_available_memory_bytes :: u64
  hh_disk_total_bytes :: u64
  hh_disk_available_bytes :: u64
  hh_disk_used_ratio :: f64
  hh_data_dir :: string

text \<open>An instant is a number of nanoseconds.\<close>

record AlertInput =
  ai_now :: nat
  ai_scrape_ok :: bool
  ai_ready_ok :: bool
  ai_endpoints :: "string \<rightharpoonup> EndpointWindow"
  ai_host :: HostHealth

section \<open>The engine\<close>

datatype reading =
    FailedTicks nat
  | NotReadyFor nat
  | ErrorRatio f64 f64
  | NoProcessing f64
  | Latency "f64 option" f64
  | DiskUsed f64
  | MemoryAvailable u64

record Alert =
  al_check :: string
  al_observed :: reading
  al_threshold :: string
  al_fired_at :: nat

datatype AlertTransition = Fired Alert | RecoveredFrom Alert

datatype log_line = LogFired string reading | LogRecovered string

record AlertEngine =
  ae_active :: "string \<rightharpoonup> Alert"
  ae_recent :: "(nat \<times> log_line) list"
  ae_scrape_failures :: nat
  ae_ready_failed_since :: "nat option"

definition engine_default :: AlertEngine where
  "engine_default = \<lparr>ae_active = Map.empty, ae_recent = [], ae_scrape_failures = 0, ae_ready_failed_since = None\<rparr>"

text \<open>\<open>BTreeMap::insert\<close> on the sorted list of entries.\<close>

fun btree_insert :: "string \<Rightarrow> 'v \<Rightarrow> (string \<times> 'v) list \<Rightarrow> (string \<times> 'v) list" where
  "btree_insert k v [] = [(k, v)]"
| "btree_insert k v ((k', v') # m) =
     (if k < k' then (k, v) # (k', v') # m
      else if k = k' then (k, v) # m
      else (k', v') # btree_insert k v m)"

type_synonym condition = "bool \<times> reading \<times> string"

text \<open>The latency check of an endpoint: its threshold and the text of the threshold.\<close>

definition latency_check :: "string \<Rightarrow> f64 \<times> string" where
  "latency_check endpoint =
     (if endpoint = ''tier0'' then (TIER0_P99_SECONDS, ''p99 > 1.000s over 5m, min 20'')
      else if endpoint = ''params_tier1'' then (PARAMS_P99_SECONDS, ''p99 > 0.500s over 5m, min 20'')
      else (TIER1_PROCESSING_P99_SECONDS, ''processing p99 > 2.000s over 5m, min 20''))"

definition endpoint_conditions :: "AlertInput \<Rightarrow> string \<Rightarrow> (string \<times> condition) list \<Rightarrow> (string \<times> condition) list" where
  "endpoint_conditions input endpoint conditions =
     (let w = (case ai_endpoints input endpoint of None \<Rightarrow> no_window | Some w \<Rightarrow> w);
          conditions = btree_insert (endpoint @ ''_5xx'')
            (f_ge (ew_requests w) HTTP_5XX_MIN_REQUESTS \<and> f_lt HTTP_5XX_RATIO (ew_error_ratio w),
             ErrorRatio (ew_error_ratio w) (ew_requests w), ''> 5% over 5m, min 10'') conditions;
          (latency_threshold, text) = latency_check endpoint;
          conditions = (if endpoint = ''tier1_query''
            then btree_insert ''tier1_query_processing_metric_missing''
                   (f_ge (lw_samples (ew_observed w)) LATENCY_MIN_REQUESTS \<and> f_eq (lw_samples (ew_processing w)) (Fin 0),
                    NoProcessing (lw_samples (ew_observed w)), ''processing samples == 0 over 5m, min 20 requests'') conditions
            else conditions);
          latency = alert_latency w endpoint
      in btree_insert (endpoint @ ''_high_latency'')
           (f_ge (lw_samples latency) LATENCY_MIN_REQUESTS \<and>
              (case lw_p99 latency of None \<Rightarrow> False | Some p99 \<Rightarrow> f_lt latency_threshold p99),
            Latency (lw_p99 latency) (lw_samples latency), text) conditions)"

definition secs_of :: "nat \<Rightarrow> nat" where
  "secs_of d = d div 1000000000"

definition conditions :: "nat \<Rightarrow> nat option \<Rightarrow> AlertInput \<Rightarrow> (string \<times> condition) list" where
  "conditions scrape_failures ready_failed_since input =
     (let ready_failed_for = (case ready_failed_since of None \<Rightarrow> 0 | Some since \<Rightarrow> ai_now input - since);
          cs = btree_insert ''scrape_failure''
                 (scrape_failures \<ge> SCRAPE_FAILURE_TICKS, FailedTicks scrape_failures, ''2 ticks'') [];
          cs = btree_insert ''ready''
                 (\<not> ai_ready_ok input \<and> ready_failed_for \<ge> READY_FAILURE_SECONDS * 1000000000,
                  NotReadyFor (secs_of ready_failed_for), ''300s'') cs;
          cs = fold (endpoint_conditions input) ENDPOINTS cs;
          cs = btree_insert ''disk_usage''
                 (f_lt DISK_USED_RATIO (hh_disk_used_ratio (ai_host input)), DiskUsed (hh_disk_used_ratio (ai_host input)), ''> 90%'') cs
      in btree_insert ''memory_available''
           (hh_available_memory_bytes (ai_host input) < MEMORY_AVAILABLE_BYTES,
            MemoryAvailable (hh_available_memory_bytes (ai_host input)), ''< 512 MiB'') cs)"

definition record_line :: "nat \<Rightarrow> log_line \<Rightarrow> AlertEngine \<Rightarrow> AlertEngine" where
  "record_line wall line e = e\<lparr>ae_recent := take 20 ((wall, line) # ae_recent e)\<rparr>"

text \<open>One iteration of the loop over the conditions.\<close>

definition transition_step ::
  "nat \<Rightarrow> string \<times> condition \<Rightarrow> AlertEngine \<times> AlertTransition list \<Rightarrow> AlertEngine \<times> AlertTransition list" where
  "transition_step wall entry s =
     (let (check, firing, observed, threshold) = entry; (e, transitions) = s
      in case (firing, ae_active e check) of
           (True, None) \<Rightarrow>
             (let alert = \<lparr>al_check = check, al_observed = observed, al_threshold = threshold, al_fired_at = wall\<rparr>
              in (record_line wall (LogFired check observed) (e\<lparr>ae_active := (ae_active e)(check \<mapsto> alert)\<rparr>), transitions @ [Fired alert]))
         | (False, Some alert) \<Rightarrow>
             (record_line wall (LogRecovered (al_check alert)) (e\<lparr>ae_active := (ae_active e)(check := None)\<rparr>), transitions @ [RecoveredFrom alert])
         | _ \<Rightarrow> (e, transitions))"

definition evaluate :: "nat \<Rightarrow> AlertEngine \<Rightarrow> AlertInput \<Rightarrow> AlertEngine \<times> AlertTransition list" where
  "evaluate wall e input =
     (let e = e\<lparr>ae_scrape_failures := if ai_scrape_ok input then 0 else min (ae_scrape_failures e + 1) (2 ^ 32 - 1),
                ae_ready_failed_since := if ai_ready_ok input then None
                  else Some (case ae_ready_failed_since e of None \<Rightarrow> ai_now input | Some t \<Rightarrow> t)\<rparr>
      in fold (transition_step wall) (conditions (ae_scrape_failures e) (ae_ready_failed_since e) input) (e, []))"
section \<open>Edges\<close>

text \<open>The checks, in the order of the map.\<close>

definition CHECKS :: "string list" where
  "CHECKS = [''disk_usage'', ''memory_available'', ''params_tier1_5xx'', ''params_tier1_high_latency'', ''ready'', ''scrape_failure'',
     ''tier0_5xx'', ''tier0_high_latency'', ''tier1_query_5xx'', ''tier1_query_high_latency'', ''tier1_query_processing_metric_missing'']"

lemma condition_names: "map fst (conditions sf rf input) = CHECKS"
  by (simp add: conditions_def Let_def ENDPOINTS_def endpoint_conditions_def latency_check_def CHECKS_def less_char_def
      case_prod_unfold)

lemma distinct_checks: "distinct CHECKS"
  by (simp add: CHECKS_def)

text \<open>What one condition contributes, given the active alerts before the evaluation.\<close>

definition edge :: "nat \<Rightarrow> (string \<rightharpoonup> Alert) \<Rightarrow> string \<times> condition \<Rightarrow> AlertTransition list" where
  "edge wall active entry =
     (case entry of (check, firing, observed, threshold) \<Rightarrow>
        if firing \<and> active check = None
        then [Fired \<lparr>al_check = check, al_observed = observed, al_threshold = threshold, al_fired_at = wall\<rparr>]
        else if \<not> firing then (case active check of None \<Rightarrow> [] | Some alert \<Rightarrow> [RecoveredFrom alert])
        else [])"

lemma edge_cong: "active (fst entry) = active' (fst entry) \<Longrightarrow> edge wall active entry = edge wall active' entry"
  by (cases entry) (simp add: edge_def)

lemma transition_step_eq:
  "snd (transition_step wall entry (e, ts)) = ts @ edge wall (ae_active e) entry"
  "fst (transition_step wall entry (e, ts)) = fst (transition_step wall entry (e, []))"
  by (auto simp: transition_step_def edge_def Let_def split: prod.split option.split bool.split)

text \<open>What is active for a check afterwards, given what was before.\<close>

definition settled :: "nat \<Rightarrow> string \<Rightarrow> Alert option \<Rightarrow> condition \<Rightarrow> Alert option" where
  "settled wall check before condition =
     (case condition of (firing, observed, threshold) \<Rightarrow>
        if \<not> firing then None
        else case before of
               None \<Rightarrow> Some \<lparr>al_check = check, al_observed = observed, al_threshold = threshold, al_fired_at = wall\<rparr>
             | Some alert \<Rightarrow> Some alert)"

lemma transition_step_active:
  "ae_active (fst (transition_step wall (check, condition) (e, ts))) c =
     (if c = check then settled wall check (ae_active e check) condition else ae_active e c)"
  by (auto simp: transition_step_def record_line_def settled_def Let_def split: prod.split option.split bool.split)

lemma fold_transitions_edges:
  assumes "distinct (map fst cs)"
  shows "snd (fold (transition_step wall) cs (e, ts)) = ts @ concat (map (edge wall (ae_active e)) cs)"
  using assms
proof (induction cs arbitrary: e ts)
  case (Cons entry cs)
  obtain check condition where entry: "entry = (check, condition)" by (cases entry)
  obtain e1 ts1 where s: "transition_step wall entry (e, ts) = (e1, ts1)" by fastforce
  have a1: "ae_active e1 k = ae_active e k" if "k \<noteq> check" for k
    using transition_step_active [of wall check condition e ts k] s entry that by simp
  have t1: "ts1 = ts @ edge wall (ae_active e) entry" using transition_step_eq(1) [of wall entry e ts] s by simp
  have "check \<notin> fst ` set cs" and d: "distinct (map fst cs)" using Cons.prems entry by auto
  then have same: "map (edge wall (ae_active e1)) cs = map (edge wall (ae_active e)) cs"
    by (intro map_cong refl edge_cong a1) force
  show ?case using Cons.IH [OF d, of e1 ts1] by (simp add: s) (simp add: t1 same)
qed simp

lemma fold_transitions_active:
  assumes "distinct (map fst cs)"
  shows "ae_active (fst (fold (transition_step wall) cs (e, ts))) c =
    (case map_of cs c of None \<Rightarrow> ae_active e c | Some condition \<Rightarrow> settled wall c (ae_active e c) condition)"
  using assms
proof (induction cs arbitrary: e ts)
  case (Cons entry cs)
  obtain check condition where entry: "entry = (check, condition)" by (cases entry)
  obtain e1 ts1 where s: "transition_step wall entry (e, ts) = (e1, ts1)" by fastforce
  have a1: "ae_active e1 c = (if c = check then settled wall check (ae_active e check) condition else ae_active e c)"
    using transition_step_active [of wall check condition e ts c] s entry by simp
  have notin: "map_of cs check = None" and d: "distinct (map fst cs)" using Cons.prems entry by (auto simp: map_of_eq_None_iff)
  show ?case using Cons.IH [OF d, of e1 ts1] a1 notin s entry
    by (cases "c = check") (simp_all split: option.split)
qed simp

lemma transition_step_frame:
  "ae_scrape_failures (fst (transition_step wall entry (e, ts))) = ae_scrape_failures e"
  "ae_ready_failed_since (fst (transition_step wall entry (e, ts))) = ae_ready_failed_since e"
  "length (ae_recent e) \<le> 20 \<Longrightarrow> length (ae_recent (fst (transition_step wall entry (e, ts)))) \<le> 20"
  by (auto simp: transition_step_def record_line_def Let_def split: prod.split option.split bool.split)

lemma fold_transitions_frame:
  "ae_scrape_failures (fst (fold (transition_step wall) cs s)) = ae_scrape_failures (fst s)"
  "ae_ready_failed_since (fst (fold (transition_step wall) cs s)) = ae_ready_failed_since (fst s)"
  "length (ae_recent (fst s)) \<le> 20 \<Longrightarrow> length (ae_recent (fst (fold (transition_step wall) cs s))) \<le> 20"
proof -
  show "ae_scrape_failures (fst (fold (transition_step wall) cs s)) = ae_scrape_failures (fst s)"
    "ae_ready_failed_since (fst (fold (transition_step wall) cs s)) = ae_ready_failed_since (fst s)"
    by (induction cs arbitrary: s) (auto simp: transition_step_frame)
  show "length (ae_recent (fst (fold (transition_step wall) cs s))) \<le> 20" if "length (ae_recent (fst s)) \<le> 20"
    using that
  proof (induction cs arbitrary: s)
    case (Cons entry cs)
    then show ?case by (cases s) (auto intro: Cons.IH transition_step_frame(3))
  qed simp
qed
section \<open>The specification over the history\<close>

text \<open>A history is the evaluations so far, oldest first: the wall clock and the input of each.\<close>

type_synonym history = "(nat \<times> AlertInput) list"

definition engine_after :: "history \<Rightarrow> AlertEngine" where
  "engine_after h = fold (\<lambda>(wall, input) e. fst (evaluate wall e input)) h engine_default"

definition failed_ticks :: "history \<Rightarrow> nat" where
  "failed_ticks h = length (takeWhile (\<lambda>(_, i). \<not> ai_scrape_ok i) (rev h))"

definition not_ready_since :: "history \<Rightarrow> nat option" where
  "not_ready_since h =
     (let down = takeWhile (\<lambda>(_, i). \<not> ai_ready_ok i) (rev h) in if down = [] then None else Some (ai_now (snd (last down))))"

definition window_of :: "AlertInput \<Rightarrow> string \<Rightarrow> EndpointWindow" where
  "window_of input endpoint = (case ai_endpoints input endpoint of None \<Rightarrow> no_window | Some w \<Rightarrow> w)"

definition slow :: "LatencyWindow \<Rightarrow> rat \<Rightarrow> bool" where
  "slow l bound \<longleftrightarrow> f_ge (lw_samples l) (Fin 20) \<and> (\<exists>p99 \<in> set_option (lw_p99 l). f_lt (Fin bound) p99)"

definition failing :: "EndpointWindow \<Rightarrow> bool" where
  "failing w \<longleftrightarrow> f_ge (ew_requests w) (Fin 10) \<and> f_lt HTTP_5XX_RATIO (ew_error_ratio w)"

text \<open>The checks that are firing after a history.\<close>

definition firing_checks :: "history \<Rightarrow> string set" where
  "firing_checks h =
     (if h = [] then {} else
      let input = snd (last h) in
      {c. c = ''scrape_failure'' \<and> 2 \<le> failed_ticks h \<or>
          c = ''ready'' \<and> (\<exists>t \<in> set_option (not_ready_since h). 300 * 10 ^ 9 \<le> ai_now input - t) \<or>
          (\<exists>ep \<in> set ENDPOINTS. c = ep @ ''_5xx'' \<and> failing (window_of input ep)) \<or>
          c = ''tier0_high_latency'' \<and> slow (ew_observed (window_of input ''tier0'')) 1 \<or>
          c = ''params_tier1_high_latency'' \<and> slow (ew_observed (window_of input ''params_tier1'')) (1 / 2) \<or>
          c = ''tier1_query_high_latency'' \<and> slow (ew_processing (window_of input ''tier1_query'')) 2 \<or>
          c = ''tier1_query_processing_metric_missing'' \<and> f_ge (lw_samples (ew_observed (window_of input ''tier1_query''))) (Fin 20) \<and>
            lw_samples (ew_processing (window_of input ''tier1_query'')) = Fin 0 \<or>
          c = ''disk_usage'' \<and> f_lt DISK_USED_RATIO (hh_disk_used_ratio (ai_host input)) \<or>
          c = ''memory_available'' \<and> hh_available_memory_bytes (ai_host input) < 512 * 1024 * 1024})"

definition transition_of :: "AlertTransition \<Rightarrow> bool \<times> string" where
  "transition_of t = (case t of Fired a \<Rightarrow> (True, al_check a) | RecoveredFrom a \<Rightarrow> (False, al_check a))"

lemma engine_after_simps [simp]:
  "engine_after [] = engine_default"
  "engine_after (h @ [(wall, input)]) = fst (evaluate wall (engine_after h) input)"
  by (simp_all add: engine_after_def)

lemma history_simps [simp]:
  "failed_ticks [] = 0"
  "failed_ticks (h @ [(wall, input)]) = (if ai_scrape_ok input then 0 else Suc (failed_ticks h))"
  "not_ready_since [] = None"
  "not_ready_since (h @ [(wall, input)]) =
     (if ai_ready_ok input then None else Some (case not_ready_since h of None \<Rightarrow> ai_now input | Some t \<Rightarrow> t))"
  by (simp_all add: failed_ticks_def not_ready_since_def)

lemma evaluate_counters:
  "ae_scrape_failures (fst (evaluate wall e input)) =
     (if ai_scrape_ok input then 0 else min (ae_scrape_failures e + 1) (2 ^ 32 - 1))"
  "ae_ready_failed_since (fst (evaluate wall e input)) =
     (if ai_ready_ok input then None else Some (case ae_ready_failed_since e of None \<Rightarrow> ai_now input | Some t \<Rightarrow> t))"
  by (simp_all add: evaluate_def Let_def fold_transitions_frame)

lemma engine_counters:
  "ae_scrape_failures (engine_after h) = min (failed_ticks h) (2 ^ 32 - 1)"
  "ae_ready_failed_since (engine_after h) = not_ready_since h"
  by (induction h rule: rev_induct) (auto simp: evaluate_counters engine_default_def)

lemma evaluate_parts:
  fixes wall e input
  defines "e' \<equiv> fst (evaluate wall e input)"
  defines "cs \<equiv> conditions (ae_scrape_failures e') (ae_ready_failed_since e') input"
  shows "snd (evaluate wall e input) = concat (map (edge wall (ae_active e)) cs)"
    and "ae_active e' c = (case map_of cs c of None \<Rightarrow> ae_active e c | Some cd \<Rightarrow> settled wall c (ae_active e c) cd)"
proof -
  have d: "distinct (map fst (conditions a b input))" for a b by (simp add: condition_names distinct_checks)
  show "snd (evaluate wall e input) = concat (map (edge wall (ae_active e)) cs)"
    unfolding cs_def e'_def evaluate_counters by (simp add: evaluate_def Let_def fold_transitions_edges [OF d])
  show "ae_active e' c = (case map_of cs c of None \<Rightarrow> ae_active e c | Some cd \<Rightarrow> settled wall c (ae_active e c) cd)"
    unfolding cs_def e'_def evaluate_counters by (simp add: evaluate_def Let_def fold_transitions_active [OF d] cong: option.case_cong)
qed
text \<open>The conditions of one evaluation, in the order of the map, without what they print.\<close>

lemma condition_values:
  "map (\<lambda>(c, f, _). (c, f)) (conditions sf rf input) =
     [(''disk_usage'', f_lt DISK_USED_RATIO (hh_disk_used_ratio (ai_host input))),
      (''memory_available'', hh_available_memory_bytes (ai_host input) < MEMORY_AVAILABLE_BYTES),
      (''params_tier1_5xx'', failing (window_of input ''params_tier1'')),
      (''params_tier1_high_latency'', slow (ew_observed (window_of input ''params_tier1'')) (1 / 2)),
      (''ready'', \<not> ai_ready_ok input \<and>
         READY_FAILURE_SECONDS * 1000000000 \<le> (case rf of None \<Rightarrow> 0 | Some since \<Rightarrow> ai_now input - since)),
      (''scrape_failure'', SCRAPE_FAILURE_TICKS \<le> sf),
      (''tier0_5xx'', failing (window_of input ''tier0'')),
      (''tier0_high_latency'', slow (ew_observed (window_of input ''tier0'')) 1),
      (''tier1_query_5xx'', failing (window_of input ''tier1_query'')),
      (''tier1_query_high_latency'', slow (ew_processing (window_of input ''tier1_query'')) 2),
      (''tier1_query_processing_metric_missing'', f_ge (lw_samples (ew_observed (window_of input ''tier1_query''))) (Fin 20) \<and>
         lw_samples (ew_processing (window_of input ''tier1_query'')) = Fin 0)]"
  by (simp add: conditions_def Let_def ENDPOINTS_def endpoint_conditions_def latency_check_def less_char_def case_prod_unfold
      window_of_def failing_def slow_def alert_latency_def HTTP_5XX_MIN_REQUESTS_def LATENCY_MIN_REQUESTS_def TIER0_P99_SECONDS_def
      PARAMS_P99_SECONDS_def TIER1_PROCESSING_P99_SECONDS_def f_eq_def conj_commute cong: conj_cong split: option.split)

lemma firing_conditions:
  fixes h wall input
  defines "e \<equiv> engine_after (h @ [(wall, input)])"
  assumes "(c, firing, observed, threshold) \<in> set (conditions (ae_scrape_failures e) (ae_ready_failed_since e) input)"
  shows "firing \<longleftrightarrow> c \<in> firing_checks (h @ [(wall, input)])"
proof -
  have "(c, firing) \<in> set (map (\<lambda>(c, f, _). (c, f)) (conditions (ae_scrape_failures e) (ae_ready_failed_since e) input))"
    using assms by force
  then show ?thesis
    unfolding condition_values list.set insert_iff e_def engine_counters
    by (elim disjE emptyE)
      (simp_all add: firing_checks_def ENDPOINTS_def MEMORY_AVAILABLE_BYTES_def READY_FAILURE_SECONDS_def SCRAPE_FAILURE_TICKS_def Let_def)
qed
lemma firing_checks_known: "firing_checks h \<subseteq> set CHECKS"
  by (auto simp: firing_checks_def CHECKS_def ENDPOINTS_def Let_def split: if_splits)

lemma conditions_lookup:
  assumes "c \<in> set CHECKS"
  obtains firing observed threshold where "map_of (conditions sf rf input) c = Some (firing, observed, threshold)"
    and "(c, firing, observed, threshold) \<in> set (conditions sf rf input)"
proof -
  have "c \<in> fst ` set (conditions sf rf input)" using assms condition_names [of sf rf input] by (metis list.set_map)
  then have "map_of (conditions sf rf input) c \<noteq> None" by (simp add: map_of_eq_None_iff)
  then show thesis using that by (metis map_of_SomeD not_None_eq prod_cases3)
qed

lemma settled_firing: "settled wall c before (firing, observed, threshold) = None \<longleftrightarrow> \<not> firing"
  by (simp add: settled_def split: option.split)

lemma active_dom: "dom (ae_active (engine_after h)) = firing_checks h"
proof (induction h rule: rev_induct)
  case Nil
  then show ?case by (simp add: engine_default_def firing_checks_def)
next
  case (snoc x h)
  obtain wall input where x: "x = (wall, input)" by (cases x)
  let ?e = "engine_after (h @ [(wall, input)])"
  have "ae_active ?e c \<noteq> None \<longleftrightarrow> c \<in> firing_checks (h @ [(wall, input)])" for c
  proof (cases "c \<in> set CHECKS")
    case True
    then obtain f ob th
      where m: "map_of (conditions (ae_scrape_failures ?e) (ae_ready_failed_since ?e) input) c = Some (f, ob, th)"
        and "(c, f, ob, th) \<in> set (conditions (ae_scrape_failures ?e) (ae_ready_failed_since ?e) input)"
      by (rule conditions_lookup)
    then have "f \<longleftrightarrow> c \<in> firing_checks (h @ [(wall, input)])" by (intro firing_conditions)
    moreover have "ae_active ?e c = settled wall c (ae_active (engine_after h) c) (f, ob, th)"
      using evaluate_parts(2) [of wall "engine_after h" input c] m by simp
    ultimately show ?thesis by (simp add: settled_firing)
  next
    case False
    then have "map_of (conditions sf rf input) c = None" for sf rf
      using condition_names [of sf rf input] by (metis list.set_map map_of_eq_None_iff)
    then have "ae_active ?e c = ae_active (engine_after h) c" using evaluate_parts(2) [of wall "engine_after h" input c] by simp
    moreover have "c \<notin> firing_checks (h @ [(wall, input)])" "c \<notin> firing_checks h"
      using False firing_checks_known [of h] firing_checks_known [of "h @ [(wall, input)]"] by auto
    ultimately show ?thesis using snoc.IH by (auto simp: dom_def)
  qed
  then have "dom (ae_active ?e) = firing_checks (h @ [(wall, input)])" unfolding dom_def by blast
  then show ?case unfolding x .
qed

lemma active_named: "ae_active (engine_after h) c = Some a \<Longrightarrow> al_check a = c"
proof (induction h arbitrary: a rule: rev_induct)
  case (snoc x h)
  obtain wall input where x: "x = (wall, input)" by (cases x)
  show ?case
    using snoc.prems snoc.IH evaluate_parts(2) [of wall "engine_after h" input c]
    by (auto simp: x settled_def split: option.splits if_splits prod.splits)
qed (simp add: engine_default_def)

text \<open>The edges between a history and the next one.\<close>

definition edges :: "string set \<Rightarrow> string set \<Rightarrow> (bool \<times> string) list" where
  "edges before after =
     concat (map (\<lambda>c. if c \<in> after \<and> c \<notin> before then [(True, c)] else if c \<in> before \<and> c \<notin> after then [(False, c)] else []) CHECKS)"

text \<open>C23. After any history of evaluations, the next evaluation notifies exactly the edges: a check that is firing
  now and was not after the previous evaluation is announced as fired, a check that was firing and no longer is is
  announced as recovered, in the order of the names and each once, and nothing else is announced. Which checks fire is
  given by the history itself: two failed scrapes in a row, a stretch of not-ready observations that is five minutes
  long, and the figures of the last window and of the host against their thresholds and minimum volumes.\<close>

theorem alerts_are_edges:
  "map transition_of (snd (evaluate wall (engine_after h) input)) = edges (firing_checks h) (firing_checks (h @ [(wall, input)]))"
proof -
  let ?e = "engine_after (h @ [(wall, input)])"
  let ?cs = "conditions (ae_scrape_failures ?e) (ae_ready_failed_since ?e) input"
  let ?edge = "\<lambda>c. if c \<in> firing_checks (h @ [(wall, input)]) \<and> c \<notin> firing_checks h then [(True, c)]
    else if c \<in> firing_checks h \<and> c \<notin> firing_checks (h @ [(wall, input)]) then [(False, c)] else []"
  have one: "map transition_of (edge wall (ae_active (engine_after h)) x) = ?edge (fst x)" if "x \<in> set ?cs" for x
  proof -
    obtain c f ob th where x: "x = (c, f, ob, th)" by (cases x)
    then have "f \<longleftrightarrow> c \<in> firing_checks (h @ [(wall, input)])" using that by (intro firing_conditions) simp
    moreover have "ae_active (engine_after h) c = None \<longleftrightarrow> c \<notin> firing_checks h" using active_dom [of h] by blast
    ultimately show ?thesis using active_named [of h c]
      by (auto simp: x edge_def transition_of_def split: option.splits)
  qed
  have "map transition_of (concat (map (edge wall (ae_active (engine_after h))) ?cs)) = concat (map (?edge \<circ> fst) ?cs)"
    unfolding map_concat map_map by (intro arg_cong [where f = concat] map_cong refl) (simp add: one)
  also have "\<dots> = concat (map ?edge CHECKS)" by (simp only: map_map [symmetric] condition_names)
  finally show ?thesis using evaluate_parts(1) [of wall "engine_after h" input] by (simp add: edges_def)
qed

section \<open>The log\<close>

definition line_of :: "AlertTransition \<Rightarrow> log_line" where
  "line_of t = (case t of Fired a \<Rightarrow> LogFired (al_check a) (al_observed a) | RecoveredFrom a \<Rightarrow> LogRecovered (al_check a))"

text \<open>Every notification sent during a history, with its time, oldest first.\<close>

fun notifications :: "AlertEngine \<Rightarrow> history \<Rightarrow> (nat \<times> log_line) list" where
  "notifications e [] = []"
| "notifications e ((wall, input) # h) =
     map (\<lambda>t. (wall, line_of t)) (snd (evaluate wall e input)) @ notifications (fst (evaluate wall e input)) h"

lemma take_append_take: "take n (xs @ take n ys) = take n (xs @ ys)"
  by (simp add: min_def)

lemma transition_step_recent:
  assumes "transition_step wall entry (e, ts) = (e', ts @ new)"
  shows "ae_recent e' = take 20 (rev (map (\<lambda>t. (wall, line_of t)) new) @ ae_recent e) \<or> new = [] \<and> e' = e"
  using assms by (auto simp: transition_step_def record_line_def line_of_def Let_def split: prod.splits option.splits bool.splits)

lemma fold_recent:
  assumes "length (ae_recent e) \<le> 20"
  shows "\<exists>new. snd (fold (transition_step wall) cs (e, ts)) = ts @ new \<and>
    ae_recent (fst (fold (transition_step wall) cs (e, ts))) = take 20 (rev (map (\<lambda>t. (wall, line_of t)) new) @ ae_recent e)"
  using assms
proof (induction cs arbitrary: e ts)
  case (Cons entry cs)
  obtain e1 where s: "transition_step wall entry (e, ts) = (e1, ts @ edge wall (ae_active e) entry)"
    using transition_step_eq(1) by (metis prod.collapse)
  let ?new = "edge wall (ae_active e) entry"
  have r: "ae_recent e1 = take 20 (rev (map (\<lambda>t. (wall, line_of t)) ?new) @ ae_recent e)"
    using transition_step_recent [OF s] Cons.prems by auto
  then have "length (ae_recent e1) \<le> 20" by simp
  then obtain more where more: "snd (fold (transition_step wall) cs (e1, ts @ ?new)) = (ts @ ?new) @ more"
    "ae_recent (fst (fold (transition_step wall) cs (e1, ts @ ?new))) = take 20 (rev (map (\<lambda>t. (wall, line_of t)) more) @ ae_recent e1)"
    using Cons.IH by blast
  show ?case
    by (rule exI [of _ "?new @ more"]) (simp add: s more r take_append_take del: take_append)
qed simp

lemma evaluate_recent:
  assumes "length (ae_recent e) \<le> 20"
  shows "ae_recent (fst (evaluate wall e input)) =
    take 20 (rev (map (\<lambda>t. (wall, line_of t)) (snd (evaluate wall e input))) @ ae_recent e)"
  using fold_recent [of "e\<lparr>ae_scrape_failures := sf, ae_ready_failed_since := rf\<rparr>" wall _ "[]" for sf rf] assms
  by (force simp: evaluate_def Let_def)

lemma recent_log:
  assumes "length (ae_recent e) \<le> 20"
  shows "ae_recent (fold (\<lambda>(wall, input) e. fst (evaluate wall e input)) h e) = take 20 (rev (notifications e h) @ ae_recent e)"
  using assms
proof (induction h arbitrary: e)
  case (Cons x h)
  obtain wall input where x: "x = (wall, input)" by (cases x)
  have r: "ae_recent (fst (evaluate wall e input)) =
    take 20 (rev (map (\<lambda>t. (wall, line_of t)) (snd (evaluate wall e input))) @ ae_recent e)"
    using Cons.prems by (rule evaluate_recent)
  then have "length (ae_recent (fst (evaluate wall e input))) \<le> 20" by simp
  from Cons.IH [OF this] show ?case by (simp add: x r take_append_take del: take_append)
qed simp

text \<open>The engine's log holds the last twenty notifications of the whole history, newest first, with the time of
  each, and never more.\<close>

theorem log_is_bounded:
  "ae_recent (engine_after h) = take 20 (rev (notifications engine_default h))"
  using recent_log [of engine_default h] by (simp add: engine_after_def engine_default_def)

end
