(* ===== verification/Apm_Scrape.thy ===== *)
theory Apm_Scrape
  imports Apm_Parse Alerts
begin

text \<open>
  The loop of the monitoring agent, \<^verbatim>\<open>deploy/pir-apm/src/main.rs\<close>: one iteration fetches the metrics, health and
  readiness of the server, updates the rolling snapshots, evaluates the alerts and
  refreshes the dashboard (\<^verbatim>\<open>dashboard.rs\<close>); and the collection of the host's figures (\<^verbatim>\<open>host.rs\<close>). HTTP and the
  operating system's figures are parameters; sending to Slack is the list of transitions.
  The properties follow the counters of the server through the text and the window to the
  error-rate alert.
\<close>

section \<open>Host figures\<close>

record disk_info =
  di_mount :: "string list"
  di_total :: u64
  di_available :: u64

record os_info =
  os_load :: "f64 \<times> f64 \<times> f64"
  os_total_memory :: u64
  os_available_memory :: u64
  os_disks :: "disk_info list"

definition path_components :: "string \<Rightarrow> string list" where
  "path_components p = (if p \<noteq> [] \<and> hd p = CHR ''/'' then [''/''] else []) @ filter (\<lambda>c. c \<noteq> [] \<and> c \<noteq> ''.'') (split_on (CHR ''/'') p)"

text \<open>\<open>max_by_key\<close>: the last of the greatest.\<close>

definition max_by_key :: "('a \<Rightarrow> nat) \<Rightarrow> 'a list \<Rightarrow> 'a option" where
  "max_by_key f xs = fold (\<lambda>x best. case best of None \<Rightarrow> Some x | Some b \<Rightarrow> if f b \<le> f x then Some x else Some b) xs None"

definition collect :: "os_info \<Rightarrow> string \<Rightarrow> HostHealth" where
  "collect os data_dir =
     (let disk = max_by_key (\<lambda>d. length (di_mount d))
            (filter (\<lambda>d. take (length (di_mount d)) (path_components data_dir) = di_mount d) (os_disks os));
          (disk_total_bytes, disk_available_bytes) = (case disk of None \<Rightarrow> (0, 0) | Some d \<Rightarrow> (di_total d, di_available d));
          (one, five, fifteen) = os_load os
      in \<lparr>hh_load_one = one, hh_load_five = five, hh_load_fifteen = fifteen, hh_total_memory_bytes = os_total_memory os,
          hh_available_memory_bytes = os_available_memory os, hh_disk_total_bytes = disk_total_bytes,
          hh_disk_available_bytes = disk_available_bytes,
          hh_disk_used_ratio = (if disk_total_bytes > 0
             then f_sub (Fin 1) (f_div (fround (of_nat (unat disk_available_bytes))) (fround (of_nat (unat disk_total_bytes)))) else Fin 0),
          hh_data_dir = data_dir\<rparr>)"

section \<open>The loop\<close>

record FetchResponse =
  fr_status :: u16
  fr_body :: string

text \<open>The HTTP client: the status and the body, or a body that failed, or no response.\<close>

type_synonym agent_http = "string \<Rightarrow> (u16 \<times> string result) result"

definition fetch :: "agent_http \<Rightarrow> string \<Rightarrow> string \<Rightarrow> bool \<Rightarrow> FetchResponse result" where
  "fetch http base_url p require_success =
     and_then (map_err (\<lambda>e. p @ '' request failed: '' @ e) (http (base_url @ p))) (\<lambda>(status, body).
     if require_success \<and> \<not> (200 \<le> status \<and> status < 300) then Bail (p @ '' returned HTTP '' @ show_nat (unat status))
     else and_then (map_err (\<lambda>e. p @ '' body failed: '' @ e) body) (\<lambda>body. Ok \<lparr>fr_status = status, fr_body = body\<rparr>))"

record DashboardData =
  dd_last_scrape :: "nat option"
  dd_scrape_error :: "string option"
  dd_health_status :: "u16 option"
  dd_health_body :: "string option"
  dd_ready_status :: "u16 option"
  dd_endpoints :: "string \<rightharpoonup> EndpointWindow"
  dd_snapshot_gauges :: "string \<rightharpoonup> f64"
  dd_process_resident_memory_bytes :: "f64 option"
  dd_host :: HostHealth
  dd_active_alerts :: "string \<rightharpoonup> Alert"
  dd_recent_alerts :: "(nat \<times> log_line) list"

definition result_ok :: "'a result \<Rightarrow> 'a option" where
  "result_ok r = (case r of Inl _ \<Rightarrow> None | Inr x \<Rightarrow> Some x)"

definition err_text :: "'a result \<Rightarrow> string option" where
  "err_text r = (case r of Inl (Error m) \<Rightarrow> Some m | Inl (Panic m) \<Rightarrow> Some m | Inr _ \<Rightarrow> None)"

text \<open>What one iteration does with the three answers it fetched at an instant.\<close>

definition scrape_tick ::
  "nat \<Rightarrow> nat \<Rightarrow> HostHealth \<Rightarrow> FetchResponse result \<Rightarrow> FetchResponse result \<Rightarrow> FetchResponse result \<Rightarrow>
   RollingMetrics \<times> AlertEngine \<times> DashboardData \<Rightarrow> (RollingMetrics \<times> AlertEngine \<times> DashboardData) \<times> AlertTransition list" where
  "scrape_tick now wall host metrics_result health_result ready_result s =
     (let (rolling, alerts, view) = s;
          health_status = map_option fr_status (result_ok health_result);
          ready_status = map_option fr_status (result_ok ready_result);
          ready_ok = (case ready_status of None \<Rightarrow> False | Some status \<Rightarrow> 200 \<le> status \<and> status < 300);
          scrape_ok = (result_ok metrics_result \<noteq> None \<and> result_ok health_result \<noteq> None \<and> result_ok ready_result \<noteq> None);
          (rolling, scrape_error) =
            (case metrics_result of
               Inr response \<Rightarrow>
                 (case parse_prometheus (fr_body response) now of
                    Inr snapshot \<Rightarrow> (rolling_push rolling snapshot, None)
                  | Inl e \<Rightarrow> (rolling, Some (''metrics parse failed: '' @ the (err_text (Inl e :: unit result)))))
             | Inl e \<Rightarrow> (rolling, err_text metrics_result));
          scrape_error = (if scrape_error = None
             then (if err_text health_result \<noteq> None then err_text health_result else err_text ready_result) else scrape_error);
          ws = windows rolling;
          (alerts, transitions) = evaluate wall alerts
            \<lparr>ai_now = now, ai_scrape_ok = (scrape_ok \<and> scrape_error = None), ai_ready_ok = ready_ok, ai_endpoints = ws, ai_host = host\<rparr>;
          view = view\<lparr>dd_last_scrape := Some wall, dd_scrape_error := scrape_error, dd_health_status := health_status,
            dd_health_body := map_option fr_body (result_ok health_result), dd_ready_status := ready_status, dd_endpoints := ws,
            dd_snapshot_gauges := (if rolling = [] then Map.empty else ms_snapshot_gauges (last rolling)),
            dd_process_resident_memory_bytes := (if rolling = [] then None else ms_resident_memory_bytes (last rolling)),
            dd_host := host, dd_active_alerts := ae_active alerts, dd_recent_alerts := ae_recent alerts\<rparr>
      in ((rolling, alerts, view), transitions))"

definition scrape_iteration ::
  "agent_http \<Rightarrow> string \<Rightarrow> os_info \<Rightarrow> string \<Rightarrow> nat \<Rightarrow> nat \<Rightarrow>
   RollingMetrics \<times> AlertEngine \<times> DashboardData \<Rightarrow> (RollingMetrics \<times> AlertEngine \<times> DashboardData) \<times> AlertTransition list" where
  "scrape_iteration http base_url os data_dir now wall s =
     scrape_tick now wall (collect os data_dir) (fetch http base_url ''/metrics'' True) (fetch http base_url ''/health'' False)
       (fetch http base_url ''/ready'' False) s"

section \<open>The counters of a scraped text\<close>

text \<open>A text of comments and of request counters, as the server exposes them.\<close>

datatype exposed = Comment string | Requests string string string nat

definition labels_of :: "string \<Rightarrow> string \<Rightarrow> string \<Rightarrow> (string \<times> string) list" where
  "labels_of ep me st = [(''endpoint'', ep), (''method'', me), (''status'', st)]"

fun print_line :: "exposed \<Rightarrow> string" where
  "print_line (Comment c) = CHR ''#'' # c"
| "print_line (Requests ep me st n) = print_sample ''nf_http_requests_total'' (labels_of ep me st) n"

definition print_text :: "exposed list \<Rightarrow> string" where
  "print_text ls = concat (map (\<lambda>l. print_line l @ [CHR 0x0A]) ls)"

fun exposed_ok :: "exposed \<Rightarrow> bool" where
  "exposed_ok (Comment c) \<longleftrightarrow> CHR 0x0A \<notin> set c"
| "exposed_ok (Requests ep me st n) \<longleftrightarrow> ascii_string ep \<and> ascii_string me \<and> ascii_string st"

fun line_requests :: "string \<Rightarrow> exposed \<Rightarrow> nat" where
  "line_requests ep (Requests ep' me st n) = (if ep = ep' then n else 0)"
| "line_requests ep (Comment _) = 0"

fun line_errors :: "string \<Rightarrow> exposed \<Rightarrow> nat" where
  "line_errors ep (Requests ep' me st n) = (if ep = ep' \<and> starts_with st ''5'' then n else 0)"
| "line_errors ep (Comment _) = 0"

lemma split_on_line: "c \<notin> set l \<Longrightarrow> split_on c (l @ c # rest) = l # split_on c rest"
  by (induction l) auto

lemma split_on_nonempty [simp]: "split_on c s \<noteq> []"
  by (induction s) (auto split: list.splits)

lemma text_lines_concat:
  assumes "list_all (\<lambda>l. CHR 0x0A \<notin> set l) ls"
  shows "text_lines (concat (map (\<lambda>l. l @ [CHR 0x0A]) ls)) = map strip_cr ls"
proof -
  have "split_on (CHR 0x0A) (concat (map (\<lambda>l. l @ [CHR 0x0A]) ls)) = ls @ [[]]"
    using assms by (induction ls) (simp_all add: split_on_line)
  then show ?thesis by (simp add: text_lines_def Let_def)
qed
lemma escape_no_newline: "CHR 0x0A \<notin> set (escape_label v)"
  by (auto simp: escape_label_def split: if_splits)

lemma digits_no_space: "c \<in> set (show_nat n) \<Longrightarrow> \<not> is_space c"
  using show_nat_digits [of n] digit_not_space by (auto simp: list_all_iff)

lemma print_line_no_newline: "exposed_ok l \<Longrightarrow> CHR 0x0A \<notin> set (print_line l)"
  using digits_no_space [of "CHR 0x0A"]
  by (cases l) (auto simp: print_sample_def labels_of_def print_label_def escape_no_newline is_space_def)

lemma trim_hd:
  assumes "\<not> is_space c"
  shows "\<exists>ys. trim (c # xs) = c # ys"
  using assms by (cases "\<forall>x \<in> set xs. is_space x") (auto simp: trim_def dropWhile_append rev_swap [symmetric])

lemma trim_same:
  assumes "xs \<noteq> []" "\<not> is_space (hd xs)" "\<not> is_space (last xs)"
  shows "trim xs = xs"
proof -
  have "dropWhile is_space xs = xs" "dropWhile is_space (rev xs) = rev xs"
    using assms by (auto simp: dropWhile_eq_self_iff hd_rev)
  then show ?thesis by (simp add: trim_def)
qed

definition sample_of :: "string \<Rightarrow> string \<Rightarrow> string \<Rightarrow> nat \<Rightarrow> ParsedSample" where
  "sample_of ep me st n =
     \<lparr>ps_name = ''nf_http_requests_total'', ps_labels = map_of (labels_of ep me st), ps_value = fround (of_nat n)\<rparr>"

lemma parse_requests:
  assumes "exposed_ok (Requests ep me st n)"
  shows "parse_line (print_line (Requests ep me st n)) = Ok (sample_of ep me st n)"
proof -
  have "list_all (\<lambda>(k, v). label_key k \<and> ascii_string v) (labels_of ep me st)" "distinct (map fst (labels_of ep me st))"
    using assms by (simp_all add: labels_of_def label_key_def is_separator_def is_ascii_whitespace_def is_space_def)
  moreover have "metric_name ''nf_http_requests_total''" by (simp add: metric_name_def is_space_def)
  ultimately show ?thesis by (simp add: parse_print_sample sample_of_def)
qed

fun line_effect :: "exposed \<Rightarrow> MetricsSnapshot \<Rightarrow> MetricsSnapshot" where
  "line_effect (Comment c) s = s"
| "line_effect (Requests ep me st n) s =
     s\<lparr>ms_endpoints := at_endpoint (sample_of ep me st n) (count_request (sample_of ep me st n)) (ms_endpoints s)\<rparr>"

lemma apply_exposed:
  assumes "exposed_ok l"
  shows "apply_line (i, strip_cr (print_line l)) s = Ok (line_effect l s)"
proof (cases l)
  case (Comment c)
  have h: "\<not> is_space (CHR ''#'')" by (simp add: is_space_def)
  obtain ys where "trim (strip_cr (CHR ''#'' # c)) = CHR ''#'' # ys"
  proof -
    have "strip_cr (CHR ''#'' # c) = CHR ''#'' # (if c \<noteq> [] \<and> last c = CHR 0x0D then butlast c else c)"
      by (simp add: strip_cr_def)
    then show thesis using trim_hd [OF h, of c] trim_hd [OF h, of "butlast c"] that by (auto split: if_splits)
  qed
  then show ?thesis by (simp add: Comment apply_line_def)
next
  case (Requests ep me st n)
  let ?L = "print_line (Requests ep me st n)"
  have last: "last ?L = last (show_nat n)" "?L \<noteq> []" "hd ?L = CHR ''n''"
    using show_nat_digits [of n] by (auto simp: print_sample_def)
  have nsp: "\<not> is_space (last (show_nat n))" using digits_no_space [of "last (show_nat n)" n] show_nat_digits [of n] by auto
  then have "last ?L \<noteq> CHR 0x0D" using last(1) by (auto simp: is_space_def)
  then have cr: "strip_cr ?L = ?L" by (simp add: strip_cr_def)
  have tr: "trim ?L = ?L" using last nsp by (intro trim_same) (auto simp: is_space_def)
  have "apply_line (i, ?L) s = apply_sample (sample_of ep me st n) s"
    using last parse_requests assms unfolding Requests
    by (simp add: apply_line_def tr map_err_def result_simps del: print_line.simps)
  then show ?thesis by (simp add: Requests cr apply_sample_def sample_of_def Let_def del: print_line.simps)
qed
text \<open>What the lines leave in the values of one endpoint.\<close>

lemma line_effect_counts:
  assumes "ms_endpoints s ep = Some c" "ec_requests c = Fin (of_nat a)" "ec_errors_5xx c = Fin (of_nat b)"
    and "a + line_requests ep l \<le> 2 ^ 53" "b + line_errors ep l \<le> 2 ^ 53"
  obtains c' where "ms_endpoints (line_effect l s) ep = Some c'" "ec_requests c' = Fin (of_nat (a + line_requests ep l))"
    "ec_errors_5xx c' = Fin (of_nat (b + line_errors ep l))"
proof (cases l)
  case (Comment x)
  then show thesis using that assms(1-3) by simp
next
  case (Requests ep' me st n)
  show thesis
  proof (cases "ep = ep'")
    case False
    then show thesis using that [of c] assms(1-3)
      by (auto simp: Requests at_endpoint_def sample_of_def labels_of_def split: option.splits)
  next
    case True
    have n: "n \<le> 2 ^ 53" "a + n \<le> 2 ^ 53" using assms(4) True by (simp_all add: Requests)
    have v: "ps_value (sample_of ep me st n) = Fin (of_nat n)" using fround_nat [OF n(1)] by (simp add: sample_of_def)
    have labels: "ps_labels (sample_of ep me st n) ''endpoint'' = Some ep" "ps_labels (sample_of ep me st n) ''status'' = Some st"
      by (simp_all add: sample_of_def labels_of_def)
    let ?c = "count_request (sample_of ep me st n) c"
    have "ms_endpoints (line_effect l s) ep = Some ?c" using assms(1) labels(1) by (simp add: Requests True [symmetric] at_endpoint_def)
    moreover have "ec_requests ?c = Fin (of_nat (a + line_requests ep l))"
      using add_exact [OF n(2)] assms(2) by (simp add: count_request_def v Let_def Requests True [symmetric] del: f_add.simps)
    moreover have "ec_errors_5xx ?c = Fin (of_nat (b + line_errors ep l))"
      using add_exact [of b n] assms(3,5) by (simp add: count_request_def v labels(2) Let_def Requests True [symmetric] del: f_add.simps split: if_splits)
    ultimately show thesis by (rule that)
  qed
qed

lemma lines_effect_counts:
  assumes "list_all exposed_ok ls" "ms_endpoints s ep = Some c" "ec_requests c = Fin (of_nat a)" "ec_errors_5xx c = Fin (of_nat b)"
    and "a + sum_list (map (line_requests ep) ls) \<le> 2 ^ 53" "b + sum_list (map (line_errors ep) ls) \<le> 2 ^ 53"
  shows "\<exists>s' c'. try_fold apply_line (List.enumerate i (map (\<lambda>l. strip_cr (print_line l)) ls)) s = Ok s' \<and> ms_at s' = ms_at s \<and>
    ms_process_start_time_seconds s' = ms_process_start_time_seconds s \<and>
    ms_endpoints s' ep = Some c' \<and> ec_requests c' = Fin (of_nat (a + sum_list (map (line_requests ep) ls))) \<and>
    ec_errors_5xx c' = Fin (of_nat (b + sum_list (map (line_errors ep) ls)))"
  using assms
proof (induction ls arbitrary: s c a b i)
  case (Cons l ls)
  obtain c' where c': "ms_endpoints (line_effect l s) ep = Some c'" "ec_requests c' = Fin (of_nat (a + line_requests ep l))"
    "ec_errors_5xx c' = Fin (of_nat (b + line_errors ep l))"
    by (rule line_effect_counts [OF Cons.prems(2-4), of l]) (use Cons.prems(5,6) in simp_all)
  have "ms_at (line_effect l s) = ms_at s" "ms_process_start_time_seconds (line_effect l s) = ms_process_start_time_seconds s"
    by (cases l; simp)+
  then show ?case
    using Cons.IH [OF _ c', of "Suc i"] Cons.prems(1,5,6) by (simp add: apply_exposed result_simps add.assoc)
qed simp

text \<open>
  What the server counted is what the agent reads. From a text of comments and of request
  counters, whatever the label values, in which the counts of a route sum to at most \<open>2 ^ 53\<close>, the
  agent reads a snapshot whose requests for the route are exactly that sum, and whose errors are
  exactly the sum over the statuses that begin with 5.
\<close>

theorem scraped_counters_exact:
  assumes "list_all exposed_ok ls" "ep \<in> set ENDPOINTS" "sum_list (map (line_requests ep) ls) \<le> 2 ^ 53"
  shows "\<exists>s. parse_prometheus (print_text ls) now = Ok s \<and> ms_at s = now \<and>
    ec_requests (endpoint_of s ep) = Fin (of_nat (sum_list (map (line_requests ep) ls))) \<and>
    ec_errors_5xx (endpoint_of s ep) = Fin (of_nat (sum_list (map (line_errors ep) ls)))"
proof -
  have "line_errors ep l \<le> line_requests ep l" for l by (cases l) auto
  then have "sum_list (map (line_errors ep) ls) \<le> sum_list (map (line_requests ep) ls)" by (intro sum_list_mono)
  then have e: "sum_list (map (line_errors ep) ls) \<le> 2 ^ 53" using assms(3) by (rule order.trans)
  have start: "ms_endpoints (empty_snapshot now) ep = Some no_endpoint" using assms(2) by (auto simp: empty_snapshot_def ENDPOINTS_def)
  have lines: "text_lines (print_text ls) = map (\<lambda>l. strip_cr (print_line l)) ls"
    using text_lines_concat [of "map print_line ls"] assms(1) print_line_no_newline by (simp add: print_text_def list_all_iff comp_def)
  obtain s c where s: "try_fold apply_line (List.enumerate 0 (text_lines (print_text ls))) (empty_snapshot now) = Ok s"
    "ms_at s = now" "ms_endpoints s ep = Some c" "ec_requests c = Fin (of_nat (sum_list (map (line_requests ep) ls)))"
    "ec_errors_5xx c = Fin (of_nat (sum_list (map (line_errors ep) ls)))"
    using lines_effect_counts [OF assms(1) start, of 0 0 0] assms(3) e
    by (auto simp: lines no_endpoint_def empty_snapshot_def)
  then show ?thesis by (auto simp: parse_prometheus_def endpoint_of_def result_simps)
qed

theorem scraped_counters_exact_witness:
  "\<exists>s. parse_prometheus (print_text [Comment '' TYPE nf_http_requests_total counter'',
      Requests ''tier0'' ''GET'' ''200'' 41, Requests ''tier1_query'' ''POST'' ''200'' 7, Requests ''tier0'' ''GET'' ''503'' 3]) 5 = Ok s \<and>
     ec_requests (endpoint_of s ''tier0'') = Fin 44 \<and> ec_errors_5xx (endpoint_of s ''tier0'') = Fin 3"
  using scraped_counters_exact [of "[Comment '' TYPE nf_http_requests_total counter'', Requests ''tier0'' ''GET'' ''200'' 41,
      Requests ''tier1_query'' ''POST'' ''200'' 7, Requests ''tier0'' ''GET'' ''503'' 3]" "''tier0''" 5]
  by (auto simp: ascii_string_def ENDPOINTS_def)
section \<open>The error-rate alert\<close>

lemma error_check_fires:
  assumes "ep \<in> set ENDPOINTS"
  shows "ep @ ''_5xx'' \<in> firing_checks (h @ [(wall, input)]) \<longleftrightarrow> failing (window_of input ep)"
  using assms by (auto simp: firing_checks_def ENDPOINTS_def Let_def)

text \<open>The increase over the window that ends with the newest snapshot.\<close>

definition window_increase :: "RollingMetrics \<Rightarrow> (MetricsSnapshot \<Rightarrow> nat) \<Rightarrow> nat" where
  "window_increase rs c = increase c (pairs_from rs (oldest_index rs))"

text \<open>
  C24. The error-rate alert is exact. Let the snapshots of the agent hold counts of requests and of
  server errors for a route, and let fewer than \<open>2 ^ 50\<close> requests and errors fall into the window. Then, in spite
  of rounding and of a threshold that no double represents, the check of the route fires exactly
  when at least ten requests arrived in the window and more than one in twenty of them failed,
  where a restart of the server starts its counters again from zero.
\<close>

theorem error_rate_alert_exact:
  assumes "rs \<noteq> []" "ep \<in> set ENDPOINTS" "counts_for rs ep reqs errs" "ai_endpoints input = windows rs"
    and "window_increase rs reqs < 2 ^ 50" "window_increase rs errs < 2 ^ 50"
  shows "ep @ ''_5xx'' \<in> firing_checks (h @ [(wall, input)]) \<longleftrightarrow>
    10 \<le> window_increase rs reqs \<and> window_increase rs reqs < 20 * window_increase rs errs"
proof -
  let ?w = "endpoint_window rs ep" and ?R = "window_increase rs"
  have "windows rs ep = Some ?w" using assms(1,2) by (auto simp: windows_def ENDPOINTS_def)
  then have w: "window_of input ep = ?w" using assms(4) by (simp add: window_of_def)
  have le: "?R reqs \<le> 2 ^ 53" "?R errs \<le> 2 ^ 53" using assms(5,6) by simp_all
  then have c: "ew_requests ?w = Fin (of_nat (?R reqs))" "ew_errors_5xx ?w = Fin (of_nat (?R errs))"
    using window_counters_exact [OF assms(3)] by (simp_all add: window_increase_def)
  have ratio: "ew_error_ratio ?w = (if f_lt (Fin 0) (ew_requests ?w) then f_div (ew_errors_5xx ?w) (ew_requests ?w) else Fin 0)"
    by (simp add: endpoint_window_def Let_def case_prod_beta)
  have ten: "f_ge (ew_requests ?w) (Fin 10) \<longleftrightarrow> 10 \<le> ?R reqs"
    using of_nat_le_iff [of 10 "?R reqs", where ?'a = rat] by (auto simp: c(1) f_ge_def f_eq_def)
  show ?thesis
  proof (cases "10 \<le> ?R reqs")
    case True
    then have "ew_error_ratio ?w = f_div (Fin (of_nat (?R errs))) (Fin (of_nat (?R reqs)))" unfolding ratio c by simp
    then show ?thesis
      using ratio_exceeds_twentieth [of "?R reqs" "?R errs"] True assms(5,6)
      by (simp add: error_check_fires [OF assms(2)] w failing_def ten HTTP_5XX_RATIO_def del: f_div.simps)
  next
    case False
    then show ?thesis by (simp add: error_check_fires [OF assms(2)] w failing_def ten)
  qed
qed

text \<open>Forty requests in fifteen seconds, three of which failed.\<close>

definition two_scrapes :: RollingMetrics where
  "two_scrapes =
     [empty_snapshot 0,
      (empty_snapshot 15000000000)\<lparr>ms_endpoints := [''tier0'' \<mapsto> no_endpoint\<lparr>ec_requests := Fin 40, ec_errors_5xx := Fin 3\<rparr>]\<rparr>]"

lemma two_scrapes_counts:
  "counts_for two_scrapes ''tier0'' (\<lambda>s. if ms_at s = 0 then 0 else 40) (\<lambda>s. if ms_at s = 0 then 0 else 3)"
  "window_increase two_scrapes (\<lambda>s. if ms_at s = 0 then 0 else k) = k"
  by (simp_all add: counts_for_def two_scrapes_def endpoint_of_def empty_snapshot_def ENDPOINTS_def no_endpoint_def
      window_increase_def oldest_index_def pairs_from_def process_generation_changed_def)

theorem error_rate_alert_exact_witness:
  "''tier0'' @ ''_5xx'' \<in> firing_checks ([] @ [(7, \<lparr>ai_now = 15000000000, ai_scrape_ok = True, ai_ready_ok = True,
     ai_endpoints = windows two_scrapes, ai_host = collect \<lparr>os_load = (Fin 0, Fin 0, Fin 0), os_total_memory = 0, os_available_memory = 0,
       os_disks = []\<rparr> ''/data''\<rparr>)])"
  by (subst error_rate_alert_exact [OF _ _ two_scrapes_counts(1)])
    (simp_all add: two_scrapes_counts(2), simp_all add: two_scrapes_def ENDPOINTS_def)

end
