(* ===== verification/Format.thy ===== *)
theory Format
  imports Float64 Ascii
begin

text \<open>
  Formatting of numbers by \<^verbatim>\<open>format!\<close>: a binary64 number with a fixed number of decimals. The digits
  are those of the exact value rounded to nearest, ties to even; the sign of zero is not kept.
  The lemmas show which numeral is printed and which characters occur in it.
\<close>

definition pad_left :: "nat \<Rightarrow> char \<Rightarrow> string \<Rightarrow> string" where
  "pad_left k c s = replicate (k - length s) c @ s"

text \<open>\<open>{:.k}\<close>.\<close>

definition fmt_fixed :: "nat \<Rightarrow> f64 \<Rightarrow> string" where
  "fmt_fixed k x =
     (case x of
        NaN \<Rightarrow> ''NaN''
      | PosInf \<Rightarrow> ''inf''
      | NegInf \<Rightarrow> ''-inf''
      | Fin r \<Rightarrow>
          let n = nat (round_half_even (\<bar>r\<bar> * 10 ^ k))
          in (if r < 0 then ''-'' else []) @ show_nat (n div 10 ^ k) @
             (if k = 0 then [] else CHR ''.'' # pad_left k (CHR ''0'') (show_nat (n mod 10 ^ k))))"

lemma show_nat_length: "n < 10 ^ k \<Longrightarrow> 0 < k \<Longrightarrow> length (show_nat n) \<le> k"
proof (induction n arbitrary: k rule: show_nat.induct)
  case (1 n)
  show ?case
  proof (cases "n < 10")
    case True
    then show ?thesis using 1(3) by (simp add: show_nat.simps [of n])
  next
    case False
    then obtain j where k: "k = Suc j" "0 < j" using 1(2,3) by (cases k; cases "k - 1") auto
    have "n div 10 < 10 ^ j" using 1(2) by (simp add: k less_mult_imp_div_less mult.commute)
    then have "length (show_nat (n div 10)) \<le> j" using 1(1) [OF False] k(2) by blast
    then show ?thesis using False k by (simp add: show_nat.simps [of n])
  qed
qed

lemma digits_val_append: "digits_val (a @ b) = digits_val a * 10 ^ length b + digits_val b"
proof (induction b rule: rev_induct)
  case (snoc c b)
  then show ?case using digits_val_snoc [of "a @ b" c] digits_val_snoc [of b c] by (simp add: algebra_simps)
qed (simp add: digits_val_def)

lemma digits_val_zeros: "digits_val (replicate n (CHR ''0'')) = 0"
proof (induction n)
  case (Suc n)
  then show ?case using digits_val_append [of "[CHR ''0'']" "replicate n (CHR ''0'')"] by (simp add: digits_val_def)
qed (simp add: digits_val_def)

lemma pad_left_digits:
  assumes "n < 10 ^ k" "0 < k"
  shows "length (pad_left k (CHR ''0'') (show_nat n)) = k" "list_all is_ascii_digit (pad_left k (CHR ''0'') (show_nat n))"
    "digits_val (pad_left k (CHR ''0'') (show_nat n)) = n"
  using show_nat_length [OF assms] show_nat_digits [of n]
  by (auto simp: pad_left_def digits_val_append digits_val_zeros list_all_iff is_ascii_digit_def)

text \<open>Rounding keeps non-negative numbers so.\<close>

lemma round_half_even_nonneg: "0 \<le> a \<Longrightarrow> 0 \<le> round_half_even a"
  by (auto simp: round_half_even_def Let_def)

text \<open>Only these characters are printed.\<close>

definition numeral_char :: "char \<Rightarrow> bool" where
  "numeral_char c \<longleftrightarrow> is_ascii_digit c \<or> c \<in> set ''-.NaNinf''"

lemma list_all_numeral: "list_all is_ascii_digit s \<Longrightarrow> list_all numeral_char s"
  by (auto simp: list_all_iff numeral_char_def)

lemma fmt_fixed_chars: "list_all numeral_char (fmt_fixed k x)"
proof (cases x)
  case (Fin r)
  let ?n = "nat (round_half_even (\<bar>r\<bar> * 10 ^ k))"
  have a: "list_all numeral_char (show_nat m)" for m using show_nat_digits by (intro list_all_numeral) auto
  have "list_all numeral_char (pad_left k (CHR ''0'') (show_nat (?n mod 10 ^ k)))"
    using a by (auto simp: pad_left_def list_all_iff numeral_char_def is_ascii_digit_def)
  with a show ?thesis by (simp add: fmt_fixed_def Fin Let_def) (simp add: numeral_char_def)
qed (simp_all add: fmt_fixed_def numeral_char_def)

end
