(* ===== verification/Dashboard.thy ===== *)
theory Dashboard
  imports Apm_Scrape Format
begin

text \<open>
  The pages of the monitoring agent, \<^verbatim>\<open>deploy/pir-apm/src/dashboard.rs\<close>: every function that renders a part
  of the page, down to its characters, and the text of alerts (\<^verbatim>\<open>alerts.rs\<close>). The clock is an argument, and the
  formatting of a date belongs to the date library. The lemmas show that no string of the server, the host or the
  configuration can add markup to the page, and that an escaped string reads back.
\<close>

section \<open>Numbers\<close>

text \<open>\<open>f64::round\<close>, \<open>fract() == 0.0\<close> and \<open>clamp\<close>.\<close>

fun f_round :: "f64 \<Rightarrow> f64" where
  "f_round (Fin x) = Fin (of_int (if x \<ge> 0 then \<lfloor>x + 1 / 2\<rfloor> else - \<lfloor>- x + 1 / 2\<rfloor>))"
| "f_round x = x"

fun fract_zero :: "f64 \<Rightarrow> bool" where
  "fract_zero (Fin x) \<longleftrightarrow> of_int \<lfloor>x\<rfloor> = x"
| "fract_zero _ \<longleftrightarrow> False"

definition f_clamp :: "f64 \<Rightarrow> f64 \<Rightarrow> f64 \<Rightarrow> f64" where
  "f_clamp lo hi x = (if f_lt x lo then lo else if f_lt hi x then hi else x)"

fun f_as_u64 :: "f64 \<Rightarrow> u64" where
  "f_as_u64 (Fin x) = (if x < 0 then 0 else if x \<ge> 2 ^ 64 then - 1 else word_of_int \<lfloor>x\<rfloor>)"
| "f_as_u64 PosInf = - 1"
| "f_as_u64 NegInf = 0"
| "f_as_u64 NaN = 0"

definition f_of_u64 :: "u64 \<Rightarrow> f64" where
  "f_of_u64 b = fround (of_nat (unat b))"

definition em_dash :: string where
  "em_dash = [CHR 0xE2, CHR 0x80, CHR 0x94]"

definition middot :: string where
  "middot = [CHR 0xC2, CHR 0xB7]"

section \<open>Text of values\<close>

text \<open>\<open>str::replace\<close> of one character.\<close>

definition replace_char :: "char \<Rightarrow> string \<Rightarrow> string \<Rightarrow> string" where
  "replace_char c r s = concat (map (\<lambda>x. if x = c then r else [x]) s)"

definition escape :: "string \<Rightarrow> string" where
  "escape input =
     replace_char (CHR 0x27) ''&#39;'' (replace_char (CHR 0x22) ''&quot;'' (replace_char (CHR ''>'') ''&gt;''
       (replace_char (CHR ''<'') ''&lt;'' (replace_char (CHR ''&'') ''&amp;'' input))))"

definition class_suffix :: "string \<Rightarrow> string" where
  "class_suffix tone = (if tone = [] then [] else '' '' @ tone)"

definition format_number :: "f64 \<Rightarrow> string" where
  "format_number value = (if fract_zero value then fmt_fixed 0 value else fmt_fixed 3 value)"

definition bytes_human :: "u64 \<Rightarrow> string" where
  "bytes_human bytes =
     (let GIB = Fin (1024 * 1024 * 1024); MIB = Fin (1024 * 1024)
      in if f_ge (f_of_u64 bytes) GIB then fmt_fixed 2 (f_div (f_of_u64 bytes) GIB) @ '' GiB''
         else fmt_fixed 1 (f_div (f_of_u64 bytes) MIB) @ '' MiB'')"

text \<open>
  Wall-clock times are nanoseconds since the epoch. \<open>rfc3339\<close> prints a time of whole seconds, if
  it is in the range of the date library.
\<close>

definition time_text :: "(nat \<Rightarrow> string option) \<Rightarrow> nat \<Rightarrow> string" where
  "time_text rfc3339 value =
     (let seconds = value div 1000000000
      in case rfc3339 seconds of Some t \<Rightarrow> t | None \<Rightarrow> show_nat seconds)"

definition relative_time :: "nat \<Rightarrow> nat \<Rightarrow> string" where
  "relative_time now value =
     (if now < value then ''just now''
      else let seconds = (now - value) div 1000000000
           in if seconds \<le> 4 then ''just now''
              else if seconds \<le> 59 then show_nat seconds @ ''s ago''
              else if seconds \<le> 3599 then show_nat (seconds div 60) @ ''m ago''
              else if seconds \<le> 86399 then show_nat (seconds div 3600) @ ''h ago''
              else show_nat (seconds div 86400) @ ''d ago'')"

text \<open>\<open>strip_prefix\<close> and \<open>strip_suffix\<close>.\<close>

definition strip_prefix :: "string \<Rightarrow> string \<Rightarrow> string option" where
  "strip_prefix p s = (if starts_with s p then Some (drop (length p) s) else None)"

definition strip_suffix :: "string \<Rightarrow> string \<Rightarrow> string option" where
  "strip_suffix p s = (if starts_with (rev s) (rev p) then Some (take (length s - length p) s) else None)"

definition unit_of :: "string \<Rightarrow> string \<Rightarrow> (string \<times> string option) option" where
  "unit_of stem unit =
     (case strip_suffix (CHR ''_'' # unit) stem of
        Some rest \<Rightarrow> if rest \<noteq> [] then Some (rest, Some unit) else None
      | None \<Rightarrow> None)"

text \<open>\<open>label.get_mut(0..1)\<close> is the first byte when a character ends there.\<close>

definition upper_first :: "string \<Rightarrow> string" where
  "upper_first s =
     (case s of
        [] \<Rightarrow> []
      | c # cs \<Rightarrow> (if 97 \<le> (of_char c :: nat) \<and> (of_char c :: nat) \<le> 122 then char_of (of_char c - 32 :: nat) else c) # cs)"

definition humanize_gauge :: "string \<Rightarrow> string" where
  "humanize_gauge name =
     (let stem = (case strip_prefix ''nf_snapshot_'' name of Some s \<Rightarrow> s | None \<Rightarrow> name);
          (stem, unit) = (case unit_of stem ''seconds'' of Some r \<Rightarrow> r
             | None \<Rightarrow> (case unit_of stem ''bytes'' of Some r \<Rightarrow> r
             | None \<Rightarrow> (case unit_of stem ''ratio'' of Some r \<Rightarrow> r | None \<Rightarrow> (stem, None))));
          label = upper_first (replace_char (CHR ''_'') '' '' stem)
      in case unit of Some unit \<Rightarrow> label @ '' ('' @ unit @ '')'' | None \<Rightarrow> label)"

section \<open>Text of alerts\<close>

definition latency_label :: "string \<Rightarrow> string" where
  "latency_label check = (if check = ''tier1_query_high_latency'' then ''processing p99'' else ''p99'')"

fun observed_text :: "string \<Rightarrow> reading \<Rightarrow> string" where
  "observed_text check (FailedTicks n) = show_nat n @ '' consecutive failed ticks''"
| "observed_text check (NotReadyFor s) = ''non-200 for '' @ show_nat s @ ''s''"
| "observed_text check (ErrorRatio ratio requests) =
     fmt_fixed 1 (f_mul ratio (Fin 100)) @ ''% over '' @ fmt_fixed 0 requests @ '' requests''"
| "observed_text check (NoProcessing samples) = fmt_fixed 0 samples @ '' requests served, no processing samples''"
| "observed_text check (Latency (Some p99) samples) =
     latency_label check @ '' '' @ fmt_fixed 3 p99 @ ''s over '' @ fmt_fixed 0 samples @ '' samples''"
| "observed_text check (Latency None samples) = latency_label check @ '' unavailable''"
| "observed_text check (DiskUsed ratio) = fmt_fixed 1 (f_mul ratio (Fin 100)) @ ''% used''"
| "observed_text check (MemoryAvailable bytes) = show_nat (unat bytes div 1024 div 1024) @ '' MiB available''"

definition alert_observed :: "Alert \<Rightarrow> string" where
  "alert_observed alert = observed_text (al_check alert) (al_observed alert)"

fun log_text :: "log_line \<Rightarrow> string" where
  "log_text (LogFired check observed) = ''FIRED '' @ check @ '': '' @ observed_text check observed"
| "log_text (LogRecovered check) = ''RECOVERED '' @ check"

text \<open>A \<open>BTreeMap\<close> is read in the order of its keys; \<open>AlertEngine::active\<close> are its values.\<close>

definition btree_list :: "(string \<rightharpoonup> 'a) \<Rightarrow> (string \<times> 'a) list" where
  "btree_list m = map (\<lambda>k. (k, the (m k))) (sorted_list_of_set (dom m))"

definition active_alerts :: "(string \<rightharpoonup> Alert) \<Rightarrow> Alert list" where
  "active_alerts active = map snd (btree_list active)"

section \<open>The page\<close>

text \<open>
  What is rendered: the names of the configuration, the clock, the formatting of dates, and the data
  of the last scrape.
\<close>

record page =
  pg_environment :: string
  pg_hostname :: string
  pg_now :: nat
  pg_rfc3339 :: "nat \<Rightarrow> string option"
  pg_data :: DashboardData

text \<open>\<open>DashboardData::new\<close>.\<close>

definition dashboard_new :: "HostHealth \<Rightarrow> DashboardData" where
  "dashboard_new host =
     \<lparr>dd_last_scrape = None, dd_scrape_error = Some ''waiting for first scrape'', dd_health_status = None, dd_health_body = None,
      dd_ready_status = None, dd_endpoints = Map.empty, dd_snapshot_gauges = Map.empty, dd_process_resident_memory_bytes = None,
      dd_host = host, dd_active_alerts = Map.empty, dd_recent_alerts = []\<rparr>"

definition REFRESH_SECONDS :: nat where
  "REFRESH_SECONDS = 15"

definition masthead :: "page \<Rightarrow> string" where
  "masthead p =
     ''<header class=\"masthead\"><div class=\"brand\"><span class=\"mark\"></span><div><h1>PIR APM</h1><p class=\"sub\">Valar Group &middot; Shielded Vote</p></div></div><div class=\"tags\"><span class=\"pill env\">'' @
     escape (pg_environment p) @ ''</span><span class=\"pill\">'' @ escape (pg_hostname p) @ ''</span></div></header>''"

definition chip :: "string \<Rightarrow> string \<Rightarrow> bool \<Rightarrow> string" where
  "chip label value ok =
     (let tone = (if ok then ''is-ok'' else ''is-bad'')
      in ''<span class=\"chip '' @ tone @ ''\"><span class=\"dot\"></span>'' @ label @ '' <b>'' @ value @ ''</b></span>'')"

definition status_chip :: "string \<Rightarrow> u16 option \<Rightarrow> string" where
  "status_chip label code =
     (case code of
        Some code \<Rightarrow> chip label (show_nat (unat code)) (200 \<le> code \<and> code < 300)
      | None \<Rightarrow> chip label ''n/a'' False)"

definition statusbar :: "page \<Rightarrow> string" where
  "statusbar p =
     (let d = pg_data p;
          scrape = (case dd_scrape_error d of Some error \<Rightarrow> chip ''scrape'' (escape error) False | None \<Rightarrow> chip ''scrape'' ''ok'' True);
          updated = (case dd_last_scrape d of
             Some t_at \<Rightarrow> ''<span class=\"live\"></span>Updated '' @ relative_time (pg_now p) t_at @ '' &middot; '' @ time_text (pg_rfc3339 p) t_at
           | None \<Rightarrow> ''<span class=\"live\"></span>Awaiting first scrape'')
      in ''<div class=\"statusbar\"><div class=\"chips\">'' @ scrape @ status_chip ''health'' (dd_health_status d) @
         status_chip ''ready'' (dd_ready_status d) @ ''</div><div class=\"updated\">'' @ updated @ ''</div></div>'')"

definition kpi :: "string \<Rightarrow> string \<Rightarrow> string \<Rightarrow> string \<Rightarrow> string" where
  "kpi label figure unit tone =
     ''<div class=\"kpi\"><p class=\"eyebrow\">'' @ label @ ''</p><p class=\"figure'' @ class_suffix tone @ ''\">'' @ figure @
     ''</p><p class=\"unit\">'' @ unit @ ''</p></div>''"

definition kpis :: "page \<Rightarrow> string" where
  "kpis p =
     (let d = pg_data p;
          ws = List.map_filter (dd_endpoints d) ENDPOINTS;
          total_qps = fold (\<lambda>w acc. f_add acc (ew_qps w)) ws (Fin 0);
          worst_p95 = fold (\<lambda>value acc. Some (case acc of None \<Rightarrow> value | Some current \<Rightarrow> f_max current value))
            (List.map_filter (\<lambda>ep. Option.bind (dd_endpoints d ep) (\<lambda>w. lw_p95 (alert_latency w ep))) ENDPOINTS) None;
          errors = f_round (fold (\<lambda>w acc. f_add acc (ew_errors_5xx w)) ws (Fin 0));
          alerts = length (active_alerts (dd_active_alerts d))
      in ''<section class=\"kpis\">'' @
         kpi ''Throughput'' (fmt_fixed 3 total_qps) ''req/s over 5m'' [] @
         kpi ''Worst server p95'' (case worst_p95 of Some value \<Rightarrow> fmt_fixed 3 value @ ''s'' | None \<Rightarrow> em_dash) ''slowest alert basis'' [] @
         kpi ''5xx responses'' (fmt_fixed 0 errors) ''across all endpoints'' (if f_lt (Fin 0) errors then ''bad'' else []) @
         kpi ''Active alerts'' (show_nat alerts) (if alerts = 1 then ''check firing'' else ''checks firing'') (if alerts > 0 then ''bad'' else []) @
         ''</section>'')"

definition latency_budget :: "string \<Rightarrow> f64 option" where
  "latency_budget endpoint =
     (if endpoint = ''tier0'' then Some TIER0_P99_SECONDS
      else if endpoint = ''params_tier1'' then Some PARAMS_P99_SECONDS
      else None)"

text \<open>\<open>budget * 0.6\<close>, with the double nearest to 0.6.\<close>

definition latency_cell :: "f64 option \<Rightarrow> f64 option \<Rightarrow> string" where
  "latency_cell value budget =
     (case value of
        None \<Rightarrow> ''<td class=\"muted\">'' @ em_dash @ ''</td>''
      | Some seconds \<Rightarrow>
          let tone = (case budget of
                Some budget \<Rightarrow> if f_ge seconds budget then ''bad'' else if f_ge seconds (f_mul budget (fround (6 / 10))) then ''warn'' else []
              | None \<Rightarrow> [])
          in ''<td class=\"'' @ tone @ ''\">'' @ fmt_fixed 3 seconds @ ''s</td>'')"

definition error_cell :: "EndpointWindow \<Rightarrow> string" where
  "error_cell values =
     (let count = f_round (ew_errors_5xx values)
      in if f_ge (Fin 0) count then ''<span class=\"muted\">0</span>''
         else
           let fill = f_clamp (Fin 4) (Fin 100) (f_mul (f_div (ew_error_ratio values) HTTP_5XX_RATIO) (Fin 100))
           in ''<span class=\"errcell\"><span class=\"bad\">'' @ fmt_fixed 0 count @ '' ('' @ fmt_fixed 2 (f_mul (ew_error_ratio values) (Fin 100)) @
              ''%)</span><span class=\"errbar\"><i style=\"width:'' @ fmt_fixed 0 fill @ ''%\"></i></span></span>'')"

definition window_at :: "DashboardData \<Rightarrow> string \<Rightarrow> EndpointWindow" where
  "window_at d ep = (case dd_endpoints d ep of None \<Rightarrow> no_window | Some w \<Rightarrow> w)"

definition endpoint_row :: "DashboardData \<Rightarrow> string \<Rightarrow> string" where
  "endpoint_row d ep =
     (let values = window_at d ep; budget = latency_budget ep
      in ''<tr><th>'' @ escape ep @ ''</th><td>'' @ fmt_fixed 3 (ew_qps values) @ ''</td><td>'' @ fmt_fixed 0 (ew_in_flight values) @
         ''</td><td>'' @ fmt_fixed 0 (ew_requests values) @ ''</td>'' @ latency_cell (lw_p50 (ew_observed values)) budget @
         latency_cell (lw_p95 (ew_observed values)) budget @ latency_cell (lw_p99 (ew_observed values)) budget @
         ''<td>'' @ error_cell values @ ''</td></tr>'')"

definition endpoint_table :: "page \<Rightarrow> string" where
  "endpoint_table p =
     ''<section class=\"card\"><p class=\"eyebrow\">Observed PIR request latency &middot; 5 minute window</p><div class=\"wrap\"><table><thead><tr><th>Endpoint</th><th>QPS</th><th>Inflight</th><th>Requests</th><th>p50</th><th>p95</th><th>p99</th><th>5xx</th></tr></thead><tbody>'' @
     concat (map (endpoint_row (pg_data p)) ENDPOINTS) @ ''</tbody></table></div></section>''"

definition latency_split_row :: "string \<Rightarrow> LatencyWindow \<Rightarrow> f64 \<Rightarrow> f64 option \<Rightarrow> string \<Rightarrow> string" where
  "latency_split_row label latency in_flight budget policy =
     ''<tr><th>'' @ escape label @ ''</th><td>'' @ fmt_fixed 0 (lw_samples latency) @ ''</td><td>'' @ fmt_fixed 0 in_flight @ ''</td>'' @
     latency_cell (lw_p50 latency) budget @ latency_cell (lw_p95 latency) budget @ latency_cell (lw_p99 latency) budget @
     ''<td class=\"muted\">'' @ escape policy @ ''</td></tr>''"

definition tier1_latency_split :: "page \<Rightarrow> string" where
  "tier1_latency_split p =
     (let values = window_at (pg_data p) ''tier1_query''
      in ''<section class=\"card\"><p class=\"eyebrow\">Tier1 latency split &middot; 5 minute window</p><div class=\"wrap\"><table><thead><tr><th>Stage</th><th>Samples</th><th>Inflight</th><th>p50</th><th>p95</th><th>p99</th><th>Alerting</th></tr></thead><tbody>'' @
         latency_split_row ''Observed total'' (ew_observed values) (ew_in_flight values) None ''informational'' @
         latency_split_row ''Server processing'' (ew_processing values) (ew_processing_in_flight values) (Some TIER1_PROCESSING_P99_SECONDS) ''pages on p99'' @
         ''</tbody></table></div><p class=\"note\"><strong>Alert basis.</strong> Server processing begins after the complete request body reaches nf-server and is the only distribution evaluated against the '' @
         fmt_fixed 3 TIER1_PROCESSING_P99_SECONDS @
         ''s p99 latency threshold. Body-receive timing remains available in nf-server operator metrics and is not rendered here.</p></section>'')"

definition gauge_row :: "string \<times> f64 \<Rightarrow> string" where
  "gauge_row g =
     ''<li><span class=\"k\" title=\"'' @ escape (fst g) @ ''\">'' @ escape (humanize_gauge (fst g)) @ ''</span><span class=\"v\">'' @
     format_number (snd g) @ ''</span></li>''"

definition service_card :: "page \<Rightarrow> string" where
  "service_card p =
     (let d = pg_data p;
          gauges = btree_list (dd_snapshot_gauges d);
          rows = (if gauges = [] then ''<li><span class=\"k\">Snapshot metrics</span><span class=\"v muted\">none yet</span></li>''
            else concat (map gauge_row gauges));
          memory = (case dd_process_resident_memory_bytes d of Some bytes \<Rightarrow> bytes_human (f_as_u64 bytes) | None \<Rightarrow> ''unavailable'');
          health_body = (case dd_health_body d of Some body \<Rightarrow> escape body | None \<Rightarrow> ''unavailable'')
      in ''<section class=\"card\"><p class=\"eyebrow\">Service &amp; snapshot</p><ul class=\"rows\">'' @ rows @
         ''<li><span class=\"k\">Resident memory</span><span class=\"v\">'' @ memory @ ''</span></li></ul><p class=\"note\"><strong>/health</strong> <code>'' @
         health_body @ ''</code></p></section>'')"

definition meter :: "string \<Rightarrow> string \<Rightarrow> f64 \<Rightarrow> string \<Rightarrow> string" where
  "meter label detail ratio tone =
     (let percent = f_clamp (Fin 0) (Fin 100) (f_mul ratio (Fin 100))
      in ''<div class=\"meter\"><div class=\"meter-head\"><span class=\"k\">'' @ label @ ''</span><span class=\"v'' @ class_suffix tone @ ''\">'' @
         fmt_fixed 0 percent @ ''% used</span></div><div class=\"bar\"><i class=\"'' @ tone @ ''\" style=\"width:'' @ fmt_fixed 1 percent @
         ''%\"></i></div><p class=\"meter-foot\">'' @ detail @ ''</p></div>'')"

text \<open>The double nearest to 0.80 is the second limit of the disk.\<close>

definition host_card :: "HostHealth \<Rightarrow> string" where
  "host_card host =
     (let memory_used = (if hh_total_memory_bytes host > 0
            then f_sub (Fin 1) (f_div (f_of_u64 (hh_available_memory_bytes host)) (f_of_u64 (hh_total_memory_bytes host))) else Fin 0);
          memory_tone = (if hh_available_memory_bytes host < MEMORY_AVAILABLE_BYTES then ''bad''
            else if hh_available_memory_bytes host < MEMORY_AVAILABLE_BYTES * 2 then ''warn'' else []);
          disk_tone = (if f_lt DISK_USED_RATIO (hh_disk_used_ratio host) then ''bad''
            else if f_lt (fround (80 / 100)) (hh_disk_used_ratio host) then ''warn'' else [])
      in ''<section class=\"card\"><p class=\"eyebrow\">Host</p>'' @
         meter ''Memory'' (bytes_human (hh_available_memory_bytes host) @ '' free of '' @ bytes_human (hh_total_memory_bytes host)) memory_used memory_tone @
         meter ''Disk'' (bytes_human (hh_disk_available_bytes host) @ '' free of '' @ bytes_human (hh_disk_total_bytes host)) (hh_disk_used_ratio host) disk_tone @
         ''<ul class=\"rows\"><li><span class=\"k\">Load 1 / 5 / 15</span><span class=\"v\">'' @ fmt_fixed 2 (hh_load_one host) @ '' '' @ middot @ '' '' @
         fmt_fixed 2 (hh_load_five host) @ '' '' @ middot @ '' '' @ fmt_fixed 2 (hh_load_fifteen host) @
         ''</span></li><li><span class=\"k\">Data directory</span><span class=\"v\">'' @ escape (hh_data_dir host) @ ''</span></li></ul></section>'')"

definition alert_item :: "nat \<Rightarrow> Alert \<Rightarrow> string" where
  "alert_item now alert =
     ''<li class=\"is-bad\"><p class=\"name\">'' @ escape (al_check alert) @ ''</p><p class=\"detail\">'' @ escape (alert_observed alert) @
     '' <span class=\"muted\">(threshold '' @ escape (al_threshold alert) @ '')</span></p><p class=\"when\">firing '' @
     relative_time now (al_fired_at alert) @ ''</p></li>''"

definition active_alerts_card :: "nat \<Rightarrow> Alert list \<Rightarrow> string" where
  "active_alerts_card now alerts =
     (if alerts = []
      then ''<section class=\"card\"><p class=\"eyebrow\">Active alerts</p><ul class=\"alerts\"><li class=\"is-ok\"><p class=\"name\">All checks passing</p><p class=\"detail\">No thresholds are currently breached.</p></li></ul></section>''
      else ''<section class=\"card\"><p class=\"eyebrow\">Active alerts</p><ul class=\"alerts\">'' @ concat (map (alert_item now) alerts) @ ''</ul></section>'')"

definition recent_item :: "nat \<Rightarrow> nat \<times> log_line \<Rightarrow> string" where
  "recent_item now r =
     ''<li><span class=\"k\">'' @ escape (log_text (snd r)) @ ''</span><span class=\"v\">'' @ relative_time now (fst r) @ ''</span></li>''"

definition recent_alerts_card :: "nat \<Rightarrow> (nat \<times> log_line) list \<Rightarrow> string" where
  "recent_alerts_card now recent =
     (if recent = []
      then ''<section class=\"card\"><p class=\"eyebrow\">Alert history</p><p class=\"empty\">Nothing recorded since this sidecar started.</p></section>''
      else ''<section class=\"card\"><p class=\"eyebrow\">Alert history</p><ul class=\"rows\">'' @ concat (map (recent_item now) recent) @ ''</ul></section>'')"

definition privacy_note :: string where
  "privacy_note =
     ''<p class=\"note\"><strong>Privacy.</strong> This sidecar scrapes only aggregate, allowlisted PIR metrics and local host health. '' @
     ''It does not collect request bodies, nullifiers, IP addresses, headers, query identifiers, or any other per-user data. '' @
     ''Every value on this page is server-rendered; the browser polls this dashboard every '' @ show_nat REFRESH_SECONDS @
     '' seconds and never contacts the PIR server or its <code>/metrics</code> endpoint.</p>''"

definition STYLE :: string where
  "STYLE =
     concat (map (\<lambda>l. CHR 0x0A # l)
       [''*,*::before,*::after{box-sizing:border-box}'',
        '':root{'',
        ''color-scheme:dark;'',
        ''--vellum:#17150f;--ink:#efe5d0;--gold:#c6a15b;--lapis:#3a95dc;'',
        ''--parchment:188,169,138;'',
        ''--p85:rgba(var(--parchment),.85);--p62:rgba(var(--parchment),.62);'',
        ''--p42:rgba(var(--parchment),.42);--p22:rgba(var(--parchment),.22);'',
        ''--p16:rgba(var(--parchment),.16);--p08:rgba(var(--parchment),.08);'',
        ''--p05:rgba(var(--parchment),.05);--p02:rgba(var(--parchment),.02);'',
        ''--ok:#8fb573;--warn:#c6a15b;--bad:#d2694f;'',
        ''--sans:\"IBM Plex Sans\",ui-sans-serif,system-ui,-apple-system,sans-serif;'',
        ''--mono:\"IBM Plex Mono\",ui-monospace,SFMono-Regular,Menlo,monospace;'',
        ''}'',
        ''html{-webkit-text-size-adjust:100%}'',
        ''body{margin:0;background:var(--vellum);color:var(--p85);font-family:var(--sans);'',
        ''font-size:15px;line-height:1.55;letter-spacing:-.005em;-webkit-font-smoothing:antialiased}'',
        ''#app{max-width:1180px;margin:0 auto;padding:clamp(28px,5vh,56px) clamp(16px,4vw,32px) 72px}'',
        ''h1,h2,h3{color:var(--ink);font-weight:400;margin:0}'',
        ''code{font-family:var(--mono);color:var(--p62);font-size:.92em}'',
        ''.num{font-family:var(--mono);font-variant-numeric:tabular-nums;font-feature-settings:\"tnum\" 1}'',
        ''.ok{color:var(--ok)}.warn{color:var(--warn)}.bad{color:var(--bad)}.muted{color:var(--p42)}'',
        ''.eyebrow{font-size:10.5px;letter-spacing:.13em;text-transform:uppercase;color:var(--p42);'',
        ''font-weight:500;margin:0 0 16px}'',
        [],
        ''.masthead{display:flex;flex-wrap:wrap;gap:20px;align-items:flex-end;'',
        ''justify-content:space-between;padding-bottom:22px;border-bottom:1px solid var(--p16)}'',
        ''.brand{display:flex;align-items:center;gap:14px}'',
        ''.mark{width:26px;height:26px;flex:none;border:1px solid var(--gold);'',
        ''transform:rotate(45deg);position:relative}'',
        ''.mark::after{content:\"\";position:absolute;inset:5px;background:var(--gold);opacity:.55}'',
        ''.brand h1{font-size:22px;letter-spacing:.055em;text-transform:uppercase;line-height:1.1}'',
        ''.brand .sub{margin:2px 0 0;font-size:11px;letter-spacing:.1em;text-transform:uppercase;'',
        ''color:var(--p42)}'',
        ''.tags{display:flex;flex-wrap:wrap;gap:8px}'',
        ''.pill{border:1px solid var(--p22);border-radius:999px;padding:4px 12px;font-size:11px;'',
        ''letter-spacing:.08em;text-transform:uppercase;color:var(--p62);white-space:nowrap}'',
        ''.pill.env{border-color:rgba(198,161,91,.45);color:var(--gold)}'',
        [],
        ''.statusbar{display:flex;flex-wrap:wrap;gap:12px 24px;align-items:center;'',
        ''justify-content:space-between;padding:16px 0 30px;border-bottom:1px solid var(--p08)}'',
        ''.chips{display:flex;flex-wrap:wrap;gap:8px}'',
        ''.chip{display:inline-flex;align-items:center;gap:7px;border:1px solid var(--p16);'',
        ''border-radius:4px;padding:5px 11px;font-size:11.5px;letter-spacing:.06em;'',
        ''text-transform:uppercase;color:var(--p62);background:var(--p02)}'',
        ''.chip .dot{width:6px;height:6px;border-radius:50%;flex:none;background:currentColor}'',
        ''.chip.is-ok{color:var(--ok);border-color:rgba(143,181,115,.3)}'',
        ''.chip.is-bad{color:var(--bad);border-color:rgba(210,105,79,.35)}'',
        ''.chip b{font-weight:500;font-family:var(--mono)}'',
        ''.updated{display:flex;align-items:center;gap:9px;font-size:12px;color:var(--p42)}'',
        ''.live{width:6px;height:6px;border-radius:50%;background:var(--ok);flex:none;'',
        ''animation:pulse 2.4s ease-in-out infinite}'',
        ''@keyframes pulse{0%,100%{opacity:1}50%{opacity:.25}}'',
        [],
        ''.kpis{display:grid;grid-template-columns:repeat(4,1fr);gap:1px;background:var(--p16);'',
        ''border:1px solid var(--p16);margin:30px 0 34px}'',
        ''.kpi{background:var(--vellum);padding:20px 22px 22px}'',
        ''.kpi .figure{font-family:var(--mono);font-variant-numeric:tabular-nums;font-size:30px;'',
        ''line-height:1.1;color:var(--ink);margin:0;letter-spacing:-.02em}'',
        ''.kpi .figure.warn{color:var(--warn)}.kpi .figure.bad{color:var(--bad)}'',
        ''.kpi .unit{margin:7px 0 0;font-size:11.5px;color:var(--p42);letter-spacing:.02em}'',
        ''.kpi .eyebrow{margin-bottom:12px}'',
        [],
        ''.card{border:1px solid var(--p16);background:var(--p02);padding:22px 24px 24px;'',
        ''margin-bottom:20px}'',
        ''.grid{display:grid;grid-template-columns:repeat(auto-fit,minmax(420px,1fr));gap:20px}'',
        ''.grid .card{margin:0}'',
        ''.card .rows+.note,.card .meter+.rows{margin-top:22px}'',
        [],
        ''table{width:100%;border-collapse:collapse;font-size:13.5px}'',
        ''thead th{font-size:10.5px;letter-spacing:.11em;text-transform:uppercase;color:var(--p42);'',
        ''font-weight:500;text-align:right;padding:0 0 12px 16px;border-bottom:1px solid var(--p16);'',
        ''white-space:nowrap}'',
        ''thead th:first-child{text-align:left;padding:0 16px 12px 0}'',
        ''tbody th,tbody td{padding:13px 0;border-bottom:1px solid var(--p08);text-align:right;'',
        ''font-family:var(--mono);font-variant-numeric:tabular-nums;white-space:nowrap}'',
        ''tbody th{font-weight:400;text-align:left;color:var(--ink);font-size:13px;padding-right:16px}'',
        ''tbody td{padding-left:16px}'',
        ''tbody tr:last-child th,tbody tr:last-child td{border-bottom:0}'',
        ''.wrap{overflow-x:auto;margin:0 -4px;padding:0 4px}'',
        ''.errcell{display:flex;flex-direction:column;align-items:flex-end;gap:5px}'',
        ''.errbar{width:52px;height:2px;background:var(--p08)}'',
        ''.errbar i{display:block;height:100%;background:var(--bad)}'',
        [],
        ''.rows{list-style:none;margin:0;padding:0}'',
        ''.rows li{display:flex;justify-content:space-between;gap:18px;padding:11px 0;'',
        ''border-bottom:1px solid var(--p08);font-size:13.5px}'',
        ''.rows li:last-child{border-bottom:0}'',
        ''.rows .k{color:var(--p62)}'',
        ''.rows .v{font-family:var(--mono);font-variant-numeric:tabular-nums;color:var(--ink);'',
        ''text-align:right;white-space:nowrap}'',
        [],
        ''.meter{margin-top:22px}'',
        ''.meter:first-of-type{margin-top:0}'',
        ''.meter-head{display:flex;justify-content:space-between;gap:16px;font-size:12.5px;'',
        ''align-items:baseline;margin-bottom:9px}'',
        ''.meter-head .k{color:var(--p62)}'',
        ''.meter-head .v{font-family:var(--mono);font-variant-numeric:tabular-nums;color:var(--p85);'',
        ''white-space:nowrap}'',
        ''.meter-head .v.warn{color:var(--warn)}'',
        ''.meter-head .v.bad{color:var(--bad)}'',
        ''.meter-foot{margin:9px 0 0;font-size:11.5px;color:var(--p42);font-family:var(--mono);'',
        ''font-variant-numeric:tabular-nums}'',
        ''.bar{height:3px;background:var(--p08);overflow:hidden}'',
        ''.bar i{display:block;height:100%;background:var(--p42)}'',
        ''.bar i.warn{background:var(--warn)}'',
        ''.bar i.bad{background:var(--bad)}'',
        [],
        ''.alerts{list-style:none;margin:0;padding:0}'',
        ''.alerts li{border-left:2px solid var(--p22);padding:2px 0 2px 14px;margin-bottom:16px;'',
        ''font-size:13.5px}'',
        ''.alerts li:last-child{margin-bottom:0}'',
        ''.alerts li.is-bad{border-left-color:var(--bad)}'',
        ''.alerts li.is-ok{border-left-color:var(--ok)}'',
        ''.alerts .name{color:var(--ink);font-family:var(--mono);font-size:13px}'',
        ''.alerts .detail{margin:3px 0 0;color:var(--p62)}'',
        ''.alerts .when{margin:3px 0 0;font-size:11.5px;color:var(--p42);font-family:var(--mono)}'',
        ''.empty{color:var(--p42);font-size:13.5px;margin:0}'',
        [],
        ''.note{border:1px solid var(--p08);background:transparent;padding:20px 24px;'',
        ''font-size:12.5px;color:var(--p42);line-height:1.7;margin:0}'',
        ''.note strong{color:var(--p62);font-weight:500}'',
        [],
        ''@media (max-width:900px){.kpis{grid-template-columns:repeat(2,1fr)}}'',
        ''@media (max-width:720px){'',
        ''#app{padding-bottom:48px}'',
        ''.kpis{grid-template-columns:1fr}'',
        ''.grid{grid-template-columns:1fr}'',
        ''.masthead,.statusbar{align-items:flex-start;flex-direction:column}'',
        ''.kpi .figure{font-size:26px}'',
        ''}'',
        ''@media (prefers-reduced-motion:reduce){*{animation:none!important;transition:none!important}}'']) @ [CHR 0x0A]"

definition SCRIPT :: string where
  "SCRIPT =
     concat (map (\<lambda>l. CHR 0x0A # l)
       [''(function () {'',
        ''  var PERIOD = 15000;'',
        ''  var timer;'',
        ''  function schedule() { clearTimeout(timer); timer = setTimeout(run, PERIOD); }'',
        ''  function run() {'',
        ''    if (document.hidden) { schedule(); return; }'',
        ''    fetch(location.href, { cache: '' @ [CHR 0x27] @ ''no-store'' @ [CHR 0x27] @ '', credentials: '' @ [CHR 0x27] @ ''same-origin'' @ [CHR 0x27] @ '' })'',
        ''      .then(function (response) { return response.ok ? response.text() : null; })'',
        ''      .then(function (text) {'',
        ''        if (!text) return;'',
        ''        var next = new DOMParser().parseFromString(text, '' @ [CHR 0x27] @ ''text/html'' @ [CHR 0x27] @ '').getElementById('' @ [CHR 0x27] @ ''app'' @ [CHR 0x27] @ '');'',
        ''        var current = document.getElementById('' @ [CHR 0x27] @ ''app'' @ [CHR 0x27] @ '');'',
        ''        if (next && current) current.replaceWith(next);'',
        ''      })'',
        ''      .catch(function () {})'',
        ''      .then(schedule);'',
        ''  }'',
        ''  document.addEventListener('' @ [CHR 0x27] @ ''visibilitychange'' @ [CHR 0x27] @ '', function () {'',
        ''    if (!document.hidden) { clearTimeout(timer); run(); }'',
        ''  });'',
        ''  schedule();'',
        ''})();'']) @ [CHR 0x0A]"

definition render :: "page \<Rightarrow> string" where
  "render p =
     ''<!doctype html>'' @ [CHR 0x0A] @ ''<html lang=\"en\"><head><meta charset=\"utf-8\">'' @
     ''<meta name=\"viewport\" content=\"width=device-width,initial-scale=1\">'' @ ''<title>PIR APM</title>'' @
     ''<noscript><meta http-equiv=\"refresh\" content=\"'' @ show_nat REFRESH_SECONDS @ ''\"></noscript>'' @
     ''<style>'' @ STYLE @ ''</style></head><body><main id=\"app\">'' @
     masthead p @ statusbar p @ kpis p @ endpoint_table p @ tier1_latency_split p @ ''<div class=\"grid\">'' @
     service_card p @ host_card (dd_host (pg_data p)) @ active_alerts_card (pg_now p) (active_alerts (dd_active_alerts (pg_data p))) @
     recent_alerts_card (pg_now p) (dd_recent_alerts (pg_data p)) @ ''</div>'' @ privacy_note @
     ''</main><script>'' @ SCRIPT @ ''</script></body></html>''"
section \<open>Markup\<close>

text \<open>The characters that open and close tags and attribute values.\<close>

definition markup :: "string \<Rightarrow> string" where
  "markup s = filter (\<lambda>c. c \<in> {CHR ''<'', CHR ''>'', CHR 0x22, CHR 0x27}) s"

lemma markup_append [simp]: "markup (a @ b) = markup a @ markup b"
  by (simp add: markup_def)

lemma markup_Nil [simp]: "markup [] = []"
  by (simp add: markup_def)

lemma markup_Cons [simp]:
  "markup (c # s) = (if c = CHR ''<'' \<or> c = CHR ''>'' \<or> c = CHR 0x22 \<or> c = CHR 0x27 then c # markup s else markup s)"
  by (simp add: markup_def)

lemma markup_branches [simp]:
  "markup (if b then x else y) = (if b then markup x else markup y)"
  "markup (case t of Some v \<Rightarrow> f v | None \<Rightarrow> z) = (case t of Some v \<Rightarrow> markup (f v) | None \<Rightarrow> markup z)"
  by (simp_all split: option.split)

lemma markup_concat: "markup (concat ss) = concat (map markup ss)"
  by (induction ss) simp_all

lemma markup_replace:
  "markup (replace_char c r s) = concat (map (\<lambda>x. if x = c then markup r else markup [x]) s)"
  by (simp add: replace_char_def markup_concat comp_def if_distrib)

lemma replace_replace:
  "replace_char c r (concat (map f s)) = concat (map (\<lambda>x. replace_char c r (f x)) s)"
  by (induction s) (simp_all add: replace_char_def)

text \<open>The five replacements act on each character alone, the ampersand first.\<close>

definition entity :: "char \<Rightarrow> string" where
  "entity c =
     (if c = CHR ''&'' then ''&amp;'' else if c = CHR ''<'' then ''&lt;'' else if c = CHR ''>'' then ''&gt;''
      else if c = CHR 0x22 then ''&quot;'' else if c = CHR 0x27 then ''&#39;'' else [c])"

lemma escape_entities: "escape s = concat (map entity s)"
proof -
  have "escape s = concat (map (\<lambda>x. replace_char (CHR 0x27) ''&#39;'' (replace_char (CHR 0x22) ''&quot;''
      (replace_char (CHR ''>'') ''&gt;'' (replace_char (CHR ''<'') ''&lt;'' (if x = CHR ''&'' then ''&amp;'' else [x]))))) s)"
    by (simp add: escape_def replace_char_def [of "CHR ''&''"] replace_replace)
  also have "\<dots> = concat (map entity s)"
    by (intro arg_cong [where f = concat] map_cong refl) (simp add: replace_char_def entity_def)
  finally show ?thesis .
qed

lemma markup_escape [simp]: "markup (escape s) = []"
  by (simp add: escape_entities markup_concat comp_def) (simp add: markup_def entity_def)

text \<open>What a browser reads: the five references as their characters.\<close>

definition entities :: "(string \<times> char) list" where
  "entities = [(''&amp;'', CHR ''&''), (''&lt;'', CHR ''<''), (''&gt;'', CHR ''>''), (''&quot;'', CHR 0x22), (''&#39;'', CHR 0x27)]"

fun unescape :: "string \<Rightarrow> string" where
  "unescape [] = []"
| "unescape (c # s) =
     (case List.find (\<lambda>e. starts_with (c # s) (fst e)) entities of
        Some e \<Rightarrow> snd e # unescape (drop (length (fst e) - 1) s)
      | None \<Rightarrow> c # unescape s)"

lemma unescape_entity: "unescape (entity c @ s) = c # unescape s"
  by (simp add: entity_def entities_def)

lemma unescape_escape: "unescape (escape s) = s"
  by (induction s) (simp_all add: escape_entities unescape_entity)

text \<open>Numbers, times and the fixed words bring no markup.\<close>

lemma markup_none: "(\<And>c. c \<in> set s \<Longrightarrow> c \<noteq> CHR ''<'' \<and> c \<noteq> CHR ''>'' \<and> c \<noteq> CHR 0x22 \<and> c \<noteq> CHR 0x27) \<Longrightarrow> markup s = []"
  by (auto simp: markup_def filter_empty_conv)

lemma markup_show_nat [simp]: "markup (show_nat n) = []"
  using show_nat_digits [of n] by (intro markup_none) (auto simp: list_all_iff is_ascii_digit_def)

lemma markup_fixed [simp]: "markup (fmt_fixed k x) = []"
proof (rule markup_none)
  fix c
  assume "c \<in> set (fmt_fixed k x)"
  then have "numeral_char c" using fmt_fixed_chars [of k x] by (simp add: list_all_iff)
  then show "c \<noteq> CHR ''<'' \<and> c \<noteq> CHR ''>'' \<and> c \<noteq> CHR 0x22 \<and> c \<noteq> CHR 0x27"
    by (auto simp: numeral_char_def is_ascii_digit_def)
qed

lemma markup_words [simp]:
  "markup (format_number x) = []" "markup (bytes_human b) = []" "markup (relative_time now t) = []"
  "markup em_dash = []" "markup middot = []" "markup (class_suffix tone) = markup tone"
  by (simp_all add: format_number_def bytes_human_def relative_time_def em_dash_def middot_def class_suffix_def Let_def)

definition dates_plain :: "page \<Rightarrow> bool" where
  "dates_plain p \<longleftrightarrow> (\<forall>s t. pg_rfc3339 p s = Some t \<longrightarrow> markup t = [])"

lemma markup_time_text: "dates_plain p \<Longrightarrow> markup (time_text (pg_rfc3339 p) t) = []"
  by (simp add: time_text_def dates_plain_def Let_def split: option.split)

text \<open>Each part of the page has the markup of its template.\<close>

lemma markup_masthead: "markup (masthead p) = markup (masthead q)"
  by (simp add: masthead_def del: append_Cons markup_Cons)

lemma markup_chip: "markup v = [] \<Longrightarrow> markup (chip l v ok) = markup (chip l [] True)"
  by (simp add: chip_def)

lemma markup_status_chip: "markup (status_chip l code) = markup (chip l [] True)"
  by (simp add: status_chip_def chip_def split: option.split)

lemma markup_statusbar:
  assumes "dates_plain p" "dates_plain q"
  shows "markup (statusbar p) = markup (statusbar q)"
proof -
  let ?none = "''<span class=\"live\"></span>Awaiting first scrape''"
  have c: "markup (chip ''scrape'' (escape e) False) = markup (chip ''scrape'' ''ok'' True)" for e by (simp add: chip_def)
  have u: "markup (''<span class=\"live\"></span>Updated '' @ relative_time now t @ '' &middot; '' @ time_text (pg_rfc3339 x) t) = markup ?none"
    if "dates_plain x" for now t x using that by (simp add: markup_time_text)
  show ?thesis
    using u [OF assms(1)] u [OF assms(2)]
    by (simp add: statusbar_def Let_def markup_status_chip c del: append_Cons markup_Cons markup_append cong: option.case_cong)
       (simp add: markup_status_chip c del: append_Cons markup_Cons split: option.split)
qed

lemma markup_kpis: "markup (kpis p) = markup (kpis q)"
proof -
  have "markup ''bad'' = []" "markup ''s'' = []" "markup ''check firing'' = []" "markup ''checks firing'' = []" by simp_all
  then show ?thesis by (simp add: kpis_def kpi_def Let_def del: append_Cons markup_Cons split: option.split)
qed

lemma markup_latency_cell: "markup (latency_cell v b) = markup (latency_cell None None)"
  by (simp add: latency_cell_def Let_def split: option.split)

lemma markup_error_cell:
  "f_ge (Fin 0) (f_round (ew_errors_5xx v)) = f_ge (Fin 0) (f_round (ew_errors_5xx w)) \<Longrightarrow> markup (error_cell v) = markup (error_cell w)"
  by (simp add: error_cell_def Let_def)

lemmas markup_cells = markup_latency_cell [where v = "lw_p50 _"] markup_latency_cell [where v = "lw_p95 _"] markup_latency_cell [where v = "lw_p99 _"]

lemma markup_tier1_split: "markup (tier1_latency_split p) = markup (tier1_latency_split q)"
  by (simp add: tier1_latency_split_def latency_split_row_def Let_def markup_cells del: append_Cons markup_Cons)

text \<open>The endpoints of two pages agree on which of them have errors to show.\<close>

definition same_errors :: "DashboardData \<Rightarrow> DashboardData \<Rightarrow> bool" where
  "same_errors d e \<longleftrightarrow>
     list_all (\<lambda>ep. f_ge (Fin 0) (f_round (ew_errors_5xx (window_at d ep))) = f_ge (Fin 0) (f_round (ew_errors_5xx (window_at e ep)))) ENDPOINTS"

lemma markup_endpoint_row:
  assumes "f_ge (Fin 0) (f_round (ew_errors_5xx (window_at d ep))) = f_ge (Fin 0) (f_round (ew_errors_5xx (window_at e ep)))"
  shows "markup (endpoint_row d ep) = markup (endpoint_row e ep)"
  using markup_error_cell [OF assms]
  by (simp add: endpoint_row_def Let_def markup_cells)

lemma markup_endpoint_table:
  assumes "same_errors (pg_data p) (pg_data q)"
  shows "markup (endpoint_table p) = markup (endpoint_table q)"
proof -
  have "markup (concat (map (endpoint_row (pg_data p)) ENDPOINTS)) = markup (concat (map (endpoint_row (pg_data q)) ENDPOINTS))"
    unfolding markup_concat map_map comp_def using assms
    by (intro arg_cong [where f = concat] map_cong refl markup_endpoint_row) (simp add: same_errors_def list_all_iff)
  then show ?thesis by (simp add: endpoint_table_def del: append_Cons markup_Cons)
qed

text \<open>Lists of rows of one template agree when they are equally long.\<close>

lemma markup_rows:
  assumes "length xs = length ys" "\<And>x y. markup (f x) = markup (g y)"
  shows "markup (concat (map f xs)) = markup (concat (map g ys))"
  using assms(1) by (induction xs ys rule: list_induct2) (simp_all add: assms(2))

lemma markup_service_card:
  assumes "length (btree_list (dd_snapshot_gauges (pg_data p))) = length (btree_list (dd_snapshot_gauges (pg_data q)))"
  shows "markup (service_card p) = markup (service_card q)"
proof -
  have r: "markup (concat (map gauge_row (btree_list (dd_snapshot_gauges (pg_data p))))) =
      markup (concat (map gauge_row (btree_list (dd_snapshot_gauges (pg_data q)))))"
    by (rule markup_rows [OF assms]) (simp add: gauge_row_def)
  have e: "(btree_list (dd_snapshot_gauges (pg_data p)) = []) = (btree_list (dd_snapshot_gauges (pg_data q)) = [])"
    using assms by (metis length_0_conv)
  show ?thesis by (simp add: service_card_def Let_def r e split: option.split)
qed

lemma markup_host_card: "markup (host_card h) = markup (host_card h')"
proof -
  have "markup ''bad'' = []" "markup ''warn'' = []" by simp_all
  then show ?thesis by (simp add: host_card_def meter_def Let_def del: append_Cons markup_Cons)
qed

lemma markup_active_alerts:
  assumes "length xs = length ys"
  shows "markup (active_alerts_card now xs) = markup (active_alerts_card now' ys)"
proof -
  have "markup (concat (map (alert_item now) xs)) = markup (concat (map (alert_item now') ys))"
    by (rule markup_rows [OF assms]) (simp add: alert_item_def)
  moreover have "(xs = []) = (ys = [])" using assms by auto
  ultimately show ?thesis by (simp add: active_alerts_card_def)
qed

lemma markup_recent_alerts:
  assumes "length xs = length ys"
  shows "markup (recent_alerts_card now xs) = markup (recent_alerts_card now' ys)"
proof -
  have "markup (concat (map (recent_item now) xs)) = markup (concat (map (recent_item now') ys))"
    by (rule markup_rows [OF assms]) (simp add: recent_item_def)
  moreover have "(xs = []) = (ys = [])" using assms by auto
  ultimately show ?thesis by (simp add: recent_alerts_card_def)
qed

section \<open>No injection\<close>

text \<open>Two pages of one shape: as many gauges, active alerts and history lines, and errors at the same endpoints.\<close>

definition same_shape :: "page \<Rightarrow> page \<Rightarrow> bool" where
  "same_shape p q \<longleftrightarrow>
     length (btree_list (dd_snapshot_gauges (pg_data p))) = length (btree_list (dd_snapshot_gauges (pg_data q))) \<and>
     length (active_alerts (dd_active_alerts (pg_data p))) = length (active_alerts (dd_active_alerts (pg_data q))) \<and>
     length (dd_recent_alerts (pg_data p)) = length (dd_recent_alerts (pg_data q)) \<and>
     same_errors (pg_data p) (pg_data q)"

text \<open>C39. No text from outside adds markup to the dashboard. Two pages of the same shape, that is with as many gauges, active
  alerts and history lines and with errors at the same endpoints, have the same sequence of angle brackets and quotes, whatever
  the environment, the host name, the data directory, the scrape error, the body of the health response, the names and values
  of the gauges, the texts of the alerts and the times are; so nothing a server sends can open or close a tag or an attribute.
  And the escaping of a text is read back as the text.\<close>

theorem dashboard_no_injection:
  assumes "same_shape p q" "dates_plain p" "dates_plain q"
  shows "markup (render p) = markup (render q) \<and> unescape (escape s) = s"
proof -
  note parts = markup_masthead [of p q] markup_statusbar [OF assms(2,3)] markup_kpis [of p q] markup_endpoint_table [of p q]
    markup_tier1_split [of p q] markup_service_card [of p q] markup_host_card [of "dd_host (pg_data p)" "dd_host (pg_data q)"]
    markup_active_alerts [of "active_alerts (dd_active_alerts (pg_data p))" "active_alerts (dd_active_alerts (pg_data q))" "pg_now p" "pg_now q"]
    markup_recent_alerts [of "dd_recent_alerts (pg_data p)" "dd_recent_alerts (pg_data q)" "pg_now p" "pg_now q"]
  have "markup (render p) = markup (render q)"
    using assms(1) unfolding same_shape_def by (simp add: render_def parts del: append_Cons markup_Cons)
  then show ?thesis by (simp add: unescape_escape)
qed

definition plain_host :: HostHealth where
  "plain_host =
     \<lparr>hh_load_one = Fin 0, hh_load_five = Fin 0, hh_load_fifteen = Fin 0, hh_total_memory_bytes = 0, hh_available_memory_bytes = 0,
      hh_disk_total_bytes = 0, hh_disk_available_bytes = 0, hh_disk_used_ratio = Fin 0, hh_data_dir = ''/data''\<rparr>"

definition page_of :: "string \<Rightarrow> DashboardData \<Rightarrow> page" where
  "page_of env d = \<lparr>pg_environment = env, pg_hostname = ''pir-1'', pg_now = 0, pg_rfc3339 = (\<lambda>_. None), pg_data = d\<rparr>"

theorem dashboard_no_injection_witness:
  "markup (render (page_of ''staging'' (dashboard_new plain_host))) =
     markup (render (page_of ''<script>'' ((dashboard_new plain_host)\<lparr>dd_health_body := Some ''</code><img src=x>''\<rparr>))) \<and>
   unescape (escape ''</code>&lt;'') = ''</code>&lt;''"
  by (rule dashboard_no_injection)
     (simp_all add: same_shape_def same_errors_def dates_plain_def page_of_def dashboard_new_def window_at_def list_all_iff)


end
