(* ===== verification/Doctor.thy ===== *)
theory Doctor
  imports Dashboard
begin

text \<open>
  The pre-flight checks of \<^verbatim>\<open>nf-server doctor\<close> (\<^verbatim>\<open>nf-server/src/cmd_doctor.rs\<close>): what it prints and what it warns about,
  given the host. Paths are lists of components. The lemmas show that the walk to an existing directory ends at the
  deepest one, which volume is measured, and that there is no warning exactly on a host that meets the recommendations.
\<close>

section \<open>The host\<close>

record doctor_disk =
  dk_mount :: string
  dk_available :: u64

datatype cache_meta = CachePresent u64 | CacheNotFound | CacheUnreadable string

text \<open>
  The features of the build; the logical processors, if they can be counted; memory and disks; the current directory, the
  paths that exist and their canonical form; whether an x86-64 processor has AVX-512F; and the cache file.
\<close>

record doctor_host =
  dh_serve :: bool
  dh_avx512 :: bool
  dh_parallelism :: "nat option"
  dh_total_memory :: u64
  dh_disks :: "doctor_disk list"
  dh_current_dir :: "string list option"
  dh_exists :: "string list \<Rightarrow> bool"
  dh_canonicalize :: "string list \<Rightarrow> string list option"
  dh_avx512f :: "bool option"
  dh_cache :: cache_meta

datatype doctor_line = Println string | WarnHardware string

definition RECOMMENDED_CPU :: u32 where
  "RECOMMENDED_CPU = 4"

definition RECOMMENDED_RAM_GIB :: u64 where
  "RECOMMENDED_RAM_GIB = 32"

definition RECOMMENDED_FREE_DISK_GIB :: u64 where
  "RECOMMENDED_FREE_DISK_GIB = 3"

definition gib_of :: "u64 \<Rightarrow> f64" where
  "gib_of bytes = f_div (f_of_u64 bytes) (Fin (1024 * 1024 * 1024))"

definition at_least :: string where
  "at_least = [CHR 0xE2, CHR 0x89, CHR 0xA5]"

section \<open>Paths\<close>

definition parent_path :: "string list \<Rightarrow> string list option" where
  "parent_path p = (if p = [] \<or> p = [''/''] then None else Some (butlast p))"

fun path_text :: "string list \<Rightarrow> string" where
  "path_text [] = []"
| "path_text [c] = c"
| "path_text (c # cs) = (if c = ''/'' then c else c @ ''/'') @ path_text cs"

text \<open>The loop of \<open>resolve_existing_prefix\<close>.\<close>

function existing_loop :: "doctor_host \<Rightarrow> string list \<Rightarrow> string list" where
  "existing_loop h cur =
     (if dh_exists h cur then (case dh_canonicalize h cur of Some c \<Rightarrow> c | None \<Rightarrow> cur)
      else case parent_path cur of
             Some parent \<Rightarrow> if parent = cur then parent else existing_loop h parent
           | None \<Rightarrow> [''/''])"
  by pat_completeness auto
termination
  by (relation "measure (length \<circ> snd)") (auto simp: parent_path_def split: if_splits)

declare existing_loop.simps [simp del]

definition absolute_path :: "doctor_host \<Rightarrow> string \<Rightarrow> string list" where
  "absolute_path h p =
     (if starts_with p ''/'' then path_components p
      else (case dh_current_dir h of Some d \<Rightarrow> d | None \<Rightarrow> [''.'']) @ path_components p)"

definition resolve_existing_prefix :: "doctor_host \<Rightarrow> string \<Rightarrow> string list" where
  "resolve_existing_prefix h p = existing_loop h (absolute_path h p)"

definition on_mount :: "string list \<Rightarrow> doctor_disk \<Rightarrow> bool" where
  "on_mount path d \<longleftrightarrow> take (length (path_components (dk_mount d))) path = path_components (dk_mount d)"

definition disk_for_path :: "doctor_disk list \<Rightarrow> string list \<Rightarrow> doctor_disk option" where
  "disk_for_path disks path = max_by_key (\<lambda>d. length (dk_mount d)) (filter (on_mount path) disks)"

section \<open>Checks\<close>

definition print_build_features :: "doctor_host \<Rightarrow> doctor_line list" where
  "print_build_features h =
     (let serve = (if dh_serve h then ''enabled'' else ''disabled''); avx512 = (if dh_avx512 h then ''enabled'' else ''disabled'')
      in [Println (''Build: `serve` feature '' @ serve @ ''; `avx512` feature '' @ avx512)] @
         (if \<not> dh_serve h
          then [Println (''Note: this binary was built without `serve`; production PIR hosts should use '' @
                  ''`cargo build -p nf-server --features serve` (optionally `--features avx512`).'')]
          else if \<not> dh_avx512 h
          then [Println (''Note: AVX-512 not enabled at compile time; rebuild with `--features avx512` on '' @
                  ''AVX-512-capable hosts for best throughput.'')]
          else []) @
         [Println []])"

definition check_cpu :: "doctor_host \<Rightarrow> doctor_line list" where
  "check_cpu h =
     (let n = (case dh_parallelism h of Some n \<Rightarrow> word_of_nat n :: u32 | None \<Rightarrow> 1)
      in [Println (''Logical CPUs: '' @ show_nat (unat n))] @
         (if n < RECOMMENDED_CPU
          then [WarnHardware (''logical CPU count ('' @ show_nat (unat n) @ '') is below the recommended '' @
                  show_nat (unat RECOMMENDED_CPU) @ '' vCPUs'')]
          else []))"

definition check_ram :: "doctor_host \<Rightarrow> doctor_line list" where
  "check_ram h =
     (let total = dh_total_memory h; gib = gib_of total
      in [Println (''System RAM: '' @ fmt_fixed 1 gib @ '' GiB'')] @
         (if total < RECOMMENDED_RAM_GIB * 1024 * 1024 * 1024
          then [WarnHardware (''system RAM ('' @ fmt_fixed 1 gib @ '' GiB) is below the recommended '' @
                  show_nat (unat RECOMMENDED_RAM_GIB) @ '' GiB'')]
          else []))"

definition check_disk :: "doctor_host \<Rightarrow> string \<Rightarrow> doctor_line list \<times> unit result" where
  "check_disk h pir_data_dir =
     (let check_path = resolve_existing_prefix h pir_data_dir
      in (case disk_for_path (dh_disks h) check_path of
            Some d \<Rightarrow>
              (let free = dk_available d; free_gib = gib_of free; mount = dk_mount d
               in [Println (''Free disk (volume '' @ mount @ '', checked from '' @ path_text check_path @ ''): '' @ fmt_fixed 1 free_gib @ '' GiB'')] @
                  (if free < RECOMMENDED_FREE_DISK_GIB * 1024 * 1024 * 1024
                   then [WarnHardware (''free space ('' @ fmt_fixed 1 free_gib @ '' GiB on '' @ mount @ '') is below the recommended '' @
                           show_nat (unat RECOMMENDED_FREE_DISK_GIB) @ '' GiB for PIR data under '' @ pir_data_dir)]
                   else []))
          | None \<Rightarrow> [WarnHardware (''could not map `'' @ path_text check_path @ ''` to a disk mount; skipping free-space check'')],
          Ok ()))"

definition check_avx512 :: "doctor_host \<Rightarrow> doctor_line list" where
  "check_avx512 h =
     (case dh_avx512f h of
        Some supported \<Rightarrow>
          [Println (''AVX-512F (runtime): '' @ (if supported then ''yes'' else ''no''))] @
          (if \<not> supported
           then [WarnHardware (''CPU does not advertise AVX-512F at runtime; PIR still runs but may be '' @
                   ''slower than on AVX-512-capable hardware'')]
           else [])
      | None \<Rightarrow> [Println ''AVX-512F (runtime): not applicable on this architecture''])"

definition check_precompute_cache :: "doctor_host \<Rightarrow> string \<Rightarrow> doctor_line list" where
  "check_precompute_cache h pir_data_dir =
     [Println [], Println ''Precompute cache:'',
      Println (case dh_cache h of
         CachePresent len \<Rightarrow> ''  tier 1: present ('' @ fmt_fixed 2 (gib_of len) @ '' GiB at '' @ pir_data_dir @ ''/tier1.precompute)''
       | CacheNotFound \<Rightarrow> ''  tier 1: absent (will be written on first serve boot)''
       | CacheUnreadable e \<Rightarrow> ''  tier 1: unreadable ('' @ e @ '')'')]"

definition doctor_run :: "doctor_host \<Rightarrow> string \<Rightarrow> doctor_line list \<times> unit result" where
  "doctor_run h pir_data_dir =
     (let head = [Println (''nf-server doctor '' @ em_dash @ '' hardware vs runbook recommendations''),
            Println (''Target: '' @ at_least @ show_nat (unat RECOMMENDED_CPU) @ '' logical CPUs, '' @ at_least @ show_nat (unat RECOMMENDED_RAM_GIB) @
              '' GiB RAM, '' @ at_least @ show_nat (unat RECOMMENDED_FREE_DISK_GIB) @ '' GiB free on the PIR data volume, '' @
              ''AVX-512 on x86_64 for best PIR performance''), Println []] @
            print_build_features h @ check_cpu h @ check_ram h;
          (disk, r) = check_disk h pir_data_dir
      in case r of
           Inl e \<Rightarrow> (head @ disk, Inl e)
         | Inr _ \<Rightarrow>
             (head @ disk @ check_avx512 h @ check_precompute_cache h pir_data_dir @
                [Println [], Println ''Doctor finished (warnings are advisory; exit code is always 0).''], Ok ()))"

section \<open>What is checked\<close>

text \<open>The walk up ends at the deepest prefix that exists.\<close>

lemma existing_loop_deepest:
  assumes "k \<le> length cur" "dh_exists h (take k cur)" "\<And>j. k < j \<Longrightarrow> j \<le> length cur \<Longrightarrow> \<not> dh_exists h (take j cur)" "0 < k"
  shows "existing_loop h cur = (case dh_canonicalize h (take k cur) of Some c \<Rightarrow> c | None \<Rightarrow> take k cur)"
  using assms
proof (induction h cur rule: existing_loop.induct)
  case (1 h cur)
  show ?case
  proof (cases "k = length cur")
    case True
    then show ?thesis using 1(3) by (simp add: existing_loop.simps split: option.split)
  next
    case False
    then have k: "k < length cur" using 1(2) by simp
    then have no: "\<not> dh_exists h cur" using 1(4) [of "length cur"] by simp
    have par: "parent_path cur = Some (butlast cur)" using k 1(5) by (auto simp: parent_path_def)
    have ne: "butlast cur \<noteq> cur" using k by (metis length_butlast diff_less less_imp_neq list.size(3) not_less_zero zero_less_one length_greater_0_conv)
    have t: "take j (butlast cur) = take j cur" if "j \<le> length cur - 1" for j using that by (simp add: butlast_conv_take min_def)
    have "existing_loop h (butlast cur) = (case dh_canonicalize h (take k (butlast cur)) of Some c \<Rightarrow> c | None \<Rightarrow> take k (butlast cur))"
      using k 1(3,4,5) by (intro 1(1) [OF no par ne]) (auto simp: t)
    then show ?thesis using k no par ne by (simp add: existing_loop.simps [of h cur] t split: option.split)
  qed
qed

text \<open>The volume is one whose mount point holds the path, with the longest name among them.\<close>

lemma max_by_key_last:
  "(case max_by_key f xs of None \<Rightarrow> xs = [] | Some x \<Rightarrow> x \<in> set xs \<and> (\<forall>y \<in> set xs. f y \<le> f x))"
proof (induction xs rule: rev_induct)
  case (snoc x xs)
  then show ?case by (auto simp: max_by_key_def split: option.splits)
qed (simp add: max_by_key_def)

lemma disk_for_path_Some:
  assumes "disk_for_path disks path = Some d"
  shows "d \<in> set disks" "on_mount path d" "e \<in> set disks \<Longrightarrow> on_mount path e \<Longrightarrow> length (dk_mount e) \<le> length (dk_mount d)"
  using max_by_key_last [where f = "\<lambda>d. length (dk_mount d)" and xs = "filter (on_mount path) disks"] assms by (auto simp: disk_for_path_def)

text \<open>
  The command always ends well, and it is silent on its warning channel exactly on a host with four logical
  processors, 32 GiB of memory, three free GiB on the volume of the data directory, and AVX-512F
  where the processor could have it.
\<close>

definition meets_recommendations :: "doctor_host \<Rightarrow> string \<Rightarrow> bool" where
  "meets_recommendations h p \<longleftrightarrow>
     4 \<le> (case dh_parallelism h of Some n \<Rightarrow> n mod 2 ^ 32 | None \<Rightarrow> 1) \<and> 32 * 2 ^ 30 \<le> unat (dh_total_memory h) \<and>
     (case disk_for_path (dh_disks h) (resolve_existing_prefix h p) of Some d \<Rightarrow> 3 * 2 ^ 30 \<le> unat (dk_available d) | None \<Rightarrow> False) \<and>
     dh_avx512f h \<noteq> Some False"

definition warnings :: "doctor_line list \<Rightarrow> string list" where
  "warnings ls = List.map_filter (\<lambda>l. case l of WarnHardware w \<Rightarrow> Some w | Println _ \<Rightarrow> None) ls"

lemma warnings_simps [simp]:
  "warnings [] = []" "warnings (a @ b) = warnings a @ warnings b" "warnings (Println t # ls) = warnings ls"
  "warnings (WarnHardware t # ls) = t # warnings ls"
  by (simp_all add: warnings_def map_filter_def)

lemma warnings_of_checks:
  "warnings (print_build_features h) = []" "warnings (check_precompute_cache h p) = []"
  "warnings (check_cpu h) = [] \<longleftrightarrow> 4 \<le> (case dh_parallelism h of Some n \<Rightarrow> n mod 2 ^ 32 | None \<Rightarrow> 1)"
  "warnings (check_ram h) = [] \<longleftrightarrow> 32 * 2 ^ 30 \<le> unat (dh_total_memory h)"
  "warnings (check_avx512 h) = [] \<longleftrightarrow> dh_avx512f h \<noteq> Some False"
  "warnings (fst (check_disk h p)) = [] \<longleftrightarrow>
     (case disk_for_path (dh_disks h) (resolve_existing_prefix h p) of Some d \<Rightarrow> 3 * 2 ^ 30 \<le> unat (dk_available d) | None \<Rightarrow> False)"
  by (auto simp: print_build_features_def check_precompute_cache_def check_cpu_def check_ram_def check_avx512_def check_disk_def
      RECOMMENDED_CPU_def RECOMMENDED_RAM_GIB_def RECOMMENDED_FREE_DISK_GIB_def Let_def word_less_nat_alt unat_of_nat split: option.split)

theorem doctor_advice:
  "snd (doctor_run h p) = Ok () \<and> (warnings (fst (doctor_run h p)) = [] \<longleftrightarrow> meets_recommendations h p)"
proof -
  have "snd (check_disk h p) = Ok ()" by (simp add: check_disk_def Let_def)
  then show ?thesis
    using warnings_of_checks [of h] by (auto simp: doctor_run_def meets_recommendations_def Let_def case_prod_unfold)
qed

end
