(* ===== verification/Request_Metrics.thy ===== *)
theory Request_Metrics
  imports Prelude
begin

text \<open>
  The request metrics of \<^verbatim>\<open>nf-server/src/metrics.rs\<close>: the middleware \<open>track_pir_request\<close>, the guard that keeps
  a gauge balanced, and the processing timer of the query handler. Requests overlap and a
  client may hang up at any point, which drops the request's future; so the middleware is a
  step relation over the open requests. A histogram is the list of what was observed; gauges
  and counters are 64-bit. The lemmas show that the gauges equal the numbers of open
  requests at every moment and that every completed request is counted once.
\<close>

section \<open>Metrics\<close>

datatype http_method = GET | POST | OtherMethod string

fun method_as_str :: "http_method \<Rightarrow> string" where
  "method_as_str GET = ''GET''"
| "method_as_str POST = ''POST''"
| "method_as_str (OtherMethod m) = m"

definition allowlisted_endpoint :: "http_method \<Rightarrow> string \<Rightarrow> string option" where
  "allowlisted_endpoint m p =
     (if m = GET \<and> p = ''/tier0'' then Some ''tier0''
      else if m = GET \<and> p = ''/params/tier1'' then Some ''params_tier1''
      else if m = POST \<and> p = ''/tier1/query'' then Some ''tier1_query''
      else None)"

text \<open>Instants are nanoseconds of a monotonic clock.\<close>

record request_metrics =
  http_requests :: "string \<times> string \<times> u16 \<Rightarrow> u64"
  http_request_duration :: "string \<Rightarrow> nat list"
  http_request_body_receive_duration :: "string \<Rightarrow> nat list"
  http_request_processing_duration :: "string \<Rightarrow> nat list"
  http_in_flight :: "string \<Rightarrow> u64"
  http_processing_in_flight :: "string \<Rightarrow> u64"

definition no_requests :: request_metrics where
  "no_requests =
     \<lparr>http_requests = (\<lambda>_. 0), http_request_duration = (\<lambda>_. []), http_request_body_receive_duration = (\<lambda>_. []),
      http_request_processing_duration = (\<lambda>_. []), http_in_flight = (\<lambda>_. 0), http_processing_in_flight = (\<lambda>_. 0)\<rparr>"

definition observe :: "'a list \<Rightarrow> 'a \<Rightarrow> 'a list" where
  "observe h x = h @ [x]"

text \<open>\<open>GaugeGuard\<close>: created on the gauge of an endpoint, and dropped.\<close>

definition guard_new :: "(string \<Rightarrow> u64) \<Rightarrow> string \<Rightarrow> string \<Rightarrow> u64" where
  "guard_new gauge endpoint = gauge(endpoint := gauge endpoint + 1)"

definition guard_drop :: "(string \<Rightarrow> u64) \<Rightarrow> string \<Rightarrow> string \<Rightarrow> u64" where
  "guard_drop gauge endpoint = gauge(endpoint := gauge endpoint - 1)"

text \<open>The timer is the instant it was started at; its endpoint is fixed.\<close>

type_synonym ProcessingTimer = nat

definition ENDPOINT :: string where
  "ENDPOINT = ''tier1_query''"

definition start_tier1_processing_with :: "nat \<Rightarrow> nat \<Rightarrow> request_metrics \<Rightarrow> request_metrics \<times> ProcessingTimer" where
  "start_tier1_processing_with now request_started m =
     (m\<lparr>http_request_body_receive_duration := (http_request_body_receive_duration m)
          (ENDPOINT := observe (http_request_body_receive_duration m ENDPOINT) (now - request_started)),
        http_processing_in_flight := guard_new (http_processing_in_flight m) ENDPOINT\<rparr>, now)"

definition timer_drop :: "nat \<Rightarrow> ProcessingTimer \<Rightarrow> request_metrics \<Rightarrow> request_metrics" where
  "timer_drop now started m =
     m\<lparr>http_request_processing_duration := (http_request_processing_duration m)
         (ENDPOINT := observe (http_request_processing_duration m ENDPOINT) (now - started)),
       http_processing_in_flight := guard_drop (http_processing_in_flight m) ENDPOINT\<rparr>"

section \<open>The middleware\<close>

text \<open>An open request that is tracked: what the middleware holds, and the timer of its handler once the body is complete.\<close>

record open_request =
  or_endpoint :: string
  or_method :: http_method
  or_started :: nat
  or_timer :: "ProcessingTimer option"
  or_handled :: bool

type_synonym tracker = "request_metrics \<times> (nat \<rightharpoonup> open_request)"

text \<open>\<open>track_pir_request\<close> up to \<open>next.run\<close>; an untracked route passes through.\<close>

definition track_begin :: "nat \<Rightarrow> nat \<Rightarrow> http_method \<Rightarrow> string \<Rightarrow> tracker \<Rightarrow> tracker" where
  "track_begin now i m p s =
     (case allowlisted_endpoint m p of
        None \<Rightarrow> s
      | Some endpoint \<Rightarrow>
          ((fst s)\<lparr>http_in_flight := guard_new (http_in_flight (fst s)) endpoint\<rparr>,
           (snd s)(i \<mapsto> \<lparr>or_endpoint = endpoint, or_method = m, or_started = now, or_timer = None, or_handled = False\<rparr>)))"

text \<open>After \<open>next.run\<close>: the observation, the counter, and the guard that is dropped at the end.\<close>

definition track_end :: "nat \<Rightarrow> nat \<Rightarrow> open_request \<Rightarrow> u16 \<Rightarrow> tracker \<Rightarrow> tracker" where
  "track_end now i r status s =
     (let m = fst s; endpoint = or_endpoint r; label = (endpoint, method_as_str (or_method r), status)
      in (m\<lparr>http_request_duration := (http_request_duration m)(endpoint := observe (http_request_duration m endpoint) (now - or_started r)),
            http_requests := (http_requests m)(label := http_requests m label + 1),
            http_in_flight := guard_drop (http_in_flight m) endpoint\<rparr>,
          (snd s)(i := None)))"

text \<open>
  The steps: a request arrives; the body of a query is complete and its handler starts the
  timer; the handler returns and its timer is dropped; the response is counted; or the
  request is dropped in any of these states, which drops its timer and its guard.
\<close>

inductive track_step :: "tracker \<Rightarrow> tracker \<Rightarrow> bool" where
  arrive: "snd s i = None \<Longrightarrow> track_step s (track_begin now i m p s)"
| handle: "snd s i = Some r \<Longrightarrow> or_endpoint r = ENDPOINT \<Longrightarrow> \<not> or_handled r \<Longrightarrow>
     start_tier1_processing_with now (or_started r) (fst s) = (m', timer) \<Longrightarrow>
     track_step s (m', (snd s)(i \<mapsto> r\<lparr>or_timer := Some timer, or_handled := True\<rparr>))"
| handled: "snd s i = Some r \<Longrightarrow> or_timer r = Some timer \<Longrightarrow>
     track_step s (timer_drop now timer (fst s), (snd s)(i \<mapsto> r\<lparr>or_timer := None\<rparr>))"
| respond: "snd s i = Some r \<Longrightarrow> or_timer r = None \<Longrightarrow> track_step s (track_end now i r status s)"
| cancel: "snd s i = Some r \<Longrightarrow>
     track_step s
       (let m = (case or_timer r of None \<Rightarrow> fst s | Some timer \<Rightarrow> timer_drop now timer (fst s))
        in (m\<lparr>http_in_flight := guard_drop (http_in_flight m) (or_endpoint r)\<rparr>, (snd s)(i := None)))"

section \<open>The gauges are balanced\<close>

definition open_at :: "(nat \<rightharpoonup> open_request) \<Rightarrow> string \<Rightarrow> nat set" where
  "open_at reqs endpoint = {i. \<exists>r. reqs i = Some r \<and> or_endpoint r = endpoint}"

definition timing :: "(nat \<rightharpoonup> open_request) \<Rightarrow> nat set" where
  "timing reqs = {i. \<exists>r. reqs i = Some r \<and> or_timer r \<noteq> None}"

text \<open>The one method an endpoint is tracked under.\<close>

definition endpoint_method :: "string \<Rightarrow> string" where
  "endpoint_method ep = (if ep = ENDPOINT then ''POST'' else ''GET'')"

text \<open>
  The gauges are the numbers of open requests and of running timers; every completed body
  is being processed or was observed; and the responses of an endpoint, over all status
  codes, are as many as its observed durations.
\<close>

definition tracker_inv :: "tracker \<Rightarrow> bool" where
  "tracker_inv s \<longleftrightarrow>
     (let (m, reqs) = s in
        finite (dom reqs) \<and>
        (\<forall>ep. http_in_flight m ep = of_nat (card (open_at reqs ep))) \<and>
        http_processing_in_flight m ENDPOINT = of_nat (card (timing reqs)) \<and>
        length (http_request_body_receive_duration m ENDPOINT) =
          length (http_request_processing_duration m ENDPOINT) + card (timing reqs) \<and>
        (\<forall>ep. (\<Sum>status \<in> UNIV. http_requests m (ep, endpoint_method ep, status)) = of_nat (length (http_request_duration m ep))) \<and>
        (\<forall>i r. reqs i = Some r \<longrightarrow> method_as_str (or_method r) = endpoint_method (or_endpoint r) \<and> (or_timer r \<noteq> None \<longrightarrow> or_handled r)))"

lemma sum_count:
  fixes f :: "'a::finite \<Rightarrow> 'b::comm_monoid_add"
  shows "(\<Sum>x \<in> UNIV. if x = a then f a + b else f x) = (\<Sum>x \<in> UNIV. f x) + b"
proof -
  have "(\<Sum>x \<in> UNIV. if x = a then f a + b else f x) = (\<Sum>x \<in> UNIV. f x + (if x = a then b else 0))" by (intro sum.cong) auto
  then show ?thesis by (simp add: sum.distrib)
qed

lemma open_at_new:
  assumes "finite (dom reqs)" "reqs i = None"
  shows "card (open_at (reqs(i \<mapsto> r)) ep) = card (open_at reqs ep) + (if or_endpoint r = ep then 1 else 0)"
proof -
  have "open_at (reqs(i \<mapsto> r)) ep = (if or_endpoint r = ep then insert i (open_at reqs ep) else open_at reqs ep)"
    using assms(2) by (auto simp: open_at_def)
  moreover have "finite (open_at reqs ep)" by (rule finite_subset [OF _ assms(1)]) (auto simp: open_at_def)
  moreover have "i \<notin> open_at reqs ep" using assms(2) by (auto simp: open_at_def)
  ultimately show ?thesis by simp
qed

lemma open_at_same: "reqs i = Some r \<Longrightarrow> or_endpoint r' = or_endpoint r \<Longrightarrow> open_at (reqs(i \<mapsto> r')) ep = open_at reqs ep"
  by (auto simp: open_at_def)

lemma open_at_del:
  assumes "finite (dom reqs)" "reqs i = Some r"
  shows "card (open_at reqs ep) = card (open_at (reqs(i := None)) ep) + (if or_endpoint r = ep then 1 else 0)"
proof -
  have "reqs = (reqs(i := None))(i \<mapsto> r)" using assms(2) by auto
  then show ?thesis using open_at_new [of "reqs(i := None)" i r ep] assms by (simp add: fun_upd_idem)
qed

lemma timing_upd:
  assumes "finite (dom reqs)"
  shows "card (timing (reqs(i := o'))) + (if i \<in> timing reqs then 1 else 0) =
    card (timing reqs) + (if \<exists>r. o' = Some r \<and> or_timer r \<noteq> None then 1 else 0)"
proof -
  have fin: "finite (timing reqs)" by (rule finite_subset [OF _ assms]) (auto simp: timing_def)
  have "timing (reqs(i := o')) = (if \<exists>r. o' = Some r \<and> or_timer r \<noteq> None then insert i (timing reqs) else timing reqs - {i})"
    by (auto simp: timing_def)
  moreover have "0 < card (timing reqs)" if "i \<in> timing reqs" using that fin by (auto simp: card_gt_0_iff)
  ultimately show ?thesis using fin by (auto simp: insert_absorb)
qed
lemma allowlisted_method: "allowlisted_endpoint me p = Some ep \<Longrightarrow> method_as_str me = endpoint_method ep"
  by (auto simp: allowlisted_endpoint_def endpoint_method_def ENDPOINT_def split: if_splits)

lemma tracker_inv_step:
  assumes "track_step s s'" "tracker_inv s"
  shows "tracker_inv s'"
proof -
  obtain m reqs where s: "s = (m, reqs)" by (cases s)
  have fin: "finite (dom reqs)" and gauge: "\<And>ep. http_in_flight m ep = of_nat (card (open_at reqs ep))"
    and proc: "http_processing_in_flight m ENDPOINT = of_nat (card (timing reqs))"
    and len: "length (http_request_body_receive_duration m ENDPOINT) =
        length (http_request_processing_duration m ENDPOINT) + card (timing reqs)"
    and cnt: "\<And>ep. (\<Sum>status \<in> UNIV. http_requests m (ep, endpoint_method ep, status)) = of_nat (length (http_request_duration m ep))"
    and ep: "\<And>i r. reqs i = Some r \<Longrightarrow> method_as_str (or_method r) = endpoint_method (or_endpoint r) \<and> (or_timer r \<noteq> None \<longrightarrow> or_handled r)"
    using assms(2) by (auto simp: tracker_inv_def s)
  from assms(1) show ?thesis
  proof (cases rule: track_step.cases)
    case (arrive i now me p)
    then have i: "reqs i = None" by (simp add: s)
    show ?thesis
    proof (cases "allowlisted_endpoint me p")
      case None
      then show ?thesis using arrive(1) assms(2) by (simp add: track_begin_def)
    next
      case (Some e)
      let ?r = "\<lparr>or_endpoint = e, or_method = me, or_started = now, or_timer = None, or_handled = False\<rparr>"
      have t: "card (timing (reqs(i \<mapsto> ?r))) = card (timing reqs)"
        using timing_upd [OF fin, of i "Some ?r"] i by (simp add: timing_def)
      show ?thesis
        using arrive(1) Some fin gauge proc len cnt ep t i allowlisted_method [OF Some]
        by (auto simp: tracker_inv_def s track_begin_def guard_new_def open_at_new [OF fin i])
    qed
  next
    case (handle i r now m' timer)
    have i: "reqs i = Some r" "or_endpoint r = ENDPOINT" "or_timer r = None" using handle ep [of i r] by (auto simp: s)
    have t: "card (timing (reqs(i \<mapsto> r\<lparr>or_timer := Some timer, or_handled := True\<rparr>))) = card (timing reqs) + 1"
      using timing_upd [OF fin, of i "Some (r\<lparr>or_timer := Some timer, or_handled := True\<rparr>)"] i by (simp add: timing_def)
    have o: "open_at (reqs(i \<mapsto> r\<lparr>or_timer := Some timer, or_handled := True\<rparr>)) e = open_at reqs e" for e
      using i by (intro open_at_same) auto
    show ?thesis
      using handle(1,5) fin gauge proc len cnt ep i
      by (auto simp: tracker_inv_def s start_tier1_processing_with_def guard_new_def observe_def t o)
  next
    case (handled i r timer now)
    have i: "reqs i = Some r" "or_timer r = Some timer" using handled by (simp_all add: s)
    then have t: "card (timing reqs) = card (timing (reqs(i \<mapsto> r\<lparr>or_timer := None\<rparr>))) + 1"
      using timing_upd [OF fin, of i "Some (r\<lparr>or_timer := None\<rparr>)"] by (auto simp: timing_def)
    have o: "open_at (reqs(i \<mapsto> r\<lparr>or_timer := None\<rparr>)) e = open_at reqs e" for e using i by (intro open_at_same) auto
    show ?thesis
      using handled(1) fin gauge proc len cnt ep i
      by (auto simp: tracker_inv_def s timer_drop_def guard_drop_def observe_def t o)
  next
    case (respond i r now status)
    have i: "reqs i = Some r" "or_timer r = None" using respond by (simp_all add: s)
    then have t: "card (timing (reqs(i := None))) = card (timing reqs)"
      using timing_upd [OF fin, of i None] by (simp add: timing_def)
    have c: "(\<Sum>x \<in> UNIV. if x = status then http_requests m (e, me, status) + 1 else http_requests m (e, me, x)) =
      (\<Sum>x \<in> UNIV. http_requests m (e, me, x)) + 1" for e me
      using sum_count [of status "\<lambda>x. http_requests m (e, me, x)" 1] .
    show ?thesis
      using respond(1) fin gauge proc len cnt ep i t open_at_del [OF fin i(1)]
      by (auto simp: tracker_inv_def s track_end_def guard_drop_def observe_def Let_def c split: if_splits)
  next
    case (cancel i r now)
    have i: "reqs i = Some r" using cancel by (simp add: s)
    have t: "card (timing reqs) = card (timing (reqs(i := None))) + (if or_timer r = None then 0 else 1)"
    proof -
      have "i \<in> timing reqs \<longleftrightarrow> or_timer r \<noteq> None" using i by (simp add: timing_def)
      then show ?thesis using timing_upd [OF fin, of i None] by (simp split: if_splits)
    qed
    show ?thesis
      using cancel(1) fin gauge proc len cnt ep i t open_at_del [OF fin i(1)]
      by (auto simp: tracker_inv_def s timer_drop_def guard_drop_def observe_def Let_def split: option.splits)
  qed
qed

interpretation tracking_run: step_invariant track_step tracker_inv
  by unfold_locales (rule tracker_inv_step)

text \<open>
  Whatever requests arrive, overlap, finish or are dropped in the middle, at every moment the
  in-flight gauge of a route is the number of its open tracked requests, the processing gauge
  is the number of queries being processed, every completely received query body is being
  processed or has its processing time recorded, and the responses counted for a route are as
  many as the durations recorded for it. When no request is open, the gauges are zero.
\<close>

theorem request_gauges_balanced:
  assumes "track_step\<^sup>*\<^sup>* (no_requests, Map.empty) (m, reqs)"
  shows "http_in_flight m ep = of_nat (card {i. \<exists>r. reqs i = Some r \<and> or_endpoint r = ep}) \<and>
    http_processing_in_flight m ENDPOINT = of_nat (card {i. \<exists>r. reqs i = Some r \<and> or_timer r \<noteq> None}) \<and>
    length (http_request_body_receive_duration m ENDPOINT) =
      length (http_request_processing_duration m ENDPOINT) + card {i. \<exists>r. reqs i = Some r \<and> or_timer r \<noteq> None} \<and>
    (\<Sum>status \<in> UNIV. http_requests m (ep, endpoint_method ep, status)) = of_nat (length (http_request_duration m ep))"
proof -
  have "tracker_inv (m, reqs)"
    by (rule tracking_run.reachable_inv [OF assms]) (simp add: tracker_inv_def no_requests_def open_at_def timing_def)
  then show ?thesis by (simp add: tracker_inv_def open_at_def timing_def)
qed

text \<open>A query whose client hangs up while it is processed.\<close>

theorem request_gauges_balanced_witness:
  "\<exists>m. track_step\<^sup>*\<^sup>* (no_requests, Map.empty) (m, Map.empty) \<and> http_in_flight m ENDPOINT = 0 \<and>
     http_request_processing_duration m ENDPOINT = [40] \<and> http_request_body_receive_duration m ENDPOINT = [20]"
proof -
  let ?s1 = "track_begin 10 0 POST ''/tier1/query'' (no_requests, Map.empty)"
  let ?r = "\<lparr>or_endpoint = ENDPOINT, or_method = POST, or_started = 10, or_timer = None, or_handled = False\<rparr>"
  let ?m2 = "fst (start_tier1_processing_with 30 10 (fst ?s1))"
  let ?s2 = "(?m2, [0 \<mapsto> ?r\<lparr>or_timer := Some 30, or_handled := True\<rparr>])"
  let ?m3 = "timer_drop 70 30 ?m2"
  let ?s3 = "(?m3\<lparr>http_in_flight := guard_drop (http_in_flight ?m3) ENDPOINT\<rparr>, Map.empty)"
  have s1: "snd ?s1 = [0 \<mapsto> ?r]" by (simp add: track_begin_def allowlisted_endpoint_def ENDPOINT_def)
  have "track_step (no_requests, Map.empty) ?s1" by (rule track_step.arrive) simp
  moreover have "track_step ?s1 ?s2"
    using track_step.handle [of ?s1 0 ?r 30 ?m2 30] s1 by (simp add: start_tier1_processing_with_def)
  moreover have "track_step ?s2 ?s3"
    using track_step.cancel [of ?s2 0 "?r\<lparr>or_timer := Some 30, or_handled := True\<rparr>" 70] by (simp add: Let_def)
  ultimately have run: "track_step\<^sup>*\<^sup>* (no_requests, Map.empty) ?s3"
    by (meson converse_rtranclp_into_rtranclp rtranclp.rtrancl_refl)
  have "http_in_flight (fst ?s3) ENDPOINT = 0" using request_gauges_balanced [OF run, of ENDPOINT] by simp
  moreover have "http_request_processing_duration (fst ?s3) ENDPOINT = [40]" "http_request_body_receive_duration (fst ?s3) ENDPOINT = [20]"
    by (simp_all add: timer_drop_def start_tier1_processing_with_def track_begin_def allowlisted_endpoint_def no_requests_def observe_def)
  ultimately show ?thesis using run by (intro exI [of _ "fst ?s3"]) simp
qed

end
