(* ===== verification/Codec.thy ===== *)
theory Codec
  imports Prelude
begin

text \<open>
  The interface of a fixed-width encoding. Every on-disk and on-wire format of the program
  (\<open>Fp\<close> representations, \<open>u64\<close> and \<open>u32\<close> fields, checkpoint and index entries, subtree
  and leaf records) is an instance: the component that defines the two directions
  interprets the locale, and the components that read a flat array of such records use
  the facts proved here once.
\<close>

locale fixed_codec =
  fixes width :: nat
    and enc :: "'a \<Rightarrow> bytes"
    and dec :: "bytes \<Rightarrow> 'a option"
  assumes width_pos: "0 < width"
    and length_enc: "length (enc x) = width"
    and dec_enc: "dec (enc x) = Some x"
    and enc_dec: "length bs = width \<Longrightarrow> dec bs = Some x \<Longrightarrow> enc x = bs"
begin

lemma enc_inj: "enc x = enc y \<longleftrightarrow> x = y"
  by (metis dec_enc option.inject)

lemma dec_inj: "length as = width \<Longrightarrow> length bs = width \<Longrightarrow> dec as = Some x \<Longrightarrow> dec bs = Some x \<Longrightarrow> as = bs"
  using enc_dec by metis

lemma length_concat_enc: "length (concat (map enc xs)) = width * length xs"
  by (induction xs) (auto simp: length_enc)

lemma concat_enc_at: "i < length xs \<Longrightarrow> take width (drop (i * width) (concat (map enc xs))) = enc (xs ! i)"
proof (induction xs arbitrary: i)
  case Nil
  then show ?case by simp
next
  case (Cons x xs)
  show ?case
  proof (cases i)
    case 0
    then show ?thesis by (simp add: length_enc)
  next
    case (Suc j)
    with Cons show ?thesis by (simp add: length_enc)
  qed
qed

lemma slice_concat_enc:
  "i < length xs \<Longrightarrow> slice_res (concat (map enc xs)) (i * width) width = Inr (enc (xs ! i))"
proof -
  assume i: "i < length xs"
  then have "i * width + width \<le> width * length xs"
    by (metis Suc_leI add.commute mult.commute mult_Suc mult_le_mono2)
  with i show ?thesis
    by (simp add: slice_res_def length_concat_enc concat_enc_at)
qed

lemma slice_append_concat_enc:
  "length pre = off \<Longrightarrow> i < length xs \<Longrightarrow>
   slice_res (pre @ concat (map enc xs) @ post) (off + i * width) width = Inr (enc (xs ! i))"
proof -
  assume off: "length pre = off" and i: "i < length xs"
  then have le: "i * width + width \<le> width * length xs"
    by (metis Suc_leI add.commute mult.commute mult_Suc mult_le_mono2)
  have "take width (drop (i * width) (concat (map enc xs) @ post))
        = take width (drop (i * width) (concat (map enc xs)))"
    using le by (simp add: length_concat_enc)
  with off i le show ?thesis
    by (simp add: slice_res_def length_concat_enc concat_enc_at)
qed

lemma chunks_concat_enc: "chunks_exact width (concat (map enc xs)) = map enc xs"
  by (rule chunks_exact_concat) (auto simp: width_pos length_enc)

lemma decode_all_concat:
  "map dec (chunks_exact width (concat (map enc xs))) = map Some xs"
  by (simp add: chunks_concat_enc dec_enc)

lemma concat_enc_inj: "concat (map enc xs) = concat (map enc ys) \<Longrightarrow> xs = ys"
proof -
  assume "concat (map enc xs) = concat (map enc ys)"
  then have "map enc xs = map enc ys"
    by (metis chunks_concat_enc)
  then show ?thesis
    by (rule map_injective) (simp add: inj_def enc_inj)
qed


end

end
