(* ===== verification/Field.thy ===== *)
theory Field
  imports Codec
begin

text \<open>
  The field element type \<open>Fp\<close> of the source (\<open>pasta_curves::Fp\<close>, a third-party type).
  Its modulus is a parameter of the model, at the level of types as the width of a machine
  word is: \<open>'p fp\<close> is the ring of integers modulo \<open>fp_modulus TYPE('p)\<close>. The moduli
  admitted are exactly the ones with \<open>2 ^ 254 < p \<le> 2 ^ 254 + 2 ^ 249\<close>, the two facts on
  the Pallas base field that the repository documents and relies on (the sentinel
  \<open>32 * 2 ^ 249\<close> is a field element, and the tail above it is at most one sentinel step:
  \<^verbatim>\<open>pir/export/src/lib.rs\<close> 188-200, \<^verbatim>\<open>imt-tree/README.md\<close>, section on sentinels). The
  Pallas modulus is the instance with tail \<open>p - 2 ^ 254 - 1\<close>. No definition needs \<open>p\<close> to
  be prime, since the source never divides.

  The documented behaviour of \<open>Fp\<close> the source uses is: ring operations modulo \<open>p\<close>, the
  order of the canonical integers, and the canonical 32-byte little-endian
  representation, where \<open>from_repr\<close> refuses integers at or above \<open>p\<close>.
\<close>

definition fp_modulus :: "'p::len itself \<Rightarrow> nat" where
  "fp_modulus _ = 2 ^ 254 + 1 + LENGTH('p) mod 2 ^ 249"

lemma fp_modulus_gt: "2 ^ 254 < fp_modulus TYPE('p::len)"
  by (simp add: fp_modulus_def)

lemma fp_modulus_le: "fp_modulus TYPE('p::len) \<le> 2 ^ 254 + 2 ^ 249"
proof -
  have "LENGTH('p) mod 2 ^ 249 < (2::nat) ^ 249"
    by (rule mod_less_divisor) simp
  then show ?thesis
    unfolding fp_modulus_def by linarith
qed

lemma fp_modulus_pos [simp]: "0 < fp_modulus TYPE('p::len)"
  by (simp add: fp_modulus_def)

lemma fp_modulus_gt_1 [simp]: "Suc 0 < fp_modulus TYPE('p::len)"
  by (simp add: fp_modulus_def)

typedef (overloaded) 'p fp = "{n::nat. n < fp_modulus TYPE('p::len)}"
  morphisms fp_val Abs_fp
  by (rule exI [of _ 0]) simp

setup_lifting type_definition_fp

lemma fp_val_less [simp]: "fp_val (x :: 'p::len fp) < fp_modulus TYPE('p)"
  using fp_val [of x] by simp

lemma fp_eq_iff: "x = y \<longleftrightarrow> fp_val x = fp_val y"
  by (simp add: fp_val_inject)

section \<open>Ring operations and order\<close>

instantiation fp :: (len) "{comm_ring_1, linorder}"
begin

lift_definition zero_fp :: "'a fp" is 0
  by simp

lift_definition one_fp :: "'a fp" is 1
  by simp

lift_definition plus_fp :: "'a fp \<Rightarrow> 'a fp \<Rightarrow> 'a fp" is
  "\<lambda>a b. (a + b) mod fp_modulus TYPE('a)"
  by simp

lift_definition times_fp :: "'a fp \<Rightarrow> 'a fp \<Rightarrow> 'a fp" is
  "\<lambda>a b. (a * b) mod fp_modulus TYPE('a)"
  by simp

lift_definition minus_fp :: "'a fp \<Rightarrow> 'a fp \<Rightarrow> 'a fp" is
  "\<lambda>a b. (a + (fp_modulus TYPE('a) - b)) mod fp_modulus TYPE('a)"
  by simp

lift_definition uminus_fp :: "'a fp \<Rightarrow> 'a fp" is
  "\<lambda>a. (fp_modulus TYPE('a) - a) mod fp_modulus TYPE('a)"
  by simp

lift_definition less_eq_fp :: "'a fp \<Rightarrow> 'a fp \<Rightarrow> bool" is "(\<le>)" .

lift_definition less_fp :: "'a fp \<Rightarrow> 'a fp \<Rightarrow> bool" is "(<)" .

instance
proof
  fix a b c :: "'a fp"
  show "a * b * c = a * (b * c)"
    by transfer (simp add: mod_mult_left_eq mod_mult_right_eq mult.assoc)
  show "a * b = b * a"
    by transfer (simp add: mult.commute)
  show "1 * a = a"
    by transfer simp
  show "a + b + c = a + (b + c)"
    by transfer (simp add: mod_add_left_eq mod_add_right_eq add.assoc)
  show "a + b = b + a"
    by transfer (simp add: add.commute)
  show "0 + a = a"
    by transfer simp
  show "- a + a = 0"
    by transfer (simp add: mod_add_left_eq)
  show "a - b = a + - b"
    by transfer (simp add: mod_add_right_eq)
  show "(a + b) * c = a * c + b * c"
    by transfer (simp add: mod_mult_left_eq mod_add_eq distrib_right)
  show "(0 :: 'a fp) \<noteq> 1"
    by transfer simp
  show "(a < b) = (a \<le> b \<and> \<not> b \<le> a)"
    by transfer auto
  show "a \<le> a"
    by transfer simp
  show "a \<le> b \<Longrightarrow> b \<le> c \<Longrightarrow> a \<le> c"
    by transfer simp
  show "a \<le> b \<Longrightarrow> b \<le> a \<Longrightarrow> a = b"
    by transfer simp
  show "a \<le> b \<or> b \<le> a"
    by transfer auto
qed

end

instantiation fp :: (len) equal
begin

lift_definition equal_fp :: "'a fp \<Rightarrow> 'a fp \<Rightarrow> bool" is "(=)" .

instance
  by standard (transfer, simp)

end

lemma fp_val_0 [simp]: "fp_val 0 = 0"
  by transfer simp

lemma fp_val_1 [simp]: "fp_val 1 = 1"
  by transfer simp

lemma fp_val_add: "fp_val (a + b :: 'p::len fp) = (fp_val a + fp_val b) mod fp_modulus TYPE('p)"
  by transfer simp

lemma fp_val_mult: "fp_val (a * b :: 'p::len fp) = (fp_val a * fp_val b) mod fp_modulus TYPE('p)"
  by transfer simp

lemma fp_le_iff: "a \<le> b \<longleftrightarrow> fp_val a \<le> fp_val b"
  by transfer simp

lemma fp_less_iff: "a < b \<longleftrightarrow> fp_val a < fp_val b"
  by transfer simp

lemma fp_val_diff_ge: "b \<le> a \<Longrightarrow> fp_val (a - b) = fp_val a - fp_val b"
proof transfer
  fix a b :: nat
  assume a: "a < fp_modulus TYPE('p::len)" and b: "b < fp_modulus TYPE('p)" and le: "b \<le> a"
  then have "a + (fp_modulus TYPE('p) - b) = (a - b) + fp_modulus TYPE('p)"
    by simp
  then show "(a + (fp_modulus TYPE('p) - b)) mod fp_modulus TYPE('p) = a - b"
    using a by (simp only: mod_add_self2) simp
qed

lemma fp_val_diff_less:
  "(a :: 'p::len fp) < b \<Longrightarrow> fp_val (a - b) = fp_val a + fp_modulus TYPE('p) - fp_val b"
  by transfer simp

lemma fp_val_of_nat: "fp_val (of_nat n :: 'p::len fp) = n mod fp_modulus TYPE('p)"
proof (induction n)
  case 0
  then show ?case by simp
next
  case (Suc n)
  then show ?case by (simp add: fp_val_add mod_Suc_eq)
qed

lemma fp_val_of_nat_small: "n < fp_modulus TYPE('p::len) \<Longrightarrow> fp_val (of_nat n :: 'p fp) = n"
  by (simp add: fp_val_of_nat)

lemma of_nat_fp_val [simp]: "of_nat (fp_val x) = x"
  by (simp add: fp_eq_iff fp_val_of_nat)

lemma fp_val_numeral: "fp_val (numeral k :: 'p::len fp) = numeral k mod fp_modulus TYPE('p)"
  using fp_val_of_nat [of "numeral k"] by simp

lemma fp_zero_le [simp]: "0 \<le> (x :: 'p::len fp)"
  by (simp add: fp_le_iff)

text \<open>\<open>Fp::one().neg()\<close> is the largest field element.\<close>

lemma fp_val_minus_one: "fp_val (- 1 :: 'p::len fp) = fp_modulus TYPE('p) - 1"
  by transfer simp

lemma fp_le_minus_one [simp]: "(x :: 'p::len fp) \<le> - 1"
proof -
  have "fp_val x < fp_modulus TYPE('p)" by simp
  then have "fp_val x \<le> fp_modulus TYPE('p) - 1" by linarith
  then show ?thesis
    by (simp only: fp_le_iff fp_val_minus_one)
qed

lemma fp_val_two_power: "k \<le> 254 \<Longrightarrow> fp_val (2 ^ k :: 'p::len fp) = 2 ^ k"
proof -
  assume "k \<le> 254"
  then have "(2::nat) ^ k \<le> 2 ^ 254"
    by (intro power_increasing) auto
  also have "\<dots> < fp_modulus TYPE('p)"
    by (rule fp_modulus_gt)
  finally have "fp_val (of_nat (2 ^ k) :: 'p fp) = 2 ^ k"
    by (rule fp_val_of_nat_small)
  then show ?thesis by simp
qed

text \<open>
  The test \<open>0 < value - nf_lo < nf_hi - nf_lo\<close> on wrapped differences, which the source
  uses three times, is the open interval test as long as the bounds are ordered.
\<close>

lemma offset_in_span_iff:
  fixes lo hi v :: "'p::len fp"
  assumes "lo \<le> hi"
  shows "\<not> (v - lo = 0 \<or> hi - lo \<le> v - lo) \<longleftrightarrow> lo < v \<and> v < hi"
proof (cases "lo \<le> v")
  case True
  have "v - lo = 0 \<longleftrightarrow> v = lo" by simp
  moreover have "hi - lo \<le> v - lo \<longleftrightarrow> hi \<le> v"
    using True assms by (simp add: fp_le_iff fp_val_diff_ge) linarith
  ultimately show ?thesis
    using True by (auto simp: not_le)
next
  case False
  then have v: "v < lo" by simp
  have "fp_val hi \<le> fp_val v + fp_modulus TYPE('p)"
    using fp_val_less [of hi] by linarith
  with v assms have "hi - lo \<le> v - lo"
    by (simp add: fp_le_iff fp_val_diff_ge fp_val_diff_less diff_le_mono)
  with v show ?thesis by auto
qed

section \<open>Canonical representation\<close>

definition to_repr :: "'p::len fp \<Rightarrow> bytes" where
  "to_repr x = le_bytes 32 (fp_val x)"

definition from_repr :: "bytes \<Rightarrow> 'p::len fp option" where
  "from_repr bs =
     (if length bs = 32 \<and> le_val bs < fp_modulus TYPE('p) then Some (of_nat (le_val bs)) else None)"

lemma length_to_repr [simp]: "length (to_repr x) = 32"
  by (simp add: to_repr_def)

lemma fp_modulus_less_256: "fp_modulus TYPE('p::len) < 256 ^ 32"
proof -
  have "fp_modulus TYPE('p) \<le> 2 ^ 254 + 2 ^ 249"
    by (rule fp_modulus_le)
  also have "\<dots> < (256::nat) ^ 32" by simp
  finally show ?thesis .
qed

lemma le_val_to_repr [simp]: "le_val (to_repr x) = fp_val x"
proof -
  have "fp_val x < 256 ^ 32"
    using fp_val_less [of x] fp_modulus_less_256 by (rule less_trans)
  then show ?thesis
    by (simp add: to_repr_def)
qed

lemma from_to_repr [simp]: "from_repr (to_repr x) = Some x"
  by (simp add: from_repr_def)

lemma to_from_repr: "from_repr bs = Some x \<Longrightarrow> to_repr x = bs"
  by (auto simp: from_repr_def to_repr_def fp_val_of_nat_small split: if_splits)
    (metis le_bytes_le_val)

lemma from_repr_None_iff:
  "length bs = 32 \<Longrightarrow> (from_repr bs :: 'p::len fp option) = None \<longleftrightarrow> fp_modulus TYPE('p) \<le> le_val bs"
  by (auto simp: from_repr_def)

interpretation fp_codec: fixed_codec 32 "to_repr :: 'p::len fp \<Rightarrow> bytes" from_repr
  by unfold_locales (auto simp: to_from_repr)

lemmas [codec_simps] = length_to_repr from_to_repr fp_codec.length_concat_enc

end
