(* ===== verification/Hasher.thy ===== *)
theory Hasher
  imports Field
begin

text \<open>
  The Poseidon hasher of \<^verbatim>\<open>imt-tree/src/hasher.rs\<close>. The round constants and the MDS matrix come
  from \<open>P128Pow5T3::constants()\<close> of a third-party crate: they are a parameter, the record
  \<open>poseidon_constants\<close>, whose table gives a row for each of the 64 rounds. The lemmas show
  that the hand-written rounds read exactly the 64 rows, in order and in range, that
  \<open>pow5\<close> is the fifth power, and that \<open>hash\<close> and \<open>hash3\<close> are the width-3, rate-2 sponge
  with the \<open>ConstantLength\<close> capacity that the comments describe.
\<close>

type_synonym 'p fp3 = "'p fp \<times> 'p fp \<times> 'p fp"

record (overloaded) 'p poseidon_constants =
  pc_round :: "nat \<Rightarrow> 'p fp3"
  pc_mds :: "'p fp3 \<times> 'p fp3 \<times> 'p fp3"

record (overloaded) 'p PoseidonHasher =
  round_constants :: "'p fp3 list"
  mds :: "'p fp3 \<times> 'p fp3 \<times> 'p fp3"
  initial_capacity :: "'p fp"
  initial_capacity_3 :: "'p fp"

definition R_F_HALF :: nat where
  "R_F_HALF = 4"

definition R_P :: nat where
  "R_P = 56"

definition poseidon_new :: "'p::len poseidon_constants \<Rightarrow> 'p PoseidonHasher" where
  "poseidon_new P =
     \<lparr>round_constants = map (pc_round P) [0..<64],
      mds = pc_mds P,
      initial_capacity = of_nat (2 * 2 ^ 64),
      initial_capacity_3 = of_nat (3 * 2 ^ 64)\<rparr>"

definition pow5 :: "'p::len fp \<Rightarrow> 'p fp" where
  "pow5 x = (let x2 = x * x; x4 = x2 * x2 in x4 * x)"

definition apply_mds :: "'p::len PoseidonHasher \<Rightarrow> 'p fp3 \<Rightarrow> 'p fp3" where
  "apply_mds h s =
     (let (s0, s1, s2) = s;
          ((m00, m01, m02), (m10, m11, m12), (m20, m21, m22)) = mds h
      in (m00 * s0 + m01 * s1 + m02 * s2,
          m10 * s0 + m11 * s1 + m12 * s2,
          m20 * s0 + m21 * s1 + m22 * s2))"

text \<open>One iteration of the full-round loops, and one of the partial-round loop.\<close>

definition full_round :: "'p::len PoseidonHasher \<Rightarrow> 'p fp3 \<Rightarrow> 'p fp3 \<Rightarrow> 'p fp3" where
  "full_round h rc s =
     (let (r0, r1, r2) = rc; (s0, s1, s2) = s
      in apply_mds h (pow5 (s0 + r0), pow5 (s1 + r1), pow5 (s2 + r2)))"

definition partial_round :: "'p::len PoseidonHasher \<Rightarrow> 'p fp3 \<Rightarrow> 'p fp3 \<Rightarrow> 'p fp3" where
  "partial_round h rc s =
     (let (r0, r1, r2) = rc; (s0, s1, s2) = s
      in apply_mds h (pow5 (s0 + r0), s1 + r1, s2 + r2))"

text \<open>
  \<open>permute\<close>: the counter \<open>ri\<close> runs through the three loops, so they read the rows
  \<open>0..<4\<close>, \<open>4..<60\<close> and \<open>60..<64\<close>.
\<close>

definition permute :: "'p::len PoseidonHasher \<Rightarrow> 'p fp3 \<Rightarrow> 'p fp3" where
  "permute h s =
     (let rcs = round_constants h;
          s = fold (\<lambda>ri. full_round h (rcs ! ri)) [0..<R_F_HALF] s;
          s = fold (\<lambda>ri. partial_round h (rcs ! ri)) [R_F_HALF..<R_F_HALF + R_P] s
      in fold (\<lambda>ri. full_round h (rcs ! ri)) [R_F_HALF + R_P..<R_F_HALF + R_P + R_F_HALF] s)"

definition hash :: "'p::len PoseidonHasher \<Rightarrow> 'p fp \<Rightarrow> 'p fp \<Rightarrow> 'p fp" where
  "hash h left right = fst (permute h (left, right, initial_capacity h))"

definition hash3 :: "'p::len PoseidonHasher \<Rightarrow> 'p fp \<Rightarrow> 'p fp \<Rightarrow> 'p fp \<Rightarrow> 'p fp" where
  "hash3 h a b c =
     (let (s0, s1, s2) = permute h (a, b, initial_capacity_3 h)
      in fst (permute h (s0 + c, s1, s2)))"

definition poseidon_hash :: "'p::len poseidon_constants \<Rightarrow> 'p fp \<Rightarrow> 'p fp \<Rightarrow> 'p fp" where
  "poseidon_hash P left right = hash (poseidon_new P) left right"

section \<open>The rounds\<close>

lemma pow5_eq: "pow5 x = x ^ 5"
  by (simp add: pow5_def eval_nat_numeral mult.assoc)

lemma length_round_constants_new [simp]: "length (round_constants (poseidon_new P)) = 64"
  by (simp add: poseidon_new_def)

lemma fold_nth_eq_fold:
  "b \<le> length xs \<Longrightarrow> a \<le> b \<Longrightarrow>
   fold (\<lambda>i. f (xs ! i)) [a..<b] s = fold f (take (b - a) (drop a xs)) s"
proof (induction b arbitrary: s)
  case 0
  then show ?case by simp
next
  case (Suc b)
  show ?case
  proof (cases "a = Suc b")
    case True
    then show ?thesis by simp
  next
    case False
    with Suc.prems have le: "a \<le> b" and lt: "b < length xs" by auto
    then have "take (Suc b - a) (drop a xs) = take (b - a) (drop a xs) @ [xs ! b]"
      by (simp add: Suc_diff_le take_Suc_conv_app_nth)
    with Suc.IH le lt show ?thesis by simp
  qed
qed

text \<open>
  With the 64 rows of the parameter table, the permutation is the textbook sequence: four
  full rounds, 56 partial rounds, four full rounds, each with the next row.
\<close>

lemma permute_rows:
  assumes "length (round_constants h) = 64"
  shows "permute h s =
    fold (full_round h) (drop 60 (round_constants h))
      (fold (partial_round h) (take 56 (drop 4 (round_constants h)))
        (fold (full_round h) (take 4 (round_constants h)) s))"
proof -
  let ?r = "round_constants h"
  have first: "fold (\<lambda>ri. full_round h (?r ! ri)) [0..<R_F_HALF] s = fold (full_round h) (take 4 ?r) s" for s
    using assms by (subst fold_nth_eq_fold) (simp_all add: R_F_HALF_def)
  have middle: "fold (\<lambda>ri. partial_round h (?r ! ri)) [R_F_HALF..<R_F_HALF + R_P] s =
      fold (partial_round h) (take 56 (drop 4 ?r)) s" for s
    using assms by (subst fold_nth_eq_fold) (simp_all add: R_F_HALF_def R_P_def)
  have last: "fold (\<lambda>ri. full_round h (?r ! ri)) [R_F_HALF + R_P..<R_F_HALF + R_P + R_F_HALF] s =
      fold (full_round h) (drop 60 ?r) s" for s
    using assms by (subst fold_nth_eq_fold) (simp_all add: R_F_HALF_def R_P_def)
  show ?thesis
    unfolding permute_def Let_def first middle last ..
qed

section \<open>The sponge of the comments\<close>

text \<open>
  Reference: \<open>ConstantLength<L>\<close> over width 3 and rate 2. The state starts as
  \<open>(0, 0, L * 2 ^ 64)\<close>; the message is absorbed two elements at a time, the last block
  padded with zero, with a permutation after each block; the digest is the first element.
\<close>

fun absorb :: "'p::len PoseidonHasher \<Rightarrow> 'p fp list \<Rightarrow> 'p fp3 \<Rightarrow> 'p fp3" where
  "absorb h [] s = s"
| "absorb h [a] (s0, s1, s2) = permute h (s0 + a, s1 + 0, s2)"
| "absorb h (a # b # ms) (s0, s1, s2) = absorb h ms (permute h (s0 + a, s1 + b, s2))"

definition sponge_hash :: "'p::len PoseidonHasher \<Rightarrow> 'p fp list \<Rightarrow> 'p fp" where
  "sponge_hash h ms = fst (absorb h ms (0, 0, of_nat (length ms * 2 ^ 64)))"

lemma hash_is_sponge: "hash (poseidon_new P) a b = sponge_hash (poseidon_new P) [a, b]"
  by (simp add: hash_def sponge_hash_def poseidon_new_def)

lemma hash3_is_sponge: "hash3 (poseidon_new P) a b c = sponge_hash (poseidon_new P) [a, b, c]"
  by (simp add: hash3_def sponge_hash_def poseidon_new_def split: prod.split)

end
