(* ===== verification/Merkle.thy ===== *)
theory Merkle
  imports Prelude
begin

text \<open>
  Complete binary hash trees, independent of the hash: the root of a subtree over an
  infinite sequence of leaves, the value a sibling path leads to, and the contract of a
  table of empty-subtree hashes. The tree builder, both tier readers and the proof
  verifier are shown to compute these functions; the interpretation on the Poseidon hash
  is in \<open>Imt_Tree\<close>.
\<close>

section \<open>Subtree roots and sibling paths\<close>

text \<open>\<open>subroot node f d i\<close> is the node at height \<open>d\<close>, index \<open>i\<close>, over the leaves \<open>f\<close>.\<close>

primrec subroot :: "('a \<Rightarrow> 'a \<Rightarrow> 'a) \<Rightarrow> (nat \<Rightarrow> 'a) \<Rightarrow> nat \<Rightarrow> nat \<Rightarrow> 'a" where
  "subroot node f 0 i = f i"
| "subroot node f (Suc d) i = node (subroot node f d (2 * i)) (subroot node f d (Suc (2 * i)))"

primrec climb :: "('a \<Rightarrow> 'a \<Rightarrow> 'a) \<Rightarrow> 'a list \<Rightarrow> nat \<Rightarrow> 'a \<Rightarrow> 'a" where
  "climb node [] pos cur = cur"
| "climb node (s # ss) pos cur =
     climb node ss (pos div 2) (if even pos then node cur s else node s cur)"

text \<open>The pair of values hashed at each level while climbing.\<close>

primrec climb_pairs :: "('a \<Rightarrow> 'a \<Rightarrow> 'a) \<Rightarrow> 'a list \<Rightarrow> nat \<Rightarrow> 'a \<Rightarrow> ('a \<times> 'a) list" where
  "climb_pairs node [] pos cur = []"
| "climb_pairs node (s # ss) pos cur =
     (let p = (if even pos then (cur, s) else (s, cur))
      in p # climb_pairs node ss (pos div 2) (node (fst p) (snd p)))"

text \<open>The children of the node at height \<open>Suc l\<close> above leaf \<open>i\<close>.\<close>

definition child_pair :: "('a \<Rightarrow> 'a \<Rightarrow> 'a) \<Rightarrow> (nat \<Rightarrow> 'a) \<Rightarrow> nat \<Rightarrow> nat \<Rightarrow> 'a \<times> 'a" where
  "child_pair node f l i =
     (subroot node f l (2 * (i div 2 ^ Suc l)), subroot node f l (Suc (2 * (i div 2 ^ Suc l))))"

definition collides :: "('a \<Rightarrow> 'a \<Rightarrow> 'a) \<Rightarrow> 'a \<times> 'a \<Rightarrow> 'a \<times> 'a \<Rightarrow> bool" where
  "collides node p q \<longleftrightarrow> p \<noteq> q \<and> node (fst p) (snd p) = node (fst q) (snd q)"

lemma xor_one_nat: "(i::nat) XOR Suc 0 = (if even i then Suc i else i - Suc 0)"
  by (simp add: xor_Suc_0_eq)

lemma xor_one_less_two_power: "i < 2 ^ n \<Longrightarrow> 0 < n \<Longrightarrow> (i::nat) XOR 1 < 2 ^ n"
proof -
  assume i: "i < 2 ^ n" and n: "0 < n"
  then obtain m where "(2::nat) ^ n = 2 * m"
    by (cases n) auto
  with i show "i XOR 1 < 2 ^ n"
    by (auto simp: xor_one_nat elim!: evenE)
qed

lemma subroot_zero [simp]: "subroot node f 0 = f"
  by (rule ext) simp

lemma length_climb_pairs [simp]: "length (climb_pairs node ss pos cur) = length ss"
  by (induction ss arbitrary: pos cur) (auto simp: Let_def)

lemma climb_append: "climb node (xs @ ys) pos cur = climb node ys (pos div 2 ^ length xs) (climb node xs pos cur)"
  by (induction xs arbitrary: pos cur) (auto simp: div_mult2_eq)

lemma subroot_cong:
  "(\<And>j. i * 2 ^ d \<le> j \<Longrightarrow> j < Suc i * 2 ^ d \<Longrightarrow> f j = g j) \<Longrightarrow> subroot node f d i = subroot node g d i"
proof (induction d arbitrary: i)
  case 0
  then show ?case by simp
next
  case (Suc d)
  have "subroot node f d (2 * i) = subroot node g d (2 * i)"
    by (rule Suc.IH, rule Suc.prems) simp_all
  moreover have "subroot node f d (Suc (2 * i)) = subroot node g d (Suc (2 * i))"
    by (rule Suc.IH, rule Suc.prems) simp_all
  ultimately show ?case by simp
qed

lemma subroot_subroot: "subroot node (subroot node f a) d i = subroot node f (a + d) i"
  by (induction d arbitrary: i) auto

lemma subroot_lift: "subroot node (\<lambda>j. node (f (2 * j)) (f (Suc (2 * j)))) d i = subroot node f (Suc d) i"
  by (induction d arbitrary: i) auto

text \<open>A subtree cut out of a larger one is a tree over its own leaves.\<close>

lemma subroot_shift:
  "d \<le> m \<Longrightarrow> subroot node (\<lambda>j. f (k * 2 ^ m + j)) d i = subroot node f d (k * 2 ^ (m - d) + i)"
proof (induction d arbitrary: i)
  case 0
  then show ?case by simp
next
  case (Suc d)
  have "(2::nat) ^ (m - d) = 2 * 2 ^ (m - Suc d)"
    using Suc.prems by (metis Suc_diff_Suc Suc_le_lessD power_Suc)
  then have "k * 2 ^ (m - d) + 2 * i = 2 * (k * 2 ^ (m - Suc d) + i)"
    by (simp add: algebra_simps)
  then have "subroot node f d (k * 2 ^ (m - d) + 2 * i) = subroot node f d (2 * (k * 2 ^ (m - Suc d) + i))"
    and "subroot node f d (k * 2 ^ (m - d) + Suc (2 * i)) = subroot node f d (Suc (2 * (k * 2 ^ (m - Suc d) + i)))"
    by (simp_all only: add_Suc_right)
  with Suc show ?case by simp
qed

text \<open>Climbing along the siblings of a node of the tree stays on the tree.\<close>

lemma climb_on_tree:
  "climb node (map (\<lambda>l. subroot node f l ((i div 2 ^ l) XOR 1)) [a..<a + n]) (i div 2 ^ a)
     (subroot node f a (i div 2 ^ a)) = subroot node f (a + n) (i div 2 ^ (a + n))"
proof (induction n arbitrary: a)
  case 0
  then show ?case by simp
next
  case (Suc n)
  let ?j = "i div 2 ^ a"
  have j2: "i div 2 ^ Suc a = ?j div 2"
    by (metis div_mult2_eq power_Suc2)
  have up: "(if even ?j then node (subroot node f a ?j) (subroot node f a (?j XOR 1))
             else node (subroot node f a (?j XOR 1)) (subroot node f a ?j))
            = subroot node f (Suc a) (i div 2 ^ Suc a)"
  proof (cases "even ?j")
    case True
    then have "2 * (?j div 2) = ?j" by simp
    then show ?thesis
      using True by (simp add: xor_one_nat j2 del: power_Suc)
  next
    case False
    then have "2 * (?j div 2) = ?j - Suc 0" "Suc (2 * (?j div 2)) = ?j" by auto
    then show ?thesis
      using False by (simp add: xor_one_nat j2 del: power_Suc)
  qed
  have split: "[a..<a + Suc n] = a # [Suc a..<Suc a + n]"
    by (simp add: upt_conv_Cons)
  show ?case
    using Suc.IH [of "Suc a"] up j2
    by (simp only: split list.map climb.simps) simp
qed

lemma climb_from_leaf:
  "climb node (map (\<lambda>l. subroot node f l ((i div 2 ^ l) XOR 1)) [0..<n]) i (f i) =
   subroot node f n (i div 2 ^ n)"
  using climb_on_tree [of node f i 0 n] by simp

lemma climb_pairs_nth:
  "l < length ss \<Longrightarrow> climb_pairs node ss pos cur ! l =
     (if even (pos div 2 ^ l) then (climb node (take l ss) pos cur, ss ! l) else (ss ! l, climb node (take l ss) pos cur))"
  by (induction ss arbitrary: pos cur l) (auto simp: Let_def less_Suc_eq_0_disj div_mult2_eq)

text \<open>Climbing along the tree's own siblings hashes the tree's own pairs.\<close>

lemma climb_pairs_on_tree:
  assumes "l < n"
  shows "climb_pairs node (map (\<lambda>l. subroot node f l ((i div 2 ^ l) XOR 1)) [0..<n]) i (f i) ! l = child_pair node f l i"
proof -
  let ?j = "i div 2 ^ l"
  have j2: "i div 2 ^ Suc l = ?j div 2"
    by (metis div_mult2_eq power_Suc2)
  have t: "take l (map (\<lambda>l. subroot node f l ((i div 2 ^ l) XOR 1)) [0..<n]) =
      map (\<lambda>l. subroot node f l ((i div 2 ^ l) XOR 1)) [0..<l]"
    using assms by (simp add: take_map)
  have "2 * (?j div 2) = (if even ?j then ?j else ?j - Suc 0)" "Suc (2 * (?j div 2)) = (if even ?j then Suc ?j else ?j)"
    by auto
  with assms show ?thesis
    by (simp only: climb_pairs_nth length_map length_upt t climb_from_leaf child_pair_def j2)
      (simp add: xor_one_nat)
qed

text \<open>
  Binding: a path that leads from \<open>leaf\<close> to a subtree root starts at the leaf the tree has
  at that position, or one of the levels exhibits two different pairs with the same hash.
\<close>

lemma climb_binding:
  assumes "climb node path pos leaf = subroot node f (length path) (pos div 2 ^ length path)"
  shows "leaf = f pos \<or>
    (\<exists>l < length path. collides node (climb_pairs node path pos leaf ! l) (child_pair node f l pos))"
  using assms
proof (induction path arbitrary: pos leaf f)
  case Nil
  then show ?case by simp
next
  case (Cons s ss)
  let ?p = "if even pos then (leaf, s) else (s, leaf)"
  let ?g = "\<lambda>j. node (f (2 * j)) (f (Suc (2 * j)))"
  have step: "climb node ss (pos div 2) (node (fst ?p) (snd ?p)) =
      subroot node ?g (length ss) (pos div 2 div 2 ^ length ss)"
    using Cons.prems by (simp add: subroot_lift div_mult2_eq split: if_splits del: subroot.simps)
  from Cons.IH [OF step] show ?case
  proof
    assume eq: "node (fst ?p) (snd ?p) = ?g (pos div 2)"
    let ?q = "(f (2 * (pos div 2)), f (Suc (2 * (pos div 2))))"
    show ?thesis
    proof (cases "?p = ?q")
      case True
      then have "leaf = f pos"
        by (cases "even pos") (auto simp: odd_two_times_div_two_succ)
      then show ?thesis ..
    next
      case False
      with eq have "collides node ?p (child_pair node f 0 pos)"
        by (simp add: collides_def child_pair_def)
      then show ?thesis
        by (intro disjI2 exI [of _ 0]) (simp add: Let_def)
    qed
  next
    assume "\<exists>l < length ss. collides node
      (climb_pairs node ss (pos div 2) (node (fst ?p) (snd ?p)) ! l) (child_pair node ?g l (pos div 2))"
    then obtain l where l: "l < length ss"
      and c: "collides node (climb_pairs node ss (pos div 2) (node (fst ?p) (snd ?p)) ! l)
        (child_pair node ?g l (pos div 2))" by blast
    have "pos div 2 div 2 ^ Suc l = pos div 2 ^ Suc (Suc l)"
      by (simp only: div_mult2_eq power_Suc)
    then have "child_pair node ?g l (pos div 2) = child_pair node f (Suc l) pos"
      by (simp only: child_pair_def subroot_lift)
    with c have "collides node (climb_pairs node (s # ss) pos leaf ! Suc l) (child_pair node f (Suc l) pos)"
      by (simp add: Let_def)
    with l show ?thesis
      by (intro disjI2 exI [of _ "Suc l"]) simp
  qed
qed

section \<open>Empty subtrees\<close>

text \<open>
  The contract of the table of empty-subtree hashes: entry \<open>0\<close> is the empty leaf and each
  entry hashes the previous one with itself.
\<close>

locale empty_table =
  fixes node :: "'a \<Rightarrow> 'a \<Rightarrow> 'a"
    and empty :: "nat \<Rightarrow> 'a"
  assumes empty_Suc: "empty (Suc d) = node (empty d) (empty d)"
begin

lemma subroot_empty:
  "(\<And>j. i * 2 ^ d \<le> j \<Longrightarrow> j < Suc i * 2 ^ d \<Longrightarrow> f j = empty 0) \<Longrightarrow> subroot node f d i = empty d"
proof (induction d arbitrary: i)
  case 0
  then show ?case by simp
next
  case (Suc d)
  have "subroot node f d (2 * i) = empty d"
    by (rule Suc.IH, rule Suc.prems) simp_all
  moreover have "subroot node f d (Suc (2 * i)) = empty d"
    by (rule Suc.IH, rule Suc.prems) simp_all
  ultimately show ?case by (simp add: empty_Suc)
qed

text \<open>Beyond the last populated leaf every node is the table entry of its height.\<close>

lemma subroot_beyond:
  "(\<And>j. n \<le> j \<Longrightarrow> f j = empty 0) \<Longrightarrow> n \<le> i * 2 ^ d \<Longrightarrow> subroot node f d i = empty d"
  by (rule subroot_empty) (meson le_trans)

text \<open>A tree that fits in height \<open>d\<close>, seen at height \<open>d + n\<close>, is its root hashed with the table.\<close>

lemma subroot_extend:
  assumes "\<And>j. 2 ^ d \<le> j \<Longrightarrow> f j = empty 0"
  shows "subroot node f (d + n) 0 = fold (\<lambda>l r. node r (empty l)) [d..<d + n] (subroot node f d 0)"
proof (induction n)
  case 0
  then show ?case by simp
next
  case (Suc n)
  have "subroot node f (d + n) 1 = empty (d + n)"
  proof (rule subroot_beyond [of "2 ^ d"])
    show "2 ^ d \<le> (1::nat) * 2 ^ (d + n)"
      by (simp add: power_add)
  qed (rule assms)
  with Suc show ?case by simp
qed

lemma empty_siblings:
  assumes "\<And>j. 2 ^ d \<le> j \<Longrightarrow> f j = empty 0" and "i < 2 ^ d" and "d \<le> l"
  shows "subroot node f l ((i div 2 ^ l) XOR 1) = empty l"
proof -
  have le: "(2::nat) ^ d \<le> 2 ^ l"
    using assms(3) by (simp add: power_increasing)
  have "i < 2 ^ l"
    using assms(2) le by (rule less_le_trans)
  then have "i div 2 ^ l = 0"
    by (rule div_less)
  then have "(i div 2 ^ l) XOR 1 = 1" by simp
  then show ?thesis
    using subroot_beyond [of "2 ^ d" f 1 l] assms(1) le by simp
qed

end

end
