(* ===== verification/Imt_Tree.thy ===== *)
theory Imt_Tree
  imports Hasher Merkle
begin

text \<open>
  The indexed Merkle tree primitives of \<^verbatim>\<open>imt-tree/src/tree/mod.rs\<close>: punctured ranges, their
  commitments, the range lookup, the span check, the empty-subtree table and the
  bottom-up level builder. The lemmas characterise each operation completely: when the
  range builder panics, which index the lookup finds, and that level \<open>l\<close> of
  \<open>build_levels\<close> is the list of the tree's nodes at height \<open>l\<close>, whichever of the two
  hashing loops computes it.
\<close>

type_synonym 'p PuncturedRange = "'p fp3"

definition TREE_DEPTH :: nat where
  "TREE_DEPTH = 29"

section \<open>Definitions\<close>

definition punctured_range_at :: "'p::len fp list \<Rightarrow> nat \<Rightarrow> 'p PuncturedRange result" where
  "punctured_range_at nfs i =
     (let base = i * 2
      in and_then (index_res nfs base) (\<lambda>lo.
         and_then (index_res nfs (base + 1)) (\<lambda>mid.
         and_then (index_res nfs (base + 2)) (\<lambda>hi.
         assert_panic (lo < mid \<and> mid < hi) ''punctured range violates strict ordering''
           (Ok (lo, mid, hi))))))"

definition build_punctured_ranges :: "'p::len fp list \<Rightarrow> 'p PuncturedRange list result" where
  "build_punctured_ranges nfs =
     (let n = length nfs
      in assert_panic (n \<ge> 3) ''need at least 3 sorted nullifiers''
           (assert_panic (n mod 2 = 1) ''sorted nullifier count must be odd''
             (try_map (punctured_range_at nfs) [0..<(n - 1) div 2])))"

definition commit_punctured_ranges :: "'p::len poseidon_constants \<Rightarrow> 'p PuncturedRange list \<Rightarrow> 'p fp list" where
  "commit_punctured_ranges P ranges = map (\<lambda>(a, b, c). hash3 (poseidon_new P) a b c) ranges"

text \<open>\<open>slice::partition_point\<close> on a slice whose prefix satisfies the predicate.\<close>

definition partition_point :: "('a \<Rightarrow> bool) \<Rightarrow> 'a list \<Rightarrow> nat" where
  "partition_point p xs = length (takeWhile p xs)"

definition find_punctured_range_for_value :: "'p::len PuncturedRange list \<Rightarrow> 'p fp \<Rightarrow> nat option" where
  "find_punctured_range_for_value ranges value =
     (let i = partition_point (\<lambda>(nf_lo, _, _). nf_lo < value) ranges
      in if i = 0 then None
         else let idx = i - 1;
                  (nf_lo, nf_mid, nf_hi) = ranges ! idx;
                  offset = value - nf_lo;
                  span = nf_hi - nf_lo
              in if offset = 0 \<or> offset \<ge> span then None
                 else if value = nf_mid then None
                 else Some idx)"

definition verify_punctured_range_spans :: "'p::len PuncturedRange list \<Rightarrow> unit result" where
  "verify_punctured_range_spans ranges =
     (let max_span = 2 ^ 250
      in try_fold (\<lambda>(nf_lo, _, nf_hi) _.
           ensure (nf_hi - nf_lo \<le> max_span) ''punctured range has span > 2^250'' (Ok ()))
         ranges ())"

definition precompute_empty_hashes :: "'p::len poseidon_constants \<Rightarrow> 'p fp list" where
  "precompute_empty_hashes P =
     (let hasher = poseidon_new P;
          empties = (replicate TREE_DEPTH 0)[0 := hash3 hasher 0 0 0]
      in fold (\<lambda>i empties. empties[i := hash hasher (empties ! (i - 1)) (empties ! (i - 1))])
           [1..<TREE_DEPTH] empties)"

definition PAR_THRESHOLD :: nat where
  "PAR_THRESHOLD = 1024"

text \<open>The body of the level loop: hash the pairs, pad to even length.\<close>

definition hash_pairs :: "'p::len poseidon_constants \<Rightarrow> 'p fp list \<Rightarrow> 'p fp list" where
  "hash_pairs P prev =
     (let hasher = poseidon_new P; pairs = length prev div 2
      in if pairs \<ge> PAR_THRESHOLD
         then map (\<lambda>pair. hash hasher (pair ! 0) (pair ! 1)) (chunks_exact 2 prev)
         else map (\<lambda>j. hash hasher (prev ! (j * 2)) (prev ! (j * 2 + 1))) [0..<pairs])"

definition next_level :: "'p::len poseidon_constants \<Rightarrow> 'p fp list \<Rightarrow> nat \<Rightarrow> 'p fp list \<Rightarrow> 'p fp list result" where
  "next_level P empties i prev =
     (let next = hash_pairs P prev
      in if length next mod 2 = 1
         then and_then (index_res empties (i + 1)) (\<lambda>e. Ok (next @ [e]))
         else Ok next)"

definition pad_leaves :: "'p::len fp list \<Rightarrow> 'p fp list \<Rightarrow> 'p fp list result" where
  "pad_leaves empties leaves =
     and_then (if leaves = [] then and_then (index_res empties 0) (\<lambda>e. Ok [e]) else Ok leaves) (\<lambda>leaves.
       if length leaves mod 2 = 1
       then and_then (index_res empties 0) (\<lambda>e. Ok (leaves @ [e]))
       else Ok leaves)"

definition build_levels ::
  "'p::len poseidon_constants \<Rightarrow> 'p fp list \<Rightarrow> 'p fp list \<Rightarrow> nat \<Rightarrow> ('p fp \<times> 'p fp list list) result" where
  "build_levels P leaves empties depth =
     (if depth = 0 then Err (Panic ''attempt to subtract with overflow'')
      else
        and_then (pad_leaves empties leaves) (\<lambda>leaves.
        and_then (try_fold (\<lambda>i levels.
            and_then (index_res levels i) (\<lambda>prev.
            and_then (next_level P empties i prev) (\<lambda>next. Ok (levels @ [next]))))
          [0..<depth - 1] [leaves]) (\<lambda>levels.
        and_then (index_res levels (depth - 1)) (\<lambda>top.
        and_then (index_res top 0) (\<lambda>l.
        and_then (index_res top 1) (\<lambda>r.
        Ok (hash (poseidon_new P) l r, levels)))))))"

section \<open>Punctured ranges\<close>

text \<open>The triples of a list, as the documentation lists them.\<close>

definition triple_at :: "'p::len fp list \<Rightarrow> nat \<Rightarrow> 'p PuncturedRange" where
  "triple_at nfs i = (nfs ! (2 * i), nfs ! (2 * i + 1), nfs ! (2 * i + 2))"

definition triples :: "'p::len fp list \<Rightarrow> 'p PuncturedRange list" where
  "triples nfs = map (triple_at nfs) [0..<(length nfs - 1) div 2]"

lemma length_triples [simp]: "length (triples nfs) = (length nfs - 1) div 2"
  by (simp add: triples_def)

lemma nth_triples [simp]: "i < (length nfs - 1) div 2 \<Longrightarrow> triples nfs ! i = triple_at nfs i"
  by (simp add: triples_def)

lemma punctured_range_at_Ok_iff:
  assumes "i < (length nfs - 1) div 2"
  shows "punctured_range_at nfs i = Inr r \<longleftrightarrow>
    r = triple_at nfs i \<and> nfs ! (2 * i) < nfs ! (2 * i + 1) \<and> nfs ! (2 * i + 1) < nfs ! (2 * i + 2)"
proof -
  have "i * 2 + 2 < length nfs" using assms by linarith
  then show ?thesis
    by (auto simp: punctured_range_at_def Let_def triple_at_def mult.commute result_simps)
qed

lemma strict_triples_iff_sorted:
  assumes "odd (length nfs)"
  shows "(\<forall>i < (length nfs - 1) div 2. nfs ! (2 * i) < nfs ! (2 * i + 1) \<and> nfs ! (2 * i + 1) < nfs ! (2 * i + 2))
    \<longleftrightarrow> sorted_wrt (<) (nfs :: 'a::linorder list)" (is "?L \<longleftrightarrow> ?R")
proof
  assume L: ?L
  have step: "nfs ! k < nfs ! Suc k" if "Suc k < length nfs" for k
  proof (cases "even k")
    case True
    then obtain i where "k = 2 * i" by (rule evenE)
    with that assms L show ?thesis by (auto elim!: oddE)
  next
    case False
    then obtain i where "k = 2 * i + 1" by (rule oddE)
    with that assms L show ?thesis by (auto elim!: oddE)
  qed
  show ?R
    by (simp add: sorted_wrt_iff_nth_Suc_transp step)
next
  assume R: ?R
  show ?L
  proof (intro allI impI)
    fix i
    assume "i < (length nfs - 1) div 2"
    then have "2 * i + 2 < length nfs" by linarith
    then show "nfs ! (2 * i) < nfs ! (2 * i + 1) \<and> nfs ! (2 * i + 1) < nfs ! (2 * i + 2)"
      by (simp add: sorted_wrt_nth_less [OF R])
  qed
qed

text \<open>
  The range builder returns exactly when the input has an odd number of at least three
  strictly increasing elements; otherwise one of its three assertions panics.
\<close>

lemma build_punctured_ranges_Ok_iff:
  "build_punctured_ranges nfs = Inr ranges \<longleftrightarrow>
     3 \<le> length nfs \<and> odd (length nfs) \<and> sorted_wrt (<) nfs \<and> ranges = triples nfs"
proof (cases "3 \<le> length nfs \<and> odd (length nfs)")
  case True
  then have m: "length nfs mod 2 = 1" by presburger
  let ?n = "(length nfs - 1) div 2"
  have "build_punctured_ranges nfs = Inr ranges \<longleftrightarrow>
      list_all2 (\<lambda>i r. punctured_range_at nfs i = Inr r) [0..<?n] ranges"
    using True m by (simp add: build_punctured_ranges_def Let_def try_map_Ok_iff)
  also have "\<dots> \<longleftrightarrow> length ranges = ?n \<and> (\<forall>i < ?n. ranges ! i = triple_at nfs i \<and>
      nfs ! (2 * i) < nfs ! (2 * i + 1) \<and> nfs ! (2 * i + 1) < nfs ! (2 * i + 2))"
    by (auto simp: list_all2_conv_all_nth punctured_range_at_Ok_iff)
  also have "\<dots> \<longleftrightarrow> ranges = triples nfs \<and> sorted_wrt (<) nfs"
    using True strict_triples_iff_sorted [of nfs]
    by (auto simp: list_eq_iff_nth_eq)
  finally show ?thesis using True by auto
next
  case False
  then have "\<not> (3 \<le> length nfs \<and> length nfs mod 2 = 1)"
    by presburger
  then have "build_punctured_ranges nfs \<noteq> Inr ranges"
    by (auto simp: build_punctured_ranges_def Let_def assert_panic_def)
  with False show ?thesis by blast
qed

text \<open>The set a range covers: its open interval without the middle nullifier.\<close>

definition covers :: "'p::len PuncturedRange \<Rightarrow> 'p fp \<Rightarrow> bool" where
  "covers r v = (case r of (lo, mid, hi) \<Rightarrow> lo < v \<and> v < hi \<and> v \<noteq> mid)"

lemma covers_triple_at:
  "covers (triple_at nfs i) v \<longleftrightarrow> nfs ! (2 * i) < v \<and> v < nfs ! (2 * i + 2) \<and> v \<noteq> nfs ! (2 * i + 1)"
  by (simp add: covers_def triple_at_def)

lemma partition_point_nth: "j < partition_point p xs \<Longrightarrow> p (xs ! j)"
  unfolding partition_point_def by (metis nth_mem set_takeWhileD takeWhile_nth)

lemma partition_point_stop: "partition_point p xs < length xs \<Longrightarrow> \<not> p (xs ! partition_point p xs)"
  unfolding partition_point_def by (rule nth_length_takeWhile)

lemma partition_point_le: "partition_point p xs \<le> length xs"
  unfolding partition_point_def by (rule length_takeWhile_le)

lemma sorted_wrt_less_nth_iff:
  "sorted_wrt (<) (xs :: 'a::linorder list) \<Longrightarrow> i < length xs \<Longrightarrow> j < length xs \<Longrightarrow> xs ! i < xs ! j \<longleftrightarrow> i < j"
  by (metis linorder_neqE_nat order_less_asym sorted_wrt_nth_less order_less_irrefl)

lemma find_triples_Some_iff:
  assumes srt: "sorted_wrt (<) nfs" and odd: "odd (length nfs)"
  shows "find_punctured_range_for_value (triples nfs) v = Some i \<longleftrightarrow>
    i < length (triples nfs) \<and> covers (triple_at nfs i) v"
proof -
  let ?p = "\<lambda>(lo, _, _). lo < v"
  let ?k = "partition_point ?p (triples nfs)"
  have len: "2 * length (triples nfs) + 1 = length nfs"
    using odd by (auto elim!: oddE)
  have below: "nfs ! (2 * j) < v" if "j < ?k" for j
    using partition_point_nth [OF that] that partition_point_le [of ?p "triples nfs"]
    by (simp add: triple_at_def)
  have stop: "v \<le> nfs ! (2 * ?k)" if "?k < length (triples nfs)"
    using partition_point_stop [OF that] that by (simp add: triple_at_def not_less)
  have ord: "nfs ! (2 * j) \<le> nfs ! (2 * j + 2)" if "j < length (triples nfs)" for j
    using that len by (intro less_imp_le sorted_wrt_nth_less [OF srt]) auto
  show ?thesis
  proof
    assume *: "find_punctured_range_for_value (triples nfs) v = Some i"
    then have k: "?k \<noteq> 0" and i: "i = ?k - 1"
      by (auto simp: find_punctured_range_for_value_def Let_def split: if_splits prod.splits)
    with partition_point_le [of ?p "triples nfs"] have il: "i < length (triples nfs)" by linarith
    then have "triples nfs ! (?k - 1) = triple_at nfs i" using i by simp
    with * k have off: "\<not> (v - nfs ! (2 * i) = 0 \<or> nfs ! (2 * i + 2) - nfs ! (2 * i) \<le> v - nfs ! (2 * i))"
      and mid: "v \<noteq> nfs ! (2 * i + 1)"
      by (auto simp only: find_punctured_range_for_value_def Let_def triple_at_def prod.case
          split: if_splits)
    have "nfs ! (2 * i) < v \<and> v < nfs ! (2 * i + 2)"
      using off offset_in_span_iff [OF ord [OF il], of v] by blast
    with mid il show "i < length (triples nfs) \<and> covers (triple_at nfs i) v"
      by (simp add: covers_triple_at)
  next
    assume i: "i < length (triples nfs) \<and> covers (triple_at nfs i) v"
    then have lo: "nfs ! (2 * i) < v" and hi: "v < nfs ! (2 * i + 2)" and mid: "v \<noteq> nfs ! (2 * i + 1)"
      by (auto simp: covers_triple_at)
    have "i < ?k"
    proof (rule ccontr)
      assume "\<not> i < ?k"
      then have "v \<le> nfs ! (2 * ?k)" and "nfs ! (2 * ?k) \<le> nfs ! (2 * i)"
        using i len stop sorted_wrt_less_nth_iff [OF srt, of "2 * i" "2 * ?k"] by auto
      with lo show False by simp
    qed
    moreover have "?k \<le> i + 1"
      using below [of "i + 1"] hi by fastforce
    ultimately have "?k = Suc i" by simp
    moreover have "\<not> (v - nfs ! (2 * i) = 0 \<or> nfs ! (2 * i + 2) - nfs ! (2 * i) \<le> v - nfs ! (2 * i))"
      using ord i lo hi by (subst offset_in_span_iff) auto
    ultimately show "find_punctured_range_for_value (triples nfs) v = Some i"
      using i mid by (simp add: find_punctured_range_for_value_def Let_def triple_at_def)
  qed
qed

text \<open>A value is covered exactly when it lies inside the list's span and is not an element.\<close>

lemma some_triple_covers_iff:
  fixes nfs :: "'p::len fp list"
  assumes srt: "sorted_wrt (<) nfs" and odd: "odd (length nfs)"
  shows "(\<exists>i < length (triples nfs). covers (triple_at nfs i) v) \<longleftrightarrow>
    hd nfs < v \<and> v < last nfs \<and> v \<notin> set nfs"
proof -
  have len: "2 * length (triples nfs) + 1 = length nfs"
    using odd by (auto elim!: oddE)
  then have ne: "nfs \<noteq> []" by auto
  note less = sorted_wrt_less_nth_iff [OF srt]
  show ?thesis
  proof
    assume "\<exists>i < length (triples nfs). covers (triple_at nfs i) v"
    then obtain i where i: "i < length (triples nfs)" and lo: "nfs ! (2 * i) < v"
      and hi: "v < nfs ! (2 * i + 2)" and mid: "v \<noteq> nfs ! (2 * i + 1)"
      by (auto simp: covers_triple_at)
    have "v \<notin> set nfs"
    proof
      assume "v \<in> set nfs"
      then obtain k where k: "k < length nfs" "nfs ! k = v"
        by (auto simp: in_set_conv_nth)
      then have "2 * i < k" "k < 2 * i + 2"
        using less [of "2 * i" k] less [of k "2 * i + 2"] lo hi i len by auto
      then have "k = 2 * i + 1" by simp
      with k mid show False by simp
    qed
    moreover have "hd nfs \<le> nfs ! (2 * i)"
      using less [of "2 * i" 0] i len ne by (auto simp: hd_conv_nth not_less [symmetric])
    moreover have "nfs ! (2 * i + 2) \<le> last nfs"
      using less [of "length nfs - 1" "2 * i + 2"] i len ne by (auto simp: last_conv_nth not_less [symmetric])
    ultimately show "hd nfs < v \<and> v < last nfs \<and> v \<notin> set nfs"
      using lo hi by auto
  next
    assume v: "hd nfs < v \<and> v < last nfs \<and> v \<notin> set nfs"
    define k where "k = Max {j. j < length nfs \<and> nfs ! j < v}"
    have fin: "finite {j. j < length nfs \<and> nfs ! j < v}" by simp
    have mem: "0 \<in> {j. j < length nfs \<and> nfs ! j < v}"
      using v ne by (simp add: hd_conv_nth)
    have k: "k < length nfs" "nfs ! k < v"
      using Max_in [OF fin] mem unfolding k_def by blast+
    have k1: "Suc k < length nfs"
    proof (rule ccontr)
      assume "\<not> Suc k < length nfs"
      with k have "k = length nfs - 1" by simp
      then have "nfs ! k = last nfs" using ne by (simp add: last_conv_nth)
      with k v show False using order.asym by metis
    qed
    have "\<not> nfs ! Suc k < v"
    proof
      assume "nfs ! Suc k < v"
      with k1 have "Suc k \<le> k"
        unfolding k_def by (intro Max_ge [OF fin]) simp
      then show False by simp
    qed
    moreover have "nfs ! Suc k \<noteq> v"
      using v k1 by (metis nth_mem)
    ultimately have hi: "v < nfs ! Suc k" by simp
    show "\<exists>i < length (triples nfs). covers (triple_at nfs i) v"
    proof (intro exI [of _ "k div 2"] conjI)
      show i: "k div 2 < length (triples nfs)"
        using k1 len by linarith
      show "covers (triple_at nfs (k div 2)) v"
      proof (cases "even k")
        case True
        then have "2 * (k div 2) = k" by simp
        moreover have "k + 2 < length nfs"
          using True k1 odd by presburger
        then have "nfs ! Suc k < nfs ! (k + 2)"
          by (simp add: less)
        ultimately show ?thesis
          using k hi by (auto simp: covers_triple_at dest: order.strict_trans)
      next
        case False
        then have "2 * (k div 2) + 1 = k" by simp
        then have e: "2 * (k div 2) = k - 1" "k = Suc (k - 1)" by auto
        have "nfs ! (k - 1) < nfs ! k"
          using False k less [of "k - 1" k] by (auto elim!: oddE)
        then have "nfs ! (2 * (k div 2)) < v" "v \<noteq> nfs ! (2 * (k div 2) + 1)"
          using k e \<open>2 * (k div 2) + 1 = k\<close> by (auto dest: order.strict_trans)
        moreover have "v < nfs ! (2 * (k div 2) + 2)"
          using hi \<open>2 * (k div 2) + 1 = k\<close> by (metis add_Suc_right one_add_one Suc_eq_plus1 add.assoc)
        ultimately show ?thesis
          by (simp add: covers_triple_at)
      qed
    qed
  qed
qed

lemma verify_punctured_range_spans_Ok_iff:
  "verify_punctured_range_spans ranges = Inr () \<longleftrightarrow>
     (\<forall>(lo, mid, hi) \<in> set ranges. hi - lo \<le> 2 ^ 250)"
proof -
  have "try_fold (\<lambda>(lo, _, hi) _. ensure (hi - lo \<le> (2 ^ 250 :: 'a fp)) m (Ok ())) ranges () = Inr ()
      \<longleftrightarrow> (\<forall>(lo, mid, hi) \<in> set ranges. hi - lo \<le> 2 ^ 250)" for m
    by (induction ranges) (auto simp: result_simps)
  then show ?thesis
    unfolding verify_punctured_range_spans_def Let_def .
qed

section \<open>Empty subtrees and levels\<close>

text \<open>The hash of an empty subtree of each height, by recursion on the height.\<close>

primrec empty_hash :: "'p::len poseidon_constants \<Rightarrow> nat \<Rightarrow> 'p fp" where
  "empty_hash P 0 = hash3 (poseidon_new P) 0 0 0"
| "empty_hash P (Suc d) = hash (poseidon_new P) (empty_hash P d) (empty_hash P d)"

interpretation poseidon_empty: empty_table "hash (poseidon_new P)" "empty_hash P"
  for P :: "'p::len poseidon_constants"
  by unfold_locales simp

lemma fill_empty_hashes:
  "0 < k \<Longrightarrow> k \<le> n \<Longrightarrow>
   fold (\<lambda>i es. es[i := hash (poseidon_new P) (es ! (i - 1)) (es ! (i - 1))]) [1..<k]
     ((replicate n 0)[0 := hash3 (poseidon_new P) 0 0 0])
   = map (empty_hash P) [0..<k] @ replicate (n - k) 0"
proof (induction k rule: nat_induct_non_zero)
  case 1
  then show ?case by (cases n) auto
next
  case (Suc k)
  then have r: "replicate (n - k) (0 :: 'a fp) = 0 # replicate (n - Suc k) 0"
    by (metis Suc_diff_Suc Suc_le_lessD replicate_Suc)
  have "(map (empty_hash P) [0..<k] @ replicate (n - k) 0) ! (k - 1) = empty_hash P (k - 1)"
    using Suc.hyps by (simp add: nth_append)
  moreover have "hash (poseidon_new P) (empty_hash P (k - 1)) (empty_hash P (k - 1)) = empty_hash P k"
    using Suc.hyps by (cases k) auto
  ultimately show ?case
    using Suc by (simp add: r list_update_append)
qed

lemma precompute_empty_hashes_eq:
  "precompute_empty_hashes P = map (empty_hash P) [0..<TREE_DEPTH]"
  using fill_empty_hashes [of TREE_DEPTH TREE_DEPTH P]
  by (simp add: precompute_empty_hashes_def Let_def TREE_DEPTH_def)

text \<open>The leaves of the tree: the committed ones, then empty leaves.\<close>

definition leaf_at :: "'p::len poseidon_constants \<Rightarrow> 'p fp list \<Rightarrow> nat \<Rightarrow> 'p fp" where
  "leaf_at P leaves i = (if i < length leaves then leaves ! i else empty_hash P 0)"

abbreviation tree_node :: "'p::len poseidon_constants \<Rightarrow> 'p fp list \<Rightarrow> nat \<Rightarrow> nat \<Rightarrow> 'p fp" where
  "tree_node P leaves \<equiv> subroot (hash (poseidon_new P)) (leaf_at P leaves)"

definition pad_even :: "nat \<Rightarrow> nat" where
  "pad_even n = (if n = 0 then 2 else n + n mod 2)"

primrec level_len :: "nat \<Rightarrow> nat \<Rightarrow> nat" where
  "level_len n 0 = pad_even n"
| "level_len n (Suc l) = pad_even (level_len n l div 2)"

definition tree_level :: "'p::len poseidon_constants \<Rightarrow> 'p fp list \<Rightarrow> nat \<Rightarrow> 'p fp list" where
  "tree_level P leaves l = map (tree_node P leaves l) [0..<level_len (length leaves) l]"

lemma pad_even_props: "even (pad_even n)" "2 \<le> pad_even n" "n \<le> pad_even n"
  by (auto simp: pad_even_def) (presburger+)?

lemma level_len_props: "even (level_len n l)" "2 \<le> level_len n l" "n \<le> level_len n l * 2 ^ l"
proof -
  show e: "even (level_len n l)" for l by (cases l) (simp_all add: pad_even_props)
  show "2 \<le> level_len n l" by (cases l) (simp_all add: pad_even_props)
  show "n \<le> level_len n l * 2 ^ l"
  proof (induction l)
    case 0
    then show ?case by (simp add: pad_even_props)
  next
    case (Suc l)
    have "level_len n l = (level_len n l div 2) * 2" using e by simp
    also have "\<dots> \<le> level_len n (Suc l) * 2"
      using pad_even_props(3) [of "level_len n l div 2"] by simp
    finally have "level_len n l * 2 ^ l \<le> level_len n (Suc l) * 2 * 2 ^ l"
      by (rule mult_le_mono1)
    with Suc have "n \<le> level_len n (Suc l) * 2 * 2 ^ l" by (rule le_trans)
    then show ?case by (simp only: mult.assoc power_Suc)
  qed
qed

text \<open>The chunked (parallel) and the indexed loop hash the same pairs.\<close>

lemma hash_pairs_eq:
  "hash_pairs P prev =
     map (\<lambda>j. hash (poseidon_new P) (prev ! (2 * j)) (prev ! Suc (2 * j))) [0..<length prev div 2]"
proof (rule nth_equalityI)
  show "length (hash_pairs P prev) =
      length (map (\<lambda>j. hash (poseidon_new P) (prev ! (2 * j)) (prev ! Suc (2 * j))) [0..<length prev div 2])"
    by (simp add: hash_pairs_def Let_def length_chunks_exact)
next
  fix j
  assume "j < length (hash_pairs P prev)"
  then have j: "j < length prev div 2"
    by (simp add: hash_pairs_def Let_def length_chunks_exact split: if_splits)
  then have "chunks_exact 2 prev ! j = take 2 (drop (j * 2) prev)"
    by (intro chunks_exact_nth) simp_all
  with j show "hash_pairs P prev ! j =
      map (\<lambda>j. hash (poseidon_new P) (prev ! (2 * j)) (prev ! Suc (2 * j))) [0..<length prev div 2] ! j"
    by (auto simp: hash_pairs_def Let_def length_chunks_exact mult.commute)
qed

lemma leaf_at_beyond: "length leaves \<le> j \<Longrightarrow> leaf_at P leaves j = empty_hash P 0"
  by (simp add: leaf_at_def)

lemma tree_node_beyond: "length leaves \<le> i * 2 ^ l \<Longrightarrow> tree_node P leaves l i = empty_hash P l"
  by (rule poseidon_empty.subroot_beyond [of "length leaves"]) (auto simp: leaf_at_def)

lemma next_level_tree:
  assumes "Suc l < TREE_DEPTH"
  shows "next_level P (precompute_empty_hashes P) l (tree_level P leaves l) =
    Ok (tree_level P leaves (Suc l))"
proof -
  let ?m = "level_len (length leaves) l"
  note props = level_len_props [of "length leaves" l]
  have pairs: "hash_pairs P (tree_level P leaves l) = map (tree_node P leaves (Suc l)) [0..<?m div 2]"
    by (auto simp: hash_pairs_eq tree_level_def)
  have "?m div 2 * 2 = ?m" using props by simp
  then have "length leaves \<le> (?m div 2) * 2 ^ Suc l"
    using props(3) by (simp only: power_Suc mult.assoc [symmetric])
  then have pad: "tree_node P leaves (Suc l) (?m div 2) = empty_hash P (Suc l)"
    by (rule tree_node_beyond)
  have idx: "index_res (precompute_empty_hashes P) (Suc l) = Ok (empty_hash P (Suc l))"
    using assms by (simp add: precompute_empty_hashes_eq del: empty_hash.simps)
  have len: "level_len (length leaves) (Suc l) = ?m div 2 + (?m div 2) mod 2"
    using props by (auto simp: pad_even_def)
  show ?thesis
  proof (cases "even (?m div 2)")
    case True
    then show ?thesis
      by (simp add: next_level_def pairs tree_level_def [of _ _ "Suc l"] len
          del: subroot.simps level_len.simps)
  next
    case False
    then have "?m div 2 mod 2 = 1" by presburger
    then show ?thesis
      by (simp add: next_level_def pairs tree_level_def [of _ _ "Suc l"] len idx pad
          del: subroot.simps level_len.simps empty_hash.simps)
  qed
qed

lemma pad_leaves_tree:
  "pad_leaves (precompute_empty_hashes P) leaves = Ok (tree_level P leaves 0)"
proof -
  have e: "index_res (precompute_empty_hashes P) 0 = Ok (empty_hash P 0)"
    by (simp add: precompute_empty_hashes_eq TREE_DEPTH_def)
  have "map (leaf_at P leaves) [0..<length leaves] = leaves"
    by (rule nth_equalityI) (auto simp: leaf_at_def)
  moreover have "leaf_at P leaves (length leaves) = empty_hash P 0"
    by (simp add: leaf_at_def)
  moreover have "[0..<2] = [0, Suc 0]" by (simp add: upt_conv_Cons)
  ultimately show ?thesis
    by (cases "leaves = []") (auto simp: pad_leaves_def e tree_level_def pad_even_def leaf_at_beyond)
qed

text \<open>
  The level builder is correct: for every depth up to \<open>TREE_DEPTH\<close> it returns the levels
  of the complete tree over the leaves and its root.
\<close>

lemma build_levels_tree:
  assumes "0 < depth" "depth \<le> TREE_DEPTH"
  shows "build_levels P leaves (precompute_empty_hashes P) depth =
    Ok (tree_node P leaves depth 0, map (tree_level P leaves) [0..<depth])"
proof -
  let ?body = "\<lambda>i levels. and_then (index_res levels i) (\<lambda>prev.
     and_then (next_level P (precompute_empty_hashes P) i prev) (\<lambda>next. Ok (levels @ [next])))"
  have loop: "try_fold ?body [0..<k] [tree_level P leaves 0] = Ok (map (tree_level P leaves) [0..<Suc k])"
    if "k < depth" for k
    using that
  proof (induction k)
    case 0
    then show ?case by simp
  next
    case (Suc k)
    then have "next_level P (precompute_empty_hashes P) k (tree_level P leaves k) =
        Ok (tree_level P leaves (Suc k))"
      using assms by (intro next_level_tree) simp
    moreover have "index_res (map (tree_level P leaves) [0..<Suc k]) k = Ok (tree_level P leaves k)"
      by (simp add: nth_append)
    ultimately show ?case
      using Suc by (simp add: try_fold_append)
  qed
  obtain d where d: "depth = Suc d"
    using assms by (cases depth) auto
  have "2 \<le> level_len (length leaves) d" by (rule level_len_props)
  then have top: "index_res (tree_level P leaves d) 0 = Ok (tree_node P leaves d 0)"
      "index_res (tree_level P leaves d) 1 = Ok (tree_node P leaves d 1)"
    by (auto simp: tree_level_def)
  have "index_res (map (tree_level P leaves) [0..<Suc d]) d = Ok (tree_level P leaves d)"
    by (simp add: nth_append)
  then show ?thesis
    using loop [of d] top d by (simp add: build_levels_def pad_leaves_tree)
qed

lemma tree_level_nth:
  "i < level_len (length leaves) l \<Longrightarrow> tree_level P leaves l ! i = tree_node P leaves l i"
  by (simp add: tree_level_def)

lemma length_tree_level [simp]: "length (tree_level P leaves l) = level_len (length leaves) l"
  by (simp add: tree_level_def)

text \<open>Looking a node up with the table as the default gives the tree's node everywhere.\<close>

lemma tree_level_or_empty:
  "(if i < length (tree_level P leaves l) then tree_level P leaves l ! i else empty_hash P l) =
    tree_node P leaves l i"
proof (cases "i < level_len (length leaves) l")
  case False
  then have "length leaves \<le> i * 2 ^ l"
    using level_len_props(3) [of "length leaves" l] by (meson le_trans mult_le_mono1 not_less)
  with False show ?thesis by (simp add: tree_node_beyond)
qed (simp add: tree_level_nth)

end
