(* ===== verification/Imt_Proof.thy ===== *)
theory Imt_Proof
  imports Imt_Tree
begin

text \<open>
  Non-membership proofs: \<open>ImtProofData\<close> and its verifier, from \<^verbatim>\<open>imt-tree/src/proof.rs\<close>.
  The verifier is shown to accept exactly the paths that climb to the root with a value
  strictly inside the punctured interval. Completeness: the siblings of the tree verify.
  Soundness: against the root of a tree built from a sorted list, an accepted value is not
  an element of the list, or the proof itself exhibits a hash collision.
\<close>

definition PUNCTURE_K :: nat where
  "PUNCTURE_K = 2"

text \<open>The fixed-size array \<open>path\<close> is a list; its length is part of \<open>proof_wf\<close>.\<close>

record (overloaded) 'p ImtProofData =
  root :: "'p fp"
  nf_bounds :: "'p fp3"
  leaf_pos :: u32
  path :: "'p fp list"

definition proof_wf :: "'p::len ImtProofData \<Rightarrow> bool" where
  "proof_wf pr \<longleftrightarrow> length (path pr) = TREE_DEPTH"

definition path_step :: "'p::len PoseidonHasher \<Rightarrow> 'p fp \<Rightarrow> 'p fp \<times> u32 \<Rightarrow> 'p fp \<times> u32" where
  "path_step hasher sibling st =
     (let (current, pos) = st;
          (l, r) = (if pos AND 1 = 0 then (current, sibling) else (sibling, current))
      in (hash hasher l r, drop_bit 1 pos))"

definition verify_merkle_path ::
  "'p::len PoseidonHasher \<Rightarrow> 'p fp \<Rightarrow> u32 \<Rightarrow> 'p fp list \<Rightarrow> 'p fp \<Rightarrow> bool" where
  "verify_merkle_path hasher leaf pos pth rt =
     (let (current, pos) = fold (path_step hasher) pth (leaf, pos) in current = rt)"

definition verify :: "'p::len poseidon_constants \<Rightarrow> 'p ImtProofData \<Rightarrow> 'p fp \<Rightarrow> bool" where
  "verify P pr value =
     (let (nf_lo, nf_mid, nf_hi) = nf_bounds pr;
          offset = value - nf_lo;
          span = nf_hi - nf_lo
      in if offset = 0 \<or> offset \<ge> span then False
         else if value = nf_mid then False
         else let hasher = poseidon_new P; leaf = hash3 hasher nf_lo nf_mid nf_hi
              in verify_merkle_path hasher leaf (leaf_pos pr) (path pr) (root pr))"

section \<open>The verifier as a climb\<close>

lemma unat_drop_bit_one: "unat (drop_bit (Suc 0) (w :: 'a::len word)) = unat w div 2"
  unfolding unat_drop_bit_eq by (simp add: drop_bit_Suc)

lemma even_unat_iff: "even (unat (w :: 'a::len word)) \<longleftrightarrow> even w"
  by transfer (simp add: even_nat_iff)

lemma word_and_one_zero_iff: "(w :: 'a::len word) AND 1 = 0 \<longleftrightarrow> even (unat w)"
  by (simp add: and_one_eq mod_2_eq_odd even_unat_iff)

lemma fold_path_step:
  "fst (fold (path_step h) pth (cur, pos)) = climb (hash h) pth (unat pos) cur"
  by (induction pth arbitrary: cur pos)
    (auto simp: path_step_def word_and_one_zero_iff unat_drop_bit_one Let_def)

lemma verify_merkle_path_climb:
  "verify_merkle_path h leaf pos pth rt \<longleftrightarrow> climb (hash h) pth (unat pos) leaf = rt"
  unfolding verify_merkle_path_def Let_def
  by (simp add: case_prod_unfold fold_path_step)

text \<open>Only the low bits of the position matter: one per path element.\<close>

lemma climb_mod: "climb node pth (pos mod 2 ^ length pth) cur = climb node pth pos cur"
proof (induction pth arbitrary: pos cur)
  case Nil
  then show ?case by simp
next
  case (Cons s ss)
  have "pos mod (2 * 2 ^ length ss) div 2 = pos div 2 mod 2 ^ length ss"
    by (metis mod_mult2_eq mult.commute add.commute div_mult_self1 mod_div_trivial add_0 zero_neq_numeral)
  moreover have "even (pos mod (2 * 2 ^ length ss)) \<longleftrightarrow> even pos"
    by (simp add: dvd_mod_iff)
  ultimately show ?case
    using Cons.IH by simp
qed

definition in_span :: "'p::len fp3 \<Rightarrow> 'p fp \<Rightarrow> bool" where
  "in_span b v = (case b of (lo, mid, hi) \<Rightarrow> v - lo \<noteq> 0 \<and> v - lo < hi - lo \<and> v \<noteq> mid)"

definition leaf_of :: "'p::len poseidon_constants \<Rightarrow> 'p fp3 \<Rightarrow> 'p fp" where
  "leaf_of P b = (case b of (lo, mid, hi) \<Rightarrow> hash3 (poseidon_new P) lo mid hi)"

lemma commit_leaf_of: "commit_punctured_ranges P ranges = map (leaf_of P) ranges"
  by (simp add: commit_punctured_ranges_def leaf_of_def)

lemma verify_iff:
  "verify P pr v \<longleftrightarrow> in_span (nf_bounds pr) v \<and>
     climb (hash (poseidon_new P)) (path pr) (unat (leaf_pos pr)) (leaf_of P (nf_bounds pr)) = root pr"
  by (cases "nf_bounds pr")
    (auto simp: verify_def verify_merkle_path_climb in_span_def leaf_of_def Let_def not_le)

lemma in_span_covers:
  assumes "lo \<le> hi"
  shows "in_span (lo, mid, hi) v \<longleftrightarrow> covers (lo, mid, hi) v"
  using offset_in_span_iff [OF assms, of v] by (auto simp: in_span_def covers_def not_le)

lemma not_in_span_zero: "\<not> in_span (0, 0, 0) v"
  by (simp add: in_span_def fp_less_iff)

section \<open>Completeness and soundness\<close>

text \<open>The sibling path of a leaf in the tree over the given leaves.\<close>

definition tree_path :: "'p::len poseidon_constants \<Rightarrow> 'p fp list \<Rightarrow> nat \<Rightarrow> nat \<Rightarrow> 'p fp list" where
  "tree_path P leaves n i = map (\<lambda>l. tree_node P leaves l ((i div 2 ^ l) XOR 1)) [0..<n]"

lemma climb_tree_path:
  "i < 2 ^ n \<Longrightarrow> climb (hash (poseidon_new P)) (tree_path P leaves n i) i (leaf_at P leaves i) = tree_node P leaves n 0"
  using climb_from_leaf [of "hash (poseidon_new P)" "leaf_at P leaves" i n] by (simp add: tree_path_def)

text \<open>The triple whose hash is the leaf at a position; empty leaves commit to zeros.\<close>

definition bounds_at :: "'p::len fp3 list \<Rightarrow> nat \<Rightarrow> 'p fp3" where
  "bounds_at ranges i = (if i < length ranges then ranges ! i else (0, 0, 0))"

lemma leaf_at_bounds_at:
  "leaf_at P (commit_punctured_ranges P ranges) i = leaf_of P (bounds_at ranges i)"
  by (simp add: leaf_at_def bounds_at_def commit_leaf_of) (simp add: leaf_of_def)

text \<open>
  The collision an accepted proof exhibits when its bounds are not the tree's: two
  different bounds with the same leaf hash, or two different pairs with the same node hash
  at one of the levels of the path.
\<close>

definition proof_pos :: "'p::len ImtProofData \<Rightarrow> nat" where
  "proof_pos pr = unat (leaf_pos pr) mod 2 ^ TREE_DEPTH"

definition exhibits_collision ::
  "'p::len poseidon_constants \<Rightarrow> 'p fp3 list \<Rightarrow> 'p ImtProofData \<Rightarrow> bool" where
  "exhibits_collision P ranges pr \<longleftrightarrow>
     (nf_bounds pr \<noteq> bounds_at ranges (proof_pos pr) \<and>
      leaf_of P (nf_bounds pr) = leaf_of P (bounds_at ranges (proof_pos pr))) \<or>
     (\<exists>l < TREE_DEPTH. collides (hash (poseidon_new P))
        (climb_pairs (hash (poseidon_new P)) (path pr) (proof_pos pr) (leaf_of P (nf_bounds pr)) ! l)
        (child_pair (hash (poseidon_new P)) (leaf_at P (commit_punctured_ranges P ranges)) l (proof_pos pr)))"

lemma verify_binding:
  assumes "proof_wf pr" and "verify P pr v"
    and "root pr = tree_node P (commit_punctured_ranges P ranges) TREE_DEPTH 0"
    and "\<not> exhibits_collision P ranges pr"
  shows "nf_bounds pr = bounds_at ranges (proof_pos pr)"
proof -
  let ?h = "hash (poseidon_new P)"
  let ?f = "leaf_at P (commit_punctured_ranges P ranges)"
  let ?leaf = "leaf_of P (nf_bounds pr)"
  have len: "length (path pr) = TREE_DEPTH"
    using assms(1) by (simp add: proof_wf_def)
  have lt: "proof_pos pr < 2 ^ TREE_DEPTH"
    by (simp add: proof_pos_def)
  have "climb ?h (path pr) (proof_pos pr) ?leaf = root pr"
    using assms(2) climb_mod [of ?h "path pr" "unat (leaf_pos pr)"]
    by (simp add: verify_iff proof_pos_def len)
  then have "climb ?h (path pr) (proof_pos pr) ?leaf =
      subroot ?h ?f (length (path pr)) (proof_pos pr div 2 ^ length (path pr))"
    using assms(3) lt by (simp add: len)
  from climb_binding [OF this] have "?leaf = ?f (proof_pos pr)"
    using assms(4) by (auto simp: exhibits_collision_def len)
  then show ?thesis
    using assms(4) by (auto simp: exhibits_collision_def leaf_at_bounds_at)
qed

lemma verify_sound:
  assumes "proof_wf pr" and "verify P pr v"
    and "root pr = tree_node P (commit_punctured_ranges P (triples nfs)) TREE_DEPTH 0"
    and "sorted_wrt (<) nfs" and "odd (length nfs)"
    and "\<not> exhibits_collision P (triples nfs) pr"
  shows "v \<notin> set nfs \<and> hd nfs < v \<and> v < last nfs"
proof -
  let ?i = "proof_pos pr"
  have b: "nf_bounds pr = bounds_at (triples nfs) ?i"
    using assms(1-3,6) by (rule verify_binding)
  moreover have "in_span (nf_bounds pr) v"
    using assms(2) by (simp add: verify_iff)
  ultimately have i: "?i < length (triples nfs)" and sp: "in_span (triple_at nfs ?i) v"
    by (auto simp: bounds_at_def not_in_span_zero split: if_splits)
  have "nfs ! (2 * ?i) \<le> nfs ! (2 * ?i + 2)"
    using i by (intro less_imp_le sorted_wrt_nth_less [OF assms(4)]) auto
  with sp have "covers (triple_at nfs ?i) v"
    by (simp add: triple_at_def in_span_covers)
  with i show ?thesis
    using some_triple_covers_iff [OF assms(4,5), of v] by blast
qed

lemma verify_complete:
  assumes "i < length ranges" "length ranges \<le> 2 ^ TREE_DEPTH"
    and "nf_bounds pr = ranges ! i" "in_span (ranges ! i) v"
    and "leaf_pos pr = word_of_nat i"
    and "path pr = tree_path P (commit_punctured_ranges P ranges) TREE_DEPTH i"
    and "root pr = tree_node P (commit_punctured_ranges P ranges) TREE_DEPTH 0"
  shows "verify P pr v"
proof -
  have i: "i < 2 ^ TREE_DEPTH" using assms by linarith
  then have "i < 2 ^ 32" by (simp add: TREE_DEPTH_def)
  then have pos: "unat (leaf_pos pr) = i"
    by (simp add: assms(5) unat_of_nat)
  have "leaf_of P (nf_bounds pr) = leaf_at P (commit_punctured_ranges P ranges) i"
    using assms by (simp add: leaf_at_bounds_at bounds_at_def)
  then show ?thesis
    using assms(3,4,6,7) climb_tree_path [OF i, of P "commit_punctured_ranges P ranges"]
    unfolding verify_iff pos by simp
qed

text \<open>An honest path exhibits no collision.\<close>

lemma honest_no_collision:
  assumes "i < length ranges" "length ranges \<le> 2 ^ TREE_DEPTH"
    and "nf_bounds pr = ranges ! i" "leaf_pos pr = word_of_nat i"
    and "path pr = tree_path P (commit_punctured_ranges P ranges) TREE_DEPTH i"
  shows "\<not> exhibits_collision P ranges pr"
proof -
  have i: "i < 2 ^ TREE_DEPTH" using assms by linarith
  then have "i < 2 ^ 32" by (simp add: TREE_DEPTH_def)
  then have pos: "proof_pos pr = i"
    using i by (simp add: proof_pos_def assms(4) unat_of_nat)
  have b: "bounds_at ranges i = ranges ! i" using assms(1) by (simp add: bounds_at_def)
  have "leaf_of P (ranges ! i) = leaf_at P (commit_punctured_ranges P ranges) i"
    by (simp add: leaf_at_bounds_at b)
  then show ?thesis
    using climb_pairs_on_tree [of _ TREE_DEPTH "hash (poseidon_new P)" "leaf_at P (commit_punctured_ranges P ranges)" i]
    by (simp add: exhibits_collision_def pos b assms tree_path_def collides_def)
qed

end
