(* ===== verification/Search.thy ===== *)
theory Search
  imports Prelude
begin

text \<open>
  The binary search shared by the tier readers (\<open>binary_search_records\<close>) and by the
  height index (\<open>offset_for_height\<close>): both run the same loop over an array of records
  whose keys they decode on the fly. The locale states what the loop needs of an array
  (every key in range decodes), and proves termination, absence of panics and, for sorted
  keys, that the loop returns the number of keys up to the value.
\<close>

text \<open>The loop; \<open>fetch\<close> decodes the key of a record and may panic.\<close>

function search_loop :: "(nat \<Rightarrow> 'k::linorder result) \<Rightarrow> 'k \<Rightarrow> nat \<Rightarrow> nat \<Rightarrow> nat result" where
  "search_loop fetch value lo hi =
     (if lo < hi
      then let mid = lo + (hi - lo) div 2
           in and_then (fetch mid) (\<lambda>k.
                if k \<le> value then search_loop fetch value (mid + 1) hi
                else search_loop fetch value lo mid)
      else Ok lo)"
  by pat_completeness auto
termination
  by (relation "measure (\<lambda>(_, _, lo, hi). hi - lo)") auto

declare search_loop.simps [simp del]

definition is_split :: "'k::linorder list \<Rightarrow> nat \<Rightarrow> 'k \<Rightarrow> nat \<Rightarrow> bool" where
  "is_split ks n v r \<longleftrightarrow> r \<le> n \<and> (\<forall>i < r. ks ! i \<le> v) \<and> (\<forall>i. r \<le> i \<and> i < n \<longrightarrow> v < ks ! i)"

lemma is_split_unique: "is_split ks n v r \<Longrightarrow> is_split ks n v s \<Longrightarrow> r = s"
  unfolding is_split_def by (metis le_less_linear leD nat_less_le order_le_less_trans order_less_le_trans linorder_neqE_nat)

locale keyed_records =
  fixes fetch :: "'d \<Rightarrow> nat \<Rightarrow> 'k::linorder result"
    and keys :: "'d \<Rightarrow> 'k list"
  assumes fetch_key: "i < length (keys d) \<Longrightarrow> fetch d i = Ok (keys d ! i)"
begin

lemma search_loop_returns:
  "hi \<le> length (keys d) \<Longrightarrow> lo \<le> hi \<Longrightarrow> \<exists>r. search_loop (fetch d) v lo hi = Ok r \<and> lo \<le> r \<and> r \<le> hi"
proof (induction "fetch d" v lo hi rule: search_loop.induct)
  case (1 v lo hi)
  show ?case
  proof (cases "lo < hi")
    case False
    with "1.prems" show ?thesis by (subst search_loop.simps) simp
  next
    case True
    define mid where "mid = lo + (hi - lo) div 2"
    have mid: "lo \<le> mid" "mid < hi" using True by (auto simp: mid_def)
    then have f: "fetch d mid = Ok (keys d ! mid)"
      using "1.prems" by (intro fetch_key) simp
    show ?thesis
    proof (cases "keys d ! mid \<le> v")
      case True
      with "1.hyps"(1) [OF \<open>lo < hi\<close> mid_def True] "1.prems" mid obtain r
        where "search_loop (fetch d) v (mid + 1) hi = Ok r" "mid + 1 \<le> r" "r \<le> hi" by auto
      with True f mid \<open>lo < hi\<close> show ?thesis
        by (subst search_loop.simps) (auto simp: Let_def mid_def [symmetric])
    next
      case False
      with "1.hyps"(2) [OF \<open>lo < hi\<close> mid_def False] "1.prems" mid obtain r
        where "search_loop (fetch d) v lo mid = Ok r" "lo \<le> r" "r \<le> mid" by auto
      with False f mid \<open>lo < hi\<close> show ?thesis
        by (subst search_loop.simps) (auto simp: Let_def mid_def [symmetric])
    qed
  qed
qed

lemma search_loop_splits:
  assumes "n \<le> length (keys d)" and srt: "\<And>i j. i \<le> j \<Longrightarrow> j < n \<Longrightarrow> keys d ! i \<le> keys d ! j"
    and "\<forall>i < lo. keys d ! i \<le> v" and "\<forall>i. hi \<le> i \<and> i < n \<longrightarrow> v < keys d ! i"
    and "lo \<le> hi" and "hi \<le> n"
    and "search_loop (fetch d) v lo hi = Ok r"
  shows "is_split (keys d) n v r"
  using assms(3-)
proof (induction "fetch d" v lo hi rule: search_loop.induct)
  case (1 v lo hi)
  show ?case
  proof (cases "lo < hi")
    case False
    with "1.prems" show ?thesis
      by (subst (asm) search_loop.simps) (auto simp: is_split_def)
  next
    case True
    define mid where "mid = lo + (hi - lo) div 2"
    have mid: "lo \<le> mid" "mid < hi" using True by (auto simp: mid_def)
    then have f: "fetch d mid = Ok (keys d ! mid)"
      using "1.prems" assms(1) by (intro fetch_key) simp
    show ?thesis
    proof (cases "keys d ! mid \<le> v")
      case k: True
      then have "\<forall>i < mid + 1. keys d ! i \<le> v"
        using srt [of _ mid] mid "1.prems" by (auto simp: less_Suc_eq_le intro: order_trans)
      moreover have "search_loop (fetch d) v (mid + 1) hi = Ok r"
        using "1.prems"(5) True k f by (subst (asm) search_loop.simps) (simp add: Let_def mid_def)
      ultimately show ?thesis
        using "1.hyps"(1) [OF True mid_def k] "1.prems" mid by simp
    next
      case k: False
      then have "\<forall>i. mid \<le> i \<and> i < n \<longrightarrow> v < keys d ! i"
        using srt [of mid] by (metis not_le order_less_le_trans)
      moreover have "search_loop (fetch d) v lo mid = Ok r"
        using "1.prems"(5) True k f by (subst (asm) search_loop.simps) (simp add: Let_def mid_def)
      ultimately show ?thesis
        using "1.hyps"(2) [OF True mid_def k] "1.prems" mid by simp
    qed
  qed
qed

lemma search_sorted:
  assumes "n \<le> length (keys d)" and "sorted (take n (keys d))"
  obtains r where "search_loop (fetch d) v 0 n = Ok r" "is_split (keys d) n v r"
proof -
  have srt: "keys d ! i \<le> keys d ! j" if "i \<le> j" "j < n" for i j
    using sorted_nth_mono [OF assms(2) that(1)] that assms(1) by simp
  obtain r where "search_loop (fetch d) v 0 n = Ok r"
    using search_loop_returns [OF assms(1), of 0] by auto
  moreover have "\<forall>i. n \<le> i \<and> i < n \<longrightarrow> v < keys d ! i" using leD by blast
  ultimately have "is_split (keys d) n v r"
    using search_loop_splits [OF assms(1) srt, of 0 v n r] by blast
  with \<open>search_loop (fetch d) v 0 n = Ok r\<close> show thesis by (rule that)
qed

end

end
