(* ===== verification/Fp_Utils.thy ===== *)
theory Fp_Utils
  imports Field Search
begin

text \<open>
  Field-element (de)serialisation and the record search of \<^verbatim>\<open>pir/types/src/fp_utils.rs\<close>.
  Validation accepts exactly the data whose every 32-byte chunk is canonical, after which
  no aligned read can panic; the search is the loop of \<open>Search\<close> over such reads.
\<close>

definition write_fp :: "bytes \<Rightarrow> 'p::len fp \<Rightarrow> bytes result" where
  "write_fp buf v = write_at buf 0 (to_repr v)"

definition read_fp :: "bytes \<Rightarrow> 'p::len fp result" where
  "read_fp buf =
     and_then (slice_res buf 0 32) (\<lambda>arr.
       ok_or (from_repr arr) (Panic ''read_fp: non-canonical Fp (caller must validate first)''))"

text \<open>\<open>read_fp(&data[off..off + 32])\<close>\<close>

definition read_fp_at :: "bytes \<Rightarrow> usize \<Rightarrow> 'p::len fp result" where
  "read_fp_at data off = and_then (slice_res data off 32) read_fp"

definition validate_fp_bytes :: "'p::len itself \<Rightarrow> bytes \<Rightarrow> unit result" where
  "validate_fp_bytes _ buf =
     ensure (length buf = 32) ''invalid field element byte length''
       (ensure ((from_repr buf :: 'p fp option) \<noteq> None) ''non-canonical field element encoding'' (Ok ()))"

definition validate_all_fp_chunks :: "'p::len itself \<Rightarrow> bytes \<Rightarrow> unit result" where
  "validate_all_fp_chunks P data =
     try_fold (\<lambda>chunk _. validate_fp_bytes P chunk) (chunks_exact 32 data) ()"

definition binary_search_records ::
  "bytes \<Rightarrow> usize \<Rightarrow> usize \<Rightarrow> usize \<Rightarrow> usize \<Rightarrow> 'p::len fp \<Rightarrow> usize option result" where
  "binary_search_records data base count record_size key_offset value =
     and_then (search_loop (\<lambda>mid. read_fp_at data (base + mid * record_size + key_offset)) value 0 count)
       (\<lambda>lo. Ok (if lo = 0 then None else Some (lo - 1)))"

section \<open>Reads\<close>

lemma read_fp_to_repr [simp]: "read_fp (to_repr v) = Ok v"
  by (simp add: read_fp_def slice_res_def)

lemma write_then_read:
  assumes "32 \<le> length buf"
  obtains buf' where "write_fp buf v = Ok buf'" "read_fp buf' = Ok v" "drop 32 buf' = drop 32 buf"
proof
  show "write_fp buf v = Ok (to_repr v @ drop 32 buf)"
    using assms by (simp add: write_fp_def write_at_def)
  show "read_fp (to_repr v @ drop 32 buf) = Ok v"
    using assms by (simp add: read_fp_def slice_res_def)
qed simp

lemma read_fp_at_Ok_iff:
  "read_fp_at data off = Inr v \<longleftrightarrow> off + 32 \<le> length data \<and> from_repr (take 32 (drop off data)) = Some v"
  by (auto simp: read_fp_at_def read_fp_def result_simps)

lemma read_fp_at_concat:
  "i < length vs \<Longrightarrow> length pre = off \<Longrightarrow> read_fp_at (pre @ concat (map to_repr vs) @ post) (off + i * 32) = Ok (vs ! i)"
  by (simp add: read_fp_at_def fp_codec.slice_append_concat_enc)

lemmas read_fp_at_concat0 = read_fp_at_concat [of _ _ "[]" 0 "[]", simplified]

section \<open>Validation\<close>

lemma validate_fp_bytes_Ok_iff [result_simps]:
  "validate_fp_bytes TYPE('p::len) buf = Inr u \<longleftrightarrow> length buf = 32 \<and> le_val buf < fp_modulus TYPE('p)"
  by (auto simp: validate_fp_bytes_def result_simps from_repr_def)

lemma validate_all_fp_chunks_Ok_iff:
  "validate_all_fp_chunks TYPE('p::len) data = Inr () \<longleftrightarrow>
    (\<forall>i < length data div 32. \<exists>v :: 'p fp. read_fp_at data (i * 32) = Ok v)"
proof -
  have "try_fold (\<lambda>chunk _. validate_fp_bytes TYPE('p) chunk) cs () = Inr () \<longleftrightarrow>
      (\<forall>c \<in> set cs. length c = 32 \<and> le_val c < fp_modulus TYPE('p))" for cs
    by (induction cs) (auto simp: result_simps)
  then have "validate_all_fp_chunks TYPE('p) data = Inr () \<longleftrightarrow>
      (\<forall>i < length (chunks_exact 32 data). length (chunks_exact 32 data ! i) = 32 \<and>
         le_val (chunks_exact 32 data ! i) < fp_modulus TYPE('p))"
    by (auto simp: validate_all_fp_chunks_def all_set_conv_all_nth)
  also have "\<dots> \<longleftrightarrow> (\<forall>i < length data div 32. \<exists>v :: 'p fp. read_fp_at data (i * 32) = Ok v)"
  proof (simp add: length_chunks_exact, intro all_cong1 imp_cong refl)
    fix i
    assume i: "i < length data div 32"
    then have "i * 32 + 32 \<le> length data" by linarith
    with i show "(length (chunks_exact 32 data ! i) = 32 \<and> le_val (chunks_exact 32 data ! i) < fp_modulus TYPE('p)) \<longleftrightarrow>
        (\<exists>v :: 'p fp. read_fp_at data (i * 32) = Ok v)"
      by (simp add: chunks_exact_nth read_fp_at_Ok_iff from_repr_def)
  qed
  finally show ?thesis .
qed

lemma validate_concat [codec_simps]:
  "validate_all_fp_chunks TYPE('p::len) (concat (map to_repr (vs :: 'p fp list))) = Ok ()"
  by (auto simp: validate_all_fp_chunks_Ok_iff fp_codec.length_concat_enc read_fp_at_concat0)

end
