(* ===== verification/Pir_Types.thy ===== *)
theory Pir_Types
  imports Codec
begin

text \<open>
  The shared types of \<^verbatim>\<open>pir/types/src/lib.rs\<close>: the tier-layout constants, the negotiated
  \<open>PirLayout\<close> with its validation and geometry, dataset identity, the snapshot and wire
  records, and the query payload. JSON (de)serialisation is derived by \<open>serde\<close> and not
  modelled; the two defaults it applies are. The lemmas give the exact set of supported
  layouts and the geometry of each, and show that no checked operation can overflow on
  them.
\<close>

section \<open>Layout\<close>

definition PIR_DEPTH :: usize where
  "PIR_DEPTH = 19"

definition MAX_PIR_DEPTH :: usize where
  "MAX_PIR_DEPTH = 29"

definition MAX_TIER0_LAYERS :: usize where
  "MAX_TIER0_LAYERS = 16"

definition MAX_TIER1_LAYERS :: usize where
  "MAX_TIER1_LAYERS = 15"

definition TIER0_LAYERS :: usize where
  "TIER0_LAYERS = 12"

definition TIER1_LAYERS :: usize where
  "TIER1_LAYERS = 7"

definition YPIR_MIN_ROWS :: usize where
  "YPIR_MIN_ROWS = 2048"

definition YPIR_MIN_ITEM_BITS :: usize where
  "YPIR_MIN_ITEM_BITS = 28672"

definition TIER1_LEAF_BYTES :: usize where
  "TIER1_LEAF_BYTES = 96"

definition DEFAULT_YPIR_POLY_LEN :: usize where
  "DEFAULT_YPIR_POLY_LEN = 4096"

lemmas layout_consts = PIR_DEPTH_def MAX_PIR_DEPTH_def MAX_TIER0_LAYERS_def MAX_TIER1_LAYERS_def
  TIER0_LAYERS_def TIER1_LAYERS_def YPIR_MIN_ROWS_def YPIR_MIN_ITEM_BITS_def TIER1_LEAF_BYTES_def
  DEFAULT_YPIR_POLY_LEN_def

record PirLayout =
  pir_depth :: usize
  tier0_layers :: usize
  tier1_layers :: usize
  poly_len :: usize

definition COMPILED_PIR_LAYOUT :: PirLayout where
  "COMPILED_PIR_LAYOUT =
     \<lparr>pir_depth = PIR_DEPTH, tier0_layers = TIER0_LAYERS, tier1_layers = TIER1_LAYERS,
      poly_len = DEFAULT_YPIR_POLY_LEN\<rparr>"

definition validate_split :: "PirLayout \<Rightarrow> unit result" where
  "validate_split self =
     (if tier0_layers self = 0 \<or> tier1_layers self = 0
      then Bail ''PIR layout tiers must be non-zero''
      else
        and_then (ok_or (checked_add (tier0_layers self) (tier1_layers self))
                   (Error ''PIR layout tier split overflows'')) (\<lambda>split.
        if pir_depth self \<noteq> split then Bail ''PIR layout is inconsistent'' else Ok ()))"

text \<open>\<open>u32::try_from\<close> on a \<open>usize\<close> followed by \<open>1usize.checked_shl\<close>.\<close>

definition shift_one :: "usize \<Rightarrow> string \<Rightarrow> string \<Rightarrow> usize result" where
  "shift_one n m1 m2 =
     (if n < 2 ^ 32 then ok_or (checked_shl_one n) (Error m2) else Bail m1)"

definition tier1_rows :: "PirLayout \<Rightarrow> usize result" where
  "tier1_rows self =
     and_then (validate_split self) (\<lambda>_.
       shift_one (tier0_layers self) ''PIR layout tier0_layers does not fit a shift count''
         ''PIR layout tier0_layers exceeds platform geometry'')"

definition tier1_leaves :: "PirLayout \<Rightarrow> usize result" where
  "tier1_leaves self =
     and_then (validate_split self) (\<lambda>_.
       shift_one (tier1_layers self) ''PIR layout tier1_layers does not fit a shift count''
         ''PIR layout tier1_layers exceeds platform geometry'')"

definition tier1_row_bytes :: "PirLayout \<Rightarrow> usize result" where
  "tier1_row_bytes self =
     and_then (tier1_leaves self) (\<lambda>leaves.
       ok_or (checked_mul leaves TIER1_LEAF_BYTES) (Error ''PIR layout Tier 1 row width overflows''))"

definition tier1_item_bits :: "PirLayout \<Rightarrow> usize result" where
  "tier1_item_bits self =
     and_then (tier1_row_bytes self) (\<lambda>row_bytes.
       ok_or (checked_mul row_bytes 8) (Error ''PIR layout Tier 1 item bits overflow''))"

definition tier0_internal_nodes :: "PirLayout \<Rightarrow> usize result" where
  "tier0_internal_nodes self =
     and_then (tier1_rows self) (\<lambda>rows.
       ok_or (checked_sub rows 1) (Error ''PIR layout tier0_layers must be >= 1''))"

definition tier0_bytes :: "PirLayout \<Rightarrow> usize result" where
  "tier0_bytes self =
     and_then (tier0_internal_nodes self) (\<lambda>internal.
     and_then (tier1_rows self) (\<lambda>rows.
       ok_or (Option.bind (checked_mul internal 32) (\<lambda>n.
                Option.bind (checked_mul rows 64) (\<lambda>m. checked_add n m)))
         (Error ''PIR layout Tier 0 size overflows'')))"

definition validate_ypir_bounds :: "PirLayout \<Rightarrow> unit result" where
  "validate_ypir_bounds self =
     and_then (tier1_rows self) (\<lambda>rows.
     and_then (tier1_item_bits self) (\<lambda>bits.
       if rows < YPIR_MIN_ROWS then Bail ''PIR layout Tier 1 rows below YPIR minimum''
       else if bits < YPIR_MIN_ITEM_BITS then Bail ''PIR layout Tier 1 item bits below YPIR minimum''
       else Ok ()))"

definition validate_supported :: "PirLayout \<Rightarrow> unit result" where
  "validate_supported self =
     and_then (validate_split self) (\<lambda>_.
       if \<not> (1 \<le> pir_depth self \<and> pir_depth self \<le> MAX_PIR_DEPTH)
       then Bail ''unsupported PIR layout depth''
       else if tier0_layers self > MAX_TIER0_LAYERS then Bail ''PIR layout Tier 0 layers exceeds maximum''
       else if tier1_layers self > MAX_TIER1_LAYERS then Bail ''PIR layout Tier 1 layers exceeds maximum''
       else if \<not> (poly_len self = 2048 \<or> poly_len self = 4096)
       then Bail ''unsupported PIR layout poly_len''
       else validate_ypir_bounds self)"

definition TIER1_ROWS :: usize where
  "TIER1_ROWS = 2 ^ TIER0_LAYERS"

definition TIER1_LEAVES :: usize where
  "TIER1_LEAVES = 2 ^ TIER1_LAYERS"

definition TIER1_ROW_BYTES :: usize where
  "TIER1_ROW_BYTES = TIER1_LEAVES * TIER1_LEAF_BYTES"

definition TIER1_ITEM_BITS :: usize where
  "TIER1_ITEM_BITS = TIER1_ROW_BYTES * 8"

section \<open>Dataset identity, metadata and wire types\<close>

definition NULLIFIER_POOL :: string where
  "NULLIFIER_POOL = ''ironwood''"

definition DATASET_VERSION :: u32 where
  "DATASET_VERSION = 2"

datatype ZcashNetwork = Main | Test

fun as_str :: "ZcashNetwork \<Rightarrow> string" where
  "as_str Main = ''main''"
| "as_str Test = ''test''"

definition network_from_str :: "string \<Rightarrow> ZcashNetwork result" where
  "network_from_str value =
     (if value = ''main'' then Ok Main
      else if value = ''test'' then Ok Test
      else Bail ''unsupported Zcash network; expected main or test'')"

definition is_current_dataset :: "string \<Rightarrow> u32 \<Rightarrow> bool" where
  "is_current_dataset pool version \<longleftrightarrow> pool = NULLIFIER_POOL \<and> version = DATASET_VERSION"

record PirMetadata =
  md_zcash_network :: ZcashNetwork
  md_nullifier_pool :: string
  md_dataset_version :: u32
  md_pir_root :: string
  md_circuit_root :: string
  md_num_ranges :: usize
  md_pir_depth :: usize
  md_pir_layout :: PirLayout
  md_tier0_bytes :: usize
  md_tier1_rows :: usize
  md_tier1_row_bytes :: usize
  md_height :: "u64 option"

text \<open>The layout of a snapshot's metadata: \<open>poly_len\<close> may be missing there.\<close>

definition default_snapshot_poly_len :: usize where
  "default_snapshot_poly_len = DEFAULT_YPIR_POLY_LEN"

definition deserialize_snapshot_pir_layout ::
  "usize \<Rightarrow> usize \<Rightarrow> usize \<Rightarrow> usize option \<Rightarrow> PirLayout" where
  "deserialize_snapshot_pir_layout depth t0 t1 poly =
     \<lparr>pir_depth = depth, tier0_layers = t0, tier1_layers = t1,
      poly_len = (case poly of None \<Rightarrow> default_snapshot_poly_len | Some p \<Rightarrow> p)\<rparr>"

record YpirScenario =
  num_items :: usize
  item_size_bits :: usize
  scn_poly_len :: usize

definition legacy_ypir_poly_len :: usize where
  "legacy_ypir_poly_len = 2048"

definition deserialize_ypir_scenario :: "usize \<Rightarrow> usize \<Rightarrow> usize option \<Rightarrow> YpirScenario" where
  "deserialize_ypir_scenario items bits poly =
     \<lparr>num_items = items, item_size_bits = bits,
      scn_poly_len = (case poly of None \<Rightarrow> legacy_ypir_poly_len | Some p \<Rightarrow> p)\<rparr>"

record RootInfo =
  ri_zcash_network :: ZcashNetwork
  ri_nullifier_pool :: string
  ri_dataset_version :: u32
  ri_circuit_root :: string
  ri_pir_root :: string
  ri_num_ranges :: usize
  ri_pir_layout :: PirLayout
  ri_pir_depth :: usize
  ri_tier1_rows :: usize
  ri_tier1_row_bytes :: usize
  ri_height :: "u64 option"

record HealthInfo =
  hi_status :: string
  hi_tier1_rows :: usize
  hi_tier1_row_bytes :: usize

definition U64_BYTES :: usize where
  "U64_BYTES = 8"

definition serialize_ypir_query :: "u64 list \<Rightarrow> u64 list \<Rightarrow> bytes" where
  "serialize_ypir_query pqr pub_params =
     (let pqr_byte_len = length pqr * U64_BYTES
      in u64_to_le (word_of_nat pqr_byte_len) @ concat (map u64_to_le pqr) @ concat (map u64_to_le pub_params))"

section \<open>Supported layouts\<close>

lemma validate_split_Ok_iff [result_simps]:
  "validate_split L = Inr u \<longleftrightarrow>
     tier0_layers L \<noteq> 0 \<and> tier1_layers L \<noteq> 0 \<and> tier0_layers L + tier1_layers L < 2 ^ USIZE_BITS \<and>
     pir_depth L = tier0_layers L + tier1_layers L"
  by (auto simp: validate_split_def result_simps)

lemma shift_one_Ok_iff [result_simps]: "shift_one n a b = Inr m \<longleftrightarrow> n < USIZE_BITS \<and> m = 2 ^ n"
  by (auto simp: shift_one_def result_simps USIZE_BITS_def)

text \<open>
  The exact set of layouts the protocol supports. The lower bounds come from the YPIR
  minima: at least \<open>2 ^ 11\<close> rows and at least \<open>2 ^ 6\<close> leaves of 96 bytes per row.
\<close>

definition supported :: "PirLayout \<Rightarrow> bool" where
  "supported L \<longleftrightarrow>
     pir_depth L = tier0_layers L + tier1_layers L \<and> pir_depth L \<le> 29 \<and>
     11 \<le> tier0_layers L \<and> tier0_layers L \<le> 16 \<and>
     6 \<le> tier1_layers L \<and> tier1_layers L \<le> 15 \<and>
     (poly_len L = 2048 \<or> poly_len L = 4096)"

lemma geometry:
  assumes "pir_depth L = tier0_layers L + tier1_layers L"
    and "0 < tier0_layers L" "tier0_layers L \<le> 16" "0 < tier1_layers L" "tier1_layers L \<le> 15"
  shows "validate_split L = Ok ()"
    and "tier1_rows L = Ok (2 ^ tier0_layers L)"
    and "tier1_leaves L = Ok (2 ^ tier1_layers L)"
    and "tier1_row_bytes L = Ok (2 ^ tier1_layers L * 96)"
    and "tier1_item_bits L = Ok (2 ^ tier1_layers L * 768)"
    and "tier0_internal_nodes L = Ok (2 ^ tier0_layers L - 1)"
    and "tier0_bytes L = Ok ((2 ^ tier0_layers L - 1) * 32 + 2 ^ tier0_layers L * 64)"
proof -
  have b0: "(2::nat) ^ tier0_layers L \<le> 2 ^ 16" and b1: "(2::nat) ^ tier1_layers L \<le> 2 ^ 15"
    using assms by (intro power_increasing; simp)+
  show split: "validate_split L = Ok ()"
    using assms by (simp add: validate_split_def checked_add_def USIZE_BITS_def)
  show rows: "tier1_rows L = Ok (2 ^ tier0_layers L)"
    using assms by (simp add: tier1_rows_def split shift_one_def checked_shl_one_def USIZE_BITS_def)
  show leaves: "tier1_leaves L = Ok (2 ^ tier1_layers L)"
    using assms by (simp add: tier1_leaves_def split shift_one_def checked_shl_one_def USIZE_BITS_def)
  show rb: "tier1_row_bytes L = Ok (2 ^ tier1_layers L * 96)"
    using b1 by (simp add: tier1_row_bytes_def leaves checked_mul_def USIZE_BITS_def TIER1_LEAF_BYTES_def)
  show "tier1_item_bits L = Ok (2 ^ tier1_layers L * 768)"
    using b1 by (simp add: tier1_item_bits_def rb checked_mul_def USIZE_BITS_def)
  show int: "tier0_internal_nodes L = Ok (2 ^ tier0_layers L - 1)"
    by (simp add: tier0_internal_nodes_def rows checked_sub_def)
  show "tier0_bytes L = Ok ((2 ^ tier0_layers L - 1) * 32 + 2 ^ tier0_layers L * 64)"
    using b0 by (simp add: tier0_bytes_def rows int checked_mul_def checked_add_def USIZE_BITS_def)
qed

lemma two_power_ge_iff: "(2::nat) ^ k \<le> 2 ^ n \<longleftrightarrow> k \<le> n"
  by simp

lemma rows_minimum_iff: "2048 \<le> (2::nat) ^ n \<longleftrightarrow> 11 \<le> n"
  using two_power_ge_iff [of 11 n] by simp

lemma item_bits_minimum_iff: "28672 \<le> (2::nat) ^ n * 768 \<longleftrightarrow> 6 \<le> n"
proof
  assume l: "28672 \<le> (2::nat) ^ n * 768"
  show "6 \<le> n"
  proof (rule ccontr)
    assume "\<not> 6 \<le> n"
    then have "(2::nat) ^ n \<le> 2 ^ 5" by (intro power_increasing) auto
    with l show False by simp
  qed
next
  assume "6 \<le> n"
  then have "(2::nat) ^ 6 \<le> 2 ^ n" by (intro power_increasing) auto
  then show "28672 \<le> (2::nat) ^ n * 768" by simp
qed

lemma validate_supported_iff: "validate_supported L = Inr () \<longleftrightarrow> supported L"
proof (cases "pir_depth L = tier0_layers L + tier1_layers L \<and> 0 < tier0_layers L \<and>
    tier0_layers L \<le> 16 \<and> 0 < tier1_layers L \<and> tier1_layers L \<le> 15")
  case True
  then have *: "pir_depth L = tier0_layers L + tier1_layers L" "0 < tier0_layers L"
    "tier0_layers L \<le> 16" "0 < tier1_layers L" "tier1_layers L \<le> 15"
    by auto
  have "validate_ypir_bounds L = Inr () \<longleftrightarrow> 11 \<le> tier0_layers L \<and> 6 \<le> tier1_layers L"
    using rows_minimum_iff [of "tier0_layers L"] item_bits_minimum_iff [of "tier1_layers L"]
    by (auto simp: validate_ypir_bounds_def geometry [OF *] YPIR_MIN_ROWS_def YPIR_MIN_ITEM_BITS_def
        linorder_not_less [symmetric])
  with * show ?thesis
    by (auto simp: validate_supported_def geometry [OF *] supported_def layout_consts)
next
  case False
  have "validate_supported L \<noteq> Inr ()"
  proof
    assume "validate_supported L = Inr ()"
    with False show False
      by (auto simp: validate_supported_def result_simps layout_consts split: if_splits)
  qed
  moreover from False have "\<not> supported L"
    by (auto simp: supported_def)
  ultimately show ?thesis by blast
qed

lemma supported_geometry [layout_simps]:
  assumes "supported L"
  shows "validate_split L = Ok ()"
    and "tier1_rows L = Ok (2 ^ tier0_layers L)"
    and "tier1_leaves L = Ok (2 ^ tier1_layers L)"
    and "tier1_row_bytes L = Ok (2 ^ tier1_layers L * 96)"
    and "tier1_item_bits L = Ok (2 ^ tier1_layers L * 768)"
    and "tier0_internal_nodes L = Ok (2 ^ tier0_layers L - 1)"
    and "tier0_bytes L = Ok ((2 ^ tier0_layers L - 1) * 32 + 2 ^ tier0_layers L * 64)"
  using assms unfolding supported_def by (intro geometry; linarith)+

lemma supported_compiled: "supported COMPILED_PIR_LAYOUT"
  by (simp add: supported_def COMPILED_PIR_LAYOUT_def layout_consts)

lemma network_from_as_str: "network_from_str (as_str n) = Ok n"
  by (cases n) (auto simp: network_from_str_def)

lemma network_from_str_Ok_iff: "network_from_str s = Ok n \<longleftrightarrow> s = as_str n"
  by (cases n) (auto simp: network_from_str_def)

interpretation u64_codec: fixed_codec 8 u64_to_le "\<lambda>bs. if length bs = 8 then Some (u64_from_le bs) else None"
  by unfold_locales (auto simp: u64_to_from)

interpretation u32_codec: fixed_codec 4 u32_to_le "\<lambda>bs. if length bs = 4 then Some (u32_from_le bs) else None"
  by unfold_locales (auto simp: u32_to_from)

lemma length_serialize_ypir_query:
  "length (serialize_ypir_query pqr pp) = 8 + 8 * length pqr + 8 * length pp"
  by (simp add: serialize_ypir_query_def Let_def u64_codec.length_concat_enc)

end
