(* ===== verification/Tier0.thy ===== *)
theory Tier0
  imports Fp_Utils Pir_Types Merkle
begin

text \<open>
  The reader of the public tier, \<^verbatim>\<open>pir/types/src/tier0.rs\<close>. A blob is a breadth-first array
  of internal nodes followed by one (hash, minimum key) record per subtree. The lemmas
  show that a blob accepted by \<open>from_layout\<close> can be read everywhere without a panic, and
  that on the encoding of a tree's upper layers the accessors return the tree's nodes, the
  search the subtree whose key range holds the value, and \<open>extract_siblings\<close> the sibling
  path above that subtree.
\<close>

definition TIER0_INTERNAL_NODES :: usize where
  "TIER0_INTERNAL_NODES = 2 ^ TIER0_LAYERS - 1"

definition TIER0_BYTES :: usize where
  "TIER0_BYTES = TIER0_INTERNAL_NODES * 32 + TIER1_ROWS * 64"

record Tier0Data =
  t0_data :: bytes
  t0_layers :: usize
  num_subtrees :: usize
  internal_nodes :: usize

definition tier0_from_layout :: "'p::len itself \<Rightarrow> bytes \<Rightarrow> PirLayout \<Rightarrow> Tier0Data result" where
  "tier0_from_layout P data layout =
     and_then (validate_split layout) (\<lambda>_.
     and_then (tier1_rows layout) (\<lambda>n_subtrees.
     and_then (tier0_internal_nodes layout) (\<lambda>n_internal.
     and_then (tier0_bytes layout) (\<lambda>expected.
     ensure (length data = expected) ''Tier 0 data size mismatch''
       (and_then (validate_all_fp_chunks P data) (\<lambda>_.
        Ok \<lparr>t0_data = data, t0_layers = tier0_layers layout,
            num_subtrees = n_subtrees, internal_nodes = n_internal\<rparr>))))))"

definition tier0_from_bytes :: "'p::len itself \<Rightarrow> bytes \<Rightarrow> Tier0Data result" where
  "tier0_from_bytes P data = tier0_from_layout P data COMPILED_PIR_LAYOUT"

definition tier0_root :: "Tier0Data \<Rightarrow> 'p::len fp result" where
  "tier0_root self = read_fp_at (t0_data self) 0"

definition node_at :: "Tier0Data \<Rightarrow> usize \<Rightarrow> usize \<Rightarrow> 'p::len fp result" where
  "node_at self depth index =
     (let bfs_pos = 2 ^ depth - 1 + index; offset = bfs_pos * 32
      in read_fp_at (t0_data self) offset)"

definition subtree_record :: "Tier0Data \<Rightarrow> usize \<Rightarrow> ('p::len fp \<times> 'p fp) result" where
  "subtree_record self index =
     (let base = internal_nodes self * 32 + index * 64
      in and_then (read_fp_at (t0_data self) base) (\<lambda>hsh.
         and_then (read_fp_at (t0_data self) (base + 32)) (\<lambda>min_key.
         Ok (hsh, min_key))))"

definition find_subtree :: "Tier0Data \<Rightarrow> 'p::len fp \<Rightarrow> usize option result" where
  "find_subtree self value =
     (let base = internal_nodes self * 32
      in binary_search_records (t0_data self) base (num_subtrees self) 64 32 value)"

definition tier0_sibling_step ::
  "Tier0Data \<Rightarrow> usize \<Rightarrow> usize \<times> 'p::len fp list \<Rightarrow> (usize \<times> 'p fp list) result" where
  "tier0_sibling_step self d st =
     (let (pos, siblings) = st;
          pos = pos div 2;
          sibling_pos = pos XOR 1
      in and_then (node_at self d sibling_pos) (\<lambda>n. Ok (pos, siblings @ [n])))"

definition tier0_extract_siblings :: "Tier0Data \<Rightarrow> usize \<Rightarrow> 'p::len fp list result" where
  "tier0_extract_siblings self subtree_idx =
     (let sibling = subtree_idx XOR 1
      in and_then (subtree_record self sibling) (\<lambda>(hsh, _).
         and_then (try_fold (tier0_sibling_step self) (rev [1..<t0_layers self]) (subtree_idx, [hsh]))
           (\<lambda>(_, siblings). Ok siblings)))"

section \<open>Accepted blobs\<close>

lemma tier0_from_layout_Ok_iff:
  assumes "supported L"
  shows "tier0_from_layout TYPE('p::len) data L = Inr t \<longleftrightarrow>
    length data = (2 ^ tier0_layers L - 1) * 32 + 2 ^ tier0_layers L * 64 \<and>
    (\<forall>i < length data div 32. \<exists>v :: 'p fp. read_fp_at data (i * 32) = Ok v) \<and>
    t = \<lparr>t0_data = data, t0_layers = tier0_layers L, num_subtrees = 2 ^ tier0_layers L,
         internal_nodes = 2 ^ tier0_layers L - 1\<rparr>"
  by (auto simp: tier0_from_layout_def supported_geometry [OF assms] result_simps
      validate_all_fp_chunks_Ok_iff)

lemma tier0_reads_ok:
  assumes "supported L" and "tier0_from_layout TYPE('p::len) data L = Inr t"
  shows "d < tier0_layers L \<Longrightarrow> i < 2 ^ d \<Longrightarrow> is_ok (node_at t d i :: 'p fp result)"
    and "i < 2 ^ tier0_layers L \<Longrightarrow> is_ok (subtree_record t i :: ('p fp \<times> 'p fp) result)"
proof -
  let ?n = "2 ^ tier0_layers L :: nat"
  from assms have len: "length data = (?n - 1) * 32 + ?n * 64"
    and rd: "\<And>i. i < length data div 32 \<Longrightarrow> \<exists>v :: 'p fp. read_fp_at data (i * 32) = Ok v"
    and t: "t = \<lparr>t0_data = data, t0_layers = tier0_layers L, num_subtrees = ?n, internal_nodes = ?n - 1\<rparr>"
    by (auto simp: tier0_from_layout_Ok_iff)
  have chunks: "length data div 32 = ?n - 1 + 2 * ?n"
    using len by simp
  show "is_ok (node_at t d i :: 'p fp result)" if "d < tier0_layers L" "i < 2 ^ d"
  proof -
    have "(2::nat) ^ d < ?n" using that by simp
    then have "2 ^ d - 1 + i < length data div 32"
      using that chunks by linarith
    from rd [OF this] show ?thesis
      by (auto simp: node_at_def t Let_def)
  qed
  show "is_ok (subtree_record t i :: ('p fp \<times> 'p fp) result)" if "i < ?n"
  proof -
    have e: "m * 32 + i * 64 = (m + 2 * i) * 32" "(m + 2 * i) * 32 + 32 = (m + 2 * i + 1) * 32" for m
      by simp_all
    have "?n - 1 + 2 * i < length data div 32" "?n - 1 + 2 * i + 1 < length data div 32"
      using that chunks by linarith+
    from rd [OF this(1)] rd [OF this(2)] show ?thesis
      unfolding subtree_record_def t Let_def by (auto simp only: e [of "?n - 1"] Tier0Data.simps and_then.simps is_ok_simps)
  qed
qed

section \<open>Blobs that encode a tree\<close>

text \<open>The breadth-first array of the nodes \<open>N d i\<close> with \<open>d < n\<close>, \<open>i < 2 ^ d\<close>.\<close>

primrec bfs_nodes :: "(nat \<Rightarrow> nat \<Rightarrow> 'a) \<Rightarrow> nat \<Rightarrow> 'a list" where
  "bfs_nodes N 0 = []"
| "bfs_nodes N (Suc n) = bfs_nodes N n @ map (N n) [0..<2 ^ n]"

lemma length_bfs_nodes [simp]: "length (bfs_nodes N n) = 2 ^ n - 1"
  by (induction n) (auto simp: algebra_simps)

lemma bfs_nodes_nth: "d < n \<Longrightarrow> i < 2 ^ d \<Longrightarrow> bfs_nodes N n ! (2 ^ d + i - Suc 0) = N d i"
proof (induction n)
  case 0
  then show ?case by simp
next
  case (Suc n)
  show ?case
  proof (cases "d = n")
    case True
    have "\<not> 2 ^ n + i - Suc 0 < 2 ^ n - Suc 0" "2 ^ n + i - Suc 0 - (2 ^ n - Suc 0) = i"
      using one_le_power [of "2::nat" n] by linarith+
    with True Suc.prems show ?thesis by (simp add: nth_append)
  next
    case False
    with Suc.prems have d: "d < n" by simp
    then have "(2::nat) ^ Suc d \<le> 2 ^ n"
      by (intro power_increasing) auto
    with Suc.prems one_le_power [of "2::nat" d] have "2 ^ d + i - Suc 0 < 2 ^ n - Suc 0"
      by simp
    with Suc d show ?thesis by (simp add: nth_append)
  qed
qed

definition pair_list :: "('a \<times> 'a) list \<Rightarrow> 'a list" where
  "pair_list rs = concat (map (\<lambda>(h, k). [h, k]) rs)"

lemma length_pair_list [simp]: "length (pair_list rs) = 2 * length rs"
  unfolding pair_list_def by (subst concat_uniform_length [of _ 2]) auto

lemma pair_list_nth:
  "i < length rs \<Longrightarrow> pair_list rs ! (2 * i) = fst (rs ! i)"
  "i < length rs \<Longrightarrow> pair_list rs ! (2 * i + 1) = snd (rs ! i)"
proof -
  assume i: "i < length rs"
  have len: "length c = 2" if "c \<in> set (map (\<lambda>(h, k). [h, k]) rs)" for c
    using that by auto
  show "pair_list rs ! (2 * i) = fst (rs ! i)"
    unfolding pair_list_def using i concat_uniform_nth [OF len, of "map (\<lambda>(h, k). [h, k]) rs" i 0]
    by (cases "rs ! i") simp
  show "pair_list rs ! (2 * i + 1) = snd (rs ! i)"
    unfolding pair_list_def using i concat_uniform_nth [OF len, of "map (\<lambda>(h, k). [h, k]) rs" i 1]
    by (cases "rs ! i") simp
qed

definition tier0_blob :: "'p::len fp list \<Rightarrow> ('p fp \<times> 'p fp) list \<Rightarrow> bytes" where
  "tier0_blob internal recs = concat (map to_repr (internal @ pair_list recs))"

lemma length_tier0_blob: "length (tier0_blob internal recs) = 32 * length internal + 64 * length recs"
  by (simp add: tier0_blob_def fp_codec.length_concat_enc algebra_simps del: map_append)

lemma tier0_blob_record:
  assumes "i < length recs"
  shows "read_fp_at (tier0_blob internal recs) (length internal * 32 + i * 64) = Ok (fst (recs ! i))"
    and "read_fp_at (tier0_blob internal recs) (length internal * 32 + i * 64 + 32) = Ok (snd (recs ! i))"
proof -
  let ?vs = "internal @ pair_list recs"
  have "read_fp_at (tier0_blob internal recs) ((length internal + 2 * i) * 32) = Ok (?vs ! (length internal + 2 * i))"
    "read_fp_at (tier0_blob internal recs) ((length internal + (2 * i + 1)) * 32) = Ok (?vs ! (length internal + (2 * i + 1)))"
    unfolding tier0_blob_def using assms by (intro read_fp_at_concat0; simp)+
  moreover have "?vs ! (length internal + 2 * i) = fst (recs ! i)"
    "?vs ! (length internal + (2 * i + 1)) = snd (recs ! i)"
    using pair_list_nth [OF assms] by (simp_all only: nth_append_length_plus)
  moreover have "(length internal + 2 * i) * 32 = length internal * 32 + i * 64"
    "(length internal + (2 * i + 1)) * 32 = length internal * 32 + i * 64 + 32" by simp_all
  ultimately
  show "read_fp_at (tier0_blob internal recs) (length internal * 32 + i * 64) = Ok (fst (recs ! i))"
    and "read_fp_at (tier0_blob internal recs) (length internal * 32 + i * 64 + 32) = Ok (snd (recs ! i))"
    by (simp_all only:)
qed

interpretation tier0_keys: keyed_records
  "\<lambda>(internal, recs) mid. read_fp_at (tier0_blob internal recs) (length internal * 32 + mid * 64 + 32)"
  "\<lambda>(internal :: 'p::len fp list, recs). map snd recs"
  by unfold_locales (auto simp: tier0_blob_record)

definition tier0_parsed :: "nat \<Rightarrow> (nat \<Rightarrow> nat \<Rightarrow> 'p::len fp) \<Rightarrow> (nat \<Rightarrow> 'p fp) \<Rightarrow> Tier0Data" where
  "tier0_parsed layers N key =
     \<lparr>t0_data = tier0_blob (bfs_nodes N layers) (map (\<lambda>i. (N layers i, key i)) [0..<2 ^ layers]),
      t0_layers = layers, num_subtrees = 2 ^ layers, internal_nodes = 2 ^ layers - 1\<rparr>"

lemma tier0_from_layout_blob:
  assumes "supported L"
  shows "tier0_from_layout TYPE('p::len)
      (tier0_blob (bfs_nodes N (tier0_layers L)) (map (\<lambda>i. (N (tier0_layers L) i, key i)) [0..<2 ^ tier0_layers L])) L =
    Ok (tier0_parsed (tier0_layers L) (N :: nat \<Rightarrow> nat \<Rightarrow> 'p fp) key)"
proof -
  have "validate_all_fp_chunks TYPE('p) (tier0_blob internal recs) = Ok ()" for internal :: "'p fp list" and recs
    unfolding tier0_blob_def by (rule validate_concat)
  then show ?thesis
    by (simp add: tier0_from_layout_def supported_geometry [OF assms] length_tier0_blob tier0_parsed_def)
qed

lemma node_at_parsed:
  assumes "d < layers" "i < 2 ^ d"
  shows "node_at (tier0_parsed layers N key) d i = Ok (N d i)"
proof -
  have "(2::nat) ^ d < 2 ^ layers" using assms by simp
  then have "2 ^ d - 1 + i < 2 ^ layers - (1::nat)"
    using assms power_increasing [of "Suc d" layers "2::nat"] by simp
  then show ?thesis
    using assms bfs_nodes_nth [OF assms, of N] unfolding node_at_def tier0_parsed_def tier0_blob_def Let_def
    by (simp add: read_fp_at_concat0 nth_append del: map_append concat_append)
qed

lemma tier0_root_parsed: "0 < layers \<Longrightarrow> tier0_root (tier0_parsed layers N key) = Ok (N 0 0)"
  using node_at_parsed [of 0 layers 0 N key] by (simp add: tier0_root_def node_at_def Let_def)

lemma subtree_record_parsed:
  "i < 2 ^ layers \<Longrightarrow> subtree_record (tier0_parsed layers N key) i = Ok (N layers i, key i)"
  using tier0_blob_record [of i "map (\<lambda>i. (N layers i, key i)) [0..<2 ^ layers]" "bfs_nodes N layers"]
  by (simp add: subtree_record_def tier0_parsed_def Let_def)

text \<open>The search finds the last subtree whose minimum key does not exceed the value.\<close>

lemma find_subtree_parsed:
  assumes "\<And>i j. i \<le> j \<Longrightarrow> j < 2 ^ layers \<Longrightarrow> key i \<le> key j"
  obtains r where "find_subtree (tier0_parsed layers N key) v = Ok (if r = 0 then None else Some (r - 1))"
    and "is_split (map key [0..<2 ^ layers]) (2 ^ layers) v r"
proof -
  let ?d = "(bfs_nodes N layers, map (\<lambda>i. (N layers i, key i)) [0..<2 ^ layers])"
  have "sorted (map key [0..<2 ^ layers])"
    using assms by (simp add: sorted_iff_nth_mono)
  then obtain r where "search_loop ((\<lambda>(internal, recs) mid.
        read_fp_at (tier0_blob internal recs) (length internal * 32 + mid * 64 + 32)) ?d) v 0 (2 ^ layers) = Ok r"
      and "is_split (map key [0..<2 ^ layers]) (2 ^ layers) v r"
    using tier0_keys.search_sorted [of "2 ^ layers" ?d v] by (auto simp: comp_def)
  with that show thesis
    by (simp add: find_subtree_def tier0_parsed_def Let_def binary_search_records_def)
qed

lemma tier0_sibling_loop:
  assumes "i < 2 ^ layers" and "k < layers"
  shows "try_fold (tier0_sibling_step (tier0_parsed layers N key)) (rev [layers - k..<layers]) (i, ss) =
    Ok (i div 2 ^ k, ss @ map (\<lambda>l. N (layers - Suc l) ((i div 2 ^ Suc l) XOR 1)) [0..<k])"
  using assms(2)
proof (induction k)
  case 0
  then show ?case by simp
next
  case (Suc k)
  let ?d = "layers - Suc k"
  have r: "rev [?d..<layers] = rev [layers - k..<layers] @ [?d]"
    using Suc.prems by (simp add: upt_conv_Cons Suc_diff_Suc)
  have e: "i div 2 ^ k div 2 = i div 2 ^ Suc k"
    by (metis div_mult2_eq power_Suc2)
  have "layers = ?d + Suc k" using Suc.prems by simp
  then have "i < 2 ^ ?d * 2 ^ Suc k" using assms by (metis power_add)
  then have "i div 2 ^ Suc k < 2 ^ ?d"
    by (rule less_mult_imp_div_less)
  then have "(i div 2 ^ Suc k) XOR 1 < 2 ^ ?d"
    using Suc.prems by (intro xor_one_less_two_power) simp_all
  then have n: "node_at (tier0_parsed layers N key) ?d ((i div 2 ^ Suc k) XOR 1) = Ok (N ?d ((i div 2 ^ Suc k) XOR 1))"
    using Suc.prems by (intro node_at_parsed) simp_all
  then have step: "tier0_sibling_step (tier0_parsed layers N key) ?d (i div 2 ^ k, ss') =
      Ok (i div 2 ^ Suc k, ss' @ [N ?d ((i div 2 ^ Suc k) XOR 1)])" for ss'
    by (simp add: tier0_sibling_step_def Let_def e del: power_Suc)
  show ?case
    using Suc step unfolding r try_fold_append by simp
qed

lemma tier0_extract_siblings_parsed:
  assumes "i < 2 ^ layers" "0 < layers"
  shows "tier0_extract_siblings (tier0_parsed layers N key) i =
    Ok (map (\<lambda>l. N (layers - l) ((i div 2 ^ l) XOR 1)) [0..<layers])"
proof -
  have "layers - (layers - 1) = 1" using assms by simp
  then have "try_fold (tier0_sibling_step (tier0_parsed layers N key)) (rev [1..<layers]) (i, ss) =
    Ok (i div 2 ^ (layers - 1), ss @ map (\<lambda>l. N (layers - Suc l) ((i div 2 ^ Suc l) XOR 1)) [0..<layers - 1])" for ss
    using tier0_sibling_loop [OF assms(1), of "layers - 1" N key ss] assms by simp
  moreover have "t0_layers (tier0_parsed layers N key) = layers"
    by (simp add: tier0_parsed_def)
  moreover have "subtree_record (tier0_parsed layers N key) (i XOR 1) = Ok (N layers (i XOR 1), key (i XOR 1))"
    using assms by (intro subtree_record_parsed xor_one_less_two_power)
  moreover have "[0..<layers] = 0 # map Suc [0..<layers - 1]"
    using assms by (simp add: map_Suc_upt upt_conv_Cons)
  ultimately show ?thesis
    by (simp add: tier0_extract_siblings_def Let_def comp_def del: power_Suc)
qed

end
