(* ===== verification/Tier1.thy ===== *)
theory Tier1
  imports Fp_Utils Pir_Types Imt_Tree
begin

text \<open>
  The reader of one private row, \<^verbatim>\<open>pir/types/src/tier1.rs\<close>. A row is an array of punctured
  ranges; the client searches it for the range that covers the value and rebuilds the
  subtree to obtain the lower part of the sibling path. The lemmas show that an accepted
  row is read without a panic, that \<open>find_leaf\<close> returns an index exactly when one of the
  valid leaves covers the value, and that the rebuilt siblings are those of the tree.
\<close>

record Tier1Row =
  t1_data :: bytes
  t1_leaves :: usize
  t1_layers :: usize

definition tier1_from_layout :: "'p::len itself \<Rightarrow> bytes \<Rightarrow> PirLayout \<Rightarrow> Tier1Row result" where
  "tier1_from_layout P data layout =
     and_then (validate_split layout) (\<lambda>_.
     and_then (tier1_leaves layout) (\<lambda>leaves.
     and_then (tier1_row_bytes layout) (\<lambda>expected.
     ensure (length data = expected) ''Tier 1 row size mismatch''
       (and_then (validate_all_fp_chunks P data) (\<lambda>_.
        Ok \<lparr>t1_data = data, t1_leaves = leaves, t1_layers = tier1_layers layout\<rparr>)))))"

definition tier1_from_bytes :: "'p::len itself \<Rightarrow> bytes \<Rightarrow> Tier1Row result" where
  "tier1_from_bytes P data = tier1_from_layout P data COMPILED_PIR_LAYOUT"

definition leaf_record :: "Tier1Row \<Rightarrow> usize \<Rightarrow> 'p::len fp3 result" where
  "leaf_record self i =
     (let base = i * TIER1_LEAF_BYTES
      in and_then (read_fp_at (t1_data self) base) (\<lambda>nf_lo.
         and_then (read_fp_at (t1_data self) (base + 32)) (\<lambda>nf_mid.
         and_then (read_fp_at (t1_data self) (base + 64)) (\<lambda>nf_hi.
         Ok (nf_lo, nf_mid, nf_hi)))))"

definition find_leaf :: "Tier1Row \<Rightarrow> 'p::len fp \<Rightarrow> usize \<Rightarrow> usize option result" where
  "find_leaf self value valid_leaves =
     (if valid_leaves = 0 then Ok None
      else and_then (binary_search_records (t1_data self) 0 valid_leaves TIER1_LEAF_BYTES 0 value) (\<lambda>found.
        case found of None \<Rightarrow> Ok None
        | Some idx \<Rightarrow>
            and_then (leaf_record self idx) (\<lambda>(nf_lo, nf_mid, nf_hi).
              let offset = value - nf_lo; span = nf_hi - nf_lo
              in if offset = 0 \<or> offset \<ge> span \<or> value = nf_mid then Ok None
                 else Ok (Some idx))))"

definition subtree_level0 :: "Tier1Row \<Rightarrow> usize \<Rightarrow> 'p::len PoseidonHasher \<Rightarrow> 'p fp list result" where
  "subtree_level0 self valid_leaves hasher =
     (let empty_leaf = hash3 hasher 0 0 0
      in try_map (\<lambda>i. if i < valid_leaves
                       then and_then (leaf_record self i) (\<lambda>(lo, mid, hi). Ok (hash3 hasher lo mid hi))
                       else Ok empty_leaf) [0..<t1_leaves self])"

definition tier1_sibling_step ::
  "Tier1Row \<Rightarrow> 'p::len PoseidonHasher \<Rightarrow> usize \<Rightarrow> 'p fp list \<times> usize \<times> 'p fp list \<Rightarrow>
   ('p fp list \<times> usize \<times> 'p fp list) result" where
  "tier1_sibling_step self hasher level st =
     (let (current_level, pos, siblings) = st
      in and_then (index_res current_level (pos XOR 1)) (\<lambda>sib.
         let siblings = siblings @ [sib];
             next_level = (if level < t1_layers self - 1
               then map (\<lambda>j. hash hasher (current_level ! (2 * j)) (current_level ! (2 * j + 1)))
                      [0..<length current_level div 2]
               else current_level)
         in Ok (next_level, pos div 2, siblings)))"

definition tier1_extract_siblings ::
  "Tier1Row \<Rightarrow> usize \<Rightarrow> usize \<Rightarrow> 'p::len PoseidonHasher \<Rightarrow> 'p fp list result" where
  "tier1_extract_siblings self leaf_idx valid_leaves hasher =
     and_then (subtree_level0 self valid_leaves hasher) (\<lambda>current_level.
     and_then (try_fold (tier1_sibling_step self hasher) [0..<t1_layers self] (current_level, leaf_idx, []))
       (\<lambda>(_, _, siblings). Ok siblings))"

section \<open>Rows that encode leaf records\<close>

definition triple_list :: "('a \<times> 'a \<times> 'a) list \<Rightarrow> 'a list" where
  "triple_list rs = concat (map (\<lambda>(a, b, c). [a, b, c]) rs)"

lemma length_triple_list [simp]: "length (triple_list rs) = 3 * length rs"
  unfolding triple_list_def by (subst concat_uniform_length [of _ 3]) auto

lemma triple_list_nth:
  assumes "i < length rs"
  shows "triple_list rs ! (3 * i) = fst (rs ! i)"
    and "triple_list rs ! (3 * i + 1) = fst (snd (rs ! i))"
    and "triple_list rs ! (3 * i + 2) = snd (snd (rs ! i))"
proof -
  let ?cs = "map (\<lambda>(a, b, c). [a, b, c]) rs"
  have len: "length c = 3" if "c \<in> set ?cs" for c
    using that by auto
  note at = concat_uniform_nth [OF len, of ?cs i]
  show "triple_list rs ! (3 * i) = fst (rs ! i)"
    using assms at [of 0] by (cases "rs ! i") (simp add: triple_list_def)
  show "triple_list rs ! (3 * i + 1) = fst (snd (rs ! i))"
    using assms at [of 1] by (cases "rs ! i") (simp add: triple_list_def)
  show "triple_list rs ! (3 * i + 2) = snd (snd (rs ! i))"
    using assms at [of 2] by (cases "rs ! i") (simp add: triple_list_def)
qed

definition tier1_blob :: "'p::len fp3 list \<Rightarrow> bytes" where
  "tier1_blob recs = concat (map to_repr (triple_list recs))"

lemma length_tier1_blob: "length (tier1_blob recs) = 96 * length recs"
  by (simp add: tier1_blob_def fp_codec.length_concat_enc)

lemma tier1_blob_record:
  assumes "i < length recs"
  shows "read_fp_at (tier1_blob recs) (i * 96) = Ok (fst (recs ! i))"
    and "read_fp_at (tier1_blob recs) (i * 96 + 32) = Ok (fst (snd (recs ! i)))"
    and "read_fp_at (tier1_blob recs) (i * 96 + 64) = Ok (snd (snd (recs ! i)))"
proof -
  have "read_fp_at (tier1_blob recs) ((3 * i + j) * 32) = Ok (triple_list recs ! (3 * i + j))" if "j < 3" for j
    unfolding tier1_blob_def using assms that by (intro read_fp_at_concat0) simp
  from this [of 0] this [of 1] this [of 2] triple_list_nth [OF assms]
  show "read_fp_at (tier1_blob recs) (i * 96) = Ok (fst (recs ! i))"
    and "read_fp_at (tier1_blob recs) (i * 96 + 32) = Ok (fst (snd (recs ! i)))"
    and "read_fp_at (tier1_blob recs) (i * 96 + 64) = Ok (snd (snd (recs ! i)))"
    by (simp_all add: mult.commute add.commute)
qed

interpretation tier1_keys: keyed_records
  "\<lambda>recs mid. read_fp_at (tier1_blob recs) (0 + mid * TIER1_LEAF_BYTES + 0)"
  "\<lambda>recs :: 'p::len fp3 list. map fst recs"
  by unfold_locales (simp add: tier1_blob_record TIER1_LEAF_BYTES_def)

definition tier1_parsed :: "nat \<Rightarrow> 'p::len fp3 list \<Rightarrow> Tier1Row" where
  "tier1_parsed layers recs = \<lparr>t1_data = tier1_blob recs, t1_leaves = 2 ^ layers, t1_layers = layers\<rparr>"

text \<open>An accepted row is the encoding of its records, so the reader never panics on it.\<close>

lemma triple_list_surj:
  "length vs = 3 * n \<Longrightarrow> \<exists>recs. length recs = n \<and> triple_list recs = vs"
proof (induction n arbitrary: vs)
  case 0
  then show ?case by (simp add: triple_list_def)
next
  case (Suc n)
  then obtain a b c ws where vs: "vs = a # b # c # ws" "length ws = 3 * n"
    by (auto simp: length_Suc_conv numeral_3_eq_3)
  from Suc.IH [OF vs(2)] obtain recs where "length recs = n" "triple_list recs = ws" by auto
  then have "length ((a, b, c) # recs) = Suc n" "triple_list ((a, b, c) # recs) = vs"
    by (simp_all add: vs triple_list_def)
  then show ?case by blast
qed

lemma concat_repr_surj:
  assumes "length data = 32 * n" and "\<And>i. i < n \<Longrightarrow> \<exists>v :: 'p::len fp. read_fp_at data (i * 32) = Ok v"
  shows "\<exists>vs :: 'p fp list. length vs = n \<and> data = concat (map to_repr vs)"
  using assms
proof (induction n arbitrary: data)
  case 0
  then show ?case by simp
next
  case (Suc n)
  obtain v :: "'p fp" where "read_fp_at data 0 = Ok v"
    using Suc.prems(2) [of 0] by auto
  then have v: "take 32 data = to_repr v"
    by (auto simp: read_fp_at_Ok_iff to_from_repr)
  have "\<exists>v :: 'p fp. read_fp_at (drop 32 data) (i * 32) = Ok v" if "i < n" for i
    using Suc.prems(2) [of "Suc i"] that by (auto simp: read_fp_at_Ok_iff add.commute)
  with Suc.IH [of "drop 32 data"] Suc.prems(1) obtain vs :: "'p fp list"
    where "length vs = n" "drop 32 data = concat (map to_repr vs)" by auto
  with v have "length (v # vs) = Suc n" "data = concat (map to_repr (v # vs))"
    by (simp, metis append_take_drop_id concat.simps(2) list.simps(9))
  then show ?case by blast
qed

lemma tier1_from_layout_Ok_iff:
  assumes "supported L"
  shows "tier1_from_layout TYPE('p::len) data L = Inr t \<longleftrightarrow>
    (\<exists>recs :: 'p fp3 list. length recs = 2 ^ tier1_layers L \<and> data = tier1_blob recs \<and>
       t = tier1_parsed (tier1_layers L) recs)" (is "?L \<longleftrightarrow> ?R")
proof
  let ?n = "2 ^ tier1_layers L :: nat"
  assume ?L
  then have len: "length data = 32 * (3 * ?n)"
    and rd: "\<And>i. i < length data div 32 \<Longrightarrow> \<exists>v :: 'p fp. read_fp_at data (i * 32) = Ok v"
    and t: "t = \<lparr>t1_data = data, t1_leaves = ?n, t1_layers = tier1_layers L\<rparr>"
    by (auto simp: tier1_from_layout_def supported_geometry [OF assms] result_simps
        validate_all_fp_chunks_Ok_iff)
  have "\<exists>vs :: 'p fp list. length vs = 3 * ?n \<and> data = concat (map to_repr vs)"
    using len by (rule concat_repr_surj) (simp add: rd len)
  then obtain vs :: "'p fp list" where "length vs = 3 * ?n" "data = concat (map to_repr vs)" by blast
  with triple_list_surj [of vs ?n] show ?R
    by (auto simp: tier1_parsed_def tier1_blob_def t)
next
  assume ?R
  moreover have "validate_all_fp_chunks TYPE('p) (tier1_blob recs) = Ok ()" for recs :: "'p fp3 list"
    unfolding tier1_blob_def by (rule validate_concat)
  ultimately show ?L
    by (auto simp: tier1_from_layout_def supported_geometry [OF assms] length_tier1_blob tier1_parsed_def)
qed

lemma leaf_record_parsed:
  "i < length recs \<Longrightarrow> leaf_record (tier1_parsed layers recs) i = Ok (recs ! i)"
  by (simp add: leaf_record_def tier1_parsed_def tier1_blob_record TIER1_LEAF_BYTES_def)

section \<open>The leaf search\<close>

text \<open>
  On leaves with increasing lower bounds whose intervals do not overlap, \<open>find_leaf\<close>
  returns the one leaf that covers the value, and \<open>None\<close> when none does.
\<close>

definition disjoint_ranges :: "'p::len fp3 list \<Rightarrow> nat \<Rightarrow> bool" where
  "disjoint_ranges recs n \<longleftrightarrow> n \<le> length recs \<and>
     (\<forall>i < n. fst (recs ! i) \<le> snd (snd (recs ! i))) \<and>
     (\<forall>i j. i < j \<and> j < n \<longrightarrow> snd (snd (recs ! i)) \<le> fst (recs ! j))"

lemma find_leaf_parsed:
  assumes "disjoint_ranges recs n"
  shows "find_leaf (tier1_parsed layers recs) v n = Ok None \<and> (\<forall>i < n. \<not> covers (recs ! i) v) \<or>
    (\<exists>i < n. find_leaf (tier1_parsed layers recs) v n = Ok (Some i) \<and> covers (recs ! i) v)"
proof (cases "n = 0")
  case True
  then show ?thesis by (simp add: find_leaf_def)
next
  case False
  have le: "n \<le> length recs" and ord: "\<And>i. i < n \<Longrightarrow> fst (recs ! i) \<le> snd (snd (recs ! i))"
    and dis: "\<And>i j. i < j \<Longrightarrow> j < n \<Longrightarrow> snd (snd (recs ! i)) \<le> fst (recs ! j)"
    using assms by (auto simp: disjoint_ranges_def)
  have mono: "fst (recs ! i) \<le> fst (recs ! j)" if "i \<le> j" "j < n" for i j
    using that ord [of i] dis [of i j] by (cases "i = j") (auto intro: order_trans)
  have "sorted (take n (map fst recs))"
    using le mono by (simp add: sorted_iff_nth_mono)
  then obtain r where r: "search_loop (\<lambda>mid. read_fp_at (tier1_blob recs) (0 + mid * TIER1_LEAF_BYTES + 0)) v 0 n = Ok r"
    and sp: "is_split (map fst recs) n v r"
    using tier1_keys.search_sorted [of n recs v] le by auto
  have lo: "fst (recs ! i) \<le> v" if "i < r" for i
    using sp that le by (auto simp: is_split_def)
  have hi: "v < fst (recs ! i)" if "r \<le> i" "i < n" for i
    using sp that le by (auto simp: is_split_def)
  have rn: "r \<le> n" using sp by (simp add: is_split_def)
  have bs: "binary_search_records (t1_data (tier1_parsed layers recs)) 0 n TIER1_LEAF_BYTES 0 v =
      Ok (if r = 0 then None else Some (r - 1))"
    using r by (simp add: binary_search_records_def tier1_parsed_def)
  have above: "\<not> covers (recs ! i) v" if "r \<le> i" "i < n" for i
    using hi [OF that] by (cases "recs ! i") (auto simp: covers_def)
  have below: "\<not> covers (recs ! i) v" if "Suc i < r" for i
    using dis [of i "Suc i"] lo [of "Suc i"] that rn
    by (cases "recs ! i") (auto simp: covers_def dest: order_trans)
  show ?thesis
  proof (cases "r = 0")
    case True
    with bs False above show ?thesis by (simp add: find_leaf_def)
  next
    case r0: False
    define i where "i = r - 1"
    then have i: "i < n" "r = Suc i" using r0 rn by auto
    obtain a b c where abc: "recs ! i = (a, b, c)" by (cases "recs ! i")
    have others: "\<not> covers (recs ! j) v" if "j < n" "j \<noteq> i" for j
      using above [of j] below [of j] that i by (cases "j < i") auto
    have fl: "find_leaf (tier1_parsed layers recs) v n =
        (if v - a = 0 \<or> c - a \<le> v - a \<or> v = b then Ok None else Ok (Some i))"
      using bs r0 False le i abc by (simp add: find_leaf_def leaf_record_parsed Let_def)
    have "\<not> (v - a = 0 \<or> c - a \<le> v - a) \<longleftrightarrow> a < v \<and> v < c"
      using ord [of i] i abc by (intro offset_in_span_iff) simp
    then have "covers (recs ! i) v \<longleftrightarrow> \<not> (v - a = 0 \<or> c - a \<le> v - a \<or> v = b)"
      by (auto simp: covers_def abc)
    with fl others i show ?thesis by (metis nat_neq_iff)
  qed
qed

section \<open>The rebuilt siblings\<close>

definition row_leaf :: "'p::len PoseidonHasher \<Rightarrow> 'p fp3 list \<Rightarrow> nat \<Rightarrow> nat \<Rightarrow> 'p fp" where
  "row_leaf h recs valid i =
     (if i < valid then (case recs ! i of (a, b, c) \<Rightarrow> hash3 h a b c) else hash3 h 0 0 0)"

lemma subtree_level0_parsed:
  assumes "valid \<le> 2 ^ layers" "length recs = 2 ^ layers"
  shows "subtree_level0 (tier1_parsed layers recs) valid h = Ok (map (row_leaf h recs valid) [0..<2 ^ layers])"
proof -
  have "t1_leaves (tier1_parsed layers recs) = 2 ^ layers"
    by (simp add: tier1_parsed_def)
  then show ?thesis
    unfolding subtree_level0_def Let_def using assms
    by (auto intro!: try_map_all_Ok simp: leaf_record_parsed row_leaf_def split: prod.split)
qed

lemma tier1_sibling_loop:
  assumes "i < 2 ^ layers" "k \<le> layers" and "row = tier1_parsed layers recs"
  shows "\<exists>lev. try_fold (tier1_sibling_step row h) [0..<k] (map f [0..<2 ^ layers], i, []) =
      Ok (lev, i div 2 ^ k, map (\<lambda>l. subroot (hash h) f l ((i div 2 ^ l) XOR 1)) [0..<k]) \<and>
    (k < layers \<longrightarrow> lev = map (subroot (hash h) f k) [0..<2 ^ (layers - k)])"
  using assms(2)
proof (induction k)
  case 0
  then show ?case by simp
next
  case (Suc k)
  then obtain lev where IH: "try_fold (tier1_sibling_step row h) [0..<k] (map f [0..<2 ^ layers], i, []) =
      Ok (lev, i div 2 ^ k, map (\<lambda>l. subroot (hash h) f l ((i div 2 ^ l) XOR 1)) [0..<k])"
    and lev: "lev = map (subroot (hash h) f k) [0..<2 ^ (layers - k)]"
    by auto
  have "layers = layers - k + k" using Suc.prems by simp
  then have "i < 2 ^ (layers - k) * 2 ^ k" using assms(1) by (metis power_add)
  then have "i div 2 ^ k < 2 ^ (layers - k)" by (rule less_mult_imp_div_less)
  then have x: "(i div 2 ^ k) XOR 1 < 2 ^ (layers - k)"
    using Suc.prems by (intro xor_one_less_two_power) simp_all
  have e: "i div 2 ^ k div 2 = i div 2 ^ Suc k"
    by (metis div_mult2_eq power_Suc2)
  have ly: "t1_layers row = layers" by (simp add: assms(3) tier1_parsed_def)
  have half: "(2::nat) ^ (layers - k) div 2 = 2 ^ (layers - Suc k)"
    using Suc.prems by (metis Suc_diff_le Suc_le_lessD diff_Suc_Suc nonzero_mult_div_cancel_left power_Suc zero_neq_numeral)
  have len: "(2::nat) ^ (layers - k) = 2 * 2 ^ (layers - Suc k)"
    using Suc.prems by (metis Suc_diff_Suc Suc_le_lessD power_Suc)
  have nxt: "map (\<lambda>j. hash h (lev ! (2 * j)) (lev ! (2 * j + 1))) [0..<length lev div 2] =
      map (subroot (hash h) f (Suc k)) [0..<2 ^ (layers - Suc k)]"
    using len by (auto simp: lev half)
  have step: "tier1_sibling_step row h k (lev, i div 2 ^ k, ss) =
      Ok (if k < layers - 1 then map (subroot (hash h) f (Suc k)) [0..<2 ^ (layers - Suc k)] else lev,
          i div 2 ^ Suc k, ss @ [subroot (hash h) f k ((i div 2 ^ k) XOR 1)])" for ss
    using x nxt by (simp add: tier1_sibling_step_def Let_def e ly index_res_def lev del: subroot.simps power_Suc)
  show ?case
    using IH step by (auto simp: try_fold_append simp del: subroot.simps power_Suc)
qed

lemma tier1_extract_siblings_parsed:
  assumes "i < 2 ^ layers" "valid \<le> 2 ^ layers" "length recs = 2 ^ layers"
  shows "tier1_extract_siblings (tier1_parsed layers recs) i valid h =
    Ok (map (\<lambda>l. subroot (hash h) (row_leaf h recs valid) l ((i div 2 ^ l) XOR 1)) [0..<layers])"
proof -
  obtain lev where "try_fold (tier1_sibling_step (tier1_parsed layers recs) h) [0..<layers]
        (map (row_leaf h recs valid) [0..<2 ^ layers], i, []) =
      Ok (lev, i div 2 ^ layers, map (\<lambda>l. subroot (hash h) (row_leaf h recs valid) l ((i div 2 ^ l) XOR 1)) [0..<layers])"
    using tier1_sibling_loop [OF assms(1) order_refl refl] by blast
  moreover have "t1_layers (tier1_parsed layers recs) = layers"
    by (simp add: tier1_parsed_def)
  ultimately show ?thesis
    using assms by (simp add: tier1_extract_siblings_def subtree_level0_parsed)
qed

end
