(* ===== verification/Pir_Client.thy ===== *)
theory Pir_Client
  imports Imt_Proof Tier0 Tier1
begin

text \<open>
  The PIR client, \<^verbatim>\<open>pir/client/src/lib.rs\<close>: connecting to a server, fetching one or many
  proofs, and the in-process variant. Timing measurements and log output are left out.
  Code outside the repository is a parameter: the HTTP transport (\<open>net\<close>), the JSON and
  hex parsers (\<open>parsers\<close>) and the YPIR client (\<open>ypir_client\<close>). Requests are recorded, so
  that what a server observes is part of the model.
\<close>

record TransportResponse =
  rsp_status :: u16
  rsp_headers :: "(string \<times> string) list"
  rsp_body :: bytes

record net =
  net_get :: "string \<Rightarrow> TransportResponse result"
  net_post :: "string \<Rightarrow> bytes \<Rightarrow> TransportResponse result"

record parsers =
  parse_root_info :: "bytes \<Rightarrow> RootInfo result"
  parse_ypir_scenario :: "bytes \<Rightarrow> YpirScenario result"
  hex_decode :: "string \<Rightarrow> bytes result"

text \<open>
  The YPIR library for one set of parameters: the query for a row under the randomness
  \<open>seed\<close>, and the decoder, which may panic on a hostile response.
\<close>

record ypir_client =
  generate_query_simplepir :: "YpirScenario \<Rightarrow> nat \<Rightarrow> usize \<Rightarrow> u64 list \<times> u64 list"
  decode_response_simplepir :: "YpirScenario \<Rightarrow> nat \<Rightarrow> bytes \<Rightarrow> bytes result"

datatype request = Get string | Post string bytes

definition DUMMY_TIER1_ROW :: usize where
  "DUMMY_TIER1_ROW = 0"

record (overloaded) 'p PirClient =
  pc_server_url :: string
  pc_layout :: PirLayout
  pc_tier0 :: Tier0Data
  pc_tier1_scenario :: YpirScenario
  pc_tier1_row_bytes :: usize
  pc_num_ranges :: usize
  pc_empty_hashes :: "'p fp list"
  pc_circuit_root :: "'p fp"

definition valid_leaves_for_row :: "usize \<Rightarrow> usize \<Rightarrow> usize \<Rightarrow> usize" where
  "valid_leaves_for_row num_ranges row_idx leaves_per_row =
     (let row_start = min (row_idx * leaves_per_row) (2 ^ USIZE_BITS - 1)
      in min (num_ranges - row_start) leaves_per_row)"

definition fill_path :: "'p::len fp list \<Rightarrow> usize \<Rightarrow> 'p fp list \<Rightarrow> 'p fp list result" where
  "fill_path pth offset siblings = write_at pth offset siblings"

definition process_tier0 ::
  "Tier0Data \<Rightarrow> PirLayout \<Rightarrow> 'p::len fp \<Rightarrow> 'p fp list \<Rightarrow> (usize \<times> 'p fp list) result" where
  "process_tier0 tier0 layout nullifier pth =
     and_then (find_subtree tier0 nullifier) (\<lambda>found.
     and_then (ok_or found (Error ''nullifier not found in any Tier 0 subtree'')) (\<lambda>s1.
     and_then (ok_or (checked_sub (pir_depth layout) (tier0_layers layout))
                 (Error ''PIR layout tier0_layers exceeds pir_depth'')) (\<lambda>offset.
     and_then (tier0_extract_siblings tier0 s1) (\<lambda>siblings.
     and_then (fill_path pth offset siblings) (\<lambda>pth.
     Ok (s1, pth))))))"

record (overloaded) 'p Tier1ProofInput =
  in_tier1_row :: bytes
  in_layout :: PirLayout
  in_row_idx :: usize
  in_num_ranges :: usize
  in_nullifier :: "'p fp"
  in_empty_hashes :: "'p fp list"
  in_circuit_root :: "'p fp"

definition process_tier1_and_build ::
  "'p::len poseidon_constants \<Rightarrow> 'p Tier1ProofInput \<Rightarrow> 'p fp list \<Rightarrow> 'p ImtProofData result" where
  "process_tier1_and_build P inp pth =
     (let layout = in_layout inp; hasher = poseidon_new P
      in and_then (tier1_from_layout TYPE('p) (in_tier1_row inp) layout) (\<lambda>tier1.
         and_then (tier1_leaves layout) (\<lambda>leaves.
         let valid = valid_leaves_for_row (in_num_ranges inp) (in_row_idx inp) leaves
         in and_then (find_leaf tier1 (in_nullifier inp) valid) (\<lambda>found.
            and_then (ok_or found (Error ''nullifier not found in Tier 1 leaf scan'')) (\<lambda>leaf_local_idx.
            and_then (tier1_extract_siblings tier1 leaf_local_idx valid hasher) (\<lambda>siblings.
            and_then (fill_path pth 0 siblings) (\<lambda>pth.
            and_then (slice_res (in_empty_hashes inp) (pir_depth layout) (TREE_DEPTH - pir_depth layout)) (\<lambda>pad.
            and_then (fill_path pth (pir_depth layout) pad) (\<lambda>pth.
            and_then (ok_or (Option.bind (checked_mul (in_row_idx inp) leaves) (\<lambda>v. checked_add v leaf_local_idx))
                        (Error ''global leaf index overflow'')) (\<lambda>global_leaf_idx.
            and_then (leaf_record tier1 leaf_local_idx) (\<lambda>bounds.
            Ok \<lparr>root = in_circuit_root inp, nf_bounds = bounds,
                leaf_pos = word_of_nat global_leaf_idx, path = pth\<rparr>)))))))))))"

definition validate_layout :: "PirLayout \<Rightarrow> unit result" where
  "validate_layout layout = validate_supported layout"

definition tier1_geometry :: "PirLayout \<Rightarrow> (usize \<times> usize \<times> usize) result" where
  "tier1_geometry layout =
     and_then (tier1_rows layout) (\<lambda>rows.
     and_then (tier1_leaves layout) (\<lambda>leaves.
     and_then (tier1_row_bytes layout) (\<lambda>row_bytes.
     Ok (rows, leaves, row_bytes))))"

definition is_success :: "u16 \<Rightarrow> bool" where
  "is_success status \<longleftrightarrow> 200 \<le> status \<and> status < 300"

definition body_for_status :: "TransportResponse \<Rightarrow> string \<Rightarrow> bytes result" where
  "body_for_status response ctx =
     (if is_success (rsp_status response) then Ok (rsp_body response) else Bail ctx)"

definition trim_end_slashes :: "string \<Rightarrow> string" where
  "trim_end_slashes s = rev (dropWhile (\<lambda>c. c = CHR ''/'') (rev s))"

text \<open>Hex field elements of the root response.\<close>

definition decode_root_hex :: "parsers \<Rightarrow> string \<Rightarrow> 'p::len fp result" where
  "decode_root_hex J s =
     and_then (hex_decode J s) (\<lambda>bs.
     ensure (length bs = 32) ''hex decoded to wrong length''
       (ok_or (from_repr bs) (Error ''invalid field element'')))"

text \<open>Everything \<open>with_transport\<close> checks before it downloads layout-sized data.\<close>

definition check_root :: "net \<Rightarrow> parsers \<Rightarrow> string \<Rightarrow> PirLayout \<Rightarrow> RootInfo result" where
  "check_root N J root_url expected_layout =
     and_then (net_get N root_url) (\<lambda>root_resp.
     and_then (body_for_status root_resp ''GET /root failed'') (\<lambda>body.
     and_then (parse_root_info J body) (\<lambda>root_info.
     ensure (is_current_dataset (ri_nullifier_pool root_info) (ri_dataset_version root_info))
       ''server nullifier dataset is unsupported''
     (and_then (validate_layout (ri_pir_layout root_info)) (\<lambda>_.
     ensure (expected_layout = ri_pir_layout root_info) ''PIR layout mismatch''
     (ensure (ri_pir_depth root_info = pir_depth (ri_pir_layout root_info))
       ''server pir_depth disagrees with advertised layout depth''
     (Ok root_info)))))))"

definition connect_data ::
  "'p::len poseidon_constants \<Rightarrow> net \<Rightarrow> parsers \<Rightarrow> string \<Rightarrow> PirLayout \<Rightarrow> RootInfo \<Rightarrow> 'p PirClient result" where
  "connect_data P N J base expected_layout root_info =
     and_then (net_get N (base @ ''/tier0'')) (\<lambda>tier0_resp.
     and_then (net_get N (base @ ''/params/tier1'')) (\<lambda>tier1_resp.
     and_then (body_for_status tier1_resp ''GET /params/tier1 failed'') (\<lambda>tier1_body.
     and_then (parse_ypir_scenario J tier1_body) (\<lambda>scenario.
     ensure (scn_poly_len scenario = poly_len expected_layout) ''PIR poly_len mismatch''
     (and_then (tier1_geometry (ri_pir_layout root_info)) (\<lambda>(layout_rows, _, layout_row_bytes).
     and_then (ok_or (checked_mul (ri_tier1_row_bytes root_info) 8)
                 (Error ''server Tier 1 row width overflows bit size'')) (\<lambda>scenario_item_bits.
     ensure (layout_rows = ri_tier1_rows root_info \<and> layout_row_bytes = ri_tier1_row_bytes root_info \<and>
             num_items scenario = ri_tier1_rows root_info \<and> item_size_bits scenario = scenario_item_bits \<and>
             layout_rows \<ge> YPIR_MIN_ROWS \<and> scenario_item_bits \<ge> YPIR_MIN_ITEM_BITS)
       ''server Tier 1 shape mismatch''
     (and_then (Pir_Types.tier0_bytes (ri_pir_layout root_info)) (\<lambda>expected_tier0_bytes.
     and_then (body_for_status tier0_resp ''GET /tier0 failed'') (\<lambda>t0_bytes.
     ensure (length t0_bytes = expected_tier0_bytes) ''Tier 0 size mismatch''
     (and_then (tier0_from_layout TYPE('p) t0_bytes (ri_pir_layout root_info)) (\<lambda>tier0.
     and_then (decode_root_hex J (ri_pir_root root_info)) (\<lambda>rt :: 'p fp.
     and_then (tier0_root tier0) (\<lambda>t0_root.
     ensure (t0_root = rt) ''Tier 0 root does not match server pir_root''
     (and_then (decode_root_hex J (ri_circuit_root root_info)) (\<lambda>croot.
     Ok \<lparr>pc_server_url = base, pc_layout = ri_pir_layout root_info, pc_tier0 = tier0,
         pc_tier1_scenario = scenario, pc_tier1_row_bytes = layout_row_bytes,
         pc_num_ranges = ri_num_ranges root_info,
         pc_empty_hashes = precompute_empty_hashes P, pc_circuit_root = croot\<rparr>))))))))))))))))"

text \<open>Connecting, with the requests it issues in order.\<close>

definition with_transport ::
  "'p::len poseidon_constants \<Rightarrow> net \<Rightarrow> parsers \<Rightarrow> string \<Rightarrow> PirLayout \<Rightarrow> 'p PirClient result \<times> request list" where
  "with_transport P N J server_url expected_layout =
     (case validate_layout expected_layout of
        Inl e \<Rightarrow> (Inl e, [])
      | Inr _ \<Rightarrow>
          let base = trim_end_slashes server_url
          in case check_root N J (base @ ''/root'') expected_layout of
               Inl e \<Rightarrow> (Inl e, [Get (base @ ''/root'')])
             | Inr root_info \<Rightarrow>
                 (connect_data P N J base expected_layout root_info,
                  [Get (base @ ''/root''), Get (base @ ''/tier0''), Get (base @ ''/params/tier1'')]))"

text \<open>\<open>catch_unwind\<close>: a panic becomes an error.\<close>

definition catch_unwind :: "string \<Rightarrow> 'a result \<Rightarrow> 'a result" where
  "catch_unwind m r = (case r of Inl (Panic _) \<Rightarrow> Bail m | _ \<Rightarrow> r)"

definition ypir_query ::
  "net \<Rightarrow> ypir_client \<Rightarrow> string \<Rightarrow> YpirScenario \<Rightarrow> string \<Rightarrow> nat \<Rightarrow> usize \<Rightarrow> usize \<Rightarrow> bytes result \<times> request list" where
  "ypir_query N Y server_url scenario tier_name seed row_idx expected_row_bytes =
     (if \<not> row_idx < num_items scenario then (Bail ''row_idx >= num_items'', [])
      else if \<not> (scn_poly_len scenario = 2048 \<or> scn_poly_len scenario = 4096)
      then (Bail ''advertised unsupported YPIR polynomial degree'', [])
      else
        let (pqr, pub_params) = generate_query_simplepir Y scenario seed row_idx;
            payload = serialize_ypir_query pqr pub_params;
            url = server_url @ ''/'' @ tier_name @ ''/query''
        in (and_then (net_post N url payload) (\<lambda>resp.
            if \<not> is_success (rsp_status resp) then Bail ''query failed''
            else
              and_then (catch_unwind ''response decryption panicked''
                          (decode_response_simplepir Y scenario seed (rsp_body resp))) (\<lambda>decoded.
              ensure (length decoded \<ge> expected_row_bytes) ''decoded response too short''
                (Ok (take expected_row_bytes decoded)))),
            [Post url payload]))"

definition fetch_proof_inner ::
  "'p::len poseidon_constants \<Rightarrow> net \<Rightarrow> ypir_client \<Rightarrow> nat \<Rightarrow> 'p PirClient \<Rightarrow> 'p fp \<Rightarrow>
   'p ImtProofData result \<times> request list" where
  "fetch_proof_inner P N Y seed self nullifier =
     (let pth = replicate TREE_DEPTH 0;
          tier0_result = catch_unwind ''Tier 0 processing panicked''
            (process_tier0 (pc_tier0 self) (pc_layout self) nullifier pth);
          query_row = (case tier0_result of Inr (s1, _) \<Rightarrow> s1 | Inl _ \<Rightarrow> DUMMY_TIER1_ROW);
          (tier1_result, requests) =
            ypir_query N Y (pc_server_url self) (pc_tier1_scenario self) ''tier1'' seed query_row
              (pc_tier1_row_bytes self)
      in (and_then tier0_result (\<lambda>(s1, pth).
          and_then tier1_result (\<lambda>tier1_row.
          process_tier1_and_build P
            \<lparr>in_tier1_row = tier1_row, in_layout = pc_layout self, in_row_idx = s1,
             in_num_ranges = pc_num_ranges self, in_nullifier = nullifier,
             in_empty_hashes = pc_empty_hashes self, in_circuit_root = pc_circuit_root self\<rparr> pth)),
          requests))"

definition fetch_proof ::
  "'p::len poseidon_constants \<Rightarrow> net \<Rightarrow> ypir_client \<Rightarrow> nat \<Rightarrow> 'p PirClient \<Rightarrow> 'p fp \<Rightarrow> 'p ImtProofData result" where
  "fetch_proof P N Y seed self nullifier = fst (fetch_proof_inner P N Y seed self nullifier)"

text \<open>
  \<open>fetch_proofs\<close>: every query runs to completion before the first error is returned. The
  order in which concurrent requests reach the server is not modelled.
\<close>

definition fetch_proofs ::
  "'p::len poseidon_constants \<Rightarrow> net \<Rightarrow> ypir_client \<Rightarrow> (nat \<Rightarrow> nat) \<Rightarrow> 'p PirClient \<Rightarrow> 'p fp list \<Rightarrow>
   'p ImtProofData list result \<times> request list" where
  "fetch_proofs P N Y seeds self nullifiers =
     (let results = map (\<lambda>i. fetch_proof_inner P N Y (seeds i) self (nullifiers ! i)) [0..<length nullifiers]
      in (try_map fst results, concat (map snd results)))"

definition fetch_proof_local_layout ::
  "'p::len poseidon_constants \<Rightarrow> bytes \<Rightarrow> bytes \<Rightarrow> PirLayout \<Rightarrow> usize \<Rightarrow> 'p fp \<Rightarrow> 'p fp list \<Rightarrow> 'p fp \<Rightarrow>
   'p ImtProofData result" where
  "fetch_proof_local_layout P tier0_data tier1_data layout n_ranges nullifier empties croot =
     and_then (validate_layout layout) (\<lambda>_.
     let pth = replicate TREE_DEPTH 0
     in and_then (tier0_from_layout TYPE('p) tier0_data layout) (\<lambda>tier0.
        and_then (tier1_row_bytes layout) (\<lambda>row_bytes.
        and_then (process_tier0 tier0 layout nullifier pth) (\<lambda>(s1, pth).
        and_then (ok_or (checked_mul s1 row_bytes) (Error ''tier1 row offset overflow'')) (\<lambda>t1_offset.
        and_then (ok_or (checked_add t1_offset row_bytes) (Error ''tier1 row end overflow'')) (\<lambda>t1_end.
        ensure (t1_end \<le> length tier1_data) ''tier1 data too short''
        (and_then (slice_res tier1_data t1_offset row_bytes) (\<lambda>row.
        process_tier1_and_build P
          \<lparr>in_tier1_row = row, in_layout = layout, in_row_idx = s1, in_num_ranges = n_ranges,
           in_nullifier = nullifier, in_empty_hashes = empties, in_circuit_root = croot\<rparr> pth))))))))"

definition fetch_proof_local ::
  "'p::len poseidon_constants \<Rightarrow> bytes \<Rightarrow> bytes \<Rightarrow> usize \<Rightarrow> 'p fp \<Rightarrow> 'p fp list \<Rightarrow> 'p fp \<Rightarrow> 'p ImtProofData result" where
  "fetch_proof_local P tier0_data tier1_data n_ranges nullifier empties croot =
     fetch_proof_local_layout P tier0_data tier1_data COMPILED_PIR_LAYOUT n_ranges nullifier empties croot"

end
