(* ===== verification/Fs.thy ===== *)
theory Fs
  imports Prelude
begin

text \<open>
  A directory of files. Every component that writes does so through a short list of
  file-system operations, so that the states a crash can leave behind are part of the
  model: a prefix of the operations, the next one possibly torn. A rename is atomic, as
  POSIX promises; a write or append can stop after any byte. I/O errors of the operating
  system (a full disk, missing permissions) are not modelled.
\<close>

type_synonym dir = "string \<rightharpoonup> bytes"

datatype fs_op =
    WriteFile string bytes
  | AppendFile string bytes
  | RenameFile string string
  | RemoveFile string
  | SetLen string nat
  | WriteAt string nat bytes

definition file_bytes :: "dir \<Rightarrow> string \<Rightarrow> bytes" where
  "file_bytes d name = (case d name of None \<Rightarrow> [] | Some bs \<Rightarrow> bs)"

text \<open>\<open>set_len\<close> cuts a longer file and pads a shorter one with zeros.\<close>

definition set_len :: "nat \<Rightarrow> bytes \<Rightarrow> bytes" where
  "set_len n bs = take n bs @ replicate (n - length bs) 0"

text \<open>A write at an offset inside an open file, extending it if needed.\<close>

definition overwrite :: "nat \<Rightarrow> bytes \<Rightarrow> bytes \<Rightarrow> bytes" where
  "overwrite off bs old = set_len off old @ bs @ drop (off + length bs) old"

fun apply_op :: "fs_op \<Rightarrow> dir \<Rightarrow> dir" where
  "apply_op (WriteFile n bs) d = d(n \<mapsto> bs)"
| "apply_op (AppendFile n bs) d = d(n \<mapsto> file_bytes d n @ bs)"
| "apply_op (RenameFile a b) d = (case d a of None \<Rightarrow> d | Some bs \<Rightarrow> (d(b \<mapsto> bs))(a := None))"
| "apply_op (RemoveFile n) d = d(n := None)"
| "apply_op (SetLen n k) d = (case d n of None \<Rightarrow> d | Some bs \<Rightarrow> d(n \<mapsto> set_len k bs))"
| "apply_op (WriteAt n off bs) d = (case d n of None \<Rightarrow> d | Some old \<Rightarrow> d(n \<mapsto> overwrite off bs old))"

definition run_ops :: "fs_op list \<Rightarrow> dir \<Rightarrow> dir" where
  "run_ops ops d = fold apply_op ops d"

text \<open>The directories an operation can leave when it is interrupted half-way.\<close>

fun torn_op :: "fs_op \<Rightarrow> nat \<Rightarrow> dir \<Rightarrow> dir" where
  "torn_op (WriteFile n bs) k d = d(n \<mapsto> take k bs)"
| "torn_op (AppendFile n bs) k d = d(n \<mapsto> file_bytes d n @ take k bs)"
| "torn_op (WriteAt n off bs) k d = apply_op (WriteAt n off (take k bs)) d"
| "torn_op (RenameFile a b) k d = d"
| "torn_op (RemoveFile n) k d = d"
| "torn_op (SetLen n l) k d = d"

inductive crash :: "fs_op list \<Rightarrow> dir \<Rightarrow> dir \<Rightarrow> bool" where
  stopped: "crash ops d d"
| torn: "crash (op # ops) d (torn_op op k d)"
| later: "crash ops (apply_op op d) d' \<Longrightarrow> crash (op # ops) d d'"

inductive_simps crash_Nil [simp]: "crash [] d d'"
inductive_cases crash_ConsE: "crash (op # ops) d d'"

lemma crash_Cons_iff:
  "crash (op # ops) d d' \<longleftrightarrow> d' = d \<or> (\<exists>k. d' = torn_op op k d) \<or> crash ops (apply_op op d) d'"
  by (auto elim: crash_ConsE intro: crash.intros)

lemma crash_complete: "crash ops d (run_ops ops d)"
  by (induction ops arbitrary: d) (auto simp: run_ops_def crash_Cons_iff)

lemma run_ops_simps [simp]:
  "run_ops [] d = d" "run_ops (op # ops) d = run_ops ops (apply_op op d)"
  "run_ops (xs @ ys) d = run_ops ys (run_ops xs d)"
  by (simp_all add: run_ops_def)

lemma crash_append_iff:
  "crash (xs @ ys) d d' \<longleftrightarrow> crash xs d d' \<or> crash ys (run_ops xs d) d'"
  by (induction xs arbitrary: d) (auto simp: crash_Cons_iff intro: crash.stopped)

text \<open>The files an operation touches; every other file survives it, torn or not.\<close>

fun op_files :: "fs_op \<Rightarrow> string set" where
  "op_files (WriteFile n bs) = {n}"
| "op_files (AppendFile n bs) = {n}"
| "op_files (RenameFile a b) = {a, b}"
| "op_files (RemoveFile n) = {n}"
| "op_files (SetLen n k) = {n}"
| "op_files (WriteAt n off bs) = {n}"

lemma apply_op_other: "f \<notin> op_files op \<Longrightarrow> apply_op op d f = d f"
  by (cases op) (auto split: option.splits)

lemma torn_op_other: "f \<notin> op_files op \<Longrightarrow> torn_op op k d f = d f"
  by (cases op) (auto split: option.splits)

lemma crash_other: "crash ops d d' \<Longrightarrow> (\<And>op. op \<in> set ops \<Longrightarrow> f \<notin> op_files op) \<Longrightarrow> d' f = d f"
  by (induction rule: crash.induct) (auto simp: apply_op_other torn_op_other)

lemma run_ops_other: "(\<And>op. op \<in> set ops \<Longrightarrow> f \<notin> op_files op) \<Longrightarrow> run_ops ops d f = d f"
  by (rule crash_other [OF crash_complete])

lemma set_len_exact [simp]: "set_len (length bs) (bs @ junk) = bs"
  by (simp add: set_len_def)

lemma overwrite_front [simp]: "length bs = length old \<Longrightarrow> overwrite 0 bs (old @ rest) = bs @ rest"
  by (simp add: overwrite_def set_len_def)

lemma run_appends:
  "run_ops (map (AppendFile f) bss) d f = (if bss = [] then d f else Some (file_bytes d f @ concat bss))"
  by (induction bss arbitrary: d) (auto simp: file_bytes_def)

text \<open>A crash while appending leaves the old contents and a prefix of the new bytes.\<close>

lemma crash_appends:
  "crash (map (AppendFile f) bss) d d' \<Longrightarrow>
     d' f = d f \<or> (\<exists>k. d' f = Some (file_bytes d f @ take k (concat bss)))"
proof (induction bss arbitrary: d)
  case Nil
  then show ?case by simp
next
  case (Cons bs bss)
  then consider "d' = d" | k where "d' = torn_op (AppendFile f bs) k d"
    | "crash (map (AppendFile f) bss) (apply_op (AppendFile f bs) d) d'"
    by (auto simp: crash_Cons_iff)
  then show ?case
  proof cases
    case 2
    then have "d' f = Some (file_bytes d f @ take (min k (length bs)) (concat (bs # bss)))"
      by (auto simp: min_def)
    then show ?thesis by blast
  next
    case 3
    from Cons.IH [OF this] consider "d' f = Some (file_bytes d f @ bs)"
      | k where "d' f = Some (file_bytes d f @ bs @ take k (concat bss))"
      by (auto simp: file_bytes_def)
    then show ?thesis
    proof cases
      case 1
      then have "d' f = Some (file_bytes d f @ take (length bs) (concat (bs # bss)))" by simp
      then show ?thesis by blast
    next
      case (2 k)
      then have "d' f = Some (file_bytes d f @ take (length bs + k) (concat (bs # bss)))" by simp
      then show ?thesis by blast
    qed
  qed simp
qed

end
