(* ===== verification/File_Store.thy ===== *)
theory File_Store
  imports Fs Codec Search Field Pir_Types
begin

text \<open>
  The flat-file store of \<^verbatim>\<open>nf-ingest/src/file_store.rs\<close>: the append-only nullifier file, the
  16-byte checkpoint committed by a rename, the height index and the dataset marker.
  JSON coding of the marker is a parameter (\<open>serde_json\<close>). The functions that write return
  the new directory; the operations they perform are given as lists, so that the states a
  crash can leave behind are the ones of \<open>Fs.crash\<close>.
\<close>

definition NULLIFIER_SIZE :: usize where
  "NULLIFIER_SIZE = 32"

definition CHECKPOINT_SIZE :: usize where
  "CHECKPOINT_SIZE = 16"

definition INDEX_ENTRY_SIZE :: usize where
  "INDEX_ENTRY_SIZE = 16"

definition DATASET_MARKER_FILENAME :: string where
  "DATASET_MARKER_FILENAME = ''nullifiers.dataset.json''"

definition RAW_DATASET_ARTIFACTS :: "string list" where
  "RAW_DATASET_ARTIFACTS =
     [''nullifiers.bin'', ''nullifiers.checkpoint'', ''nullifiers.checkpoint.tmp'',
      ''nullifiers.index'', ''nullifiers.tree'', ''nullifiers.tree.tmp'']"

definition nullifiers_path :: string where
  "nullifiers_path = ''nullifiers.bin''"

definition checkpoint_path :: string where
  "checkpoint_path = ''nullifiers.checkpoint''"

definition checkpoint_tmp :: string where
  "checkpoint_tmp = ''nullifiers.checkpoint.tmp''"

definition index_path :: string where
  "index_path = ''nullifiers.index''"

definition marker_tmp :: string where
  "marker_tmp = ''nullifiers.dataset.json.tmp''"

lemmas path_defs = nullifiers_path_def checkpoint_path_def checkpoint_tmp_def index_path_def
  marker_tmp_def DATASET_MARKER_FILENAME_def

record DatasetMarker =
  dm_zcash_network :: ZcashNetwork
  dm_nullifier_pool :: string
  dm_dataset_version :: u32

record marker_json =
  marker_to_json :: "DatasetMarker \<Rightarrow> bytes"
  marker_from_json :: "bytes \<Rightarrow> DatasetMarker option"

section \<open>Dataset identity\<close>

definition check_marker :: "marker_json \<Rightarrow> bytes \<Rightarrow> DatasetMarker result" where
  "check_marker J bs =
     and_then (ok_or (marker_from_json J bs) (Error ''decode dataset marker'')) (\<lambda>marker.
     ensure (is_current_dataset (dm_nullifier_pool marker) (dm_dataset_version marker))
       ''marker identifies another pool or dataset version'' (Ok marker))"

definition ensure_ironwood_dataset :: "marker_json \<Rightarrow> dir \<Rightarrow> ZcashNetwork \<Rightarrow> dir result" where
  "ensure_ironwood_dataset J d expected_network =
     (case d DATASET_MARKER_FILENAME of
        Some bs \<Rightarrow>
          and_then (check_marker J bs) (\<lambda>marker.
          ensure (dm_zcash_network marker = expected_network) ''marker identifies another Zcash network'' (Ok d))
      | None \<Rightarrow>
          if \<exists>name \<in> set RAW_DATASET_ARTIFACTS. d name \<noteq> None
          then Bail ''artifact exists without dataset marker''
          else
            let marker = \<lparr>dm_zcash_network = expected_network, dm_nullifier_pool = NULLIFIER_POOL,
                          dm_dataset_version = DATASET_VERSION\<rparr>;
                bs = marker_to_json J marker @ [10]
            in Ok (run_ops [WriteFile marker_tmp bs, RenameFile marker_tmp DATASET_MARKER_FILENAME] d))"

definition dataset_network :: "marker_json \<Rightarrow> dir \<Rightarrow> ZcashNetwork result" where
  "dataset_network J d =
     and_then (ok_or (d DATASET_MARKER_FILENAME) (Error ''read dataset marker'')) (\<lambda>bs.
     and_then (check_marker J bs) (\<lambda>marker. Ok (dm_zcash_network marker)))"

section \<open>Checkpoint and index\<close>

definition checkpoint_bytes :: "u64 \<Rightarrow> u64 \<Rightarrow> bytes" where
  "checkpoint_bytes height offset = u64_to_le height @ u64_to_le offset"

definition append_index_ops :: "u64 \<Rightarrow> u64 \<Rightarrow> fs_op list" where
  "append_index_ops height offset = [AppendFile index_path (checkpoint_bytes height offset)]"

definition append_index :: "dir \<Rightarrow> u64 \<Rightarrow> u64 \<Rightarrow> dir" where
  "append_index d height offset = run_ops (append_index_ops height offset) d"

definition save_checkpoint_ops :: "u64 \<Rightarrow> u64 \<Rightarrow> fs_op list" where
  "save_checkpoint_ops height offset =
     [WriteFile checkpoint_tmp (checkpoint_bytes height offset), RenameFile checkpoint_tmp checkpoint_path] @
     append_index_ops height offset"

definition save_checkpoint :: "dir \<Rightarrow> u64 \<Rightarrow> u64 \<Rightarrow> dir" where
  "save_checkpoint d height offset = run_ops (save_checkpoint_ops height offset) d"

definition load_checkpoint :: "dir \<Rightarrow> (u64 \<times> u64) option result" where
  "load_checkpoint d =
     (case d checkpoint_path of
        None \<Rightarrow> Ok None
      | Some bs \<Rightarrow>
          if length bs \<noteq> CHECKPOINT_SIZE then Bail ''corrupt checkpoint''
          else Ok (Some (u64_from_le (take 8 bs), u64_from_le (drop 8 bs))))"

text \<open>The closure \<open>entry\<close> of \<open>offset_for_height\<close>.\<close>

definition index_entry :: "bytes \<Rightarrow> usize \<Rightarrow> (u64 \<times> u64) result" where
  "index_entry data i =
     (let off = i * INDEX_ENTRY_SIZE
      in and_then (slice_res data off 8) (\<lambda>h.
         and_then (slice_res data (off + 8) 8) (\<lambda>o'.
         Ok (u64_from_le h, u64_from_le o'))))"

definition offset_for_height :: "dir \<Rightarrow> u64 \<Rightarrow> (u64 \<times> u64) option result" where
  "offset_for_height d target_height =
     (case d index_path of
        None \<Rightarrow> Ok None
      | Some data \<Rightarrow>
          if length data mod INDEX_ENTRY_SIZE \<noteq> 0 then Bail ''corrupt index file''
          else
            let n = length data div INDEX_ENTRY_SIZE
            in if n = 0 then Ok None
               else
                 and_then (search_loop (\<lambda>mid. and_then (index_entry data mid) (\<lambda>(h, _). Ok h))
                             target_height 0 n) (\<lambda>lo.
                 if lo = 0 then Ok None
                 else and_then (index_entry data (lo - 1)) (\<lambda>(h, o'). Ok (Some (h, o')))))"

definition rebuild_index :: "dir \<Rightarrow> dir result" where
  "rebuild_index d =
     (if d index_path \<noteq> None then Ok d
      else and_then (load_checkpoint d) (\<lambda>cp.
        case cp of None \<Rightarrow> Ok d | Some (height, offset) \<Rightarrow> Ok (append_index d height offset)))"

section \<open>The nullifier file\<close>

definition append_nullifiers_ops :: "(u64 \<times> bytes) list \<Rightarrow> fs_op list" where
  "append_nullifiers_ops nfs = map (AppendFile nullifiers_path) ([] # map snd nfs)"

definition append_nullifiers :: "dir \<Rightarrow> (u64 \<times> bytes) list \<Rightarrow> (dir \<times> u64) result" where
  "append_nullifiers d nfs =
     and_then (try_fold (\<lambda>(_, nf) _. ensure (length nf = NULLIFIER_SIZE) ''nullifier has wrong length'' (Ok ())) nfs ()) (\<lambda>_.
     let d' = run_ops (append_nullifiers_ops nfs) d
     in Ok (d', word_of_nat (length (file_bytes d' nullifiers_path))))"

definition truncate_to_checkpoint :: "dir \<Rightarrow> u64 \<Rightarrow> dir" where
  "truncate_to_checkpoint d offset = run_ops [SetLen nullifiers_path (unat offset)] d"

definition parse_nullifier_bytes :: "bytes \<Rightarrow> 'p::len fp list result" where
  "parse_nullifier_bytes data =
     ensure (length data mod NULLIFIER_SIZE = 0) ''data length is not a multiple of 32''
       (try_map (\<lambda>chunk. ok_or (from_repr chunk) (Error ''non-canonical nullifier encoding''))
         (chunks_exact NULLIFIER_SIZE data))"

definition load_all_nullifiers :: "dir \<Rightarrow> 'p::len fp list result" where
  "load_all_nullifiers d =
     (case d nullifiers_path of
        None \<Rightarrow> Ok []
      | Some data \<Rightarrow>
          if length data mod NULLIFIER_SIZE \<noteq> 0 then Bail ''corrupt nullifiers file''
          else parse_nullifier_bytes data)"

definition load_nullifiers_up_to :: "dir \<Rightarrow> u64 \<Rightarrow> 'p::len fp list result" where
  "load_nullifiers_up_to d byte_offset =
     (case d nullifiers_path of
        None \<Rightarrow> Ok []
      | Some full_data \<Rightarrow>
          let byte_offset = unat byte_offset
          in if byte_offset mod NULLIFIER_SIZE \<noteq> 0 then Bail ''byte_offset is not a multiple of 32''
             else
               let data = (if byte_offset < length full_data then take byte_offset full_data else full_data)
               in parse_nullifier_bytes data)"

definition nullifier_count :: "dir \<Rightarrow> u64" where
  "nullifier_count d =
     (case d nullifiers_path of None \<Rightarrow> 0 | Some data \<Rightarrow> word_of_nat (length data div NULLIFIER_SIZE))"

section \<open>Round trips\<close>

lemma length_checkpoint_bytes [simp]: "length (checkpoint_bytes h off) = 16"
  by (simp add: checkpoint_bytes_def)

definition checkpoint_decode :: "bytes \<Rightarrow> (u64 \<times> u64) option" where
  "checkpoint_decode bs =
     (if length bs = 16 then Some (u64_from_le (take 8 bs), u64_from_le (drop 8 bs)) else None)"

interpretation entry_codec: fixed_codec 16 "\<lambda>(h, off). checkpoint_bytes h off" checkpoint_decode
proof
  show "(case x of (h, off) \<Rightarrow> checkpoint_bytes h off) = bs"
    if "length bs = 16" "checkpoint_decode bs = Some x" for bs :: bytes and x
    using that by (auto simp: checkpoint_decode_def checkpoint_bytes_def u64_to_from split: if_splits)
qed (auto simp: checkpoint_decode_def checkpoint_bytes_def)

definition index_blob :: "(u64 \<times> u64) list \<Rightarrow> bytes" where
  "index_blob es = concat (map (\<lambda>(h, off). checkpoint_bytes h off) es)"

lemma length_index_blob [simp]: "length (index_blob es) = 16 * length es"
  by (simp add: index_blob_def entry_codec.length_concat_enc)

lemma index_entry_blob: "i < length es \<Longrightarrow> index_entry (index_blob es) i = Ok (es ! i)"
proof -
  assume i: "i < length es"
  obtain h off where e: "es ! i = (h, off)" by (cases "es ! i")
  have at: "take 16 (drop (i * 16) (index_blob es)) = checkpoint_bytes h off"
    using entry_codec.concat_enc_at [OF i] e by (simp add: index_blob_def)
  have len: "i * 16 + 16 \<le> length (index_blob es)" using i by simp
  have "take 8 (drop (i * 16) (index_blob es)) = take 8 (checkpoint_bytes h off)"
    by (simp flip: at add: take_take)
  moreover have "take 8 (drop (i * 16 + 8) (index_blob es)) = drop 8 (checkpoint_bytes h off)"
    by (simp flip: at add: drop_take add.commute)
  ultimately show ?thesis
    using len by (simp add: index_entry_def INDEX_ENTRY_SIZE_def slice_res_def checkpoint_bytes_def e)
qed

interpretation index_keys: keyed_records
  "\<lambda>es mid. and_then (index_entry (index_blob es) mid) (\<lambda>(h, _). Ok h)" "map fst"
  by unfold_locales (auto simp: index_entry_blob split: prod.split)

text \<open>
  On an index with non-decreasing heights the lookup returns the last entry at or below
  the target, and nothing when all entries are above it.
\<close>

lemma offset_for_height_sorted:
  assumes "d index_path = Some (index_blob es)" "sorted (map fst es)"
  shows "offset_for_height d target =
    Ok (if filter (\<lambda>e. fst e \<le> target) es = [] then None
        else Some (last (filter (\<lambda>e. fst e \<le> target) es)))"
proof -
  obtain r where r: "search_loop (\<lambda>mid. and_then (index_entry (index_blob es) mid) (\<lambda>(h, _). Ok h)) target 0 (length es) = Ok r"
    and sp: "is_split (map fst es) (length es) target r"
    using index_keys.search_sorted [of "length es" es target] assms(2) by auto
  have le: "r \<le> length es" using sp by (simp add: is_split_def)
  have "filter (\<lambda>e. fst e \<le> target) es =
      filter (\<lambda>e. fst e \<le> target) (take r es) @ filter (\<lambda>e. fst e \<le> target) (drop r es)"
    by (metis append_take_drop_id filter_append)
  moreover have "filter (\<lambda>e. fst e \<le> target) (take r es) = take r es"
    using sp le by (fastforce simp: filter_id_conv is_split_def in_set_conv_nth)
  moreover have "filter (\<lambda>e. fst e \<le> target) (drop r es) = []"
  proof -
    have "\<not> fst (drop r es ! j) \<le> target" if "j < length (drop r es)" for j
      using sp that by (auto simp: is_split_def not_le)
    then show ?thesis by (metis filter_False in_set_conv_nth)
  qed
  ultimately have f: "filter (\<lambda>e. fst e \<le> target) es = take r es" by simp
  show ?thesis
  proof (cases "es = []")
    case True
    with assms(1) show ?thesis by (simp add: offset_for_height_def index_blob_def)
  next
    case False
    then have "offset_for_height d target =
        (if r = 0 then Ok None else and_then (index_entry (index_blob es) (r - 1)) (\<lambda>(h, o'). Ok (Some (h, o'))))"
      using assms(1) r by (simp add: offset_for_height_def INDEX_ENTRY_SIZE_def)
    also have "\<dots> = Ok (if r = 0 then None else Some (es ! (r - 1)))"
      using le by (auto simp: index_entry_blob split: prod.split)
    also have "\<dots> = Ok (if take r es = [] then None else Some (last (take r es)))"
      using le False by (auto simp: last_conv_nth min_def)
    finally show ?thesis by (simp only: f)
  qed
qed

lemma load_save_checkpoint: "load_checkpoint (save_checkpoint d h off) = Ok (Some (h, off))"
  by (simp add: load_checkpoint_def save_checkpoint_def save_checkpoint_ops_def append_index_ops_def path_defs
      checkpoint_bytes_def CHECKPOINT_SIZE_def)

lemma parse_nullifier_bytes_concat:
  "parse_nullifier_bytes (concat (map to_repr (vs :: 'p::len fp list))) = Ok vs"
proof -
  have "try_map (\<lambda>chunk. ok_or (from_repr chunk) e) (map to_repr vs) = Ok vs" for e
    by (simp add: try_map_Ok_iff list_all2_conv_all_nth)
  then show ?thesis
    by (simp add: parse_nullifier_bytes_def NULLIFIER_SIZE_def fp_codec.length_concat_enc fp_codec.chunks_concat_enc)
qed

lemma append_lengths_Ok_iff:
  "try_fold (\<lambda>(_, nf) _. ensure (length nf = NULLIFIER_SIZE) m (Ok ())) nfs () = Inr () \<longleftrightarrow>
    (\<forall>(_, nf) \<in> set nfs. length nf = 32)"
  by (induction nfs) (auto simp: result_simps NULLIFIER_SIZE_def)

lemma append_nullifiers_Ok_iff:
  "append_nullifiers d nfs = Inr r \<longleftrightarrow>
     (\<forall>(_, nf) \<in> set nfs. length nf = 32) \<and>
     r = (run_ops (append_nullifiers_ops nfs) d,
          word_of_nat (length (file_bytes d nullifiers_path) + 32 * length nfs))"
proof -
  have "length (concat (map snd nfs)) = 32 * length nfs" if "\<forall>(_, nf) \<in> set nfs. length nf = 32"
    using that by (subst concat_uniform_length [of _ 32]) auto
  moreover have "file_bytes (run_ops (append_nullifiers_ops nfs) d) nullifiers_path =
      file_bytes d nullifiers_path @ concat (map snd nfs)"
    unfolding append_nullifiers_ops_def file_bytes_def run_appends by simp
  ultimately show ?thesis
    using append_lengths_Ok_iff [of "''nullifier has wrong length''" nfs]
    by (auto simp: append_nullifiers_def and_then_Ok_iff Let_def)
qed

end
