(* ===== verification/Sync.thy ===== *)
theory Sync
  imports File_Store Ascii
begin

text \<open>
  Nullifier ingestion, \<^verbatim>\<open>nf-ingest/src/sync_nullifiers.rs\<close> and \<^verbatim>\<open>config.rs\<close>: resuming from a
  checkpoint, choosing the target height, cutting the range into batches, extracting
  nullifiers and the sync loop that appends and commits one cycle at a time. The
  lightwalletd servers are a parameter: which URLs connect, the chain tip, the tree states
  and the blocks they stream. Heights are \<open>u64\<close> in the source; they are natural numbers
  here and each addition that could overflow is checked against \<open>2 ^ 64\<close> (a panic).
\<close>

section \<open>Configuration\<close>

definition NU6_3_MAINNET_ACTIVATION_HEIGHT :: nat where
  "NU6_3_MAINNET_ACTIVATION_HEIGHT = 3428143"

definition NU6_3_TESTNET_ACTIVATION_HEIGHT :: nat where
  "NU6_3_TESTNET_ACTIVATION_HEIGHT = 4134000"

fun nu6_3_activation_height :: "ZcashNetwork \<Rightarrow> nat" where
  "nu6_3_activation_height Main = NU6_3_MAINNET_ACTIVATION_HEIGHT"
| "nu6_3_activation_height Test = NU6_3_TESTNET_ACTIVATION_HEIGHT"

definition DEFAULT_LWD_URLS :: "string list" where
  "DEFAULT_LWD_URLS =
     [''https://us.zec.stardust.rest:443'', ''https://eu.zec.stardust.rest:443'', ''https://zec.rocks:443'']"

definition DEFAULT_SINGLE_LWD_URL :: string where
  "DEFAULT_SINGLE_LWD_URL = ''https://us.zec.stardust.rest:443''"

definition INVALIDATE_AFTER_BLOCKS_TREE_FILES :: "string list" where
  "INVALIDATE_AFTER_BLOCKS_TREE_FILES = [''nullifiers.tree'', ''nullifiers.tree.tmp'']"

definition INVALIDATE_AFTER_BLOCKS_TIER_FILES :: "string list" where
  "INVALIDATE_AFTER_BLOCKS_TIER_FILES = [''tier0.bin'', ''tier1.bin'', ''pir_root.json'']"

definition validate_export_height :: "nat \<Rightarrow> ZcashNetwork \<Rightarrow> unit result" where
  "validate_export_height height network =
     ensure (height \<ge> nu6_3_activation_height network) ''height is below NU6.3 activation''
       (ensure (height mod 10 = 0) ''height must be a multiple of 10'' (Ok ()))"

definition resolve_lwd_urls_with_override :: "string \<Rightarrow> string option \<Rightarrow> string list" where
  "resolve_lwd_urls_with_override cli_url override_urls =
     (let urls = (case override_urls of None \<Rightarrow> []
                  | Some s \<Rightarrow> filter (\<lambda>url. url \<noteq> []) (map trim (split_on CHR '','' s)))
      in if urls \<noteq> [] then urls
         else if cli_url = DEFAULT_SINGLE_LWD_URL then DEFAULT_LWD_URLS
         else [cli_url])"

section \<open>Sync\<close>

definition BATCH_SIZE :: nat where
  "BATCH_SIZE = 10000"

definition BLOCK_ALIGNMENT :: nat where
  "BLOCK_ALIGNMENT = 10"

text \<open>The messages of the gRPC interface that sync reads.\<close>

record CompactTx =
  ironwood_actions :: "bytes list"

record CompactBlock =
  cb_height :: u64
  cb_vtx :: "CompactTx list"

record TreeState =
  ts_network :: string
  ts_height :: nat
  ts_ironwood_tree :: string

text \<open>One connected lightwalletd server.\<close>

record lwd =
  lwd_latest :: "nat result"
  lwd_tree_state :: "nat \<Rightarrow> TreeState result"
  lwd_blocks :: "nat \<Rightarrow> nat \<Rightarrow> CompactBlock list result"

definition resume_height :: "marker_json \<Rightarrow> dir \<Rightarrow> ZcashNetwork \<Rightarrow> (nat \<times> dir) result" where
  "resume_height J d network =
     (let activation_height = nu6_3_activation_height network
      in and_then (ensure_ironwood_dataset J d network) (\<lambda>d.
         and_then (load_checkpoint d) (\<lambda>cp.
         case cp of
           Some (h, offset) \<Rightarrow>
             if unat h \<ge> activation_height then Ok (unat h, truncate_to_checkpoint d offset)
             else Bail ''checkpoint height predates NU6.3 activation''
         | None \<Rightarrow> Ok (activation_height - 1, truncate_to_checkpoint d 0))))"

definition extract_ironwood_nullifiers :: "CompactBlock \<Rightarrow> (u64 \<times> bytes) list result" where
  "extract_ironwood_nullifiers block =
     try_fold (\<lambda>tx acc.
       try_fold (\<lambda>nf acc. ensure (length nf = 32) ''Ironwood nullifier has wrong length'' (Ok (acc @ [(cb_height block, nf)])))
         (ironwood_actions tx) acc)
     (cb_vtx block) []"

definition validate_ironwood_tree_state :: "ZcashNetwork \<Rightarrow> nat \<Rightarrow> TreeState \<Rightarrow> unit result" where
  "validate_ironwood_tree_state expected_network expected_height state =
     ensure (ts_network state = as_str expected_network) ''lightwalletd returned another network''
       (ensure (ts_height state = expected_height) ''lightwalletd returned another tree state height''
         (ensure (ts_ironwood_tree state \<noteq> []) ''lightwalletd omitted the Ironwood tree'' (Ok ())))"

definition require_ironwood_tree_state :: "lwd \<Rightarrow> ZcashNetwork \<Rightarrow> nat \<Rightarrow> unit result" where
  "require_ironwood_tree_state client network height =
     and_then (lwd_tree_state client height) (validate_ironwood_tree_state network height)"

definition fetch_block_range :: "lwd \<Rightarrow> nat \<Rightarrow> nat \<Rightarrow> (u64 \<times> bytes) list result" where
  "fetch_block_range client start end' =
     and_then (lwd_blocks client start end') (\<lambda>blocks.
     try_fold (\<lambda>block buffer. and_then (extract_ironwood_nullifiers block) (\<lambda>nfs. Ok (buffer @ nfs))) blocks [])"

text \<open>The quotient by ten plus one is far from overflowing; its product with ten is checked.\<close>

definition resolve_target :: "nat \<Rightarrow> nat option \<Rightarrow> nat \<Rightarrow> nat result" where
  "resolve_target start max_height chain_tip =
     (case max_height of
        Some h \<Rightarrow>
          if h < start
          then and_then (ok_or (checked_mul (start div BLOCK_ALIGNMENT + 1) BLOCK_ALIGNMENT) (Panic ''attempt to multiply with overflow'')) (\<lambda>next_multiple.
               Ok (min next_multiple chain_tip))
          else Ok (min h chain_tip)
      | None \<Rightarrow> Ok chain_tip)"

text \<open>One iteration of the loop of \<open>build_batch_ranges\<close> per unit of \<open>n\<close>.\<close>

fun build_batch_ranges :: "nat \<Rightarrow> nat \<Rightarrow> nat \<Rightarrow> (nat \<times> nat) list result" where
  "build_batch_ranges current target 0 = Ok []"
| "build_batch_ranges current target (Suc n) =
     (if current > target then Ok []
      else and_then (ok_or (checked_add current BATCH_SIZE) (Panic ''attempt to add with overflow'')) (\<lambda>s.
        let batch_end = min (s - 1) target
        in and_then (build_batch_ranges (batch_end + 1) target n) (\<lambda>rest.
           Ok ((current, batch_end) # rest))))"

record SyncResult =
  sr_chain_tip :: nat
  sr_blocks_synced :: nat
  sr_nullifiers_synced :: nat

text \<open>The downloads of one cycle, one client per batch, joined in order.\<close>

definition fetch_cycle :: "lwd list \<Rightarrow> (nat \<times> nat) list \<Rightarrow> (u64 \<times> bytes) list result" where
  "fetch_cycle clients ranges =
     and_then (try_map (\<lambda>(client, (s, e)). fetch_block_range client s e) (zip clients ranges)) (\<lambda>parts.
     Ok (concat parts))"

definition commit_cycle :: "dir \<Rightarrow> (u64 \<times> bytes) list \<Rightarrow> nat \<Rightarrow> dir result" where
  "commit_cycle d nfs cycle_end =
     and_then (append_nullifiers d nfs) (\<lambda>(d, offset).
     Ok (save_checkpoint d (word_of_nat cycle_end) offset))"

text \<open>A cycle ends at or after the height it starts at.\<close>

lemma batches_progress:
  "build_batch_ranges current target n = Inr ranges \<Longrightarrow> ranges \<noteq> [] \<Longrightarrow> current \<le> snd (last ranges)"
proof (induction n arbitrary: current ranges)
  case 0
  then show ?case by simp
next
  case (Suc n)
  from Suc.prems have le: "current \<le> target" by (auto split: if_splits)
  with Suc.prems obtain rest where rest: "ranges = (current, min (current + BATCH_SIZE - 1) target) # rest"
    "build_batch_ranges (min (current + BATCH_SIZE - 1) target + 1) target n = Inr rest"
    by (auto simp: and_then_Ok_iff checked_add_def Let_def split: if_splits)
  have b: "current \<le> min (current + BATCH_SIZE - 1) target" using le by (simp add: BATCH_SIZE_def)
  show ?case
  proof (cases "rest = []")
    case True
    with rest(1) b show ?thesis by simp
  next
    case False
    from Suc.IH [OF rest(2) this] b have "current \<le> snd (last rest)" by linarith
    with rest(1) False show ?thesis by simp
  qed
qed

text \<open>The loop of \<open>sync\<close>: it ends, because every cycle advances.\<close>

declare and_then_cong [fundef_cong]

function sync_loop :: "lwd list \<Rightarrow> nat \<Rightarrow> nat \<Rightarrow> dir \<Rightarrow> nat \<Rightarrow> nat \<Rightarrow> (dir \<times> nat \<times> nat) result" where
  "sync_loop clients target current d total_nfs blocks_synced =
     (if current \<le> target then
        and_then (build_batch_ranges current target (length clients)) (\<lambda>ranges.
        and_then (fetch_cycle clients ranges) (\<lambda>all_nfs.
        and_then (if ranges = [] then Err (Panic ''batch_ranges is non-empty'') else Ok (snd (last ranges))) (\<lambda>cycle_end.
        and_then (commit_cycle d all_nfs cycle_end) (\<lambda>d.
        sync_loop clients target (cycle_end + 1) d (total_nfs + length all_nfs)
          (blocks_synced + (cycle_end - current + 1))))))
      else Ok (d, total_nfs, blocks_synced))"
  by pat_completeness auto
termination
  by (relation "measure (\<lambda>(_, target, current, _). target + 1 - current)")
    (auto split: if_splits dest: batches_progress)

declare sync_loop.simps [simp del]

definition sync ::
  "marker_json \<Rightarrow> (string \<Rightarrow> lwd option) \<Rightarrow> dir \<Rightarrow> string list \<Rightarrow> ZcashNetwork \<Rightarrow> nat option \<Rightarrow> (dir \<times> SyncResult) result" where
  "sync J connect_lwd d lwd_urls network max_height =
     ensure (lwd_urls \<noteq> []) ''at least one lightwalletd URL is required''
     (and_then (ensure_ironwood_dataset J d network) (\<lambda>d.
      let clients = List.map_filter connect_lwd lwd_urls
      in ensure (clients \<noteq> []) ''failed to connect to any lightwalletd endpoint''
         (and_then (lwd_latest (hd clients)) (\<lambda>chain_tip.
          and_then (resume_height J d network) (\<lambda>(start, d).
          and_then (resolve_target start max_height chain_tip) (\<lambda>target.
          and_then (try_fold (\<lambda>client _. require_ironwood_tree_state client network target) clients ()) (\<lambda>_.
             if start \<ge> target
             then Ok (d, \<lparr>sr_chain_tip = chain_tip, sr_blocks_synced = 0, sr_nullifiers_synced = 0\<rparr>)
             else
               and_then (sync_loop clients target (start + 1) d 0 0) (\<lambda>(d, total_nfs, blocks).
               Ok (d, \<lparr>sr_chain_tip = chain_tip, sr_blocks_synced = blocks, sr_nullifiers_synced = total_nfs\<rparr>)))))))))"

end
