(* ===== verification/Snapshot_Source.thy ===== *)
theory Snapshot_Source
  imports Pir_Client Sync
begin

text \<open>
  Where a server learns which snapshot to serve: the PIR configuration document
  (\<^verbatim>\<open>nf-server/src/pir_config.rs\<close>) and the older discovery through the voting configuration
  and the active round (\<^verbatim>\<open>nf-server/src/voting_config.rs\<close>). HTTP is a function from URLs to
  responses; the JSON documents are decoded by parameters.
\<close>

datatype JsonU64 = Number u64 | JsonString string

definition json_u64_parse :: "JsonU64 \<Rightarrow> nat result" where
  "json_u64_parse j =
     (case j of
        Number n \<Rightarrow> Ok (unat n)
      | JsonString s \<Rightarrow> ok_or (parse_u64 s) (Error ''parse snapshot_height''))"

record ServiceDiscoveryConfig =
  vote_servers :: "string list"
  dynamic_config_url :: "string option"
  static_config_version :: "u32 option"

text \<open>The active round of a vote server, with its optional snapshot height.\<close>

record ActiveRoundResponse =
  ar_round :: "JsonU64 option option"

record PirSnapshotConfig =
  psc_schema_version :: u32
  psc_snapshot_height :: JsonU64

record source_json =
  discovery_from_json :: "bytes \<Rightarrow> ServiceDiscoveryConfig option"
  active_from_json :: "bytes \<Rightarrow> ActiveRoundResponse option"
  pir_config_from_json :: "bytes \<Rightarrow> PirSnapshotConfig option"

text \<open>\<open>client.get(url).send()?.error_for_status()?\<close>: 4xx and 5xx are errors.\<close>

type_synonym http = "string \<Rightarrow> TransportResponse result"

definition get_ok :: "http \<Rightarrow> string \<Rightarrow> bytes result" where
  "get_ok http url =
     and_then (http url) (\<lambda>resp.
     ensure (rsp_status resp < 400) ''GET (non-2xx)'' (Ok (rsp_body resp)))"

section \<open>Voting configuration\<close>

definition fetch_discovery_config :: "source_json \<Rightarrow> http \<Rightarrow> string \<Rightarrow> ServiceDiscoveryConfig result" where
  "fetch_discovery_config J http url =
     and_then (get_ok http url) (\<lambda>body.
     ok_or (discovery_from_json J body) (Error ''decode as voting service-discovery config''))"

definition configured_vote_servers :: "ServiceDiscoveryConfig \<Rightarrow> string list result" where
  "configured_vote_servers cfg =
     (let servers = filter (\<lambda>url. url \<noteq> []) (map trim_end_slashes (vote_servers cfg))
      in if servers = [] then Bail ''dynamic voting-config has no vote_servers'' else Ok servers)"

definition resolve_vote_servers :: "source_json \<Rightarrow> http \<Rightarrow> string \<Rightarrow> string list result" where
  "resolve_vote_servers J http url =
     and_then (fetch_discovery_config J http url) (\<lambda>cfg.
     case dynamic_config_url cfg of
       Some dynamic_url \<Rightarrow>
         (let dynamic_url = trim dynamic_url
          in if dynamic_url = [] then Bail ''static voting-config has an empty dynamic_config_url''
             else and_then (fetch_discovery_config J http dynamic_url) configured_vote_servers)
     | None \<Rightarrow> configured_vote_servers cfg)"

definition fetch_vote_server_active_snapshot_height :: "source_json \<Rightarrow> http \<Rightarrow> string \<Rightarrow> nat option result" where
  "fetch_vote_server_active_snapshot_height J http vote_server =
     and_then (http (vote_server @ ''/shielded-vote/v1/rounds/active'')) (\<lambda>resp.
     if rsp_status resp = 404 then Ok None
     else
       ensure (rsp_status resp < 400) ''GET (non-2xx)''
       (and_then (ok_or (active_from_json J (rsp_body resp)) (Error ''decode as active round'')) (\<lambda>active.
        case Option.bind (ar_round active) id of
          None \<Rightarrow> Ok None
        | Some h \<Rightarrow> and_then (json_u64_parse h) (\<lambda>n. Ok (Some n)))))"

text \<open>The loop over the servers, with its two accumulators.\<close>

fun query_servers :: "(string \<Rightarrow> nat option result) \<Rightarrow> string list \<Rightarrow> bool \<Rightarrow> error option \<Rightarrow> nat option result" where
  "query_servers f [] saw_no_active_round first_error =
     (if saw_no_active_round then Ok None
      else case first_error of Some err \<Rightarrow> Err err | None \<Rightarrow> Ok None)"
| "query_servers f (s # ss) saw_no_active_round first_error =
     (case f s of
        Inr (Some height) \<Rightarrow> Ok (Some height)
      | Inr None \<Rightarrow> query_servers f ss True first_error
      | Inl err \<Rightarrow> query_servers f ss saw_no_active_round (case first_error of None \<Rightarrow> Some err | Some e \<Rightarrow> Some e))"

definition fetch_voting_snapshot_height :: "source_json \<Rightarrow> http \<Rightarrow> string \<Rightarrow> nat option result" where
  "fetch_voting_snapshot_height J http url =
     and_then (resolve_vote_servers J http url) (\<lambda>servers.
     query_servers (fetch_vote_server_active_snapshot_height J http) servers False None)"

definition fetch_required_snapshot_height :: "source_json \<Rightarrow> http \<Rightarrow> string \<Rightarrow> nat result" where
  "fetch_required_snapshot_height J http url =
     and_then (fetch_voting_snapshot_height J http url) (\<lambda>h.
     ok_or h (Error ''no on-chain round with snapshot_height discovered''))"

section \<open>PIR configuration\<close>

definition DEFAULT_PROD_PIR_CONFIG_URL :: string where
  "DEFAULT_PROD_PIR_CONFIG_URL = ''https://voting.valargroup.dev/prod/pir.json''"

definition DEFAULT_STAGE_PIR_CONFIG_URL :: string where
  "DEFAULT_STAGE_PIR_CONFIG_URL = ''https://voting.valargroup.dev/stage/pir.json''"

datatype Source =
    SourceDisabled
  | SourceUrl string bool
  | FallbackToVotingConfig

definition trim_url :: "string \<Rightarrow> string" where
  "trim_url url = trim_end_slashes (trim url)"

definition is_stage_url :: "string \<Rightarrow> bool" where
  "is_stage_url url =
     (let lower = to_ascii_lowercase url
      in contains lower ''/stage/'' \<or> contains lower ''stage/static-voting-config'')"

definition is_prod_url :: "string \<Rightarrow> bool" where
  "is_prod_url url =
     (let lower = to_ascii_lowercase url
      in contains lower ''/prod/'' \<or>
         lower = ''https://voting.valargroup.org/static-voting-config.json'' \<or>
         lower = ''https://voting.valargroup.org/prod/static-voting-config.json'')"

definition resolve_source :: "string option \<Rightarrow> string \<Rightarrow> Source result" where
  "resolve_source explicit_pir_config_url voting_config_url =
     (case explicit_pir_config_url of
        Some url \<Rightarrow>
          (let url = trim_url url in if url = [] then Ok SourceDisabled else Ok (SourceUrl url True))
      | None \<Rightarrow>
          (let voting_config_url = trim_url voting_config_url
           in if voting_config_url = [] then Ok SourceDisabled
              else if is_stage_url voting_config_url then Ok (SourceUrl DEFAULT_STAGE_PIR_CONFIG_URL False)
              else if is_prod_url voting_config_url then Ok (SourceUrl DEFAULT_PROD_PIR_CONFIG_URL False)
              else Ok FallbackToVotingConfig))"

definition fetch_pir_config_height :: "source_json \<Rightarrow> http \<Rightarrow> string \<Rightarrow> ZcashNetwork \<Rightarrow> nat result" where
  "fetch_pir_config_height J http url expected_network =
     and_then (get_ok http url) (\<lambda>body.
     and_then (ok_or (pir_config_from_json J body) (Error ''decode as PIR snapshot config'')) (\<lambda>cfg.
     ensure (psc_schema_version cfg = 1) ''pir config schema_version''
     (and_then (json_u64_parse (psc_snapshot_height cfg)) (\<lambda>height.
      and_then (validate_export_height height expected_network) (\<lambda>_. Ok height)))))"

section \<open>What the servers' answers give\<close>

definition first_height :: "nat option result list \<Rightarrow> nat option" where
  "first_height rs = Option.bind (find (\<lambda>r. \<exists>h. r = Inr (Some h)) rs) (\<lambda>r. case r of Inr h \<Rightarrow> h | Inl _ \<Rightarrow> None)"

text \<open>The first height wins; else a server without a round; else the first error.\<close>

definition combine_answers :: "nat option result list \<Rightarrow> nat option result" where
  "combine_answers rs =
     (case first_height rs of
        Some h \<Rightarrow> Ok (Some h)
      | None \<Rightarrow>
          if Ok None \<in> set rs \<or> rs = [] then Ok None else hd rs)"

lemma query_servers_eq:
  "query_servers f ss saw e =
     (case first_height (map f ss) of
        Some h \<Rightarrow> Ok (Some h)
      | None \<Rightarrow>
          if saw \<or> Ok None \<in> f ` set ss then Ok None
          else (case e of Some err \<Rightarrow> Err err | None \<Rightarrow> if ss = [] then Ok None else f (hd ss)))"
proof (induction ss arbitrary: saw e)
  case Nil
  show ?case by (simp add: first_height_def split: option.split)
next
  case (Cons s ss)
  consider (height) h where "f s = Inr (Some h)" | (none) "f s = Inr None" | (err) x where "f s = Inl x"
    by (cases "f s"; cases "projr (f s)") auto
  then show ?case
  proof cases
    case height
    then show ?thesis by (simp add: first_height_def)
  next
    case none
    then have "first_height (map f (s # ss)) = first_height (map f ss)" by (simp add: first_height_def)
    with none Cons.IH show ?thesis by (simp split: option.split)
  next
    case (err x)
    then have "first_height (map f (s # ss)) = first_height (map f ss)" by (simp add: first_height_def)
    with err Cons.IH show ?thesis by (auto split: option.split)
  qed
qed

lemma fetch_voting_eq:
  "fetch_voting_snapshot_height J http url =
     and_then (resolve_vote_servers J http url) (\<lambda>servers.
     combine_answers (map (fetch_vote_server_active_snapshot_height J http) servers))"
  unfolding fetch_voting_snapshot_height_def query_servers_eq
  by (rule and_then_cong) (auto simp: combine_answers_def hd_map split: option.split)

lemma vote_servers_usable:
  "configured_vote_servers cfg = Inr servers \<Longrightarrow>
     servers \<noteq> [] \<and> (\<forall>s \<in> set servers. s \<noteq> [] \<and> last s \<noteq> CHR ''/'')"
proof -
  assume "configured_vote_servers cfg = Inr servers"
  then have s: "servers = filter (\<lambda>url. url \<noteq> []) (map trim_end_slashes (vote_servers cfg))" "servers \<noteq> []"
    by (auto simp: configured_vote_servers_def Let_def split: if_splits)
  have "trim_end_slashes u = [] \<or> last (trim_end_slashes u) \<noteq> CHR ''/''" for u
    using hd_dropWhile [of "\<lambda>c. c = CHR ''/''" "rev u"]
    by (cases "dropWhile (\<lambda>c. c = CHR ''/'') (rev u)") (auto simp: trim_end_slashes_def)
  with s show ?thesis by auto
qed

lemma resolve_source_total: "\<exists>s. resolve_source url voting = Ok s"
  by (auto simp: resolve_source_def Let_def split: option.split)

end
