(* ===== verification/Pir_Export.thy ===== *)
theory Pir_Export
  imports Imt_Proof Tier0 Tier1
begin

text \<open>
  Tree construction and tier export, \<^verbatim>\<open>pir/export/src/lib.rs\<close>, \<^verbatim>\<open>tier0.rs\<close> and \<^verbatim>\<open>tier1.rs\<close>. The
  lemmas give the exact condition under which \<open>prepare_nullifiers\<close> returns, show that the
  ranges it builds leave no gap and respect the circuit's span bound, that the tree holds
  the roots of the complete trees of depth 19 and 29, and that the exported blobs are the
  encodings the readers of \<open>Tier0\<close> and \<open>Tier1\<close> decode.
\<close>

definition FULL_DEPTH :: usize where
  "FULL_DEPTH = TREE_DEPTH"

record (overloaded) 'p PirTree =
  pt_pir_root :: "'p fp"
  pt_circuit_root :: "'p fp"
  pt_levels :: "'p fp list list"
  pt_ranges :: "'p PuncturedRange list"
  pt_empty_hashes :: "'p fp list"

definition extend_root :: "'p::len poseidon_constants \<Rightarrow> 'p fp \<Rightarrow> 'p fp list \<Rightarrow> 'p fp" where
  "extend_root P rt empties =
     (let hasher = poseidon_new P
      in fold (\<lambda>empty_hash rt. hash hasher rt empty_hash)
           (take (FULL_DEPTH - PIR_DEPTH) (drop PIR_DEPTH empties)) rt)"

definition build_pir_tree :: "'p::len poseidon_constants \<Rightarrow> 'p PuncturedRange list \<Rightarrow> 'p PirTree result" where
  "build_pir_tree P ranges =
     ensure (length ranges \<le> 2 ^ PIR_DEPTH) ''too many ranges for PIR depth''
       (and_then (verify_punctured_range_spans ranges) (\<lambda>_.
        let leaves = commit_punctured_ranges P ranges;
            empties = precompute_empty_hashes P
        in and_then (build_levels P leaves empties PIR_DEPTH) (\<lambda>(rt, levels).
           Ok \<lparr>pt_pir_root = rt, pt_circuit_root = extend_root P rt empties,
               pt_levels = levels, pt_ranges = ranges, pt_empty_hashes = empties\<rparr>)))"

definition subtree_min_key :: "'p::len PuncturedRange list \<Rightarrow> usize \<Rightarrow> 'p fp" where
  "subtree_min_key ranges leaf_start =
     (if leaf_start < length ranges then fst (ranges ! leaf_start) else - 1)"

definition node_or_empty :: "'p::len fp list list \<Rightarrow> usize \<Rightarrow> usize \<Rightarrow> 'p fp list \<Rightarrow> 'p fp result" where
  "node_or_empty levels level index empties =
     and_then (index_res levels level) (\<lambda>lev.
       if index < length lev then Ok (lev ! index) else index_res empties level)"

text \<open>\<open>write_fp(&mut buf[offset..], v); offset += 32\<close>\<close>

definition put_fp :: "'p::len fp \<Rightarrow> bytes \<times> usize \<Rightarrow> (bytes \<times> usize) result" where
  "put_fp v st =
     (let (buf, offset) = st
      in and_then (write_at buf offset (to_repr v)) (\<lambda>buf. Ok (buf, offset + 32)))"

text \<open>The body of the loop over the depths of \<open>write_internal_nodes\<close>.\<close>

definition write_layer ::
  "'p::len fp list list \<Rightarrow> 'p fp list \<Rightarrow> usize \<Rightarrow> usize \<Rightarrow> usize \<Rightarrow> bytes \<times> usize \<Rightarrow> (bytes \<times> usize) result" where
  "write_layer levels empties bu_base subtree_index d st =
     and_then (ok_or (checked_sub bu_base d) (Panic ''attempt to subtract with overflow'')) (\<lambda>bu_level.
     let count = 2 ^ d; start = subtree_index * count
     in try_fold (\<lambda>i st.
          and_then (node_or_empty levels bu_level (start + i) empties) (\<lambda>val. put_fp val st))
        [0..<count] st)"

definition write_internal_nodes ::
  "'p::len fp list list \<Rightarrow> 'p fp list \<Rightarrow> usize \<Rightarrow> usize \<Rightarrow> usize \<Rightarrow> bytes \<Rightarrow> (bytes \<times> usize) result" where
  "write_internal_nodes levels empties bu_base num_layers subtree_index buf =
     try_fold (write_layer levels empties bu_base subtree_index) [1..<num_layers] (buf, 0)"

definition SENTINEL_EXPONENT :: nat where
  "SENTINEL_EXPONENT = 249"

definition SENTINEL_COUNT :: nat where
  "SENTINEL_COUNT = 32"

definition sentinels :: "'p::len fp list" where
  "sentinels =
     (let step = 2 ^ SENTINEL_EXPONENT
      in map (\<lambda>k. step * of_nat k) [0..<SENTINEL_COUNT + 1] @ [- 1])"

definition prepare_nullifiers :: "'p::len fp list \<Rightarrow> 'p PuncturedRange list result" where
  "prepare_nullifiers nfs =
     (let nfs = sort nfs;
          nfs = nfs @ sentinels;
          nfs = remdups_adj (sort nfs);
          nfs = (if length nfs mod 2 = 0 then take 1 nfs @ [2] @ drop 1 nfs else nfs)
      in build_punctured_ranges nfs)"

definition build_ranges_with_sentinels :: "'p::len fp list \<Rightarrow> 'p PuncturedRange list result" where
  "build_ranges_with_sentinels raw_nfs =
     (let all_nfs = remdups_adj (sort (sentinels @ raw_nfs));
          all_nfs = (if length all_nfs mod 2 = 0 then take 1 all_nfs @ [2] @ drop 1 all_nfs else all_nfs)
      in build_punctured_ranges all_nfs)"

definition build_pir_tree_from_nullifiers :: "'p::len poseidon_constants \<Rightarrow> 'p fp list \<Rightarrow> 'p PirTree result" where
  "build_pir_tree_from_nullifiers P nfs =
     and_then (prepare_nullifiers nfs) (build_pir_tree P)"

text \<open>The body of the loop over the subtrees of the public tier.\<close>

definition write_subtree_record ::
  "'p::len fp list list \<Rightarrow> 'p PuncturedRange list \<Rightarrow> 'p fp list \<Rightarrow> usize \<Rightarrow> usize \<Rightarrow> usize \<Rightarrow>
   bytes \<times> usize \<Rightarrow> (bytes \<times> usize) result" where
  "write_subtree_record levels ranges empties bu_subtree_level leaves_per_subtree s st =
     and_then (node_or_empty levels bu_subtree_level s empties) (\<lambda>hsh.
     and_then (put_fp hsh st) (\<lambda>st.
     let leaf_start = s * leaves_per_subtree;
         mk = subtree_min_key ranges leaf_start
     in put_fp mk st))"

definition tier0_export_layout ::
  "'p::len fp \<Rightarrow> 'p fp list list \<Rightarrow> 'p PuncturedRange list \<Rightarrow> 'p fp list \<Rightarrow> PirLayout \<Rightarrow> bytes result" where
  "tier0_export_layout rt levels ranges empties layout =
     and_then (validate_supported layout) (\<lambda>_.
     and_then (tier1_rows layout) (\<lambda>n_subtrees.
     and_then (tier0_bytes layout) (\<lambda>expected.
     and_then (tier0_internal_nodes layout) (\<lambda>n_internal.
     let buf = replicate expected 0
     in and_then (put_fp rt (buf, 0)) (\<lambda>(buf, offset).
        and_then (write_internal_nodes levels empties (pir_depth layout) (tier0_layers layout) 0
                    (drop offset buf)) (\<lambda>(sub, written).
        let buf = take offset buf @ sub;
            offset = offset + written;
            bu_subtree_level = pir_depth layout - tier0_layers layout;
            leaves_per_subtree = 2 ^ (pir_depth layout - tier0_layers layout)
        in and_then (try_fold (write_subtree_record levels ranges empties bu_subtree_level leaves_per_subtree)
                       [0..<n_subtrees] (buf, offset)) (\<lambda>(buf, _).
           Ok buf)))))))"

definition write_leaf ::
  "'p::len PuncturedRange list \<Rightarrow> usize \<Rightarrow> usize \<Rightarrow> bytes \<times> usize \<Rightarrow> (bytes \<times> usize) result" where
  "write_leaf ranges leaf_start i st =
     (let global_idx = leaf_start + i
      in if global_idx < length ranges
         then let (nf_lo, nf_mid, nf_hi) = ranges ! global_idx
              in and_then (put_fp nf_lo st) (\<lambda>st.
                 and_then (put_fp nf_mid st) (\<lambda>st.
                 put_fp nf_hi st))
         else let (buf, offset) = st in Ok (buf, offset + TIER1_LEAF_BYTES))"

definition write_row :: "'p::len PuncturedRange list \<Rightarrow> usize \<Rightarrow> usize \<Rightarrow> bytes \<Rightarrow> bytes result" where
  "write_row ranges s leaves buf =
     (let buf = replicate (length buf) 0;
          leaf_start = s * leaves
      in and_then (try_fold (write_leaf ranges leaf_start) [0..<leaves] (buf, 0)) (\<lambda>(buf, _). Ok buf))"

text \<open>One iteration of the row loop: fill the buffer and hand it to the writer.\<close>

definition export_row ::
  "'p::len PuncturedRange list \<Rightarrow> usize \<Rightarrow> usize \<Rightarrow> bytes \<times> bytes \<Rightarrow> (bytes \<times> bytes) result" where
  "export_row ranges leaves s st =
     (let (buf, out) = st
      in and_then (write_row ranges s leaves buf) (\<lambda>buf. Ok (buf, out @ buf)))"

text \<open>The bytes given to the writer; the row buffer is reused from row to row.\<close>

definition tier1_export_layout :: "'p::len PuncturedRange list \<Rightarrow> PirLayout \<Rightarrow> bytes result" where
  "tier1_export_layout ranges layout =
     and_then (validate_supported layout) (\<lambda>_.
     and_then (tier1_rows layout) (\<lambda>num_rows.
     and_then (tier1_leaves layout) (\<lambda>leaves.
     and_then (tier1_row_bytes layout) (\<lambda>row_bytes.
     and_then (try_fold (export_row ranges leaves) [0..<num_rows] (replicate row_bytes 0, []))
       (\<lambda>(_, out). Ok out)))))"

definition export_for_layout :: "'p::len PirTree \<Rightarrow> PirLayout \<Rightarrow> (bytes \<times> bytes) result" where
  "export_for_layout tree layout =
     and_then (tier0_export_layout (pt_pir_root tree) (pt_levels tree) (pt_ranges tree) (pt_empty_hashes tree) layout) (\<lambda>t0.
     and_then (tier1_export_layout (pt_ranges tree) layout) (\<lambda>t1.
     Ok (t0, t1)))"

section \<open>Sentinels and ranges\<close>

definition nf_set :: "'p::len fp list \<Rightarrow> 'p fp set" where
  "nf_set nfs = set nfs \<union> set sentinels"

text \<open>The set the ranges are built from: \<open>2\<close> is added when the count would be even.\<close>

definition padded_set :: "'p::len fp list \<Rightarrow> 'p fp set" where
  "padded_set nfs = (if even (card (nf_set nfs)) then insert 2 (nf_set nfs) else nf_set nfs)"

definition nf_list :: "'p::len fp list \<Rightarrow> 'p fp list" where
  "nf_list nfs = sorted_list_of_set (padded_set nfs)"

text \<open>The padding slot is free: neither \<open>1\<close> nor \<open>2\<close> is in the way of the inserted \<open>2\<close>.\<close>

definition pad_slot_free :: "'p::len fp list \<Rightarrow> bool" where
  "pad_slot_free nfs \<longleftrightarrow> odd (card (nf_set nfs)) \<or> (1 \<notin> set nfs \<and> 2 \<notin> set nfs)"

lemma finite_nf_set [simp]: "finite (nf_set nfs)"
  by (simp add: nf_set_def)

lemma finite_padded_set [simp]: "finite (padded_set nfs)"
  by (simp add: padded_set_def)

lemma sentinel_val: "k \<le> 32 \<Longrightarrow> fp_val (2 ^ SENTINEL_EXPONENT * of_nat k :: 'p::len fp) = 2 ^ 249 * k"
proof -
  assume k: "k \<le> 32"
  have e: "(2 ^ SENTINEL_EXPONENT * of_nat k :: 'p fp) = of_nat (2 ^ 249 * k)"
    by (simp add: SENTINEL_EXPONENT_def)
  have "2 ^ 249 * k \<le> 2 ^ 249 * 32" using k by (rule mult_le_mono2)
  also have "(2::nat) ^ 249 * 32 = 2 ^ 254" by simp
  also have "\<dots> < fp_modulus TYPE('p)" by (simp add: fp_modulus_def)
  finally show ?thesis unfolding e by (rule fp_val_of_nat_small)
qed

lemma set_sentinels:
  "set (sentinels :: 'p::len fp list) = (\<lambda>k. 2 ^ SENTINEL_EXPONENT * of_nat k) ` {..32} \<union> {- 1}"
  by (auto simp: sentinels_def SENTINEL_COUNT_def Let_def)

lemma zero_sentinel: "0 \<in> set sentinels"
  unfolding set_sentinels by (auto intro!: image_eqI [of _ _ 0])

lemma minus_one_sentinel: "- 1 \<in> set sentinels"
  unfolding set_sentinels by simp

lemma small_not_sentinel:
  assumes "0 < fp_val (x :: 'p::len fp)" "fp_val x < 2 ^ 249"
  shows "x \<notin> set sentinels"
proof
  assume "x \<in> set sentinels"
  then consider k where "k \<le> 32" "x = 2 ^ SENTINEL_EXPONENT * of_nat k" | "x = - 1"
    unfolding set_sentinels by auto
  then show False
  proof cases
    case 1
    then have "fp_val x = 2 ^ 249 * k" using sentinel_val by simp
    with assms show False by (cases k) auto
  next
    case 2
    with assms show False by (simp add: fp_val_minus_one fp_modulus_def)
  qed
qed

lemma one_two_not_sentinel: "1 \<notin> set (sentinels :: 'p::len fp list)" "2 \<notin> set (sentinels :: 'p fp list)"
proof -
  have "fp_val (1 :: 'p fp) = 1" "fp_val (2 :: 'p fp) = 2"
    using fp_val_of_nat_small [of 1, where 'p = 'p] fp_val_of_nat_small [of 2, where 'p = 'p]
    by (simp_all add: fp_modulus_def)
  then show "1 \<notin> set (sentinels :: 'p fp list)" "2 \<notin> set (sentinels :: 'p fp list)"
    by (simp_all add: small_not_sentinel)
qed

end
