(* ===== verification/Tree_Checkpoint.thy ===== *)
theory Tree_Checkpoint
  imports Pir_Export Fs
begin

text \<open>
  The tree checkpoint \<^verbatim>\<open>nullifiers.tree\<close>, \<^verbatim>\<open>pir/export/src/tree_checkpoint.rs\<close>: a 28-byte header and a
  payload coded by \<open>bincode\<close>, a third-party crate and therefore a parameter. Callers always
  pass the file \<^verbatim>\<open>nullifiers.tree\<close> of the data directory. The lemmas show the round trip, that
  loading accepts no other magic, schema, height or dataset version, and that an
  interrupted save leaves the old checkpoint or the new one.
\<close>

definition tree_file :: string where
  "tree_file = ''nullifiers.tree''"

definition tree_file_tmp :: string where
  "tree_file_tmp = ''nullifiers.tree.tmp''"

text \<open>The bytes of \<^verbatim>\<open>SVOTEPT2\<close>.\<close>

definition TREE_MAGIC :: bytes where
  "TREE_MAGIC = [0x53, 0x56, 0x4F, 0x54, 0x45, 0x50, 0x54, 0x32]"

definition TREE_HEADER_LEN :: usize where
  "TREE_HEADER_LEN = 8 + 4 + 8 + 8"

definition TREE_SCHEMA_VERSION :: u32 where
  "TREE_SCHEMA_VERSION = 2"

record PirTreeWire =
  w_pir_root :: bytes
  w_circuit_root :: bytes
  w_levels :: "bytes list list"
  w_ranges :: "(bytes \<times> bytes \<times> bytes) list"
  w_empty_hashes :: "bytes list"

record bincode =
  bincode_serialize :: "PirTreeWire \<Rightarrow> bytes option"
  bincode_deserialize :: "bytes \<Rightarrow> PirTreeWire option"

definition fp_to_bytes :: "'p::len fp \<Rightarrow> bytes" where
  "fp_to_bytes x = to_repr x"

definition fp_from_bytes :: "bytes \<Rightarrow> 'p::len fp result" where
  "fp_from_bytes arr = ok_or (from_repr arr) (Error ''non-canonical Fp encoding in tree checkpoint'')"

definition tree_to_wire :: "'p::len PirTree \<Rightarrow> PirTreeWire" where
  "tree_to_wire tree =
     \<lparr>w_pir_root = fp_to_bytes (pt_pir_root tree),
      w_circuit_root = fp_to_bytes (pt_circuit_root tree),
      w_levels = map (map fp_to_bytes) (pt_levels tree),
      w_ranges = map (\<lambda>(a, b, c). (fp_to_bytes a, fp_to_bytes b, fp_to_bytes c)) (pt_ranges tree),
      w_empty_hashes = map fp_to_bytes (pt_empty_hashes tree)\<rparr>"

definition encode_tree :: "bincode \<Rightarrow> 'p::len PirTree \<Rightarrow> bytes result" where
  "encode_tree B tree = ok_or (bincode_serialize B (tree_to_wire tree)) (Error ''bincode serialize PirTree'')"

definition decode_range :: "bytes \<times> bytes \<times> bytes \<Rightarrow> 'p::len fp3 result" where
  "decode_range r =
     (case r of (a, b, c) \<Rightarrow>
        and_then (fp_from_bytes a) (\<lambda>a.
        and_then (fp_from_bytes b) (\<lambda>b.
        and_then (fp_from_bytes c) (\<lambda>c.
        Ok (a, b, c)))))"

definition decode_tree :: "bincode \<Rightarrow> bytes \<Rightarrow> 'p::len PirTree result" where
  "decode_tree B bs =
     and_then (ok_or (bincode_deserialize B bs) (Error ''bincode deserialize PirTree'')) (\<lambda>wire.
     and_then (fp_from_bytes (w_pir_root wire)) (\<lambda>rt.
     and_then (fp_from_bytes (w_circuit_root wire)) (\<lambda>croot.
     and_then (try_map (try_map fp_from_bytes) (w_levels wire)) (\<lambda>levels.
     and_then (try_map decode_range (w_ranges wire)) (\<lambda>ranges.
     and_then (try_map fp_from_bytes (w_empty_hashes wire)) (\<lambda>empties.
     Ok \<lparr>pt_pir_root = rt, pt_circuit_root = croot, pt_levels = levels, pt_ranges = ranges,
         pt_empty_hashes = empties\<rparr>))))))"

text \<open>\<open>read_exact\<close> on the header, and its three integers.\<close>

definition read_header :: "bytes \<Rightarrow> (bytes \<times> u32 \<times> u64 \<times> u64) result" where
  "read_header bs =
     (if length bs < TREE_HEADER_LEN then Bail ''read header''
      else Ok (take 8 bs, u32_from_le (take 4 (drop 8 bs)), u64_from_le (take 8 (drop 12 bs)),
               u64_from_le (take 8 (drop 20 bs))))"

definition read_tree_checkpoint_header :: "dir \<Rightarrow> (u32 \<times> u64) option result" where
  "read_tree_checkpoint_header d =
     (case d tree_file of
        None \<Rightarrow> Ok None
      | Some bs \<Rightarrow>
          and_then (read_header bs) (\<lambda>(magic, schema, height, dataset_version).
          if magic \<noteq> TREE_MAGIC then Bail ''not an Ironwood tree checkpoint''
          else ensure (schema = TREE_SCHEMA_VERSION \<and> dataset_version = ucast DATASET_VERSION)
                 ''unsupported nullifiers.tree schema or dataset version'' (Ok (Some (schema, height)))))"

definition load_tree_checkpoint :: "bincode \<Rightarrow> dir \<Rightarrow> u64 \<Rightarrow> 'p::len PirTree option result" where
  "load_tree_checkpoint B d expected_height =
     (case d tree_file of
        None \<Rightarrow> Ok None
      | Some bs \<Rightarrow>
          and_then (read_header bs) (\<lambda>(magic, schema, height, dataset_version).
          if magic \<noteq> TREE_MAGIC then Bail ''not an Ironwood tree checkpoint''
          else if schema \<noteq> TREE_SCHEMA_VERSION then Bail ''unsupported nullifiers.tree schema_version''
          else if height \<noteq> expected_height then Bail ''nullifiers.tree height does not match''
          else
            ensure (dataset_version = ucast DATASET_VERSION) ''nullifiers.tree dataset version does not match''
            (and_then (decode_tree B (drop TREE_HEADER_LEN bs)) (\<lambda>tree.
             ensure (length (pt_levels tree) = PIR_DEPTH) ''nullifiers.tree has wrong number of levels''
               (Ok (Some tree))))))"

definition tree_header :: "u64 \<Rightarrow> bytes" where
  "tree_header chain_height =
     TREE_MAGIC @ u32_to_le TREE_SCHEMA_VERSION @ u64_to_le chain_height @ u64_to_le (ucast DATASET_VERSION)"

definition save_tree_ops :: "bytes \<Rightarrow> u64 \<Rightarrow> fs_op list" where
  "save_tree_ops payload chain_height =
     [RemoveFile tree_file_tmp,
      WriteFile tree_file_tmp (tree_header chain_height @ payload),
      RenameFile tree_file_tmp tree_file]"

definition save_tree_checkpoint :: "bincode \<Rightarrow> dir \<Rightarrow> 'p::len PirTree \<Rightarrow> u64 \<Rightarrow> dir result" where
  "save_tree_checkpoint B d tree chain_height =
     and_then (encode_tree B tree) (\<lambda>payload. Ok (run_ops (save_tree_ops payload chain_height) d))"

section \<open>Round trip\<close>

lemma tree_files_distinct [simp]: "tree_file_tmp \<noteq> tree_file" "tree_file \<noteq> tree_file_tmp"
  by (simp_all add: tree_file_def tree_file_tmp_def)

lemma fp_from_to_bytes [simp]: "fp_from_bytes (fp_to_bytes x) = Ok x"
  by (simp add: fp_from_bytes_def fp_to_bytes_def)

lemma try_map_inverse:
  "(\<And>x. f (g x) = Ok x) \<Longrightarrow> try_map f (map g xs) = Ok xs"
  by (simp add: try_map_Ok_iff list_all2_conv_all_nth)

lemma decode_encode_tree:
  assumes "encode_tree B tree = Inr bs" and "bincode_deserialize B bs = Some (tree_to_wire tree)"
  shows "decode_tree B bs = Ok tree"
proof -
  have "decode_range ((\<lambda>(a, b, c). (fp_to_bytes a, fp_to_bytes b, fp_to_bytes c)) r) = Ok r" for r :: "'a fp3"
    by (cases r) (simp add: decode_range_def)
  then show ?thesis
    using assms(2) by (simp add: decode_tree_def tree_to_wire_def try_map_inverse)
qed

lemma length_tree_header [simp]: "length (tree_header h) = 28"
  by (simp add: tree_header_def TREE_MAGIC_def)

lemma read_header_written:
  "read_header (tree_header h @ payload) = Ok (TREE_MAGIC, TREE_SCHEMA_VERSION, h, ucast DATASET_VERSION)"
  by (simp add: read_header_def TREE_HEADER_LEN_def tree_header_def TREE_MAGIC_def)

lemma save_tree_file:
  "save_tree_checkpoint B d tree h = Inr d' \<Longrightarrow>
     \<exists>payload. encode_tree B tree = Inr payload \<and> d' tree_file = Some (tree_header h @ payload)"
  by (auto simp: save_tree_checkpoint_def and_then_Ok_iff save_tree_ops_def)

lemma load_saved_tree:
  assumes "save_tree_checkpoint B d tree h = Inr d'"
    and "\<And>bs. bincode_serialize B (tree_to_wire tree) = Some bs \<Longrightarrow> bincode_deserialize B bs = Some (tree_to_wire tree)"
    and "length (pt_levels tree) = PIR_DEPTH"
  shows "load_tree_checkpoint B d' h = Ok (Some tree)"
proof -
  obtain payload where p: "encode_tree B tree = Inr payload" "d' tree_file = Some (tree_header h @ payload)"
    using save_tree_file [OF assms(1)] by blast
  have "decode_tree B payload = Ok tree"
    using p(1) assms(2) by (intro decode_encode_tree) (auto simp: encode_tree_def ok_or_Ok_iff)
  then show ?thesis
    using p(2) assms(3) by (simp add: load_tree_checkpoint_def read_header_written TREE_HEADER_LEN_def)
qed

text \<open>What a loaded checkpoint guarantees.\<close>

lemma load_tree_checkpoint_Some:
  assumes "load_tree_checkpoint B d h = Inr (Some tree)"
  shows "read_tree_checkpoint_header d = Inr (Some (TREE_SCHEMA_VERSION, h)) \<and> length (pt_levels tree) = PIR_DEPTH"
  using assms
  by (auto simp: load_tree_checkpoint_def read_tree_checkpoint_header_def result_simps
      split: option.splits if_splits)

text \<open>An interrupted save is atomic.\<close>

lemma crash_save_tree:
  "crash (save_tree_ops payload h) d d' \<Longrightarrow>
     d' tree_file = d tree_file \<or> d' tree_file = Some (tree_header h @ payload)"
  by (auto simp: save_tree_ops_def crash_Cons_iff)

end
