(* ===== verification/Export_Ranges.thy ===== *)
theory Export_Ranges
  imports Pir_Export
begin

text \<open>
  What \<open>prepare_nullifiers\<close> builds: the exact condition under which it returns, that its
  ranges are the triples of the padded sorted set and cover every value outside that set,
  and that every span respects the \<open>2 ^ 250\<close> bound of the circuit's range check.
\<close>

lemma remdups_adj_sort: "remdups_adj (sort xs) = sorted_list_of_set (set xs)"
proof (rule strict_sorted_equal)
  have "sorted ys \<Longrightarrow> sorted_wrt (<) (remdups_adj ys)" for ys :: "'a list"
    by (induction ys rule: remdups_adj.induct) (auto simp: le_less)
  then show "sorted_wrt (<) (remdups_adj (sort xs))" by simp
qed simp_all

lemma zero_in_nf_set: "0 \<in> nf_set nfs" "- 1 \<in> nf_set nfs"
  by (simp_all add: nf_set_def zero_sentinel minus_one_sentinel)

lemma nf_set_subset_padded: "nf_set nfs \<subseteq> padded_set nfs"
  by (auto simp: padded_set_def)

lemma nf_list_sorted [simp]: "sorted_wrt (<) (nf_list nfs)"
  by (simp add: nf_list_def)

lemma set_nf_list [simp]: "set (nf_list nfs) = padded_set nfs"
  by (simp add: nf_list_def)

lemma nf_list_ne [simp]: "nf_list nfs \<noteq> []"
proof
  assume "nf_list nfs = []"
  then have "padded_set nfs = {}" using set_nf_list [of nfs] by simp
  then show False using zero_in_nf_set [of nfs] nf_set_subset_padded [of nfs] by blast
qed

lemma hd_nf_list: "hd (nf_list nfs) = 0"
proof -
  have "0 \<in> set (nf_list nfs)"
    using zero_in_nf_set nf_set_subset_padded by auto
  moreover have "\<forall>x \<in> set (nf_list nfs). hd (nf_list nfs) \<le> x"
    using nf_list_sorted [of nfs] nf_list_ne [of nfs]
    by (cases "nf_list nfs") (auto intro: less_imp_le)
  ultimately have "hd (nf_list nfs) \<le> 0" by blast
  then show ?thesis by (simp add: order_antisym)
qed

lemma last_nf_list: "last (nf_list nfs) = - 1"
proof -
  have "- 1 \<in> set (nf_list nfs)"
    using zero_in_nf_set nf_set_subset_padded by auto
  then obtain i where i: "i < length (nf_list nfs)" "nf_list nfs ! i = - 1"
    by (auto simp: in_set_conv_nth simp del: set_nf_list)
  have "nf_list nfs ! i \<le> nf_list nfs ! (length (nf_list nfs) - 1)"
    using i sorted_wrt_nth_less [OF nf_list_sorted, of i "length (nf_list nfs) - 1" nfs]
    by (cases "i = length (nf_list nfs) - 1") (simp_all add: less_imp_le)
  then have "- 1 \<le> last (nf_list nfs)"
    using i by (simp add: last_conv_nth)
  then show ?thesis by (simp add: order_antisym)
qed

lemma card_nf_set_gt: "3 \<le> card (nf_set (nfs :: 'p::len fp list))"
proof -
  have "fp_val (2 ^ SENTINEL_EXPONENT * of_nat 1 :: 'p fp) = 2 ^ 249"
    using sentinel_val [of 1, where 'p = 'p] by (simp only: mult_1_right)
  moreover have "(2 ^ SENTINEL_EXPONENT * of_nat 1 :: 'p fp) \<in> nf_set nfs"
    unfolding nf_set_def set_sentinels by (intro UnI2 UnI1 image_eqI [OF refl]) simp
  ultimately obtain x :: "'p fp" where x: "fp_val x = 2 ^ 249" "x \<in> nf_set nfs" by blast
  have "(0 :: 'p fp) \<noteq> - 1" "x \<noteq> 0" "x \<noteq> - 1"
    using x fp_modulus_gt [where 'p = 'p] by (auto simp: fp_eq_iff fp_val_minus_one)
  then have "card {0, x, - 1 :: 'p fp} = 3" by simp
  then show ?thesis
    using card_mono [of "nf_set nfs" "{0, x, - 1}"] x zero_in_nf_set [of nfs] by simp
qed

lemma odd_length_nf_list:
  assumes "pad_slot_free nfs"
  shows "odd (length (nf_list nfs))"
proof (cases "even (card (nf_set nfs))")
  case True
  with assms have "2 \<notin> nf_set nfs"
    by (simp add: pad_slot_free_def nf_set_def one_two_not_sentinel)
  with True show ?thesis by (simp add: nf_list_def padded_set_def)
next
  case False
  then show ?thesis by (simp add: nf_list_def padded_set_def)
qed

lemma length_nf_list_ge: "3 \<le> length (nf_list nfs)"
proof -
  have "card (nf_set nfs) \<le> card (padded_set nfs)"
    by (rule card_mono) (simp_all add: nf_set_subset_padded)
  then show ?thesis using card_nf_set_gt [of nfs] by (simp add: nf_list_def)
qed

text \<open>What is passed to the range builder.\<close>

definition prepared :: "'p::len fp list \<Rightarrow> 'p fp list" where
  "prepared nfs =
     (let xs = sorted_list_of_set (nf_set nfs)
      in if even (length xs) then take 1 xs @ [2] @ drop 1 xs else xs)"

lemma prepare_nullifiers_prepared: "prepare_nullifiers nfs = build_punctured_ranges (prepared nfs)"
  by (simp add: prepare_nullifiers_def prepared_def Let_def remdups_adj_sort nf_set_def
      even_iff_mod_2_eq_zero)

lemma sorted_nf_set_Cons:
  obtains ys where "sorted_list_of_set (nf_set nfs) = 0 # ys" "\<forall>y \<in> set ys. 0 < y"
    "sorted_wrt (<) ys" "set ys = nf_set nfs - {0}"
proof -
  let ?xs = "sorted_list_of_set (nf_set nfs)"
  have srt: "sorted_wrt (<) ?xs" and st: "set ?xs = nf_set nfs" by simp_all
  obtain x ys where xs: "?xs = x # ys"
    using st zero_in_nf_set [of nfs] by (cases ?xs) auto
  have "0 \<in> set (x # ys)" using st xs zero_in_nf_set [of nfs] by metis
  moreover have "\<forall>y \<in> set ys. x < y" using srt xs by simp
  ultimately have "x = 0"
    by (metis fp_zero_le leD set_ConsD)
  show thesis
  proof (rule that)
    show "?xs = 0 # ys" using xs \<open>x = 0\<close> by simp
    show pos: "\<forall>y \<in> set ys. 0 < y" using \<open>\<forall>y \<in> set ys. x < y\<close> \<open>x = 0\<close> by simp
    show "sorted_wrt (<) ys" using srt xs by simp
    have "nf_set nfs = insert 0 (set ys)" using st xs \<open>x = 0\<close> by simp
    with pos show "set ys = nf_set nfs - {0}" by auto
  qed
qed

lemma fp_between_zero_two: "(0 :: 'p::len fp) < y \<Longrightarrow> y \<le> 2 \<Longrightarrow> y = 1 \<or> y = 2"
proof -
  have t: "fp_val (2 :: 'p fp) = 2"
    using fp_modulus_gt [where 'p = 'p] by (simp add: fp_val_numeral)
  assume "(0 :: 'p fp) < y" "y \<le> 2"
  then have "fp_val y = 1 \<or> fp_val y = 2"
    by (auto simp: fp_less_iff fp_le_iff t)
  then show ?thesis by (auto simp: fp_eq_iff t)
qed

lemma sorted_prepared_iff:
  "sorted_wrt (<) (prepared nfs) \<longleftrightarrow> pad_slot_free (nfs :: 'p::len fp list)"
  and prepared_nf_list: "pad_slot_free nfs \<Longrightarrow> prepared nfs = nf_list nfs"
proof -
  obtain ys where xs: "sorted_list_of_set (nf_set nfs) = 0 # ys" and pos: "\<forall>y \<in> set ys. 0 < y"
    and srt: "sorted_wrt (<) ys" and st: "set ys = nf_set nfs - {0}"
    by (rule sorted_nf_set_Cons)
  have len: "length (sorted_list_of_set (nf_set nfs)) = card (nf_set nfs)" by simp
  have two: "(0 :: 'p fp) < 2" "(0 :: 'p fp) < 1" "(1 :: 'p fp) < 2"
    using fp_modulus_gt [where 'p = 'p] by (auto simp: fp_less_iff fp_val_numeral)
  have free: "(\<forall>y \<in> set ys. 2 < y) \<longleftrightarrow> 1 \<notin> set nfs \<and> 2 \<notin> set nfs"
  proof -
    have "(\<forall>y \<in> set ys. 2 < y) \<longleftrightarrow> 1 \<notin> set ys \<and> 2 \<notin> set ys"
    proof (intro iffI conjI notI ballI)
      fix y
      assume n: "1 \<notin> set ys \<and> 2 \<notin> set ys" and y: "y \<in> set ys"
      show "2 < y"
        using n y pos fp_between_zero_two [of y] by (cases "y \<le> 2") auto
    qed (use two in \<open>auto dest: order.asym\<close>)
    also have "\<dots> \<longleftrightarrow> 1 \<notin> set nfs \<and> 2 \<notin> set nfs"
      using two by (auto simp: st nf_set_def one_two_not_sentinel)
    finally show ?thesis .
  qed
  show iff: "sorted_wrt (<) (prepared nfs) \<longleftrightarrow> pad_slot_free nfs"
  proof (cases "even (card (nf_set nfs))")
    case True
    then have "prepared nfs = 0 # 2 # ys" using len xs by (simp add: prepared_def Let_def)
    then have "sorted_wrt (<) (prepared nfs) \<longleftrightarrow> (\<forall>y \<in> set ys. 2 < y)"
      using pos srt two by auto
    with free True show ?thesis by (simp add: pad_slot_free_def)
  next
    case False
    then have "prepared nfs = sorted_list_of_set (nf_set nfs)" using len by (simp add: prepared_def Let_def)
    with False show ?thesis by (simp add: pad_slot_free_def)
  qed
  show "prepared nfs = nf_list nfs" if "pad_slot_free nfs"
  proof -
    have "set (nf_list nfs) = set (prepared nfs)"
      using len xs zero_in_nf_set(1) [of nfs] st by (auto simp: prepared_def Let_def padded_set_def)
    then show ?thesis
      using iff that by (intro strict_sorted_equal) (simp_all del: set_nf_list)
  qed
qed

lemma length_prepared: "3 \<le> length (prepared nfs)" "odd (length (prepared nfs))"
proof -
  have "length (sorted_list_of_set (nf_set nfs)) = card (nf_set nfs)" by simp
  with card_nf_set_gt [of nfs] show "3 \<le> length (prepared nfs)" "odd (length (prepared nfs))"
    by (auto simp: prepared_def Let_def)
qed

text \<open>
  \<open>prepare_nullifiers\<close> returns exactly when the padding slot is free, and then returns the
  triples of the padded sorted set.
\<close>

lemma prepare_nullifiers_Ok_iff:
  "prepare_nullifiers nfs = Inr ranges \<longleftrightarrow> pad_slot_free nfs \<and> ranges = triples (nf_list nfs)"
  using length_prepared [of nfs] prepared_nf_list [of nfs] sorted_prepared_iff [of nfs]
  by (auto simp: prepare_nullifiers_prepared build_punctured_ranges_Ok_iff)

text \<open>Otherwise it panics on the ordering assertion of the range builder.\<close>

lemma build_punctured_ranges_panic:
  assumes "3 \<le> length nfs" "odd (length nfs)" "build_punctured_ranges nfs = Inl e"
  shows "e = Panic ''punctured range violates strict ordering''"
proof -
  from assms obtain i where i: "i < (length nfs - 1) div 2" "punctured_range_at nfs i = Inl e"
    by (auto simp: build_punctured_ranges_def Let_def odd_iff_mod_2_eq_one dest!: try_map_Err)
  then have "i * 2 + 2 < length nfs" by linarith
  with i(2) show ?thesis by (auto simp: punctured_range_at_def Let_def assert_panic_def split: if_splits)
qed

lemma prepare_nullifiers_eq:
  "prepare_nullifiers nfs =
     (if pad_slot_free nfs then Ok (triples (nf_list nfs)) else Err (Panic ''punctured range violates strict ordering''))"
proof (cases "prepare_nullifiers nfs")
  case (Inl e)
  then have "\<not> pad_slot_free nfs" using prepare_nullifiers_Ok_iff [of nfs] by fastforce
  with Inl show ?thesis
    using build_punctured_ranges_panic [OF length_prepared] by (simp add: prepare_nullifiers_prepared)
next
  case (Inr ranges)
  then show ?thesis using prepare_nullifiers_Ok_iff [of nfs ranges] by simp
qed

lemma build_ranges_with_sentinels_eq: "build_ranges_with_sentinels nfs = prepare_nullifiers nfs"
  by (simp add: build_ranges_with_sentinels_def prepare_nullifiers_def Let_def remdups_adj_sort Un_commute)

section \<open>Coverage and spans\<close>

lemma find_in_prepared:
  assumes "pad_slot_free nfs"
  shows "(\<exists>i. find_punctured_range_for_value (triples (nf_list nfs)) v = Some i) \<longleftrightarrow> v \<notin> padded_set nfs"
proof -
  have odd: "odd (length (nf_list nfs))" using assms by (rule odd_length_nf_list)
  have "0 \<in> padded_set nfs" "- 1 \<in> padded_set nfs"
    using zero_in_nf_set nf_set_subset_padded by blast+
  then have "v \<notin> padded_set nfs \<longrightarrow> 0 < v \<and> v < - 1"
    by (metis fp_le_minus_one fp_zero_le order_le_less)
  then show ?thesis
    using some_triple_covers_iff [OF nf_list_sorted odd, of v]
    by (auto simp: find_triples_Some_iff [OF nf_list_sorted odd] hd_nf_list last_nf_list)
qed

lemma next_sentinel:
  assumes "(x :: 'p::len fp) < - 1"
  obtains s where "s \<in> set sentinels" "x < s" "fp_val s \<le> fp_val x + 2 ^ 249"
proof -
  define k where "k = fp_val x div 2 ^ 249"
  have k: "fp_val x < 2 ^ 249 * (k + 1)" "2 ^ 249 * k \<le> fp_val x"
    unfolding k_def by (simp_all add: dividend_less_times_div mult.commute)
  show thesis
  proof (cases "k + 1 \<le> 32")
    case True
    have v: "fp_val (2 ^ SENTINEL_EXPONENT * of_nat (k + 1) :: 'p fp) = 2 ^ 249 * (k + 1)"
      using True by (rule sentinel_val)
    show thesis
    proof (rule that)
      show "(2 ^ SENTINEL_EXPONENT * of_nat (k + 1) :: 'p fp) \<in> set sentinels"
        unfolding set_sentinels using True by (intro UnI1 image_eqI [OF refl]) simp
      show "x < 2 ^ SENTINEL_EXPONENT * of_nat (k + 1)"
        unfolding fp_less_iff v by (rule k(1))
      show "fp_val (2 ^ SENTINEL_EXPONENT * of_nat (k + 1) :: 'p fp) \<le> fp_val x + 2 ^ 249"
        unfolding v using k(2) by simp
    qed
  next
    case False
    then have "2 ^ 249 * 32 \<le> 2 ^ 249 * k" by (intro mult_le_mono2) simp
    then have "2 ^ 254 \<le> fp_val x" using k(2) by simp
    moreover have "fp_val (- 1 :: 'p fp) \<le> 2 ^ 254 + 2 ^ 249"
      using fp_modulus_le [where 'p = 'p] by (simp add: fp_val_minus_one)
    ultimately show thesis
      by (intro that [of "- 1"]) (use assms minus_one_sentinel in simp_all)
  qed
qed

lemma nf_list_gap:
  assumes "Suc i < length (nf_list nfs)"
  shows "fp_val (nf_list nfs ! Suc i) \<le> fp_val (nf_list nfs ! i) + 2 ^ 249"
proof -
  let ?xs = "nf_list nfs"
  have "?xs ! i < ?xs ! Suc i"
    using assms by (intro sorted_wrt_nth_less [OF nf_list_sorted]) simp_all
  also have "\<dots> \<le> - 1" by simp
  finally obtain s where s: "s \<in> set sentinels" "?xs ! i < s" "fp_val s \<le> fp_val (?xs ! i) + 2 ^ 249"
    by (rule next_sentinel)
  then have "s \<in> set ?xs"
    using nf_set_subset_padded by (auto simp: nf_set_def)
  then obtain j where j: "j < length ?xs" "?xs ! j = s"
    by (auto simp: in_set_conv_nth simp del: set_nf_list)
  with s have "i < j"
    using sorted_wrt_less_nth_iff [OF nf_list_sorted, of i nfs j] assms by simp
  then have "?xs ! Suc i \<le> s"
    using j sorted_wrt_nth_less [OF nf_list_sorted, of "Suc i" j nfs] by (cases "Suc i = j") auto
  with s show ?thesis by (simp add: fp_le_iff)
qed

lemma spans_bounded:
  "verify_punctured_range_spans (triples (nf_list nfs)) = Inr ()"
  unfolding verify_punctured_range_spans_Ok_iff triples_def
proof (clarsimp simp: triple_at_def simp del: power_numeral)
  fix i
  assume "i < (length (nf_list nfs) - Suc 0) div 2"
  then have i: "Suc (Suc (2 * i)) < length (nf_list nfs)" by linarith
  have "nf_list nfs ! (2 * i) \<le> nf_list nfs ! Suc (Suc (2 * i))"
    using i by (intro less_imp_le sorted_wrt_nth_less [OF nf_list_sorted]) simp_all
  moreover have "fp_val (nf_list nfs ! Suc (Suc (2 * i))) \<le> fp_val (nf_list nfs ! (2 * i)) + 2 ^ 250"
    using nf_list_gap [of "2 * i" nfs] nf_list_gap [of "Suc (2 * i)" nfs] i by simp
  ultimately have "fp_val (nf_list nfs ! Suc (Suc (2 * i)) - nf_list nfs ! (2 * i)) \<le> fp_val (2 ^ 250 :: 'a fp)"
    using fp_val_two_power [of 250, where 'p = 'a] by (simp only: fp_val_diff_ge)
  then show "nf_list nfs ! Suc (Suc (2 * i)) - nf_list nfs ! (2 * i) \<le> 2 ^ 250"
    by (simp only: fp_le_iff)
qed

end
