(* ===== verification/Export_Tiers.thy ===== *)
theory Export_Tiers
  imports Export_Ranges
begin

text \<open>
  What the tree builder and the tier writers produce: the roots of the complete trees of
  depth 19 and 29 over the committed ranges, and blobs that are the encodings decoded by
  the readers. The writers fill a zeroed buffer front to back; \<open>filled vs n\<close> is the state
  of such a buffer after the elements \<open>vs\<close> with room for \<open>n\<close> more.
\<close>

section \<open>The tree\<close>

definition pir_tree_of :: "'p::len poseidon_constants \<Rightarrow> 'p fp3 list \<Rightarrow> 'p PirTree" where
  "pir_tree_of P ranges =
     (let leaves = commit_punctured_ranges P ranges
      in \<lparr>pt_pir_root = tree_node P leaves PIR_DEPTH 0,
          pt_circuit_root = tree_node P leaves TREE_DEPTH 0,
          pt_levels = map (tree_level P leaves) [0..<PIR_DEPTH],
          pt_ranges = ranges,
          pt_empty_hashes = map (empty_hash P) [0..<TREE_DEPTH]\<rparr>)"

lemma length_commit [simp]: "length (commit_punctured_ranges P ranges) = length ranges"
  by (simp add: commit_punctured_ranges_def)

text \<open>Extending the depth-19 root with the table gives the root of the depth-29 tree.\<close>

lemma extend_root_tree:
  assumes "length leaves \<le> 2 ^ PIR_DEPTH"
  shows "extend_root P (tree_node P leaves PIR_DEPTH 0) (precompute_empty_hashes P) = tree_node P leaves TREE_DEPTH 0"
proof -
  have "leaf_at P leaves j = empty_hash P 0" if "2 ^ PIR_DEPTH \<le> j" for j
    using assms that by (intro leaf_at_beyond) simp
  from poseidon_empty.subroot_extend [of PIR_DEPTH, OF this, where n = "TREE_DEPTH - PIR_DEPTH"]
  have "tree_node P leaves TREE_DEPTH 0 =
      fold (\<lambda>l r. hash (poseidon_new P) r (empty_hash P l)) [PIR_DEPTH..<TREE_DEPTH] (tree_node P leaves PIR_DEPTH 0)"
    by (simp add: PIR_DEPTH_def TREE_DEPTH_def del: subroot.simps)
  moreover have "take (FULL_DEPTH - PIR_DEPTH) (drop PIR_DEPTH (precompute_empty_hashes P)) =
      map (empty_hash P) [PIR_DEPTH..<TREE_DEPTH]"
    by (simp add: precompute_empty_hashes_eq drop_map take_map FULL_DEPTH_def drop_upt take_all
        del: empty_hash.simps)
  ultimately show ?thesis
    by (simp add: extend_root_def fold_map comp_def del: subroot.simps)
qed

lemma build_pir_tree_Ok_iff:
  "build_pir_tree P ranges = Inr tree \<longleftrightarrow>
     length ranges \<le> 2 ^ PIR_DEPTH \<and> verify_punctured_range_spans ranges = Inr () \<and>
     tree = pir_tree_of P ranges"
proof (cases "length ranges \<le> 2 ^ PIR_DEPTH \<and> verify_punctured_range_spans ranges = Inr ()")
  case True
  have "build_levels P (commit_punctured_ranges P ranges) (precompute_empty_hashes P) PIR_DEPTH =
      Ok (tree_node P (commit_punctured_ranges P ranges) PIR_DEPTH 0,
          map (tree_level P (commit_punctured_ranges P ranges)) [0..<PIR_DEPTH])"
    by (rule build_levels_tree) (simp_all add: PIR_DEPTH_def TREE_DEPTH_def)
  with True show ?thesis
    using extend_root_tree [of "commit_punctured_ranges P ranges" P]
    by (auto simp: build_pir_tree_def pir_tree_of_def Let_def precompute_empty_hashes_eq
        simp del: subroot.simps empty_hash.simps)
next
  case False
  then have "build_pir_tree P ranges \<noteq> Inr tree"
    by (auto simp: build_pir_tree_def result_simps)
  with False show ?thesis by blast
qed

lemma build_pir_tree_from_nullifiers_Ok_iff:
  "build_pir_tree_from_nullifiers P nfs = Inr tree \<longleftrightarrow>
     pad_slot_free nfs \<and> length (triples (nf_list nfs)) \<le> 2 ^ PIR_DEPTH \<and>
     tree = pir_tree_of P (triples (nf_list nfs))"
  by (auto simp: build_pir_tree_from_nullifiers_def result_simps prepare_nullifiers_Ok_iff
      build_pir_tree_Ok_iff spans_bounded simp del: length_triples)

section \<open>Filling a buffer\<close>

definition filled :: "'p::len fp list \<Rightarrow> nat \<Rightarrow> bytes \<times> usize" where
  "filled vs n = (concat (map to_repr vs) @ replicate (32 * n) 0, 32 * length vs)"

lemma to_repr_zero: "to_repr (0 :: 'p::len fp) = replicate 32 0"
proof -
  have "le_bytes k 0 = replicate k 0" for k by (induction k) auto
  then show ?thesis by (simp add: to_repr_def)
qed

lemma put_filled: "put_fp v (filled vs (Suc n)) = Ok (filled (vs @ [v]) n)"
proof -
  have r: "replicate (32 * Suc n) (0::u8) = replicate 32 0 @ replicate (32 * n) 0"
    by (simp only: replicate_add [symmetric]) simp
  have "write_at (concat (map to_repr vs) @ replicate 32 0 @ replicate (32 * n) 0) (length (concat (map to_repr vs)))
      (to_repr v) = Ok (concat (map to_repr vs) @ to_repr v @ replicate (32 * n) 0)"
    by (rule write_at_middle) simp
  then show ?thesis
    by (simp add: put_fp_def filled_def r fp_codec.length_concat_enc del: mult_Suc_right) simp
qed

lemma skip_filled: "filled vs (3 + n) = (fst (filled (vs @ [0, 0, 0]) n), 32 * length vs)"
proof -
  have "replicate (32 * (3 + n)) (0::u8) =
      replicate 32 0 @ replicate 32 0 @ replicate 32 0 @ replicate (32 * n) 0"
    by (simp only: replicate_add [symmetric]) (simp add: algebra_simps)
  then show ?thesis
    by (simp add: filled_def to_repr_zero)
qed

lemma put_each:
  assumes "\<And>i st. i \<in> set is \<Longrightarrow> f i st = put_fp (g i) st"
  shows "try_fold f is (filled vs (length is + n)) = Ok (filled (vs @ map g is) n)"
  using assms
proof (induction "is" arbitrary: vs)
  case Nil
  then show ?case by simp
next
  case (Cons i "is")
  then have "f i (filled vs (length (i # is) + n)) = Ok (filled (vs @ [g i]) (length is + n))"
    by (simp add: put_filled)
  with Cons show ?case by simp
qed

section \<open>Tier 0\<close>

lemma node_or_empty_tree:
  assumes "l < PIR_DEPTH"
  shows "node_or_empty (map (tree_level P leaves) [0..<PIR_DEPTH]) l i (map (empty_hash P) [0..<TREE_DEPTH]) =
    Ok (tree_node P leaves l i)"
proof -
  have "l < TREE_DEPTH" using assms by (simp add: PIR_DEPTH_def TREE_DEPTH_def)
  with assms tree_level_or_empty [of i P leaves l] show ?thesis
    by (simp add: node_or_empty_def split: if_splits)
qed

text \<open>The nodes of the PIR tree by depth from the root.\<close>

abbreviation top_node :: "'p::len poseidon_constants \<Rightarrow> 'p fp list \<Rightarrow> nat \<Rightarrow> nat \<Rightarrow> 'p fp" where
  "top_node P leaves d i \<equiv> tree_node P leaves (PIR_DEPTH - d) i"

lemma bfs_nodes_Suc_front:
  "bfs_nodes N (Suc n) = N 0 0 # concat (map (\<lambda>d. map (N d) [0..<2 ^ d]) [1..<Suc n])"
  by (induction n) auto

lemma sum_powers_upt: "0 < L \<Longrightarrow> length (concat (map (\<lambda>d. map (N d) [0..<2 ^ d]) [1..<L])) = 2 ^ L - 2"
proof (induction L rule: nat_induct_non_zero)
  case 1
  then show ?case by simp
next
  case (Suc L)
  have "(2::nat) \<le> 2 ^ L" using Suc.hyps power_increasing [of 1 L "2::nat"] by simp
  with Suc show ?case by (simp add: length_concat comp_def)
qed

lemma write_internal_nodes_tree:
  assumes "L \<le> PIR_DEPTH" and "vs = concat (map (\<lambda>d. map (top_node P leaves d) [0..<2 ^ d]) [1..<L])"
  shows "write_internal_nodes (map (tree_level P leaves) [0..<PIR_DEPTH]) (map (empty_hash P) [0..<TREE_DEPTH])
      PIR_DEPTH L 0 (replicate (32 * (length vs + n)) 0) = Ok (filled vs n)"
proof -
  let ?layer = "write_layer (map (tree_level P leaves) [0..<PIR_DEPTH]) (map (empty_hash P) [0..<TREE_DEPTH]) PIR_DEPTH 0"
  let ?nodes = "\<lambda>k. concat (map (\<lambda>d. map (top_node P leaves d) [0..<2 ^ d]) [1..<k])"
  have body: "?layer d (filled ws (2 ^ d + m)) = Ok (filled (ws @ map (top_node P leaves d) [0..<2 ^ d]) m)"
    if "0 < d" "d < L" for d ws m
    using that assms(1) put_each [of "[0..<2 ^ d]" "\<lambda>i st. and_then (node_or_empty
        (map (tree_level P leaves) [0..<PIR_DEPTH]) (PIR_DEPTH - d) (0 + i) (map (empty_hash P) [0..<TREE_DEPTH]))
        (\<lambda>val. put_fp val st)" "top_node P leaves d" ws m]
    by (simp add: write_layer_def node_or_empty_tree checked_sub_def)
  have loop: "try_fold ?layer [1..<k] (filled ([] :: 'a fp list) (length (?nodes k) + m)) = Ok (filled (?nodes k) m)"
    if "0 < k" "k \<le> L" for k m
    using that
  proof (induction k arbitrary: m rule: nat_induct_non_zero)
    case 1
    then show ?case by simp
  next
    case (Suc k)
    have sp: "[1..<Suc k] = [1..<k] @ [k]" using Suc.hyps by simp
    have n: "?nodes (Suc k) = ?nodes k @ map (top_node P leaves k) [0..<2 ^ k]"
      by (simp only: sp) simp
    have l: "length (?nodes (Suc k)) + m = length (?nodes k) + (2 ^ k + m)"
      by (simp only: n) simp
    have "try_fold ?layer [1..<Suc k] (filled ([] :: 'a fp list) (length (?nodes k) + (2 ^ k + m))) =
        try_fold ?layer [k] (filled (?nodes k) (2 ^ k + m))"
      using Suc by (simp only: sp try_fold_append) simp
    also have "\<dots> = Ok (filled (?nodes (Suc k)) m)"
      using body [of k "?nodes k" m] Suc by (simp only: n) simp
    finally show ?case by (simp only: l)
  qed
  have s: "(replicate (32 * m) 0, 0) = filled ([] :: 'a fp list) m" for m
    by (simp add: filled_def)
  show ?thesis
  proof (cases "L = 0")
    case True
    with assms show ?thesis by (simp add: write_internal_nodes_def filled_def)
  next
    case False
    then show ?thesis
      unfolding write_internal_nodes_def s assms(2) by (intro loop) simp_all
  qed
qed

lemma drop_fst_filled: "drop 32 (fst (filled [v] n)) = replicate (32 * n) 0"
  by (simp add: filled_def)

lemma take_fst_filled: "take 32 (fst (filled [v] n)) @ fst (filled vs m) = fst (filled (v # vs) m)"
  by (simp add: filled_def)

definition min_key_of :: "'p::len fp3 list \<Rightarrow> PirLayout \<Rightarrow> nat \<Rightarrow> 'p fp" where
  "min_key_of ranges L s = subtree_min_key ranges (s * 2 ^ tier1_layers L)"

definition tier0_of :: "'p::len poseidon_constants \<Rightarrow> 'p fp3 list \<Rightarrow> PirLayout \<Rightarrow> bytes" where
  "tier0_of P ranges L =
     (let leaves = commit_punctured_ranges P ranges
      in tier0_blob (bfs_nodes (top_node P leaves) (tier0_layers L))
           (map (\<lambda>s. (top_node P leaves (tier0_layers L) s, min_key_of ranges L s)) [0..<2 ^ tier0_layers L]))"

lemma subtree_records_loop:
  assumes "tier1_layers L < PIR_DEPTH"
  shows "try_fold (write_subtree_record (map (tree_level P leaves) [0..<PIR_DEPTH]) ranges
      (map (empty_hash P) [0..<TREE_DEPTH]) (tier1_layers L) (2 ^ tier1_layers L)) ss (filled vs (2 * length ss + n)) =
    Ok (filled (vs @ pair_list (map (\<lambda>s. (tree_node P leaves (tier1_layers L) s, min_key_of ranges L s)) ss)) n)"
proof (induction ss arbitrary: vs)
  case Nil
  then show ?case by (simp add: pair_list_def)
next
  case (Cons s ss)
  have "2 * length (s # ss) + n = Suc (Suc (2 * length ss + n))" by simp
  then have "write_subtree_record (map (tree_level P leaves) [0..<PIR_DEPTH]) ranges
      (map (empty_hash P) [0..<TREE_DEPTH]) (tier1_layers L) (2 ^ tier1_layers L) s (filled vs (2 * length (s # ss) + n)) =
      Ok (filled (vs @ [tree_node P leaves (tier1_layers L) s, min_key_of ranges L s]) (2 * length ss + n))"
    by (simp only: write_subtree_record_def node_or_empty_tree [OF assms] and_then.simps put_filled Let_def
        min_key_of_def append_assoc append.simps)
  with Cons show ?case by (simp add: pair_list_def)
qed

text \<open>The exported public tier is the encoding of the upper layers of the tree.\<close>

lemma tier0_export_tree:
  assumes "supported L" "pir_depth L = PIR_DEPTH"
  shows "tier0_export_layout (pt_pir_root (pir_tree_of P ranges)) (pt_levels (pir_tree_of P ranges)) ranges
      (pt_empty_hashes (pir_tree_of P ranges)) L = Ok (tier0_of P ranges L)"
proof -
  let ?leaves = "commit_punctured_ranges P ranges"
  let ?L0 = "tier0_layers L"
  let ?n = "2 ^ ?L0 :: nat"
  let ?vs = "concat (map (\<lambda>d. map (top_node P ?leaves d) [0..<2 ^ d]) [1..<?L0])"
  let ?levels = "map (tree_level P ?leaves) [0..<PIR_DEPTH]"
  let ?empties = "map (empty_hash P) [0..<TREE_DEPTH]"
  have split: "PIR_DEPTH - ?L0 = tier1_layers L" "?L0 \<le> PIR_DEPTH" "0 < ?L0" "tier1_layers L < PIR_DEPTH"
    using assms by (auto simp: supported_def PIR_DEPTH_def)
  have two: "2 \<le> ?n" using split(3) power_increasing [of 1 ?L0 "2::nat"] by simp
  have lenvs: "length ?vs = ?n - 2" using split(3) by (rule sum_powers_upt)
  have exp: "(?n - 1) * 32 + ?n * 64 = 32 * Suc (length ?vs + (2 * ?n))"
    using two unfolding lenvs by (simp add: diff_mult_distrib)
  have bfs: "top_node P ?leaves 0 0 # ?vs = bfs_nodes (top_node P ?leaves) ?L0"
    using split(3) by (cases ?L0) (simp_all only: bfs_nodes_Suc_front)
  have put_root: "put_fp (tree_node P ?leaves PIR_DEPTH 0) (replicate ((?n - 1) * 32 + ?n * 64) 0, 0) =
      Ok (filled [top_node P ?leaves 0 0] (length ?vs + (2 * ?n)))"
    using put_filled [of "tree_node P ?leaves PIR_DEPTH 0" "[]" "length ?vs + (2 * ?n)"]
    unfolding exp by (simp add: filled_def del: subroot.simps)
  have off: "snd (filled [v] m) = 32" for v :: "'a fp" and m by (simp add: filled_def)
  have internal: "write_internal_nodes ?levels ?empties PIR_DEPTH ?L0 0
      (drop 32 (fst (filled [top_node P ?leaves 0 0] (length ?vs + 2 * ?n)))) = Ok (filled ?vs (2 * ?n))"
    unfolding drop_fst_filled by (rule write_internal_nodes_tree [OF split(2) refl])
  have joined: "(take 32 (fst (filled [top_node P ?leaves 0 0] (length ?vs + 2 * ?n))) @ fst (filled ?vs (2 * ?n)),
      32 + snd (filled ?vs (2 * ?n))) = filled (bfs_nodes (top_node P ?leaves) ?L0) (2 * ?n)"
    unfolding take_fst_filled bfs [symmetric] by (simp add: filled_def)
  have recs: "try_fold (write_subtree_record ?levels ranges ?empties (tier1_layers L) (2 ^ tier1_layers L)) [0..<?n]
      (filled (bfs_nodes (top_node P ?leaves) ?L0) (2 * ?n)) =
      Ok (filled (bfs_nodes (top_node P ?leaves) ?L0 @
        pair_list (map (\<lambda>s. (top_node P ?leaves ?L0 s, min_key_of ranges L s)) [0..<?n])) 0)"
    using subtree_records_loop [OF split(4), of P ?leaves ranges "[0..<?n]" _ 0] split(1) by simp
  have fin: "fst (filled (bfs_nodes (top_node P ?leaves) ?L0 @
        pair_list (map (\<lambda>s. (top_node P ?leaves ?L0 s, min_key_of ranges L s)) [0..<?n])) 0) = tier0_of P ranges L"
    by (simp add: filled_def tier0_of_def tier0_blob_def Let_def)
  have sup: "validate_supported L = Ok ()" using assms(1) by (simp add: validate_supported_iff)
  show ?thesis
    unfolding tier0_export_layout_def sup supported_geometry [OF assms(1)] and_then.simps pir_tree_of_def
      Let_def PirTree.simps put_root assms(2) case_prod_unfold split(1) off internal joined recs
    using fin by (simp only: split(1) and_then.simps)
qed

text \<open>
  A layout deeper than the 19 levels of the tree passes the validation of the exporter but
  its first internal layer lies above the stored levels: the export panics.
\<close>

lemma tier0_export_too_deep:
  assumes "supported L" "PIR_DEPTH < pir_depth L" "length levels = PIR_DEPTH"
  shows "tier0_export_layout rt levels ranges empties L = Err (Panic ''index out of bounds'')"
proof -
  have sup: "validate_supported L = Ok ()" using assms(1) by (simp add: validate_supported_iff)
  let ?e = "(2 ^ tier0_layers L - 1) * 32 + 2 ^ tier0_layers L * 64 :: nat"
  have "1 \<le> (2::nat) ^ tier0_layers L" by simp
  then have "32 \<le> ?e" by linarith
  then obtain buf where put: "put_fp rt (replicate ?e 0, 0) = Ok (buf, 32)"
    by (simp add: put_fp_def write_at_def)
  have "1 < tier0_layers L" using assms(1) by (simp add: supported_def)
  then have u: "[1..<tier0_layers L] = 1 # [2..<tier0_layers L]" by (simp add: upt_conv_Cons numeral_2_eq_2)
  have idx: "index_res levels (pir_depth L - 1) = Err (Panic ''index out of bounds'')"
    using assms(2,3) by (simp add: index_res_def)
  have two: "[0..<2 ^ 1] = 0 # [1..<2]" by (simp add: upt_conv_Cons)
  have "write_layer levels empties (pir_depth L) 0 1 st = Err (Panic ''index out of bounds'')" for st
    using assms(2) by (simp only: write_layer_def Let_def node_or_empty_def two try_fold.simps)
      (simp add: checked_sub_def idx [unfolded One_nat_def])
  then have "write_internal_nodes levels empties (pir_depth L) (tier0_layers L) 0 b = Err (Panic ''index out of bounds'')" for b
    by (simp only: write_internal_nodes_def u try_fold.simps and_then.simps)
  then show ?thesis
    by (simp add: tier0_export_layout_def sup supported_geometry [OF assms(1)] put Let_def del: One_nat_def)
qed

section \<open>Tier 1\<close>

text \<open>The records of one row: slots beyond the last range hold zeros.\<close>

definition row_recs :: "'p::len fp3 list \<Rightarrow> nat \<Rightarrow> nat \<Rightarrow> 'p fp3 list" where
  "row_recs ranges leaves s = map (\<lambda>i. bounds_at ranges (s * leaves + i)) [0..<leaves]"

lemma length_row_recs [simp]: "length (row_recs ranges leaves s) = leaves"
  by (simp add: row_recs_def)

lemma row_recs_nth: "i < leaves \<Longrightarrow> row_recs ranges leaves s ! i = bounds_at ranges (s * leaves + i)"
  by (simp add: row_recs_def)

lemma write_leaf_filled:
  "write_leaf ranges start i (filled vs (3 + n)) =
     Ok (filled (vs @ triple_list [bounds_at ranges (start + i)]) n)"
proof (cases "start + i < length ranges")
  case True
  obtain a b c where abc: "ranges ! (start + i) = (a, b, c)" by (cases "ranges ! (start + i)")
  have "filled vs (3 + n) = filled vs (Suc (Suc (Suc n)))" by (simp add: numeral_3_eq_3)
  then show ?thesis
    using True abc by (simp add: write_leaf_def put_filled bounds_at_def triple_list_def)
next
  case False
  then show ?thesis
    unfolding skip_filled
    by (simp add: write_leaf_def bounds_at_def triple_list_def TIER1_LEAF_BYTES_def) (simp add: filled_def)
qed

lemma write_leaves_filled:
  "try_fold (write_leaf ranges start) is (filled vs (3 * length is + n)) =
     Ok (filled (vs @ triple_list (map (\<lambda>i. bounds_at ranges (start + i)) is)) n)"
proof (induction "is" arbitrary: vs)
  case Nil
  then show ?case by (simp add: triple_list_def)
next
  case (Cons i "is")
  have "3 * length (i # is) + n = 3 + (3 * length is + n)" by simp
  with Cons show ?case
    by (simp only: try_fold.simps write_leaf_filled and_then.simps) (simp add: triple_list_def)
qed

lemma write_row_eq:
  assumes "length buf = 96 * leaves"
  shows "write_row ranges s leaves buf = Ok (tier1_blob (row_recs ranges leaves s))"
proof -
  have b: "(replicate (length buf) 0, 0) = filled ([] :: 'a fp list) (3 * length [0..<leaves] + 0)"
    using assms by (simp add: filled_def)
  show ?thesis
    unfolding write_row_def Let_def b write_leaves_filled
    by (simp add: filled_def tier1_blob_def row_recs_def)
qed

definition tier1_of :: "'p::len fp3 list \<Rightarrow> PirLayout \<Rightarrow> bytes" where
  "tier1_of ranges L =
     concat (map (\<lambda>s. tier1_blob (row_recs ranges (2 ^ tier1_layers L) s)) [0..<2 ^ tier0_layers L])"

lemma export_rows_loop:
  assumes "length buf = 96 * leaves"
  shows "\<exists>buf'. try_fold (export_row ranges leaves) ss (buf, out) =
    Ok (buf', out @ concat (map (\<lambda>s. tier1_blob (row_recs ranges leaves s)) ss))"
  using assms
proof (induction ss arbitrary: buf out)
  case Nil
  then show ?case by simp
next
  case (Cons s ss)
  let ?row = "tier1_blob (row_recs ranges leaves s)"
  have "export_row ranges leaves s (buf, out) = Ok (?row, out @ ?row)"
    by (simp add: export_row_def write_row_eq [OF Cons.prems])
  moreover have "length ?row = 96 * leaves" by (simp add: length_tier1_blob)
  ultimately show ?case using Cons.IH [of ?row "out @ ?row"] by simp
qed

lemma tier1_export_eq:
  assumes "supported L"
  shows "tier1_export_layout ranges L = Ok (tier1_of ranges L)"
proof -
  have "length (replicate (2 ^ tier1_layers L * 96) (0::u8)) = 96 * 2 ^ tier1_layers L" by simp
  from export_rows_loop [OF this, of ranges "[0..<2 ^ tier0_layers L]" "[]"] show ?thesis
    using assms
    by (auto simp: tier1_export_layout_def supported_geometry [OF assms] tier1_of_def
        validate_supported_iff [THEN iffD2])
qed

text \<open>Row \<open>s\<close> of the exported blob is the encoding of its records.\<close>

lemma tier1_of_row:
  assumes "s < 2 ^ tier0_layers L"
  shows "slice_res (tier1_of ranges L) (s * (2 ^ tier1_layers L * 96)) (2 ^ tier1_layers L * 96) =
    Ok (tier1_blob (row_recs ranges (2 ^ tier1_layers L) s))"
proof -
  let ?w = "2 ^ tier1_layers L * 96 :: nat"
  let ?cs = "map (\<lambda>s. tier1_blob (row_recs ranges (2 ^ tier1_layers L) s)) [0..<2 ^ tier0_layers L]"
  have len: "length c = ?w" if "c \<in> set ?cs" for c
    using that by (auto simp: length_tier1_blob)
  have w: "0 < ?w" by simp
  have total: "length (concat ?cs) = ?w * length ?cs" using len by (rule concat_uniform_length)
  have chunks: "chunks_exact ?w (concat ?cs) = ?cs"
    using w len by (intro chunks_exact_concat) auto
  have "s < length (concat ?cs) div ?w" using assms by (simp add: total)
  from chunks_exact_nth [OF w this] have "take ?w (drop (s * ?w) (concat ?cs)) = ?cs ! s"
    unfolding chunks by simp
  moreover have "?w * Suc s \<le> ?w * length ?cs"
    using assms by (intro mult_le_mono2) simp
  then have "s * ?w + ?w \<le> length (concat ?cs)" unfolding total by (simp only: mult_Suc_right mult.commute [of s] add.commute)
  ultimately show ?thesis
    using assms by (simp only: slice_res_def tier1_of_def) simp
qed

lemma export_for_layout_tree:
  assumes "supported L" "pir_depth L = PIR_DEPTH"
  shows "export_for_layout (pir_tree_of P ranges) L = Ok (tier0_of P ranges L, tier1_of ranges L)"
proof -
  have "pt_ranges (pir_tree_of P ranges) = ranges" by (simp add: pir_tree_of_def Let_def)
  then show ?thesis
    by (simp add: export_for_layout_def tier0_export_tree [OF assms] tier1_export_eq [OF assms(1)])
qed

end
