(* ===== verification/Client_Proofs.thy ===== *)
theory Client_Proofs
  imports Pir_Client Export_Tiers
begin

text \<open>
  The client against an honest snapshot: on the exported tiers of a tree, routing through
  Tier 0 reaches the row of the covering leaf, the leaf search finds it, and the three
  parts written into the path (row siblings, Tier 0 siblings, empty hashes) are together
  the sibling path of the depth-29 tree.
\<close>

section \<open>The key order of exported ranges\<close>

text \<open>What the search relies on: bounds in order, consecutive ranges not overlapping.\<close>

definition ordered_ranges :: "'p::len fp3 list \<Rightarrow> bool" where
  "ordered_ranges ranges \<longleftrightarrow>
     (\<forall>i < length ranges. fst (ranges ! i) < snd (snd (ranges ! i))) \<and>
     (\<forall>i j. i < j \<and> j < length ranges \<longrightarrow> snd (snd (ranges ! i)) \<le> fst (ranges ! j))"

lemma ordered_triples:
  assumes "sorted_wrt (<) nfs"
  shows "ordered_ranges (triples nfs)"
  unfolding ordered_ranges_def
proof (intro conjI allI impI)
  fix i assume "i < length (triples nfs)"
  then show "fst (triples nfs ! i) < snd (snd (triples nfs ! i))"
    using sorted_wrt_nth_less [OF assms, of "2 * i" "2 * i + 2"] by (simp add: triple_at_def)
next
  fix i j assume ij: "i < j \<and> j < length (triples nfs)"
  then have "2 * i + 2 \<le> 2 * j" "2 * j < length nfs" by auto
  then have "nfs ! (2 * i + 2) \<le> nfs ! (2 * j)"
    using sorted_wrt_nth_less [OF assms, of "2 * i + 2" "2 * j"] by (cases "2 * i + 2 = 2 * j") auto
  with ij show "snd (snd (triples nfs ! i)) \<le> fst (triples nfs ! j)"
    by (simp add: triple_at_def)
qed

lemma ordered_rangesD:
  assumes "ordered_ranges ranges"
  shows "i < length ranges \<Longrightarrow> fst (ranges ! i) < snd (snd (ranges ! i))"
    and "i < j \<Longrightarrow> j < length ranges \<Longrightarrow> snd (snd (ranges ! i)) \<le> fst (ranges ! j)"
    and "i \<le> j \<Longrightarrow> j < length ranges \<Longrightarrow> fst (ranges ! i) \<le> fst (ranges ! j)"
proof -
  show a: "i < length ranges \<Longrightarrow> fst (ranges ! i) < snd (snd (ranges ! i))" for i
    using assms by (simp add: ordered_ranges_def)
  show b: "i < j \<Longrightarrow> j < length ranges \<Longrightarrow> snd (snd (ranges ! i)) \<le> fst (ranges ! j)"
    using assms by (simp add: ordered_ranges_def)
  show "i \<le> j \<Longrightarrow> j < length ranges \<Longrightarrow> fst (ranges ! i) \<le> fst (ranges ! j)"
    using a [of i] b by (cases "i = j") auto
qed

lemma min_key_mono:
  assumes "ordered_ranges ranges" "a \<le> b"
  shows "subtree_min_key ranges a \<le> subtree_min_key ranges b"
  using ordered_rangesD(3) [OF assms(1,2)] assms(2) by (auto simp: subtree_min_key_def)

text \<open>The minimum keys route a covered value to the subtree of its leaf.\<close>

lemma routing_split:
  assumes ord: "ordered_ranges ranges" and i: "i < length ranges" and cov: "covers (ranges ! i) v"
    and v: "v \<noteq> - 1" and rows: "i div 2 ^ t < n"
  shows "is_split (map (\<lambda>s. subtree_min_key ranges (s * 2 ^ t)) [0..<n]) n v (Suc (i div 2 ^ t))"
  unfolding is_split_def
proof (intro conjI allI impI)
  let ?s = "i div 2 ^ t"
  show "Suc ?s \<le> n" using rows by simp
  have c: "fst (ranges ! i) < v" "v < snd (snd (ranges ! i))"
    using cov by (cases "ranges ! i"; simp add: covers_def)+
  fix j
  show "map (\<lambda>s. subtree_min_key ranges (s * 2 ^ t)) [0..<n] ! j \<le> v" if j: "j < Suc ?s"
  proof -
    have "j * 2 ^ t \<le> ?s * 2 ^ t" using j by simp
    also have "\<dots> \<le> i" by simp
    finally have "subtree_min_key ranges (j * 2 ^ t) \<le> subtree_min_key ranges i"
      by (rule min_key_mono [OF ord])
    with c i have "subtree_min_key ranges (j * 2 ^ t) \<le> v"
      by (simp add: subtree_min_key_def [of _ i])
    with j rows show ?thesis by simp
  qed
  show "v < map (\<lambda>s. subtree_min_key ranges (s * 2 ^ t)) [0..<n] ! j" if j: "Suc ?s \<le> j \<and> j < n"
  proof -
    have "i < Suc ?s * 2 ^ t" by (simp add: dividend_less_div_times)
    also have "\<dots> \<le> j * 2 ^ t" using j by (intro mult_le_mono1) simp
    finally have ij: "i < j * 2 ^ t" .
    have "v < subtree_min_key ranges (j * 2 ^ t)"
    proof (cases "j * 2 ^ t < length ranges")
      case True
      with ij c ordered_rangesD(2) [OF ord ij True] show ?thesis
        by (simp add: subtree_min_key_def)
    next
      case False
      with v show ?thesis by (simp add: subtree_min_key_def order.not_eq_order_implies_strict)
    qed
    with j show ?thesis by simp
  qed
qed

section \<open>One row\<close>

lemma valid_leaves_eq:
  assumes "s * leaves < 2 ^ USIZE_BITS"
  shows "valid_leaves_for_row n s leaves = min (n - s * leaves) leaves"
  using assms by (simp add: valid_leaves_for_row_def Let_def min_absorb1)

lemma row_disjoint:
  assumes "ordered_ranges ranges"
  shows "disjoint_ranges (row_recs ranges leaves s) (min (length ranges - s * leaves) leaves)"
  unfolding disjoint_ranges_def
proof (intro conjI allI impI)
  let ?valid = "min (length ranges - s * leaves) leaves"
  have at: "row_recs ranges leaves s ! i = ranges ! (s * leaves + i)" if "i < ?valid" for i
    using that by (auto simp: row_recs_nth bounds_at_def)
  show "?valid \<le> length (row_recs ranges leaves s)" by simp
  fix i
  show "fst (row_recs ranges leaves s ! i) \<le> snd (snd (row_recs ranges leaves s ! i))" if "i < ?valid"
    using ordered_rangesD(1) [OF assms, of "s * leaves + i"] at [OF that] that
    by (simp add: less_diff_conv add.commute less_imp_le)
  fix j
  assume "i < j \<and> j < ?valid"
  then show "snd (snd (row_recs ranges leaves s ! i)) \<le> fst (row_recs ranges leaves s ! j)"
    using ordered_rangesD(2) [OF assms, of "s * leaves + i" "s * leaves + j"] at [of i] at [of j] by auto
qed

lemma row_leaf_eq:
  assumes "j < leaves"
  shows "row_leaf (poseidon_new P) (row_recs ranges leaves s) (min (length ranges - s * leaves) leaves) j =
    leaf_at P (commit_punctured_ranges P ranges) (s * leaves + j)"
  unfolding leaf_at_bounds_at row_leaf_def using assms
  by (auto simp: row_recs_nth bounds_at_def leaf_of_def)

lemma two_power_even_add_xor: "0 < k \<Longrightarrow> (a * 2 ^ k + b :: nat) XOR 1 = a * 2 ^ k + (b XOR 1)"
proof -
  assume "0 < k"
  then have e: "even (a * 2 ^ k)" by simp
  show ?thesis
  proof (cases "even b")
    case True
    with e show ?thesis by (simp add: xor_one_nat)
  next
    case False
    then have "0 < b" by (auto intro: ccontr)
    with e False show ?thesis by (simp add: xor_one_nat)
  qed
qed

text \<open>The siblings rebuilt from the row are the tree's, at the global leaf position.\<close>

lemma row_siblings:
  assumes j: "j < 2 ^ t" and g: "g = s * 2 ^ t + j"
  shows "map (\<lambda>l. subroot (hash (poseidon_new P))
      (row_leaf (poseidon_new P) (row_recs ranges (2 ^ t) s) (min (length ranges - s * 2 ^ t) (2 ^ t))) l
      ((j div 2 ^ l) XOR 1)) [0..<t] = tree_path P (commit_punctured_ranges P ranges) t g"
  unfolding tree_path_def
proof (rule map_cong [OF refl])
  let ?h = "hash (poseidon_new P)"
  let ?f = "leaf_at P (commit_punctured_ranges P ranges)"
  fix l
  assume "l \<in> set [0..<t]"
  then have l: "l < t" by simp
  have "j < 2 ^ (t - l) * 2 ^ l" using j l by (simp flip: power_add)
  then have "j div 2 ^ l < 2 ^ (t - l)" by (rule less_mult_imp_div_less)
  then have x: "(j div 2 ^ l) XOR 1 < 2 ^ (t - l)"
    using l by (intro xor_one_less_two_power) simp_all
  have "subroot ?h (row_leaf (poseidon_new P) (row_recs ranges (2 ^ t) s) (min (length ranges - s * 2 ^ t) (2 ^ t))) l
      ((j div 2 ^ l) XOR 1) = subroot ?h (\<lambda>j. ?f (s * 2 ^ t + j)) l ((j div 2 ^ l) XOR 1)"
  proof (rule subroot_cong)
    fix m
    assume "m < Suc ((j div 2 ^ l) XOR 1) * 2 ^ l"
    also have "\<dots> \<le> 2 ^ (t - l) * 2 ^ l" using x by (intro mult_le_mono1) simp
    also have "\<dots> = 2 ^ t" using l by (simp flip: power_add)
    finally show "row_leaf (poseidon_new P) (row_recs ranges (2 ^ t) s) (min (length ranges - s * 2 ^ t) (2 ^ t)) m =
        ?f (s * 2 ^ t + m)" by (rule row_leaf_eq)
  qed
  also have "\<dots> = subroot ?h ?f l (s * 2 ^ (t - l) + ((j div 2 ^ l) XOR 1))"
    using l by (intro subroot_shift) simp
  also have "s * 2 ^ (t - l) + ((j div 2 ^ l) XOR 1) = (s * 2 ^ (t - l) + j div 2 ^ l) XOR 1"
    using l by (intro two_power_even_add_xor [symmetric]) simp
  also have "s * 2 ^ (t - l) + j div 2 ^ l = g div 2 ^ l"
  proof -
    have "(2::nat) ^ t = 2 ^ (t - l) * 2 ^ l" using l by (simp flip: power_add)
    then have "g = s * 2 ^ (t - l) * 2 ^ l + j" by (simp add: g mult.assoc)
    then show ?thesis by simp
  qed
  finally show "subroot ?h (row_leaf (poseidon_new P) (row_recs ranges (2 ^ t) s)
      (min (length ranges - s * 2 ^ t) (2 ^ t))) l ((j div 2 ^ l) XOR 1) =
      tree_node P (commit_punctured_ranges P ranges) l ((g div 2 ^ l) XOR 1)" .
qed

section \<open>The path\<close>

lemma tier0_siblings_path:
  assumes "PIR_DEPTH = a + t" "s = g div 2 ^ t"
  shows "map (\<lambda>l. top_node P leaves (a - l) ((s div 2 ^ l) XOR 1)) [0..<a] =
    map (\<lambda>l. tree_node P leaves l ((g div 2 ^ l) XOR 1)) [t..<PIR_DEPTH]"
proof -
  have "[t..<PIR_DEPTH] = map (\<lambda>l. t + l) [0..<a]"
    using assms(1) by (simp add: map_add_upt add.commute)
  moreover have "top_node P leaves (a - l) ((s div 2 ^ l) XOR 1) =
      tree_node P leaves (t + l) ((g div 2 ^ (t + l)) XOR 1)" if "l < a" for l
  proof -
    have "PIR_DEPTH - (a - l) = t + l" using assms(1) that by simp
    moreover have "s div 2 ^ l = g div 2 ^ (t + l)"
      by (simp add: assms(2) power_add div_mult2_eq)
    ultimately show ?thesis by simp
  qed
  ultimately show ?thesis by simp
qed

lemma empty_siblings_path:
  assumes "length leaves \<le> 2 ^ PIR_DEPTH" "g < 2 ^ PIR_DEPTH"
  shows "map (empty_hash P) [PIR_DEPTH..<TREE_DEPTH] =
    map (\<lambda>l. tree_node P leaves l ((g div 2 ^ l) XOR 1)) [PIR_DEPTH..<TREE_DEPTH]"
proof (rule map_cong [OF refl])
  fix l
  assume "l \<in> set [PIR_DEPTH..<TREE_DEPTH]"
  then have "tree_node P leaves l ((g div 2 ^ l) XOR 1) = empty_hash P l"
    using assms by (intro poseidon_empty.empty_siblings [of PIR_DEPTH]) (auto simp: leaf_at_def)
  then show "empty_hash P l = tree_node P leaves l ((g div 2 ^ l) XOR 1)" by simp
qed

lemma fill_path_parts:
  assumes "length as = t" "length bs = d - t" "length cs = TREE_DEPTH - d" "t \<le> d" "d \<le> TREE_DEPTH"
  obtains p1 p2 where "fill_path (replicate TREE_DEPTH 0) t bs = Ok p1" "fill_path p1 0 as = Ok p2"
    "fill_path p2 d cs = Ok (as @ bs @ cs)" "length p1 = TREE_DEPTH"
proof
  let ?p1 = "replicate t 0 @ bs @ replicate (TREE_DEPTH - d) 0"
  let ?p2 = "as @ bs @ replicate (TREE_DEPTH - d) 0"
  show "fill_path (replicate TREE_DEPTH 0) t bs = Ok ?p1"
    using assms by (simp add: fill_path_def write_at_def)
  show "fill_path ?p1 0 as = Ok ?p2"
    using assms by (simp add: fill_path_def write_at_def)
  show "fill_path ?p2 d cs = Ok (as @ bs @ cs)"
    using assms by (simp add: fill_path_def write_at_def)
  show "length ?p1 = TREE_DEPTH" using assms by simp
qed

lemma path_parts:
  assumes "t \<le> d" "d \<le> n"
  shows "map f [0..<t] @ map f [t..<d] @ map f [d..<n] = map f [0..<n]"
proof -
  have "[0..<n] = [0..<t] @ [t..<d] @ [d..<n]"
    using assms by (metis append_assoc le_add_diff_inverse upt_add_eq_append zero_le)
  then show ?thesis by simp
qed

section \<open>The whole retrieval\<close>

text \<open>An honest snapshot: what the client needs to know about ranges and layout.\<close>

definition snapshot_ok :: "'p::len fp3 list \<Rightarrow> PirLayout \<Rightarrow> bool" where
  "snapshot_ok ranges L \<longleftrightarrow>
     supported L \<and> pir_depth L = PIR_DEPTH \<and> ordered_ranges ranges \<and>
     0 < length ranges \<and> length ranges \<le> 2 ^ PIR_DEPTH \<and> fst (ranges ! 0) = 0"

abbreviation tier0_view :: "'p::len poseidon_constants \<Rightarrow> 'p fp3 list \<Rightarrow> PirLayout \<Rightarrow> Tier0Data" where
  "tier0_view P ranges L \<equiv>
     tier0_parsed (tier0_layers L) (top_node P (commit_punctured_ranges P ranges)) (min_key_of ranges L)"

lemma snapshot_depths:
  assumes "snapshot_ok ranges L"
  shows "PIR_DEPTH = tier0_layers L + tier1_layers L" "0 < tier0_layers L" "0 < tier1_layers L"
    "PIR_DEPTH \<le> TREE_DEPTH" "supported L" "pir_depth L = PIR_DEPTH"
    "tier1_layers L \<le> PIR_DEPTH" "PIR_DEPTH - tier1_layers L = tier0_layers L"
    "tier0_layers L \<le> 16" "tier1_layers L \<le> 15"
  using assms by (auto simp: snapshot_ok_def supported_def PIR_DEPTH_def TREE_DEPTH_def)

lemma tier0_of_parses:
  assumes "supported L"
  shows "tier0_from_layout TYPE('p::len) (tier0_of (P :: 'p poseidon_constants) ranges L) L = Ok (tier0_view P ranges L)"
  using tier0_from_layout_blob [OF assms, of "top_node P (commit_punctured_ranges P ranges)" "min_key_of ranges L"]
  by (simp only: tier0_of_def Let_def)

lemma find_subtree_snapshot:
  assumes "snapshot_ok ranges L"
  obtains s where "find_subtree (tier0_view P ranges L) v = Ok (Some s)" "s < 2 ^ tier0_layers L"
    "is_split (map (min_key_of ranges L) [0..<2 ^ tier0_layers L]) (2 ^ tier0_layers L) v (Suc s)"
proof -
  let ?n = "2 ^ tier0_layers L :: nat"
  have ord: "ordered_ranges ranges" and ne: "0 < length ranges" and z: "fst (ranges ! 0) = 0"
    using assms by (auto simp: snapshot_ok_def)
  have mono: "min_key_of ranges L i \<le> min_key_of ranges L j" if "i \<le> j" "j < ?n" for i j
    unfolding min_key_of_def using that by (intro min_key_mono [OF ord]) simp
  obtain r where r: "find_subtree (tier0_view P ranges L) v = Ok (if r = 0 then None else Some (r - 1))"
    and sp: "is_split (map (min_key_of ranges L) [0..<?n]) ?n v r"
    using find_subtree_parsed [of "tier0_layers L" "min_key_of ranges L", OF mono] by blast
  have "min_key_of ranges L 0 \<le> v"
    using ne z by (simp add: min_key_of_def subtree_min_key_def)
  then have "r \<noteq> 0"
    using sp unfolding is_split_def by (metis (no_types, lifting) leD le_refl length_map length_upt
        minus_nat.diff_0 nth_map nth_upt add_0 zero_less_power zero_less_numeral)
  then obtain s where "r = Suc s" by (cases r) auto
  with r sp show thesis by (intro that [of s]) (auto simp: is_split_def)
qed

lemma process_tier0_snapshot:
  assumes "snapshot_ok ranges L" and "length pth = TREE_DEPTH"
    and "find_subtree (tier0_view P ranges L) v = Ok (Some s)" "s < 2 ^ tier0_layers L"
    and "fill_path pth (tier1_layers L)
      (map (\<lambda>l. top_node P (commit_punctured_ranges P ranges) (tier0_layers L - l) ((s div 2 ^ l) XOR 1)) [0..<tier0_layers L]) = Ok p1"
  shows "process_tier0 (tier0_view P ranges L) L v pth = Ok (s, p1)"
proof -
  note d = snapshot_depths [OF assms(1)]
  have "pir_depth L - tier0_layers L = tier1_layers L" "tier0_layers L \<le> pir_depth L"
    using d(1,6) by simp_all
  then show ?thesis
    using assms(3-5) d(2) by (simp add: process_tier0_def tier0_extract_siblings_parsed checked_sub_def)
qed

lemma find_leaf_row:
  assumes "snapshot_ok ranges L" "s < 2 ^ tier0_layers L"
    and "valid = min (length ranges - s * 2 ^ tier1_layers L) (2 ^ tier1_layers L)"
  shows "find_leaf (tier1_parsed (tier1_layers L) (row_recs ranges (2 ^ tier1_layers L) s)) v valid = Ok None \<and>
      (\<forall>j < valid. \<not> covers (ranges ! (s * 2 ^ tier1_layers L + j)) v) \<or>
    (\<exists>j < valid. find_leaf (tier1_parsed (tier1_layers L) (row_recs ranges (2 ^ tier1_layers L) s)) v valid = Ok (Some j) \<and>
      covers (ranges ! (s * 2 ^ tier1_layers L + j)) v)"
proof -
  have at: "row_recs ranges (2 ^ tier1_layers L) s ! j = ranges ! (s * 2 ^ tier1_layers L + j)" if "j < valid" for j
    using that assms(3) by (auto simp: row_recs_nth bounds_at_def)
  have "disjoint_ranges (row_recs ranges (2 ^ tier1_layers L) s) valid"
    using assms row_disjoint [of ranges "2 ^ tier1_layers L" s] by (simp add: snapshot_ok_def)
  from find_leaf_parsed [OF this, of "tier1_layers L" v] show ?thesis
    by (metis at)
qed

lemma row_bounds:
  assumes "snapshot_ok ranges L" "s < 2 ^ tier0_layers L"
  shows "s * 2 ^ tier1_layers L + 2 ^ tier1_layers L \<le> (2::nat) ^ PIR_DEPTH"
    "s * 2 ^ tier1_layers L < 2 ^ USIZE_BITS" "s * (2 ^ tier1_layers L * 96) + 2 ^ tier1_layers L * 96 < 2 ^ USIZE_BITS"
proof -
  have "Suc s * 2 ^ tier1_layers L \<le> 2 ^ tier0_layers L * 2 ^ tier1_layers L"
    using assms(2) by (intro mult_le_mono1) simp
  then show le: "s * 2 ^ tier1_layers L + 2 ^ tier1_layers L \<le> 2 ^ PIR_DEPTH"
    unfolding snapshot_depths(1) [OF assms(1)] power_add by (simp add: add.commute)
  then show "s * 2 ^ tier1_layers L < 2 ^ USIZE_BITS"
    by (simp add: PIR_DEPTH_def USIZE_BITS_def)
  have "(s * 2 ^ tier1_layers L + 2 ^ tier1_layers L) * 96 \<le> 2 ^ PIR_DEPTH * 96"
    using le by (rule mult_le_mono1)
  then show "s * (2 ^ tier1_layers L * 96) + 2 ^ tier1_layers L * 96 < 2 ^ USIZE_BITS"
    by (simp add: PIR_DEPTH_def USIZE_BITS_def algebra_simps)
qed

lemma row_parses:
  assumes "supported L"
  shows "tier1_from_layout TYPE('p::len) (tier1_blob (row_recs (ranges :: 'p fp3 list) (2 ^ tier1_layers L) s)) L =
    Ok (tier1_parsed (tier1_layers L) (row_recs ranges (2 ^ tier1_layers L) s))"
  unfolding tier1_from_layout_Ok_iff [OF assms] by (rule exI [of _ "row_recs ranges (2 ^ tier1_layers L) s"]) simp

text \<open>The input of the second stage for row \<open>s\<close> of the snapshot.\<close>

definition snapshot_input ::
  "'p::len poseidon_constants \<Rightarrow> 'p fp3 list \<Rightarrow> PirLayout \<Rightarrow> nat \<Rightarrow> 'p fp \<Rightarrow> 'p Tier1ProofInput" where
  "snapshot_input P ranges L s v =
     \<lparr>in_tier1_row = tier1_blob (row_recs ranges (2 ^ tier1_layers L) s), in_layout = L, in_row_idx = s,
      in_num_ranges = length ranges, in_nullifier = v, in_empty_hashes = precompute_empty_hashes P,
      in_circuit_root = tree_node P (commit_punctured_ranges P ranges) TREE_DEPTH 0\<rparr>"

definition snapshot_proof :: "'p::len poseidon_constants \<Rightarrow> 'p fp3 list \<Rightarrow> nat \<Rightarrow> 'p ImtProofData" where
  "snapshot_proof P ranges g =
     \<lparr>root = tree_node P (commit_punctured_ranges P ranges) TREE_DEPTH 0, nf_bounds = ranges ! g,
      leaf_pos = word_of_nat g, path = tree_path P (commit_punctured_ranges P ranges) TREE_DEPTH g\<rparr>"

lemma process_tier1_snapshot:
  assumes ok: "snapshot_ok ranges L" and s: "s < 2 ^ tier0_layers L"
    and valid: "valid = min (length ranges - s * 2 ^ tier1_layers L) (2 ^ tier1_layers L)"
    and fl: "find_leaf (tier1_parsed (tier1_layers L) (row_recs ranges (2 ^ tier1_layers L) s)) v valid = Ok (Some j)"
    and j: "j < valid" and g: "g = s * 2 ^ tier1_layers L + j"
    and p1: "fill_path p1 0 (tree_path P (commit_punctured_ranges P ranges) (tier1_layers L) g) = Ok p2"
    and p2: "fill_path p2 PIR_DEPTH (map (empty_hash P) [PIR_DEPTH..<TREE_DEPTH]) =
      Ok (tree_path P (commit_punctured_ranges P ranges) TREE_DEPTH g)"
  shows "process_tier1_and_build P (snapshot_input P ranges L s v) p1 = Ok (snapshot_proof P ranges g)"
proof -
  note d = snapshot_depths [OF ok]
  note b = row_bounds [OF ok s]
  have jt: "j < 2 ^ tier1_layers L" "j < length ranges - s * 2 ^ tier1_layers L" using j valid by auto
  have gl: "g < length ranges" using jt g by simp
  have rec: "row_recs ranges (2 ^ tier1_layers L) s ! j = ranges ! g"
    using jt gl by (simp add: row_recs_nth bounds_at_def g)
  have gw: "s * 2 ^ tier1_layers L + j < 2 ^ USIZE_BITS"
    using b(1) jt by (simp add: PIR_DEPTH_def USIZE_BITS_def)
  have vl: "valid_leaves_for_row (length ranges) s (2 ^ tier1_layers L) = valid"
    using valid_leaves_eq [OF b(2)] valid by simp
  have sib: "tier1_extract_siblings (tier1_parsed (tier1_layers L) (row_recs ranges (2 ^ tier1_layers L) s)) j valid
      (poseidon_new P) = Ok (tree_path P (commit_punctured_ranges P ranges) (tier1_layers L) g)"
    using tier1_extract_siblings_parsed [OF jt(1), of valid "row_recs ranges (2 ^ tier1_layers L) s" "poseidon_new P"]
      row_siblings [OF jt(1) g] valid by simp
  have pad: "slice_res (precompute_empty_hashes P) PIR_DEPTH (TREE_DEPTH - PIR_DEPTH) =
      Ok (map (empty_hash P) [PIR_DEPTH..<TREE_DEPTH])"
    using d(4) by (simp add: slice_res_def precompute_empty_hashes_eq drop_map take_map drop_upt
        del: empty_hash.simps)
  have lr: "leaf_record (tier1_parsed (tier1_layers L) (row_recs ranges (2 ^ tier1_layers L) s)) j = Ok (ranges ! g)"
    using jt rec by (simp add: leaf_record_parsed)
  have idx: "ok_or (Option.bind (checked_mul s (2 ^ tier1_layers L)) (\<lambda>v. checked_add v j)) e = Ok g" for e
    using b(2) gw by (simp add: checked_mul_def checked_add_def g)
  show ?thesis
    unfolding process_tier1_and_build_def Let_def snapshot_input_def Tier1ProofInput.simps
      row_parses [OF d(5)] supported_geometry(3) [OF d(5)] and_then.simps vl fl ok_or_simps sib p1 d(6) pad p2 idx lr
      snapshot_proof_def ..
qed

text \<open>
  For every value outside the padded set the retrieval from an honest snapshot succeeds and
  returns the sibling path of the covering leaf in the depth-29 tree.
\<close>

lemma retrieval_covered:
  assumes ok: "snapshot_ok ranges L" and i: "i < length ranges" and cov: "covers (ranges ! i) v" and v: "v \<noteq> - 1"
  obtains s p1 where "process_tier0 (tier0_view P ranges L) L v (replicate TREE_DEPTH 0) = Ok (s, p1)"
    "s < 2 ^ tier0_layers L"
    "process_tier1_and_build P (snapshot_input P ranges L s v) p1 = Ok (snapshot_proof P ranges i)"
proof -
  let ?t = "tier1_layers L"
  let ?leaves = "commit_punctured_ranges P ranges"
  let ?s = "i div 2 ^ ?t"
  note d = snapshot_depths [OF ok]
  have ord: "ordered_ranges ranges" and len: "length ranges \<le> 2 ^ PIR_DEPTH"
    using ok by (auto simp: snapshot_ok_def)
  have "i < 2 ^ tier0_layers L * 2 ^ ?t" using i len unfolding d(1) power_add by (rule less_le_trans)
  then have s: "?s < 2 ^ tier0_layers L" by (rule less_mult_imp_div_less)
  obtain s where fs: "find_subtree (tier0_view P ranges L) v = Ok (Some s)"
    and sp: "is_split (map (min_key_of ranges L) [0..<2 ^ tier0_layers L]) (2 ^ tier0_layers L) v (Suc s)"
    using find_subtree_snapshot [OF ok] by blast
  have "is_split (map (min_key_of ranges L) [0..<2 ^ tier0_layers L]) (2 ^ tier0_layers L) v (Suc ?s)"
    using routing_split [OF ord i cov v s] by (simp add: min_key_of_def [abs_def])
  with sp have "s = ?s" using is_split_unique by blast
  with fs have fs: "find_subtree (tier0_view P ranges L) v = Ok (Some ?s)" by simp
  define j where "j = i mod 2 ^ ?t"
  have g: "i = ?s * 2 ^ ?t + j" unfolding j_def by (simp only: div_mult_mod_eq)
  have jt: "j < 2 ^ ?t" by (simp add: j_def)
  define valid where "valid = min (length ranges - ?s * 2 ^ ?t) (2 ^ ?t)"
  have jv: "j < valid" using i g jt unfolding valid_def by linarith
  have fl: "find_leaf (tier1_parsed ?t (row_recs ranges (2 ^ ?t) ?s)) v valid = Ok (Some j)"
  proof -
    obtain j' where j': "j' < valid" "covers (ranges ! (?s * 2 ^ ?t + j')) v"
      and r: "find_leaf (tier1_parsed ?t (row_recs ranges (2 ^ ?t) ?s)) v valid = Ok (Some j')"
      using find_leaf_row [OF ok s valid_def, of v] jv cov g by metis
    have "?s * 2 ^ ?t + j' = i"
    proof (rule ccontr)
      assume "?s * 2 ^ ?t + j' \<noteq> i"
      moreover have "?s * 2 ^ ?t + j' < length ranges" using j'(1) unfolding valid_def by linarith
      ultimately show False
        using ordered_rangesD(2) [OF ord, of i "?s * 2 ^ ?t + j'"] ordered_rangesD(2) [OF ord, of "?s * 2 ^ ?t + j'" i]
          i cov j'(2) by (cases "ranges ! i"; cases "ranges ! (?s * 2 ^ ?t + j')")
            (auto simp: covers_def neq_iff)
    qed
    with g have "j' = j" by simp
    with r show ?thesis by simp
  qed
  let ?as = "tree_path P ?leaves ?t i"
  let ?bs = "map (\<lambda>l. top_node P ?leaves (tier0_layers L - l) ((?s div 2 ^ l) XOR 1)) [0..<tier0_layers L]"
  let ?cs = "map (empty_hash P) [PIR_DEPTH..<TREE_DEPTH]"
  have "length ?as = ?t" "length ?bs = PIR_DEPTH - ?t" "length ?cs = TREE_DEPTH - PIR_DEPTH"
    using d by (simp_all add: tree_path_def)
  then obtain p1 p2 where p: "fill_path (replicate TREE_DEPTH 0) ?t ?bs = Ok p1" "fill_path p1 0 ?as = Ok p2"
    "fill_path p2 PIR_DEPTH ?cs = Ok (?as @ ?bs @ ?cs)"
    using fill_path_parts [of ?as ?t ?bs PIR_DEPTH ?cs] d(4,7) by blast
  have "i < 2 ^ PIR_DEPTH" using i len by simp
  then have path: "?as @ ?bs @ ?cs = tree_path P ?leaves TREE_DEPTH i"
    unfolding tier0_siblings_path [OF d(1) refl] tree_path_def
    using empty_siblings_path [of ?leaves i P] len
      path_parts [OF d(7,4), of "\<lambda>l. tree_node P ?leaves l ((i div 2 ^ l) XOR 1)"]
    by (simp only: length_commit)
  show thesis
  proof (rule that [OF _ s])
    show "process_tier0 (tier0_view P ranges L) L v (replicate TREE_DEPTH 0) = Ok (?s, p1)"
      using process_tier0_snapshot [OF ok _ fs s p(1)] by simp
    show "process_tier1_and_build P (snapshot_input P ranges L ?s v) p1 = Ok (snapshot_proof P ranges i)"
      using process_tier1_snapshot [OF ok s valid_def fl jv g p(2)] p(3) path by simp
  qed
qed

text \<open>For a value no range covers, the retrieval ends with the leaf-scan error.\<close>

lemma retrieval_uncovered:
  assumes ok: "snapshot_ok ranges L" and unc: "\<forall>i < length ranges. \<not> covers (ranges ! i) v"
  obtains s p1 where "process_tier0 (tier0_view P ranges L) L v (replicate TREE_DEPTH 0) = Ok (s, p1)"
    "s < 2 ^ tier0_layers L"
    "process_tier1_and_build P (snapshot_input P ranges L s v) p1 = Bail ''nullifier not found in Tier 1 leaf scan''"
proof -
  let ?t = "tier1_layers L"
  note d = snapshot_depths [OF ok]
  obtain s where fs: "find_subtree (tier0_view P ranges L) v = Ok (Some s)" and s: "s < 2 ^ tier0_layers L"
    using find_subtree_snapshot [OF ok] by blast
  let ?bs = "map (\<lambda>l. top_node P (commit_punctured_ranges P ranges) (tier0_layers L - l) ((s div 2 ^ l) XOR 1)) [0..<tier0_layers L]"
  have "\<exists>p1. fill_path (replicate TREE_DEPTH 0) ?t ?bs = Ok p1"
    using d(1,4) by (simp add: fill_path_def write_at_def)
  then obtain p1 where p1: "fill_path (replicate TREE_DEPTH 0) ?t ?bs = Ok p1" ..
  define valid where "valid = min (length ranges - s * 2 ^ ?t) (2 ^ ?t)"
  have "\<not> covers (ranges ! (s * 2 ^ ?t + j)) v" if "j < valid" for j
    using unc that unfolding valid_def by (auto simp: less_diff_conv add.commute)
  then have fl: "find_leaf (tier1_parsed ?t (row_recs ranges (2 ^ ?t) s)) v valid = Ok None"
    using find_leaf_row [OF ok s valid_def, of v] by blast
  have vl: "valid_leaves_for_row (length ranges) s (2 ^ ?t) = valid"
    using valid_leaves_eq [OF row_bounds(2) [OF ok s]] valid_def by simp
  show thesis
  proof (rule that [OF _ s])
    show "process_tier0 (tier0_view P ranges L) L v (replicate TREE_DEPTH 0) = Ok (s, p1)"
      using process_tier0_snapshot [OF ok _ fs s p1] by simp
    show "process_tier1_and_build P (snapshot_input P ranges L s v) p1 = Bail ''nullifier not found in Tier 1 leaf scan''"
      unfolding process_tier1_and_build_def Let_def snapshot_input_def Tier1ProofInput.simps
        row_parses [OF d(5)] supported_geometry(3) [OF d(5)] and_then.simps vl fl ok_or_simps ..
  qed
qed

lemma local_as_stages:
  assumes ok: "snapshot_ok ranges L"
    and p0: "process_tier0 (tier0_view P ranges L) L v (replicate TREE_DEPTH 0) = Ok (s, p1)"
    and s: "s < 2 ^ tier0_layers L"
  shows "fetch_proof_local_layout P (tier0_of P ranges L) (tier1_of ranges L) L (length ranges) v
      (precompute_empty_hashes P) (tree_node P (commit_punctured_ranges P ranges) TREE_DEPTH 0) =
    process_tier1_and_build P (snapshot_input P ranges L s v) p1"
proof -
  note d = snapshot_depths [OF ok]
  note b = row_bounds(3) [OF ok s]
  have len: "s * (2 ^ tier1_layers L * 96) + 2 ^ tier1_layers L * 96 \<le> length (tier1_of ranges L)"
    using tier1_of_row [OF s, of ranges] by (simp add: slice_res_def split: if_splits)
  have c: "checked_mul s (2 ^ tier1_layers L * 96) = Some (s * (2 ^ tier1_layers L * 96))"
    "checked_add (s * (2 ^ tier1_layers L * 96)) (2 ^ tier1_layers L * 96) =
      Some (s * (2 ^ tier1_layers L * 96) + 2 ^ tier1_layers L * 96)"
    using b by (simp_all add: checked_mul_def checked_add_def)
  have v: "validate_layout L = Ok ()" using d(5) by (simp add: validate_layout_def validate_supported_iff)
  show ?thesis
    unfolding fetch_proof_local_layout_def v and_then.simps Let_def tier0_of_parses [OF d(5)]
      supported_geometry(4) [OF d(5)] p0 prod.case c ok_or_simps tier1_of_row [OF s] snapshot_input_def
    using len by simp
qed

lemma verify_snapshot_proof:
  assumes "snapshot_ok ranges L" "i < length ranges" "covers (ranges ! i) v"
  shows "proof_wf (snapshot_proof P ranges i)" "verify P (snapshot_proof P ranges i) v"
proof -
  show "proof_wf (snapshot_proof P ranges i)"
    by (simp add: proof_wf_def snapshot_proof_def tree_path_def)
  have "(2::nat) ^ PIR_DEPTH \<le> 2 ^ TREE_DEPTH" by (simp add: PIR_DEPTH_def TREE_DEPTH_def)
  then have len: "length ranges \<le> 2 ^ TREE_DEPTH"
    using assms(1) le_trans unfolding snapshot_ok_def by blast
  have "ordered_ranges ranges" using assms(1) by (simp add: snapshot_ok_def)
  from ordered_rangesD(1) [OF this assms(2)] assms(3) have "in_span (ranges ! i) v"
    by (cases "ranges ! i") (simp add: in_span_covers less_imp_le)
  then show "verify P (snapshot_proof P ranges i) v"
    using assms(2) len by (intro verify_complete [of i ranges]) (simp_all add: snapshot_proof_def)
qed

text \<open>A tree built from nullifiers gives an honest snapshot.\<close>

lemma snapshot_from_nullifiers:
  assumes "pad_slot_free nfs" "length (triples (nf_list nfs)) \<le> 2 ^ PIR_DEPTH" "supported L" "pir_depth L = PIR_DEPTH"
  shows "snapshot_ok (triples (nf_list nfs)) L"
proof -
  have "0 < length (triples (nf_list nfs))"
    using length_nf_list_ge [of nfs] by simp
  then show ?thesis
    using assms hd_nf_list [of nfs] ordered_triples [OF nf_list_sorted, of nfs]
    by (simp add: snapshot_ok_def triple_at_def hd_conv_nth)
qed

lemma covered_iff_not_padded:
  assumes "pad_slot_free nfs"
  shows "(\<exists>i < length (triples (nf_list nfs)). covers (triples (nf_list nfs) ! i) v) \<longleftrightarrow> v \<notin> padded_set nfs"
  using find_in_prepared [OF assms, of v] find_triples_Some_iff [OF nf_list_sorted odd_length_nf_list [OF assms], of v]
  by (auto simp: )

section \<open>What the server observes\<close>

lemma search_loop_bound: "search_loop f v lo hi = Ok r \<Longrightarrow> lo \<le> hi \<Longrightarrow> r \<le> hi"
proof (induction f v lo hi rule: search_loop.induct)
  case (1 f v lo hi)
  show ?case
  proof (cases "lo < hi")
    case False
    with "1.prems" show ?thesis by (subst (asm) search_loop.simps) simp
  next
    case True
    define mid where "mid = lo + (hi - lo) div 2"
    have mid: "lo \<le> mid" "mid < hi" using True by (auto simp: mid_def)
    from True "1.prems" obtain k where "f mid = Ok k"
      and r: "(if k \<le> v then search_loop f v (mid + 1) hi else search_loop f v lo mid) = Ok r"
      by (subst (asm) search_loop.simps) (auto simp: Let_def mid_def [symmetric] result_simps)
    then show ?thesis
      using "1.IH" [OF True mid_def] mid by (fastforce split: if_splits)
  qed
qed

lemma find_subtree_bound: "find_subtree t v = Ok (Some s) \<Longrightarrow> s < num_subtrees t"
  by (auto simp: find_subtree_def binary_search_records_def Let_def result_simps split: if_splits
      dest!: search_loop_bound)

lemma catch_unwind_Ok [simp]: "catch_unwind m r = Ok x \<longleftrightarrow> r = Ok x"
  by (auto simp: catch_unwind_def split: sum.splits error.splits)

text \<open>What connecting establishes about a client, whatever the server answered.\<close>

definition client_wf :: "'p::len PirClient \<Rightarrow> bool" where
  "client_wf c \<longleftrightarrow>
     supported (pc_layout c) \<and>
     num_items (pc_tier1_scenario c) = 2 ^ tier0_layers (pc_layout c) \<and>
     item_size_bits (pc_tier1_scenario c) = 2 ^ tier1_layers (pc_layout c) * 768 \<and>
     scn_poly_len (pc_tier1_scenario c) = poly_len (pc_layout c) \<and>
     pc_tier1_row_bytes c = 2 ^ tier1_layers (pc_layout c) * 96 \<and>
     tier0_from_layout TYPE('p) (t0_data (pc_tier0 c)) (pc_layout c) = Ok (pc_tier0 c)"

lemma check_root_Ok:
  "check_root N J url L = Ok ri \<Longrightarrow> ri_pir_layout ri = L \<and> supported L \<and> ri_pir_depth ri = pir_depth L \<and>
     is_current_dataset (ri_nullifier_pool ri) (ri_dataset_version ri)"
  by (auto simp: check_root_def result_simps validate_layout_def validate_supported_iff)

lemma connect_data_wf:
  assumes "connect_data P N J base L ri = Ok c" "ri_pir_layout ri = L" "supported L"
  shows "client_wf c \<and> pc_layout c = L"
proof -
  note geo = supported_geometry [OF assms(3)]
  from assms(1) obtain d t0 where
    t0: "tier0_from_layout TYPE('a) d L = Ok t0" and c: "pc_tier0 c = t0" "pc_layout c = L"
      "pc_tier1_row_bytes c = 2 ^ tier1_layers L * 96"
      "num_items (pc_tier1_scenario c) = 2 ^ tier0_layers L"
      "item_size_bits (pc_tier1_scenario c) = 2 ^ tier1_layers L * 768"
      "scn_poly_len (pc_tier1_scenario c) = poly_len L"
    by (auto simp: connect_data_def assms(2) result_simps tier1_geometry_def geo)
  have "t0_data t0 = d" using t0 by (auto simp: tier0_from_layout_def result_simps)
  with t0 c assms(3) show ?thesis by (simp add: client_wf_def)
qed

lemma with_transport_wf:
  assumes "with_transport P N J url L = (Ok c, rs)"
  shows "client_wf c \<and> pc_layout c = L"
proof -
  from assms obtain ri where r: "check_root N J (trim_end_slashes url @ ''/root'') L = Ok ri"
    and c: "connect_data P N J (trim_end_slashes url) L ri = Ok c"
    by (auto simp: with_transport_def Let_def split: sum.splits)
  from connect_data_wf [OF c] check_root_Ok [OF r] show ?thesis by blast
qed

text \<open>
  Every retrieval sends exactly one query to the same endpoint, whether or not the public
  tier routes the value: the row only enters through the YPIR query.
\<close>

lemma fetch_proof_inner_request:
  assumes "client_wf c"
  shows "\<exists>row < 2 ^ tier0_layers (pc_layout c).
    snd (fetch_proof_inner P N Y seed c v) =
      [Post (pc_server_url c @ ''/tier1/query'')
        (case generate_query_simplepir Y (pc_tier1_scenario c) seed row of (q, pp) \<Rightarrow> serialize_ypir_query q pp)]"
proof -
  let ?r = "catch_unwind ''Tier 0 processing panicked'' (process_tier0 (pc_tier0 c) (pc_layout c) v (replicate TREE_DEPTH 0))"
  let ?row = "case ?r of Inr (s1, _) \<Rightarrow> s1 | Inl _ \<Rightarrow> DUMMY_TIER1_ROW"
  have wf: "supported (pc_layout c)" "num_items (pc_tier1_scenario c) = 2 ^ tier0_layers (pc_layout c)"
    "scn_poly_len (pc_tier1_scenario c) = poly_len (pc_layout c)"
    and t0: "tier0_from_layout TYPE('a) (t0_data (pc_tier0 c)) (pc_layout c) = Ok (pc_tier0 c)"
    using assms by (auto simp: client_wf_def)
  have n: "num_subtrees (pc_tier0 c) = 2 ^ tier0_layers (pc_layout c)"
    using t0 unfolding tier0_from_layout_Ok_iff [OF wf(1)] by (metis Tier0Data.select_convs(3))
  have row: "?row < 2 ^ tier0_layers (pc_layout c)"
  proof (cases ?r)
    case (Inl e)
    then show ?thesis by (simp add: DUMMY_TIER1_ROW_def)
  next
    case (Inr x)
    then have "find_subtree (pc_tier0 c) v = Ok (Some (fst x))"
      by (auto simp: process_tier0_def result_simps)
    from find_subtree_bound [OF this] n show ?thesis
      unfolding Inr by (simp add: case_prod_unfold)
  qed
  have poly: "poly_len (pc_layout c) = 2048 \<or> poly_len (pc_layout c) = 4096"
    using wf(1) by (simp add: supported_def)
  have "snd (ypir_query N Y (pc_server_url c) (pc_tier1_scenario c) ''tier1'' seed ?row (pc_tier1_row_bytes c)) =
      [Post (pc_server_url c @ ''/tier1/query'')
        (case generate_query_simplepir Y (pc_tier1_scenario c) seed ?row of (q, pp) \<Rightarrow> serialize_ypir_query q pp)]"
    using row poly wf by (simp add: ypir_query_def Let_def case_prod_unfold)
  then show ?thesis
    using row by (intro exI [of _ ?row]) (simp add: fetch_proof_inner_def Let_def case_prod_unfold)
qed

section \<open>Retrieval over the network\<close>

text \<open>
  The contract of the remote side: for every row, the server answers the query with a
  response that the YPIR client decodes to bytes starting with that row.
\<close>

definition answers_rows ::
  "net \<Rightarrow> ypir_client \<Rightarrow> nat \<Rightarrow> 'p::len PirClient \<Rightarrow> 'p fp3 list \<Rightarrow> bool" where
  "answers_rows N Y seed c ranges \<longleftrightarrow>
     (\<forall>row < 2 ^ tier0_layers (pc_layout c). \<exists>resp dec.
        net_post N (pc_server_url c @ ''/tier1/query'')
          (case generate_query_simplepir Y (pc_tier1_scenario c) seed row of (q, pp) \<Rightarrow> serialize_ypir_query q pp) = Ok resp \<and>
        is_success (rsp_status resp) \<and>
        decode_response_simplepir Y (pc_tier1_scenario c) seed (rsp_body resp) = Ok dec \<and>
        pc_tier1_row_bytes c \<le> length dec \<and>
        take (pc_tier1_row_bytes c) dec =
          tier1_blob (row_recs ranges (2 ^ tier1_layers (pc_layout c)) row))"

text \<open>The client holds the public part of the snapshot.\<close>

definition holds_snapshot :: "'p::len poseidon_constants \<Rightarrow> 'p PirClient \<Rightarrow> 'p fp3 list \<Rightarrow> bool" where
  "holds_snapshot P c ranges \<longleftrightarrow>
     pc_tier0 c = tier0_view P ranges (pc_layout c) \<and> pc_num_ranges c = length ranges \<and>
     pc_empty_hashes c = precompute_empty_hashes P \<and>
     pc_circuit_root c = tree_node P (commit_punctured_ranges P ranges) TREE_DEPTH 0"

lemma ypir_query_row:
  assumes "client_wf c" "answers_rows N Y seed c ranges" "row < 2 ^ tier0_layers (pc_layout c)"
  shows "fst (ypir_query N Y (pc_server_url c) (pc_tier1_scenario c) ''tier1'' seed row (pc_tier1_row_bytes c)) =
    Ok (tier1_blob (row_recs ranges (2 ^ tier1_layers (pc_layout c)) row))"
proof -
  obtain q pp where q: "generate_query_simplepir Y (pc_tier1_scenario c) seed row = (q, pp)"
    by (cases "generate_query_simplepir Y (pc_tier1_scenario c) seed row")
  obtain resp dec where "net_post N (pc_server_url c @ ''/tier1/query'') (serialize_ypir_query q pp) = Ok resp"
    "is_success (rsp_status resp)" "decode_response_simplepir Y (pc_tier1_scenario c) seed (rsp_body resp) = Ok dec"
    "pc_tier1_row_bytes c \<le> length dec"
    "take (pc_tier1_row_bytes c) dec = tier1_blob (row_recs ranges (2 ^ tier1_layers (pc_layout c)) row)"
    using assms(2,3) q unfolding answers_rows_def by fastforce
  moreover have "poly_len (pc_layout c) = 2048 \<or> poly_len (pc_layout c) = 4096"
    "row < num_items (pc_tier1_scenario c)" "scn_poly_len (pc_tier1_scenario c) = poly_len (pc_layout c)"
    using assms(1,3) by (auto simp: client_wf_def supported_def)
  ultimately show ?thesis
    by (simp add: ypir_query_def Let_def q catch_unwind_def)
qed

lemma remote_as_stages:
  assumes "client_wf c" "answers_rows N Y seed c ranges" "holds_snapshot P c ranges"
    and "process_tier0 (tier0_view P ranges (pc_layout c)) (pc_layout c) v (replicate TREE_DEPTH 0) = Ok (s, p1)"
    and "s < 2 ^ tier0_layers (pc_layout c)"
  shows "fetch_proof P N Y seed c v = process_tier1_and_build P (snapshot_input P ranges (pc_layout c) s v) p1"
  using assms ypir_query_row [OF assms(1,2,5)]
  by (simp add: fetch_proof_def fetch_proof_inner_def Let_def case_prod_unfold holds_snapshot_def catch_unwind_def
      snapshot_input_def)

section \<open>Hostile rows\<close>

text \<open>
  Whatever bytes the server sends for the public table and the row, and whatever count of
  ranges it advertises, a connected client returns an error or a proof with 29 siblings
  against the advertised root; it does not panic.
\<close>

lemma find_leaf_returns:
  fixes v :: "'p::len fp" and recs :: "'p fp3 list"
  assumes "n \<le> length recs"
  shows "\<exists>r. find_leaf (tier1_parsed layers recs) v n = Ok r \<and> (\<forall>i. r = Some i \<longrightarrow> i < n)"
proof (cases "n = 0")
  case True
  then show ?thesis by (simp add: find_leaf_def)
next
  case False
  obtain r where "search_loop (\<lambda>mid. read_fp_at (tier1_blob recs) (0 + mid * TIER1_LEAF_BYTES + 0)) v 0 n = Ok r" "r \<le> n"
    using tier1_keys.search_loop_returns [of n recs 0 v] assms by auto
  then have bs: "binary_search_records (t1_data (tier1_parsed layers recs)) 0 n TIER1_LEAF_BYTES 0 v =
      Ok (if r = 0 then None else Some (r - 1))" and r: "r - 1 < n"
    using False by (simp_all add: binary_search_records_def tier1_parsed_def)
  then show ?thesis
    using False assms by (auto simp: find_leaf_def leaf_record_parsed Let_def split: prod.split)
qed

lemma validate_all_fp_chunks_cases: "validate_all_fp_chunks TYPE('p::len) data = Ok () \<or> (\<exists>m. validate_all_fp_chunks TYPE('p) data = Bail m)"
proof -
  have "try_fold (\<lambda>chunk _. validate_fp_bytes TYPE('p) chunk) cs () = Ok () \<or>
      (\<exists>m. try_fold (\<lambda>chunk _. validate_fp_bytes TYPE('p) chunk) cs () = Bail m)" for cs
    by (induction cs) (auto simp: validate_fp_bytes_def ensure_def)
  then show ?thesis by (simp add: validate_all_fp_chunks_def)
qed

lemma tier1_from_layout_cases:
  assumes "supported L"
  obtains (bail) m where "tier1_from_layout TYPE('p::len) data L = Bail m"
    | (row) recs :: "'p::len fp3 list" where "tier1_from_layout TYPE('p) data L = Ok (tier1_parsed (tier1_layers L) recs)"
        "length recs = 2 ^ tier1_layers L"
proof (cases "tier1_from_layout TYPE('p) data L")
  case (Inl e)
  then have "\<exists>m. e = Error m"
    using validate_all_fp_chunks_cases [of data, where 'p = 'p]
    by (auto simp: tier1_from_layout_def supported_geometry [OF assms] ensure_def split: if_splits)
  with Inl bail show ?thesis by blast
next
  case (Inr t)
  with row show ?thesis by (auto simp: tier1_from_layout_Ok_iff [OF assms])
qed

lemma process_tier1_hostile:
  fixes inp :: "'p::len Tier1ProofInput"
  assumes L: "supported (in_layout inp)" and pth: "length pth = TREE_DEPTH" and emp: "length (in_empty_hashes inp) = TREE_DEPTH"
  shows "(\<exists>m. process_tier1_and_build P inp pth = Bail m) \<or>
    (\<exists>pr. process_tier1_and_build P inp pth = Ok pr \<and> proof_wf pr \<and> root pr = in_circuit_root inp)"
proof -
  consider (bail) m where "tier1_from_layout TYPE('p) (in_tier1_row inp) (in_layout inp) = Bail m"
    | (row) recs :: "'p fp3 list" where
        "tier1_from_layout TYPE('p) (in_tier1_row inp) (in_layout inp) = Ok (tier1_parsed (tier1_layers (in_layout inp)) recs)"
        "length recs = 2 ^ tier1_layers (in_layout inp)"
    using tier1_from_layout_cases [OF L, where 'p = 'p and data = "in_tier1_row inp"] by metis
  then show ?thesis
  proof cases
  case (bail m)
  then show ?thesis by (simp add: process_tier1_and_build_def Let_def)
next
  case (row recs)
  let ?l = "tier1_layers (in_layout inp)" and ?d = "pir_depth (in_layout inp)" and ?h = "poseidon_new P"
  define valid where "valid = valid_leaves_for_row (in_num_ranges inp) (in_row_idx inp) (2 ^ ?l)"
  have v: "valid \<le> 2 ^ ?l" by (simp add: valid_def valid_leaves_for_row_def Let_def)
  have d: "?l \<le> ?d" "?d \<le> TREE_DEPTH" using L by (auto simp: supported_def TREE_DEPTH_def)
  obtain r where r: "find_leaf (tier1_parsed ?l recs) (in_nullifier inp) valid = Ok r" "\<And>i. r = Some i \<Longrightarrow> i < valid"
    using find_leaf_returns [of valid recs ?l "in_nullifier inp"] v row(2) by auto
  show ?thesis
  proof (cases r)
    case None
    with r row show ?thesis
      by (simp add: process_tier1_and_build_def Let_def supported_geometry [OF L] valid_def)
  next
    case (Some i)
    then have i: "i < 2 ^ ?l" using r(2) v by force
    have sib: "tier1_extract_siblings (tier1_parsed ?l recs) i valid ?h =
        Ok (map (\<lambda>k. subroot (hash ?h) (row_leaf ?h recs valid) k ((i div 2 ^ k) XOR 1)) [0..<?l])" (is "_ = Ok ?ss")
      using i v row(2) by (rule tier1_extract_siblings_parsed)
    obtain p1 where p1: "fill_path pth 0 ?ss = Ok p1" "length p1 = TREE_DEPTH"
      using pth d write_at_length by (fastforce simp: fill_path_def write_at_def)
    have pad: "slice_res (in_empty_hashes inp) ?d (TREE_DEPTH - ?d) = Ok (take (TREE_DEPTH - ?d) (drop ?d (in_empty_hashes inp)))"
      (is "_ = Ok ?pad") using emp d by (simp add: slice_res_def)
    obtain p2 where p2: "fill_path p1 ?d ?pad = Ok p2" "length p2 = TREE_DEPTH"
      using p1(2) emp d write_at_length by (fastforce simp: fill_path_def write_at_def)
    have leaf: "leaf_record (tier1_parsed ?l recs) i = Ok (recs ! i)" using i row(2) by (simp add: leaf_record_parsed)
    show ?thesis
      using row(1) r(1) Some sib p1 p2 pad leaf
      by (cases "Option.bind (checked_mul (in_row_idx inp) (2 ^ ?l)) (\<lambda>v. checked_add v i)")
        (auto simp: process_tier1_and_build_def Let_def supported_geometry [OF L] valid_def proof_wf_def simp del: subroot.simps)
  qed
  qed
qed

lemma with_transport_empties:
  assumes "with_transport P N J url L = (Ok c, rs)"
  shows "pc_empty_hashes c = precompute_empty_hashes P"
  using assms by (auto simp: with_transport_def Let_def connect_data_def result_simps split: sum.splits)

lemma process_tier0_path: "process_tier0 t L v pth = Ok (s, p1) \<Longrightarrow> length p1 = length pth"
  by (auto simp: process_tier0_def result_simps fill_path_def dest: write_at_length)

lemma catch_unwind_no_panic [simp]: "catch_unwind m r \<noteq> Inl (Panic p)"
  by (auto simp: catch_unwind_def split: sum.splits error.splits)

lemma ypir_query_cases:
  assumes "\<And>url body m. net_post N url body \<noteq> Inl (Panic m)"
  shows "(\<exists>row. fst (ypir_query N Y url scn tier seed i n) = Ok row) \<or> (\<exists>m. fst (ypir_query N Y url scn tier seed i n) = Bail m)"
proof (cases "fst (ypir_query N Y url scn tier seed i n)")
  case (Inl e)
  then have "\<exists>m. e = Error m"
    using assms
    by (cases e) (auto simp: ypir_query_def case_prod_unfold Let_def ensure_def and_then_Err_iff split: if_splits)
  with Inl show ?thesis by blast
qed blast

lemma fetch_proof_hostile:
  assumes con: "with_transport P N0 J url L = (Ok c, rs)" and net: "\<And>url body m. net_post N url body \<noteq> Inl (Panic m)"
  shows "(\<exists>m. fetch_proof P N Y seed c v = Bail m) \<or>
    (\<exists>pr. fetch_proof P N Y seed c v = Ok pr \<and> proof_wf pr \<and> root pr = pc_circuit_root c)"
proof -
  let ?r0 = "catch_unwind ''Tier 0 processing panicked'' (process_tier0 (pc_tier0 c) (pc_layout c) v (replicate TREE_DEPTH 0))"
  have L: "supported (pc_layout c)" using with_transport_wf [OF con] by (auto simp: client_wf_def)
  have emp: "length (pc_empty_hashes c) = TREE_DEPTH" by (simp add: with_transport_empties [OF con] precompute_empty_hashes_eq)
  show ?thesis
  proof (cases ?r0)
    case (Inl e)
    then obtain m where "e = Error m" by (cases e) auto
    with Inl show ?thesis by (simp add: fetch_proof_def fetch_proof_inner_def Let_def case_prod_unfold)
  next
    case (Inr x)
    obtain s p1 where x: "x = (s, p1)" by (cases x)
    have p1: "length p1 = TREE_DEPTH" using Inr process_tier0_path [of "pc_tier0 c" "pc_layout c" v _ s p1] by (simp add: x)
    let ?q = "fst (ypir_query N Y (pc_server_url c) (pc_tier1_scenario c) ''tier1'' seed s (pc_tier1_row_bytes c))"
    from ypir_query_cases [OF net] consider (row) row where "?q = Ok row" | (bail) m where "?q = Bail m" by blast
    then show ?thesis
    proof cases
      case row
      let ?inp = "\<lparr>in_tier1_row = row, in_layout = pc_layout c, in_row_idx = s, in_num_ranges = pc_num_ranges c,
        in_nullifier = v, in_empty_hashes = pc_empty_hashes c, in_circuit_root = pc_circuit_root c\<rparr>"
      have "fetch_proof P N Y seed c v = process_tier1_and_build P ?inp p1"
        using row Inr by (simp add: fetch_proof_def fetch_proof_inner_def Let_def case_prod_unfold x catch_unwind_def)
      with process_tier1_hostile [of ?inp p1 P] L emp p1 show ?thesis by simp
    next
      case bail
      then show ?thesis using Inr by (simp add: fetch_proof_def fetch_proof_inner_def Let_def case_prod_unfold x catch_unwind_def)
    qed
  qed
qed

end
