(* ===== verification/Snapshot_Fs.thy ===== *)
theory Snapshot_Fs
  imports Tree_Checkpoint Export_Tiers Client_Proofs
begin

text \<open>
  The exported snapshot on disk, \<^verbatim>\<open>pir/export/src/lib.rs\<close>: writing the tier files and the
  metadata, building and checkpointing a tree, and the completeness check that decides
  whether a snapshot can be reused. JSON and hex coding are parameters. The lemmas show
  that an export passes the check for its own height, and that a directory left by an
  interrupted export passes it only when its files are the ones from before or its metadata
  names the root of the new tree.
\<close>

record meta_codec =
  meta_to_json :: "PirMetadata \<Rightarrow> bytes"
  meta_from_json :: "bytes \<Rightarrow> PirMetadata option"
  hex_of :: "bytes \<Rightarrow> string"
  hex_to :: "string \<Rightarrow> bytes option"

definition tier0_file :: string where "tier0_file = ''tier0.bin''"

definition tier1_file :: string where "tier1_file = ''tier1.bin''"

definition root_file :: string where "root_file = ''pir_root.json''"

text \<open>\<open>evict_stale_precompute\<close> for the tier file with the given stem.\<close>

definition evict_stale_precompute :: "string \<Rightarrow> fs_op list" where
  "evict_stale_precompute stem = [RemoveFile (stem @ ''.precompute''), RemoveFile (stem @ ''.precompute.tmp'')]"

definition legacy_ops :: "fs_op list" where
  "legacy_ops = map RemoveFile [''tier2.bin'', ''tier2.precompute'', ''tier2.precompute.tmp'']"

definition export_metadata ::
  "meta_codec \<Rightarrow> 'p::len PirTree \<Rightarrow> ZcashNetwork \<Rightarrow> u64 option \<Rightarrow> PirLayout \<Rightarrow> usize \<Rightarrow> usize \<Rightarrow> usize \<Rightarrow> PirMetadata" where
  "export_metadata C tree network height layout n0 rows row_bytes =
     \<lparr>md_zcash_network = network, md_nullifier_pool = NULLIFIER_POOL, md_dataset_version = DATASET_VERSION,
      md_pir_root = hex_of C (to_repr (pt_pir_root tree)), md_circuit_root = hex_of C (to_repr (pt_circuit_root tree)),
      md_num_ranges = length (pt_ranges tree), md_pir_depth = pir_depth layout, md_pir_layout = layout,
      md_tier0_bytes = n0, md_tier1_rows = rows, md_tier1_row_bytes = row_bytes, md_height = height\<rparr>"

text \<open>The writes of an export, given the two blobs and the geometry.\<close>

definition export_ops :: "meta_codec \<Rightarrow> PirMetadata \<Rightarrow> bytes \<Rightarrow> bytes \<Rightarrow> fs_op list" where
  "export_ops C meta t0 t1 =
     legacy_ops @
     [WriteFile tier0_file t0] @ evict_stale_precompute ''tier0'' @
     [WriteFile tier1_file t1] @ evict_stale_precompute ''tier1'' @
     [WriteFile root_file (meta_to_json C meta)]"

text \<open>The directory after the call and its result; an error keeps the effects before it.\<close>

definition export_all_with_layout ::
  "meta_codec \<Rightarrow> 'p::len PirTree \<Rightarrow> dir \<Rightarrow> ZcashNetwork \<Rightarrow> u64 option \<Rightarrow> PirLayout \<Rightarrow> dir \<times> unit result" where
  "export_all_with_layout C tree d network height layout =
     (case validate_supported layout of
        Inl e \<Rightarrow> (d, Inl e)
      | Inr _ \<Rightarrow>
          let d1 = run_ops legacy_ops d
          in case tier0_export_layout (pt_pir_root tree) (pt_levels tree) (pt_ranges tree) (pt_empty_hashes tree) layout of
               Inl e \<Rightarrow> (d1, Inl e)
             | Inr t0 \<Rightarrow>
                 let d2 = run_ops ([WriteFile tier0_file t0] @ evict_stale_precompute ''tier0'') d1
                 in case tier1_export_layout (pt_ranges tree) layout of
                      Inl e \<Rightarrow> (run_ops [WriteFile tier1_file []] d2, Inl e)
                    | Inr t1 \<Rightarrow>
                        let d3 = run_ops ([WriteFile tier1_file t1] @ evict_stale_precompute ''tier1'') d2
                        in case and_then (tier1_rows layout) (\<lambda>rows. and_then (tier1_row_bytes layout) (\<lambda>rb. Ok (rows, rb))) of
                             Inl e \<Rightarrow> (d3, Inl e)
                           | Inr (rows, rb) \<Rightarrow>
                               (run_ops [WriteFile root_file (meta_to_json C
                                  (export_metadata C tree network height layout (length t0) rows rb))] d3, Ok ()))"

definition export_all ::
  "meta_codec \<Rightarrow> 'p::len PirTree \<Rightarrow> dir \<Rightarrow> ZcashNetwork \<Rightarrow> u64 option \<Rightarrow> dir \<times> unit result" where
  "export_all C tree d network height = export_all_with_layout C tree d network height COMPILED_PIR_LAYOUT"

definition export_tiers_from_tree ::
  "meta_codec \<Rightarrow> 'p::len PirTree \<Rightarrow> dir \<Rightarrow> ZcashNetwork \<Rightarrow> u64 option \<Rightarrow> dir \<times> unit result" where
  "export_tiers_from_tree C tree d network height = export_all C tree d network height"

definition build_and_export ::
  "'p::len poseidon_constants \<Rightarrow> meta_codec \<Rightarrow> 'p fp list \<Rightarrow> dir \<Rightarrow> ZcashNetwork \<Rightarrow> u64 option \<Rightarrow> dir \<times> 'p PirTree result" where
  "build_and_export P C nfs d network height =
     (case build_pir_tree_from_nullifiers P nfs of
        Inl e \<Rightarrow> (d, Inl e)
      | Inr tree \<Rightarrow>
          let (d, r) = export_tiers_from_tree C tree d network height
          in (d, and_then r (\<lambda>_. Ok tree)))"

definition materialize_tree_checkpoint ::
  "'p::len poseidon_constants \<Rightarrow> bincode \<Rightarrow> 'p fp list \<Rightarrow> dir \<Rightarrow> u64 \<Rightarrow> (dir \<times> 'p PirTree) result" where
  "materialize_tree_checkpoint P B nfs d chain_height =
     and_then (prepare_nullifiers nfs) (\<lambda>ranges.
     and_then (build_pir_tree P ranges) (\<lambda>tree.
     and_then (save_tree_checkpoint B d tree chain_height) (\<lambda>d.
     Ok (d, tree))))"

text \<open>The checks of \<open>tiers_complete_for_height\<close> on the metadata alone.\<close>

definition metadata_matches :: "PirMetadata \<Rightarrow> ZcashNetwork \<Rightarrow> u64 \<Rightarrow> bool" where
  "metadata_matches meta expected_network expected_height \<longleftrightarrow>
     (case (validate_supported (md_pir_layout meta), tier1_rows (md_pir_layout meta),
            tier1_row_bytes (md_pir_layout meta), Pir_Types.tier0_bytes (md_pir_layout meta)) of
        (Inr _, Inr layout_rows, Inr layout_row_bytes, Inr expected_tier0_bytes) \<Rightarrow>
          \<not> (md_zcash_network meta \<noteq> expected_network
             \<or> md_height meta \<noteq> Some expected_height
             \<or> \<not> is_current_dataset (md_nullifier_pool meta) (md_dataset_version meta)
             \<or> md_pir_depth meta \<noteq> pir_depth (md_pir_layout meta)
             \<or> md_tier1_rows meta \<noteq> layout_rows
             \<or> md_tier1_row_bytes meta \<noteq> layout_row_bytes
             \<or> md_tier0_bytes meta \<noteq> expected_tier0_bytes)
      | _ \<Rightarrow> False)"

text \<open>The checks on the two tier files, once the metadata matches.\<close>

definition check_tier_files ::
  "'p::len itself \<Rightarrow> meta_codec \<Rightarrow> PirMetadata \<Rightarrow> bytes \<Rightarrow> bytes \<Rightarrow> bool result" where
  "check_tier_files P C meta t0 t1 =
     (if Ok (length t0) \<noteq> Pir_Types.tier0_bytes (md_pir_layout meta) then Ok False
      else
        (case (tier0_from_layout P t0 (md_pir_layout meta), hex_to C (md_pir_root meta)) of
           (Inr tier0, Some bs) \<Rightarrow>
             if length bs \<noteq> 32 then Ok False
             else
               (case (from_repr bs :: 'p fp option) of
                  None \<Rightarrow> Ok False
                | Some metadata_pir_root \<Rightarrow>
                    and_then (tier0_root tier0) (\<lambda>rt.
                    if rt \<noteq> metadata_pir_root then Ok False
                    else Ok (length t1 = md_tier1_rows meta * md_tier1_row_bytes meta)))
         | _ \<Rightarrow> Ok False))"

definition tiers_complete_for_height ::
  "'p::len itself \<Rightarrow> meta_codec \<Rightarrow> dir \<Rightarrow> ZcashNetwork \<Rightarrow> u64 \<Rightarrow> bool result" where
  "tiers_complete_for_height P C d expected_network expected_height =
     (case Option.bind (d root_file) (meta_from_json C) of
        None \<Rightarrow> Ok False
      | Some meta \<Rightarrow>
          if \<not> metadata_matches meta expected_network expected_height then Ok False
          else
            (case (d tier0_file, d tier1_file) of
               (Some t0, Some t1) \<Rightarrow> check_tier_files P C meta t0 t1
             | _ \<Rightarrow> Ok False))"

section \<open>A completed export\<close>

lemma export_files_distinct [simp]:
  "tier0_file \<noteq> tier1_file" "tier1_file \<noteq> tier0_file" "tier0_file \<noteq> root_file" "root_file \<noteq> tier0_file"
  "tier1_file \<noteq> root_file" "root_file \<noteq> tier1_file"
  by (simp_all add: tier0_file_def tier1_file_def root_file_def)

lemma cleanup_files:
  "op \<in> set legacy_ops \<union> set (evict_stale_precompute ''tier0'') \<union> set (evict_stale_precompute ''tier1'') \<Longrightarrow>
     tier0_file \<notin> op_files op \<and> tier1_file \<notin> op_files op \<and> root_file \<notin> op_files op"
  by (auto simp: legacy_ops_def evict_stale_precompute_def tier0_file_def tier1_file_def root_file_def)

definition snapshot_meta ::
  "meta_codec \<Rightarrow> 'p::len poseidon_constants \<Rightarrow> 'p fp3 list \<Rightarrow> ZcashNetwork \<Rightarrow> u64 option \<Rightarrow> PirLayout \<Rightarrow> PirMetadata" where
  "snapshot_meta C P ranges network height L =
     export_metadata C (pir_tree_of P ranges) network height L
       ((2 ^ tier0_layers L - 1) * 32 + 2 ^ tier0_layers L * 64) (2 ^ tier0_layers L) (2 ^ tier1_layers L * 96)"

lemma length_tier0_of: "length (tier0_of P ranges L) = (2 ^ tier0_layers L - 1) * 32 + 2 ^ tier0_layers L * 64"
  by (simp add: tier0_of_def Let_def length_tier0_blob)

lemma length_tier1_of: "length (tier1_of ranges L) = 2 ^ tier0_layers L * (2 ^ tier1_layers L * 96)"
  unfolding tier1_of_def
  by (subst concat_uniform_length [of _ "2 ^ tier1_layers L * 96"]) (auto simp: length_tier1_blob)

lemma export_all_with_layout_eq:
  assumes "supported L" "pir_depth L = PIR_DEPTH"
  shows "export_all_with_layout C (pir_tree_of P ranges) d network height L =
    (run_ops (export_ops C (snapshot_meta C P ranges network height L) (tier0_of P ranges L) (tier1_of ranges L)) d, Ok ())"
proof -
  have r: "pt_ranges (pir_tree_of P ranges) = ranges" by (simp add: pir_tree_of_def Let_def)
  have v: "validate_supported L = Ok ()" using assms(1) by (simp add: validate_supported_iff)
  show ?thesis
    by (simp add: export_all_with_layout_def v r tier0_export_tree [OF assms] tier1_export_eq [OF assms(1)]
        supported_geometry [OF assms(1)] Let_def export_ops_def snapshot_meta_def length_tier0_of)
qed

lemma run_export_ops:
  "run_ops (export_ops C meta t0 t1) d tier0_file = Some t0"
  "run_ops (export_ops C meta t0 t1) d tier1_file = Some t1"
  "run_ops (export_ops C meta t0 t1) d root_file = Some (meta_to_json C meta)"
  by (simp_all add: export_ops_def legacy_ops_def evict_stale_precompute_def)
     (simp_all add: tier0_file_def tier1_file_def root_file_def)

lemma metadata_matches_export:
  assumes "supported L"
  shows "metadata_matches (snapshot_meta C P ranges network (Some h) L) network h"
  using assms
  by (simp add: metadata_matches_def snapshot_meta_def export_metadata_def supported_geometry [OF assms]
      validate_supported_iff [THEN iffD2] is_current_dataset_def)

lemma tiers_complete_after_export:
  assumes "supported L" "pir_depth L = PIR_DEPTH"
    and "meta_from_json C (meta_to_json C (snapshot_meta C P ranges network (Some h) L)) =
      Some (snapshot_meta C P ranges network (Some h) L)"
    and "hex_to C (hex_of C (to_repr (pt_pir_root (pir_tree_of P ranges)))) = Some (to_repr (pt_pir_root (pir_tree_of P ranges)))"
  shows "tiers_complete_for_height TYPE('p::len) C
      (fst (export_all_with_layout C (pir_tree_of (P :: 'p poseidon_constants) ranges) d network (Some h) L)) network h = Ok True"
proof -
  let ?meta = "snapshot_meta C P ranges network (Some h) L"
  have l0: "0 < tier0_layers L" using assms(1) by (simp add: supported_def)
  have md: "md_pir_layout ?meta = L" "md_pir_root ?meta = hex_of C (to_repr (pt_pir_root (pir_tree_of P ranges)))"
    "md_tier1_rows ?meta = 2 ^ tier0_layers L" "md_tier1_row_bytes ?meta = 2 ^ tier1_layers L * 96"
    by (simp_all add: snapshot_meta_def export_metadata_def)
  have rt: "tier0_root (tier0_view P ranges L) = Ok (pt_pir_root (pir_tree_of P ranges))"
    using tier0_root_parsed [OF l0, of "top_node P (commit_punctured_ranges P ranges)" "min_key_of ranges L"]
    by (simp add: pir_tree_of_def Let_def del: subroot.simps)
  show ?thesis
    unfolding export_all_with_layout_eq [OF assms(1,2)] fst_conv tiers_complete_for_height_def run_export_ops
    using assms(3,4) metadata_matches_export [OF assms(1), of C P ranges network h] rt
    by (simp add: check_tier_files_def md tier0_of_parses [OF assms(1)] length_tier0_of length_tier1_of supported_geometry [OF assms(1)])
qed

section \<open>An interrupted export\<close>

lemma crash_cleanup:
  assumes "crash ops d d'" "set ops \<subseteq> set legacy_ops \<union> set (evict_stale_precompute ''tier0'') \<union> set (evict_stale_precompute ''tier1'')"
  shows "d' tier0_file = d tier0_file" "d' tier1_file = d tier1_file" "d' root_file = d root_file"
  using assms(2) cleanup_files by (intro crash_other [OF assms(1)]; blast)+

lemma run_cleanup:
  assumes "set ops \<subseteq> set legacy_ops \<union> set (evict_stale_precompute ''tier0'') \<union> set (evict_stale_precompute ''tier1'')"
  shows "run_ops ops d tier0_file = d tier0_file" "run_ops ops d tier1_file = d tier1_file" "run_ops ops d root_file = d root_file"
  using crash_cleanup [OF crash_complete assms] by auto

text \<open>Whatever the crash, the files are the old ones or Tier 0 is a prefix of the new blob.\<close>

lemma crash_export:
  assumes "crash (export_ops C meta t0 t1) d d'"
  shows "(d' tier0_file = d tier0_file \<and> d' tier1_file = d tier1_file \<and> d' root_file = d root_file) \<or>
    (\<exists>k. d' tier0_file = Some (take k t0))"
proof -
  let ?d1 = "run_ops legacy_ops d"
  let ?rest = "evict_stale_precompute ''tier0'' @ [WriteFile tier1_file t1] @ evict_stale_precompute ''tier1'' @
    [WriteFile root_file (meta_to_json C meta)]"
  have same: "?d1 tier0_file = d tier0_file" "?d1 tier1_file = d tier1_file" "?d1 root_file = d root_file"
    by (rule run_cleanup, blast)+
  have "export_ops C meta t0 t1 = legacy_ops @ WriteFile tier0_file t0 # ?rest"
    by (simp add: export_ops_def)
  with assms consider "crash legacy_ops d d'" | "d' = ?d1" | k where "d' = torn_op (WriteFile tier0_file t0) k ?d1"
    | "crash ?rest (apply_op (WriteFile tier0_file t0) ?d1) d'"
    by (auto simp: crash_append_iff crash_Cons_iff)
  then show ?thesis
  proof cases
    case 1
    from crash_cleanup [OF this] show ?thesis by blast
  next
    case 2
    with same show ?thesis by simp
  next
    case 3
    then show ?thesis by auto
  next
    case 4
    have "tier0_file \<notin> op_files op" if "op \<in> set ?rest" for op
      using that cleanup_files [of op] by auto
    from crash_other [OF 4 this] have "d' tier0_file = Some (take (length t0) t0)" by simp
    then show ?thesis by blast
  qed
qed

lemma read_fp_at_take: "32 \<le> k \<Longrightarrow> read_fp_at (take k bs) 0 = (if k \<le> length bs then read_fp_at bs 0 else read_fp_at bs 0)"
  by (cases "32 \<le> length bs") (auto simp: read_fp_at_def slice_res_def min_def)

lemma tiers_complete_True:
  assumes "tiers_complete_for_height TYPE('p::len) C d network h = Ok True"
  obtains meta t0 tier0 rt where "Option.bind (d root_file) (meta_from_json C) = Some meta"
    "metadata_matches meta network h" "d tier0_file = Some t0" "supported (md_pir_layout meta)"
    "tier0_from_layout TYPE('p) t0 (md_pir_layout meta) = Ok tier0"
    "hex_to C (md_pir_root meta) = Some (to_repr (rt :: 'p fp))" "tier0_root tier0 = Ok rt"
proof -
  from assms obtain meta t0 t1 where m: "Option.bind (d root_file) (meta_from_json C) = Some meta"
    "metadata_matches meta network h" "d tier0_file = Some t0" and c: "check_tier_files TYPE('p) C meta t0 t1 = Ok True"
    unfolding tiers_complete_for_height_def by (auto split: option.split_asm if_split_asm)
  have c: "(case (tier0_from_layout TYPE('p) t0 (md_pir_layout meta), hex_to C (md_pir_root meta)) of
      (Inr tier0, Some bs) \<Rightarrow>
        if length bs \<noteq> 32 then Ok False
        else (case (from_repr bs :: 'p fp option) of None \<Rightarrow> Ok False
              | Some r \<Rightarrow> and_then (tier0_root tier0) (\<lambda>rt. if rt \<noteq> r then Ok False
                  else Ok (length t1 = md_tier1_rows meta * md_tier1_row_bytes meta)))
    | _ \<Rightarrow> Ok False) = Ok True"
    using c unfolding check_tier_files_def by (simp only: split: if_split_asm) simp
  obtain tier0 where t: "tier0_from_layout TYPE('p) t0 (md_pir_layout meta) = Ok tier0"
    using c by (cases "tier0_from_layout TYPE('p) t0 (md_pir_layout meta)") simp_all
  obtain bs where b: "hex_to C (md_pir_root meta) = Some bs"
    using c t by (cases "hex_to C (md_pir_root meta)") simp_all
  obtain rt where r: "from_repr bs = Some (rt :: 'p fp)"
    using c t b by (cases "from_repr bs :: 'p fp option") (simp_all split: if_split_asm)
  have "tier0_root tier0 = Ok rt"
    using c t b r by (cases "tier0_root tier0 :: 'p fp result") (simp_all split: if_split_asm)
  note 1 = m t b r this
  have "supported (md_pir_layout meta)"
    using 1(2) by (auto simp: metadata_matches_def validate_supported_iff split: sum.splits)
  moreover have "bs = to_repr rt" using 1(6) by (rule to_from_repr [symmetric])
  ultimately show thesis using that [OF 1(1-3) _ 1(4) _ 1(7)] 1(5) by simp
qed

lemma interrupted_export_detected:
  assumes "crash (export_ops C meta (tier0_of P ranges L) t1) d d'" "0 < tier0_layers L"
    and "tiers_complete_for_height TYPE('p::len) C d' network h = Ok True"
  shows "(d' tier0_file = d tier0_file \<and> d' tier1_file = d tier1_file \<and> d' root_file = d root_file) \<or>
    (\<exists>m. Option.bind (d' root_file) (meta_from_json C) = Some m \<and>
         hex_to C (md_pir_root m) = Some (to_repr (pt_pir_root (pir_tree_of (P :: 'p poseidon_constants) ranges))))"
proof -
  obtain m t0 tier0 rt where m: "Option.bind (d' root_file) (meta_from_json C) = Some m" and
    mm: "metadata_matches m network h" and
    m2: "d' tier0_file = Some t0" "supported (md_pir_layout m)"
    "tier0_from_layout TYPE('p) t0 (md_pir_layout m) = Ok tier0"
    "hex_to C (md_pir_root m) = Some (to_repr (rt :: 'p fp))" "tier0_root tier0 = Ok rt"
    using assms(3) by (rule tiers_complete_True)
  note m = m m2
  show ?thesis
    using crash_export [OF assms(1)]
  proof
    assume "\<exists>k. d' tier0_file = Some (take k (tier0_of P ranges L))"
    then obtain k where k: "t0 = take k (tier0_of P ranges L)" using m(2) by auto
    have t: "t0_data tier0 = t0" "length t0 = (2 ^ tier0_layers (md_pir_layout m) - 1) * 32 + 2 ^ tier0_layers (md_pir_layout m) * 64"
      using m(4) by (simp_all add: tier0_from_layout_Ok_iff [OF m(3)])
    have "1 \<le> (2::nat) ^ tier0_layers (md_pir_layout m)" by simp
    then have "32 \<le> length t0" unfolding t(2) by linarith
    then have "32 \<le> k" by (simp add: k)
    then have "read_fp_at t0 0 = (read_fp_at (tier0_of P ranges L) 0 :: 'p fp result)"
      unfolding k by (simp add: read_fp_at_take)
    moreover have "read_fp_at (tier0_of P ranges L) 0 = Ok (pt_pir_root (pir_tree_of P ranges))"
      using tier0_root_parsed [OF assms(2), of "top_node P (commit_punctured_ranges P ranges)" "min_key_of ranges L"]
      by (simp add: tier0_root_def tier0_parsed_def tier0_of_def Let_def pir_tree_of_def del: subroot.simps)
    moreover have "read_fp_at t0 0 = Ok rt" using m(6) t(1) by (simp add: tier0_root_def)
    ultimately have "rt = pt_pir_root (pir_tree_of P ranges)" by simp
    with m(1,5) show ?thesis by blast
  qed simp
qed

text \<open>Building with the checkpoint gives the tree of the one-shot builder, and stores it.\<close>

lemma materialize_is_build:
  "materialize_tree_checkpoint P B nfs d h = Inr (d', tree) \<Longrightarrow>
     build_pir_tree_from_nullifiers P nfs = Inr tree \<and> save_tree_checkpoint B d tree h = Inr d'"
  by (auto simp: materialize_tree_checkpoint_def build_pir_tree_from_nullifiers_def and_then_Ok_iff)

lemma built_tree_levels:
  "build_pir_tree_from_nullifiers P nfs = Inr tree \<Longrightarrow> length (pt_levels tree) = PIR_DEPTH"
  by (auto simp: build_pir_tree_from_nullifiers_Ok_iff pir_tree_of_def Let_def)

end
