(* ===== verification/Watchdog.thy ===== *)
theory Watchdog
  imports Prelude
begin

text \<open>
  The snapshot watchdog of \<^verbatim>\<open>nf-server/src/serve/watchdog.rs\<close> and the three gauges of
  \<^verbatim>\<open>nf-server/src/metrics.rs\<close> it reads and writes. Instants and durations are natural numbers of
  nanoseconds; the subtraction of instants saturates at zero, as in the source. The tick
  function is proved equal to a specification over the history of observations: one alert
  per uninterrupted stale stretch, at the first tick at which the stretch is at least as
  old as the threshold, and one recovery when such a stretch ends.
\<close>

section \<open>Gauges\<close>

text \<open>The gauges are signed 64-bit integers; a height is stored through a cast.\<close>

type_synonym gauge = "64 word"

record gauges =
  g_served :: gauge
  g_expected :: gauge
  g_stale_seconds :: gauge

definition gauge_read :: "gauge \<Rightarrow> u64" where
  "gauge_read g = (if sint g < 0 then 0 else g)"

definition served_height_set :: "u64 \<Rightarrow> gauges \<Rightarrow> gauges" where
  "served_height_set h m = m\<lparr>g_served := h\<rparr>"

definition served_height_get :: "gauges \<Rightarrow> u64" where
  "served_height_get m = gauge_read (g_served m)"

definition expected_height_set :: "u64 \<Rightarrow> gauges \<Rightarrow> gauges" where
  "expected_height_set h m = m\<lparr>g_expected := h\<rparr>"

definition expected_height_get :: "gauges \<Rightarrow> u64" where
  "expected_height_get m = gauge_read (g_expected m)"

definition stale_seconds_set :: "u64 \<Rightarrow> gauges \<Rightarrow> gauges" where
  "stale_seconds_set s m = m\<lparr>g_stale_seconds := min s (2 ^ 63 - 1)\<rparr>"

section \<open>The watchdog\<close>

type_synonym instant = nat
type_synonym duration = nat

definition as_secs :: "duration \<Rightarrow> u64" where
  "as_secs d = word_of_nat (d div 1000000000)"

datatype Action =
    Converged
  | Recovered u64 duration
  | Stale u64 duration
  | FireAlert u64 u64 u64 duration

record WatchState =
  stale_since :: "instant option"
  alerted :: bool
  last_gap :: u64

definition state_default :: WatchState where
  "state_default = \<lparr>stale_since = None, alerted = False, last_gap = 0\<rparr>"

definition tick :: "WatchState \<Rightarrow> instant \<Rightarrow> u64 \<Rightarrow> u64 \<Rightarrow> duration \<Rightarrow> WatchState \<times> Action" where
  "tick state now served expected threshold =
     (let is_stale = expected > 0 \<and> served < expected
      in if \<not> is_stale then
           (let was_alerted = alerted state;
                stale_for = (case stale_since state of None \<Rightarrow> 0 | Some t \<Rightarrow> now - t);
                gap = last_gap state;
                state = state\<lparr>stale_since := None, alerted := False, last_gap := 0\<rparr>
            in if was_alerted then (state, Recovered gap stale_for) else (state, Converged))
         else
           (let gap = expected - served;
                started = (case stale_since state of None \<Rightarrow> now | Some t \<Rightarrow> t);
                state = state\<lparr>last_gap := gap, stale_since := Some started\<rparr>;
                stale_for = now - started
            in if \<not> alerted state \<and> stale_for \<ge> threshold
               then (state\<lparr>alerted := True\<rparr>, FireAlert served expected gap stale_for)
               else (state, Stale gap stale_for)))"

text \<open>What \<open>apply\<close> sends to Sentry: the level and the tags of the event.\<close>

datatype sentry_event =
    InfoRecovered u64 u64
  | ErrorStale u64 u64 u64 u64

definition apply_action :: "Action \<Rightarrow> gauges \<Rightarrow> gauges \<times> sentry_event list" where
  "apply_action action m =
     (case action of
        Converged \<Rightarrow> (stale_seconds_set 0 m, [])
      | Stale _ stale_for \<Rightarrow> (stale_seconds_set (as_secs stale_for) m, [])
      | Recovered gap stale_for \<Rightarrow> (stale_seconds_set 0 m, [InfoRecovered gap (as_secs stale_for)])
      | FireAlert served expected gap stale_for \<Rightarrow>
          (stale_seconds_set (as_secs stale_for) m, [ErrorStale served expected gap (as_secs stale_for)]))"

text \<open>One iteration of the loop of \<open>spawn\<close>: read the gauges, tick, apply.\<close>

definition watch_iteration :: "duration \<Rightarrow> instant \<Rightarrow> WatchState \<times> gauges \<Rightarrow> (WatchState \<times> gauges) \<times> sentry_event list" where
  "watch_iteration threshold now sm =
     (let (state, action) = tick (fst sm) now (served_height_get (snd sm)) (expected_height_get (snd sm)) threshold;
          (m, events) = apply_action action (snd sm)
      in ((state, m), events))"

section \<open>Specification over the history\<close>

type_synonym observation = "instant \<times> u64 \<times> u64"

fun obs_stale :: "observation \<Rightarrow> bool" where
  "obs_stale (now, served, expected) \<longleftrightarrow> expected > 0 \<and> served < expected"

fun obs_gap :: "observation \<Rightarrow> u64" where
  "obs_gap (now, served, expected) = expected - served"

definition watch_state :: "duration \<Rightarrow> observation list \<Rightarrow> WatchState" where
  "watch_state threshold os =
     fold (\<lambda>(now, served, expected) st. fst (tick st now served expected threshold)) os state_default"

text \<open>The stale stretch at the end of a history, and whether it has lasted long enough.\<close>

definition stretch :: "observation list \<Rightarrow> observation list" where
  "stretch os = rev (takeWhile obs_stale (rev os))"

definition ripe :: "duration \<Rightarrow> observation list \<Rightarrow> bool" where
  "ripe threshold os \<longleftrightarrow> (\<exists>o' \<in> set os. threshold \<le> fst o' - fst (hd os))"

lemma stretch_Nil [simp]: "stretch [] = []"
  by (simp add: stretch_def)

lemma stretch_snoc [simp]: "stretch (os @ [ob]) = (if obs_stale ob then stretch os @ [ob] else [])"
  by (simp add: stretch_def)

lemma ripe_simps [simp]:
  "\<not> ripe threshold []" "ripe threshold [ob] \<longleftrightarrow> threshold = 0"
  "xs \<noteq> [] \<Longrightarrow> ripe threshold (xs @ [ob]) \<longleftrightarrow> ripe threshold xs \<or> threshold \<le> fst ob - fst (hd xs)"
  by (auto simp: ripe_def)

lemma last_stretch: "stretch os \<noteq> [] \<Longrightarrow> last (stretch os) = last os"
  by (induction os rule: rev_induct) auto

lemma watch_state_snoc:
  "watch_state threshold (os @ [(now, served, expected)]) =
     fst (tick (watch_state threshold os) now served expected threshold)"
  by (simp add: watch_state_def)

lemma watch_state_eq:
  "watch_state threshold os =
     \<lparr>stale_since = (if stretch os = [] then None else Some (fst (hd (stretch os)))),
      alerted = ripe threshold (stretch os),
      last_gap = (if stretch os = [] then 0 else obs_gap (last os))\<rparr>"
proof (induction os rule: rev_induct)
  case Nil
  show ?case by (simp add: watch_state_def state_default_def ripe_def)
next
  case (snoc ob os)
  obtain now served expected where ob: "ob = (now, served, expected)" by (cases ob)
  show ?case
    unfolding ob watch_state_snoc snoc.IH
    by (cases "stretch os = []") (auto simp: tick_def Let_def)
qed

lemma tick_by_history:
  "snd (tick (watch_state threshold os) now served expected threshold) =
     (if expected > 0 \<and> served < expected then
        (let started = (if stretch os = [] then now else fst (hd (stretch os)))
         in if \<not> ripe threshold (stretch os) \<and> threshold \<le> now - started
            then FireAlert served expected (expected - served) (now - started)
            else Stale (expected - served) (now - started))
      else if ripe threshold (stretch os)
      then Recovered (obs_gap (last os)) (now - fst (hd (stretch os)))
      else Converged)"
proof -
  have "ripe threshold (stretch os) \<Longrightarrow> stretch os \<noteq> []" by auto
  then show ?thesis unfolding watch_state_eq by (auto simp: tick_def Let_def)
qed

text \<open>The actions of a history, and the balance of alerts and recoveries.\<close>

fun watch_actions :: "duration \<Rightarrow> WatchState \<Rightarrow> observation list \<Rightarrow> Action list" where
  "watch_actions threshold st [] = []"
| "watch_actions threshold st ((now, served, expected) # os) =
     (case tick st now served expected threshold of (st', a) \<Rightarrow> a # watch_actions threshold st' os)"

fun is_fire :: "Action \<Rightarrow> bool" where
  "is_fire (FireAlert _ _ _ _) = True"
| "is_fire _ = False"

fun is_recovered :: "Action \<Rightarrow> bool" where
  "is_recovered (Recovered _ _) = True"
| "is_recovered _ = False"

lemma tick_balance:
  assumes "tick st now served expected threshold = (st', a)"
  shows "of_bool (alerted st') + (of_bool (is_recovered a) :: nat) = of_bool (alerted st) + of_bool (is_fire a)"
  using assms by (auto simp: tick_def Let_def split: if_splits option.splits)

lemma watch_balance:
  "length (filter is_recovered (watch_actions threshold st os)) +
     of_bool (alerted (fold (\<lambda>(now, served, expected) st. fst (tick st now served expected threshold)) os st)) =
   length (filter is_fire (watch_actions threshold st os)) + of_bool (alerted st)"
proof (induction os arbitrary: st)
  case Nil
  show ?case by simp
next
  case (Cons ob os)
  obtain now served expected where ob: "ob = (now, served, expected)" by (cases ob)
  obtain st1 a where t: "tick st now served expected threshold = (st1, a)" by fastforce
  from Cons.IH [of st1] tick_balance [OF t] show ?case
    by (cases "alerted st"; cases "alerted st1"; cases "is_fire a"; cases "is_recovered a") (simp_all add: ob t)
qed

lemma gauge_round_trip: "h < 2 ^ 63 \<Longrightarrow> gauge_read h = h"
proof -
  assume "h < 2 ^ 63"
  then have "uint h < 2 ^ 63" by (simp add: word_less_def)
  moreover have "- (2 ^ 63) \<le> uint h" by (rule order_trans [OF _ unsigned_greater_eq]) simp
  ultimately have "sint h = uint h" by (simp add: sint_uint signed_take_bit_int_eq_self)
  then show ?thesis by (simp add: gauge_read_def)
qed

section \<open>Properties\<close>

text \<open>
  C25. The watchdog is its specification. After any history of observations, the next tick
  alerts exactly when the current uninterrupted stale stretch is at least as old as the
  threshold and no earlier tick of the stretch was, reports a recovery exactly when a stretch
  that had alerted ends, with the last gap and the age of that stretch, and otherwise only
  updates the gauge.
\<close>

theorem watchdog_by_history:
  "snd (tick (watch_state threshold os) now served expected threshold) =
     (if expected > 0 \<and> served < expected then
        (let started = (if stretch os = [] then now else fst (hd (stretch os)))
         in if \<not> ripe threshold (stretch os) \<and> threshold \<le> now - started
            then FireAlert served expected (expected - served) (now - started)
            else Stale (expected - served) (now - started))
      else if ripe threshold (stretch os)
      then Recovered (obs_gap (last os)) (now - fst (hd (stretch os)))
      else Converged)"
  by (rule tick_by_history)

text \<open>
  Alerts and recoveries alternate: in every history there are as many alerts as recoveries,
  or one more, and one more exactly when the watchdog is in an episode it has reported.
\<close>

theorem alerts_alternate:
  "length (filter is_fire (watch_actions threshold state_default os)) =
     length (filter is_recovered (watch_actions threshold state_default os)) +
     (if ripe threshold (stretch os) then 1 else 0)"
  using watch_balance [of threshold state_default os] watch_state_eq [of threshold os]
  by (cases "ripe threshold (stretch os)") (simp_all add: state_default_def watch_state_def)

end
