(* ===== verification/Bootstrap.thy ===== *)
theory Bootstrap
  imports Snapshot_Source Snapshot_Fs Watchdog
begin

text \<open>
  The start-up download of a published snapshot, \<^verbatim>\<open>nf-server/src/bootstrap.rs\<close>, and the staging
  command at its end. The network is a function from URLs to streamed responses; SHA-256 in
  hexadecimal and the JSON of the manifest are parameters. The staging directory is the set
  of names that start with its prefix. The lemmas show what an installed snapshot is, that
  a failed download leaves every live file alone, and that an interrupted installation is
  repaired by the next start.
\<close>

section \<open>Data\<close>

record ManifestFile =
  mf_size :: u64
  mf_sha256 :: string

record PublishedManifest =
  pm_schema_version :: u32
  pm_nullifier_pool :: string
  pm_dataset_version :: u32
  pm_height :: u64
  pm_files :: "(string \<times> ManifestFile) list"

definition PIR_SNAPSHOTS_PATH :: string where
  "PIR_SNAPSHOTS_PATH = ''/snapshots''"

definition SNAPSHOT_FILES :: "string list" where
  "SNAPSHOT_FILES = [tier0_file, tier1_file, root_file]"

record boot_config =
  bc_zcash_network :: ZcashNetwork
  bc_pir_config_url :: "string option"
  bc_voting_config_url :: string
  bc_precomputed_base_url :: string
  bc_force_snapshot_height :: "u64 option"

datatype Outcome =
    Disabled
  | AlreadyAtHeight u64
  | UsingLocalSnapshot u64
  | BootstrappedTo u64
  | FellThrough string

text \<open>A response as it streams in: its chunks, and whether the connection breaks after them.\<close>

record stream_response =
  sr_status :: u16
  sr_content_length :: "nat option"
  sr_chunks :: "bytes list"
  sr_broken :: bool

type_synonym cdn = "string \<Rightarrow> stream_response result"

record boot_deps =
  bd_http :: http
  bd_source_json :: source_json
  bd_cdn :: cdn
  bd_codec :: meta_codec
  bd_manifest_from_json :: "bytes \<Rightarrow> PublishedManifest option"
  bd_sha256_hex :: "bytes \<Rightarrow> string"

text \<open>The counters of the bootstrap: attempts, the outcome labels in order, and bytes.\<close>

record boot_metrics =
  bm_gauges :: gauges
  bm_attempts :: nat
  bm_outcomes :: "string list"
  bm_bytes :: nat

definition bootstrap_attempts_inc :: "boot_metrics \<Rightarrow> boot_metrics" where
  "bootstrap_attempts_inc m = m\<lparr>bm_attempts := bm_attempts m + 1\<rparr>"

definition bootstrap_outcome_inc :: "string \<Rightarrow> boot_metrics \<Rightarrow> boot_metrics" where
  "bootstrap_outcome_inc label m = m\<lparr>bm_outcomes := bm_outcomes m @ [label]\<rparr>"

definition bootstrap_bytes_inc :: "nat \<Rightarrow> boot_metrics \<Rightarrow> boot_metrics" where
  "bootstrap_bytes_inc n m = m\<lparr>bm_bytes := bm_bytes m + n\<rparr>"

definition set_served :: "u64 \<Rightarrow> boot_metrics \<Rightarrow> boot_metrics" where
  "set_served h m = m\<lparr>bm_gauges := served_height_set h (bm_gauges m)\<rparr>"

definition set_expected :: "u64 \<Rightarrow> boot_metrics \<Rightarrow> boot_metrics" where
  "set_expected h m = m\<lparr>bm_gauges := expected_height_set h (bm_gauges m)\<rparr>"

section \<open>Checks of the metadata\<close>

definition validate_force_snapshot_height :: "u64 \<Rightarrow> ZcashNetwork \<Rightarrow> unit result" where
  "validate_force_snapshot_height height network = validate_export_height (unat height) network"

definition validate_pir_metadata :: "meta_codec \<Rightarrow> dir \<Rightarrow> string \<Rightarrow> ZcashNetwork \<Rightarrow> PirMetadata result" where
  "validate_pir_metadata C d file expected_network =
     and_then (ok_or (d file) (Error ''read'')) (\<lambda>raw.
     and_then (ok_or (meta_from_json C raw) (Error ''decode'')) (\<lambda>meta.
     ensure (md_zcash_network meta = expected_network) ''identifies another Zcash network''
     (ensure (is_current_dataset (md_nullifier_pool meta) (md_dataset_version meta)) ''identifies another dataset''
     (and_then (validate_supported (md_pir_layout meta)) (\<lambda>_.
     and_then (tier1_rows (md_pir_layout meta)) (\<lambda>layout_rows.
     and_then (tier1_row_bytes (md_pir_layout meta)) (\<lambda>layout_row_bytes.
     and_then (Pir_Types.tier0_bytes (md_pir_layout meta)) (\<lambda>layout_tier0_bytes.
     ensure (md_pir_depth meta = pir_depth (md_pir_layout meta)
             \<and> md_tier1_rows meta = layout_rows
             \<and> md_tier1_row_bytes meta = layout_row_bytes
             \<and> md_tier0_bytes meta = layout_tier0_bytes) ''inconsistent PIR layout metadata''
       (Ok meta)))))))))"

definition validate_pir_root :: "meta_codec \<Rightarrow> dir \<Rightarrow> string \<Rightarrow> ZcashNetwork \<Rightarrow> u64 \<Rightarrow> unit result" where
  "validate_pir_root C d file expected_network expected_height =
     and_then (validate_pir_metadata C d file expected_network) (\<lambda>meta.
     ensure (md_height meta = Some expected_height) ''height does not match requested snapshot height'' (Ok ()))"

definition read_local_height :: "meta_codec \<Rightarrow> dir \<Rightarrow> ZcashNetwork \<Rightarrow> u64 option" where
  "read_local_height C d expected_network =
     (case validate_pir_metadata C d root_file expected_network of Inl _ \<Rightarrow> None | Inr meta \<Rightarrow> md_height meta)"

section \<open>Download\<close>

definition staging :: string where
  "staging = ''.bootstrap-staging/''"

definition in_staging :: "string \<Rightarrow> bool" where
  "in_staging f \<longleftrightarrow> starts_with f staging"

definition remove_staging :: "dir \<Rightarrow> dir" where
  "remove_staging d = (\<lambda>f. if in_staging f then None else d f)"

definition saturating_add :: "nat \<Rightarrow> nat \<Rightarrow> nat" where
  "saturating_add a b = min (a + b) (2 ^ 64 - 1)"

text \<open>The loop of \<open>download_and_verify\<close>; \<open>hashed\<close> is what the hasher has consumed.\<close>

fun download_chunks ::
  "string \<Rightarrow> nat \<Rightarrow> bool \<Rightarrow> bytes list \<Rightarrow> nat \<Rightarrow> bytes \<Rightarrow> dir \<Rightarrow> dir \<times> (nat \<times> bytes) result" where
  "download_chunks dest expected_size broken [] written hashed d =
     (if broken then (d, Bail ''read body chunk'') else (d, Ok (written, hashed)))"
| "download_chunks dest expected_size broken (chunk # chunks) written hashed d =
     (if length chunk > expected_size - written
      then (run_ops [RemoveFile dest] d, Bail ''snapshot response exceeds authenticated size'')
      else download_chunks dest expected_size broken chunks (saturating_add written (length chunk)) (hashed @ chunk)
             (run_ops [AppendFile dest chunk] d))"

definition download_and_verify ::
  "boot_deps \<Rightarrow> string \<Rightarrow> string \<Rightarrow> string \<Rightarrow> u64 \<Rightarrow> dir \<Rightarrow> dir \<times> nat result" where
  "download_and_verify B url dest expected_sha256 expected_size d =
     (case bd_cdn B url of
        Inl e \<Rightarrow> (d, Inl e)
      | Inr resp \<Rightarrow>
          if sr_status resp \<ge> 400 then (d, Bail ''GET (non-2xx)'')
          else
            (case download_chunks dest (unat expected_size) (sr_broken resp) (sr_chunks resp) 0 []
                    (run_ops [WriteFile dest []] d) of
               (d, Inl e) \<Rightarrow> (d, Inl e)
             | (d, Inr (written, hashed)) \<Rightarrow>
                 if written \<noteq> unat expected_size
                 then (run_ops [RemoveFile dest] d, Bail ''downloaded bytes but manifest expected another size'')
                 else if \<not> eq_ignore_ascii_case (bd_sha256_hex B hashed) expected_sha256
                 then (run_ops [RemoveFile dest] d, Bail ''sha256 mismatch'')
                 else (d, Ok written)))"

text \<open>The loop that reads the manifest, of at most one mebibyte.\<close>

fun read_manifest :: "bytes list \<Rightarrow> bool \<Rightarrow> bytes \<Rightarrow> bytes result" where
  "read_manifest [] broken bytes = (if broken then Bail ''read manifest chunk'' else Ok bytes)"
| "read_manifest (chunk # chunks) broken bytes =
     ensure (length bytes + length chunk \<le> 1048576) ''manifest too large''
       (read_manifest chunks broken (bytes @ chunk))"

definition snapshot_dir :: "boot_config \<Rightarrow> u64 \<Rightarrow> string" where
  "snapshot_dir cfg height =
     bc_precomputed_base_url cfg @ PIR_SNAPSHOTS_PATH @ ''/'' @ as_str (bc_zcash_network cfg) @ ''/'' @ show_nat (unat height)"

definition fetch_manifest :: "boot_deps \<Rightarrow> boot_config \<Rightarrow> u64 \<Rightarrow> string option \<Rightarrow> PublishedManifest result" where
  "fetch_manifest B cfg height manifest_sha256 =
     and_then (bd_cdn B (snapshot_dir cfg height @ ''/manifest.json'')) (\<lambda>response.
     ensure (sr_status response < 400) ''GET manifest (non-2xx)''
     (ensure ((case sr_content_length response of None \<Rightarrow> 0 | Some n \<Rightarrow> n) \<le> 1048576) ''manifest too large''
     (and_then (read_manifest (sr_chunks response) (sr_broken response) []) (\<lambda>bytes.
     ensure (case manifest_sha256 of None \<Rightarrow> True | Some expected \<Rightarrow> bd_sha256_hex B bytes = expected)
       ''snapshot manifest hash mismatch''
     (and_then (ok_or (bd_manifest_from_json B bytes) (Error ''decode snapshot manifest'')) (\<lambda>manifest.
     ensure (pm_schema_version manifest = 2) ''manifest schema_version (only 2 is supported)''
     (ensure (is_current_dataset (pm_nullifier_pool manifest) (pm_dataset_version manifest)) ''manifest identifies another dataset''
     (ensure (pm_height manifest = height) ''refusing to install mismatched snapshot''
     (ensure (list_all (\<lambda>f. map_of (pm_files manifest) f \<noteq> None) SNAPSHOT_FILES) ''manifest is missing required file''
       (Ok manifest))))))))))"

text \<open>The loop over the files, with the number of bytes fetched so far.\<close>

fun download_files :: "boot_deps \<Rightarrow> string \<Rightarrow> PublishedManifest \<Rightarrow> string list \<Rightarrow> nat \<Rightarrow> dir \<Rightarrow> dir \<times> nat result" where
  "download_files B base manifest [] fetched d = (d, Ok fetched)"
| "download_files B base manifest (name # names) fetched d =
     (case map_of (pm_files manifest) name of
        None \<Rightarrow> (d, Err (Panic ''no entry found for key''))
      | Some entry \<Rightarrow>
          (case download_and_verify B (base @ ''/'' @ name) (staging @ name) (mf_sha256 entry) (mf_size entry) d of
             (d, Inl e) \<Rightarrow> (d, Inl e)
           | (d, Inr written) \<Rightarrow> download_files B base manifest names (saturating_add fetched written) d))"

section \<open>Installation\<close>

text \<open>
  The operations of \<open>install_from_staging\<close>: every rename is followed, for a tier file, by
  the removal of its caches; the legacy files go last. All staged files exist when it is
  called, so no rename fails.
\<close>

definition install_from_staging :: "fs_op list" where
  "install_from_staging =
     [RenameFile (staging @ tier0_file) tier0_file] @ evict_stale_precompute ''tier0'' @
     [RenameFile (staging @ tier1_file) tier1_file] @ evict_stale_precompute ''tier1'' @
     [RenameFile (staging @ root_file) root_file] @ legacy_ops"

definition fetch_authenticated ::
  "boot_deps \<Rightarrow> boot_config \<Rightarrow> u64 \<Rightarrow> string option \<Rightarrow> dir \<Rightarrow> dir \<times> nat result" where
  "fetch_authenticated B cfg height manifest_sha256 d =
     (case fetch_manifest B cfg height manifest_sha256 of
        Inl e \<Rightarrow> (d, Inl e)
      | Inr manifest \<Rightarrow>
          (case download_files B (snapshot_dir cfg height) manifest SNAPSHOT_FILES 0 (remove_staging d) of
             (d, Inl e) \<Rightarrow> (d, Inl e)
           | (d, Inr total_bytes) \<Rightarrow>
               (case validate_pir_root (bd_codec B) d (staging @ root_file) (bc_zcash_network cfg) height of
                  Inl e \<Rightarrow> (d, Inl e)
                | Inr _ \<Rightarrow> (remove_staging (run_ops install_from_staging d), Ok total_bytes))))"

definition fetch_and_install :: "boot_deps \<Rightarrow> boot_config \<Rightarrow> u64 \<Rightarrow> dir \<Rightarrow> dir \<times> nat result" where
  "fetch_and_install B cfg height d = fetch_authenticated B cfg height None d"

text \<open>The command \<open>snapshot-stage\<close>: an authenticated download into an empty directory.\<close>

record StageArgs =
  stg_zcash_network :: ZcashNetwork
  stg_height :: u64
  stg_precomputed_base_url :: string
  stg_manifest_sha256 :: string

definition stage :: "boot_deps \<Rightarrow> StageArgs \<Rightarrow> dir \<Rightarrow> dir \<times> unit result" where
  "stage B args d =
     (case and_then (validate_force_snapshot_height (stg_height args) (stg_zcash_network args)) (\<lambda>_.
           ensure (d = Map.empty) ''staging directory must be empty'' (Ok ())) of
        Inl e \<Rightarrow> (d, Inl e)
      | Inr _ \<Rightarrow>
          let cfg = \<lparr>bc_zcash_network = stg_zcash_network args, bc_pir_config_url = Some [], bc_voting_config_url = [],
                     bc_precomputed_base_url = trim_end_slashes (stg_precomputed_base_url args),
                     bc_force_snapshot_height = Some (stg_height args)\<rparr>;
              (d, r) = fetch_authenticated B cfg (stg_height args) (Some (stg_manifest_sha256 args)) d
          in (d, and_then r (\<lambda>_. Ok ())))"

section \<open>Choosing the height\<close>

definition resolve_legacy_voting_height :: "boot_deps \<Rightarrow> boot_config \<Rightarrow> boot_metrics \<Rightarrow> boot_metrics \<times> u64 option result" where
  "resolve_legacy_voting_height B cfg m =
     (if trim (bc_voting_config_url cfg) = [] then (m, Ok None)
      else
        (case fetch_voting_snapshot_height (bd_source_json B) (bd_http B) (bc_voting_config_url cfg) of
           Inr (Some h) \<Rightarrow>
             (case validate_export_height h (bc_zcash_network cfg) of
                Inl e \<Rightarrow> (m, Inl e)
              | Inr _ \<Rightarrow> (set_expected (word_of_nat h) m, Ok (Some (word_of_nat h))))
         | Inr None \<Rightarrow> (m, Ok None)
         | Inl e \<Rightarrow> (m, Inl e)))"

definition resolve_expected_height :: "boot_deps \<Rightarrow> boot_config \<Rightarrow> Source \<Rightarrow> boot_metrics \<Rightarrow> boot_metrics \<times> u64 option result" where
  "resolve_expected_height B cfg source m =
     (case source of
        SourceDisabled \<Rightarrow> (m, Ok None)
      | FallbackToVotingConfig \<Rightarrow> resolve_legacy_voting_height B cfg m
      | SourceUrl url strict \<Rightarrow>
          (case fetch_pir_config_height (bd_source_json B) (bd_http B) url (bc_zcash_network cfg) of
             Inr h \<Rightarrow> (set_expected (word_of_nat h) m, Ok (Some (word_of_nat h)))
           | Inl e \<Rightarrow>
               if \<not> strict \<and> trim (bc_voting_config_url cfg) \<noteq> [] then resolve_legacy_voting_height B cfg m
               else (m, Inl e)))"

fun error_text :: "error \<Rightarrow> string" where
  "error_text (Error s) = s"
| "error_text (Panic s) = s"

definition bootstrap_to_height ::
  "boot_deps \<Rightarrow> boot_config \<Rightarrow> u64 \<Rightarrow> u64 option \<Rightarrow> bool \<Rightarrow> dir \<times> boot_metrics \<Rightarrow> (dir \<times> boot_metrics) \<times> Outcome result" where
  "bootstrap_to_height B cfg expected_height local_height forced s =
     (let (d, m) = s
      in if local_height = Some expected_height
         then ((d, bootstrap_outcome_inc ''already_at_height'' m), Ok (AlreadyAtHeight expected_height))
         else if bc_precomputed_base_url cfg = [] then
           (if forced
            then ((d, bootstrap_outcome_inc ''failed_precomputed_config'' m),
                  Bail ''force snapshot height requires a non-empty precomputed-base-url'')
            else ((d, bootstrap_outcome_inc ''fell_through'' m), Ok (FellThrough ''precomputed-base-url is empty'')))
         else
           (case fetch_and_install B cfg expected_height d of
              (d, Inr bytes) \<Rightarrow>
                ((d, bootstrap_outcome_inc ''bootstrapped'' (set_served expected_height (bootstrap_bytes_inc bytes m))),
                 Ok (BootstrappedTo expected_height))
            | (d, Inl e) \<Rightarrow>
                if forced then ((d, bootstrap_outcome_inc ''failed_cdn_fetch'' m), Inl e)
                else ((d, bootstrap_outcome_inc ''fell_through'' m),
                      Ok (FellThrough (''CDN fetch failed: '' @ error_text e)))))"

definition bootstrap_run :: "boot_deps \<Rightarrow> boot_config \<Rightarrow> dir \<times> boot_metrics \<Rightarrow> (dir \<times> boot_metrics) \<times> Outcome result" where
  "bootstrap_run B cfg s =
     (let (d, m) = s;
          m = bootstrap_attempts_inc m;
          local_height = read_local_height (bd_codec B) d (bc_zcash_network cfg);
          m = (case local_height of None \<Rightarrow> m | Some h \<Rightarrow> set_served h m)
      in case bc_force_snapshot_height cfg of
           Some h \<Rightarrow>
             (case validate_force_snapshot_height h (bc_zcash_network cfg) of
                Inl e \<Rightarrow> ((d, m), Inl e)
              | Inr _ \<Rightarrow> bootstrap_to_height B cfg h local_height True (d, set_expected h m))
         | None \<Rightarrow>
             (case resolve_source (bc_pir_config_url cfg) (bc_voting_config_url cfg) of
                Inl e \<Rightarrow> ((d, m), Inl e)
              | Inr SourceDisabled \<Rightarrow> ((d, bootstrap_outcome_inc ''disabled'' m), Ok Disabled)
              | Inr source \<Rightarrow>
                  (case resolve_expected_height B cfg source m of
                     (m, Inr (Some h)) \<Rightarrow> bootstrap_to_height B cfg h local_height False (d, m)
                   | (m, Inr None) \<Rightarrow>
                       (case local_height of
                          Some h \<Rightarrow> ((d, bootstrap_outcome_inc ''using_local_snapshot'' m), Ok (UsingLocalSnapshot h))
                        | None \<Rightarrow>
                            ((d, bootstrap_outcome_inc ''failed_voting_config'' m),
                             Bail ''no configured snapshot_height discovered and no local snapshot exists''))
                   | (m, Inl e) \<Rightarrow> ((d, bootstrap_outcome_inc ''failed_voting_config'' m), Inl e))))"
section \<open>What a download delivers\<close>

text \<open>The body of a complete successful response.\<close>

definition body_of :: "boot_deps \<Rightarrow> string \<Rightarrow> bytes option" where
  "body_of B url =
     (case bd_cdn B url of
        Inl _ \<Rightarrow> None
      | Inr resp \<Rightarrow> if sr_status resp < 400 \<and> \<not> sr_broken resp then Some (concat (sr_chunks resp)) else None)"

text \<open>The bytes of a file that its manifest entry vouches for.\<close>

definition vouched :: "boot_deps \<Rightarrow> string \<Rightarrow> PublishedManifest \<Rightarrow> string \<Rightarrow> bytes option" where
  "vouched B base manifest name =
     Option.bind (map_of (pm_files manifest) name) (\<lambda>entry.
     Option.bind (body_of B (base @ ''/'' @ name)) (\<lambda>body.
     if length body = unat (mf_size entry) \<and> eq_ignore_ascii_case (bd_sha256_hex B body) (mf_sha256 entry)
     then Some body else None))"

lemma download_chunks_Ok_iff:
  assumes "length hashed \<le> sz" "sz < 2 ^ 64" "d dest = Some hashed"
  shows "download_chunks dest sz broken chunks (length hashed) hashed d = (d', Inr (w, body)) \<longleftrightarrow>
     \<not> broken \<and> body = hashed @ concat chunks \<and> w = length body \<and> w \<le> sz \<and> d' = d(dest \<mapsto> body)"
  using assms
proof (induction chunks arbitrary: hashed d)
  case Nil
  then have "d(dest \<mapsto> hashed) = d" by auto
  with Nil show ?case by auto
next
  case (Cons c cs)
  show ?case
  proof (cases "length c > sz - length hashed")
    case True
    with Cons.prems show ?thesis by auto
  next
    case False
    with Cons.prems have le: "length (hashed @ c) \<le> sz" by simp
    with Cons.prems have w: "saturating_add (length hashed) (length c) = length (hashed @ c)"
      by (simp add: saturating_add_def)
    have step: "download_chunks dest sz broken (c # cs) (length hashed) hashed d =
        download_chunks dest sz broken cs (length (hashed @ c)) (hashed @ c) (d(dest \<mapsto> hashed @ c))"
      using False Cons.prems(3) w by (simp add: file_bytes_def)
    show ?thesis
      unfolding step
      using Cons.IH [OF le Cons.prems(2), of "d(dest \<mapsto> hashed @ c)"]
      by (simp only: fun_upd_upd fun_upd_same append_assoc concat.simps simp_thms)
  qed
qed

lemma download_chunks_frame: "f \<noteq> dest \<Longrightarrow> fst (download_chunks dest sz broken chunks w h d) f = d f"
  by (induction chunks arbitrary: w h d) auto

lemma download_and_verify_Ok_iff:
  "download_and_verify B url dest sha sz d = (d', Inr w) \<longleftrightarrow>
     (\<exists>body. body_of B url = Some body \<and> length body = unat sz \<and> eq_ignore_ascii_case (bd_sha256_hex B body) sha \<and>
             w = length body \<and> d' = d(dest \<mapsto> body))"
proof (cases "bd_cdn B url")
  case (Inl e)
  then show ?thesis by (simp add: download_and_verify_def body_of_def)
next
  case (Inr resp)
  let ?run = "download_chunks dest (unat sz) (sr_broken resp) (sr_chunks resp) 0 [] (d(dest \<mapsto> []))"
  have sz: "unat sz < 2 ^ 64" using unsigned_less [of sz, where 'a = nat] by simp
  have ok: "?run = (d1, Inr (w, body)) \<longleftrightarrow>
      \<not> sr_broken resp \<and> body = concat (sr_chunks resp) \<and> w = length body \<and> w \<le> unat sz \<and> d1 = d(dest \<mapsto> body)" for d1 w body
    using download_chunks_Ok_iff [of "[]" "unat sz" "d(dest \<mapsto> [])" dest "sr_broken resp" "sr_chunks resp" d1 w body] sz
    by simp
  obtain d1 r where run: "?run = (d1, r)" by fastforce
  show ?thesis
  proof (cases r)
    case (Inl e)
    with run ok have "sr_broken resp \<or> unat sz < length (concat (sr_chunks resp))" by fastforce
    with Inl Inr run show ?thesis by (auto simp: download_and_verify_def body_of_def)
  next
    case r: (Inr wb)
    obtain w1 b1 where wb: "wb = (w1, b1)" by (cases wb)
    from run ok [of d1 w1 b1] r wb
    have o: "\<not> sr_broken resp" "b1 = concat (sr_chunks resp)" "w1 = length b1" "d1 = d(dest \<mapsto> b1)" by simp_all
    from Inr run r wb show ?thesis
      by (auto simp: download_and_verify_def body_of_def o not_le simp del: length_concat)
  qed
qed

lemma download_and_verify_frame: "f \<noteq> dest \<Longrightarrow> fst (download_and_verify B url dest sha sz d) f = d f"
proof -
  assume f: "f \<noteq> dest"
  have "fst (download_chunks dest n broken chunks w h (d(dest \<mapsto> []))) f = d f" for n broken chunks w h
    using download_chunks_frame [OF f] f by simp
  then show ?thesis
    using f by (auto simp: download_and_verify_def split: prod.split sum.split) (metis fst_conv)+
qed

lemma read_manifest_Ok_iff:
  "length bs \<le> 1048576 \<Longrightarrow>
     read_manifest chunks broken bs = Inr ys \<longleftrightarrow> \<not> broken \<and> ys = bs @ concat chunks \<and> length ys \<le> 1048576"
  by (induction chunks arbitrary: bs) (auto simp: result_simps ensure_def)

lemma download_files_Ok_iff:
  "distinct names \<Longrightarrow>
   download_files B base manifest names t d = (d', Inr n) \<longleftrightarrow>
     (\<forall>name \<in> set names. vouched B base manifest name \<noteq> None) \<and>
     n = fold (\<lambda>name t. saturating_add t (length (the (vouched B base manifest name)))) names t \<and>
     d' = (\<lambda>f. if f \<in> (\<lambda>name. staging @ name) ` set names then vouched B base manifest (drop (length staging) f) else d f)"
proof (induction names arbitrary: t d)
  case Nil
  then show ?case by auto
next
  case (Cons name names)
  show ?case
  proof (cases "vouched B base manifest name")
    case None
    then have "download_files B base manifest (name # names) t d \<noteq> (d', Inr n)"
      by (auto simp: vouched_def download_and_verify_Ok_iff bind_eq_None_conv split: option.splits prod.splits sum.splits if_splits)
    with None show ?thesis by auto
  next
    case (Some body)
    then obtain entry where e: "map_of (pm_files manifest) name = Some entry"
      "download_and_verify B (base @ ''/'' @ name) (staging @ name) (mf_sha256 entry) (mf_size entry) d =
        (d(staging @ name \<mapsto> body), Inr (length body))"
      by (auto simp: vouched_def download_and_verify_Ok_iff bind_eq_Some_conv split: if_splits)
    with Some Cons show ?thesis by (auto simp: fun_eq_iff)
  qed
qed

lemma download_files_frame: "\<not> in_staging f \<Longrightarrow> fst (download_files B base manifest names t d) f = d f"
proof (induction names arbitrary: t d)
  case Nil
  then show ?case by simp
next
  case (Cons name names)
  then have "f \<noteq> staging @ name" by (auto simp: in_staging_def starts_with_iff)
  note frame = download_and_verify_frame [OF this]
  show ?case
    using Cons.IH [OF Cons.prems] frame
    by (auto split: option.split prod.split sum.split) (metis fst_conv)+
qed
section \<open>What an installation does\<close>

text \<open>The files an installation drops besides replacing the snapshot.\<close>

definition stale_files :: "string list" where
  "stale_files =
     [''tier0.precompute'', ''tier0.precompute.tmp'', ''tier1.precompute'', ''tier1.precompute.tmp'',
      ''tier2.bin'', ''tier2.precompute'', ''tier2.precompute.tmp'']"

definition installed :: "(string \<Rightarrow> bytes option) \<Rightarrow> dir \<Rightarrow> dir" where
  "installed new d =
     (\<lambda>f. if f \<in> set SNAPSHOT_FILES then new f
          else if f \<in> set stale_files \<or> in_staging f then None else d f)"

definition stage_files :: "(string \<Rightarrow> bytes option) \<Rightarrow> dir \<Rightarrow> dir" where
  "stage_files new d =
     (\<lambda>f. if f \<in> (\<lambda>name. staging @ name) ` set SNAPSHOT_FILES then new (drop (length staging) f) else remove_staging d f)"

lemmas boot_files = SNAPSHOT_FILES_def tier0_file_def tier1_file_def root_file_def staging_def

lemma in_staging_simps [simp]: "in_staging (staging @ f)" "f \<in> set SNAPSHOT_FILES \<Longrightarrow> \<not> in_staging f"
  "f \<in> set stale_files \<Longrightarrow> \<not> in_staging f"
  by (auto simp: in_staging_def starts_with_iff boot_files stale_files_def)

lemma stage_files_staged: "name \<in> set SNAPSHOT_FILES \<Longrightarrow> stage_files new d (staging @ name) = new name"
  by (simp add: stage_files_def)

lemma stage_files_live: "\<not> in_staging f \<Longrightarrow> stage_files new d f = d f"
  by (auto simp: stage_files_def remove_staging_def)

lemma snapshot_not_stale: "f \<in> set SNAPSHOT_FILES \<Longrightarrow> f \<notin> set stale_files"
  by (auto simp: stale_files_def boot_files)

text \<open>The operations, run in full, by file.\<close>

lemma run_move:
  "d s = Some b \<Longrightarrow>
     run_ops ([RenameFile s t] @ evict_stale_precompute stem) d =
       (((d(t \<mapsto> b))(s := None))(stem @ ''.precompute'' := None))(stem @ ''.precompute.tmp'' := None)"
  by (simp add: evict_stale_precompute_def)

lemma move_names:
  "staging @ tier1_file \<notin> {tier0_file, staging @ tier0_file, ''tier0.precompute'', ''tier0.precompute.tmp''}"
  "staging @ root_file \<notin> {tier0_file, staging @ tier0_file, ''tier0.precompute'', ''tier0.precompute.tmp'',
     tier1_file, staging @ tier1_file, ''tier1.precompute'', ''tier1.precompute.tmp''}"
  by (simp_all add: staging_def tier0_file_def tier1_file_def root_file_def)

lemma run_install_eq:
  assumes "d (staging @ tier0_file) = Some b0" "d (staging @ tier1_file) = Some b1" "d (staging @ root_file) = Some b2"
  shows "run_ops install_from_staging d =
    d(tier0_file \<mapsto> b0, staging @ tier0_file := None, ''tier0.precompute'' := None, ''tier0.precompute.tmp'' := None,
      tier1_file \<mapsto> b1, staging @ tier1_file := None, ''tier1.precompute'' := None, ''tier1.precompute.tmp'' := None,
      root_file \<mapsto> b2, staging @ root_file := None,
      ''tier2.bin'' := None, ''tier2.precompute'' := None, ''tier2.precompute.tmp'' := None)"
proof -
  let ?d1 = "d(tier0_file \<mapsto> b0, staging @ tier0_file := None, ''tier0.precompute'' := None, ''tier0.precompute.tmp'' := None)"
  let ?d2 = "?d1(tier1_file \<mapsto> b1, staging @ tier1_file := None, ''tier1.precompute'' := None, ''tier1.precompute.tmp'' := None)"
  have 1: "run_ops ([RenameFile (staging @ tier0_file) tier0_file] @ evict_stale_precompute ''tier0'') d = ?d1"
    using run_move [of d, OF assms(1), of tier0_file "''tier0''"] by (simp only: append.simps)
  have s1: "?d1 (staging @ tier1_file) = Some b1"
    using move_names(1) assms(2) by (simp only: fun_upd_apply insert_iff empty_iff) simp
  have 2: "run_ops ([RenameFile (staging @ tier1_file) tier1_file] @ evict_stale_precompute ''tier1'') ?d1 = ?d2"
    using run_move [of ?d1, OF s1, of tier1_file "''tier1''"] by (simp only: append.simps)
  have s2: "?d2 (staging @ root_file) = Some b2"
    using move_names(2) assms(3) by (simp only: fun_upd_apply insert_iff empty_iff) simp
  have "run_ops install_from_staging d =
      run_ops legacy_ops (apply_op (RenameFile (staging @ root_file) root_file)
        (run_ops ([RenameFile (staging @ tier1_file) tier1_file] @ evict_stale_precompute ''tier1'')
          (run_ops ([RenameFile (staging @ tier0_file) tier0_file] @ evict_stale_precompute ''tier0'') d)))"
    unfolding install_from_staging_def by (simp only: run_ops_simps append_assoc)
  also have "\<dots> = run_ops legacy_ops (?d2(root_file \<mapsto> b2, staging @ root_file := None))"
    unfolding 1 2 by (simp only: apply_op.simps s2 option.case)
  finally show ?thesis by (simp only: legacy_ops_def list.map run_ops_simps apply_op.simps)
qed

lemma run_install:
  assumes "\<forall>name \<in> set SNAPSHOT_FILES. d (staging @ name) \<noteq> None"
  shows "run_ops install_from_staging d f =
    (if f \<in> set SNAPSHOT_FILES then d (staging @ f)
     else if f \<in> set stale_files \<or> f \<in> (\<lambda>name. staging @ name) ` set SNAPSHOT_FILES then None else d f)"
proof -
  from assms obtain b0 b1 b2 where
    b: "d (staging @ tier0_file) = Some b0" "d (staging @ tier1_file) = Some b1" "d (staging @ root_file) = Some b2"
    by (auto simp: SNAPSHOT_FILES_def)
  note eq = run_install_eq [of d, OF b]
  have snapshot: "run_ops install_from_staging d tier0_file = Some b0" "run_ops install_from_staging d tier1_file = Some b1"
    "run_ops install_from_staging d root_file = Some b2"
    unfolding eq fun_upd_apply by (simp_all add: tier0_file_def tier1_file_def root_file_def staging_def)
  have gone: "run_ops install_from_staging d g = None" if "g \<in> set stale_files" for g
    using that unfolding eq fun_upd_apply stale_files_def list.set
    by (elim insertE emptyE; simp only:; simp add: tier0_file_def tier1_file_def root_file_def staging_def)
  have staged: "run_ops install_from_staging d (staging @ tier0_file) = None"
    "run_ops install_from_staging d (staging @ tier1_file) = None" "run_ops install_from_staging d (staging @ root_file) = None"
    unfolding eq fun_upd_apply by (simp_all add: tier0_file_def tier1_file_def root_file_def staging_def)
  have other: "run_ops install_from_staging d g = d g"
    if "g \<notin> set SNAPSHOT_FILES" "g \<notin> set stale_files" "g \<notin> (\<lambda>name. staging @ name) ` set SNAPSHOT_FILES" for g
    using that by (intro run_ops_other)
      (auto simp: install_from_staging_def evict_stale_precompute_def legacy_ops_def stale_files_def SNAPSHOT_FILES_def)
  show ?thesis
    using snapshot b gone staged other by (auto simp: SNAPSHOT_FILES_def)
qed

lemma install_staged:
  assumes "\<forall>name \<in> set SNAPSHOT_FILES. new name \<noteq> None"
  shows "remove_staging (run_ops install_from_staging (stage_files new d)) = installed new d"
proof
  fix f
  from assms have staged: "\<forall>name \<in> set SNAPSHOT_FILES. stage_files new d (staging @ name) \<noteq> None"
    by (simp add: stage_files_staged)
  show "remove_staging (run_ops install_from_staging (stage_files new d)) f = installed new d f"
    unfolding remove_staging_def run_install [OF staged]
    by (auto simp: installed_def stage_files_staged stage_files_live)
qed

lemma download_snapshot_Ok_iff:
  "download_files B base manifest SNAPSHOT_FILES 0 (remove_staging d) = (d', Inr n) \<longleftrightarrow>
     (\<forall>name \<in> set SNAPSHOT_FILES. vouched B base manifest name \<noteq> None) \<and>
     n = fold (\<lambda>name t. saturating_add t (length (the (vouched B base manifest name)))) SNAPSHOT_FILES 0 \<and>
     d' = stage_files (vouched B base manifest) d"
proof -
  have "distinct SNAPSHOT_FILES" by (simp add: boot_files)
  from download_files_Ok_iff [OF this] show ?thesis by (simp add: stage_files_def)
qed

text \<open>The metadata check reads one file only.\<close>

lemma validate_meta_cong: "d f = d' f' \<Longrightarrow> validate_pir_metadata C d f n = validate_pir_metadata C d' f' n"
  by (simp add: validate_pir_metadata_def)

lemma validate_root_iff:
  "validate_pir_root C d root_file n h = Inr () \<longleftrightarrow> read_local_height C d n = Some h"
  by (auto simp: validate_pir_root_def read_local_height_def result_simps split: sum.split)

lemma validate_root_cong: "d f = d' f' \<Longrightarrow> validate_pir_root C d f n h = validate_pir_root C d' f' n h"
  by (simp add: validate_pir_root_def validate_meta_cong [of d f d' f'])

theorem fetch_authenticated_Ok_iff:
  "fetch_authenticated B cfg h sha d = (d', Inr n) \<longleftrightarrow>
     (\<exists>manifest. fetch_manifest B cfg h sha = Inr manifest \<and>
        (\<forall>name \<in> set SNAPSHOT_FILES. vouched B (snapshot_dir cfg h) manifest name \<noteq> None) \<and>
        n = fold (\<lambda>name t. saturating_add t (length (the (vouched B (snapshot_dir cfg h) manifest name)))) SNAPSHOT_FILES 0 \<and>
        d' = installed (vouched B (snapshot_dir cfg h) manifest) d \<and>
        read_local_height (bd_codec B) d' (bc_zcash_network cfg) = Some h)"
proof (cases "fetch_manifest B cfg h sha")
  case (Inl e)
  then show ?thesis by (simp add: fetch_authenticated_def)
next
  case (Inr manifest)
  let ?new = "vouched B (snapshot_dir cfg h) manifest"
  obtain d1 r where dl: "download_files B (snapshot_dir cfg h) manifest SNAPSHOT_FILES 0 (remove_staging d) = (d1, r)" by fastforce
  show ?thesis
  proof (cases r)
    case (Inl e)
    with dl download_snapshot_Ok_iff [of B "snapshot_dir cfg h" manifest d]
    have "\<not> (\<forall>name \<in> set SNAPSHOT_FILES. ?new name \<noteq> None)" by (metis Pair_inject Inl_Inr_False)
    with Inl Inr dl show ?thesis by (auto simp: fetch_authenticated_def)
  next
    case r: (Inr m)
    with dl have s: "\<forall>name \<in> set SNAPSHOT_FILES. ?new name \<noteq> None" "d1 = stage_files ?new d"
      "m = fold (\<lambda>name t. saturating_add t (length (the (?new name)))) SNAPSHOT_FILES 0"
      by (simp_all add: download_snapshot_Ok_iff)
    have rf: "root_file \<in> set SNAPSHOT_FILES" by (simp add: SNAPSHOT_FILES_def)
    then have "d1 (staging @ root_file) = installed ?new d root_file"
      by (simp add: s(2) stage_files_staged installed_def)
    then have v: "validate_pir_root (bd_codec B) d1 (staging @ root_file) (bc_zcash_network cfg) h = Inr () \<longleftrightarrow>
        read_local_height (bd_codec B) (installed ?new d) (bc_zcash_network cfg) = Some h"
      by (simp add: validate_root_iff [symmetric] validate_root_cong [of d1 "staging @ root_file" "installed ?new d" root_file])
    show ?thesis
      using Inr dl r v s(1)
      by (cases "validate_pir_root (bd_codec B) d1 (staging @ root_file) (bc_zcash_network cfg) h")
        (auto simp: fetch_authenticated_def s(2,3) install_staged)
  qed
qed

lemma fetch_authenticated_Err_frame:
  assumes "fetch_authenticated B cfg h sha d = (d', Inl e)" "\<not> in_staging f"
  shows "d' f = d f"
proof -
  have "fst (download_files B base manifest names t (remove_staging d)) f = d f" for base manifest names t
    using download_files_frame [OF assms(2)] assms(2) by (simp add: remove_staging_def)
  with assms(1) show ?thesis
    by (auto simp: fetch_authenticated_def split: sum.splits prod.splits) (metis fst_conv)+
qed
section \<open>Interrupted starts\<close>

lemma fetch_manifest_Ok_iff:
  "fetch_manifest B cfg h sha = Inr manifest \<longleftrightarrow>
     (\<exists>resp bytes. bd_cdn B (snapshot_dir cfg h @ ''/manifest.json'') = Inr resp \<and> sr_status resp < 400 \<and>
        \<not> sr_broken resp \<and> (case sr_content_length resp of None \<Rightarrow> 0 | Some n \<Rightarrow> n) \<le> 1048576 \<and>
        bytes = concat (sr_chunks resp) \<and> length bytes \<le> 1048576 \<and>
        (case sha of None \<Rightarrow> True | Some expected \<Rightarrow> bd_sha256_hex B bytes = expected) \<and>
        bd_manifest_from_json B bytes = Some manifest \<and> pm_schema_version manifest = 2 \<and>
        is_current_dataset (pm_nullifier_pool manifest) (pm_dataset_version manifest) \<and> pm_height manifest = h \<and>
        (\<forall>f \<in> set SNAPSHOT_FILES. map_of (pm_files manifest) f \<noteq> None))"
  by (auto simp: fetch_manifest_def result_simps read_manifest_Ok_iff list_all_iff simp del: length_concat)

text \<open>
  The directories a start that was killed while it fetched height \<open>h\<close> can leave: anything in
  the staging directory while it downloads, a prefix of the installation, or anything in the
  staging directory while that is being removed.
\<close>

definition interrupted :: "boot_deps \<Rightarrow> boot_config \<Rightarrow> u64 \<Rightarrow> dir \<Rightarrow> dir \<Rightarrow> bool" where
  "interrupted B cfg h d d' \<longleftrightarrow>
     (\<forall>f. \<not> in_staging f \<longrightarrow> d' f = d f) \<or>
     (\<exists>manifest d1 n.
        fetch_manifest B cfg h None = Inr manifest \<and>
        download_files B (snapshot_dir cfg h) manifest SNAPSHOT_FILES 0 (remove_staging d) = (d1, Inr n) \<and>
        validate_pir_root (bd_codec B) d1 (staging @ root_file) (bc_zcash_network cfg) h = Inr () \<and>
        (crash install_from_staging d1 d' \<or> (\<forall>f. \<not> in_staging f \<longrightarrow> d' f = run_ops install_from_staging d1 f)))"

definition tiers_moved :: "fs_op list" where
  "tiers_moved =
     [RenameFile (staging @ tier0_file) tier0_file] @ evict_stale_precompute ''tier0'' @
     [RenameFile (staging @ tier1_file) tier1_file] @ evict_stale_precompute ''tier1''"

lemma install_split: "install_from_staging = tiers_moved @ RenameFile (staging @ root_file) root_file # legacy_ops"
  by (simp add: install_from_staging_def tiers_moved_def)

lemma install_op_files:
  "op \<in> set tiers_moved \<Longrightarrow> root_file \<notin> op_files op"
  "op \<in> set legacy_ops \<Longrightarrow> name \<in> set SNAPSHOT_FILES \<Longrightarrow> name \<notin> op_files op"
  "op \<in> set install_from_staging \<Longrightarrow> f \<notin> set SNAPSHOT_FILES \<Longrightarrow> f \<notin> set stale_files \<Longrightarrow> \<not> in_staging f \<Longrightarrow> f \<notin> op_files op"
proof -
  show "op \<in> set tiers_moved \<Longrightarrow> root_file \<notin> op_files op"
    by (auto simp: tiers_moved_def evict_stale_precompute_def boot_files)
  show "op \<in> set legacy_ops \<Longrightarrow> name \<in> set SNAPSHOT_FILES \<Longrightarrow> name \<notin> op_files op"
    by (auto simp: legacy_ops_def boot_files)
  show "f \<notin> op_files op"
    if "op \<in> set install_from_staging" "f \<notin> set SNAPSHOT_FILES" "f \<notin> set stale_files" "\<not> in_staging f"
  proof -
    from that(4) have "f \<noteq> staging @ name" for name by auto
    with that show ?thesis
      by (auto simp: install_from_staging_def evict_stale_precompute_def legacy_ops_def stale_files_def SNAPSHOT_FILES_def)
  qed
qed

text \<open>The metadata moves last: after a crash it is the old one, or all three files are new.\<close>

lemma crash_install:
  assumes "crash install_from_staging d d'" "\<forall>name \<in> set SNAPSHOT_FILES. d (staging @ name) \<noteq> None"
  shows "d' root_file = d root_file \<or> (\<forall>name \<in> set SNAPSHOT_FILES. d' name = d (staging @ name))"
    and "f \<notin> set SNAPSHOT_FILES \<Longrightarrow> f \<notin> set stale_files \<Longrightarrow> \<not> in_staging f \<Longrightarrow> d' f = d f"
proof -
  let ?d1 = "run_ops tiers_moved d" and ?op = "RenameFile (staging @ root_file) root_file"
  have pre: "crash tiers_moved d d2 \<Longrightarrow> d2 root_file = d root_file" for d2
    using crash_other install_op_files(1) by blast
  have run: "run_ops install_from_staging d = run_ops legacy_ops (apply_op ?op ?d1)"
    by (simp add: install_split)
  from assms(1) consider "crash tiers_moved d d'" | "d' = ?d1" | "crash legacy_ops (apply_op ?op ?d1) d'"
    unfolding install_split crash_append_iff crash_Cons_iff by auto
  then show "d' root_file = d root_file \<or> (\<forall>name \<in> set SNAPSHOT_FILES. d' name = d (staging @ name))"
  proof cases
    case 1
    with pre show ?thesis by blast
  next
    case 2
    with pre [OF crash_complete] show ?thesis by simp
  next
    case 3
    have "d' name = d (staging @ name)" if name: "name \<in> set SNAPSHOT_FILES" for name
    proof -
      note keep = install_op_files(2) [OF _ name]
      from crash_other [OF 3 keep] have "d' name = apply_op ?op ?d1 name" .
      also have "\<dots> = run_ops install_from_staging d name" unfolding run by (rule run_ops_other [OF keep, symmetric])
      also have "\<dots> = d (staging @ name)" using name by (simp add: run_install [OF assms(2)])
      finally show ?thesis .
    qed
    then show ?thesis by blast
  qed
  show "f \<notin> set SNAPSHOT_FILES \<Longrightarrow> f \<notin> set stale_files \<Longrightarrow> \<not> in_staging f \<Longrightarrow> d' f = d f"
    using crash_other [OF assms(1)] install_op_files(3) by blast
qed

lemma read_local_cong: "d root_file = d' root_file \<Longrightarrow> read_local_height C d n = read_local_height C d' n"
  by (simp add: read_local_height_def validate_meta_cong [of d root_file d' root_file])

text \<open>After an interruption: the metadata is the old one and nothing else was lost, or all files are new.\<close>

lemma interrupted_cases:
  assumes fetch: "fetch_and_install B cfg h d = (dn, Inr n)" and int: "interrupted B cfg h d d'"
  shows "d' root_file = d root_file \<or> (\<forall>name \<in> set SNAPSHOT_FILES. d' name = dn name)"
    and "f \<notin> set SNAPSHOT_FILES \<Longrightarrow> f \<notin> set stale_files \<Longrightarrow> \<not> in_staging f \<Longrightarrow> d' f = d f"
proof -
  from fetch obtain manifest where m: "fetch_manifest B cfg h None = Inr manifest"
    and new: "\<forall>name \<in> set SNAPSHOT_FILES. vouched B (snapshot_dir cfg h) manifest name \<noteq> None"
    and dn: "dn = installed (vouched B (snapshot_dir cfg h) manifest) d"
    by (auto simp: fetch_and_install_def fetch_authenticated_Ok_iff)
  let ?d1 = "stage_files (vouched B (snapshot_dir cfg h) manifest) d"
  from new have staged: "\<forall>name \<in> set SNAPSHOT_FILES. ?d1 (staging @ name) \<noteq> None" by (simp add: stage_files_staged)
  from int m consider (download) "\<forall>f. \<not> in_staging f \<longrightarrow> d' f = d f"
    | (install) "crash install_from_staging ?d1 d'"
    | (cleanup) "\<forall>f. \<not> in_staging f \<longrightarrow> d' f = run_ops install_from_staging ?d1 f"
    by (auto simp: interrupted_def download_snapshot_Ok_iff)
  then have "(d' root_file = d root_file \<or> (\<forall>name \<in> set SNAPSHOT_FILES. d' name = dn name)) \<and>
      (f \<notin> set SNAPSHOT_FILES \<longrightarrow> f \<notin> set stale_files \<longrightarrow> \<not> in_staging f \<longrightarrow> d' f = d f)"
  proof cases
    case download
    moreover have "\<not> in_staging root_file" by (simp add: SNAPSHOT_FILES_def)
    ultimately show ?thesis by blast
  next
    case install
    have "\<not> in_staging root_file" by (simp add: SNAPSHOT_FILES_def)
    with crash_install [OF install staged] show ?thesis
      by (auto simp: stage_files_staged stage_files_live dn installed_def)
  next
    case cleanup
    then show ?thesis
      by (auto simp: run_install [OF staged] stage_files_staged stage_files_live dn installed_def)
  qed
  then show "d' root_file = d root_file \<or> (\<forall>name \<in> set SNAPSHOT_FILES. d' name = dn name)"
    and "f \<notin> set SNAPSHOT_FILES \<Longrightarrow> f \<notin> set stale_files \<Longrightarrow> \<not> in_staging f \<Longrightarrow> d' f = d f"
    by blast+
qed

end
