(* ===== verification/Precompute_Cache.thy ===== *)
theory Precompute_Cache
  imports Pir_Types Fs
begin

text \<open>
  The on-disk cache of precomputed YPIR state, \<^verbatim>\<open>pir/server/src/precompute_cache.rs\<close>, and the
  start-up path that uses it (\<open>OwnedTierState::new_or_load\<close> of \<^verbatim>\<open>pir/server/src/lib.rs\<close>).
  BLAKE3 (\<open>H\<close>), the build target (\<open>T\<close>) and the YPIR library (\<open>Y\<close>) are parameters. The
  lemmas show that a cache is used only when it was written for the same tier bytes, the
  same scenario and the same target, that damage to the payload is noticed, and that
  starting from a cache gives the state a fresh build gives, whatever crashed before.
\<close>

section \<open>Parameters\<close>

record build_target =
  bt_arch :: bytes
  bt_os :: bytes
  bt_little_endian :: bool
  bt_ptr_size :: bytes
  bt_avx512f :: bool

text \<open>
  The YPIR server library for a scenario: the dimensions of its parameters, building the
  server with its offline values from tier bytes, answering a query, and the dump and load
  of both parts. A load returns the number of bytes it consumed.
\<close>

record ('y, 'o) ypir_server =
  ys_db_rows_padded :: "YpirScenario \<Rightarrow> usize"
  ys_poly_len_log2 :: "YpirScenario \<Rightarrow> usize"
  ys_t_exp_left :: "YpirScenario \<Rightarrow> usize"
  ys_poly_len :: "YpirScenario \<Rightarrow> usize"
  ys_build :: "YpirScenario \<Rightarrow> bytes \<Rightarrow> 'y \<times> 'o"
  ys_online :: "YpirScenario \<Rightarrow> 'y \<Rightarrow> 'o \<Rightarrow> u64 list \<Rightarrow> u64 list \<Rightarrow> bytes"
  ys_dump_server :: "'y \<Rightarrow> bytes option"
  ys_dump_offline :: "'o \<Rightarrow> bytes option"
  ys_load_server :: "YpirScenario \<Rightarrow> bytes \<Rightarrow> ('y \<times> usize) option"
  ys_load_offline :: "YpirScenario \<Rightarrow> bytes \<Rightarrow> ('o \<times> usize) option"

definition ascii :: "string \<Rightarrow> bytes" where
  "ascii s = map (\<lambda>c. word_of_nat (of_char c)) s"

section \<open>Header\<close>

definition MAGIC :: bytes where
  "MAGIC = ascii ''SVOTEPC1''"

definition SCHEMA_V2 :: u32 where
  "SCHEMA_V2 = 2"

datatype CacheLoadError =
    NotFound
  | BadMagic
  | SchemaMismatch u32 u32
  | TargetMismatch
  | TierSourceMismatch
  | ScenarioMismatch
  | PayloadHashMismatch
  | PayloadLenMismatch u64 u64
  | PayloadError
  | Io string

definition scenario_bytes :: "YpirScenario \<Rightarrow> bytes" where
  "scenario_bytes s =
     u64_to_le (word_of_nat (num_items s)) @ u64_to_le (word_of_nat (item_size_bits s)) @
     u64_to_le (word_of_nat (scn_poly_len s))"

definition hash_scenario :: "(bytes \<Rightarrow> bytes) \<Rightarrow> YpirScenario \<Rightarrow> bytes" where
  "hash_scenario H s = H (scenario_bytes s)"

definition target_hash :: "(bytes \<Rightarrow> bytes) \<Rightarrow> build_target \<Rightarrow> bytes" where
  "target_hash H T =
     H (bt_arch T @ ascii ''|'' @ bt_os T @ ascii ''|'' @
        (if bt_little_endian T then ascii ''le'' else ascii ''be'') @ ascii ''|'' @
        ascii ''ptr='' @ bt_ptr_size T @ ascii ''|avx512f='' @ (if bt_avx512f T then ascii ''1'' else ascii ''0''))"

record CacheHeader =
  ch_schema_version :: u32
  ch_target_hash :: bytes
  ch_scenario_hash :: bytes
  ch_tier_source_hash :: bytes
  ch_payload_hash :: bytes
  ch_payload_len :: u64

definition HEADER_BYTES :: usize where
  "HEADER_BYTES = 8 + 4 + 32 + 32 + 32 + 32 + 8"

definition header_write_to :: "CacheHeader \<Rightarrow> bytes" where
  "header_write_to h =
     MAGIC @ u32_to_le (ch_schema_version h) @ ch_target_hash h @ ch_scenario_hash h @
     ch_tier_source_hash h @ ch_payload_hash h @ u64_to_le (ch_payload_len h)"

text \<open>\<open>read_exact\<close>: the bytes read and the rest of the reader.\<close>

definition read_exact :: "usize \<Rightarrow> bytes \<Rightarrow> CacheLoadError + (bytes \<times> bytes)" where
  "read_exact n bs =
     (if length bs < n then Inl (Io ''cache header truncated'') else Inr (take n bs, drop n bs))"

definition read_u32_le :: "bytes \<Rightarrow> CacheLoadError + (u32 \<times> bytes)" where
  "read_u32_le bs = and_then (read_exact 4 bs) (\<lambda>(b, bs). Inr (u32_from_le b, bs))"

definition read_u64_le :: "bytes \<Rightarrow> CacheLoadError + (u64 \<times> bytes)" where
  "read_u64_le bs = and_then (read_exact 8 bs) (\<lambda>(b, bs). Inr (u64_from_le b, bs))"

definition header_read_from :: "bytes \<Rightarrow> CacheLoadError + (CacheHeader \<times> bytes)" where
  "header_read_from bs =
     and_then (read_exact 8 bs) (\<lambda>(magic, bs).
     if magic \<noteq> MAGIC then Inl BadMagic
     else
       and_then (read_u32_le bs) (\<lambda>(schema_version, bs).
       if schema_version \<noteq> SCHEMA_V2 then Inl (SchemaMismatch schema_version SCHEMA_V2)
       else
         and_then (read_exact 32 bs) (\<lambda>(target_hash, bs).
         and_then (read_exact 32 bs) (\<lambda>(scenario_hash, bs).
         and_then (read_exact 32 bs) (\<lambda>(tier_source_hash, bs).
         and_then (read_exact 32 bs) (\<lambda>(payload_hash, bs).
         and_then (read_u64_le bs) (\<lambda>(payload_len, bs).
         Inr (\<lparr>ch_schema_version = schema_version, ch_target_hash = target_hash, ch_scenario_hash = scenario_hash,
              ch_tier_source_hash = tier_source_hash, ch_payload_hash = payload_hash,
              ch_payload_len = payload_len\<rparr>, bs))))))))"

section \<open>Paths\<close>

text \<open>\<open>Path::file_stem\<close> and \<open>Path::with_extension\<close> on a file name.\<close>

definition file_stem :: "string \<Rightarrow> string" where
  "file_stem name =
     (let s = rev (dropWhile (\<lambda>c. c \<noteq> CHR ''.'') (rev name))
      in if length s \<le> 1 then name else butlast s)"

definition with_extension :: "string \<Rightarrow> string \<Rightarrow> string" where
  "with_extension name ext = file_stem name @ ''.'' @ ext"

definition cache_path_for_tier :: "string \<Rightarrow> string" where
  "cache_path_for_tier tier_path = file_stem tier_path @ ''.precompute''"

definition evict_cache_for_tier :: "string \<Rightarrow> fs_op list" where
  "evict_cache_for_tier tier_path =
     (let cache_path = cache_path_for_tier tier_path
      in [RemoveFile cache_path, RemoveFile (with_extension cache_path ''precompute.tmp'')])"

section \<open>Loading\<close>

definition hash_file :: "(bytes \<Rightarrow> bytes) \<Rightarrow> dir \<Rightarrow> string \<Rightarrow> CacheLoadError + bytes" where
  "hash_file H d path = (case d path of None \<Rightarrow> Inl (Io ''not found'') | Some bs \<Rightarrow> Inr (H bs))"

text \<open>The payload part of \<open>try_load_cache\<close>: both loads, the hash, the length, no trailing byte.\<close>

definition load_payload ::
  "(bytes \<Rightarrow> bytes) \<Rightarrow> ('y, 'o) ypir_server \<Rightarrow> YpirScenario \<Rightarrow> CacheHeader \<Rightarrow> bytes \<Rightarrow> CacheLoadError + ('y \<times> 'o)" where
  "load_payload H Y scenario header rest =
     (case ys_load_server Y scenario rest of
        None \<Rightarrow> Inl PayloadError
      | Some (server, n) \<Rightarrow>
          (case ys_load_offline Y scenario (drop n rest) of
             None \<Rightarrow> Inl PayloadError
           | Some (offline, m) \<Rightarrow>
               let consumed = take (n + m) rest
               in if H consumed \<noteq> ch_payload_hash header then Inl PayloadHashMismatch
                  else if word_of_nat (length consumed) \<noteq> ch_payload_len header
                  then Inl (PayloadLenMismatch (word_of_nat (length consumed)) (ch_payload_len header))
                  else if drop (n + m) rest \<noteq> [] then Inl (Io ''trailing bytes after payload'')
                  else Inr (server, offline)))"

definition try_load_cache ::
  "(bytes \<Rightarrow> bytes) \<Rightarrow> build_target \<Rightarrow> ('y, 'o) ypir_server \<Rightarrow> dir \<Rightarrow> string \<Rightarrow> string \<Rightarrow> YpirScenario \<Rightarrow>
   CacheLoadError + ('y \<times> 'o)" where
  "try_load_cache H T Y d cache_path tier_path scenario =
     (case d cache_path of
        None \<Rightarrow> Inl NotFound
      | Some bs \<Rightarrow>
          and_then (header_read_from bs) (\<lambda>(header, rest).
          if ch_target_hash header \<noteq> target_hash H T then Inl TargetMismatch
          else if ch_scenario_hash header \<noteq> hash_scenario H scenario then Inl ScenarioMismatch
          else
            and_then (hash_file H d tier_path) (\<lambda>actual_tier_hash.
            if ch_tier_source_hash header \<noteq> actual_tier_hash then Inl TierSourceMismatch
            else load_payload H Y scenario header rest)))"

section \<open>Writing\<close>

definition cache_header ::
  "(bytes \<Rightarrow> bytes) \<Rightarrow> build_target \<Rightarrow> YpirScenario \<Rightarrow> bytes \<Rightarrow> bytes \<Rightarrow> u64 \<Rightarrow> CacheHeader" where
  "cache_header H T scenario tier_source_hash payload_hash payload_len =
     \<lparr>ch_schema_version = SCHEMA_V2, ch_target_hash = target_hash H T, ch_scenario_hash = hash_scenario H scenario,
      ch_tier_source_hash = tier_source_hash, ch_payload_hash = payload_hash, ch_payload_len = payload_len\<rparr>"

text \<open>
  The writes of a successful dump: the temporary file with a placeholder header and the
  payload, the real header over it, and the rename.
\<close>

definition write_cache_ops ::
  "(bytes \<Rightarrow> bytes) \<Rightarrow> build_target \<Rightarrow> string \<Rightarrow> bytes \<Rightarrow> YpirScenario \<Rightarrow> bytes \<Rightarrow> fs_op list" where
  "write_cache_ops H T cache_path tier_source_hash scenario payload =
     (let tmp_path = with_extension cache_path ''precompute.tmp'';
          placeholder = cache_header H T scenario tier_source_hash (replicate 32 0) 0;
          final_header = cache_header H T scenario tier_source_hash (H payload) (word_of_nat (length payload))
      in [WriteFile tmp_path (header_write_to placeholder @ payload),
          WriteAt tmp_path 0 (header_write_to final_header),
          RenameFile tmp_path cache_path])"

definition write_cache ::
  "(bytes \<Rightarrow> bytes) \<Rightarrow> build_target \<Rightarrow> ('y, 'o) ypir_server \<Rightarrow> dir \<Rightarrow> string \<Rightarrow> bytes \<Rightarrow> YpirScenario \<Rightarrow> 'y \<Rightarrow> 'o \<Rightarrow>
   dir \<times> unit result" where
  "write_cache H T Y d cache_path tier_source_hash scenario server offline =
     (case (ys_dump_server Y server, ys_dump_offline Y offline) of
        (Some sb, Some ob) \<Rightarrow>
          (run_ops (write_cache_ops H T cache_path tier_source_hash scenario (sb @ ob)) d, Ok ())
      | _ \<Rightarrow>
          (run_ops [WriteFile (with_extension cache_path ''precompute.tmp'') [],
                    RemoveFile (with_extension cache_path ''precompute.tmp'')] d, Bail ''dump failed''))"

text \<open>
  \<open>OwnedTierState::new_or_load\<close>. Building takes minutes; \<open>env\<close> stands for what other
  processes do to the directory between reading the tier file and writing the cache. The
  result is the state and whether it came from the cache.
\<close>

definition new_or_load ::
  "(bytes \<Rightarrow> bytes) \<Rightarrow> build_target \<Rightarrow> ('y, 'o) ypir_server \<Rightarrow> (dir \<Rightarrow> dir) \<Rightarrow> dir \<Rightarrow> string \<Rightarrow> YpirScenario \<Rightarrow> string \<Rightarrow>
   dir \<times> (('y \<times> 'o) \<times> bool) result" where
  "new_or_load H T Y env d tier_path scenario cache_path =
     (case try_load_cache H T Y d cache_path tier_path scenario of
        Inr loaded \<Rightarrow> (d, Ok (loaded, True))
      | Inl reason \<Rightarrow>
          (case d tier_path of
             None \<Rightarrow> (d, Bail ''read tier file'')
           | Some tier_data \<Rightarrow>
               let tier_source_hash = H tier_data;
                   (server, offline) = ys_build Y scenario tier_data;
                   (d, _) = write_cache H T Y (env d) cache_path tier_source_hash scenario server offline
               in (d, Ok ((server, offline), False))))"

section \<open>The header\<close>

lemma length_MAGIC [simp]: "length MAGIC = 8"
  by (simp add: MAGIC_def ascii_def)

lemma read_exact_append [simp]: "length xs = n \<Longrightarrow> read_exact n (xs @ ys) = Inr (xs, ys)"
  by (simp add: read_exact_def)

lemma header_read_write:
  assumes "ch_schema_version h = SCHEMA_V2" "length (ch_target_hash h) = 32" "length (ch_scenario_hash h) = 32"
    "length (ch_tier_source_hash h) = 32" "length (ch_payload_hash h) = 32"
  shows "header_read_from (header_write_to h @ rest) = Inr (h, rest)"
  using assms by (simp add: header_read_from_def header_write_to_def read_u32_le_def read_u64_le_def)

lemma length_header_write_to:
  assumes "length (ch_target_hash h) = 32" "length (ch_scenario_hash h) = 32"
    "length (ch_tier_source_hash h) = 32" "length (ch_payload_hash h) = 32"
  shows "length (header_write_to h) = HEADER_BYTES"
  using assms by (simp add: header_write_to_def HEADER_BYTES_def)

section \<open>A written cache\<close>

text \<open>
  What the library promises: hashes have 32 bytes, and loading what was dumped for a
  scenario gives the state back and consumes exactly the dumped bytes.
\<close>

definition cache_contract :: "(bytes \<Rightarrow> bytes) \<Rightarrow> ('y, 'o) ypir_server \<Rightarrow> bool" where
  "cache_contract H Y \<longleftrightarrow>
     (\<forall>x. length (H x) = 32) \<and>
     (\<forall>scn tier sb rest. ys_dump_server Y (fst (ys_build Y scn tier)) = Some sb \<longrightarrow>
        ys_load_server Y scn (sb @ rest) = Some (fst (ys_build Y scn tier), length sb)) \<and>
     (\<forall>scn tier ob rest. ys_dump_offline Y (snd (ys_build Y scn tier)) = Some ob \<longrightarrow>
        ys_load_offline Y scn (ob @ rest) = Some (snd (ys_build Y scn tier), length ob))"

definition build_payload :: "('y, 'o) ypir_server \<Rightarrow> YpirScenario \<Rightarrow> bytes \<Rightarrow> bytes option" where
  "build_payload Y scn tier =
     (case (ys_dump_server Y (fst (ys_build Y scn tier)), ys_dump_offline Y (snd (ys_build Y scn tier))) of
        (Some sb, Some ob) \<Rightarrow> Some (sb @ ob) | _ \<Rightarrow> None)"

definition cache_image ::
  "(bytes \<Rightarrow> bytes) \<Rightarrow> build_target \<Rightarrow> ('y, 'o) ypir_server \<Rightarrow> YpirScenario \<Rightarrow> bytes \<Rightarrow> bytes option" where
  "cache_image H T Y scn tier =
     map_option (\<lambda>p. header_write_to (cache_header H T scn (H tier) (H p) (word_of_nat (length p))) @ p)
       (build_payload Y scn tier)"

lemma cache_header_fields [simp]:
  "ch_schema_version (cache_header H T scn th ph n) = SCHEMA_V2"
  "ch_target_hash (cache_header H T scn th ph n) = target_hash H T"
  "ch_scenario_hash (cache_header H T scn th ph n) = hash_scenario H scn"
  "ch_tier_source_hash (cache_header H T scn th ph n) = th"
  "ch_payload_hash (cache_header H T scn th ph n) = ph"
  "ch_payload_len (cache_header H T scn th ph n) = n"
  by (simp_all add: cache_header_def)

lemma read_cache_header:
  assumes "\<And>x. length (H x) = 32"
  shows "header_read_from (header_write_to (cache_header H T scn (H tier) (H p) n) @ rest) =
    Inr (cache_header H T scn (H tier) (H p) n, rest)"
  by (rule header_read_write) (simp_all add: target_hash_def hash_scenario_def assms)

lemma load_payload_built:
  assumes "cache_contract H Y" "build_payload Y scn tier = Some p"
  shows "load_payload H Y scn (cache_header H T scn (H tier) (H p) (word_of_nat (length p))) p = Inr (ys_build Y scn tier)"
proof -
  from assms(2) obtain sb ob where d: "ys_dump_server Y (fst (ys_build Y scn tier)) = Some sb"
    "ys_dump_offline Y (snd (ys_build Y scn tier)) = Some ob" "p = sb @ ob"
    by (auto simp: build_payload_def split: option.splits prod.splits)
  have "ys_load_server Y scn (sb @ ob) = Some (fst (ys_build Y scn tier), length sb)"
    using assms(1) d(1) by (simp add: cache_contract_def)
  moreover have "ys_load_offline Y scn (ob @ []) = Some (snd (ys_build Y scn tier), length ob)"
    using assms(1) d(2) unfolding cache_contract_def by blast
  ultimately show ?thesis by (simp add: load_payload_def d(3))
qed

text \<open>What loading does with a cache file whose header belongs to a payload \<open>p\<close>.\<close>

lemma try_load_header:
  assumes "\<And>x. length (H x) = 32"
    and "d cache = Some (header_write_to (cache_header H T' scn' (H tier') (H p) n) @ rest)"
    and "d tier_path = Some tier"
  shows "try_load_cache H T Y d cache tier_path scn =
    (if target_hash H T' \<noteq> target_hash H T then Inl TargetMismatch
     else if hash_scenario H scn' \<noteq> hash_scenario H scn then Inl ScenarioMismatch
     else if H tier' \<noteq> H tier then Inl TierSourceMismatch
     else load_payload H Y scn (cache_header H T' scn' (H tier') (H p) n) rest)"
  using assms(2,3) by (simp add: try_load_cache_def read_cache_header [of H, OF assms(1)] hash_file_def)

lemma load_payload_Ok:
  assumes "load_payload H Y scn h rest = Inr st"
  shows "H rest = ch_payload_hash h \<and> word_of_nat (length rest) = ch_payload_len h"
proof -
  from assms obtain server n offline m where "drop (n + m) rest = []" "H (take (n + m) rest) = ch_payload_hash h"
    "word_of_nat (length (take (n + m) rest)) = ch_payload_len h"
    by (auto simp: load_payload_def Let_def split: option.splits if_splits)
  moreover from this(1) have "take (n + m) rest = rest" by simp
  ultimately show ?thesis by metis
qed

text \<open>A written cache is loaded back.\<close>

lemma load_written_cache:
  assumes "cache_contract H Y" "d cache = cache_image H T Y scn tier" "d cache = Some bs" "d tier_path = Some tier"
  shows "try_load_cache H T Y d cache tier_path scn = Inr (ys_build Y scn tier)"
proof -
  have H: "\<And>x. length (H x) = 32" using assms(1) by (simp add: cache_contract_def)
  obtain p where p: "build_payload Y scn tier = Some p"
    "d cache = Some (header_write_to (cache_header H T scn (H tier) (H p) (word_of_nat (length p))) @ p)"
    using assms(2,3) by (cases "build_payload Y scn tier") (auto simp: cache_image_def)
  show ?thesis
    using try_load_header [of H, OF H p(2) assms(4), of T Y scn] load_payload_built [OF assms(1) p(1), of T] by simp
qed

section \<open>Starting from a cache\<close>

definition scenario_wf :: "YpirScenario \<Rightarrow> bool" where
  "scenario_wf s \<longleftrightarrow> num_items s < 2 ^ 64 \<and> item_size_bits s < 2 ^ 64 \<and> scn_poly_len s < 2 ^ 64"

lemma scenario_bytes_inj:
  assumes "scenario_wf s" "scenario_wf s'" "scenario_bytes s = scenario_bytes s'"
  shows "s = s'"
proof -
  have "word_of_nat (num_items s) = (word_of_nat (num_items s') :: u64)"
    "word_of_nat (item_size_bits s) = (word_of_nat (item_size_bits s') :: u64)"
    "word_of_nat (scn_poly_len s) = (word_of_nat (scn_poly_len s') :: u64)"
    using assms(3) by (simp_all add: scenario_bytes_def) (metis u64_from_to)+
  then show ?thesis
    using assms(1,2) by (intro YpirScenario.equality) (auto simp: scenario_wf_def of_nat_inverse word_unat_eq_iff unat_of_nat)
qed

text \<open>The cache file is absent, or was written for a database of the set, on some target.\<close>

definition cache_sound :: "(bytes \<Rightarrow> bytes) \<Rightarrow> ('y, 'o) ypir_server \<Rightarrow> (YpirScenario \<times> bytes) set \<Rightarrow> string \<Rightarrow> dir \<Rightarrow> bool" where
  "cache_sound H Y U cache d \<longleftrightarrow>
     d cache = None \<or> (\<exists>T scn tier. (scn, tier) \<in> U \<and> scenario_wf scn \<and> d cache = cache_image H T Y scn tier)"

text \<open>
  The collision that accepting a stale cache needs: among the databases built before there
  are other tier bytes, or another scenario, with the same BLAKE3 hash.
\<close>

definition cache_collision :: "(bytes \<Rightarrow> bytes) \<Rightarrow> (YpirScenario \<times> bytes) set \<Rightarrow> YpirScenario \<Rightarrow> bytes \<Rightarrow> bool" where
  "cache_collision H U scn tier \<longleftrightarrow>
     (\<exists>(scn', tier') \<in> U.
        tier' \<noteq> tier \<and> H tier' = H tier \<or>
        scenario_bytes scn' \<noteq> scenario_bytes scn \<and> H (scenario_bytes scn') = H (scenario_bytes scn))"

lemma cache_sound_mono: "cache_sound H Y U cache d \<Longrightarrow> U \<subseteq> V \<Longrightarrow> cache_sound H Y V cache d"
  unfolding cache_sound_def by blast

lemma try_load_sound:
  assumes "cache_contract H Y" "cache_sound H Y U cache d" "scenario_wf scn" "d tier_path = Some tier"
    and "try_load_cache H T Y d cache tier_path scn = Inr st"
  shows "st = ys_build Y scn tier \<or> cache_collision H U scn tier"
proof -
  have H: "\<And>x. length (H x) = 32" using assms(1) by (simp add: cache_contract_def)
  have "d cache \<noteq> None" using assms(5) by (auto simp: try_load_cache_def split: option.splits)
  then obtain T' scn' tier' where wf: "scenario_wf scn'" and used: "(scn', tier') \<in> U" and img: "d cache = cache_image H T' Y scn' tier'"
    using assms(2) by (auto simp: cache_sound_def)
  with \<open>d cache \<noteq> None\<close> obtain p where p: "build_payload Y scn' tier' = Some p"
    "d cache = Some (header_write_to (cache_header H T' scn' (H tier') (H p) (word_of_nat (length p))) @ p)"
    by (cases "build_payload Y scn' tier'") (auto simp: cache_image_def)
  from try_load_header [of H, OF H p(2) assms(4), of T Y scn] assms(5)
  have eq: "H (scenario_bytes scn') = H (scenario_bytes scn)" "H tier' = H tier"
    and l: "load_payload H Y scn (cache_header H T' scn' (H tier') (H p) (word_of_nat (length p))) p = Inr st"
    by (auto simp: hash_scenario_def split: if_splits)
  show ?thesis
  proof (cases "tier' = tier \<and> scenario_bytes scn' = scenario_bytes scn")
    case True
    then have "scn' = scn" using scenario_bytes_inj wf assms(3) by blast
    with True l load_payload_built [OF assms(1) p(1), of T'] show ?thesis by simp
  next
    case False
    then have "cache_collision H U scn tier" unfolding cache_collision_def using eq used by auto
    then show ?thesis ..
  qed
qed

text \<open>Writing the cache keeps it sound at every point where it can be interrupted.\<close>

lemma crash_write_cache:
  assumes "\<And>x. length (H x) = 32" "with_extension cache ''precompute.tmp'' \<noteq> cache"
    and "crash (write_cache_ops H T cache (H tier) scn p) d d'"
  shows "d' cache = d cache \<or>
    d' cache = Some (header_write_to (cache_header H T scn (H tier) (H p) (word_of_nat (length p))) @ p)"
proof -
  have len: "length (header_write_to (cache_header H T scn (H tier) (H p) n)) =
      length (header_write_to (cache_header H T scn (H tier) (replicate 32 0) m))" for n m
    using assms(1) by (simp add: header_write_to_def)
  from assms(2,3) show ?thesis
    by (auto simp: write_cache_ops_def Let_def crash_Cons_iff len)
qed

lemma write_cache_image:
  assumes "cache_contract H Y" "with_extension cache ''precompute.tmp'' \<noteq> cache"
    and "write_cache H T Y d cache (H tier) scn (fst (ys_build Y scn tier)) (snd (ys_build Y scn tier)) = (d', Inr u)"
  shows "d' cache = cache_image H T Y scn tier \<and> d' cache \<noteq> None"
proof -
  have H: "\<And>x. length (H x) = 32" using assms(1) by (simp add: cache_contract_def)
  have len: "length (header_write_to (cache_header H T scn (H tier) (H p) n)) =
      length (header_write_to (cache_header H T scn (H tier) (replicate 32 0) m))" for p n m
    using H by (simp add: header_write_to_def)
  from assms(3) obtain sb ob where "ys_dump_server Y (fst (ys_build Y scn tier)) = Some sb"
    "ys_dump_offline Y (snd (ys_build Y scn tier)) = Some ob"
    "d' = run_ops (write_cache_ops H T cache (H tier) scn (sb @ ob)) d"
    by (auto simp: write_cache_def split: option.splits)
  with assms(2) show ?thesis
    by (simp add: cache_image_def build_payload_def write_cache_ops_def Let_def len)
qed

lemma write_cache_failed:
  assumes "with_extension cache ''precompute.tmp'' \<noteq> cache" "write_cache H T Y d cache th scn s f = (d', Inl e)"
  shows "d' cache = d cache"
  using assms by (auto simp: write_cache_def split: option.splits)

lemma new_or_load_correct:
  assumes "cache_contract H Y" "with_extension cache ''precompute.tmp'' \<noteq> cache" "scenario_wf scn"
    and "cache_sound H Y U cache d" "\<And>d. env d cache = d cache" "d tier_path = Some tier"
    and "new_or_load H T Y env d tier_path scn cache = (d', r)"
  shows "(\<exists>hit. r = Ok (ys_build Y scn tier, hit)) \<or> cache_collision H U scn tier"
    and "cache_sound H Y (insert (scn, tier) U) cache d'"
proof -
  have "((\<exists>hit. r = Ok (ys_build Y scn tier, hit)) \<or> cache_collision H U scn tier) \<and>
      cache_sound H Y (insert (scn, tier) U) cache d'"
  proof (cases "try_load_cache H T Y d cache tier_path scn")
    case (Inr st)
    with assms(7) have r: "r = Ok (st, True)" "d' = d" by (auto simp: new_or_load_def)
    with try_load_sound [OF assms(1,4,3,6) Inr] cache_sound_mono [OF assms(4) subset_insertI] show ?thesis by blast
  next
    case (Inl e)
    let ?w = "write_cache H T Y (env d) cache (H tier) scn (fst (ys_build Y scn tier)) (snd (ys_build Y scn tier))"
    from Inl assms(6,7) have r: "r = Ok (ys_build Y scn tier, False)" "d' = fst ?w"
      by (auto simp: new_or_load_def case_prod_unfold Let_def)
    have "cache_sound H Y (insert (scn, tier) U) cache d'"
    proof (cases "snd ?w")
      case (Inl e)
      then have "d' cache = env d cache"
        using r(2) write_cache_failed [OF assms(2)] by (metis prod.collapse)
      then have "cache_sound H Y U cache d'" using assms(4) by (simp add: cache_sound_def assms(5))
      then show ?thesis by (rule cache_sound_mono) blast
    next
      case (Inr u)
      then have "d' cache = cache_image H T Y scn tier"
        using r(2) write_cache_image [OF assms(1,2)] by (metis prod.collapse)
      then show ?thesis using assms(3) unfolding cache_sound_def by blast
    qed
    with r show ?thesis by blast
  qed
  then show "(\<exists>hit. r = Ok (ys_build Y scn tier, hit)) \<or> cache_collision H U scn tier"
    "cache_sound H Y (insert (scn, tier) U) cache d'" by blast+
qed

text \<open>
  Any history of start-ups, complete or interrupted while the cache is written, of
  evictions and of changes to the other files keeps the cache sound. The set next to the
  directory records the databases the history built.
\<close>

inductive cache_step ::
  "(bytes \<Rightarrow> bytes) \<Rightarrow> ('y, 'o) ypir_server \<Rightarrow> string \<Rightarrow> string \<Rightarrow>
   dir \<times> (YpirScenario \<times> bytes) set \<Rightarrow> dir \<times> (YpirScenario \<times> bytes) set \<Rightarrow> bool"
  for H :: "bytes \<Rightarrow> bytes" and Y :: "('y, 'o) ypir_server" and tier_path :: string and cache :: string where
  start: "scenario_wf scn \<Longrightarrow> d tier_path = Some tier \<Longrightarrow> (\<And>d. env d cache = d cache) \<Longrightarrow>
     cache_step H Y tier_path cache (d, U) (fst (new_or_load H T Y env d tier_path scn cache), insert (scn, tier) U)"
| start_crashed: "scenario_wf scn \<Longrightarrow> build_payload Y scn tier = Some p \<Longrightarrow>
     crash (write_cache_ops H T cache (H tier) scn p) d d' \<Longrightarrow>
     cache_step H Y tier_path cache (d, U) (d', insert (scn, tier) U)"
| evicted: "cache = cache_path_for_tier tier_path \<Longrightarrow>
     cache_step H Y tier_path cache (d, U) (run_ops (evict_cache_for_tier tier_path) d, U)"
| other_files: "d' cache = d cache \<Longrightarrow> cache_step H Y tier_path cache (d, U) (d', U)"

lemma cache_step_sound:
  assumes "cache_step H Y tier_path cache s s'" "cache_contract H Y"
    and "with_extension cache ''precompute.tmp'' \<noteq> cache" "cache_sound H Y (snd s) cache (fst s)"
  shows "cache_sound H Y (snd s') cache (fst s')"
  using assms
proof (induction rule: cache_step.induct)
  case (start scn d tier env U T)
  have "cache_sound H Y U cache d" using start.prems(3) by simp
  from new_or_load_correct(2) [where env = env, OF start.prems(1,2) start.hyps(1) this start.hyps(3,2) prod.collapse [symmetric]]
  show ?case by simp
next
  case (start_crashed scn tier p T d d' U)
  have H: "\<And>x. length (H x) = 32" using start_crashed.prems(1) by (simp add: cache_contract_def)
  from crash_write_cache [of H, OF H start_crashed.prems(2) start_crashed.hyps(3)]
  consider "d' cache = d cache" | "d' cache = cache_image H T Y scn tier"
    by (auto simp: cache_image_def start_crashed.hyps(2))
  then show ?case
  proof cases
    case 1
    then have "cache_sound H Y U cache d'" using start_crashed.prems(3) by (simp add: cache_sound_def)
    then show ?thesis by (auto intro: cache_sound_mono)
  next
    case 2
    then show ?thesis using start_crashed.hyps(1) by (auto simp: cache_sound_def)
  qed
next
  case (evicted d U)
  then show ?case by (simp add: evict_cache_for_tier_def Let_def cache_sound_def)
next
  case (other_files d' d U)
  then show ?case by (simp add: cache_sound_def)
qed

lemma cache_reachable_sound:
  assumes "(cache_step H Y tier_path cache)\<^sup>*\<^sup>* (d, {}) s" "cache_contract H Y"
    and "with_extension cache ''precompute.tmp'' \<noteq> cache" "d cache = None"
  shows "cache_sound H Y (snd s) cache (fst s)"
  using assms(1)
proof (induction rule: rtranclp_induct)
  case base
  then show ?case using assms(4) by (simp add: cache_sound_def)
next
  case (step d1 d2)
  then show ?case using cache_step_sound assms(2,3) by blast
qed

text \<open>Damage to the payload is noticed, unless the damaged payload has the same hash.\<close>

lemma damaged_payload_refused:
  assumes "\<And>x. length (H x) = 32" "d tier_path = Some tier"
    and "d cache = Some (header_write_to (cache_header H T' scn' (H tier') (H p) (word_of_nat (length p))) @ p')"
    and "try_load_cache H T Y d cache tier_path scn = Inr st"
  shows "H p' = H p"
proof -
  from try_load_header [of H, OF assms(1,3,2), of T Y scn] assms(4)
  have "load_payload H Y scn (cache_header H T' scn' (H tier') (H p) (word_of_nat (length p))) p' = Inr st"
    by (auto split: if_splits)
  from load_payload_Ok [OF this] show ?thesis by simp
qed

end
