(* ===== verification/Pir_Server.thy ===== *)
theory Pir_Server
  imports Precompute_Cache Pir_Client Snapshot_Fs
begin

text \<open>
  The PIR server wrapper, \<^verbatim>\<open>pir/server/src\<close>: parsing and answering queries, counters of a
  dispatched query, raw row reads, and loading a snapshot from disk. The YPIR library is the
  parameter \<open>Y\<close> of \<^verbatim>\<open>Precompute_Cache\<close>, JSON and hex coding the parameter \<open>C\<close> of \<^verbatim>\<open>Snapshot_Fs\<close>.
  Timing headers and log output are left out. The lemmas show that the server accepts
  exactly the queries of the right dimensions, that it reads back the numbers the client
  sent, and that an exported snapshot loads.
\<close>

section \<open>Scenario\<close>

definition tier1_scenario_for_layout_with_poly_len :: "PirLayout \<Rightarrow> usize \<Rightarrow> YpirScenario result" where
  "tier1_scenario_for_layout_with_poly_len layout degree =
     and_then (validate_supported layout) (\<lambda>_.
     ensure (degree = 2048 \<or> degree = 4096) ''YPIR polynomial degree must be 2048 or 4096''
     (and_then (tier1_rows layout) (\<lambda>rows.
      and_then (tier1_item_bits layout) (\<lambda>bits.
      Ok \<lparr>num_items = rows, item_size_bits = bits, scn_poly_len = degree\<rparr>))))"

definition tier1_scenario_for_layout :: "PirLayout \<Rightarrow> YpirScenario result" where
  "tier1_scenario_for_layout layout = tier1_scenario_for_layout_with_poly_len layout (poly_len layout)"

section \<open>Queries\<close>

definition MAX_QUERY_BODY_BYTES :: usize where
  "MAX_QUERY_BODY_BYTES = 2 * 1024 * 1024"

record ('y, 'o) TierServer =
  ts_server :: 'y
  ts_offline :: 'o
  ts_scenario :: YpirScenario

definition parse_query :: "('y, 'o) ypir_server \<Rightarrow> YpirScenario \<Rightarrow> bytes \<Rightarrow> (bytes \<times> bytes) result" where
  "parse_query Y scenario query_bytes =
     ensure (length query_bytes \<ge> U64_BYTES) ''query too short''
     (let pqr_byte_len = unat (u64_from_le (take U64_BYTES query_bytes))
      in and_then (ok_or (checked_mul (ys_db_rows_padded Y scenario) U64_BYTES) (Error ''packed query size overflow''))
         (\<lambda>expected_pqr_bytes.
         ensure (pqr_byte_len = expected_pqr_bytes) ''packed query size mismatch''
         (let payload = drop U64_BYTES query_bytes
          in ensure (pqr_byte_len \<le> length payload) ''pqr_byte_len exceeds payload''
             (let pqr = take pqr_byte_len payload; pub_params = drop pqr_byte_len payload
              in and_then (ok_or
                    (Option.bind (checked_mul (ys_poly_len_log2 Y scenario) (ys_t_exp_left Y scenario)) (\<lambda>n.
                     Option.bind (checked_mul n (ys_poly_len Y scenario)) (\<lambda>n.
                     checked_mul n U64_BYTES))) (Error ''public parameter size overflow''))
                 (\<lambda>expected_pub_params_bytes.
                 ensure (length pub_params = expected_pub_params_bytes) ''pub_params size mismatch''
                   (Ok (pqr, pub_params)))))))"

text \<open>\<open>Aligned64::new\<close> refuses an empty buffer.\<close>

definition aligned64 :: "bytes \<Rightarrow> u64 list result" where
  "aligned64 bs =
     assert_panic (0 < length bs div U64_BYTES) ''Aligned64::new called with zero length''
       (Ok (map u64_from_le (chunks_exact U64_BYTES bs)))"

definition answer_query :: "('y, 'o) ypir_server \<Rightarrow> ('y, 'o) TierServer \<Rightarrow> bytes \<Rightarrow> bytes result" where
  "answer_query Y self query_bytes =
     and_then (parse_query Y (ts_scenario self) query_bytes) (\<lambda>(pqr_bytes, pub_params_bytes).
     and_then (aligned64 pqr_bytes) (\<lambda>pqr.
     and_then (aligned64 pub_params_bytes) (\<lambda>pub_params.
     Ok (ys_online Y (ts_scenario self) (ts_server self) (ts_offline self) pqr pub_params))))"

text \<open>
  \<open>dispatch_query\<close>: the request counter, the in-flight counter that the guard restores on
  every exit (also while a panic unwinds), and the response.
\<close>

record counters =
  next_req_id :: u64
  inflight_requests :: u64

definition dispatch_query ::
  "('y, 'o) ypir_server \<Rightarrow> ('y, 'o) TierServer \<Rightarrow> bytes \<Rightarrow> counters \<Rightarrow> counters \<times> TransportResponse result" where
  "dispatch_query Y tier_state body ctr =
     (let ctr = ctr\<lparr>next_req_id := next_req_id ctr + 1\<rparr>;
          ctr = ctr\<lparr>inflight_requests := inflight_requests ctr + 1\<rparr>;
          answer = answer_query Y tier_state body;
          ctr = ctr\<lparr>inflight_requests := inflight_requests ctr - 1\<rparr>
      in (ctr,
          (case answer of
             Inr response \<Rightarrow> Ok \<lparr>rsp_status = 200, rsp_headers = [(''content-type'', ''application/octet-stream'')], rsp_body = response\<rparr>
           | Inl (Error m) \<Rightarrow> Ok \<lparr>rsp_status = 400, rsp_headers = [], rsp_body = ascii m\<rparr>
           | Inl (Panic m) \<Rightarrow> Err (Panic m))))"

definition read_tier_row :: "dir \<Rightarrow> string \<Rightarrow> nat \<Rightarrow> usize \<Rightarrow> bytes result" where
  "read_tier_row d name offset len =
     (case d name of
        None \<Rightarrow> Bail ''open failed''
      | Some f \<Rightarrow>
          if offset + len \<le> length f then Ok (take len (drop offset f)) else Bail ''failed to fill whole buffer'')"

section \<open>Serving state\<close>

record ('y, 'o) ServingState =
  ss_tier0_data :: bytes
  ss_tier1 :: "('y, 'o) TierServer"
  ss_tier1_scenario :: YpirScenario
  ss_metadata :: PirMetadata

definition TIER1_FILE :: string where
  "TIER1_FILE = ''tier1.bin''"

definition TIER1_PRECOMPUTE_FILE :: string where
  "TIER1_PRECOMPUTE_FILE = ''tier1.precompute''"

text \<open>The checks on the metadata, with the configured degree bound into the layout.\<close>

definition check_metadata :: "PirMetadata \<Rightarrow> ZcashNetwork \<Rightarrow> usize \<Rightarrow> (PirMetadata \<times> usize \<times> usize \<times> usize) result" where
  "check_metadata metadata expected_network degree =
     ensure (md_zcash_network metadata = expected_network) ''PIR dataset Zcash network''
     (ensure (is_current_dataset (md_nullifier_pool metadata) (md_dataset_version metadata)) ''unsupported nullifier dataset''
     (let metadata = metadata\<lparr>md_pir_layout := (md_pir_layout metadata)\<lparr>poly_len := degree\<rparr>\<rparr>;
          layout = md_pir_layout metadata
      in and_then (validate_supported layout) (\<lambda>_.
         and_then (tier1_rows layout) (\<lambda>layout_rows.
         and_then (tier1_row_bytes layout) (\<lambda>layout_row_bytes.
         and_then (Pir_Types.tier0_bytes layout) (\<lambda>expected_tier0_bytes.
         ensure (md_pir_depth metadata = pir_depth layout \<and> md_tier1_rows metadata = layout_rows \<and>
                 md_tier1_row_bytes metadata = layout_row_bytes \<and> md_tier0_bytes metadata = expected_tier0_bytes)
           ''PIR dataset layout mismatch''
           (Ok (metadata, layout_rows, layout_row_bytes, expected_tier0_bytes))))))))"

text \<open>The checks on \<^verbatim>\<open>tier0.bin\<close>: its size, its field elements and its root.\<close>

definition check_tier0 :: "'p::len itself \<Rightarrow> meta_codec \<Rightarrow> PirMetadata \<Rightarrow> usize \<Rightarrow> bytes \<Rightarrow> unit result" where
  "check_tier0 P C metadata expected_tier0_bytes tier0_data =
     ensure (length tier0_data = expected_tier0_bytes) ''tier0.bin size mismatch''
     (and_then (tier0_from_layout P tier0_data (md_pir_layout metadata)) (\<lambda>tier0.
      and_then (ok_or (hex_to C (md_pir_root metadata)) (Error ''decode metadata pir_root'')) (\<lambda>pir_root_bytes.
      ensure (length pir_root_bytes = 32) ''metadata pir_root has wrong length''
      (and_then (ok_or (from_repr pir_root_bytes :: 'p fp option)
                   (Error ''metadata pir_root is not a canonical field element'')) (\<lambda>metadata_pir_root.
      and_then (tier0_root tier0) (\<lambda>rt.
      ensure (rt = metadata_pir_root) ''tier0.bin root does not match metadata pir_root'' (Ok ())))))))"

definition load_serving_state_with_poly_len ::
  "'p::len itself \<Rightarrow> meta_codec \<Rightarrow> (bytes \<Rightarrow> bytes) \<Rightarrow> build_target \<Rightarrow> ('y, 'o) ypir_server \<Rightarrow> (dir \<Rightarrow> dir) \<Rightarrow>
   dir \<Rightarrow> ZcashNetwork \<Rightarrow> usize \<Rightarrow> dir \<times> ('y, 'o) ServingState result" where
  "load_serving_state_with_poly_len P C H T Y env d expected_network degree =
     (case
        and_then (ok_or (Option.bind (d root_file) (meta_from_json C)) (Error ''read pir_root.json'')) (\<lambda>metadata.
        and_then (check_metadata metadata expected_network degree) (\<lambda>(metadata, layout_rows, layout_row_bytes, expected_tier0_bytes).
        and_then (ok_or (d tier0_file) (Error ''read tier0.bin'')) (\<lambda>tier0_data.
        and_then (check_tier0 P C metadata expected_tier0_bytes tier0_data) (\<lambda>_.
        and_then (ok_or (d TIER1_FILE) (Error ''stat tier1.bin'')) (\<lambda>tier1.
        ensure (length tier1 = layout_rows * layout_row_bytes) ''tier1.bin size mismatch''
        (and_then (tier1_scenario_for_layout_with_poly_len (md_pir_layout metadata) degree) (\<lambda>tier1_scenario.
        Ok (metadata, tier0_data, tier1_scenario))))))))
      of
        Inl e \<Rightarrow> (d, Inl e)
      | Inr (metadata, tier0_data, tier1_scenario) \<Rightarrow>
          (case new_or_load H T Y env d TIER1_FILE tier1_scenario TIER1_PRECOMPUTE_FILE of
             (d, Inl e) \<Rightarrow> (d, Inl e)
           | (d, Inr ((server, offline), _)) \<Rightarrow>
               (d, Ok \<lparr>ss_tier0_data = tier0_data,
                       ss_tier1 = \<lparr>ts_server = server, ts_offline = offline, ts_scenario = tier1_scenario\<rparr>,
                       ss_tier1_scenario = tier1_scenario, ss_metadata = metadata\<rparr>)))"

definition load_serving_state ::
  "'p::len itself \<Rightarrow> meta_codec \<Rightarrow> (bytes \<Rightarrow> bytes) \<Rightarrow> build_target \<Rightarrow> ('y, 'o) ypir_server \<Rightarrow> (dir \<Rightarrow> dir) \<Rightarrow>
   dir \<Rightarrow> ZcashNetwork \<Rightarrow> dir \<times> ('y, 'o) ServingState result" where
  "load_serving_state P C H T Y env d expected_network =
     load_serving_state_with_poly_len P C H T Y env d expected_network DEFAULT_YPIR_POLY_LEN"

section \<open>Parsing and answering\<close>

text \<open>The dimensions the library expects, and that no product of them overflows.\<close>

definition pp_words :: "('y, 'o) ypir_server \<Rightarrow> YpirScenario \<Rightarrow> nat" where
  "pp_words Y scn = ys_poly_len_log2 Y scn * ys_t_exp_left Y scn * ys_poly_len Y scn"

definition dims_fit :: "('y, 'o) ypir_server \<Rightarrow> YpirScenario \<Rightarrow> bool" where
  "dims_fit Y scn \<longleftrightarrow>
     ys_db_rows_padded Y scn * 8 < 2 ^ 64 \<and> ys_poly_len_log2 Y scn * ys_t_exp_left Y scn < 2 ^ 64 \<and>
     pp_words Y scn * 8 < 2 ^ 64"

lemma parse_query_Ok_iff:
  assumes "dims_fit Y scn"
  shows "parse_query Y scn q = Inr (pqr, pp) \<longleftrightarrow>
    q = u64_to_le (word_of_nat (length pqr)) @ pqr @ pp \<and>
    length pqr = ys_db_rows_padded Y scn * 8 \<and> length pp = pp_words Y scn * 8" (is "?l \<longleftrightarrow> ?r")
proof -
  let ?rows = "ys_db_rows_padded Y scn" and ?a = "ys_poly_len_log2 Y scn * ys_t_exp_left Y scn"
  have fit: "?rows * 8 < 2 ^ 64" "?a < 2 ^ 64" "?a * ys_poly_len Y scn * 8 < 2 ^ 64"
    using assms by (simp_all add: dims_fit_def pp_words_def)
  then have "?a * ys_poly_len Y scn < 2 ^ 64" by linarith
  with fit have mul: "checked_mul ?rows 8 = Some (?rows * 8)" "checked_mul (ys_poly_len_log2 Y scn) (ys_t_exp_left Y scn) = Some ?a"
    "checked_mul ?a (ys_poly_len Y scn) = Some (pp_words Y scn)" "checked_mul (pp_words Y scn) 8 = Some (pp_words Y scn * 8)"
    by (simp_all add: checked_mul_def USIZE_BITS_def pp_words_def)
  have l: "?l \<longleftrightarrow> 8 \<le> length q \<and> unat (u64_from_le (take 8 q)) = ?rows * 8 \<and> ?rows * 8 \<le> length (drop 8 q) \<and>
      length (drop (?rows * 8) (drop 8 q)) = pp_words Y scn * 8 \<and> pqr = take (?rows * 8) (drop 8 q) \<and> pp = drop (?rows * 8) (drop 8 q)"
    by (auto simp: parse_query_def U64_BYTES_def Let_def mul result_simps)
  show ?thesis
  proof
    assume ?l
    with l have q: "8 \<le> length q" and n: "unat (u64_from_le (take 8 q)) = ?rows * 8"
      and len: "?rows * 8 \<le> length (drop 8 q)" "length (drop (?rows * 8) (drop 8 q)) = pp_words Y scn * 8"
      and s: "pqr = take (?rows * 8) (drop 8 q)" "pp = drop (?rows * 8) (drop 8 q)" by blast+
    have "word_of_nat (?rows * 8) = u64_from_le (take 8 q)"
      using arg_cong [OF n, of "word_of_nat :: nat \<Rightarrow> u64"] by simp
    then have "u64_to_le (word_of_nat (?rows * 8)) = take 8 q"
      using q u64_to_from [of "take 8 q"] by simp
    moreover have lp: "length pqr = ?rows * 8" using s len by simp
    ultimately show ?r
      using s len(2) q by (metis append_take_drop_id)
  next
    assume r: ?r
    then have "unat (word_of_nat (length pqr) :: u64) = ?rows * 8"
      using fit(1) unat_of_nat [of "length pqr", where 'a = 64] by (simp del: of_nat_mult)
    with r l show ?l by simp
  qed
qed

text \<open>The server reads back the words the client serialized.\<close>

lemma parse_serialized:
  assumes "dims_fit Y scn" "length pqr = ys_db_rows_padded Y scn" "length pp = pp_words Y scn"
  shows "parse_query Y scn (serialize_ypir_query pqr pp) = Ok (concat (map u64_to_le pqr), concat (map u64_to_le pp))"
  unfolding parse_query_Ok_iff [OF assms(1)]
  using assms by (simp add: serialize_ypir_query_def Let_def U64_BYTES_def u64_codec.length_concat_enc mult.commute)

lemma aligned64_words:
  "ws \<noteq> [] \<Longrightarrow> aligned64 (concat (map u64_to_le ws)) = Ok ws"
  by (simp add: aligned64_def U64_BYTES_def u64_codec.length_concat_enc u64_codec.chunks_concat_enc comp_def)

lemma answer_serialized:
  assumes "dims_fit Y (ts_scenario ts)" "length pqr = ys_db_rows_padded Y (ts_scenario ts)"
    and "length pp = pp_words Y (ts_scenario ts)" "pqr \<noteq> []" "pp \<noteq> []"
  shows "answer_query Y ts (serialize_ypir_query pqr pp) =
    Ok (ys_online Y (ts_scenario ts) (ts_server ts) (ts_offline ts) pqr pp)"
  using parse_serialized [OF assms(1-3)] assms(4,5) by (simp add: answer_query_def aligned64_words)

lemma words_of_bytes:
  assumes "length bs = n * 8"
  obtains ws where "bs = concat (map u64_to_le ws)" "length ws = n"
proof
  let ?cs = "chunks_exact 8 bs"
  have "concat ?cs = bs" using assms by (intro concat_chunks_exact) simp_all
  moreover have "map u64_to_le (map u64_from_le ?cs) = ?cs"
    by (simp add: comp_def) (rule map_idI, simp add: u64_to_from chunks_exact_lengths)
  ultimately show "bs = concat (map u64_to_le (map u64_from_le ?cs))" by simp
  show "length (map u64_from_le ?cs) = n" using assms by (simp add: length_chunks_exact)
qed

text \<open>No request body makes the handler panic.\<close>

lemma parse_query_no_panic: "parse_query Y scn q \<noteq> Inl (Panic m)"
  by (auto simp: parse_query_def Let_def ensure_def ok_or_def split: option.splits)

lemma answer_query_cases:
  assumes "dims_fit Y (ts_scenario ts)" "0 < ys_db_rows_padded Y (ts_scenario ts)" "0 < pp_words Y (ts_scenario ts)"
  shows "(\<exists>m. answer_query Y ts q = Bail m) \<or>
    (\<exists>pqr pp. q = serialize_ypir_query pqr pp \<and> length pqr = ys_db_rows_padded Y (ts_scenario ts) \<and>
       length pp = pp_words Y (ts_scenario ts) \<and>
       answer_query Y ts q = Ok (ys_online Y (ts_scenario ts) (ts_server ts) (ts_offline ts) pqr pp))"
proof (cases "parse_query Y (ts_scenario ts) q")
  case (Inl e)
  then show ?thesis
    using parse_query_no_panic by (cases e) (auto simp: answer_query_def)
next
  case (Inr x)
  obtain bp bq where x: "x = (bp, bq)" by (cases x)
  have q: "q = u64_to_le (word_of_nat (length bp)) @ bp @ bq" "length bp = ys_db_rows_padded Y (ts_scenario ts) * 8"
    "length bq = pp_words Y (ts_scenario ts) * 8"
    using Inr parse_query_Ok_iff [OF assms(1), of q bp bq] by (simp_all add: x)
  obtain pqr where pqr: "bp = concat (map u64_to_le pqr)" "length pqr = ys_db_rows_padded Y (ts_scenario ts)"
    using words_of_bytes [OF q(2)] by blast
  obtain pp where pp: "bq = concat (map u64_to_le pp)" "length pp = pp_words Y (ts_scenario ts)"
    using words_of_bytes [OF q(3)] by blast
  have "q = serialize_ypir_query pqr pp"
    by (simp add: q(1) pqr pp serialize_ypir_query_def Let_def U64_BYTES_def u64_codec.length_concat_enc mult.commute)
  moreover have "pqr \<noteq> []" "pp \<noteq> []" using pqr(2) pp(2) assms(2,3) by auto
  ultimately show ?thesis
    using answer_serialized [OF assms(1) pqr(2) pp(2)] pqr(2) pp(2) by blast
qed

lemma dispatch_query_counters:
  "next_req_id (fst (dispatch_query Y ts body ctr)) = next_req_id ctr + 1"
  "inflight_requests (fst (dispatch_query Y ts body ctr)) = inflight_requests ctr"
  by (simp_all add: dispatch_query_def Let_def)

lemma dispatch_query_Ok:
  "answer_query Y ts body = Ok response \<Longrightarrow>
     \<exists>resp. snd (dispatch_query Y ts body ctr) = Ok resp \<and> rsp_status resp = 200 \<and> rsp_body resp = response"
  by (simp add: dispatch_query_def Let_def)

section \<open>Loading an exported snapshot\<close>

lemma scenario_supported:
  assumes "supported L" "degree = 2048 \<or> degree = 4096"
  shows "tier1_scenario_for_layout_with_poly_len L degree =
    Ok \<lparr>num_items = 2 ^ tier0_layers L, item_size_bits = 2 ^ tier1_layers L * 768, scn_poly_len = degree\<rparr>"
  using assms
  by (simp add: tier1_scenario_for_layout_with_poly_len_def validate_supported_iff [THEN iffD2] supported_geometry [OF assms(1)])

text \<open>The configured degree replaces the layout's; the tier blobs do not depend on it.\<close>

lemma poly_len_irrelevant [simp]:
  "tier0_of P ranges (L\<lparr>poly_len := degree\<rparr>) = tier0_of P ranges L"
  "tier1_of ranges (L\<lparr>poly_len := degree\<rparr>) = tier1_of ranges L"
  "min_key_of ranges (L\<lparr>poly_len := degree\<rparr>) = min_key_of ranges L"
proof -
  show min: "min_key_of ranges (L\<lparr>poly_len := degree\<rparr>) = min_key_of ranges L" by (rule ext) (simp add: min_key_of_def)
  show "tier0_of P ranges (L\<lparr>poly_len := degree\<rparr>) = tier0_of P ranges L" by (simp add: tier0_of_def min)
  show "tier1_of ranges (L\<lparr>poly_len := degree\<rparr>) = tier1_of ranges L" by (simp add: tier1_of_def)
qed

lemma supported_degree:
  "supported L \<Longrightarrow> degree = 2048 \<or> degree = 4096 \<Longrightarrow> supported (L\<lparr>poly_len := degree\<rparr>)"
  by (simp add: supported_def)

text \<open>What a server needs of its metadata and tier files: the snapshot of \<open>ranges\<close> on disk.\<close>

definition snapshot_on_disk ::
  "meta_codec \<Rightarrow> 'p::len poseidon_constants \<Rightarrow> 'p fp3 list \<Rightarrow> ZcashNetwork \<Rightarrow> u64 option \<Rightarrow> PirLayout \<Rightarrow> dir \<Rightarrow> bool" where
  "snapshot_on_disk C P ranges network height L d \<longleftrightarrow>
     Option.bind (d root_file) (meta_from_json C) = Some (snapshot_meta C P ranges network height L) \<and>
     d tier0_file = Some (tier0_of P ranges L) \<and> d tier1_file = Some (tier1_of ranges L)"

definition served_meta ::
  "meta_codec \<Rightarrow> 'p::len poseidon_constants \<Rightarrow> 'p fp3 list \<Rightarrow> ZcashNetwork \<Rightarrow> u64 option \<Rightarrow> PirLayout \<Rightarrow> usize \<Rightarrow> PirMetadata" where
  "served_meta C P ranges network height L degree = snapshot_meta C P ranges network height (L\<lparr>poly_len := degree\<rparr>)"

definition layout_scenario :: "PirLayout \<Rightarrow> usize \<Rightarrow> YpirScenario" where
  "layout_scenario L degree =
     \<lparr>num_items = 2 ^ tier0_layers L, item_size_bits = 2 ^ tier1_layers L * 768, scn_poly_len = degree\<rparr>"

lemma check_metadata_snapshot:
  assumes "supported L" "degree = 2048 \<or> degree = 4096"
  shows "check_metadata (snapshot_meta C P ranges network height L) network degree =
    Ok (served_meta C P ranges network height L degree, 2 ^ tier0_layers L, 2 ^ tier1_layers L * 96,
        (2 ^ tier0_layers L - 1) * 32 + 2 ^ tier0_layers L * 64)"
proof -
  let ?L = "L\<lparr>poly_len := degree\<rparr>"
  have s: "supported ?L" using assms by (rule supported_degree)
  show ?thesis
    using supported_geometry [OF s] s
    by (simp add: check_metadata_def Let_def snapshot_meta_def export_metadata_def served_meta_def is_current_dataset_def
        validate_supported_iff [THEN iffD2])
qed

lemma check_tier0_snapshot:
  assumes "supported L" "degree = 2048 \<or> degree = 4096"
    and "hex_to C (hex_of C (to_repr (pt_pir_root (pir_tree_of P ranges)))) = Some (to_repr (pt_pir_root (pir_tree_of P ranges)))"
  shows "check_tier0 TYPE('p::len) C (served_meta C (P :: 'p poseidon_constants) ranges network height L degree)
    ((2 ^ tier0_layers L - 1) * 32 + 2 ^ tier0_layers L * 64) (tier0_of P ranges L) = Ok ()"
proof -
  let ?L = "L\<lparr>poly_len := degree\<rparr>"
  have s: "supported ?L" using assms(1,2) by (rule supported_degree)
  have l0: "0 < tier0_layers L" using assms(1) by (simp add: supported_def)
  have rt: "tier0_root (tier0_view P ranges L) = Ok (pt_pir_root (pir_tree_of P ranges))"
    using tier0_root_parsed [OF l0, of "top_node P (commit_punctured_ranges P ranges)" "min_key_of ranges L"]
    by (simp add: pir_tree_of_def Let_def del: subroot.simps)
  show ?thesis
    using assms(3) rt tier0_of_parses [OF s, of P ranges]
    by (simp add: check_tier0_def length_tier0_of served_meta_def snapshot_meta_def export_metadata_def)
qed

lemma tier1_file_names: "TIER1_FILE = tier1_file" "with_extension TIER1_PRECOMPUTE_FILE ''precompute.tmp'' \<noteq> TIER1_PRECOMPUTE_FILE"
  "TIER1_PRECOMPUTE_FILE = cache_path_for_tier TIER1_FILE"
  by (simp_all add: TIER1_FILE_def tier1_file_def TIER1_PRECOMPUTE_FILE_def with_extension_def file_stem_def cache_path_for_tier_def)

lemma load_serving_state_snapshot:
  assumes "snapshot_on_disk C P ranges network height L d" "supported L" "degree = 2048 \<or> degree = 4096"
    and "hex_to C (hex_of C (to_repr (pt_pir_root (pir_tree_of P ranges)))) = Some (to_repr (pt_pir_root (pir_tree_of P ranges)))"
    and "new_or_load H T Y env d TIER1_FILE (layout_scenario L degree) TIER1_PRECOMPUTE_FILE = (d', Ok ((s, f), hit))"
  shows "load_serving_state_with_poly_len TYPE('p::len) C H T Y env d network degree =
    (d', Ok \<lparr>ss_tier0_data = tier0_of (P :: 'p poseidon_constants) ranges L,
             ss_tier1 = \<lparr>ts_server = s, ts_offline = f, ts_scenario = layout_scenario L degree\<rparr>,
             ss_tier1_scenario = layout_scenario L degree,
             ss_metadata = served_meta C P ranges network height L degree\<rparr>)"
proof -
  have s: "supported (L\<lparr>poly_len := degree\<rparr>)" using assms(2,3) by (rule supported_degree)
  have lay: "md_pir_layout (served_meta C P ranges network height L degree) = L\<lparr>poly_len := degree\<rparr>"
    by (simp add: served_meta_def snapshot_meta_def export_metadata_def)
  have scn: "tier1_scenario_for_layout_with_poly_len (L\<lparr>poly_len := degree\<rparr>) degree = Ok (layout_scenario L degree)"
    using scenario_supported [OF s assms(3)] by (simp add: layout_scenario_def)
  show ?thesis
    using assms(1,5)
    by (simp add: load_serving_state_with_poly_len_def snapshot_on_disk_def check_metadata_snapshot [OF assms(2,3)]
        check_tier0_snapshot [OF assms(2-4)] tier1_file_names(1) length_tier1_of lay scn
        del: One_nat_def)
qed

end
