(* ===== verification/Serve.thy ===== *)
theory Serve
  imports Pir_Server Sync Watchdog
begin

text \<open>
  The HTTP server of \<^verbatim>\<open>nf-server serve\<close>: the shared state (\<^verbatim>\<open>serve/state.rs\<close>), the handlers
  (\<^verbatim>\<open>serve/handlers.rs\<close>) and the start-up task of \<^verbatim>\<open>cmd_serve.rs\<close> as a step relation whose
  steps interleave with requests. JSON printing is the parameter \<open>W\<close>.
  The lemmas show that a server that reports ready has a loaded snapshot, that its height is
  the served height of the gauges, that the lock is held exactly while the task runs, and
  that the in-flight counter is restored.
\<close>

datatype ServerPhase =
    Starting string
  | Serving
  | Rebuilding u64 string u8
  | PhaseError string

text \<open>
  \<open>AppState\<close>: the lock is whether it is held, the data directory is its contents, and the two
  atomics are the record of counters. The last two fields belong to the process: the
  global gauges, and the tick and threshold of the watchdog loop once it is spawned.
\<close>

record ('y, 'o) AppState =
  phase :: ServerPhase
  serving :: "('y, 'o) ServingState option"
  rebuild_lock :: bool
  pir_data_dir :: dir
  zcash_network :: ZcashNetwork
  pir_poly_len :: usize
  lwd_urls :: "string list"
  chain_url :: "string option"
  ctrs :: counters
  process_gauges :: gauges
  watchdog_loop :: "(duration \<times> duration) option"

record server_json =
  root_to_json :: "RootInfo \<Rightarrow> bytes"
  scenario_to_json :: "YpirScenario \<Rightarrow> bytes"
  health_to_json :: "HealthInfo \<Rightarrow> bytes"
  phase_to_json :: "ServerPhase \<Rightarrow> bytes"
  ok_to_json :: bytes
  gone_to_json :: bytes

definition respond :: "u16 \<Rightarrow> string \<Rightarrow> bytes \<Rightarrow> TransportResponse" where
  "respond status content_type body =
     \<lparr>rsp_status = status, rsp_headers = [(''content-type'', content_type)], rsp_body = body\<rparr>"

section \<open>Handlers\<close>

text \<open>The macro \<open>require_serving!\<close>: 503 with the phase unless a snapshot is loaded.\<close>

definition require_serving ::
  "server_json \<Rightarrow> ('y, 'o) AppState \<Rightarrow> (('y, 'o) ServingState \<Rightarrow> TransportResponse) \<Rightarrow> TransportResponse" where
  "require_serving W st k =
     (case serving st of
        None \<Rightarrow> respond 503 ''application/json'' (phase_to_json W (phase st))
      | Some s \<Rightarrow> k s)"

definition get_tier0 :: "server_json \<Rightarrow> ('y, 'o) AppState \<Rightarrow> TransportResponse" where
  "get_tier0 W st = require_serving W st (\<lambda>s. respond 200 ''application/octet-stream'' (ss_tier0_data s))"

definition get_params_tier1 :: "server_json \<Rightarrow> ('y, 'o) AppState \<Rightarrow> TransportResponse" where
  "get_params_tier1 W st =
     require_serving W st (\<lambda>s. respond 200 ''application/json'' (scenario_to_json W (ss_tier1_scenario s)))"

text \<open>The body limit of the router answers 413 before the handler runs.\<close>

definition post_tier1_query ::
  "('y, 'o) ypir_server \<Rightarrow> server_json \<Rightarrow> ('y, 'o) AppState \<Rightarrow> bytes \<Rightarrow> ('y, 'o) AppState \<times> TransportResponse result" where
  "post_tier1_query Y W st body =
     (if length body > MAX_QUERY_BODY_BYTES then (st, Ok (respond 413 ''text/plain'' []))
      else
        (case serving st of
           None \<Rightarrow> (st, Ok (respond 503 ''application/json'' (phase_to_json W (phase st))))
         | Some s \<Rightarrow>
             let (ctr, resp) = dispatch_query Y (ss_tier1 s) body (ctrs st)
             in (st\<lparr>ctrs := ctr\<rparr>, resp)))"

definition get_tier_row :: "server_json \<Rightarrow> ('y, 'o) AppState \<Rightarrow> usize \<Rightarrow> string \<Rightarrow> usize \<Rightarrow> usize \<Rightarrow> TransportResponse" where
  "get_tier_row W st idx filename num_rows row_bytes =
     require_serving W st (\<lambda>_.
       if idx \<ge> num_rows then respond 404 ''text/plain'' (ascii ''row index out of range'')
       else
         (case read_tier_row (pir_data_dir st) filename (idx * row_bytes) row_bytes of
            Inr row \<Rightarrow> respond 200 ''application/octet-stream'' row
          | Inl _ \<Rightarrow> respond 500 ''text/plain'' (ascii ''read error'')))"

definition get_tier1_row :: "server_json \<Rightarrow> ('y, 'o) AppState \<Rightarrow> usize \<Rightarrow> TransportResponse" where
  "get_tier1_row W st idx =
     require_serving W st (\<lambda>s.
       get_tier_row W st idx ''tier1.bin'' (md_tier1_rows (ss_metadata s)) (md_tier1_row_bytes (ss_metadata s)))"

definition root_info :: "PirMetadata \<Rightarrow> YpirScenario \<Rightarrow> RootInfo" where
  "root_info m scenario =
     (\<lparr>ri_zcash_network = md_zcash_network m, ri_nullifier_pool = md_nullifier_pool m,
          ri_dataset_version = md_dataset_version m, ri_circuit_root = md_circuit_root m,
          ri_pir_root = md_pir_root m, ri_num_ranges = md_num_ranges m,
          ri_pir_layout = (md_pir_layout m)\<lparr>poly_len := scn_poly_len scenario\<rparr>,
          ri_pir_depth = md_pir_depth m, ri_tier1_rows = md_tier1_rows m,
          ri_tier1_row_bytes = md_tier1_row_bytes m, ri_height = md_height m\<rparr>)"

definition get_root :: "server_json \<Rightarrow> ('y, 'o) AppState \<Rightarrow> TransportResponse" where
  "get_root W st = require_serving W st (\<lambda>s. respond 200 ''application/json'' (root_to_json W (root_info (ss_metadata s) (ss_tier1_scenario s))))"

fun phase_status :: "ServerPhase \<Rightarrow> string" where
  "phase_status (Starting _) = ''starting''"
| "phase_status Serving = ''ok''"
| "phase_status (Rebuilding _ _ _) = ''rebuilding''"
| "phase_status (PhaseError _) = ''error''"

definition get_health :: "server_json \<Rightarrow> ('y, 'o) AppState \<Rightarrow> TransportResponse" where
  "get_health W st =
     respond 200 ''application/json''
       (health_to_json W
         \<lparr>hi_status = phase_status (phase st),
          hi_tier1_rows = (case serving st of None \<Rightarrow> 0 | Some s \<Rightarrow> num_items (ss_tier1_scenario s)),
          hi_tier1_row_bytes = (case serving st of None \<Rightarrow> 0 | Some s \<Rightarrow> md_tier1_row_bytes (ss_metadata s))\<rparr>)"

definition get_ready :: "server_json \<Rightarrow> ('y, 'o) AppState \<Rightarrow> TransportResponse" where
  "get_ready W st =
     (case phase st of
        Serving \<Rightarrow> respond 200 ''application/json'' (ok_to_json W)
      | _ \<Rightarrow> respond 503 ''application/json'' (phase_to_json W (phase st)))"

definition post_snapshot_prepare :: "server_json \<Rightarrow> TransportResponse" where
  "post_snapshot_prepare W = respond 410 ''application/json'' (gone_to_json W)"

section \<open>Start-up\<close>

definition parse_pir_poly_len :: "string \<Rightarrow> usize result" where
  "parse_pir_poly_len value =
     (case parse_u64 value of
        Some n \<Rightarrow> if n = 2048 \<or> n = 4096 then Ok n else Bail ''YPIR polynomial degree must be 2048 or 4096''
      | None \<Rightarrow> Bail ''YPIR polynomial degree must be 2048 or 4096'')"

record serve_args =
  sv_zcash_network :: ZcashNetwork
  sv_port :: u16
  sv_pir_poly_len :: usize
  sv_lwd_url :: string
  sv_chain_url :: "string option"
  sv_pir_config_url :: "string option"
  sv_voting_config_url :: string
  sv_precomputed_base_url :: string
  sv_bootstrap_timeout_secs :: u64
  sv_force_snapshot_height :: "u64 option"
  sv_stale_threshold_secs :: u64
  sv_watchdog_tick_secs :: u64
  sv_sentry_dsn :: string

definition no_gauges :: gauges where
  "no_gauges = \<lparr>g_served = 0, g_expected = 0, g_stale_seconds = 0\<rparr>"

text \<open>
  The state before the start-up task runs, with the environment variable \<open>LWD_URLS\<close>. The
  lock is taken for the task before it is spawned.
\<close>

definition initial_state :: "serve_args \<Rightarrow> string option \<Rightarrow> dir \<Rightarrow> ('y, 'o) AppState" where
  "initial_state args lwd_env d =
     \<lparr>phase = Starting ''initializing'', serving = None, rebuild_lock = True, pir_data_dir = d, zcash_network = sv_zcash_network args,
      pir_poly_len = sv_pir_poly_len args, lwd_urls = resolve_lwd_urls_with_override (sv_lwd_url args) lwd_env,
      chain_url = (case sv_chain_url args of None \<Rightarrow> None | Some u \<Rightarrow> if trim u = [] then None else Some (trim u)),
      ctrs = \<lparr>next_req_id = 0, inflight_requests = 0\<rparr>, process_gauges = no_gauges, watchdog_loop = None\<rparr>"

text \<open>The loop is spawned with a threshold and a Sentry DSN; it ticks at least once per threshold.\<close>

definition watchdog_settings :: "serve_args \<Rightarrow> (duration \<times> duration) option" where
  "watchdog_settings args =
     (let dsn_configured = trim (sv_sentry_dsn args) \<noteq> []
      in if sv_stale_threshold_secs args > 0 \<and> dsn_configured
         then (let threshold = unat (sv_stale_threshold_secs args) * 1000000000;
                   raw_tick = unat (max (sv_watchdog_tick_secs args) 1) * 1000000000
               in Some (min raw_tick threshold, threshold))
         else None)"

text \<open>Where the task is; every write of a lock is a step of its own.\<close>

datatype boot_pc = BootInit | BootIndex | BootSnapshot | BootLoad | BootPublish | BootDone

text \<open>
  What the task captured: the arguments, and \<open>bootstrap\<close>, the download of a snapshot, which may
  fail and may change the directory and the gauges.
\<close>

record boot_env =
  be_args :: serve_args
  be_bootstrap :: "dir \<times> gauges \<Rightarrow> (dir \<times> gauges) \<times> unit result"

text \<open>
  \<open>boot_step\<close>: the task of \<open>cmd_serve::run\<close>. It holds the lock until it returns. A failed stage
  and a panic in its blocking thread end the same way. \<open>serve_step\<close> interleaves it with queries.
\<close>

inductive boot_step ::
  "'p::len itself \<Rightarrow> meta_codec \<Rightarrow> (bytes \<Rightarrow> bytes) \<Rightarrow> build_target \<Rightarrow> ('y, 'o) ypir_server \<Rightarrow> boot_env \<Rightarrow>
   boot_pc \<times> ('y, 'o) AppState \<Rightarrow> boot_pc \<times> ('y, 'o) AppState \<Rightarrow> bool"
  for P :: "'p::len itself" and C :: meta_codec and H :: "bytes \<Rightarrow> bytes" and T :: build_target
    and Y :: "('y, 'o) ypir_server" and E :: boot_env where
  init: "boot_step P C H T Y E (BootInit, st) (BootIndex, st\<lparr>phase := Starting ''rebuilding nullifier index''\<rparr>)"
| index_ok: "rebuild_index (pir_data_dir st) = Inr d \<Longrightarrow>
     boot_step P C H T Y E (BootIndex, st)
       (BootSnapshot, st\<lparr>phase := Starting ''snapshot bootstrap'', pir_data_dir := d\<rparr>)"
| index_failed: "rebuild_index (pir_data_dir st) = Inl e \<Longrightarrow>
     boot_step P C H T Y E (BootIndex, st)
       (BootDone, st\<lparr>phase := PhaseError ''startup index rebuild failed'', rebuild_lock := False\<rparr>)"
| bootstrap_ok: "be_bootstrap E (pir_data_dir st, process_gauges st) = ((d, g), Inr u) \<Longrightarrow>
     boot_step P C H T Y E (BootSnapshot, st)
       (BootLoad, st\<lparr>phase := Starting ''loading tier files'', pir_data_dir := d, process_gauges := g\<rparr>)"
| bootstrap_failed: "be_bootstrap E (pir_data_dir st, process_gauges st) = ((d, g), Inl e) \<Longrightarrow>
     boot_step P C H T Y E (BootSnapshot, st)
       (BootDone, st\<lparr>phase := PhaseError ''snapshot bootstrap hard error'', pir_data_dir := d, process_gauges := g, rebuild_lock := False\<rparr>)"
| load_ok: "load_serving_state_with_poly_len P C H T Y env (pir_data_dir st) (zcash_network st) (pir_poly_len st) = (d, Inr ss) \<Longrightarrow>
     boot_step P C H T Y E (BootLoad, st)
       (BootPublish, st\<lparr>serving := Some ss, pir_data_dir := d,
          process_gauges := (case md_height (ss_metadata ss) of
             None \<Rightarrow> process_gauges st | Some h \<Rightarrow> served_height_set h (process_gauges st))\<rparr>)"
| load_failed: "load_serving_state_with_poly_len P C H T Y env (pir_data_dir st) (zcash_network st) (pir_poly_len st) = (d, Inl e) \<Longrightarrow>
     boot_step P C H T Y E (BootLoad, st)
       (BootDone, st\<lparr>phase := PhaseError ''initial load failed'', pir_data_dir := d, rebuild_lock := False\<rparr>)"
| publish: "boot_step P C H T Y E (BootPublish, st)
     (BootDone, st\<lparr>phase := Serving, watchdog_loop := watchdog_settings (be_args E), rebuild_lock := False\<rparr>)"

inductive serve_step ::
  "'p::len itself \<Rightarrow> meta_codec \<Rightarrow> (bytes \<Rightarrow> bytes) \<Rightarrow> build_target \<Rightarrow> ('y, 'o) ypir_server \<Rightarrow> boot_env \<Rightarrow>
   server_json \<Rightarrow> boot_pc \<times> ('y, 'o) AppState \<Rightarrow> boot_pc \<times> ('y, 'o) AppState \<Rightarrow> bool"
  for P C H T Y E W where
  boot: "boot_step P C H T Y E s s' \<Longrightarrow> serve_step P C H T Y E W s s'"
| query: "serve_step P C H T Y E W (pc, st) (pc, fst (post_tier1_query Y W st body))"

section \<open>What a loaded server guarantees\<close>

definition serving_wf :: "'p::len itself \<Rightarrow> meta_codec \<Rightarrow> ZcashNetwork \<Rightarrow> usize \<Rightarrow> ('y, 'o) ServingState \<Rightarrow> bool" where
  "serving_wf P C network degree ss \<longleftrightarrow>
     (let m = ss_metadata ss; L = md_pir_layout m
      in supported L \<and> poly_len L = degree \<and> md_zcash_network m = network \<and>
         is_current_dataset (md_nullifier_pool m) (md_dataset_version m) \<and>
         md_pir_depth m = pir_depth L \<and> md_tier1_rows m = 2 ^ tier0_layers L \<and>
         md_tier1_row_bytes m = 2 ^ tier1_layers L * 96 \<and>
         ss_tier1_scenario ss = layout_scenario L degree \<and> ts_scenario (ss_tier1 ss) = layout_scenario L degree \<and>
         (\<exists>t rt. tier0_from_layout P (ss_tier0_data ss) L = Ok t \<and> tier0_root t = Ok (rt :: 'p fp) \<and>
                 hex_to C (md_pir_root m) = Some (to_repr rt)))"

lemma load_serving_wf:
  assumes "load_serving_state_with_poly_len TYPE('p::len) C H T Y env d network degree = (d', Inr ss)"
  shows "serving_wf TYPE('p) C network degree ss"
proof -
  from assms obtain md m rows rb n0 t0 t1 scn where
    m: "check_metadata md network degree = Ok (m, rows, rb, n0)" and
    t0: "check_tier0 TYPE('p) C m n0 t0 = Ok ()" and
    scn: "tier1_scenario_for_layout_with_poly_len (md_pir_layout m) degree = Ok scn" and
    ss: "ss_metadata ss = m" "ss_tier0_data ss = t0" "ss_tier1_scenario ss = scn" "ts_scenario (ss_tier1 ss) = scn"
    by (auto simp: load_serving_state_with_poly_len_def result_simps split: sum.splits prod.splits)
  from m have s: "supported (md_pir_layout m)" and p: "poly_len (md_pir_layout m) = degree"
    by (auto simp: check_metadata_def Let_def result_simps validate_supported_iff)
  from m s have f: "md_zcash_network m = network" "is_current_dataset (md_nullifier_pool m) (md_dataset_version m)"
    "md_pir_depth m = pir_depth (md_pir_layout m)" "md_tier1_rows m = 2 ^ tier0_layers (md_pir_layout m)"
    "md_tier1_row_bytes m = 2 ^ tier1_layers (md_pir_layout m) * 96"
    by (auto simp: check_metadata_def Let_def result_simps supported_geometry)
  have d: "degree = 2048 \<or> degree = 4096" using s p by (auto simp: supported_def)
  from scn scenario_supported [OF s d] have "scn = layout_scenario (md_pir_layout m) degree"
    by (simp add: layout_scenario_def)
  moreover from t0 have "\<exists>t rt. tier0_from_layout TYPE('p) t0 (md_pir_layout m) = Ok t \<and> tier0_root t = Ok (rt :: 'p fp) \<and>
      hex_to C (md_pir_root m) = Some (to_repr rt)"
    by (auto simp: check_tier0_def result_simps dest!: to_from_repr)
  ultimately show ?thesis
    using s p f ss by (simp add: serving_wf_def Let_def)
qed

text \<open>
  The invariant of the running server: a snapshot is loaded whenever the phase says so,
  every loaded snapshot passed the checks, its height is the served height of the gauges,
  the lock is held exactly while the task runs, the watchdog runs once the server serves,
  and no request is left in flight.
\<close>

definition serve_inv ::
  "'p::len itself \<Rightarrow> meta_codec \<Rightarrow> serve_args \<Rightarrow> boot_pc \<times> ('y, 'o) AppState \<Rightarrow> bool" where
  "serve_inv P C args s \<longleftrightarrow>
     (case s of (pc, st) \<Rightarrow>
        zcash_network st = sv_zcash_network args \<and> pir_poly_len st = sv_pir_poly_len args \<and> inflight_requests (ctrs st) = 0 \<and>
        (rebuild_lock st \<longleftrightarrow> pc \<noteq> BootDone) \<and>
        (phase st = Serving \<longrightarrow> pc = BootDone \<and> serving st \<noteq> None) \<and>
        watchdog_loop st = (if phase st = Serving then watchdog_settings args else None) \<and>
        (pc = BootPublish \<longrightarrow> serving st \<noteq> None) \<and>
        (serving st \<noteq> None \<longrightarrow> pc = BootPublish \<or> pc = BootDone) \<and>
        (\<forall>ss. serving st = Some ss \<longrightarrow> serving_wf P C (sv_zcash_network args) (sv_pir_poly_len args) ss \<and>
           (\<forall>h. md_height (ss_metadata ss) = Some h \<longrightarrow> g_served (process_gauges st) = h)))"

lemma post_tier1_query_frame:
  "phase (fst (post_tier1_query Y W st body)) = phase st"
  "serving (fst (post_tier1_query Y W st body)) = serving st"
  "pir_data_dir (fst (post_tier1_query Y W st body)) = pir_data_dir st"
  "zcash_network (fst (post_tier1_query Y W st body)) = zcash_network st"
  "pir_poly_len (fst (post_tier1_query Y W st body)) = pir_poly_len st"
  "rebuild_lock (fst (post_tier1_query Y W st body)) = rebuild_lock st"
  "process_gauges (fst (post_tier1_query Y W st body)) = process_gauges st"
  "watchdog_loop (fst (post_tier1_query Y W st body)) = watchdog_loop st"
  "inflight_requests (ctrs (fst (post_tier1_query Y W st body))) = inflight_requests (ctrs st)"
  by (simp_all add: post_tier1_query_def case_prod_unfold Let_def dispatch_query_counters split: option.splits)

lemma boot_step_inv:
  "boot_step TYPE('p::len) C H T Y E s s' \<Longrightarrow> serve_inv TYPE('p) C (be_args E) s \<Longrightarrow>
     serve_inv TYPE('p) C (be_args E) s'"
  by (induction rule: boot_step.induct) (auto simp: serve_inv_def served_height_set_def dest: load_serving_wf split: option.splits)

lemma serve_step_inv:
  "serve_step TYPE('p::len) C H T Y E W s s' \<Longrightarrow> serve_inv TYPE('p) C (be_args E) s \<Longrightarrow>
     serve_inv TYPE('p) C (be_args E) s'"
proof (induction rule: serve_step.induct)
  case (boot s s')
  then show ?case by (rule boot_step_inv)
next
  case (query pc st body)
  then show ?case by (simp add: serve_inv_def post_tier1_query_frame)
qed

interpretation serving_run: step_invariant "serve_step TYPE('p::len) C H T Y E W" "serve_inv TYPE('p) C (be_args E)"
  by unfold_locales (rule serve_step_inv)

lemma serve_reachable_inv:
  assumes "(serve_step TYPE('p::len) C H T Y E W)\<^sup>*\<^sup>* (BootInit, initial_state (be_args E) lwd_env d) s"
  shows "serve_inv TYPE('p) C (be_args E) s"
  by (rule serving_run.reachable_inv [OF assms]) (simp add: serve_inv_def initial_state_def)

text \<open>A start in which every stage succeeds.\<close>

lemma boot_run:
  fixes P :: "'p::len itself"
  assumes "rebuild_index d = Inr d1" "be_bootstrap E (d1, no_gauges) = ((d2, g), Inr ())"
    and "load_serving_state_with_poly_len P C H T Y env d2 (sv_zcash_network (be_args E)) (sv_pir_poly_len (be_args E)) = (d3, Inr ss)"
  shows "(serve_step P C H T Y E W)\<^sup>*\<^sup>* (BootInit, initial_state (be_args E) lwd_env d)
     (BootDone, (initial_state (be_args E) lwd_env d3)\<lparr>phase := Serving, serving := Some ss, rebuild_lock := False,
        process_gauges := (case md_height (ss_metadata ss) of None \<Rightarrow> g | Some h \<Rightarrow> served_height_set h g),
        watchdog_loop := watchdog_settings (be_args E)\<rparr>)"
proof -
  let ?R = "boot_step P C H T Y E" and ?st = "initial_state (be_args E) lwd_env d"
  let ?g = "case md_height (ss_metadata ss) of None \<Rightarrow> g | Some h \<Rightarrow> served_height_set h g"
  let ?s1 = "?st\<lparr>phase := Starting ''rebuilding nullifier index''\<rparr>"
  let ?s2 = "?st\<lparr>phase := Starting ''snapshot bootstrap'', pir_data_dir := d1\<rparr>"
  let ?s3 = "?st\<lparr>phase := Starting ''loading tier files'', pir_data_dir := d2, process_gauges := g\<rparr>"
  let ?s4 = "?st\<lparr>phase := Starting ''loading tier files'', pir_data_dir := d3, process_gauges := ?g, serving := Some ss\<rparr>"
  let ?s5 = "(initial_state (be_args E) lwd_env d3)\<lparr>phase := Serving, serving := Some ss, rebuild_lock := False,
    process_gauges := ?g, watchdog_loop := watchdog_settings (be_args E)\<rparr>"
  have "?R (BootInit, ?st) (BootIndex, ?s1)" by (rule boot_step.init)
  moreover have "?R (BootIndex, ?s1) (BootSnapshot, ?s2)"
    using boot_step.index_ok [of ?s1 d1 P C H T Y E] assms(1) by (simp add: initial_state_def)
  moreover have "?R (BootSnapshot, ?s2) (BootLoad, ?s3)"
    using boot_step.bootstrap_ok [of E ?s2 d2 g "()" P C H T Y] assms(2) by (simp add: initial_state_def)
  moreover have "?R (BootLoad, ?s3) (BootPublish, ?s4)"
    using boot_step.load_ok [of P C H T Y env ?s3 d3 ss E] assms(3) by (simp add: initial_state_def cong: option.case_cong)
  moreover have "?R (BootPublish, ?s4) (BootDone, ?s5)"
    using boot_step.publish [of P C H T Y E ?s4] by (simp add: initial_state_def)
  ultimately have "?R\<^sup>*\<^sup>* (BootInit, ?st) (BootDone, ?s5)"
    by (meson converse_rtranclp_into_rtranclp rtranclp.rtrancl_refl)
  then show ?thesis by (rule rtranclp_mono [THEN predicate2D, rotated]) (auto intro: serve_step.boot)
qed

end
