(* ===== verification/Pir_Update.thy ===== *)
theory Pir_Update
  imports Bootstrap Precompute_Cache
begin

text \<open>
  Coordinator authorization of host updates, \<^verbatim>\<open>nf-server/src/pir_update.rs\<close>, and the public status
  of the updater, \<^verbatim>\<open>nf-server/src/update_status.rs\<close>. SHA-256, base64, Ed25519 and JSON are
  parameters. The lemmas show that the signed message determines scope and payload, and that
  the accepted payload fixes the configuration and, through the manifest hash, the staged
  snapshot.
\<close>

section \<open>Signed updates\<close>

record Payload =
  config_sha256 :: string
  linux_amd64_sha256 :: string
  linux_arm64_sha256 :: string
  snapshot_manifest_sha256 :: string
  service_sha256 :: string

record SignatureRef =
  sig_key_id :: string
  sig_alg :: string
  sig_sig :: string

record Attestations =
  att_schema_version :: u32
  att_payload :: Payload
  att_signatures :: "SignatureRef list"

record Key =
  key_key_id :: string
  key_pubkey :: string

record UpdateConfig =
  uc_schema_version :: u32
  uc_snapshot_height :: u64
  uc_binary_tag :: string

text \<open>Libraries: JSON, SHA-256 in hexadecimal, base64, public keys and strict verification.\<close>

record 'k update_deps =
  ud_att_from_json :: "bytes \<Rightarrow> Attestations option"
  ud_config_from_json :: "bytes \<Rightarrow> UpdateConfig option"
  ud_sha256_hex :: "bytes \<Rightarrow> string"
  ud_base64_decode :: "string \<Rightarrow> bytes option"
  ud_key_from_bytes :: "bytes \<Rightarrow> 'k option"
  ud_verify_strict :: "'k \<Rightarrow> bytes \<Rightarrow> bytes \<Rightarrow> bool"

definition payload_hashes :: "Payload \<Rightarrow> string list" where
  "payload_hashes p =
     [config_sha256 p, linux_amd64_sha256 p, linux_arm64_sha256 p, snapshot_manifest_sha256 p, service_sha256 p]"

definition is_sha256_hex :: "string \<Rightarrow> bool" where
  "is_sha256_hex h \<longleftrightarrow>
     length h = 64 \<and> list_all (\<lambda>b. is_ascii_digit b \<or> 97 \<le> (of_char b :: nat) \<and> (of_char b :: nat) \<le> 102) h"

definition signing_bytes :: "string \<Rightarrow> Payload \<Rightarrow> bytes result" where
  "signing_bytes scope p =
     ensure (scope = ''prod'' \<or> scope = ''stage'') ''invalid update scope''
     (and_then (try_fold (\<lambda>h acc. ensure (is_sha256_hex h) ''invalid SHA-256'' (Ok (acc @ h @ [CHR 0x0A])))
                 (payload_hashes p) (''valargroup/pir-update/v1'' @ [CHR 0x0A] @ scope @ [CHR 0x0A])) (\<lambda>message.
      Ok (ascii message)))"

text \<open>The closure that checks one signature against the keys of its identifier.\<close>

definition key_accepts :: "'k update_deps \<Rightarrow> bytes \<Rightarrow> SignatureRef \<Rightarrow> Key \<Rightarrow> bool" where
  "key_accepts U message s key \<longleftrightarrow>
     (case ud_base64_decode U (key_pubkey key) of
        None \<Rightarrow> False
      | Some raw \<Rightarrow>
          if length raw \<noteq> 32 then False
          else case ud_key_from_bytes U raw of
                 None \<Rightarrow> False
               | Some pk \<Rightarrow>
                   (case ud_base64_decode U (sig_sig s) of
                      None \<Rightarrow> False
                    | Some sb \<Rightarrow> length sb = 64 \<and> ud_verify_strict U pk message sb))"

definition signature_valid :: "'k update_deps \<Rightarrow> Key list \<Rightarrow> bytes \<Rightarrow> SignatureRef \<Rightarrow> bool" where
  "signature_valid U keys message s \<longleftrightarrow>
     (if sig_alg s \<noteq> ''ed25519'' then False
      else list_ex (key_accepts U message s) (filter (\<lambda>key. key_key_id key = sig_key_id s) keys))"

definition valid_tag :: "string \<Rightarrow> bool" where
  "valid_tag tag \<longleftrightarrow>
     starts_with tag ''v'' \<and> length tag \<le> 128 \<and> length tag > 1 \<and>
     list_all (\<lambda>b. is_ascii_alphanumeric b \<or> b \<in> set ''.-+'') tag"

definition verify_with_keys ::
  "'k update_deps \<Rightarrow> bytes \<Rightarrow> bytes \<Rightarrow> string \<Rightarrow> Key list \<Rightarrow> (UpdateConfig \<times> Payload) result" where
  "verify_with_keys U config attestations scope keys =
     ensure (length config \<le> 65536 \<and> length attestations \<le> 65536) ''update metadata too large''
     (and_then (ok_or (ud_att_from_json U attestations) (Error ''decode attestations'')) (\<lambda>att.
     ensure (att_schema_version att = 1) ''unsupported attestation version''
     (and_then (signing_bytes scope (att_payload att)) (\<lambda>message.
     ensure (ud_sha256_hex U config = config_sha256 (att_payload att)) ''config does not match attestation''
     (ensure (list_ex (signature_valid U keys message) (att_signatures att)) ''no trusted coordinator signature matches this update''
     (and_then (ok_or (ud_config_from_json U config) (Error ''decode PIR config'')) (\<lambda>cfg.
     ensure (uc_schema_version cfg = 1) ''unsupported PIR config version''
     (ensure (valid_tag (uc_binary_tag cfg)) ''invalid explicit release tag''
     (ensure (uc_snapshot_height cfg > 0 \<and> uc_snapshot_height cfg \<le> 9007199254740991) ''invalid snapshot height''
     (Ok (cfg, att_payload att)))))))))))"

text \<open>The command: the compiled keys of the scope, the two files, and the network's height rule.\<close>

definition update_run ::
  "'k update_deps \<Rightarrow> (string \<times> Key list) list \<Rightarrow> string \<Rightarrow> bytes option \<Rightarrow> bytes option \<Rightarrow> ZcashNetwork \<Rightarrow> (UpdateConfig \<times> Payload) result" where
  "update_run U trusted scope config_file attestations_file network =
     and_then (ok_or (map_of trusted scope) (Error ''unknown scope'')) (\<lambda>keys.
     and_then (ok_or config_file (Error ''No such file'')) (\<lambda>config.
     ensure (length config \<le> 65536) ''update metadata too large''
     (and_then (ok_or attestations_file (Error ''No such file'')) (\<lambda>attestations.
     ensure (length attestations \<le> 65536) ''update metadata too large''
     (and_then (verify_with_keys U config attestations scope keys) (\<lambda>(cfg, p).
     and_then (validate_export_height (unat (uc_snapshot_height cfg)) network) (\<lambda>_. Ok (cfg, p))))))))"

section \<open>Updater status\<close>

datatype json = JNull | JBool bool | JU64 u64 | JOther string | JString string | JArray "json list" | JObject "(string \<times> json) list"

definition STATUS_KEYS :: "string list" where
  "STATUS_KEYS =
     [''enabled'', ''phase'', ''desired'', ''converged'', ''last_check'', ''last_verified'', ''last_success'', ''next_retry'',
      ''error'', ''failures_total'', ''rollbacks'']"

text \<open>\<open>Value::get\<close>: a member of an object, nothing for any other value.\<close>

fun json_get :: "json \<Rightarrow> string \<Rightarrow> json option" where
  "json_get (JObject ms) k = map_of ms k"
| "json_get _ k = None"

definition status_read :: "(bytes \<Rightarrow> json option) \<Rightarrow> bytes option \<Rightarrow> json" where
  "status_read from_json file =
     (case file of
        None \<Rightarrow> JNull
      | Some bs \<Rightarrow>
          if length bs > 65536 then JNull
          else case from_json bs of
                 None \<Rightarrow> JNull
               | Some value \<Rightarrow> JObject (List.map_filter (\<lambda>k. map_option (Pair k) (json_get value k)) STATUS_KEYS))"
section \<open>What a signature binds\<close>

lemma ascii_inj: "ascii s = ascii t \<longleftrightarrow> s = t"
proof -
  have "(word_of_nat (of_char c) :: u8) = word_of_nat (of_char c') \<Longrightarrow> c = c'" for c c' :: char
  proof -
    assume "(word_of_nat (of_char c) :: u8) = word_of_nat (of_char c')"
    then have "(of_char c :: nat) mod 256 = of_char c' mod 256" by (metis unat_word_of_nat_u8)
    then show ?thesis by simp
  qed
  then have "inj (\<lambda>c :: char. (word_of_nat (of_char c) :: u8))" by (rule injI)
  then show ?thesis by (simp add: ascii_def inj_map_eq_map)
qed

lemma fold_hashes_Ok_iff:
  "try_fold (\<lambda>h acc. ensure (is_sha256_hex h) m (Ok (acc @ h @ [CHR 0x0A]))) hs acc = Inr s \<longleftrightarrow>
     list_all is_sha256_hex hs \<and> s = acc @ concat (map (\<lambda>h. h @ [CHR 0x0A]) hs)"
  by (induction hs arbitrary: acc) (auto simp: result_simps ensure_def)

lemma signing_bytes_Ok_iff:
  "signing_bytes scope p = Inr bs \<longleftrightarrow>
     (scope = ''prod'' \<or> scope = ''stage'') \<and> list_all is_sha256_hex (payload_hashes p) \<and>
     bs = ascii (''valargroup/pir-update/v1'' @ [CHR 0x0A] @ scope @ [CHR 0x0A] @ concat (map (\<lambda>h. h @ [CHR 0x0A]) (payload_hashes p)))"
  unfolding signing_bytes_def ensure_Ok_iff and_then_Ok_iff fold_hashes_Ok_iff by auto

lemma concat_lines_inj:
  assumes "list_all (\<lambda>h. length h = n) hs" "list_all (\<lambda>h. length h = n) hs'" "length hs = length hs'"
    and "concat (map (\<lambda>h. h @ [c]) hs) = concat (map (\<lambda>h. h @ [c]) hs')"
  shows "hs = hs'"
  using assms(3,1,2,4) by (induction hs hs' rule: list_induct2) auto

lemma signing_bytes_inj:
  assumes "signing_bytes scope p = Inr bs" "signing_bytes scope' p' = Inr bs"
  shows "scope = scope' \<and> p = p'"
proof -
  let ?lines = "\<lambda>p. concat (map (\<lambda>h. h @ [CHR 0x0A]) (payload_hashes p))"
  from assms have sc: "scope = ''prod'' \<or> scope = ''stage''" "scope' = ''prod'' \<or> scope' = ''stage''"
    and len: "list_all (\<lambda>h. length h = 64) (payload_hashes p)" "list_all (\<lambda>h. length h = 64) (payload_hashes p')"
    and eq: "scope @ [CHR 0x0A] @ ?lines p = scope' @ [CHR 0x0A] @ ?lines p'"
    by (auto simp: signing_bytes_Ok_iff ascii_inj is_sha256_hex_def list_all_iff)
  have hd_eq: "hd (scope @ [CHR 0x0A] @ ?lines p) = hd (scope' @ [CHR 0x0A] @ ?lines p')" by (simp only: eq)
  with sc have scope: "scope = scope'" by auto
  with eq have "?lines p = ?lines p'" by simp
  with concat_lines_inj [OF len] have "payload_hashes p = payload_hashes p'" by (simp add: payload_hashes_def)
  then have "p = p'" by (cases p; cases p') (simp add: payload_hashes_def)
  with scope show ?thesis by simp
qed

lemma verify_with_keys_Ok:
  assumes "verify_with_keys U config attestations scope keys = Inr (cfg, p)"
  obtains message key pk sb where "signing_bytes scope p = Inr message" "ud_sha256_hex U config = config_sha256 p"
    "ud_config_from_json U config = Some cfg" "key \<in> set keys"
    "ud_base64_decode U (key_pubkey key) = Some pk" "length sb = 64"
    "\<exists>k. ud_key_from_bytes U pk = Some k \<and> ud_verify_strict U k message sb"
    "valid_tag (uc_binary_tag cfg)" "0 < uc_snapshot_height cfg" "uc_snapshot_height cfg < 2 ^ 53"
proof -
  have lt: "h < 2 ^ 53" if "h \<le> 9007199254740991" for h :: u64
    using that by (simp add: word_le_nat_alt word_less_nat_alt)
  from assms obtain att :: Attestations and message where a: "p = att_payload att" "signing_bytes scope p = Inr message"
    "ud_sha256_hex U config = config_sha256 p" "list_ex (signature_valid U keys message) (att_signatures att)"
    "ud_config_from_json U config = Some cfg" "valid_tag (uc_binary_tag cfg)" "0 < uc_snapshot_height cfg" "uc_snapshot_height cfg \<le> 9007199254740991"
    by (auto simp: verify_with_keys_def result_simps)
  then obtain s :: SignatureRef and key where "key \<in> set keys" "key_key_id key = sig_key_id s" "key_accepts U message s key"
    by (auto simp: signature_valid_def list_ex_iff split: if_splits)
  with a that lt [OF a(8)] show thesis
    by (auto simp: key_accepts_def split: option.splits if_splits)
qed

text \<open>Two given byte strings that differ and have the same digest, as the code compares digests.\<close>

definition collide :: "(bytes \<Rightarrow> string) \<Rightarrow> bytes option \<Rightarrow> bytes option \<Rightarrow> bool" where
  "collide sha x y \<longleftrightarrow> (\<exists>a b. x = Some a \<and> y = Some b \<and> a \<noteq> b \<and> eq_ignore_ascii_case (sha a) (sha b))"

lemma same_digest:
  "eq_ignore_ascii_case (sha x) z \<Longrightarrow> eq_ignore_ascii_case (sha y) z \<Longrightarrow> x = y \<or> collide sha (Some x) (Some y)"
  unfolding collide_def eq_ignore_ascii_case_def by metis

text \<open>
  Two authenticated fetches with one manifest hash, from whatever two buckets: a file differs only if the two
  installed files, or the two delivered manifests, have the same digest.
\<close>

definition manifest_body :: "boot_deps \<Rightarrow> boot_config \<Rightarrow> u64 \<Rightarrow> bytes option" where
  "manifest_body B cfg h = body_of B (snapshot_dir cfg h @ ''/manifest.json'')"

lemma fetch_authenticated_unique:
  assumes "fetch_authenticated B cfg h (Some mh) d = (d', Inr n)" "fetch_authenticated B2 cfg2 h2 (Some mh) e = (e', Inr k)"
    and "bd_sha256_hex B2 = bd_sha256_hex B" "bd_manifest_from_json B2 = bd_manifest_from_json B"
    and "name \<in> set SNAPSHOT_FILES"
  shows "d' name = e' name \<or> collide (bd_sha256_hex B) (d' name) (e' name) \<or>
    collide (bd_sha256_hex B) (manifest_body B cfg h) (manifest_body B2 cfg2 h2)"
proof -
  from assms(1) obtain m1 where m1: "fetch_manifest B cfg h (Some mh) = Inr m1"
    "vouched B (snapshot_dir cfg h) m1 name \<noteq> None" "d' name = vouched B (snapshot_dir cfg h) m1 name"
    using assms(5) by (auto simp: fetch_authenticated_Ok_iff installed_def)
  from assms(2) obtain m2 where m2: "fetch_manifest B2 cfg2 h2 (Some mh) = Inr m2"
    "vouched B2 (snapshot_dir cfg2 h2) m2 name \<noteq> None" "e' name = vouched B2 (snapshot_dir cfg2 h2) m2 name"
    using assms(5) by (auto simp: fetch_authenticated_Ok_iff installed_def)
  from m1(1) obtain b1 where b1: "bd_sha256_hex B b1 = mh" "bd_manifest_from_json B b1 = Some m1" "manifest_body B cfg h = Some b1"
    by (auto simp: fetch_manifest_Ok_iff manifest_body_def body_of_def)
  from m2(1) obtain b2 where b2: "bd_sha256_hex B b2 = mh" "bd_manifest_from_json B b2 = Some m2" "manifest_body B2 cfg2 h2 = Some b2"
    by (auto simp: fetch_manifest_Ok_iff manifest_body_def body_of_def assms(3,4))
  have "eq_ignore_ascii_case mh mh" by (simp add: eq_ignore_ascii_case_def)
  then consider "b1 = b2" | "collide (bd_sha256_hex B) (Some b1) (Some b2)"
    using same_digest [of "bd_sha256_hex B" b1 mh b2] b1(1) b2(1) by auto
  then show ?thesis
  proof cases
    case 1
    then have m: "m1 = m2" using b1 b2 by simp
    obtain x where x: "vouched B (snapshot_dir cfg h) m1 name = Some x" using m1(2) by blast
    obtain y where y: "vouched B2 (snapshot_dir cfg2 h2) m1 name = Some y" using m2(2) m by blast
    obtain entry :: ManifestFile where "eq_ignore_ascii_case (bd_sha256_hex B x) (mf_sha256 entry)"
      "eq_ignore_ascii_case (bd_sha256_hex B y) (mf_sha256 entry)"
      using x y by (auto simp: vouched_def bind_eq_Some_conv assms(3) split: if_splits)
    then have "x = y \<or> collide (bd_sha256_hex B) (Some x) (Some y)" by (rule same_digest)
    with x y m1(3) m2(3) m show ?thesis by auto
  next
    case 2
    with b1(3) b2(3) show ?thesis by simp
  qed
qed

text \<open>The configuration the staging command works with.\<close>

definition stage_config :: "StageArgs \<Rightarrow> boot_config" where
  "stage_config args = \<lparr>bc_zcash_network = stg_zcash_network args, bc_pir_config_url = Some [], bc_voting_config_url = [],
     bc_precomputed_base_url = trim_end_slashes (stg_precomputed_base_url args), bc_force_snapshot_height = Some (stg_height args)\<rparr>"

lemma stage_Ok:
  assumes "stage B args d = (d', Inr ())"
  obtains n where "fetch_authenticated B (stage_config args) (stg_height args) (Some (stg_manifest_sha256 args)) Map.empty = (d', Inr n)"
    "d = Map.empty"
  using assms that
  by (auto simp: stage_def stage_config_def Let_def result_simps split: sum.splits prod.splits)

end
