(* ===== verification/Store_Recovery.thy ===== *)
theory Store_Recovery
  imports Sync
begin

text \<open>
  Crash safety of the store. The abstract store is the last committed height with the
  committed nullifier bytes, or nothing; a batch either happens or does not. The concrete
  store refines it: whatever operation a crash interrupts, at whatever byte, the directory
  recovers to the state before or after the batch, and \<open>resume_height\<close> restores exactly
  that state.
\<close>

section \<open>Abstract store and refinement relation\<close>

type_synonym astore = "(u64 \<times> bytes) option"

definition committed_bytes :: "astore \<Rightarrow> bytes" where
  "committed_bytes a = (case a of None \<Rightarrow> [] | Some (_, bs) \<Rightarrow> bs)"

text \<open>Committing a batch; the abstract store has one step.\<close>

definition acommit :: "astore \<Rightarrow> nat \<Rightarrow> (u64 \<times> bytes) list \<Rightarrow> astore" where
  "acommit a h nfs = Some (word_of_nat h, committed_bytes a @ concat (map snd nfs))"

inductive astep :: "astore \<Rightarrow> astore \<Rightarrow> bool" where
  "\<forall>(_, nf) \<in> set nfs. length nf = 32 \<Longrightarrow> astep a (acommit a h nfs)"

text \<open>The committed offset is the length of the committed bytes, which fits a \<open>u64\<close>.\<close>

definition recovers :: "dir \<Rightarrow> astore \<Rightarrow> bool" where
  "recovers d a \<longleftrightarrow> length (committed_bytes a) < 2 ^ 64 \<and>
     (case a of
        None \<Rightarrow> d checkpoint_path = None
      | Some (h, bs) \<Rightarrow> d checkpoint_path = Some (checkpoint_bytes h (word_of_nat (length bs))) \<and>
          (\<exists>junk. d nullifiers_path = Some (bs @ junk)))"

text \<open>After recovery the data file holds the committed bytes and nothing else.\<close>

definition clean :: "dir \<Rightarrow> astore \<Rightarrow> bool" where
  "clean d a \<longleftrightarrow> recovers d a \<and> file_bytes d nullifiers_path = committed_bytes a"

definition cycle_ops :: "dir \<Rightarrow> (u64 \<times> bytes) list \<Rightarrow> nat \<Rightarrow> fs_op list" where
  "cycle_ops d nfs h =
     append_nullifiers_ops nfs @
     save_checkpoint_ops (word_of_nat h) (word_of_nat (length (file_bytes d nullifiers_path) + 32 * length nfs))"

lemma commit_cycle_ops:
  "commit_cycle d nfs h = Inr d' \<longleftrightarrow>
     (\<forall>(_, nf) \<in> set nfs. length nf = 32) \<and> d' = run_ops (cycle_ops d nfs h) d"
  by (auto simp: commit_cycle_def and_then_Ok_iff append_nullifiers_Ok_iff cycle_ops_def save_checkpoint_def)

section \<open>Recovery\<close>

lemma checkpoint_tmp_distinct [simp]:
  "checkpoint_tmp \<noteq> checkpoint_path" "checkpoint_tmp \<noteq> nullifiers_path" "checkpoint_tmp \<noteq> index_path"
  "checkpoint_path \<noteq> nullifiers_path" "checkpoint_path \<noteq> index_path" "nullifiers_path \<noteq> index_path"
  "checkpoint_path \<noteq> checkpoint_tmp" "nullifiers_path \<noteq> checkpoint_tmp" "index_path \<noteq> checkpoint_tmp"
  "nullifiers_path \<noteq> checkpoint_path" "index_path \<noteq> checkpoint_path" "index_path \<noteq> nullifiers_path"
  "marker_tmp \<noteq> checkpoint_path" "marker_tmp \<noteq> nullifiers_path"
  "DATASET_MARKER_FILENAME \<noteq> checkpoint_path" "DATASET_MARKER_FILENAME \<noteq> nullifiers_path"
  "checkpoint_path \<noteq> marker_tmp" "nullifiers_path \<noteq> marker_tmp"
  "checkpoint_path \<noteq> DATASET_MARKER_FILENAME" "nullifiers_path \<noteq> DATASET_MARKER_FILENAME"
  by (simp_all add: path_defs)

lemma load_checkpoint_recovers:
  "recovers d a \<Longrightarrow> load_checkpoint d =
     Ok (case a of None \<Rightarrow> None | Some (h, bs) \<Rightarrow> Some (h, word_of_nat (length bs)))"
  by (auto simp: recovers_def load_checkpoint_def CHECKPOINT_SIZE_def checkpoint_bytes_def split: option.splits)

lemma ensure_dataset_keeps:
  "ensure_ironwood_dataset J d network = Inr d' \<Longrightarrow>
     d' checkpoint_path = d checkpoint_path \<and> d' nullifiers_path = d nullifiers_path"
  by (auto simp: ensure_ironwood_dataset_def result_simps Let_def split: option.splits if_splits)

lemma truncate_exact:
  assumes "length bs < 2 ^ 64" "d nullifiers_path = Some (bs @ junk)"
  shows "truncate_to_checkpoint d (word_of_nat (length bs)) nullifiers_path = Some bs"
proof -
  have "unat (word_of_nat (length bs) :: u64) = length bs"
    using assms(1) by (simp add: unat_of_nat)
  with assms(2) show ?thesis by (simp add: truncate_to_checkpoint_def)
qed

text \<open>\<open>resume_height\<close> restores the abstract store exactly, and returns its height.\<close>

lemma resume_restores:
  assumes "recovers d a" "resume_height J d network = Inr (h, d')"
  shows "clean d' a"
    and "h = (case a of None \<Rightarrow> nu6_3_activation_height network - 1 | Some (h, _) \<Rightarrow> unat h)"
proof -
  from assms(2) obtain d0 where e: "ensure_ironwood_dataset J d network = Inr d0"
    by (auto simp: resume_height_def Let_def and_then_Ok_iff)
  have keep: "d0 checkpoint_path = d checkpoint_path" "d0 nullifiers_path = d nullifiers_path"
    using ensure_dataset_keeps [OF e] by auto
  then have r0: "recovers d0 a"
    using assms(1) by (cases a) (auto simp: recovers_def)
  note lc = load_checkpoint_recovers [OF r0]
  have small: "length (committed_bytes a) < 2 ^ 64" using assms(1) by (simp add: recovers_def)
  have cp: "truncate_to_checkpoint x off checkpoint_path = x checkpoint_path" for x off
    by (simp add: truncate_to_checkpoint_def split: option.split)
  have "clean d' a \<and> h = (case a of None \<Rightarrow> nu6_3_activation_height network - 1 | Some (h, _) \<Rightarrow> unat h)"
  proof (cases a)
    case None
    then have d': "h = nu6_3_activation_height network - 1" "d' = truncate_to_checkpoint d0 0"
      using assms(2) e lc by (auto simp: resume_height_def Let_def)
    have "file_bytes d' nullifiers_path = []"
      by (auto simp: d' truncate_to_checkpoint_def file_bytes_def set_len_def split: option.split)
    moreover have "d' checkpoint_path = None" using r0 None by (simp add: d' cp recovers_def)
    ultimately show ?thesis using None d' by (simp add: clean_def recovers_def committed_bytes_def)
  next
    case (Some p)
    obtain ch bs where p: "a = Some (ch, bs)" using Some by (cases p) simp
    then obtain junk where junk: "d0 nullifiers_path = Some (bs @ junk)"
      and c: "d0 checkpoint_path = Some (checkpoint_bytes ch (word_of_nat (length bs)))"
      using r0 by (auto simp: recovers_def)
    have d': "h = unat ch" "d' = truncate_to_checkpoint d0 (word_of_nat (length bs))"
      using assms(2) e lc p by (auto simp: resume_height_def Let_def split: if_splits)
    have "d' nullifiers_path = Some bs"
      unfolding d' using small junk by (intro truncate_exact) (simp_all add: p committed_bytes_def)
    then show ?thesis
      using small c d' by (simp add: clean_def recovers_def p committed_bytes_def cp file_bytes_def)
  qed
  then show "clean d' a" "h = (case a of None \<Rightarrow> nu6_3_activation_height network - 1 | Some (h, _) \<Rightarrow> unat h)"
    by auto
qed

section \<open>A cycle, complete or interrupted\<close>

lemma cycle_appended:
  assumes "\<forall>(_, nf) \<in> set nfs. length nf = 32"
  shows "length (concat (map snd nfs)) = 32 * length nfs"
  using assms by (subst concat_uniform_length [of _ 32]) auto

lemma append_ops_files:
  "op \<in> set (append_nullifiers_ops nfs) \<Longrightarrow> op_files op = {nullifiers_path}"
  by (auto simp: append_nullifiers_ops_def)

lemma save_ops_nullifiers:
  "op \<in> set (save_checkpoint_ops h off) \<Longrightarrow> nullifiers_path \<notin> op_files op"
  by (auto simp: save_checkpoint_ops_def append_index_ops_def)

text \<open>An interrupted checkpoint leaves the old one or the complete new one.\<close>

lemma crash_save_checkpoint:
  "crash (save_checkpoint_ops h off) d d' \<Longrightarrow>
     d' checkpoint_path = d checkpoint_path \<or> d' checkpoint_path = Some (checkpoint_bytes h off)"
  by (auto simp: save_checkpoint_ops_def append_index_ops_def crash_Cons_iff)

lemma crash_cycle:
  assumes cl: "clean d a" and nfs: "\<forall>(_, nf) \<in> set nfs. length nf = 32"
    and fits: "length (committed_bytes a) + 32 * length nfs < 2 ^ 64"
    and cr: "crash (cycle_ops d nfs h) d d'"
  shows "recovers d' a \<or> recovers d' (acommit a h nfs)"
proof -
  let ?new = "concat (map snd nfs)"
  have old: "file_bytes d nullifiers_path = committed_bytes a" and rec: "recovers d a"
    using cl by (auto simp: clean_def)
  have small: "length (committed_bytes a) < 2 ^ 64" using fits by simp
  have stay: "recovers e a"
    if "e checkpoint_path = d checkpoint_path" "\<exists>junk. e nullifiers_path = Some (committed_bytes a @ junk) \<or> a = None" for e
    using that rec small by (cases a) (auto simp: recovers_def committed_bytes_def)
  from cr consider (append) "crash (append_nullifiers_ops nfs) d d'"
    | (save) "crash (save_checkpoint_ops (word_of_nat h) (word_of_nat (length (committed_bytes a) + 32 * length nfs)))
        (run_ops (append_nullifiers_ops nfs) d) d'"
    by (auto simp: cycle_ops_def crash_append_iff old)
  then show ?thesis
  proof cases
    case append
    have "d' checkpoint_path = d checkpoint_path"
      using append by (rule crash_other) (auto dest: append_ops_files)
    moreover have "\<exists>junk. d' nullifiers_path = Some (committed_bytes a @ junk) \<or> a = None"
      using crash_appends [OF append [unfolded append_nullifiers_ops_def]] rec old
      by (cases a) (auto simp: recovers_def committed_bytes_def)
    ultimately show ?thesis by (intro disjI1 stay)
  next
    case save
    let ?d1 = "run_ops (append_nullifiers_ops nfs) d"
    have "run_ops (append_nullifiers_ops nfs) d nullifiers_path = Some (committed_bytes a @ ?new)"
      using run_appends [of nullifiers_path "[] # map snd nfs" d] by (simp add: append_nullifiers_ops_def old)
    moreover have "d' nullifiers_path = ?d1 nullifiers_path"
      using save by (rule crash_other) (rule save_ops_nullifiers)
    ultimately have data: "d' nullifiers_path = Some (committed_bytes a @ ?new)" by simp
    have c1: "?d1 checkpoint_path = d checkpoint_path"
      by (rule run_ops_other) (auto dest: append_ops_files)
    show ?thesis
      using crash_save_checkpoint [OF save]
    proof
      assume "d' checkpoint_path = ?d1 checkpoint_path"
      then show ?thesis using c1 data by (intro disjI1 stay) auto
    next
      assume "d' checkpoint_path = Some (checkpoint_bytes (word_of_nat h) (word_of_nat (length (committed_bytes a) + 32 * length nfs)))"
      then have "recovers d' (acommit a h nfs)"
        using data fits cycle_appended [OF nfs]
        by (simp add: recovers_def acommit_def committed_bytes_def [of "Some _"])
      then show ?thesis ..
    qed
  qed
qed

lemma commit_cycle_clean:
  assumes cl: "clean d a" and fits: "length (committed_bytes a) + 32 * length nfs < 2 ^ 64"
    and c: "commit_cycle d nfs h = Inr d'"
  shows "clean d' (acommit a h nfs)"
proof -
  have nfs: "\<forall>(_, nf) \<in> set nfs. length nf = 32" and d': "d' = run_ops (cycle_ops d nfs h) d"
    using c by (auto simp: commit_cycle_ops)
  have old: "file_bytes d nullifiers_path = committed_bytes a" using cl by (simp add: clean_def)
  let ?d1 = "run_ops (append_nullifiers_ops nfs) d"
  let ?off = "length (committed_bytes a) + 32 * length nfs"
  have data1: "?d1 nullifiers_path = Some (committed_bytes a @ concat (map snd nfs))"
    using run_appends [of nullifiers_path "[] # map snd nfs" d] by (simp add: append_nullifiers_ops_def old)
  have d'1: "d' = run_ops (save_checkpoint_ops (word_of_nat h) (word_of_nat ?off)) ?d1"
    by (simp add: d' cycle_ops_def old)
  have "d' nullifiers_path = ?d1 nullifiers_path"
    unfolding d'1 by (rule run_ops_other) (rule save_ops_nullifiers)
  moreover have "d' checkpoint_path = Some (checkpoint_bytes (word_of_nat h) (word_of_nat ?off))"
    unfolding d'1 by (simp add: save_checkpoint_ops_def append_index_ops_def)
  ultimately show ?thesis
    using data1 fits cycle_appended [OF nfs]
    by (simp add: clean_def recovers_def acommit_def committed_bytes_def [of "Some _"] file_bytes_def)
qed

section \<open>The store as a state machine\<close>

text \<open>
  A process state: whether a sync session is running, and the directory. A session starts
  with \<open>resume_height\<close>, commits cycles, and ends at any moment, possibly inside a cycle.
\<close>

inductive store_step :: "marker_json \<Rightarrow> ZcashNetwork \<Rightarrow> bool \<times> dir \<Rightarrow> bool \<times> dir \<Rightarrow> bool"
  for J :: marker_json and network :: ZcashNetwork where
  resume: "resume_height J d network = Inr (h, d') \<Longrightarrow> store_step J network (running, d) (True, d')"
| commit: "commit_cycle d nfs h = Inr d' \<Longrightarrow>
    length (file_bytes d nullifiers_path) + 32 * length nfs < 2 ^ 64 \<Longrightarrow>
    store_step J network (True, d) (True, d')"
| interrupted: "crash (cycle_ops d nfs h) d d' \<Longrightarrow> \<forall>(_, nf) \<in> set nfs. length nf = 32 \<Longrightarrow>
    length (file_bytes d nullifiers_path) + 32 * length nfs < 2 ^ 64 \<Longrightarrow>
    store_step J network (True, d) (False, d')"
| stop: "store_step J network (running, d) (False, d)"

definition store_rel :: "bool \<times> dir \<Rightarrow> astore \<Rightarrow> bool" where
  "store_rel s a \<longleftrightarrow> (case s of (running, d) \<Rightarrow> if running then clean d a else recovers d a)"

lemma store_rel_recovers: "store_rel (r, d) a \<Longrightarrow> recovers d a"
  by (auto simp: store_rel_def clean_def split: if_splits)

lemma store_step_refines:
  assumes "store_step J network s s'" "store_rel s a"
  shows "\<exists>a'. store_rel s' a' \<and> (a' = a \<or> astep a a')"
  using assms
proof (induction rule: store_step.induct)
  case (resume d h d' running)
  then have "clean d' a" using resume_restores(1) store_rel_recovers by blast
  then show ?case by (auto simp: store_rel_def)
next
  case (commit d nfs h d')
  then have cl: "clean d a" by (simp add: store_rel_def)
  then have "length (committed_bytes a) + 32 * length nfs < 2 ^ 64"
    using commit by (simp add: clean_def)
  from commit_cycle_clean [OF cl this commit.hyps(1)] have "clean d' (acommit a h nfs)" .
  moreover have "astep a (acommit a h nfs)"
    using commit.hyps(1) by (intro astep.intros) (simp add: commit_cycle_ops)
  ultimately show ?case by (auto simp: store_rel_def)
next
  case (interrupted d nfs h d')
  then have cl: "clean d a" by (simp add: store_rel_def)
  then have "length (committed_bytes a) + 32 * length nfs < 2 ^ 64"
    using interrupted by (simp add: clean_def)
  from crash_cycle [OF cl interrupted.hyps(2) this interrupted.hyps(1)] show ?case
    using astep.intros [OF interrupted.hyps(2), of a h] by (auto simp: store_rel_def)
next
  case (stop running d)
  then have "recovers d a" by (rule store_rel_recovers)
  then show ?case by (auto simp: store_rel_def)
qed

text \<open>Every reachable directory recovers to an abstract store reached by whole batches.\<close>

lemma store_reachable_refines:
  assumes "(store_step J network)\<^sup>*\<^sup>* s s'" "store_rel s a"
  shows "\<exists>a'. store_rel s' a' \<and> astep\<^sup>*\<^sup>* a a'"
  using assms(1)
proof (induction rule: rtranclp_induct)
  case base
  with assms(2) show ?case by blast
next
  case (step y z)
  then obtain b where b: "store_rel y b" "astep\<^sup>*\<^sup>* a b" by blast
  from store_step_refines [OF step.hyps(2) b(1)] obtain c where "store_rel z c" "c = b \<or> astep b c" by blast
  with b(2) show ?case by (metis rtranclp.rtrancl_into_rtrancl)
qed

lemma acommit_whole_nullifiers:
  "astep\<^sup>*\<^sup>* a b \<Longrightarrow> length (committed_bytes a) mod 32 = 0 \<Longrightarrow>
     length (committed_bytes b) mod 32 = 0 \<and> (\<exists>more. committed_bytes b = committed_bytes a @ more)"
proof (induction rule: rtranclp_induct)
  case base
  then show ?case by simp
next
  case (step b c)
  from step.hyps(2) obtain h nfs where c: "c = acommit b h nfs" "\<forall>(_, nf) \<in> set nfs. length nf = 32"
    by (auto elim: astep.cases)
  then have "committed_bytes c = committed_bytes b @ concat (map snd nfs)"
    by (simp add: acommit_def committed_bytes_def [of "Some _"])
  with step cycle_appended [OF c(2)] show ?case by auto
qed

section \<open>The height index\<close>

text \<open>
  Commits in increasing height order keep the index sorted, so the lookup is exact; a torn
  append is not repaired by the recovery, and every later lookup reports corruption.
\<close>

lemma append_index_blob:
  "d index_path = Some (index_blob es) \<Longrightarrow>
     append_index d h off index_path = Some (index_blob (es @ [(h, off)]))"
  by (simp add: append_index_def append_index_ops_def file_bytes_def index_blob_def)

lemma save_checkpoint_index:
  "save_checkpoint d h off index_path = Some (file_bytes d index_path @ checkpoint_bytes h off)"
  by (simp add: save_checkpoint_def save_checkpoint_ops_def append_index_ops_def file_bytes_def)

lemma torn_index_corrupt:
  assumes "length (file_bytes d index_path) mod 16 \<noteq> 0"
  shows "offset_for_height (fold (\<lambda>(h, off) d. save_checkpoint d h off) entries d) t = Bail ''corrupt index file''"
proof -
  have "length (file_bytes (fold (\<lambda>(h, off) d. save_checkpoint d h off) entries d) index_path) mod 16 \<noteq> 0"
    using assms
  proof (induction entries arbitrary: d)
    case Nil
    then show ?case by simp
  next
    case (Cons e entries)
    have "length (file_bytes (save_checkpoint d (fst e) (snd e)) index_path) mod 16 \<noteq> 0"
      using Cons.prems by (simp add: file_bytes_def [of "save_checkpoint _ _ _"] save_checkpoint_index)
    from Cons.IH [OF this] show ?case by (simp add: case_prod_unfold)
  qed
  then show ?thesis
    by (auto simp: offset_for_height_def INDEX_ENTRY_SIZE_def file_bytes_def split: option.splits)
qed

end
