(* ===== verification/Sync_Correct.thy ===== *)
theory Sync_Correct
  imports Store_Recovery
begin

text \<open>
  Correctness of the sync loop against servers that serve the same chain: the batches of a
  cycle are consecutive, disjoint and at most \<open>BATCH_SIZE\<close> long, the parallel downloads
  are joined in chain order, the loop ends, and the store then holds exactly the
  nullifiers of the synced range after the bytes it held before.
\<close>

section \<open>Batches\<close>

lemma build_batch_ranges_Ok:
  assumes "current \<le> target" "0 < n" "target + BATCH_SIZE < 2 ^ USIZE_BITS"
  shows "\<exists>ranges. build_batch_ranges current target n = Ok ranges \<and> ranges \<noteq> [] \<and> length ranges \<le> n \<and>
    concat (map (\<lambda>(s, e). [s..<Suc e]) ranges) = [current..<Suc (snd (last ranges))] \<and>
    current \<le> snd (last ranges) \<and> snd (last ranges) \<le> target \<and>
    (\<forall>(s, e) \<in> set ranges. s \<le> e \<and> e < s + BATCH_SIZE)"
  using assms
proof (induction n arbitrary: current)
  case 0
  then show ?case by simp
next
  case (Suc n)
  define e where "e = min (current + BATCH_SIZE - 1) target"
  have e: "current \<le> e" "e \<le> target" "e < current + BATCH_SIZE"
    using Suc.prems by (auto simp: e_def BATCH_SIZE_def)
  have "checked_add current BATCH_SIZE = Some (current + BATCH_SIZE)"
    using Suc.prems by (simp add: checked_add_def)
  then have unfold: "build_batch_ranges current target (Suc n) =
      and_then (build_batch_ranges (e + 1) target n) (\<lambda>rest. Ok ((current, e) # rest))"
    using Suc.prems by (simp add: e_def Let_def)
  show ?case
  proof (cases "n = 0 \<or> target < e + 1")
    case True
    then have "build_batch_ranges (e + 1) target n = Ok []"
      by (cases n) auto
    then have "build_batch_ranges current target (Suc n) = Ok [(current, e)]"
      by (simp only: unfold and_then.simps)
    then show ?thesis
      using e by (intro exI [of _ "[(current, e)]"]) auto
  next
    case False
    then have "e + 1 \<le> target" "0 < n" by auto
    from Suc.IH [OF this Suc.prems(3)] obtain rest where
      r: "build_batch_ranges (e + 1) target n = Ok rest" "rest \<noteq> []" "length rest \<le> n"
        "concat (map (\<lambda>(s, e). [s..<Suc e]) rest) = [e + 1..<Suc (snd (last rest))]"
        "e + 1 \<le> snd (last rest)" "snd (last rest) \<le> target"
        "\<forall>(s, e) \<in> set rest. s \<le> e \<and> e < s + BATCH_SIZE"
      by blast
    have "build_batch_ranges current target (Suc n) = Ok ((current, e) # rest)"
      using r(1) by (simp only: unfold and_then.simps)
    moreover have "[current..<Suc e] @ [e + 1..<Suc (snd (last rest))] = [current..<Suc (snd (last rest))]"
      using e r(5) upt_add_eq_append [of current "Suc e" "snd (last rest) - e"] by simp
    then have "concat (map (\<lambda>(s, e). [s..<Suc e]) ((current, e) # rest)) = [current..<Suc (snd (last rest))]"
      using r(4) by simp
    ultimately show ?thesis
      using e r by (intro exI [of _ "(current, e) # rest"]) auto
  qed
qed

section \<open>Servers\<close>

text \<open>
  A chain gives the block of every height. Its nullifiers in a range of blocks are those of the
  Ironwood actions of all transactions, in order, each with its height. A server of the chain up to a
  height answers a request for a range with the blocks of the range.
\<close>

type_synonym chain = "nat \<Rightarrow> CompactBlock"

definition block_nfs :: "CompactBlock \<Rightarrow> (u64 \<times> bytes) list" where
  "block_nfs b = map (Pair (cb_height b)) (concat (map ironwood_actions (cb_vtx b)))"

definition chain_nfs :: "chain \<Rightarrow> nat \<Rightarrow> nat \<Rightarrow> (u64 \<times> bytes) list" where
  "chain_nfs chain s e = concat (map (\<lambda>h. block_nfs (chain h)) [s..<Suc e])"

definition serves :: "chain \<Rightarrow> nat \<Rightarrow> lwd \<Rightarrow> bool" where
  "serves chain top_height client \<longleftrightarrow> (\<forall>s e. s \<le> e \<and> e \<le> top_height \<longrightarrow> lwd_blocks client s e = Ok (map chain [s..<Suc e]))"

definition chain_wf :: "chain \<Rightarrow> bool" where
  "chain_wf chain \<longleftrightarrow> (\<forall>h. cb_height (chain h) = word_of_nat h \<and> (\<forall>tx \<in> set (cb_vtx (chain h)). \<forall>nf \<in> set (ironwood_actions tx). length nf = 32))"

lemma chain_nfs_lengths:
  "chain_wf chain \<Longrightarrow> \<forall>(_, nf) \<in> set (chain_nfs chain s e). length nf = 32"
  by (fastforce simp: chain_nfs_def block_nfs_def chain_wf_def)

lemma inner_extract:
  "try_fold (\<lambda>nf acc. ensure (length nf = 32) m (Ok (acc @ [(h, nf)]))) nfs acc =
     (if \<forall>nf \<in> set nfs. length nf = 32 then Ok (acc @ map (Pair h) nfs) else Bail m)"
  by (induction nfs arbitrary: acc) (auto simp: ensure_def)

lemma extract_ironwood_nullifiers_eq:
  "extract_ironwood_nullifiers block =
     (if \<forall>tx \<in> set (cb_vtx block). \<forall>nf \<in> set (ironwood_actions tx). length nf = 32
      then Ok (map (Pair (cb_height block)) (concat (map ironwood_actions (cb_vtx block))))
      else Bail ''Ironwood nullifier has wrong length'')"
proof -
  have "try_fold (\<lambda>tx acc. try_fold (\<lambda>nf acc. ensure (length nf = 32) m (Ok (acc @ [(h, nf)]))) (ironwood_actions tx) acc) txs acc =
      (if \<forall>tx \<in> set txs. \<forall>nf \<in> set (ironwood_actions tx). length nf = 32
       then Ok (acc @ map (Pair h) (concat (map ironwood_actions txs))) else Bail m)" for txs acc m h
    by (induction txs arbitrary: acc) (auto simp: inner_extract)
  from this [of "''Ironwood nullifier has wrong length''" "cb_height block" "cb_vtx block" "[]"] show ?thesis
    unfolding extract_ironwood_nullifiers_def by (simp only: append_Nil)
qed

text \<open>The download of a range returns exactly the nullifiers of its blocks.\<close>

lemma fetch_block_range_chain:
  assumes "serves chain top_height client" "chain_wf chain" "s \<le> e" "e \<le> top_height"
  shows "fetch_block_range client s e = Ok (chain_nfs chain s e)"
proof -
  have x: "extract_ironwood_nullifiers (chain h) = Ok (block_nfs (chain h))" for h
    using assms(2) by (simp add: extract_ironwood_nullifiers_eq block_nfs_def chain_wf_def)
  have "try_fold (\<lambda>block buffer. and_then (extract_ironwood_nullifiers block) (\<lambda>nfs. Ok (buffer @ nfs))) (map chain hs) acc =
      Ok (acc @ concat (map (\<lambda>h. block_nfs (chain h)) hs))" for hs acc
    by (induction hs arbitrary: acc) (simp_all add: x)
  then show ?thesis using assms(1,3,4) by (simp add: fetch_block_range_def serves_def chain_nfs_def del: upt_Suc)
qed

lemma fetch_cycle_chain:
  assumes "\<forall>c \<in> set clients. serves chain top_height c" "chain_wf chain" "length ranges \<le> length clients"
    and "\<forall>(s, e) \<in> set ranges. s \<le> e \<and> e \<le> top_height"
  shows "fetch_cycle clients ranges = Ok (concat (map (\<lambda>(s, e). chain_nfs chain s e) ranges))"
proof -
  have "try_map (\<lambda>(client, (s, e)). fetch_block_range client s e) (zip clients ranges) =
      Ok (map (\<lambda>(client, (s, e)). chain_nfs chain s e) (zip clients ranges))"
  proof (rule try_map_all_Ok)
    fix x
    assume x: "x \<in> set (zip clients ranges)"
    obtain c s e where cse: "x = (c, s, e)" by (cases x)
    with x have "c \<in> set clients" "(s, e) \<in> set ranges"
      by (auto dest: set_zip_leftD set_zip_rightD)
    with assms(1,4) have "serves chain top_height c" "s \<le> e" "e \<le> top_height" by auto
    then show "(case x of (client, s, e) \<Rightarrow> fetch_block_range client s e) =
        Inr (case x of (client, s, e) \<Rightarrow> chain_nfs chain s e)"
      by (simp add: cse fetch_block_range_chain [OF _ assms(2)])
  qed
  moreover have "map (\<lambda>(client, (s, e)). chain_nfs chain s e) (zip clients ranges) =
      map (\<lambda>(s, e). chain_nfs chain s e) (map snd (zip clients ranges))"
    by (simp add: comp_def case_prod_unfold)
  moreover have "map snd (zip clients ranges) = ranges"
    using assms(3) by (simp add: map_snd_zip_take)
  ultimately show ?thesis by (simp add: fetch_cycle_def)
qed

lemma chain_nfs_ranges:
  "concat (map (\<lambda>(s, e). [s..<Suc e]) ranges) = [a..<Suc b] \<Longrightarrow>
     concat (map (\<lambda>(s, e). chain_nfs chain s e) ranges) = chain_nfs chain a b"
proof -
  assume eq: "concat (map (\<lambda>(s, e). [s..<Suc e]) ranges) = [a..<Suc b]"
  have "concat (map (\<lambda>(s, e). chain_nfs chain s e) rs) =
      concat (map (\<lambda>h. block_nfs (chain h)) (concat (map (\<lambda>(s, e). [s..<Suc e]) rs)))" for rs
    by (induction rs) (auto simp: chain_nfs_def)
  with eq show ?thesis by (simp only: chain_nfs_def)
qed

lemma chain_nfs_split:
  "s \<le> m \<Longrightarrow> m \<le> e \<Longrightarrow> chain_nfs chain s e = chain_nfs chain s m @ chain_nfs chain (Suc m) e"
proof -
  assume "s \<le> m" "m \<le> e"
  then have "[s..<Suc e] = [s..<Suc m] @ [Suc m..<Suc e]"
    using upt_add_eq_append [of s "Suc m" "e - m"] by simp
  then show ?thesis by (simp only: chain_nfs_def map_append concat_append)
qed

section \<open>The loop\<close>

lemma sync_loop_step:
  assumes "current \<le> target"
    and "build_batch_ranges current target (length clients) = Ok ranges" "ranges \<noteq> []"
    and "fetch_cycle clients ranges = Ok nfs" "commit_cycle d nfs (snd (last ranges)) = Ok d'"
  shows "sync_loop clients target current d tn bs =
    sync_loop clients target (snd (last ranges) + 1) d' (tn + length nfs) (bs + (snd (last ranges) - current + 1))"
  using assms by (subst sync_loop.simps) simp

text \<open>The abstract store after syncing the range from \<open>current\<close> to \<open>target\<close>.\<close>

definition synced :: "chain \<Rightarrow> astore \<Rightarrow> nat \<Rightarrow> nat \<Rightarrow> astore" where
  "synced chain a current target =
     (if current \<le> target then acommit a target (chain_nfs chain current target) else a)"

lemma synced_trans:
  "current \<le> m \<Longrightarrow> m \<le> target \<Longrightarrow>
     synced chain (acommit a m (chain_nfs chain current m)) (Suc m) target = synced chain a current target"
  using chain_nfs_split [of current m target chain]
  by (cases "m = target") (auto simp: synced_def acommit_def committed_bytes_def)

lemma sync_loop_correct:
  assumes "clients \<noteq> []" "\<forall>c \<in> set clients. serves chain target c" "chain_wf chain"
    and "target + BATCH_SIZE < 2 ^ USIZE_BITS"
    and "current \<le> target + 1"
    and "clean d a"
    and "length (committed_bytes a) + 32 * length (chain_nfs chain current target) < 2 ^ 64"
  shows "\<exists>d'. sync_loop clients target current d tn bs =
      Ok (d', tn + (if current \<le> target then length (chain_nfs chain current target) else 0),
          bs + (target + 1 - current)) \<and>
    clean d' (synced chain a current target)"
  using assms(5-)
proof (induction "target + 1 - current" arbitrary: current d a tn bs rule: less_induct)
  case less
  show ?case
  proof (cases "current \<le> target")
    case False
    with less.prems show ?thesis by (subst sync_loop.simps) (simp add: synced_def)
  next
    case True
    have "0 < length clients" using assms(1) by simp
    from build_batch_ranges_Ok [OF True this assms(4)] obtain ranges where
      r: "build_batch_ranges current target (length clients) = Ok ranges" "ranges \<noteq> []"
        "length ranges \<le> length clients"
        "concat (map (\<lambda>(s, e). [s..<Suc e]) ranges) = [current..<Suc (snd (last ranges))]"
        "current \<le> snd (last ranges)" "snd (last ranges) \<le> target"
        "\<forall>(s, e) \<in> set ranges. s \<le> e \<and> e < s + BATCH_SIZE"
      by blast
    define m where "m = snd (last ranges)"
    note r = r [folded m_def]
    let ?nfs = "chain_nfs chain current m"
    have "e \<le> target" if "(s, e) \<in> set ranges" for s e
    proof -
      have "e \<in> set [s..<Suc e]" using that r(7) by (auto simp del: upt_Suc)
      then have "e \<in> set (concat (map (\<lambda>(s, e). [s..<Suc e]) ranges))" unfolding set_concat set_map using that by blast
      then show ?thesis using r(6) unfolding r(4) by auto
    qed
    then have "\<forall>(s, e) \<in> set ranges. s \<le> e \<and> e \<le> target" using r(7) by blast
    then have fc: "fetch_cycle clients ranges = Ok ?nfs"
      using fetch_cycle_chain [OF assms(2,3) r(3)] chain_nfs_ranges [OF r(4), of chain] by simp
    have split: "chain_nfs chain current target = ?nfs @ chain_nfs chain (Suc m) target"
      by (rule chain_nfs_split [OF r(5,6)])
    have fits: "length (committed_bytes a) + 32 * length ?nfs < 2 ^ 64"
      using less.prems(3) split by simp
    obtain d1 where d1: "commit_cycle d ?nfs m = Ok d1"
      using chain_nfs_lengths [OF assms(3)] by (auto simp: commit_cycle_ops)
    have cl: "clean d1 (acommit a m ?nfs)"
      by (rule commit_cycle_clean [OF less.prems(2) fits d1])
    have fits': "length (committed_bytes (acommit a m ?nfs)) + 32 * length (chain_nfs chain (Suc m) target) < 2 ^ 64"
      using less.prems(3) split cycle_appended [OF chain_nfs_lengths [OF assms(3), of current m]]
      by (simp add: acommit_def committed_bytes_def [of "Some _"])
    have "target + 1 - (m + 1) < target + 1 - current" "m + 1 \<le> target + 1"
      using r(5,6) True by auto
    from less.hyps [OF this cl, of "tn + length ?nfs" "bs + (m - current + 1)"] fits'
    obtain d' where IH: "sync_loop clients target (m + 1) d1 (tn + length ?nfs) (bs + (m - current + 1)) =
        Ok (d', tn + length ?nfs + (if m + 1 \<le> target then length (chain_nfs chain (m + 1) target) else 0),
            bs + (m - current + 1) + (target + 1 - (m + 1)))"
      and c: "clean d' (synced chain (acommit a m ?nfs) (m + 1) target)" by auto
    have "sync_loop clients target current d tn bs =
        sync_loop clients target (m + 1) d1 (tn + length ?nfs) (bs + (m - current + 1))"
      unfolding m_def using sync_loop_step [OF True r(1,2) fc] d1 by (simp add: m_def)
    moreover have "length ?nfs + (if m + 1 \<le> target then length (chain_nfs chain (m + 1) target) else 0) =
        length (chain_nfs chain current target)"
      using split r(6) by (cases "m = target") (auto simp: chain_nfs_def)
    moreover have "bs + (m - current + 1) + (target + 1 - (m + 1)) = bs + (target + 1 - current)"
      using r(5,6) by simp
    moreover have "synced chain (acommit a m ?nfs) (m + 1) target = synced chain a current target"
      using synced_trans [OF r(5,6)] by simp
    ultimately show ?thesis
      using IH c True by (simp add: add.assoc)
  qed
qed

section \<open>The target\<close>

lemma resolve_target_le_tip: "resolve_target start max_height chain_tip = Inr target \<Longrightarrow> target \<le> chain_tip"
  by (auto simp: resolve_target_def result_simps split: option.splits if_splits)

lemma resolve_target_max: "start \<le> h \<Longrightarrow> resolve_target start (Some h) chain_tip = Ok (min h chain_tip)"
  by (simp add: resolve_target_def)

lemma resolve_target_never_rewinds:
  assumes "start \<le> chain_tip" "resolve_target start max_height chain_tip = Inr target"
  shows "start \<le> target"
proof (cases max_height)
  case (Some h)
  have "start < (start div BLOCK_ALIGNMENT + 1) * BLOCK_ALIGNMENT"
    by (simp add: BLOCK_ALIGNMENT_def)
  then show ?thesis using Some assms by (auto simp: resolve_target_def result_simps split: if_splits)
qed (use assms in \<open>simp add: resolve_target_def\<close>)

lemma resolve_target_total:
  assumes "start + BLOCK_ALIGNMENT < 2 ^ USIZE_BITS"
  shows "\<exists>target. resolve_target start max_height chain_tip = Ok target"
proof -
  have "(start div BLOCK_ALIGNMENT + 1) * BLOCK_ALIGNMENT \<le> start + BLOCK_ALIGNMENT" by (simp add: BLOCK_ALIGNMENT_def)
  then have "(start div BLOCK_ALIGNMENT + 1) * BLOCK_ALIGNMENT < 2 ^ USIZE_BITS" using assms by linarith
  then show ?thesis by (cases max_height) (simp_all add: resolve_target_def checked_mul_def)
qed

section \<open>Configuration\<close>

lemma resolve_lwd_urls_nonempty: "resolve_lwd_urls_with_override cli o' \<noteq> []"
  by (auto simp: resolve_lwd_urls_with_override_def Let_def DEFAULT_LWD_URLS_def)

section \<open>A whole sync\<close>

lemma ensure_dataset_recovers:
  "ensure_ironwood_dataset J d network = Inr d' \<Longrightarrow> recovers d a \<Longrightarrow> recovers d' a"
  using ensure_dataset_keeps [of J d network d'] by (auto simp: recovers_def split: option.splits)

lemma try_fold_unit_Ok: "(\<And>x. x \<in> set xs \<Longrightarrow> f x = Ok ()) \<Longrightarrow> try_fold (\<lambda>x _. f x) xs () = Ok ()"
  by (induction xs) auto

lemma sync_whole:
  assumes "lwd_urls \<noteq> []" and "recovers d a"
    and ens: "ensure_ironwood_dataset J d network = Inr d0"
    and cl: "clients = List.map_filter connect_lwd lwd_urls" "clients \<noteq> []"
    and tip: "lwd_latest (hd clients) = Inr tip"
    and res: "resume_height J d0 network = Inr (start, d1)"
    and tg: "resolve_target start max_height tip = Inr target"
    and ts: "\<And>c. c \<in> set clients \<Longrightarrow> require_ironwood_tree_state c network target = Inr ()"
    and sv: "\<And>c. c \<in> set clients \<Longrightarrow> serves chain target c" and wf: "chain_wf chain"
    and fit: "target + BATCH_SIZE < 2 ^ USIZE_BITS"
      "length (committed_bytes a) + 32 * length (chain_nfs chain (start + 1) target) < 2 ^ 64"
  shows "\<exists>d'. sync J connect_lwd d lwd_urls network max_height =
      Ok (d', \<lparr>sr_chain_tip = tip, sr_blocks_synced = target - start,
               sr_nullifiers_synced = (if start < target then length (chain_nfs chain (start + 1) target) else 0)\<rparr>) \<and>
    clean d' (synced chain a (start + 1) target)"
proof -
  have "recovers d0 a" using ensure_dataset_recovers [OF ens assms(2)] .
  then have cln: "clean d1 a" using resume_restores(1) res by blast
  have chk: "try_fold (\<lambda>client _. require_ironwood_tree_state client network target) clients () = Ok ()"
    using ts by (rule try_fold_unit_Ok)
  show ?thesis
  proof (cases "start \<ge> target")
    case True
    with cln chk show ?thesis
      by (intro exI [of _ d1])
        (simp add: sync_def assms(1) ens Let_def cl(1) [symmetric] cl(2) tip res tg synced_def)
  next
    case False
    have sv': "\<forall>c \<in> set clients. serves chain target c" using sv by blast
    from False have "start + 1 \<le> target + 1" by simp
    from sync_loop_correct [OF cl(2) sv' wf fit(1) this cln fit(2), of 0 0] False obtain d' where
      "sync_loop clients target (start + 1) d1 0 0 =
         Ok (d', length (chain_nfs chain (start + 1) target), target - start)"
      "clean d' (synced chain a (start + 1) target)" by auto
    with False chk show ?thesis
      by (intro exI [of _ d'])
        (simp add: sync_def assms(1) ens Let_def cl(1) [symmetric] cl(2) tip res tg)
  qed
qed

lemma sync_chain:
  assumes "lwd_urls \<noteq> []" "recovers d a" "ensure_ironwood_dataset J d network = Inr d0"
    and "List.map_filter connect_lwd lwd_urls = client # clients" "lwd_latest client = Inr tip"
    and "resume_height J d0 network = Inr (start, d1)" "resolve_target start max_height tip = Inr target"
    and "\<And>c. c \<in> set (client # clients) \<Longrightarrow> require_ironwood_tree_state c network target = Inr () \<and> serves chain target c"
    and "chain_wf chain" "target + BATCH_SIZE < 2 ^ USIZE_BITS" "start < target"
    and "length (committed_bytes a) + 32 * length (chain_nfs chain (start + 1) target) < 2 ^ 64"
  shows "\<exists>d'. sync J connect_lwd d lwd_urls network max_height =
      Ok (d', \<lparr>sr_chain_tip = tip, sr_blocks_synced = target - start,
               sr_nullifiers_synced = length (chain_nfs chain (start + 1) target)\<rparr>) \<and>
    file_bytes d' nullifiers_path = committed_bytes a @ concat (map snd (chain_nfs chain (start + 1) target)) \<and>
    load_checkpoint d' = Ok (Some (word_of_nat target, word_of_nat (length (file_bytes d' nullifiers_path))))"
proof -
  have "lwd_latest (hd (client # clients)) = Inr tip" using assms(5) by simp
  from sync_whole [OF assms(1-3) assms(4) [symmetric] _ this assms(6,7) _ _ assms(9,10,12)] assms(8,11)
  obtain d' where s: "sync J connect_lwd d lwd_urls network max_height =
      Ok (d', \<lparr>sr_chain_tip = tip, sr_blocks_synced = target - start,
               sr_nullifiers_synced = length (chain_nfs chain (start + 1) target)\<rparr>)"
    and cl: "clean d' (synced chain a (start + 1) target)" by auto
  have sy: "synced chain a (start + 1) target = acommit a target (chain_nfs chain (start + 1) target)"
    using assms(11) by (simp add: synced_def)
  note cl = cl [unfolded sy]
  have f: "file_bytes d' nullifiers_path = committed_bytes a @ concat (map snd (chain_nfs chain (start + 1) target))"
    using cl by (simp add: clean_def acommit_def committed_bytes_def [of "Some _"])
  have "load_checkpoint d' = Ok (Some (word_of_nat target, word_of_nat (length (file_bytes d' nullifiers_path))))"
    using load_checkpoint_recovers [of d' "acommit a target (chain_nfs chain (start + 1) target)"] cl
    by (simp add: clean_def acommit_def f)
  with s f show ?thesis by blast
qed

end
