(* ===== verification/Cmd_Sync.thy ===== *)
theory Cmd_Sync
  imports Snapshot_Fs Sync_Correct
begin

text \<open>
  The command \<^verbatim>\<open>nf-server sync\<close>: \<^verbatim>\<open>nf-server/src/cmd_sync.rs\<close> and \<^verbatim>\<open>nf-server/src/sync_pipeline.rs\<close>.
  It composes the nullifier sync, the tree checkpoint and the export of the tier files.
  The tier files are in the data directory, as they are without \<^verbatim>\<open>--output-dir\<close>. What the
  command reads from its environment and from other libraries is in two records. A run
  that fails has no directory in the model; what it can leave behind is covered by the
  crash lemmas of the store and of the export.
\<close>

record sync_args =
  sa_zcash_network :: ZcashNetwork
  sa_lwd_url :: string
  sa_max_height :: "nat option"
  sa_voting_config_url :: string
  sa_non_interactive :: bool
  sa_invalidate_after_blocks :: bool

text \<open>Environment variables, whether standard input is a terminal, and the line typed there.\<close>

record sync_env =
  ev_reset :: "string option"
  ev_ack :: "string option"
  ev_lwd_urls :: "string option"
  ev_stdin_tty :: bool
  ev_stdin_line :: string

text \<open>The libraries and services: hash constants, codecs, lightwalletd, the voting configuration.\<close>

record (overloaded) 'p sync_deps =
  dep_constants :: "'p poseidon_constants"
  dep_bincode :: bincode
  dep_codec :: meta_codec
  dep_markers :: marker_json
  dep_connect :: "string \<Rightarrow> lwd option"
  dep_snapshot_height :: "string \<Rightarrow> nat result"

section \<open>Tree and tiers\<close>

text \<open>\<open>sync_pipeline::export_tree_and_tiers_from_nullifiers\<close>.\<close>

definition export_tree_and_tiers_from_nullifiers ::
  "'p::len sync_deps \<Rightarrow> 'p fp list \<Rightarrow> dir \<Rightarrow> ZcashNetwork \<Rightarrow> u64 \<Rightarrow> dir result" where
  "export_tree_and_tiers_from_nullifiers D nfs d network chain_height =
     (let d = (case read_tree_checkpoint_header d of
                 Inr (Some (_, hh)) \<Rightarrow> if hh \<noteq> chain_height then run_ops [RemoveFile tree_file] d else d
               | _ \<Rightarrow> d)
      in and_then
           (and_then (load_tree_checkpoint (dep_bincode D) d chain_height) (\<lambda>t.
            case t of
              Some tree \<Rightarrow> Ok (d, tree)
            | None \<Rightarrow> materialize_tree_checkpoint (dep_constants D) (dep_bincode D) nfs d chain_height))
           (\<lambda>(d, tree).
            let (d, r) = export_tiers_from_tree (dep_codec D) tree d network (Some chain_height)
            in and_then r (\<lambda>_. Ok d)))"

section \<open>The command\<close>

definition env_truthy :: "string option \<Rightarrow> bool" where
  "env_truthy v = (case v of None \<Rightarrow> False | Some v \<Rightarrow> v = ''1'' \<or> eq_ignore_ascii_case v ''true'')"

definition SYNC_ARTIFACTS :: "string list" where
  "SYNC_ARTIFACTS =
     [''nullifiers.bin'', ''nullifiers.checkpoint'', ''nullifiers.checkpoint.tmp'', ''nullifiers.index'',
      DATASET_MARKER_FILENAME, ''nullifiers.dataset.json.tmp'', ''nullifiers.tree'', ''nullifiers.tree.tmp'']"

definition TIER_ARTIFACTS :: "string list" where
  "TIER_ARTIFACTS =
     [''tier0.bin'', ''tier1.bin'', ''tier2.bin'', ''pir_root.json'', ''tier1.precompute'', ''tier1.precompute.tmp'',
      ''tier2.precompute'', ''tier2.precompute.tmp'']"

definition delete_sync_artifacts :: "dir \<Rightarrow> dir" where
  "delete_sync_artifacts d = run_ops (map RemoveFile (SYNC_ARTIFACTS @ TIER_ARTIFACTS)) d"

definition prompt_resync_ahead_of_voting :: "sync_env \<Rightarrow> bool \<Rightarrow> unit result" where
  "prompt_resync_ahead_of_voting ev non_interactive =
     (if non_interactive then
        (let ack = (case ev_ack ev of None \<Rightarrow> [] | Some a \<Rightarrow> a)
         in if eq_ignore_ascii_case (trim ack) ''RESYNC'' then Ok ()
            else Bail ''non-interactive mode: set the acknowledgement to confirm wipe'')
      else if \<not> ev_stdin_tty ev then Bail ''stdin is not a terminal''
      else if eq_ignore_ascii_case (trim (ev_stdin_line ev)) ''RESYNC'' then Ok ()
      else Bail ''aborted (expected RESYNC)'')"

definition fetch_chain_tip :: "(string \<Rightarrow> lwd option) \<Rightarrow> string \<Rightarrow> nat result" where
  "fetch_chain_tip connect_lwd url = and_then (ok_or (connect_lwd url) (Error ''connect'')) lwd_latest"

text \<open>The target: chain tip, capped by the requested and the voting height, aligned to ten blocks.\<close>

definition sync_target :: "sync_args \<Rightarrow> nat option \<Rightarrow> nat \<Rightarrow> nat result" where
  "sync_target args snapshot_height chain_tip =
     and_then (case sa_max_height args of
                 None \<Rightarrow> Ok chain_tip
               | Some m \<Rightarrow> and_then (validate_export_height m (sa_zcash_network args)) (\<lambda>_. Ok (min chain_tip m))) (\<lambda>target.
     let target = (case snapshot_height of None \<Rightarrow> target | Some s \<Rightarrow> min target s);
         export_target = (target div 10) * 10
     in and_then (validate_export_height export_target (sa_zcash_network args)) (\<lambda>_. Ok export_target))"

text \<open>Stage 1: bring the nullifiers to the target, and drop derived files if asked to.\<close>

definition sync_stage :: "'p::len sync_deps \<Rightarrow> sync_args \<Rightarrow> string list \<Rightarrow> nat \<Rightarrow> nat option \<Rightarrow> dir \<Rightarrow> dir result" where
  "sync_stage D args lwd_urls export_target local_cp d =
     (let needs_nullifier_sync = (case local_cp of None \<Rightarrow> True | Some h \<Rightarrow> h < export_target)
      in if needs_nullifier_sync then
           and_then (sync (dep_markers D) (dep_connect D) d lwd_urls (sa_zcash_network args) (Some export_target)) (\<lambda>(d, res).
           Ok (if sa_invalidate_after_blocks args \<and> sr_blocks_synced res > 0
               then run_ops (map RemoveFile (INVALIDATE_AFTER_BLOCKS_TREE_FILES @ INVALIDATE_AFTER_BLOCKS_TIER_FILES)) d
               else d))
         else Ok d)"

text \<open>The nullifiers to export when the checkpoint is at \<open>ch\<close>.\<close>

definition select_nullifiers :: "dir \<Rightarrow> nat \<Rightarrow> nat \<Rightarrow> 'p::len fp list result" where
  "select_nullifiers d ch export_target =
     (if ch > export_target then
        and_then (offset_for_height d (word_of_nat export_target)) (\<lambda>entry.
        case entry of
          None \<Rightarrow> Bail ''nullifiers.index has no entry for export height''
        | Some (_, byte_off) \<Rightarrow> load_nullifiers_up_to d byte_off)
      else load_all_nullifiers d)"

text \<open>Stages 2 and 3: drop a tree of another height, then build and export unless complete.\<close>

definition export_stage :: "'p::len sync_deps \<Rightarrow> sync_args \<Rightarrow> nat \<Rightarrow> dir \<Rightarrow> dir result" where
  "export_stage D args export_target d =
     and_then (and_then (load_checkpoint d) (\<lambda>cp. ok_or cp (Error ''missing nullifiers.checkpoint''))) (\<lambda>(ch, _).
     if unat ch < export_target then Bail ''checkpoint height is still below export target''
     else
       let d = (case read_tree_checkpoint_header d of
                  Inr (Some (_, hh)) \<Rightarrow> if hh \<noteq> word_of_nat export_target then run_ops [RemoveFile tree_file] d else d
                | _ \<Rightarrow> d)
       in and_then (tiers_complete_for_height TYPE('p) (dep_codec D) d (sa_zcash_network args) (word_of_nat export_target)) (\<lambda>complete.
          if complete then Ok d
          else
            and_then (select_nullifiers d (unat ch) export_target) (\<lambda>nfs.
            export_tree_and_tiers_from_nullifiers D nfs d (sa_zcash_network args) (word_of_nat export_target))))"

text \<open>The wipe removes the checkpoint.\<close>

lemma wiped_checkpoint:
  "delete_sync_artifacts d checkpoint_path = None"
  "load_checkpoint (delete_sync_artifacts d) = Ok None" "rebuild_index (delete_sync_artifacts d) = Ok (delete_sync_artifacts d)"
proof -
  have "run_ops (map RemoveFile names) d f = (if f \<in> set names then None else d f)" for names d and f :: string
    by (induction names arbitrary: d) auto
  then show "delete_sync_artifacts d checkpoint_path = None"
    by (simp add: delete_sync_artifacts_def SYNC_ARTIFACTS_def checkpoint_path_def)
  then show "load_checkpoint (delete_sync_artifacts d) = Ok None" by (simp add: load_checkpoint_def)
  then show "rebuild_index (delete_sync_artifacts d) = Ok (delete_sync_artifacts d)" by (simp add: rebuild_index_def)
qed

lemma rebuild_index_checkpoint: "rebuild_index d = Inr d' \<Longrightarrow> d' checkpoint_path = d checkpoint_path"
  by (auto simp: rebuild_index_def result_simps append_index_def append_index_ops_def path_defs split: if_splits option.splits prod.splits)

text \<open>
  The loop of \<open>run\<close>. It starts over only after a wipe, and then there is no checkpoint that
  could make it start over again.
\<close>

function sync_run_loop ::
  "'p::len sync_deps \<Rightarrow> sync_args \<Rightarrow> sync_env \<Rightarrow> string list \<Rightarrow> nat option \<Rightarrow> nat \<Rightarrow> dir \<Rightarrow> dir result" where
  "sync_run_loop D args ev lwd_urls snapshot_height export_target d =
     and_then (rebuild_index d) (\<lambda>d.
     and_then (load_checkpoint d) (\<lambda>cp.
     let local_cp = map_option (\<lambda>(h, _). unat h) cp
     in case (snapshot_height, local_cp) of
          (Some snap, Some local) \<Rightarrow>
            if local > snap then
              and_then (prompt_resync_ahead_of_voting ev (sa_non_interactive args)) (\<lambda>_.
              sync_run_loop D args ev lwd_urls snapshot_height export_target (delete_sync_artifacts d))
            else
              and_then (sync_stage D args lwd_urls export_target local_cp d) (export_stage D args export_target)
        | _ \<Rightarrow> and_then (sync_stage D args lwd_urls export_target local_cp d) (export_stage D args export_target)))"
  by pat_completeness auto
termination
proof (relation "measure (\<lambda>(_, _, _, _, _, _, d). if d checkpoint_path = None then 0 else 1)", goal_cases)
  case (2 D args ev urls snap target d d1 cp)
  then have "d1 checkpoint_path \<noteq> None" by (auto simp: load_checkpoint_def split: option.splits)
  with 2 show ?case by (simp add: wiped_checkpoint rebuild_index_checkpoint)
qed simp

declare sync_run_loop.simps [simp del]

definition cmd_sync_run :: "'p::len sync_deps \<Rightarrow> sync_args \<Rightarrow> sync_env \<Rightarrow> dir \<Rightarrow> dir result" where
  "cmd_sync_run D args ev d =
     (let d = (if env_truthy (ev_reset ev) then delete_sync_artifacts d else d)
      in and_then (ensure_ironwood_dataset (dep_markers D) d (sa_zcash_network args)) (\<lambda>d.
         let voting_url = trim (sa_voting_config_url args)
         in and_then (if voting_url = [] then Ok None
                      else and_then (dep_snapshot_height D voting_url) (\<lambda>h. Ok (Some h))) (\<lambda>snapshot_height.
            let lwd_urls = resolve_lwd_urls_with_override (sa_lwd_url args) (ev_lwd_urls ev)
            in if lwd_urls = [] then Bail ''no lightwalletd URLs resolved''
               else
                 and_then (fetch_chain_tip (dep_connect D) (hd lwd_urls)) (\<lambda>chain_tip.
                 and_then (sync_target args snapshot_height chain_tip) (\<lambda>export_target.
                 sync_run_loop D args ev lwd_urls snapshot_height export_target d)))))"

text \<open>After a wipe the stages run at once.\<close>

lemma sync_run_loop_wiped:
  "sync_run_loop D args ev urls snap target (delete_sync_artifacts d) =
     and_then (sync_stage D args urls target None (delete_sync_artifacts d)) (export_stage D args target)"
  by (subst sync_run_loop.simps) (simp add: wiped_checkpoint split: option.split)

section \<open>Files the stages leave alone\<close>

definition store_files :: "string set" where
  "store_files = {nullifiers_path, checkpoint_path, checkpoint_tmp, index_path, marker_tmp, DATASET_MARKER_FILENAME}"

lemma ensure_dataset_frame:
  "ensure_ironwood_dataset J d network = Inr d' \<Longrightarrow> f \<notin> store_files \<Longrightarrow> d' f = d f"
  by (auto simp: ensure_ironwood_dataset_def result_simps Let_def store_files_def split: option.splits if_splits)

lemma truncate_frame: "f \<notin> store_files \<Longrightarrow> truncate_to_checkpoint d off f = d f"
  by (auto simp: truncate_to_checkpoint_def store_files_def split: option.split)

lemma resume_frame:
  assumes "resume_height J d network = Inr (h, d')" "f \<notin> store_files"
  shows "d' f = d f"
proof -
  from assms(1) obtain d0 off where "ensure_ironwood_dataset J d network = Inr d0" "d' = truncate_to_checkpoint d0 off"
    by (auto simp: resume_height_def Let_def and_then_Ok_iff split: option.splits if_splits)
  with assms(2) show ?thesis by (simp add: truncate_frame ensure_dataset_frame)
qed

lemma commit_frame:
  assumes "commit_cycle d nfs h = Inr d'" "f \<notin> store_files"
  shows "d' f = d f"
proof -
  have "d' = run_ops (cycle_ops d nfs h) d" using assms(1) by (simp add: commit_cycle_ops)
  moreover have "f \<notin> op_files op" if "op \<in> set (cycle_ops d nfs h)" for op
    using that assms(2)
    by (auto simp: cycle_ops_def append_nullifiers_ops_def save_checkpoint_ops_def append_index_ops_def store_files_def)
  ultimately show ?thesis by (simp add: run_ops_other)
qed

lemma sync_loop_frame:
  "sync_loop clients target current d tn bs = Inr (d', r) \<Longrightarrow> f \<notin> store_files \<Longrightarrow> d' f = d f"
proof (induction clients target current d tn bs rule: sync_loop.induct)
  case (1 clients target current d tn bs)
  show ?case
  proof (cases "current \<le> target")
    case False
    then show ?thesis using 1(2) by (simp add: sync_loop.simps)
  next
    case True
    then obtain ranges nfs d1 where s: "build_batch_ranges current target (length clients) = Inr ranges" "fetch_cycle clients ranges = Inr nfs"
      "ranges \<noteq> []" "commit_cycle d nfs (snd (last ranges)) = Inr d1"
      "sync_loop clients target (snd (last ranges) + 1) d1 (tn + length nfs) (bs + (snd (last ranges) - current + 1)) = Inr (d', r)"
      using 1(2) by (subst (asm) sync_loop.simps) (auto simp: result_simps split: if_splits)
    have "d' f = d1 f" using 1(1) [OF True s(1,2) _ s(4,5) 1(3)] s(3) by simp
    then show ?thesis using commit_frame [OF s(4) 1(3)] by simp
  qed
qed

lemma sync_frame:
  "sync J connect d urls network mh = Inr (d', r) \<Longrightarrow> f \<notin> store_files \<Longrightarrow> d' f = d f"
  by (auto simp: sync_def result_simps Let_def ensure_dataset_frame resume_frame sync_loop_frame
      split: if_splits prod.splits)

section \<open>Exporting\<close>

text \<open>The directory holds the export of a tree, labelled with a height.\<close>

definition exported :: "meta_codec \<Rightarrow> 'p::len poseidon_constants \<Rightarrow> 'p PirTree \<Rightarrow> ZcashNetwork \<Rightarrow> u64 \<Rightarrow> dir \<Rightarrow> bool" where
  "exported C P tree network h d \<longleftrightarrow>
     d tier0_file = Some (tier0_of P (pt_ranges tree) COMPILED_PIR_LAYOUT) \<and>
     d tier1_file = Some (tier1_of (pt_ranges tree) COMPILED_PIR_LAYOUT) \<and>
     d root_file = Some (meta_to_json C (snapshot_meta C P (pt_ranges tree) network (Some h) COMPILED_PIR_LAYOUT))"

lemma built_is_tree_of:
  "build_pir_tree_from_nullifiers P nfs = Inr tree \<Longrightarrow> pir_tree_of P (pt_ranges tree) = tree"
  by (auto simp: build_pir_tree_from_nullifiers_Ok_iff pir_tree_of_def Let_def)

text \<open>
  Files an earlier run may have left: a tree checkpoint of this version, if there is one, is of another
  height, and so is metadata that can be read.
\<close>

definition earlier_tree :: "dir \<Rightarrow> u64 \<Rightarrow> bool" where
  "earlier_tree d h \<longleftrightarrow> d tree_file = None \<or> (\<exists>schema hh. read_tree_checkpoint_header d = Ok (Some (schema, hh)) \<and> hh \<noteq> h)"

definition earlier_tiers :: "meta_codec \<Rightarrow> dir \<Rightarrow> u64 \<Rightarrow> bool" where
  "earlier_tiers C d h \<longleftrightarrow> (\<forall>m. Option.bind (d root_file) (meta_from_json C) = Some m \<longrightarrow> md_height m \<noteq> Some h)"

lemma earlier_tree_cong: "earlier_tree d h \<Longrightarrow> d' tree_file = d tree_file \<or> d' tree_file = None \<Longrightarrow> earlier_tree d' h"
  by (auto simp: earlier_tree_def read_tree_checkpoint_header_def)

lemma earlier_tiers_cong: "earlier_tiers C d h \<Longrightarrow> d' root_file = d root_file \<or> d' root_file = None \<Longrightarrow> earlier_tiers C d' h"
  by (auto simp: earlier_tiers_def)

lemma earlier_tiers_incomplete:
  "earlier_tiers C d h \<Longrightarrow> tiers_complete_for_height TYPE('p::len) C d network h = Ok False"
  by (auto simp: earlier_tiers_def tiers_complete_for_height_def metadata_matches_def split: option.split sum.split)

text \<open>The tree checkpoint of another height is removed.\<close>

definition drop_stale_tree :: "dir \<Rightarrow> u64 \<Rightarrow> dir" where
  "drop_stale_tree d h =
     (case read_tree_checkpoint_header d of
        Inr (Some (_, hh)) \<Rightarrow> if hh \<noteq> h then run_ops [RemoveFile tree_file] d else d
      | _ \<Rightarrow> d)"

lemma drop_stale_tree_earlier:
  assumes "earlier_tree d h"
  shows "drop_stale_tree d h tree_file = None" "f \<noteq> tree_file \<Longrightarrow> drop_stale_tree d h f = d f"
  using assms by (auto simp: earlier_tree_def drop_stale_tree_def read_tree_checkpoint_header_def)

lemma export_tree_fresh:
  assumes "d tree_file = None" "build_pir_tree_from_nullifiers (dep_constants D) nfs = Inr tree"
    and "bincode_serialize (dep_bincode D) (tree_to_wire tree) = Some payload"
  shows "\<exists>d'. export_tree_and_tiers_from_nullifiers D nfs d network h = Ok d' \<and>
    exported (dep_codec D) (dep_constants D) tree network h d' \<and>
    (\<forall>f. f \<in> store_files \<longrightarrow> d' f = d f)"
proof -
  let ?C = "dep_codec D" and ?P = "dep_constants D"
  let ?d1 = "run_ops (save_tree_ops payload h) d"
  let ?ops = "export_ops ?C (snapshot_meta ?C ?P (pt_ranges tree) network (Some h) COMPILED_PIR_LAYOUT)
    (tier0_of ?P (pt_ranges tree) COMPILED_PIR_LAYOUT) (tier1_of (pt_ranges tree) COMPILED_PIR_LAYOUT)"
  have mat: "materialize_tree_checkpoint ?P (dep_bincode D) nfs d h = Ok (?d1, tree)"
    using assms(2,3)
    by (auto simp: materialize_tree_checkpoint_def build_pir_tree_from_nullifiers_def and_then_Ok_iff
        save_tree_checkpoint_def encode_tree_def)
  have depth: "pir_depth COMPILED_PIR_LAYOUT = PIR_DEPTH" by (simp add: COMPILED_PIR_LAYOUT_def)
  have "export_tiers_from_tree ?C tree ?d1 network (Some h) = (run_ops ?ops ?d1, Ok ())"
    using export_all_with_layout_eq [OF supported_compiled depth, of ?C ?P "pt_ranges tree" ?d1 network "Some h"]
      built_is_tree_of [OF assms(2)]
    by (simp add: export_tiers_from_tree_def export_all_def)
  then have "export_tree_and_tiers_from_nullifiers D nfs d network h = Ok (run_ops ?ops ?d1)"
    using assms(1) mat
    by (simp add: export_tree_and_tiers_from_nullifiers_def read_tree_checkpoint_header_def load_tree_checkpoint_def)
  moreover have "exported ?C ?P tree network h (run_ops ?ops ?d1)"
    by (simp add: exported_def run_export_ops)
  moreover have "f \<notin> op_files op" if "f \<in> store_files" "op \<in> set (save_tree_ops payload h) \<or> op \<in> set ?ops" for f op
    using that by (auto simp: store_files_def path_defs save_tree_ops_def tree_file_def tree_file_tmp_def export_ops_def
        legacy_ops_def evict_stale_precompute_def tier0_file_def tier1_file_def root_file_def)
  then have "run_ops ?ops ?d1 f = d f" if "f \<in> store_files" for f
    using that by (simp add: run_ops_other)
  ultimately show ?thesis by blast
qed

lemma export_stage_fresh:
  fixes D :: "'p::len sync_deps"
  assumes "load_checkpoint d = Ok (Some (ch, off))" "target \<le> unat ch"
    and "earlier_tree d (word_of_nat target)" "earlier_tiers (dep_codec D) d (word_of_nat target)"
    and "select_nullifiers d (unat ch) target = Ok nfs"
    and "build_pir_tree_from_nullifiers (dep_constants D) nfs = Inr tree"
    and "bincode_serialize (dep_bincode D) (tree_to_wire tree) = Some payload"
  shows "\<exists>d'. export_stage D args target d = Ok d' \<and>
    exported (dep_codec D) (dep_constants D) tree (sa_zcash_network args) (word_of_nat target) d' \<and>
    (\<forall>f. f \<in> store_files \<longrightarrow> d' f = d f)"
proof -
  let ?h = "word_of_nat target"
  let ?d = "drop_stale_tree d ?h"
  note dr = drop_stale_tree_earlier [OF assms(3)]
  have files: "root_file \<noteq> tree_file" "f \<in> store_files \<Longrightarrow> f \<noteq> tree_file" for f
    by (auto simp: store_files_def path_defs tree_file_def root_file_def)
  have "earlier_tiers (dep_codec D) ?d ?h" using dr(2) [OF files(1)] by (intro earlier_tiers_cong [OF assms(4)]) simp
  then have tc: "tiers_complete_for_height TYPE('p) (dep_codec D) ?d (sa_zcash_network args) ?h = Ok False"
    by (rule earlier_tiers_incomplete)
  have same: "?d index_path = d index_path" "?d nullifiers_path = d nullifiers_path"
    using dr(2) by (simp_all add: path_defs tree_file_def)
  have "offset_for_height ?d x = offset_for_height d x" "load_nullifiers_up_to ?d x = (load_nullifiers_up_to d x :: 'p fp list result)"
    "load_all_nullifiers ?d = (load_all_nullifiers d :: 'p fp list result)" for x
    by (simp_all add: offset_for_height_def load_nullifiers_up_to_def load_all_nullifiers_def same)
  then have sel: "select_nullifiers ?d (unat ch) target = Ok nfs"
    using assms(5) by (simp only: select_nullifiers_def)
  have "export_stage D args target d = export_tree_and_tiers_from_nullifiers D nfs ?d (sa_zcash_network args) ?h"
    using assms(1,2) tc sel by (simp add: export_stage_def drop_stale_tree_def Let_def)
  moreover obtain d' where "export_tree_and_tiers_from_nullifiers D nfs ?d (sa_zcash_network args) ?h = Ok d'"
    "exported (dep_codec D) (dep_constants D) tree (sa_zcash_network args) ?h d'" "\<And>f. f \<in> store_files \<Longrightarrow> d' f = ?d f"
    using export_tree_fresh [of ?d, OF dr(1) assms(6,7)] by blast
  ultimately show ?thesis using dr(2) files(2) by (intro exI [of _ d']) auto
qed

lemma no_earlier_files:
  "d tree_file = None \<Longrightarrow> earlier_tree d h" "d root_file = None \<Longrightarrow> earlier_tiers C d h"
  by (simp_all add: earlier_tree_def earlier_tiers_def)

text \<open>Loading a file that holds whole canonical nullifiers.\<close>

lemma load_all_concat:
  "file_bytes d nullifiers_path = concat (map to_repr nfs) \<Longrightarrow> load_all_nullifiers d = Ok (nfs :: 'p::len fp list)"
proof -
  assume f: "file_bytes d nullifiers_path = concat (map to_repr nfs)"
  show ?thesis
  proof (cases "d nullifiers_path")
    case None
    then have "length (concat (map to_repr nfs)) = 0" using f by (simp add: file_bytes_def)
    then show ?thesis using None by (simp add: fp_codec.length_concat_enc load_all_nullifiers_def)
  next
    case (Some data)
    then show ?thesis
      using f parse_nullifier_bytes_concat [of nfs]
      by (simp add: file_bytes_def load_all_nullifiers_def NULLIFIER_SIZE_def fp_codec.length_concat_enc)
  qed
qed

lemma rebuild_index_recovers:
  assumes "recovers d a"
  obtains d1 where "rebuild_index d = Ok d1" "recovers d1 a" "\<And>f. f \<noteq> index_path \<Longrightarrow> d1 f = d f"
proof (cases "d index_path = None")
  case False
  with assms that [of d] show ?thesis by (simp add: rebuild_index_def)
next
  case True
  show ?thesis
  proof (cases a)
    case None
    with True load_checkpoint_recovers [OF assms] assms that [of d] show ?thesis by (simp add: rebuild_index_def)
  next
    case (Some p)
    obtain h bs where a: "a = Some (h, bs)" using Some by (cases p) simp
    let ?d1 = "append_index d h (word_of_nat (length bs))"
    have "rebuild_index d = Ok ?d1"
      using True load_checkpoint_recovers [OF assms] a by (simp add: rebuild_index_def)
    moreover have fr: "?d1 f = d f" if "f \<noteq> index_path" for f
      using that by (simp add: append_index_def append_index_ops_def)
    moreover have "recovers ?d1 a" using assms by (simp add: recovers_def a fr)
    ultimately show ?thesis using that by blast
  qed
qed

section \<open>A run over a chain\<close>

lemma ensure_dataset_same:
  assumes "ensure_ironwood_dataset J d network = Inr d" "d DATASET_MARKER_FILENAME \<noteq> None"
    and "d1 DATASET_MARKER_FILENAME = d DATASET_MARKER_FILENAME"
  shows "ensure_ironwood_dataset J d1 network = Inr d1"
  using assms by (auto simp: ensure_ironwood_dataset_def result_simps)

lemma validated_target:
  assumes "sync_target args snap tip = Inr target"
  shows "nu6_3_activation_height (sa_zcash_network args) \<le> target" "target mod 10 = 0" "target \<le> tip"
    "\<And>s. snap = Some s \<Longrightarrow> target \<le> s" "\<And>m. sa_max_height args = Some m \<Longrightarrow> target \<le> m"
proof -
  obtain cap where "target = (cap div 10) * 10" "cap \<le> tip" "\<And>s. snap = Some s \<Longrightarrow> cap \<le> s" "\<And>m. sa_max_height args = Some m \<Longrightarrow> cap \<le> m"
    and v: "validate_export_height target (sa_zcash_network args) = Inr ()"
    using assms by (auto simp: sync_target_def and_then_Ok_iff Let_def split: option.splits)
  moreover have "(cap div 10) * 10 \<le> cap" by (rule div_times_less_eq_dividend)
  ultimately show "target \<le> tip" "\<And>s. snap = Some s \<Longrightarrow> target \<le> s" "\<And>m. sa_max_height args = Some m \<Longrightarrow> target \<le> m"
    by (fastforce dest: order_trans)+
  show "nu6_3_activation_height (sa_zcash_network args) \<le> target" "target mod 10 = 0"
    using v by (auto simp: validate_export_height_def result_simps)
qed

lemma removed_frame: "f \<notin> set names \<Longrightarrow> run_ops (map RemoveFile names) d f = d f"
  by (rule run_ops_other) auto

text \<open>What the store holds when it has synced a chain up to \<open>start\<close>.\<close>

definition holds_chain :: "ZcashNetwork \<Rightarrow> chain \<Rightarrow> nat \<Rightarrow> astore \<Rightarrow> bool" where
  "holds_chain network chain start a \<longleftrightarrow>
     start = (case a of None \<Rightarrow> nu6_3_activation_height network - 1 | Some (h, _) \<Rightarrow> unat h) \<and>
     nu6_3_activation_height network - 1 \<le> start \<and>
     committed_bytes a = concat (map snd (chain_nfs chain (nu6_3_activation_height network) start)) \<and>
     (a \<noteq> None \<longrightarrow> nu6_3_activation_height network \<le> start)"

lemma activation_positive: "0 < nu6_3_activation_height network"
  by (cases network) (simp_all add: NU6_3_MAINNET_ACTIVATION_HEIGHT_def NU6_3_TESTNET_ACTIVATION_HEIGHT_def)

lemma resume_chain:
  assumes "recovers d a" "ensure_ironwood_dataset J d network = Inr d0" "holds_chain network chain start a"
  obtains d1 where "resume_height J d network = Inr (start, d1)"
proof -
  note lc = load_checkpoint_recovers [OF ensure_dataset_recovers [OF assms(2,1)]]
  have "\<exists>d1. resume_height J d network = Inr (start, d1)"
    using lc assms(2,3) by (cases a) (auto simp: resume_height_def holds_chain_def split: prod.splits)
  with that show thesis by blast
qed

lemma chain_bytes_split:
  assumes "holds_chain network chain start a" "start < target"
  shows "committed_bytes a @ concat (map snd (chain_nfs chain (start + 1) target)) =
    concat (map snd (chain_nfs chain (nu6_3_activation_height network) target))"
proof -
  let ?act = "nu6_3_activation_height network"
  have "?act \<le> Suc start" using assms(1) unfolding holds_chain_def by linarith
  moreover have "Suc start + (target - start) = Suc target" using assms(2) by simp
  ultimately have "[?act..<Suc start] @ [start + 1..<Suc target] = [?act..<Suc target]"
    using upt_add_eq_append [of ?act "Suc start" "target - start"] by (simp del: upt_Suc)
  then have "chain_nfs chain ?act target = chain_nfs chain ?act start @ chain_nfs chain (start + 1) target"
    unfolding chain_nfs_def by (metis concat_append map_append)
  with assms(1) show ?thesis by (simp add: holds_chain_def)
qed

lemma invalidate_keeps:
  assumes "d' = (if b then run_ops (map RemoveFile (INVALIDATE_AFTER_BLOCKS_TREE_FILES @ INVALIDATE_AFTER_BLOCKS_TIER_FILES)) d else d)"
  shows "file_bytes d' nullifiers_path = file_bytes d nullifiers_path" "load_checkpoint d' = load_checkpoint d"
    "d' f = d f \<or> d' f = None"
proof -
  let ?inv = "INVALIDATE_AFTER_BLOCKS_TREE_FILES @ INVALIDATE_AFTER_BLOCKS_TIER_FILES"
  have names: "nullifiers_path \<notin> set ?inv" "checkpoint_path \<notin> set ?inv"
    by (simp_all add: INVALIDATE_AFTER_BLOCKS_TREE_FILES_def INVALIDATE_AFTER_BLOCKS_TIER_FILES_def nullifiers_path_def checkpoint_path_def)
  have "d' nullifiers_path = d nullifiers_path" "d' checkpoint_path = d checkpoint_path"
    unfolding assms using removed_frame [OF names(1), of d] removed_frame [OF names(2), of d] by simp_all
  then show "file_bytes d' nullifiers_path = file_bytes d nullifiers_path" "load_checkpoint d' = load_checkpoint d"
    by (simp_all add: file_bytes_def load_checkpoint_def)
  have "run_ops (map RemoveFile names) d f = (if f \<in> set names then None else d f)" for names
    by (induction names arbitrary: d) auto
  then show "d' f = d f \<or> d' f = None" unfolding assms by (simp del: map_append)
qed

lemma sync_stage_chain:
  fixes D :: "'p::len sync_deps"
  assumes rec: "recovers d a" and hc: "holds_chain (sa_zcash_network args) chain start a" and lt: "start < target"
    and ds: "ensure_ironwood_dataset (dep_markers D) d (sa_zcash_network args) = Inr d"
    and tip: "fetch_chain_tip (dep_connect D) (hd urls) = Inr tip" "urls \<noteq> []" "target \<le> tip"
    and cl: "\<And>c. c \<in> set (List.map_filter (dep_connect D) urls) \<Longrightarrow>
      require_ironwood_tree_state c (sa_zcash_network args) target = Inr () \<and> serves chain target c"
    and wf: "chain_wf chain" and fits: "target + BATCH_SIZE < 2 ^ USIZE_BITS"
      "32 * length (chain_nfs chain (nu6_3_activation_height (sa_zcash_network args)) target) < 2 ^ 64"
    and lcp: "local_cp = map_option (\<lambda>(h, _). unat h) cp" "load_checkpoint d = Inr cp"
  shows "\<exists>d'. sync_stage D args urls target local_cp d = Ok d' \<and>
    file_bytes d' nullifiers_path = concat (map snd (chain_nfs chain (nu6_3_activation_height (sa_zcash_network args)) target)) \<and>
    load_checkpoint d' = Ok (Some (word_of_nat target, word_of_nat (length (file_bytes d' nullifiers_path)))) \<and>
    (d' tree_file = d tree_file \<or> d' tree_file = None) \<and> (d' root_file = d root_file \<or> d' root_file = None)"
proof -
  let ?net = "sa_zcash_network args"
  obtain client where c: "dep_connect D (hd urls) = Some client" "lwd_latest client = Inr tip"
    using tip(1) by (auto simp: fetch_chain_tip_def result_simps)
  then obtain clients where cls: "List.map_filter (dep_connect D) urls = client # clients"
    using tip(2) by (cases urls) (auto simp: map_filter_simps)
  obtain d1 where res: "resume_height (dep_markers D) d ?net = Inr (start, d1)"
    using resume_chain [OF rec ds hc] by blast
  have tgt: "resolve_target start (Some target) tip = Inr target"
    using lt tip(3) by (simp add: resolve_target_def)
  have len: "length (concat (map snd (chain_nfs chain (nu6_3_activation_height ?net) target))) =
      32 * length (chain_nfs chain (nu6_3_activation_height ?net) target)"
    by (rule cycle_appended [OF chain_nfs_lengths [OF wf]])
  have fit2: "length (committed_bytes a) + 32 * length (chain_nfs chain (start + 1) target) < 2 ^ 64"
    using arg_cong [OF chain_bytes_split [OF hc lt], of length] len fits(2)
      cycle_appended [OF chain_nfs_lengths [OF wf, of "start + 1" target]] by simp
  have cl': "\<And>c. c \<in> set (client # clients) \<Longrightarrow> require_ironwood_tree_state c ?net target = Inr () \<and> serves chain target c"
    using cl cls by simp
  obtain d2 where s: "sync (dep_markers D) (dep_connect D) d urls ?net (Some target) =
      Ok (d2, \<lparr>sr_chain_tip = tip, sr_blocks_synced = target - start, sr_nullifiers_synced = length (chain_nfs chain (start + 1) target)\<rparr>)"
    "file_bytes d2 nullifiers_path = committed_bytes a @ concat (map snd (chain_nfs chain (start + 1) target))"
    "load_checkpoint d2 = Ok (Some (word_of_nat target, word_of_nat (length (file_bytes d2 nullifiers_path))))"
    using sync_chain [OF tip(2) rec ds cls c(2) res tgt cl' wf fits(1) lt fit2] by blast
  have need: "(case local_cp of None \<Rightarrow> True | Some h \<Rightarrow> h < target)"
    using lcp load_checkpoint_recovers [OF rec] hc lt by (auto simp: holds_chain_def split: option.splits)
  define d' where "d' = (if sa_invalidate_after_blocks args \<and> target - start > 0
    then run_ops (map RemoveFile (INVALIDATE_AFTER_BLOCKS_TREE_FILES @ INVALIDATE_AFTER_BLOCKS_TIER_FILES)) d2 else d2)"
  have st: "sync_stage D args urls target local_cp d = Ok d'" using need s(1) by (simp add: sync_stage_def Let_def d'_def)
  have out: "tree_file \<notin> store_files" "root_file \<notin> store_files"
    by (simp_all add: store_files_def path_defs tree_file_def root_file_def)
  note inv = invalidate_keeps [OF d'_def]
  from st s(1,3) s(2) [unfolded chain_bytes_split [OF hc lt]] inv(1,2) inv(3) [of tree_file] inv(3) [of root_file]
    sync_frame [OF s(1) out(1)] sync_frame [OF s(1) out(2)] show ?thesis by (intro exI [of _ d']) simp
qed

lemma sync_run_loop_chain:
  fixes D :: "'p::len sync_deps" and nfs :: "'p fp list"
  assumes rec: "recovers d a" and hc: "holds_chain (sa_zcash_network args) chain start a" and lt: "start < target"
    and ds: "ensure_ironwood_dataset (dep_markers D) d (sa_zcash_network args) = Inr d" "d DATASET_MARKER_FILENAME \<noteq> None"
    and tip: "fetch_chain_tip (dep_connect D) (hd urls) = Inr tip" "urls \<noteq> []" "target \<le> tip"
    and snap: "\<And>s. snap = Some s \<Longrightarrow> target \<le> s"
    and cl: "\<And>c. c \<in> set (List.map_filter (dep_connect D) urls) \<Longrightarrow>
      require_ironwood_tree_state c (sa_zcash_network args) target = Inr () \<and> serves chain target c"
    and wf: "chain_wf chain" and fits: "target + BATCH_SIZE < 2 ^ USIZE_BITS"
      "32 * length (chain_nfs chain (nu6_3_activation_height (sa_zcash_network args)) target) < 2 ^ 64"
    and out: "earlier_tree d (word_of_nat target)" "earlier_tiers (dep_codec D) d (word_of_nat target)"
    and nfs: "map snd (chain_nfs chain (nu6_3_activation_height (sa_zcash_network args)) target) = map to_repr nfs"
    and tree: "build_pir_tree_from_nullifiers (dep_constants D) nfs = Inr tree"
      "bincode_serialize (dep_bincode D) (tree_to_wire tree) = Some payload"
  shows "\<exists>d'. sync_run_loop D args ev urls snap target d = Ok d' \<and>
    exported (dep_codec D) (dep_constants D) tree (sa_zcash_network args) (word_of_nat target) d' \<and>
    file_bytes d' nullifiers_path = concat (map to_repr nfs) \<and>
    load_checkpoint d' = Ok (Some (word_of_nat target, word_of_nat (32 * length nfs)))"
proof -
  obtain d1 where d1: "rebuild_index d = Ok d1" "recovers d1 a" "\<And>f. f \<noteq> index_path \<Longrightarrow> d1 f = d f"
    using rebuild_index_recovers [OF rec] by blast
  have names: "DATASET_MARKER_FILENAME \<noteq> index_path" "tree_file \<noteq> index_path" "root_file \<noteq> index_path"
    by (simp_all add: path_defs tree_file_def root_file_def)
  have ds1: "ensure_ironwood_dataset (dep_markers D) d1 (sa_zcash_network args) = Inr d1"
    using d1(3) [OF names(1)] by (rule ensure_dataset_same [of _ d, OF ds])
  have out1: "earlier_tree d1 (word_of_nat target)" "earlier_tiers (dep_codec D) d1 (word_of_nat target)"
    using earlier_tree_cong [OF out(1)] earlier_tiers_cong [OF out(2)] d1(3) [OF names(2)] d1(3) [OF names(3)] by simp_all
  define cp where "cp = (case a of None \<Rightarrow> None | Some (h, bs) \<Rightarrow> Some (h, word_of_nat (length bs) :: u64))"
  have lc: "load_checkpoint d1 = Inr cp" unfolding cp_def by (rule load_checkpoint_recovers [OF d1(2)])
  define local_cp where "local_cp = map_option (\<lambda>(h, _). unat h) cp"
  have below: "local \<le> start" if "local_cp = Some local" for local
    using that hc by (auto simp: local_cp_def cp_def holds_chain_def split: option.splits)
  obtain d2 where d2: "sync_stage D args urls target local_cp d1 = Ok d2"
    "file_bytes d2 nullifiers_path = concat (map snd (chain_nfs chain (nu6_3_activation_height (sa_zcash_network args)) target))"
    "load_checkpoint d2 = Ok (Some (word_of_nat target, word_of_nat (length (file_bytes d2 nullifiers_path))))"
    "earlier_tree d2 (word_of_nat target)" "earlier_tiers (dep_codec D) d2 (word_of_nat target)"
    using sync_stage_chain [OF d1(2) hc lt ds1 tip cl wf fits local_cp_def lc] earlier_tree_cong [OF out1(1)] earlier_tiers_cong [OF out1(2)] by blast
  have f2: "file_bytes d2 nullifiers_path = concat (map to_repr nfs)" using d2(2) nfs by simp
  have t64: "unat (word_of_nat target :: u64) = target"
    using fits(1) by (simp add: unat_of_nat USIZE_BITS_def)
  have "select_nullifiers d2 (unat (word_of_nat target :: u64)) target = Ok nfs"
    by (simp add: select_nullifiers_def t64 load_all_concat [OF f2])
  from export_stage_fresh [of d2, OF d2(3) _ d2(4,5) this tree] t64 obtain d3 where
    d3: "export_stage D args target d2 = Ok d3"
      "exported (dep_codec D) (dep_constants D) tree (sa_zcash_network args) (word_of_nat target) d3"
      "\<And>f. f \<in> store_files \<Longrightarrow> d3 f = d2 f" by auto
  have "sync_run_loop D args ev urls snap target d = and_then (sync_stage D args urls target local_cp d1) (export_stage D args target)"
  proof -
    have "\<not> s < local" if "snap = Some s" "local_cp = Some local" for s local
      using below [OF that(2)] snap [OF that(1)] lt by linarith
    then show ?thesis
      using d1(1) lc by (cases snap; cases cp) (subst sync_run_loop.simps; auto simp: local_cp_def Let_def)+
  qed
  with d2(1) d3(1) have "sync_run_loop D args ev urls snap target d = Ok d3" by simp
  moreover have "file_bytes d3 nullifiers_path = concat (map to_repr nfs)" "load_checkpoint d3 = load_checkpoint d2"
    using d3(3) f2 by (simp_all add: store_files_def file_bytes_def load_checkpoint_def)
  ultimately show ?thesis
    using d3(2) d2(3) f2 by (intro exI [of _ d3]) (simp add: fp_codec.length_concat_enc)
qed

end
