(* ===== verification/Registry.thy ===== *)
theory Registry
  imports Apm_Scrape Request_Metrics Bootstrap Status "HOL-Library.Multiset"
begin

text \<open>
  The metrics registry of the server (\<^verbatim>\<open>build_metrics\<close> of \<^verbatim>\<open>nf-server/src/metrics.rs\<close>), the
  metrics registered in it with their values, and \<^verbatim>\<open>GET /metrics\<close>. The Prometheus library is a parameter: creating and
  registering a metric, \<^verbatim>\<open>gather\<close>, which drops the families without a sample, and the text encoder, which writes the documented
  exposition format of families that have one. The
  lemmas show that building the registry does not panic, and follow the request counters and gauges from the
  middleware through the text to the snapshot of the monitoring agent.
\<close>

section \<open>Descriptors\<close>

datatype metric_kind = IntCounter | IntGauge | Histogram "rat list"

record metric_desc =
  ds_name :: string
  ds_help :: string
  ds_labels :: "string list"
  ds_kind :: metric_kind

definition bootstrap_attempts_desc :: metric_desc where
  "bootstrap_attempts_desc =
     \<lparr>ds_name = ''nf_snapshot_bootstrap_attempts_total'',
      ds_help = ''Total number of snapshot-bootstrap attempts at startup.'', ds_labels = [], ds_kind = IntCounter\<rparr>"

definition bootstrap_outcomes_desc :: metric_desc where
  "bootstrap_outcomes_desc =
     \<lparr>ds_name = ''nf_snapshot_bootstrap_outcomes_total'',
      ds_help = ''Snapshot-bootstrap outcomes at startup, partitioned by result.'', ds_labels = [''result''], ds_kind = IntCounter\<rparr>"

definition bootstrap_bytes_desc :: metric_desc where
  "bootstrap_bytes_desc =
     \<lparr>ds_name = ''nf_snapshot_bootstrap_bytes_total'',
      ds_help = ''Cumulative bytes downloaded by the snapshot bootstrap (manifest + tier files).'', ds_labels = [], ds_kind = IntCounter\<rparr>"

definition bootstrap_duration_desc :: metric_desc where
  "bootstrap_duration_desc =
     \<lparr>ds_name = ''nf_snapshot_bootstrap_duration_seconds'',
      ds_help = ''End-to-end snapshot-bootstrap duration, including manifest + tier downloads.'', ds_labels = [],
      ds_kind = Histogram [1, 5, 15, 30, 60, 120, 300, 600, 1200, 1800]\<rparr>"

definition served_height_desc :: metric_desc where
  "served_height_desc =
     \<lparr>ds_name = ''nf_snapshot_served_height'',
      ds_help = ''Block height of the snapshot currently loaded on disk (0 if no usable local snapshot at startup).'',
      ds_labels = [], ds_kind = IntGauge\<rparr>"

definition expected_height_desc :: metric_desc where
  "expected_height_desc =
     \<lparr>ds_name = ''nf_snapshot_expected_height'',
      ds_help = ''Block height the configured snapshot source says we should be serving (0 if no source declared one or it hasn'' @
        [CHR 0x27] @ ''t been fetched yet).'',
      ds_labels = [], ds_kind = IntGauge\<rparr>"

definition stale_seconds_desc :: metric_desc where
  "stale_seconds_desc =
     \<lparr>ds_name = ''nf_snapshot_stale_seconds'',
      ds_help = ''Seconds this host has been continuously observed serving a snapshot older than the canonical configured height '' @
        ''(0 if currently converged).'',
      ds_labels = [], ds_kind = IntGauge\<rparr>"

definition http_requests_desc :: metric_desc where
  "http_requests_desc =
     \<lparr>ds_name = ''nf_http_requests_total'',
      ds_help = ''PIR API requests partitioned by allowlisted endpoint, method, and status.'',
      ds_labels = [''endpoint'', ''method'', ''status''], ds_kind = IntCounter\<rparr>"

definition http_request_duration_desc :: metric_desc where
  "http_request_duration_desc =
     \<lparr>ds_name = ''nf_http_request_duration_seconds'',
      ds_help = ''Time from nf-server receiving request headers until the route produces a response. '' @
        ''Includes request body receive time but excludes response transmission.'',
      ds_labels = [''endpoint''], ds_kind = Histogram [5 / 100, 1 / 10, 1 / 4, 1 / 2, 1, 2, 5, 10]\<rparr>"

definition http_request_body_receive_duration_desc :: metric_desc where
  "http_request_body_receive_duration_desc =
     \<lparr>ds_name = ''nf_http_request_body_receive_duration_seconds'',
      ds_help = ''Time from nf-server receiving request headers until the complete request body is available for processing.'',
      ds_labels = [''endpoint''], ds_kind = Histogram [5 / 100, 1 / 10, 1 / 4, 1 / 2, 1, 2, 5, 10, 15, 30, 60, 120, 300]\<rparr>"

definition http_request_processing_duration_desc :: metric_desc where
  "http_request_processing_duration_desc =
     \<lparr>ds_name = ''nf_http_request_processing_duration_seconds'',
      ds_help = ''Time spent processing an allowlisted PIR request after its complete body is available.'',
      ds_labels = [''endpoint''], ds_kind = Histogram [5 / 100, 1 / 10, 1 / 4, 1 / 2, 1, 2, 5, 10]\<rparr>"

definition http_in_flight_desc :: metric_desc where
  "http_in_flight_desc =
     \<lparr>ds_name = ''nf_http_in_flight'',
      ds_help = ''Requests received by nf-server that have not produced a response.'', ds_labels = [''endpoint''], ds_kind = IntGauge\<rparr>"

definition http_processing_in_flight_desc :: metric_desc where
  "http_processing_in_flight_desc =
     \<lparr>ds_name = ''nf_http_processing_in_flight'',
      ds_help = ''Requests being processed after their complete bodies have been received.'', ds_labels = [''endpoint''], ds_kind = IntGauge\<rparr>"

text \<open>In the order in which they are created and registered.\<close>

definition metric_descs :: "metric_desc list" where
  "metric_descs =
     [bootstrap_attempts_desc, bootstrap_outcomes_desc, bootstrap_bytes_desc, bootstrap_duration_desc, served_height_desc,
      expected_height_desc, stale_seconds_desc, http_requests_desc, http_request_duration_desc,
      http_request_body_receive_duration_desc, http_request_processing_duration_desc, http_in_flight_desc,
      http_processing_in_flight_desc]"

section \<open>The library\<close>

datatype metric_value = IntValue int | FloatValue f64 | Observations "nat list"

type_synonym family = "metric_desc \<times> ((string \<times> string) list \<times> metric_value) list"

text \<open>
  Whether a metric of a descriptor can be created, whether a collector of some descriptors can be
  registered beside those already there, the descriptors of the process collector (none on
  systems other than Linux), \<open>Registry::gather\<close> on what the registered collectors hold, and
  the text encoder.
\<close>

record prometheus =
  pr_new :: "metric_desc \<Rightarrow> bool"
  pr_register :: "metric_desc list \<Rightarrow> metric_desc list \<Rightarrow> bool"
  pr_process :: "metric_desc list"
  pr_gather :: "family list \<Rightarrow> family list"
  pr_format_type :: string
  pr_encode :: "family list \<Rightarrow> string result"

definition build_metrics :: "prometheus \<Rightarrow> metric_desc list result" where
  "build_metrics P =
     and_then (try_fold (\<lambda>ds _. assert_panic (pr_new P ds) ''valid metric'' (Ok ())) metric_descs ()) (\<lambda>_.
     try_fold (\<lambda>collector registry. assert_panic (pr_register P registry collector) ''register'' (Ok (registry @ collector)))
       (map (\<lambda>ds. [ds]) metric_descs @ (if pr_process P = [] then [] else [pr_process P])) [])"
section \<open>Collecting and answering\<close>

text \<open>\<open>Duration::as_secs_f64\<close> of nanoseconds.\<close>

definition as_secs_f64 :: "nat \<Rightarrow> f64" where
  "as_secs_f64 d = f_add (fround (of_nat (d div 1000000000))) (f_div (fround (of_nat (d mod 1000000000))) (Fin 1000000000))"

record service_metrics =
  sv_boot :: boot_metrics
  sv_boot_duration :: "nat list"
  sv_requests :: request_metrics

text \<open>\<open>bootstrap_duration_observe\<close>.\<close>

definition bootstrap_duration_observe :: "nat \<Rightarrow> service_metrics \<Rightarrow> service_metrics" where
  "bootstrap_duration_observe d m = m\<lparr>sv_boot_duration := observe (sv_boot_duration m) d\<rparr>"

text \<open>
  The metrics that \<open>build_metrics\<close> registers, each descriptor with the values of the field of
  \<open>Metrics\<close> it was cloned to. A metric with labels has a value for each
  combination of label values used so far: \<open>touched\<close> for the request counter, \<open>eps\<close> by the name of
  a metric for those with an endpoint. \<open>process\<close> is what the process collector reports.
\<close>

definition endpoint_family :: "(string \<Rightarrow> string list) \<Rightarrow> metric_desc \<Rightarrow> (string \<Rightarrow> metric_value) \<Rightarrow> family" where
  "endpoint_family eps ds v = (ds, map (\<lambda>ep. ([(''endpoint'', ep)], v ep)) (eps (ds_name ds)))"

definition registered ::
  "(string \<times> string \<times> u16) list \<Rightarrow> (string \<Rightarrow> string list) \<Rightarrow> family list \<Rightarrow> service_metrics \<Rightarrow> family list" where
  "registered touched eps process m =
     (let b = sv_boot m; r = sv_requests m in
      [(bootstrap_attempts_desc, [([], IntValue (int (bm_attempts b)))]),
       (bootstrap_outcomes_desc, map (\<lambda>l. ([(''result'', l)], IntValue (int (count_list (bm_outcomes b) l)))) (remdups (bm_outcomes b))),
       (bootstrap_bytes_desc, [([], IntValue (int (bm_bytes b)))]),
       (bootstrap_duration_desc, if sv_boot_duration m = [] then [] else [([], Observations (sv_boot_duration m))]),
       (served_height_desc, [([], IntValue (sint (g_served (bm_gauges b))))]),
       (expected_height_desc, [([], IntValue (sint (g_expected (bm_gauges b))))]),
       (stale_seconds_desc, [([], IntValue (sint (g_stale_seconds (bm_gauges b))))]),
       (http_requests_desc,
         map (\<lambda>(ep, me, st). ([(''endpoint'', ep), (''method'', me), (''status'', show_nat (unat st))],
           IntValue (uint (http_requests r (ep, me, st))))) touched),
       endpoint_family eps http_request_duration_desc (\<lambda>ep. Observations (http_request_duration r ep)),
       endpoint_family eps http_request_body_receive_duration_desc (\<lambda>ep. Observations (http_request_body_receive_duration r ep)),
       endpoint_family eps http_request_processing_duration_desc (\<lambda>ep. Observations (http_request_processing_duration r ep)),
       endpoint_family eps http_in_flight_desc (\<lambda>ep. IntValue (sint (http_in_flight r ep))),
       endpoint_family eps http_processing_in_flight_desc (\<lambda>ep. IntValue (sint (http_processing_in_flight r ep)))] @ process)"

text \<open>\<open>String::from_utf8\<close> accepts well-formed byte sequences.\<close>

definition utf8_tail :: "char \<Rightarrow> bool" where
  "utf8_tail c \<longleftrightarrow> 0x80 \<le> (of_char c :: nat) \<and> (of_char c :: nat) \<le> 0xBF"

definition byte_in :: "nat \<Rightarrow> char \<Rightarrow> nat \<Rightarrow> bool" where
  "byte_in a c b \<longleftrightarrow> a \<le> of_char c \<and> of_char c \<le> b"

fun utf8_valid :: "string \<Rightarrow> bool" where
  "utf8_valid [] \<longleftrightarrow> True"
| "utf8_valid (a # s) \<longleftrightarrow>
     byte_in 0 a 0x7F \<and> utf8_valid s \<or>
     (case s of
        [] \<Rightarrow> False
      | b # s \<Rightarrow>
          byte_in 0xC2 a 0xDF \<and> utf8_tail b \<and> utf8_valid s \<or>
          (case s of
             [] \<Rightarrow> False
           | c # s \<Rightarrow>
               (byte_in 0xE0 a 0xE0 \<and> byte_in 0xA0 b 0xBF \<or> byte_in 0xE1 a 0xEC \<and> utf8_tail b \<or>
                byte_in 0xED a 0xED \<and> byte_in 0x80 b 0x9F \<or> byte_in 0xEE a 0xEF \<and> utf8_tail b) \<and> utf8_tail c \<and> utf8_valid s \<or>
               (case s of
                  [] \<Rightarrow> False
                | d # s \<Rightarrow>
                    (byte_in 0xF0 a 0xF0 \<and> byte_in 0x90 b 0xBF \<or> byte_in 0xF1 a 0xF3 \<and> utf8_tail b \<or>
                     byte_in 0xF4 a 0xF4 \<and> byte_in 0x80 b 0x8F) \<and> utf8_tail c \<and> utf8_tail d \<and> utf8_valid s)))"

text \<open>\<open>GET /metrics\<close>: the status, the content type and the body. The updater's part is appended.\<close>

definition handle_metrics ::
  "prometheus \<Rightarrow> family list \<Rightarrow> (json \<Rightarrow> string) \<Rightarrow> (bytes \<Rightarrow> json option) \<Rightarrow> build \<Rightarrow> bytes option \<Rightarrow> u16 \<times> string \<times> string" where
  "handle_metrics P registry to_text from_json b file =
     (case pr_encode P (pr_gather P registry) of
        Inl (Error e) \<Rightarrow> (500, ''text/plain; charset=utf-8'', ''metrics encode failed: '' @ e)
      | Inl (Panic e) \<Rightarrow> (500, ''text/plain; charset=utf-8'', ''metrics encode failed: '' @ e)
      | Inr buf \<Rightarrow>
          let body = (if utf8_valid buf then buf else ''<invalid utf-8>'')
          in (200, pr_format_type P, body @ status_metrics to_text from_json b file))"

section \<open>What the library documents\<close>

text \<open>Names of metrics and labels.\<close>

definition name_char :: "char \<Rightarrow> bool" where
  "name_char c \<longleftrightarrow> is_ascii_alphanumeric c \<or> c = CHR ''_''"

definition prom_name :: "string \<Rightarrow> bool" where
  "prom_name s \<longleftrightarrow> s \<noteq> [] \<and> \<not> is_ascii_digit (hd s) \<and> list_all name_char s"

definition valid_desc :: "metric_desc \<Rightarrow> bool" where
  "valid_desc ds \<longleftrightarrow> prom_name (ds_name ds) \<and> ds_help ds \<noteq> [] \<and> list_all prom_name (ds_labels ds) \<and> distinct (ds_labels ds) \<and>
     (case ds_kind ds of Histogram bs \<Rightarrow> bs \<noteq> [] \<and> sorted_wrt (<) bs | _ \<Rightarrow> True)"

text \<open>
  A metric with a valid name, help, labels and increasing buckets can be created; a collector can
  be registered when none of its names is taken; the process collector's names are distinct and
  begin with \<open>process_\<close>.
\<close>

definition registry_laws :: "prometheus \<Rightarrow> bool" where
  "registry_laws P \<longleftrightarrow>
     (\<forall>ds. valid_desc ds \<longrightarrow> pr_new P ds) \<and>
     (\<forall>reg c. distinct (map ds_name c) \<longrightarrow> ds_name ` set reg \<inter> ds_name ` set c = {} \<longrightarrow> pr_register P reg c) \<and>
     distinct (map ds_name (pr_process P)) \<and> list_all (\<lambda>ds. starts_with (ds_name ds) ''process_'') (pr_process P)"

text \<open>The lines of the exposition format, with the display of a binary64 number.\<close>

definition sample_line :: "string \<Rightarrow> (string \<times> string) list \<Rightarrow> string \<Rightarrow> string" where
  "sample_line name kvs value =
     name @ (if kvs = [] then [] else CHR ''{'' # print_labels kvs @ [CHR ''}'']) @ CHR '' '' # value"

definition bucket_count :: "nat list \<Rightarrow> rat \<Rightarrow> nat" where
  "bucket_count obs b = length (filter (\<lambda>d. \<not> f_lt (fround b) (as_secs_f64 d)) obs)"

fun value_lines :: "(f64 \<Rightarrow> string) \<Rightarrow> metric_desc \<Rightarrow> (string \<times> string) list \<times> metric_value \<Rightarrow> string list" where
  "value_lines disp ds (kvs, IntValue n) = [sample_line (ds_name ds) kvs (disp (fround (of_int n)))]"
| "value_lines disp ds (kvs, FloatValue x) = [sample_line (ds_name ds) kvs (disp x)]"
| "value_lines disp ds (kvs, Observations obs) =
     map (\<lambda>b. sample_line (ds_name ds @ ''_bucket'') (kvs @ [(''le'', disp (fround b))]) (disp (fround (of_nat (bucket_count obs b)))))
       (case ds_kind ds of Histogram bs \<Rightarrow> bs | _ \<Rightarrow> []) @
     [sample_line (ds_name ds @ ''_bucket'') (kvs @ [(''le'', ''+Inf'')]) (disp (fround (of_nat (length obs)))),
      sample_line (ds_name ds @ ''_sum'') kvs (disp (fold (\<lambda>d x. f_add x (as_secs_f64 d)) obs (Fin 0))),
      sample_line (ds_name ds @ ''_count'') kvs (disp (fround (of_nat (length obs))))]"

definition family_lines :: "(f64 \<Rightarrow> string) \<Rightarrow> family \<Rightarrow> string list" where
  "family_lines disp f = concat (map (value_lines disp (fst f)) (snd f))"

definition is_comment :: "string \<Rightarrow> bool" where
  "is_comment l \<longleftrightarrow> l \<noteq> [] \<and> hd l = CHR ''#''"

definition unlines :: "string list \<Rightarrow> string" where
  "unlines ls = concat (map (\<lambda>l. l @ [CHR 0x0A]) ls)"

text \<open>A family whose names are valid, whose label values are ASCII and whose values are of its kind.\<close>

definition kind_ok :: "metric_kind \<Rightarrow> metric_value \<Rightarrow> bool" where
  "kind_ok k v \<longleftrightarrow> (case k of Histogram _ \<Rightarrow> True | _ \<Rightarrow> False) = (case v of Observations _ \<Rightarrow> True | _ \<Rightarrow> False)"

definition family_ok :: "family \<Rightarrow> bool" where
  "family_ok f \<longleftrightarrow> prom_name (ds_name (fst f)) \<and>
     list_all (\<lambda>(kvs, x). list_all (\<lambda>(k, v). prom_name k \<and> k \<noteq> ''le'' \<and> ascii_string v) kvs \<and> distinct (map fst kvs) \<and>
       kind_ok (ds_kind (fst f)) x) (snd f)"

definition has_samples :: "family \<Rightarrow> bool" where
  "has_samples f \<longleftrightarrow> snd f \<noteq> []"

text \<open>
  \<open>Registry::gather\<close> on families of different names: those that have samples, in some order,
  their samples in some order.
\<close>

definition sample_bag :: "family \<Rightarrow> metric_desc \<times> ((string \<times> string) list \<times> metric_value) multiset" where
  "sample_bag f = (fst f, mset (snd f))"

definition gather_laws :: "prometheus \<Rightarrow> bool" where
  "gather_laws P \<longleftrightarrow>
     (\<forall>fs. distinct (map (\<lambda>f. ds_name (fst f)) fs) \<longrightarrow>
        mset (map sample_bag (pr_gather P fs)) = mset (map sample_bag (filter has_samples fs)))"

text \<open>
  The encoder refuses a family without samples. For families as above that have samples it writes, in valid
  UTF-8, comments and exactly the lines of the families, in some order.
\<close>

definition text_encoder :: "prometheus \<Rightarrow> (f64 \<Rightarrow> string) \<Rightarrow> bool" where
  "text_encoder P disp \<longleftrightarrow>
     (\<forall>fs. list_all (\<lambda>f. family_ok f \<and> has_samples f) fs \<longrightarrow>
        (\<exists>ls. pr_encode P fs = Ok (unlines ls) \<and> utf8_valid (unlines ls) \<and> list_all (\<lambda>l. CHR 0x0A \<notin> set l) ls \<and>
           mset (filter (\<lambda>l. \<not> is_comment l) ls) = mset (concat (map (family_lines disp) fs))))"

text \<open>
  Display of a binary64 number: text without white space that is a number again, and the decimal
  digits of a natural number up to \<open>2 ^ 53\<close>.
\<close>

definition f64_display :: "(f64 \<Rightarrow> string) \<Rightarrow> bool" where
  "f64_display disp \<longleftrightarrow>
     (\<forall>x. (\<exists>y. parse_f64 (disp x) = Some y) \<and> disp x \<noteq> [] \<and> ascii_string (disp x) \<and> list_all (\<lambda>c. \<not> is_space c) (disp x)) \<and>
     (\<forall>n \<le> 2 ^ 53. disp (Fin (of_nat n)) = show_nat n)"

text \<open>JSON text of a string: in quotes, every quote, backslash and control character escaped.\<close>

inductive json_chars :: "string \<Rightarrow> bool" where
  "json_chars []"
| "json_chars s \<Longrightarrow> c \<noteq> CHR 0x22 \<Longrightarrow> c \<noteq> CHR 0x5C \<Longrightarrow> 0x20 \<le> (of_char c :: nat) \<Longrightarrow> json_chars (c # s)"
| "json_chars s \<Longrightarrow> 0x20 \<le> (of_char c :: nat) \<Longrightarrow> json_chars (CHR 0x5C # c # s)"

definition json_strings :: "(json \<Rightarrow> string) \<Rightarrow> bool" where
  "json_strings to_text \<longleftrightarrow> (\<forall>s. \<exists>body. to_text (JString s) = CHR 0x22 # body @ [CHR 0x22] \<and> json_chars body)"

section \<open>The registry is built\<close>

lemma metric_descs_valid: "list_all valid_desc metric_descs"
  by (simp add: metric_descs_def valid_desc_def prom_name_def name_char_def is_ascii_alphanumeric_def is_ascii_digit_def
      bootstrap_attempts_desc_def bootstrap_outcomes_desc_def bootstrap_bytes_desc_def bootstrap_duration_desc_def served_height_desc_def
      expected_height_desc_def stale_seconds_desc_def http_requests_desc_def http_request_duration_desc_def
      http_request_body_receive_duration_desc_def http_request_processing_duration_desc_def http_in_flight_desc_def
      http_processing_in_flight_desc_def)

lemma metric_descs_names:
  "map ds_name metric_descs =
     [''nf_snapshot_bootstrap_attempts_total'', ''nf_snapshot_bootstrap_outcomes_total'', ''nf_snapshot_bootstrap_bytes_total'',
      ''nf_snapshot_bootstrap_duration_seconds'', ''nf_snapshot_served_height'', ''nf_snapshot_expected_height'',
      ''nf_snapshot_stale_seconds'', ''nf_http_requests_total'', ''nf_http_request_duration_seconds'',
      ''nf_http_request_body_receive_duration_seconds'', ''nf_http_request_processing_duration_seconds'', ''nf_http_in_flight'',
      ''nf_http_processing_in_flight'']"
  by (simp add: metric_descs_def
      bootstrap_attempts_desc_def bootstrap_outcomes_desc_def bootstrap_bytes_desc_def bootstrap_duration_desc_def served_height_desc_def
      expected_height_desc_def stale_seconds_desc_def http_requests_desc_def http_request_duration_desc_def
      http_request_body_receive_duration_desc_def http_request_processing_duration_desc_def http_in_flight_desc_def
      http_processing_in_flight_desc_def)

lemma try_fold_check: "list_all Q xs \<Longrightarrow> try_fold (\<lambda>x _. assert_panic (Q x) m (Ok ())) xs () = Ok ()"
  by (induction xs) (simp_all add: assert_panic_def)

lemma register_all:
  assumes "registry_laws P" "list_all (\<lambda>c. distinct (map ds_name c)) cs"
    and "distinct (map ds_name (reg @ concat cs))"
  shows "try_fold (\<lambda>collector registry. assert_panic (pr_register P registry collector) m (Ok (registry @ collector))) cs reg =
    Ok (reg @ concat cs)"
  using assms(2,3)
proof (induction cs arbitrary: reg)
  case (Cons c cs)
  have "ds_name ` set reg \<inter> ds_name ` set c = {}" using Cons.prems(2) by auto
  then have "pr_register P reg c" using assms(1) Cons.prems(1) by (simp add: registry_laws_def)
  then show ?case using Cons.IH [of "reg @ c"] Cons.prems by (simp add: assert_panic_def)
qed simp

lemma build_metrics_Ok:
  assumes "registry_laws P"
  shows "build_metrics P = Ok (metric_descs @ pr_process P)"
proof -
  have new: "list_all (pr_new P) metric_descs"
    using assms metric_descs_valid by (auto simp: registry_laws_def list_all_iff)
  let ?cs = "map (\<lambda>ds. [ds]) metric_descs @ (if pr_process P = [] then [] else [pr_process P])"
  have cs: "concat ?cs = metric_descs @ pr_process P" by auto
  have proc: "distinct (map ds_name (pr_process P))" "\<And>n. n \<in> ds_name ` set (pr_process P) \<Longrightarrow> starts_with n ''process_''"
    using assms by (auto simp: registry_laws_def list_all_iff)
  have "distinct (map ds_name metric_descs)" unfolding metric_descs_names by simp
  moreover have "\<forall>n \<in> set (map ds_name metric_descs). \<not> starts_with n ''process_''" unfolding metric_descs_names by simp
  ultimately have "distinct (map ds_name (metric_descs @ pr_process P))" using proc by auto
  then have "distinct (map ds_name ([] @ concat ?cs))" unfolding cs by simp
  moreover have "list_all (\<lambda>c. distinct (map ds_name c)) ?cs" using proc by (simp add: list_all_iff)
  ultimately show ?thesis
    using register_all [OF assms] new by (simp add: build_metrics_def try_fold_check cs del: append_Nil concat_append)
qed

section \<open>Lines that the agent reads\<close>

lemma prom_name_chars: "prom_name s \<Longrightarrow> c \<in> set s \<Longrightarrow> \<not> is_space c \<and> c \<noteq> CHR ''{'' \<and> c \<noteq> CHR ''='' \<and> \<not> is_separator c \<and> c \<noteq> CHR ''#'' \<and> (of_char c :: nat) < 128"
  by (auto simp: prom_name_def list_all_iff name_char_def is_ascii_alphanumeric_def is_ascii_digit_def is_space_def is_separator_def
      is_ascii_whitespace_def)

lemma prom_name_metric: "prom_name s \<Longrightarrow> metric_name s"
  using prom_name_chars [of s] by (auto simp: metric_name_def list_all_iff prom_name_def)

lemma prom_name_key: "prom_name s \<Longrightarrow> label_key s"
  using prom_name_chars [of s] by (auto simp: label_key_def list_all_iff prom_name_def)

text \<open>A value as it is printed: some characters, none of them white space.\<close>

definition value_text :: "string \<Rightarrow> bool" where
  "value_text t \<longleftrightarrow> t \<noteq> [] \<and> list_all (\<lambda>c. \<not> is_space c) t"

lemma trim_value: "value_text t \<Longrightarrow> trim (CHR '' '' # t) = t"
  using trim_same [of t] by (auto simp: value_text_def list_all_iff trim_def is_space_def [of "CHR '' ''"])

lemma descriptor_value:
  assumes "value_text t" "parse_f64 t = Some v" "d \<noteq> []" "\<not> is_space (last d)" "parse_descriptor d = Ok (name, labels)" "name \<noteq> []"
  shows "parse_line (d @ CHR '' '' # t) = Ok \<lparr>ps_name = name, ps_labels = labels, ps_value = v\<rparr>"
proof -
  have "rsplit_space (d @ CHR '' '' # t) = Some (d, CHR '' '' # t)"
    using rsplit_last [of t "CHR '' ''" d] assms(1) by (simp add: value_text_def list_all_iff is_space_def [of "CHR '' ''"])
  moreover have "rev (dropWhile is_space (rev d)) = d" using assms(3,4) by (simp add: dropWhile_eq_self_iff hd_rev rev_swap)
  ultimately show ?thesis using assms by (simp add: parse_line_def trim_value result_simps Let_def)
qed

lemma parse_sample_line:
  assumes "prom_name name" "list_all (\<lambda>(k, v). prom_name k \<and> ascii_string v) kvs" "distinct (map fst kvs)"
    and "value_text t" "parse_f64 t = Some v"
  shows "parse_line (sample_line name kvs t) = Ok \<lparr>ps_name = name, ps_labels = map_of kvs, ps_value = v\<rparr>"
proof -
  let ?d = "name @ (if kvs = [] then [] else CHR ''{'' # print_labels kvs @ [CHR ''}''])"
  have nm: "\<forall>c \<in> set name. c \<noteq> CHR ''{''" "name \<noteq> []" "\<not> is_space (last name)"
    using prom_name_chars [OF assms(1)] assms(1) by (auto simp: prom_name_def)
  have "list_all (\<lambda>(k, v). label_key k \<and> ascii_string v) kvs" using assms(2) by (auto simp: list_all_iff prom_name_key)
  then have "parse_descriptor ?d = Ok (name, map_of kvs)"
    using nm parse_print_labels [OF _ assms(3), of Map.empty]
    by (simp add: parse_descriptor_def parse_labels_def dropWhile_append2 takeWhile_append2 result_simps butlast_append
        dropWhile_eq_Nil_conv [THEN iffD2])
  moreover have "\<not> is_space (last ?d)" using nm by (simp add: is_space_def [of "CHR ''}''"])
  ultimately show ?thesis using descriptor_value [OF assms(4,5), of ?d name "map_of kvs"] nm(2) by (simp add: sample_line_def)
qed

text \<open>The sample of a line; a bucket must have a bound that is a number.\<close>

definition line_sample :: "string \<Rightarrow> ParsedSample option" where
  "line_sample l = (if is_comment l then None else result_ok (parse_line l))"

definition bound_ok :: "ParsedSample \<Rightarrow> bool" where
  "bound_ok x \<longleftrightarrow> (\<forall>le. ps_labels x ''le'' = Some le \<longrightarrow> le = ''+Inf'' \<or> parse_f64 le \<noteq> None)"

definition good_line :: "string \<Rightarrow> bool" where
  "good_line l \<longleftrightarrow> CHR 0x0A \<notin> set l \<and> l \<noteq> [] \<and>
     (\<not> is_comment l \<longrightarrow> \<not> is_space (hd l) \<and> \<not> is_space (last l) \<and> (\<exists>x. parse_line l = Ok x \<and> bound_ok x))"

text \<open>The changes of the four figures of an endpoint.\<close>

definition request_value :: "string \<Rightarrow> ParsedSample \<Rightarrow> bool" where
  "request_value ep x \<longleftrightarrow> ps_name x = ''nf_http_requests_total'' \<and> ps_labels x ''endpoint'' = Some ep"

definition error_value :: "string \<Rightarrow> ParsedSample \<Rightarrow> bool" where
  "error_value ep x \<longleftrightarrow> request_value ep x \<and> (\<exists>status. ps_labels x ''status'' = Some status \<and> starts_with status ''5'')"

definition gauge_value :: "string \<Rightarrow> string \<Rightarrow> ParsedSample \<Rightarrow> bool" where
  "gauge_value name ep x \<longleftrightarrow> ps_name x = name \<and> ps_labels x ''endpoint'' = Some ep"

definition same_figures :: "EndpointCumulative \<Rightarrow> EndpointCumulative \<Rightarrow> bool" where
  "same_figures c c' \<longleftrightarrow> ec_requests c' = ec_requests c \<and> ec_errors_5xx c' = ec_errors_5xx c \<and> ec_in_flight c' = ec_in_flight c \<and>
     ec_processing_in_flight c' = ec_processing_in_flight c"

lemma bucket_Ok:
  assumes "bound_ok x" "\<And>f c. same_figures c (h f c)" "es ep = Some c"
  shows "\<exists>es' c'. set_histogram_bucket es x h = Ok es' \<and> es' ep = Some c' \<and> same_figures c c'"
proof (cases "ps_labels x ''endpoint''")
  case (Some e)
  note e = this
  show ?thesis
  proof (cases "ps_labels x ''le''")
    case (Some le)
    then have "le = ''+Inf'' \<or> (\<exists>u. parse_f64 le = Some u)" using assms(1) by (auto simp: bound_ok_def)
    then show ?thesis using Some e assms(2,3) by (auto simp: same_figures_def set_histogram_bucket_def result_simps split: option.splits)
  qed (use e assms(3) in \<open>simp add: set_histogram_bucket_def same_figures_def\<close>)
qed (use assms(3) in \<open>simp add: set_histogram_bucket_def same_figures_def split: option.splits\<close>)

lemma apply_sample_figures:
  assumes "bound_ok x" "ms_endpoints s ep = Some c"
  shows "\<exists>s' c'. apply_sample x s = Ok s' \<and> ms_endpoints s' ep = Some c' \<and>
    ec_requests c' = (if request_value ep x then f_add (ec_requests c) (ps_value x) else ec_requests c) \<and>
    ec_errors_5xx c' = (if error_value ep x then f_add (ec_errors_5xx c) (ps_value x) else ec_errors_5xx c) \<and>
    ec_in_flight c' = (if gauge_value ''nf_http_in_flight'' ep x then ps_value x else ec_in_flight c) \<and>
    ec_processing_in_flight c' = (if gauge_value ''nf_http_processing_in_flight'' ep x then ps_value x else ec_processing_in_flight c)"
proof -
  let ?N = "ps_name x"
  have b1: "\<exists>es' c'. set_histogram_bucket (ms_endpoints s) x (\<lambda>f c. c\<lparr>ec_observed := f (ec_observed c)\<rparr>) = Ok es' \<and> es' ep = Some c' \<and>
      same_figures c c'"
    and b2: "\<exists>es' c'. set_histogram_bucket (ms_endpoints s) x (\<lambda>f c. c\<lparr>ec_processing := f (ec_processing c)\<rparr>) = Ok es' \<and> es' ep = Some c' \<and>
      same_figures c c'"
    by (rule bucket_Ok; simp add: assms same_figures_def)+
  consider "?N = ''nf_http_request_duration_seconds_bucket''" | "?N = ''nf_http_request_processing_duration_seconds_bucket''"
    | "?N = ''nf_http_requests_total''" | "?N = ''nf_http_in_flight''" | "?N = ''nf_http_processing_in_flight''"
    | "?N = ''nf_http_request_duration_seconds_sum'' \<or> ?N = ''nf_http_request_duration_seconds_count'' \<or>
       ?N = ''nf_http_request_processing_duration_seconds_sum'' \<or> ?N = ''nf_http_request_processing_duration_seconds_count''"
    | "?N \<notin> {''nf_http_request_duration_seconds_bucket'', ''nf_http_request_processing_duration_seconds_bucket'', ''nf_http_requests_total'',
        ''nf_http_in_flight'', ''nf_http_processing_in_flight'', ''nf_http_request_duration_seconds_sum'', ''nf_http_request_duration_seconds_count'',
        ''nf_http_request_processing_duration_seconds_sum'', ''nf_http_request_processing_duration_seconds_count''}"
    by blast
  then show ?thesis
  proof cases
    case 1 then show ?thesis using b1 by (auto simp: apply_sample_def Let_def request_value_def error_value_def gauge_value_def same_figures_def result_simps)
  next
    case 2 then show ?thesis using b2 by (auto simp: apply_sample_def Let_def request_value_def error_value_def gauge_value_def same_figures_def result_simps)
  next
    case 3 then show ?thesis using assms(2)
      by (auto simp: apply_sample_def Let_def request_value_def error_value_def gauge_value_def at_endpoint_def count_request_def split: option.splits)
  next
    case 4 then show ?thesis using assms(2)
      by (auto simp: apply_sample_def Let_def request_value_def error_value_def gauge_value_def at_endpoint_def set_endpoint_value_def split: option.splits)
  next
    case 5 then show ?thesis using assms(2)
      by (auto simp: apply_sample_def Let_def request_value_def error_value_def gauge_value_def at_endpoint_def set_endpoint_value_def split: option.splits)
  next
    case 6 then show ?thesis using assms(2)
      by (auto simp: apply_sample_def Let_def request_value_def error_value_def gauge_value_def at_endpoint_def set_histogram_value_def split: option.splits)
  next
    case 7 then show ?thesis using assms(2)
      by (auto simp: apply_sample_def Let_def request_value_def error_value_def gauge_value_def)
  qed
qed

lemma apply_good_line:
  assumes "good_line l"
  shows "apply_line (i, strip_cr l) s = (case line_sample l of None \<Rightarrow> Ok s | Some x \<Rightarrow> apply_sample x s)"
proof (cases "is_comment l")
  case True
  then obtain c where l: "l = CHR ''#'' # c" by (cases l) (auto simp: is_comment_def)
  have "exposed_ok (Comment c)" using assms by (simp add: good_line_def l)
  then have "apply_line (i, strip_cr l) s = Ok s" using apply_exposed [of "Comment c" i s] by (simp add: l)
  with True show ?thesis by (simp add: line_sample_def)
next
  case False
  then obtain x where x: "parse_line l = Ok x" "l \<noteq> []" "\<not> is_space (hd l)" "\<not> is_space (last l)" using assms by (auto simp: good_line_def)
  then have "strip_cr l = l" by (auto simp: strip_cr_def is_space_def)
  moreover have "trim l = l" using x by (intro trim_same)
  ultimately show ?thesis using False x by (simp add: apply_line_def line_sample_def is_comment_def map_err_def result_simps result_ok_def)
qed

text \<open>What the samples of some lines add up to, and the value a gauge ends with.\<close>

definition sample_nat :: "ParsedSample \<Rightarrow> nat" where
  "sample_nat x = (case ps_value x of Fin r \<Rightarrow> nat \<lfloor>r\<rfloor> | _ \<Rightarrow> 0)"

definition line_count :: "(ParsedSample \<Rightarrow> bool) \<Rightarrow> string \<Rightarrow> nat" where
  "line_count Q l = (case line_sample l of None \<Rightarrow> 0 | Some x \<Rightarrow> if Q x then sample_nat x else 0)"

definition whole :: "ParsedSample \<Rightarrow> bool" where
  "whole x \<longleftrightarrow> ps_value x = Fin (of_nat (sample_nat x))"

lemma line_count_mset: "mset (filter (\<lambda>l. \<not> is_comment l) ls) = mset ks \<Longrightarrow>
  sum_list (map (line_count Q) ls) = sum_list (map (line_count Q) ks)"
proof -
  assume eq: "mset (filter (\<lambda>l. \<not> is_comment l) ls) = mset ks"
  have "sum_list (map (line_count Q) ls) = sum_list (map (line_count Q) (filter (\<lambda>l. \<not> is_comment l) ls))"
    by (induction ls) (auto simp: line_count_def line_sample_def)
  also have "\<dots> = sum_list (map (line_count Q) ks)"
    using mset_map [of "line_count Q" "filter (\<lambda>l. \<not> is_comment l) ls"] mset_map [of "line_count Q" ks] unfolding eq
    by (metis sum_mset_sum_list)
  finally show ?thesis .
qed

definition has_gauge :: "string \<Rightarrow> string \<Rightarrow> f64 \<Rightarrow> string list \<Rightarrow> bool" where
  "has_gauge name ep v ls \<longleftrightarrow> (\<exists>l \<in> set ls. \<exists>x. line_sample l = Some x \<and> gauge_value name ep x)"

definition gauges_are :: "string \<Rightarrow> string \<Rightarrow> f64 \<Rightarrow> string list \<Rightarrow> bool" where
  "gauges_are name ep v ls \<longleftrightarrow> (\<forall>l \<in> set ls. \<forall>x. line_sample l = Some x \<longrightarrow> gauge_value name ep x \<longrightarrow> ps_value x = v)"

definition requests_whole :: "string \<Rightarrow> string list \<Rightarrow> bool" where
  "requests_whole ep ls \<longleftrightarrow> (\<forall>l \<in> set ls. \<forall>x. line_sample l = Some x \<longrightarrow> request_value ep x \<longrightarrow> whole x)"

lemma add_counts:
  assumes "y = Fin (of_nat a)" "Q x \<Longrightarrow> whole x" "a + (if Q x then sample_nat x else 0) \<le> 2 ^ 53"
  shows "(if Q x then f_add y (ps_value x) else y) = Fin (of_nat (a + (if Q x then sample_nat x else 0)))"
  using assms add_exact [of a "sample_nat x"] by (auto simp: whole_def simp del: f_add.simps split: if_splits)

lemma good_lines_figures:
  assumes "list_all good_line ls" "requests_whole ep ls" "gauges_are ''nf_http_in_flight'' ep v ls" "gauges_are ''nf_http_processing_in_flight'' ep w ls"
    and "ms_endpoints s ep = Some c" "ec_requests c = Fin (of_nat a)" "ec_errors_5xx c = Fin (of_nat b)"
    and "a + sum_list (map (line_count (request_value ep)) ls) \<le> 2 ^ 53" "b + sum_list (map (line_count (error_value ep)) ls) \<le> 2 ^ 53"
    and "has_gauge ''nf_http_in_flight'' ep v ls \<or> ec_in_flight c = v" "has_gauge ''nf_http_processing_in_flight'' ep w ls \<or> ec_processing_in_flight c = w"
  shows "\<exists>s' c'. try_fold apply_line (List.enumerate i (map strip_cr ls)) s = Ok s' \<and> ms_endpoints s' ep = Some c' \<and>
    ec_requests c' = Fin (of_nat (a + sum_list (map (line_count (request_value ep)) ls))) \<and>
    ec_errors_5xx c' = Fin (of_nat (b + sum_list (map (line_count (error_value ep)) ls))) \<and> ec_in_flight c' = v \<and> ec_processing_in_flight c' = w"
  using assms
proof (induction ls arbitrary: s c a b i)
  case Nil
  then show ?case by (simp add: has_gauge_def)
next
  case (Cons l ls)
  note rest = Cons.IH [of _ _ _ _ "Suc i"]
  have tail: "list_all good_line ls" "requests_whole ep ls" "gauges_are ''nf_http_in_flight'' ep v ls" "gauges_are ''nf_http_processing_in_flight'' ep w ls"
    using Cons.prems(1-4) by (simp_all add: requests_whole_def gauges_are_def)
  have l: "good_line l" using Cons.prems(1) by simp
  show ?case
  proof (cases "line_sample l")
    case None
    then have "has_gauge ''nf_http_in_flight'' ep v ls \<or> ec_in_flight c = v" "has_gauge ''nf_http_processing_in_flight'' ep w ls \<or> ec_processing_in_flight c = w"
      using Cons.prems(10,11) by (simp_all add: has_gauge_def)
    with None show ?thesis using rest [OF tail Cons.prems(5-7)] Cons.prems(8,9) apply_good_line [OF l] by (simp add: line_count_def)
  next
    case (Some x)
    then have bd: "bound_ok x" using l by (auto simp: line_sample_def good_line_def result_ok_def split: if_splits sum.splits)
    obtain s' c' where s': "apply_sample x s = Ok s'" "ms_endpoints s' ep = Some c'"
      and r: "ec_requests c' = (if request_value ep x then f_add (ec_requests c) (ps_value x) else ec_requests c)"
      and e: "ec_errors_5xx c' = (if error_value ep x then f_add (ec_errors_5xx c) (ps_value x) else ec_errors_5xx c)"
      and g: "ec_in_flight c' = (if gauge_value ''nf_http_in_flight'' ep x then ps_value x else ec_in_flight c)"
        "ec_processing_in_flight c' = (if gauge_value ''nf_http_processing_in_flight'' ep x then ps_value x else ec_processing_in_flight c)"
      using apply_sample_figures [OF bd Cons.prems(5)] by blast
    have wh: "request_value ep x \<Longrightarrow> whole x" "error_value ep x \<Longrightarrow> whole x"
      using Cons.prems(2) Some by (auto simp: requests_whole_def error_value_def)
    have cnt: "line_count Q l = (if Q x then sample_nat x else 0)" for Q by (simp add: line_count_def Some)
    have r': "ec_requests c' = Fin (of_nat (a + line_count (request_value ep) l))"
      unfolding r cnt by (rule add_counts [OF Cons.prems(6) wh(1)]) (use Cons.prems(8) in \<open>simp_all add: cnt\<close>)
    have e': "ec_errors_5xx c' = Fin (of_nat (b + line_count (error_value ep) l))"
      unfolding e cnt by (rule add_counts [OF Cons.prems(7) wh(2)]) (use Cons.prems(9) in \<open>simp_all add: cnt\<close>)
    have g': "has_gauge ''nf_http_in_flight'' ep v ls \<or> ec_in_flight c' = v" "has_gauge ''nf_http_processing_in_flight'' ep w ls \<or> ec_processing_in_flight c' = w"
      using Cons.prems(3,4,10,11) Some by (auto simp: g has_gauge_def gauges_are_def)
    show ?thesis
      using rest [OF tail s'(2) r' e' _ _ g'] Cons.prems(8,9) s'(1) apply_good_line [OF l, of i s] Some by (simp add: add.assoc)
  qed
qed

lemma parse_good_lines:
  assumes "list_all good_line ls" "requests_whole ep ls" "gauges_are ''nf_http_in_flight'' ep v ls" "gauges_are ''nf_http_processing_in_flight'' ep w ls"
    and "ep \<in> set ENDPOINTS" "sum_list (map (line_count (request_value ep)) ls) \<le> 2 ^ 53"
    and "has_gauge ''nf_http_in_flight'' ep v ls \<or> v = Fin 0" "has_gauge ''nf_http_processing_in_flight'' ep w ls \<or> w = Fin 0"
  shows "\<exists>s. parse_prometheus (unlines ls) now = Ok s \<and>
    ec_requests (endpoint_of s ep) = Fin (of_nat (sum_list (map (line_count (request_value ep)) ls))) \<and>
    ec_errors_5xx (endpoint_of s ep) = Fin (of_nat (sum_list (map (line_count (error_value ep)) ls))) \<and>
    ec_in_flight (endpoint_of s ep) = v \<and> ec_processing_in_flight (endpoint_of s ep) = w"
proof -
  have "line_count (error_value ep) l \<le> line_count (request_value ep) l" for l by (auto simp: line_count_def error_value_def split: option.splits)
  then have "sum_list (map (line_count (error_value ep)) ls) \<le> sum_list (map (line_count (request_value ep)) ls)" by (intro sum_list_mono)
  then have e: "sum_list (map (line_count (error_value ep)) ls) \<le> 2 ^ 53" using assms(6) by (rule order.trans)
  have start: "ms_endpoints (empty_snapshot now) ep = Some no_endpoint" using assms(5) by (auto simp: empty_snapshot_def ENDPOINTS_def)
  have zero: "ec_requests no_endpoint = Fin (of_nat 0)" "ec_errors_5xx no_endpoint = Fin (of_nat 0)" "ec_in_flight no_endpoint = Fin 0"
    "ec_processing_in_flight no_endpoint = Fin 0" by (simp_all add: no_endpoint_def)
  have "text_lines (unlines ls) = map strip_cr ls" using text_lines_concat [of ls] assms(1) by (simp add: unlines_def good_line_def list_all_iff)
  then show ?thesis
    using good_lines_figures [OF assms(1-4) start zero(1,2), of 0] assms(6-8) e zero(3,4)
    by (auto simp: parse_prometheus_def endpoint_of_def result_simps)
qed

section \<open>The lines of the server\<close>

lemma print_labels_no_newline: "list_all (\<lambda>(k, v). prom_name k) kvs \<Longrightarrow> CHR 0x0A \<notin> set (print_labels kvs)"
  using prom_name_chars [of _ "CHR 0x0A"]
  by (induction kvs rule: print_labels.induct) (auto simp: print_label_def escape_no_newline is_space_def)

lemma sample_line_good:
  assumes "prom_name name" "list_all (\<lambda>(k, v). prom_name k \<and> ascii_string v) kvs" "distinct (map fst kvs)"
    and "value_text t" "parse_f64 t = Some v" "\<And>le. map_of kvs ''le'' = Some le \<Longrightarrow> le = ''+Inf'' \<or> parse_f64 le \<noteq> None"
  shows "good_line (sample_line name kvs t) \<and> line_sample (sample_line name kvs t) = Some \<lparr>ps_name = name, ps_labels = map_of kvs, ps_value = v\<rparr>"
proof -
  note p = parse_sample_line [OF assms(1-5)]
  have n: "name \<noteq> []" "hd name \<noteq> CHR ''#''" "\<not> is_space (hd name)" "CHR 0x0A \<notin> set name"
    using prom_name_chars [OF assms(1)] assms(1) by (auto simp: prom_name_def is_space_def)
  have t: "t \<noteq> []" "\<not> is_space (last t)" "CHR 0x0A \<notin> set t" using assms(4) by (auto simp: value_text_def list_all_iff is_space_def)
  have "CHR 0x0A \<notin> set (print_labels kvs)" using assms(2) by (intro print_labels_no_newline) (auto simp: list_all_iff)
  then have "CHR 0x0A \<notin> set (sample_line name kvs t)" using n t by (auto simp: sample_line_def)
  moreover have "\<not> is_comment (sample_line name kvs t)" using n by (simp add: is_comment_def sample_line_def)
  ultimately show ?thesis
    using p n t assms(6) by (auto simp: good_line_def line_sample_def result_ok_def bound_ok_def sample_line_def)
qed

lemma display_text: "f64_display disp \<Longrightarrow> value_text (disp x) \<and> ascii_string (disp x) \<and> (\<exists>y. parse_f64 (disp x) = Some y)"
  by (simp add: f64_display_def value_text_def)

lemma display_nat: "f64_display disp \<Longrightarrow> n \<le> 2 ^ 53 \<Longrightarrow> parse_f64 (disp (fround (of_nat n))) = Some (Fin (of_nat n))"
  by (simp add: f64_display_def fround_nat parse_f64_nat)

lemma prom_name_suffix: "prom_name n \<Longrightarrow> t \<in> {[], ''_bucket'', ''_sum'', ''_count''} \<Longrightarrow> prom_name (n @ t)"
  by (auto simp: prom_name_def name_char_def is_ascii_alphanumeric_def)

lemma print_labels_ascii: "list_all (\<lambda>(k, v). prom_name k \<and> ascii_string v) kvs \<Longrightarrow> ascii_string (print_labels kvs)"
proof (induction kvs rule: print_labels.induct)
  case 1
  then show ?case by (simp add: ascii_string_def)
qed (auto simp: ascii_string_def print_label_def escape_label_def list_all_iff prom_name_chars)

lemma sample_line_ascii:
  "prom_name name \<Longrightarrow> list_all (\<lambda>(k, v). prom_name k \<and> ascii_string v) kvs \<Longrightarrow> ascii_string t \<Longrightarrow> ascii_string (sample_line name kvs t)"
  using print_labels_ascii [of kvs] prom_name_chars [of name] by (auto simp: sample_line_def ascii_string_def list_all_iff)

lemma family_line:
  assumes "f64_display disp" "family_ok f" "l \<in> set (family_lines disp f)"
  shows "good_line l \<and> ascii_string l \<and> (\<exists>x t. line_sample l = Some x \<and> t \<in> {[], ''_bucket'', ''_sum'', ''_count''} \<and> ps_name x = ds_name (fst f) @ t)"
proof -
  obtain kvs v where kv: "(kvs, v) \<in> set (snd f)" "l \<in> set (value_lines disp (fst f) (kvs, v))"
    using assms(3) by (auto simp: family_lines_def)
  have nm: "prom_name (ds_name (fst f))" using assms(2) by (simp add: family_ok_def)
  have kvs: "list_all (\<lambda>(k, v). prom_name k \<and> k \<noteq> ''le'' \<and> ascii_string v) kvs" "distinct (map fst kvs)"
    using assms(2) kv(1) by (auto simp: family_ok_def list_all_iff)
  then have le: "''le'' \<notin> fst ` set kvs" by (auto simp: list_all_iff)
  with kvs have ls: "list_all (\<lambda>(k, v). prom_name k \<and> ascii_string v) kvs" "distinct (map fst kvs)" "map_of kvs ''le'' = None" "''le'' \<notin> fst ` set kvs"
    by (auto simp: list_all_iff map_of_eq_None_iff)
  have "\<exists>t kvs' y. t \<in> {[], ''_bucket'', ''_sum'', ''_count''} \<and> l = sample_line (ds_name (fst f) @ t) kvs' (disp y) \<and>
     (kvs' = kvs \<or> (\<exists>le. kvs' = kvs @ [(''le'', le)] \<and> ascii_string le \<and> (le = ''+Inf'' \<or> parse_f64 le \<noteq> None)))"
  proof (cases v)
    case (Observations obs)
    let ?n = "ds_name (fst f)"
    from kv(2) consider b where "l = sample_line (?n @ ''_bucket'') (kvs @ [(''le'', disp (fround b))]) (disp (fround (of_nat (bucket_count obs b))))"
      | "l = sample_line (?n @ ''_bucket'') (kvs @ [(''le'', ''+Inf'')]) (disp (fround (of_nat (length obs))))"
      | "l = sample_line (?n @ ''_sum'') kvs (disp (fold (\<lambda>d x. f_add x (as_secs_f64 d)) obs (Fin 0)))"
      | "l = sample_line (?n @ ''_count'') kvs (disp (fround (of_nat (length obs))))"
      unfolding Observations by auto
    then show ?thesis
    proof cases
      case (1 b)
      then show ?thesis using display_text [OF assms(1), of "fround b"] by blast
    next
      case 2
      moreover have "ascii_string ''+Inf''" by (simp add: ascii_string_def)
      ultimately show ?thesis by blast
    qed blast+
  next
    case (IntValue n)
    then show ?thesis using kv(2) by (intro exI [of _ "[]"] exI [of _ kvs] exI [of _ "fround (of_int n)"]) simp
  next
    case (FloatValue x)
    then show ?thesis using kv(2) by (intro exI [of _ "[]"] exI [of _ kvs] exI [of _ x]) simp
  qed
  then obtain t kvs' y where t: "t \<in> {[], ''_bucket'', ''_sum'', ''_count''}" "l = sample_line (ds_name (fst f) @ t) kvs' (disp y)"
    and k: "kvs' = kvs \<or> (\<exists>le. kvs' = kvs @ [(''le'', le)] \<and> ascii_string le \<and> (le = ''+Inf'' \<or> parse_f64 le \<noteq> None))" by blast
  have le: "prom_name ''le''" by (simp add: prom_name_def name_char_def is_ascii_alphanumeric_def is_ascii_digit_def)
  obtain v where v: "parse_f64 (disp y) = Some v" using display_text [OF assms(1), of y] by blast
  have "list_all (\<lambda>(k, v). prom_name k \<and> ascii_string v) kvs'" "distinct (map fst kvs')"
    "\<And>b. map_of kvs' ''le'' = Some b \<Longrightarrow> b = ''+Inf'' \<or> parse_f64 b \<noteq> None"
    using k ls le by auto
  from sample_line_good [OF prom_name_suffix [OF nm t(1)] this(1,2) _ v this(3)] sample_line_ascii [OF prom_name_suffix [OF nm t(1)] this(1)]
    display_text [OF assms(1), of y] t
  show ?thesis by auto
qed

text \<open>Lines of other metrics than the three.\<close>

definition other_name :: "string \<Rightarrow> bool" where
  "other_name n \<longleftrightarrow> n \<notin> {''nf_http_requests_total'', ''nf_http_in_flight'', ''nf_http_processing_in_flight''}"

definition other_line :: "string \<Rightarrow> bool" where
  "other_line l \<longleftrightarrow> good_line l \<and> (\<forall>x. line_sample l = Some x \<longrightarrow> other_name (ps_name x))"

lemma other_family:
  assumes "f64_display disp" "family_ok f" "\<forall>t \<in> {[], ''_bucket'', ''_sum'', ''_count''}. other_name (ds_name (fst f) @ t)"
  shows "list_all other_line (family_lines disp f)"
  using family_line [OF assms(1,2)] assms(3) by (fastforce simp: list_all_iff other_line_def)

lemma other_counts: "list_all other_line ls \<Longrightarrow> sum_list (map (line_count (request_value ep)) ls) = 0"
  "list_all other_line ls \<Longrightarrow> sum_list (map (line_count (error_value ep)) ls) = 0"
  by (induction ls) (auto simp: other_line_def other_name_def line_count_def request_value_def error_value_def split: option.splits)

text \<open>
  The label values in use: endpoints of the allowlist with their methods, every one whose counter or
  gauge is not zero among them.
\<close>

definition labels_used :: "request_metrics \<Rightarrow> (string \<times> string \<times> u16) list \<Rightarrow> (string \<Rightarrow> string list) \<Rightarrow> bool" where
  "labels_used r touched eps \<longleftrightarrow>
     distinct touched \<and> list_all (\<lambda>(ep, me, _). ep \<in> set ENDPOINTS \<and> me = endpoint_method ep) touched \<and>
     (\<forall>k. http_requests r k \<noteq> 0 \<longrightarrow> k \<in> set touched) \<and>
     (\<forall>name. set (eps name) \<subseteq> set ENDPOINTS) \<and>
     (\<forall>ep. http_in_flight r ep \<noteq> 0 \<longrightarrow> ep \<in> set (eps ''nf_http_in_flight'')) \<and>
     (\<forall>ep. http_processing_in_flight r ep \<noteq> 0 \<longrightarrow> ep \<in> set (eps ''nf_http_processing_in_flight''))"

definition process_families :: "family list \<Rightarrow> bool" where
  "process_families fs \<longleftrightarrow> distinct (map (\<lambda>f. ds_name (fst f)) fs) \<and> list_all (\<lambda>f. family_ok f \<and> starts_with (ds_name (fst f)) ''process_'') fs"

lemma endpoint_ascii: "ep \<in> set ENDPOINTS \<Longrightarrow> ascii_string ep \<and> ascii_string (endpoint_method ep)"
  by (auto simp: ENDPOINTS_def ascii_string_def endpoint_method_def ENDPOINT_def)

lemma show_nat_ascii: "ascii_string (show_nat n)"
  using show_nat_digits [of n] by (auto simp: ascii_string_def list_all_iff is_ascii_digit_def)

lemmas desc_defs =
  bootstrap_attempts_desc_def bootstrap_outcomes_desc_def bootstrap_bytes_desc_def bootstrap_duration_desc_def served_height_desc_def
  expected_height_desc_def stale_seconds_desc_def http_requests_desc_def http_request_duration_desc_def
  http_request_body_receive_duration_desc_def http_request_processing_duration_desc_def http_in_flight_desc_def
  http_processing_in_flight_desc_def

lemmas name_defs = prom_name_def name_char_def is_ascii_alphanumeric_def is_ascii_digit_def

lemma endpoint_family_ok:
  assumes "prom_name (ds_name ds)" "\<forall>name. set (eps name) \<subseteq> set ENDPOINTS" "\<And>ep. kind_ok (ds_kind ds) (v ep)"
  shows "family_ok (endpoint_family eps ds v)"
proof -
  have "prom_name ''endpoint''" by (simp add: name_defs)
  moreover have "ep \<in> set (eps (ds_name ds)) \<Longrightarrow> ascii_string ep" for ep using assms(2) endpoint_ascii by blast
  ultimately show ?thesis using assms(1,3) by (auto simp: family_ok_def endpoint_family_def list_all_iff)
qed

text \<open>The families before, between and after those of the three metrics.\<close>

definition boot_families :: "service_metrics \<Rightarrow> family list" where
  "boot_families m =
     (let b = sv_boot m in
      [(bootstrap_attempts_desc, [([], IntValue (int (bm_attempts b)))]),
       (bootstrap_outcomes_desc, map (\<lambda>l. ([(''result'', l)], IntValue (int (count_list (bm_outcomes b) l)))) (remdups (bm_outcomes b))),
       (bootstrap_bytes_desc, [([], IntValue (int (bm_bytes b)))]),
       (bootstrap_duration_desc, if sv_boot_duration m = [] then [] else [([], Observations (sv_boot_duration m))]),
       (served_height_desc, [([], IntValue (sint (g_served (bm_gauges b))))]),
       (expected_height_desc, [([], IntValue (sint (g_expected (bm_gauges b))))]),
       (stale_seconds_desc, [([], IntValue (sint (g_stale_seconds (bm_gauges b))))])])"

definition duration_families :: "(string \<Rightarrow> string list) \<Rightarrow> request_metrics \<Rightarrow> family list" where
  "duration_families eps r =
     [endpoint_family eps http_request_duration_desc (\<lambda>ep. Observations (http_request_duration r ep)),
      endpoint_family eps http_request_body_receive_duration_desc (\<lambda>ep. Observations (http_request_body_receive_duration r ep)),
      endpoint_family eps http_request_processing_duration_desc (\<lambda>ep. Observations (http_request_processing_duration r ep))]"

definition request_family :: "(string \<times> string \<times> u16) list \<Rightarrow> request_metrics \<Rightarrow> family" where
  "request_family touched r =
     (http_requests_desc,
       map (\<lambda>(ep, me, st). ([(''endpoint'', ep), (''method'', me), (''status'', show_nat (unat st))],
         IntValue (uint (http_requests r (ep, me, st))))) touched)"

lemma registered_split:
  "registered touched eps process m =
     boot_families m @ [request_family touched (sv_requests m)] @ duration_families eps (sv_requests m) @
     [endpoint_family eps http_in_flight_desc (\<lambda>ep. IntValue (sint (http_in_flight (sv_requests m) ep))),
      endpoint_family eps http_processing_in_flight_desc (\<lambda>ep. IntValue (sint (http_processing_in_flight (sv_requests m) ep)))] @ process"
  by (simp add: registered_def boot_families_def request_family_def duration_families_def Let_def)

lemma desc_name: "ds \<in> set metric_descs \<Longrightarrow> prom_name (ds_name ds)"
  using metric_descs_valid by (auto simp: list_all_iff valid_desc_def)

lemma desc_kinds:
  "ds_kind bootstrap_attempts_desc = IntCounter" "ds_kind bootstrap_outcomes_desc = IntCounter" "ds_kind bootstrap_bytes_desc = IntCounter"
  "ds_kind bootstrap_duration_desc = Histogram [1, 5, 15, 30, 60, 120, 300, 600, 1200, 1800]" "ds_kind served_height_desc = IntGauge"
  "ds_kind expected_height_desc = IntGauge" "ds_kind stale_seconds_desc = IntGauge" "ds_kind http_requests_desc = IntCounter"
  "ds_kind http_in_flight_desc = IntGauge" "ds_kind http_processing_in_flight_desc = IntGauge"
  "ds_kind http_request_duration_desc = Histogram [5 / 100, 1 / 10, 1 / 4, 1 / 2, 1, 2, 5, 10]"
  "ds_kind http_request_processing_duration_desc = Histogram [5 / 100, 1 / 10, 1 / 4, 1 / 2, 1, 2, 5, 10]"
  "ds_kind http_request_body_receive_duration_desc = Histogram [5 / 100, 1 / 10, 1 / 4, 1 / 2, 1, 2, 5, 10, 15, 30, 60, 120, 300]"
  by (simp_all add: desc_defs)

lemma boot_families_ok:
  assumes "list_all ascii_string (bm_outcomes (sv_boot m))"
  shows "list_all family_ok (boot_families m)"
proof -
  have plain: "family_ok (ds, vs)" if "ds \<in> set metric_descs" "\<forall>(kvs, x) \<in> set vs. kvs = [] \<and> kind_ok (ds_kind ds) x" for ds vs
    using that desc_name by (auto simp: family_ok_def list_all_iff)
  have "prom_name ''result''" by (simp add: name_defs)
  then have "family_ok (bootstrap_outcomes_desc, map (\<lambda>l. ([(''result'', l)], IntValue (f l))) (remdups (bm_outcomes (sv_boot m))))" for f
    using assms desc_name [of bootstrap_outcomes_desc] by (auto simp: family_ok_def list_all_iff metric_descs_def kind_ok_def bootstrap_outcomes_desc_def)
  then show ?thesis by (auto simp: boot_families_def Let_def metric_descs_def kind_ok_def desc_kinds intro!: plain)
qed

lemma duration_families_ok: "\<forall>name. set (eps name) \<subseteq> set ENDPOINTS \<Longrightarrow> list_all family_ok (duration_families eps r)"
  by (simp add: duration_families_def endpoint_family_ok desc_name metric_descs_def kind_ok_def desc_kinds)

lemma request_family_ok:
  assumes "list_all (\<lambda>(ep, me, _). ep \<in> set ENDPOINTS \<and> me = endpoint_method ep) touched"
  shows "family_ok (request_family touched r)"
proof -
  have "prom_name ''endpoint''" "prom_name ''method''" "prom_name ''status''" "prom_name (ds_name http_requests_desc)" by (simp_all add: name_defs desc_defs)
  moreover have "(ep, me, st) \<in> set touched \<Longrightarrow> ascii_string ep \<and> ascii_string me" for ep me st
    using assms endpoint_ascii by (fastforce simp: list_all_iff)
  ultimately show ?thesis by (auto simp: family_ok_def request_family_def list_all_iff show_nat_ascii kind_ok_def desc_kinds)
qed

lemma other_families:
  assumes "f64_display disp" "list_all family_ok fs"
    and "\<forall>f \<in> set fs. ds_name (fst f) \<in> {''nf_snapshot_bootstrap_attempts_total'', ''nf_snapshot_bootstrap_outcomes_total'',
      ''nf_snapshot_bootstrap_bytes_total'', ''nf_snapshot_bootstrap_duration_seconds'', ''nf_snapshot_served_height'', ''nf_snapshot_expected_height'',
      ''nf_snapshot_stale_seconds'', ''nf_http_request_duration_seconds'', ''nf_http_request_body_receive_duration_seconds'',
      ''nf_http_request_processing_duration_seconds''} \<or> starts_with (ds_name (fst f)) ''process_''"
  shows "list_all other_line (concat (map (family_lines disp) fs))"
proof -
  have "list_all other_line (family_lines disp f)" if f: "f \<in> set fs" for f
  proof (rule other_family [OF assms(1)])
    show "family_ok f" using f assms(2) by (simp add: list_all_iff)
    show "\<forall>t \<in> {[], ''_bucket'', ''_sum'', ''_count''}. other_name (ds_name (fst f) @ t)"
      using assms(3) f by (auto simp: other_name_def starts_with_iff)
  qed
  then show ?thesis by (auto simp: list_all_iff)
qed

text \<open>The printed form of an integer, read back.\<close>

definition shown :: "(f64 \<Rightarrow> string) \<Rightarrow> int \<Rightarrow> f64" where
  "shown disp n = the (parse_f64 (disp (fround (of_int n))))"

lemma shown_nat: "f64_display disp \<Longrightarrow> n \<le> 2 ^ 53 \<Longrightarrow> shown disp (int n) = Fin (of_nat n)"
  by (simp add: shown_def display_nat)

lemma int_line:
  assumes "f64_display disp" "prom_name name" "list_all (\<lambda>(k, v). prom_name k \<and> k \<noteq> ''le'' \<and> ascii_string v) kvs" "distinct (map fst kvs)"
  shows "good_line (sample_line name kvs (disp (fround (of_int n)))) \<and>
    line_sample (sample_line name kvs (disp (fround (of_int n)))) = Some \<lparr>ps_name = name, ps_labels = map_of kvs, ps_value = shown disp n\<rparr>"
proof -
  obtain v where v: "value_text (disp (fround (of_int n)))" "parse_f64 (disp (fround (of_int n))) = Some v"
    using display_text [OF assms(1)] by blast
  have "map_of kvs ''le'' = None" using assms(3) by (auto simp: map_of_eq_None_iff list_all_iff)
  moreover have "list_all (\<lambda>(k, v). prom_name k \<and> ascii_string v) kvs" using assms(3) by (auto simp: list_all_iff)
  ultimately show ?thesis using sample_line_good [OF assms(2) _ assms(4) v] v(2) by (simp add: shown_def)
qed

lemma gauge_line:
  assumes "f64_display disp" "prom_name (ds_name ds)" "ep' \<in> set ENDPOINTS" "l \<in> set (value_lines disp ds ([(''endpoint'', ep')], IntValue n))"
  shows "good_line l \<and> line_sample l = Some \<lparr>ps_name = ds_name ds, ps_labels = [''endpoint'' \<mapsto> ep'], ps_value = shown disp n\<rparr>"
proof -
  have "prom_name ''endpoint''" by (simp add: name_defs)
  then show ?thesis using int_line [OF assms(1,2), of "[(''endpoint'', ep')]" n] assms(3,4) endpoint_ascii by simp
qed

lemma gauge_family_lines:
  assumes "f64_display disp" "prom_name (ds_name ds)" "\<forall>name. set (eps name) \<subseteq> set ENDPOINTS"
    "l \<in> set (family_lines disp (endpoint_family eps ds (\<lambda>ep. IntValue (f ep))))"
  shows "good_line l \<and> (\<exists>ep \<in> set (eps (ds_name ds)). line_sample l = Some \<lparr>ps_name = ds_name ds, ps_labels = [''endpoint'' \<mapsto> ep], ps_value = shown disp (f ep)\<rparr>)"
proof -
  obtain ep where ep: "ep \<in> set (eps (ds_name ds))" "l \<in> set (value_lines disp ds ([(''endpoint'', ep)], IntValue (f ep)))"
    using assms(4) by (auto simp: family_lines_def endpoint_family_def)
  then show ?thesis using gauge_line [OF assms(1,2) _ ep(2)] assms(3) by blast
qed

lemma gauge_family_has:
  assumes "f64_display disp" "prom_name (ds_name ds)" "\<forall>name. set (eps name) \<subseteq> set ENDPOINTS" "ep \<in> set (eps (ds_name ds))"
  shows "\<exists>l \<in> set (family_lines disp (endpoint_family eps ds (\<lambda>ep. IntValue (f ep)))). \<exists>x. line_sample l = Some x \<and> gauge_value (ds_name ds) ep x"
proof -
  let ?l = "sample_line (ds_name ds) [(''endpoint'', ep)] (disp (fround (of_int (f ep))))"
  have "?l \<in> set (value_lines disp ds ([(''endpoint'', ep)], IntValue (f ep)))" by simp
  moreover from gauge_line [OF assms(1,2) _ this] assms(3,4)
  have "line_sample ?l = Some \<lparr>ps_name = ds_name ds, ps_labels = [''endpoint'' \<mapsto> ep], ps_value = shown disp (f ep)\<rparr>" by blast
  ultimately show ?thesis using assms(4) by (auto simp: family_lines_def endpoint_family_def gauge_value_def intro!: bexI [of _ ep])
qed

lemma request_line:
  assumes "f64_display disp" "ep' \<in> set ENDPOINTS"
  shows "good_line (sample_line ''nf_http_requests_total'' [(''endpoint'', ep'), (''method'', endpoint_method ep'), (''status'', show_nat st)] (disp (fround (of_int n)))) \<and>
    line_sample (sample_line ''nf_http_requests_total'' [(''endpoint'', ep'), (''method'', endpoint_method ep'), (''status'', show_nat st)] (disp (fround (of_int n)))) =
      Some \<lparr>ps_name = ''nf_http_requests_total'', ps_labels = map_of [(''endpoint'', ep'), (''method'', endpoint_method ep'), (''status'', show_nat st)],
            ps_value = shown disp n\<rparr>"
proof -
  have "prom_name ''endpoint''" "prom_name ''method''" "prom_name ''status''" "prom_name ''nf_http_requests_total''" by (simp_all add: name_defs)
  then show ?thesis
    using int_line [OF assms(1), of "''nf_http_requests_total''" "[(''endpoint'', ep'), (''method'', endpoint_method ep'), (''status'', show_nat st)]" n]
      endpoint_ascii [OF assms(2)] show_nat_ascii by simp
qed

text \<open>The counter of an endpoint, over all its statuses.\<close>

definition responses :: "request_metrics \<Rightarrow> string \<Rightarrow> (u16 \<Rightarrow> bool) \<Rightarrow> nat" where
  "responses r ep Q = (\<Sum>st \<in> {st. Q st}. unat (http_requests r (ep, endpoint_method ep, st)))"

definition server_error :: "u16 \<Rightarrow> bool" where
  "server_error st \<longleftrightarrow> starts_with (show_nat (unat st)) ''5''"

lemma responses_bound: "unat (http_requests r (ep, endpoint_method ep, st)) \<le> responses r ep (\<lambda>_. True)"
  unfolding responses_def by (rule member_le_sum) auto

lemma touched_sum:
  assumes "distinct touched" "list_all (\<lambda>(ep, me, _). ep \<in> set ENDPOINTS \<and> me = endpoint_method ep) touched"
    and "\<forall>k. http_requests r k \<noteq> 0 \<longrightarrow> k \<in> set touched"
  shows "sum_list (map (\<lambda>(ep', me, st). if ep' = ep \<and> Q st then unat (http_requests r (ep', me, st)) else 0) touched) = responses r ep Q"
proof -
  let ?g = "\<lambda>(ep', me, st). if ep' = ep \<and> Q st then unat (http_requests r (ep', me, st)) else 0"
  let ?k = "\<lambda>st. (ep, endpoint_method ep, st)"
  have "sum_list (map ?g touched) = sum ?g (set touched)" by (rule sum_list_distinct_conv_sum_set [OF assms(1)])
  also have "\<dots> = sum ?g (?k ` {st. Q st \<and> ?k st \<in> set touched})"
  proof (rule sum.mono_neutral_right)
    have "(ep', me, st) \<in> set touched \<Longrightarrow> me = endpoint_method ep'" for ep' me st using assms(2) by (auto simp: list_all_iff)
    then show "\<forall>k \<in> set touched - ?k ` {st. Q st \<and> ?k st \<in> set touched}. ?g k = 0" by (auto split: if_splits)
  qed auto
  also have "\<dots> = (\<Sum>st \<in> {st. Q st \<and> ?k st \<in> set touched}. unat (http_requests r (?k st)))"
    by (subst sum.reindex) (auto simp: inj_on_def intro!: sum.cong)
  also have "\<dots> = responses r ep Q"
    unfolding responses_def
  proof (rule sum.mono_neutral_left)
    show "\<forall>st \<in> {st. Q st} - {st. Q st \<and> ?k st \<in> set touched}. unat (http_requests r (?k st)) = 0"
      using assms(3) by (metis (mono_tags, lifting) DiffE mem_Collect_eq unat_0)
  qed auto
  finally show ?thesis .
qed

lemma request_family_lines:
  assumes "list_all (\<lambda>(ep, me, _). ep \<in> set ENDPOINTS \<and> me = endpoint_method ep) touched"
  shows "family_lines disp (request_family touched r) =
    map (\<lambda>(ep, me, st). sample_line ''nf_http_requests_total'' [(''endpoint'', ep), (''method'', endpoint_method ep), (''status'', show_nat (unat st))]
      (disp (fround (of_int (uint (http_requests r (ep, me, st))))))) touched"
proof -
  have "family_lines disp (request_family touched r) =
    map (\<lambda>(ep, me, st). sample_line ''nf_http_requests_total'' [(''endpoint'', ep), (''method'', me), (''status'', show_nat (unat st))]
      (disp (fround (of_int (uint (http_requests r (ep, me, st))))))) touched"
    by (induction touched) (auto simp: family_lines_def request_family_def http_requests_desc_def)
  also have "\<dots> = map (\<lambda>(ep, me, st). sample_line ''nf_http_requests_total'' [(''endpoint'', ep), (''method'', endpoint_method ep), (''status'', show_nat (unat st))]
      (disp (fround (of_int (uint (http_requests r (ep, me, st))))))) touched"
    using assms by (intro map_cong) (auto simp: list_all_iff)
  finally show ?thesis .
qed

lemma request_lines_good:
  assumes "f64_display disp" "list_all (\<lambda>(ep, me, _). ep \<in> set ENDPOINTS \<and> me = endpoint_method ep) touched" "responses r ep (\<lambda>_. True) \<le> 2 ^ 53"
    and "l \<in> set (family_lines disp (request_family touched r))"
  shows "good_line l \<and> (\<exists>x. line_sample l = Some x \<and> ps_name x = ''nf_http_requests_total'' \<and> (request_value ep x \<longrightarrow> whole x))"
proof -
  obtain ep' st where k: "ep' \<in> set ENDPOINTS"
    and l: "l = sample_line ''nf_http_requests_total'' [(''endpoint'', ep'), (''method'', endpoint_method ep'), (''status'', show_nat (unat st))]
      (disp (fround (of_int (uint (http_requests r (ep', endpoint_method ep', st))))))"
    using assms(2,4) unfolding request_family_lines [OF assms(2)] by (auto simp: list_all_iff)
  have "shown disp (uint (http_requests r (ep, endpoint_method ep, st))) = Fin (of_nat (unat (http_requests r (ep, endpoint_method ep, st))))"
    using shown_nat [OF assms(1), of "unat (http_requests r (ep, endpoint_method ep, st))"] responses_bound [of r ep st] assms(3) by simp
  then show ?thesis
    using request_line [OF assms(1) k, of "unat st" "uint (http_requests r (ep', endpoint_method ep', st))"] unfolding l
    by (auto simp: request_value_def whole_def sample_nat_def simp del: of_nat_unat of_int_uint)
qed

lemma request_family_counts:
  assumes "f64_display disp" "distinct touched" "list_all (\<lambda>(ep, me, _). ep \<in> set ENDPOINTS \<and> me = endpoint_method ep) touched"
    and "\<forall>k. http_requests r k \<noteq> 0 \<longrightarrow> k \<in> set touched" "responses r ep (\<lambda>_. True) \<le> 2 ^ 53"
  shows "sum_list (map (line_count (request_value ep)) (family_lines disp (request_family touched r))) = responses r ep (\<lambda>_. True)"
    and "sum_list (map (line_count (error_value ep)) (family_lines disp (request_family touched r))) = responses r ep server_error"
proof -
  have one: "line_count (request_value ep) (sample_line ''nf_http_requests_total'' [(''endpoint'', ep'), (''method'', endpoint_method ep'), (''status'', show_nat (unat st))]
      (disp (fround (of_int (uint (http_requests r (ep', me, st))))))) = (if ep' = ep \<and> True then unat (http_requests r (ep', me, st)) else 0)"
    "line_count (error_value ep) (sample_line ''nf_http_requests_total'' [(''endpoint'', ep'), (''method'', endpoint_method ep'), (''status'', show_nat (unat st))]
      (disp (fround (of_int (uint (http_requests r (ep', me, st))))))) = (if ep' = ep \<and> server_error st then unat (http_requests r (ep', me, st)) else 0)"
    if "(ep', me, st) \<in> set touched" for ep' me st
  proof -
    have k: "ep' \<in> set ENDPOINTS" "me = endpoint_method ep'" using that assms(3) by (auto simp: list_all_iff)
    have "shown disp (uint (http_requests r (ep, endpoint_method ep, st))) = Fin (of_nat (unat (http_requests r (ep, endpoint_method ep, st))))"
      using shown_nat [OF assms(1), of "unat (http_requests r (ep, endpoint_method ep, st))"] responses_bound [of r ep st] assms(5) by simp
    then show "line_count (request_value ep) (sample_line ''nf_http_requests_total'' [(''endpoint'', ep'), (''method'', endpoint_method ep'), (''status'', show_nat (unat st))]
      (disp (fround (of_int (uint (http_requests r (ep', me, st))))))) = (if ep' = ep \<and> True then unat (http_requests r (ep', me, st)) else 0)"
      "line_count (error_value ep) (sample_line ''nf_http_requests_total'' [(''endpoint'', ep'), (''method'', endpoint_method ep'), (''status'', show_nat (unat st))]
      (disp (fround (of_int (uint (http_requests r (ep', me, st))))))) = (if ep' = ep \<and> server_error st then unat (http_requests r (ep', me, st)) else 0)"
      using request_line [OF assms(1) k(1), of "unat st" "uint (http_requests r (ep', me, st))"] k(2)
      by (auto simp: line_count_def request_value_def error_value_def server_error_def sample_nat_def simp del: of_nat_unat of_int_uint)
  qed
  have "sum_list (map (line_count (request_value ep)) (family_lines disp (request_family touched r))) =
      sum_list (map (\<lambda>(ep', me, st). if ep' = ep \<and> True then unat (http_requests r (ep', me, st)) else 0) touched)"
    unfolding request_family_lines [OF assms(3)] map_map by (intro arg_cong [where f = sum_list] map_cong) (auto simp: one(1) simp del: of_nat_unat of_int_uint)
  then show "sum_list (map (line_count (request_value ep)) (family_lines disp (request_family touched r))) = responses r ep (\<lambda>_. True)"
    using touched_sum [OF assms(2-4), of ep "\<lambda>_. True"] by simp
  have "sum_list (map (line_count (error_value ep)) (family_lines disp (request_family touched r))) =
      sum_list (map (\<lambda>(ep', me, st). if ep' = ep \<and> server_error st then unat (http_requests r (ep', me, st)) else 0) touched)"
    unfolding request_family_lines [OF assms(3)] map_map by (intro arg_cong [where f = sum_list] map_cong) (auto simp: one(2) simp del: of_nat_unat of_int_uint)
  then show "sum_list (map (line_count (error_value ep)) (family_lines disp (request_family touched r))) = responses r ep server_error"
    using touched_sum [OF assms(2-4), of ep server_error] by simp
qed

lemma registered_families_ok:
  assumes "labels_used (sv_requests m) touched eps" "process_families process" "list_all ascii_string (bm_outcomes (sv_boot m))"
  shows "list_all family_ok (registered touched eps process m)"
  using assms boot_families_ok duration_families_ok request_family_ok endpoint_family_ok desc_name
  by (auto simp: registered_split labels_used_def process_families_def list_all_iff metric_descs_def kind_ok_def desc_kinds)

lemma registered_names:
  "map (\<lambda>f. ds_name (fst f)) (registered touched eps process m) = map ds_name metric_descs @ map (\<lambda>f. ds_name (fst f)) process"
  by (simp add: registered_def metric_descs_def endpoint_family_def Let_def)

lemma registered_distinct:
  assumes "process_families process"
  shows "distinct (map (\<lambda>f. ds_name (fst f)) (registered touched eps process m))"
proof -
  have "distinct (map ds_name metric_descs)" "\<forall>n \<in> set (map ds_name metric_descs). \<not> starts_with n ''process_''"
    unfolding metric_descs_names by simp_all
  then show ?thesis unfolding registered_names using assms by (fastforce simp: process_families_def list_all_iff)
qed

text \<open>What the library gathers has the lines of what is registered.\<close>

lemma family_ok_bag: "sample_bag f = sample_bag g \<Longrightarrow> family_ok f \<and> has_samples f \<longleftrightarrow> family_ok g \<and> has_samples g"
  using mset_eq_setD [of "snd f" "snd g"] by (auto simp: sample_bag_def family_ok_def has_samples_def list_all_iff)

lemma lines_of_bags:
  "mset (concat (map (family_lines disp) fs)) =
     (\<Sum>b\<in>#mset (map sample_bag fs). \<Sum>x\<in>#snd b. mset (value_lines disp (fst b) x))"
proof (induction fs)
  case (Cons f fs)
  have "mset (concat (map (value_lines disp (fst f)) vs)) = (\<Sum>x\<in>#mset vs. mset (value_lines disp (fst f) x))" for vs
    by (induction vs) simp_all
  then show ?case using Cons by (simp add: family_lines_def sample_bag_def)
qed simp

lemma lines_has_samples: "concat (map (family_lines disp) (filter has_samples fs)) = concat (map (family_lines disp) fs)"
  by (induction fs) (simp_all add: has_samples_def family_lines_def)

lemma gathered_lines:
  assumes "gather_laws P" "distinct (map (\<lambda>f. ds_name (fst f)) fs)" "list_all family_ok fs"
  shows "list_all (\<lambda>f. family_ok f \<and> has_samples f) (pr_gather P fs)"
    "mset (concat (map (family_lines disp) (pr_gather P fs))) = mset (concat (map (family_lines disp) fs))"
proof -
  have bags: "mset (map sample_bag (pr_gather P fs)) = mset (map sample_bag (filter has_samples fs))"
    using assms(1,2) by (simp add: gather_laws_def)
  have img: "sample_bag ` set (pr_gather P fs) = sample_bag ` set (filter has_samples fs)" using mset_eq_setD [OF bags] by simp
  have "family_ok f \<and> has_samples f" if "f \<in> set (pr_gather P fs)" for f
  proof -
    from that have "sample_bag f \<in> sample_bag ` set (filter has_samples fs)" unfolding img [symmetric] by (rule imageI)
    then obtain g where g: "g \<in> set fs" "has_samples g" "sample_bag f = sample_bag g" by auto
    then have "family_ok g \<and> has_samples g" using assms(3) by (simp add: list_all_iff)
    then show ?thesis unfolding family_ok_bag [OF g(3)] .
  qed
  then show "list_all (\<lambda>f. family_ok f \<and> has_samples f) (pr_gather P fs)" by (simp add: list_all_iff)
  have "mset (concat (map (family_lines disp) (pr_gather P fs))) = mset (concat (map (family_lines disp) (filter has_samples fs)))"
    unfolding lines_of_bags bags ..
  then show "mset (concat (map (family_lines disp) (pr_gather P fs))) = mset (concat (map (family_lines disp) fs))"
    unfolding lines_has_samples .
qed

text \<open>The four shapes of a gathered line.\<close>

definition request_like :: "string \<Rightarrow> string \<Rightarrow> bool" where
  "request_like ep l \<longleftrightarrow> good_line l \<and>
     (\<exists>x. line_sample l = Some x \<and> ps_name x = ''nf_http_requests_total'' \<and> (request_value ep x \<longrightarrow> whole x))"

definition gauge_like :: "string \<Rightarrow> (string \<Rightarrow> f64) \<Rightarrow> string \<Rightarrow> bool" where
  "gauge_like name f l \<longleftrightarrow> good_line l \<and> (\<exists>ep. line_sample l = Some \<lparr>ps_name = name, ps_labels = [''endpoint'' \<mapsto> ep], ps_value = f ep\<rparr>)"

definition shaped :: "string \<Rightarrow> (string \<Rightarrow> f64) \<Rightarrow> (string \<Rightarrow> f64) \<Rightarrow> string \<Rightarrow> bool" where
  "shaped ep f g l \<longleftrightarrow> other_line l \<or> request_like ep l \<or> gauge_like ''nf_http_in_flight'' f l \<or> gauge_like ''nf_http_processing_in_flight'' g l"

lemmas shape_defs = shaped_def request_like_def gauge_like_def other_line_def other_name_def request_value_def gauge_value_def

lemma shaped_lines:
  assumes "\<And>l. l \<in> set K \<Longrightarrow> shaped ep f g l"
  shows "list_all good_line K" "requests_whole ep K" "gauges_are ''nf_http_in_flight'' ep (f ep) K" "gauges_are ''nf_http_processing_in_flight'' ep (g ep) K"
proof -
  show "list_all good_line K" using assms by (auto simp: list_all_iff shape_defs)
  show "requests_whole ep K" unfolding requests_whole_def using assms by (fastforce simp: shape_defs)
  show "gauges_are ''nf_http_in_flight'' ep (f ep) K" unfolding gauges_are_def using assms by (fastforce simp: shape_defs)
  show "gauges_are ''nf_http_processing_in_flight'' ep (g ep) K" unfolding gauges_are_def using assms by (fastforce simp: shape_defs)
qed

lemma gauge_counts:
  assumes "\<And>l. l \<in> set K \<Longrightarrow> gauge_like name f l" "name \<noteq> ''nf_http_requests_total''"
  shows "sum_list (map (line_count (request_value ep)) K) = 0" "sum_list (map (line_count (error_value ep)) K) = 0"
proof -
  have "line_count (request_value ep) l = 0 \<and> line_count (error_value ep) l = 0" if "l \<in> set K" for l
    using assms(1) [OF that] assms(2) by (auto simp: line_count_def request_value_def error_value_def gauge_like_def)
  then show "sum_list (map (line_count (request_value ep)) K) = 0" "sum_list (map (line_count (error_value ep)) K) = 0"
    by (simp_all add: sum_list_eq_0_iff)
qed

text \<open>The lines of everything that is gathered, in their groups.\<close>

definition other_lines :: "(f64 \<Rightarrow> string) \<Rightarrow> (string \<Rightarrow> string list) \<Rightarrow> family list \<Rightarrow> service_metrics \<Rightarrow> string list" where
  "other_lines disp eps process m = concat (map (family_lines disp) (boot_families m @ duration_families eps (sv_requests m) @ process))"

definition gauge_lines :: "(f64 \<Rightarrow> string) \<Rightarrow> (string \<Rightarrow> string list) \<Rightarrow> metric_desc \<Rightarrow> (string \<Rightarrow> u64) \<Rightarrow> string list" where
  "gauge_lines disp eps ds gauge = family_lines disp (endpoint_family eps ds (\<lambda>ep. IntValue (sint (gauge ep))))"

lemma gathered_mset:
  "mset (concat (map (family_lines disp) (registered touched eps process m))) =
    mset (other_lines disp eps process m @ family_lines disp (request_family touched (sv_requests m)) @
      gauge_lines disp eps http_in_flight_desc (http_in_flight (sv_requests m)) @
      gauge_lines disp eps http_processing_in_flight_desc (http_processing_in_flight (sv_requests m)))"
  by (simp add: registered_split other_lines_def gauge_lines_def ac_simps)

lemma other_lines_other:
  assumes "f64_display disp" "\<forall>name. set (eps name) \<subseteq> set ENDPOINTS" "process_families process" "list_all ascii_string (bm_outcomes (sv_boot m))"
  shows "list_all other_line (other_lines disp eps process m)"
  unfolding other_lines_def
proof (rule other_families [OF assms(1)])
  show "list_all family_ok (boot_families m @ duration_families eps (sv_requests m) @ process)"
    using boot_families_ok [OF assms(4)] duration_families_ok [OF assms(2)] assms(3) by (auto simp: process_families_def list_all_iff)
qed (use assms(3) in \<open>auto simp: boot_families_def Let_def duration_families_def endpoint_family_def desc_defs process_families_def list_all_iff\<close>)

lemma gauge_names:
  "prom_name (ds_name http_in_flight_desc)" "prom_name (ds_name http_processing_in_flight_desc)"
  "ds_name http_in_flight_desc = ''nf_http_in_flight''" "ds_name http_processing_in_flight_desc = ''nf_http_processing_in_flight''"
  by (rule desc_name, simp add: metric_descs_def)+ (simp_all add: desc_defs)

lemma gauge_lines_like:
  assumes "f64_display disp" "prom_name (ds_name ds)" "\<forall>name. set (eps name) \<subseteq> set ENDPOINTS" "l \<in> set (gauge_lines disp eps ds gauge)"
  shows "gauge_like (ds_name ds) (\<lambda>ep. shown disp (sint (gauge ep))) l"
  using gauge_family_lines [OF assms(1-3) assms(4) [unfolded gauge_lines_def]] by (auto simp: gauge_like_def)

lemma gauge_lines_has:
  assumes "f64_display disp" "prom_name (ds_name ds)" "\<forall>name. set (eps name) \<subseteq> set ENDPOINTS" "gauge ep \<noteq> 0 \<Longrightarrow> ep \<in> set (eps (ds_name ds))"
  shows "has_gauge (ds_name ds) ep v (gauge_lines disp eps ds gauge) \<or> shown disp (sint (gauge ep)) = Fin 0"
proof (cases "gauge ep = 0")
  case True
  then show ?thesis using shown_nat [OF assms(1), of 0] by simp
next
  case False
  then show ?thesis using gauge_family_has [OF assms(1-3) assms(4)] by (auto simp: has_gauge_def gauge_lines_def)
qed

text \<open>What the agent reads from any text that has exactly these lines, comments, and lines of other metrics.\<close>

lemma gathered_parse:
  assumes d: "f64_display disp" and used: "labels_used (sv_requests m) touched eps" and pf: "process_families process"
    and out: "list_all ascii_string (bm_outcomes (sv_boot m))" and bound: "responses (sv_requests m) ep (\<lambda>_. True) \<le> 2 ^ 53"
    and ep: "ep \<in> set ENDPOINTS"
    and ls: "mset (filter (\<lambda>l. \<not> is_comment l) ls) = mset (concat (map (family_lines disp) (registered touched eps process m)))"
      "list_all (\<lambda>l. CHR 0x0A \<notin> set l) ls" and sl: "list_all other_line sl"
  shows "\<exists>s. parse_prometheus (unlines (ls @ sl)) now = Ok s \<and>
    ec_requests (endpoint_of s ep) = Fin (of_nat (responses (sv_requests m) ep (\<lambda>_. True))) \<and>
    ec_errors_5xx (endpoint_of s ep) = Fin (of_nat (responses (sv_requests m) ep server_error)) \<and>
    ec_in_flight (endpoint_of s ep) = shown disp (sint (http_in_flight (sv_requests m) ep)) \<and>
    ec_processing_in_flight (endpoint_of s ep) = shown disp (sint (http_processing_in_flight (sv_requests m) ep))"
proof -
  let ?r = "sv_requests m"
  let ?R = "family_lines disp (request_family touched ?r)" and ?O = "other_lines disp eps process m"
  let ?G = "gauge_lines disp eps http_in_flight_desc (http_in_flight ?r)"
  let ?H = "gauge_lines disp eps http_processing_in_flight_desc (http_processing_in_flight ?r)"
  let ?f = "\<lambda>ep. shown disp (sint (http_in_flight ?r ep))" and ?g = "\<lambda>ep. shown disp (sint (http_processing_in_flight ?r ep))"
  have u: "distinct touched" "list_all (\<lambda>(ep, me, _). ep \<in> set ENDPOINTS \<and> me = endpoint_method ep) touched"
    "\<forall>k. http_requests ?r k \<noteq> 0 \<longrightarrow> k \<in> set touched" and eps: "\<forall>name. set (eps name) \<subseteq> set ENDPOINTS"
    and in_use: "http_in_flight ?r ep \<noteq> 0 \<Longrightarrow> ep \<in> set (eps ''nf_http_in_flight'')"
      "http_processing_in_flight ?r ep \<noteq> 0 \<Longrightarrow> ep \<in> set (eps ''nf_http_processing_in_flight'')"
    using used by (auto simp: labels_used_def)
  note n = gauge_names
  note O = other_lines_other [OF d eps pf out]
  note G = gauge_lines_like [OF d n(1) eps, unfolded n, of _ "http_in_flight ?r"]
  note H = gauge_lines_like [OF d n(2) eps, unfolded n, of _ "http_processing_in_flight ?r"]
  have R: "l \<in> set ?R \<Longrightarrow> request_like ep l" for l using request_lines_good [OF d u(2) bound] by (auto simp: request_like_def)
  have eq: "mset (filter (\<lambda>l. \<not> is_comment l) ls) = mset (?O @ ?R @ ?G @ ?H)" using ls(1) gathered_mset by metis
  then have lines: "set (filter (\<lambda>l. \<not> is_comment l) ls) = set (?O @ ?R @ ?G @ ?H)" by (rule mset_eq_setD)
  have "shaped ep ?f ?g l" if "l \<in> set (ls @ sl)" for l
  proof (cases "l \<in> set ls \<and> is_comment l")
    case True
    then have "other_line l" using ls(2) by (auto simp: other_line_def good_line_def line_sample_def list_all_iff is_comment_def)
    then show ?thesis by (simp add: shaped_def)
  next
    case False
    then have "l \<in> set sl \<or> l \<in> set ?O \<or> l \<in> set ?R \<or> l \<in> set ?G \<or> l \<in> set ?H" using that lines by auto
    then show ?thesis using sl O R G H by (auto simp: shaped_def list_all_iff)
  qed
  note good = shaped_lines [of "ls @ sl" ep ?f ?g, OF this]
  have sub: "has_gauge a e v ?G \<Longrightarrow> has_gauge a e v (ls @ sl)" "has_gauge a e v ?H \<Longrightarrow> has_gauge a e v (ls @ sl)" for a e v
    using lines by (fastforce simp: has_gauge_def)+
  have has: "has_gauge ''nf_http_in_flight'' ep (?f ep) (ls @ sl) \<or> ?f ep = Fin 0" "has_gauge ''nf_http_processing_in_flight'' ep (?g ep) (ls @ sl) \<or> ?g ep = Fin 0"
    using gauge_lines_has [OF d n(1) eps, unfolded n, OF in_use(1)] gauge_lines_has [OF d n(2) eps, unfolded n, OF in_use(2)] sub by blast+
  note c = request_family_counts [OF d u bound]
  have "sum_list (map (line_count (request_value ep)) (ls @ sl)) = responses ?r ep (\<lambda>_. True)"
    using line_count_mset [OF eq, of "request_value ep"] c(1) other_counts(1) [OF O] other_counts(1) [OF sl] gauge_counts(1) [of ?G, OF G] gauge_counts(1) [of ?H, OF H] by simp
  moreover have "sum_list (map (line_count (error_value ep)) (ls @ sl)) = responses ?r ep server_error"
    using line_count_mset [OF eq, of "error_value ep"] c(2) other_counts(2) [OF O] other_counts(2) [OF sl] gauge_counts(2) [of ?G, OF G] gauge_counts(2) [of ?H, OF H] by simp
  ultimately show ?thesis using parse_good_lines [OF good ep _ has] bound by simp
qed

section \<open>The lines of the updater\<close>

lemma json_label_value: "json_chars body \<Longrightarrow> \<exists>v. label_value acc (body @ CHR 0x22 # rest) = Ok (v, rest)"
  by (induction body arbitrary: acc rule: json_chars.induct) (auto split: if_splits)

lemma json_no_newline: "json_chars body \<Longrightarrow> CHR 0x0A \<notin> set body"
  by (induction body rule: json_chars.induct) auto

definition json_pair :: "string \<Rightarrow> string \<Rightarrow> string" where
  "json_pair k body = k @ CHR ''='' # CHR 0x22 # body @ [CHR 0x22]"

lemma parse_json_pair:
  assumes "label_key k" "json_chars body"
  shows "\<exists>v. parse_labels_from (json_pair k body @ rest) labels = parse_labels_from rest (labels(k \<mapsto> v))"
proof -
  obtain v where v: "label_value [] (body @ CHR 0x22 # rest) = Ok (v, rest)" using json_label_value [OF assms(2)] by blast
  have hd: "k \<noteq> []" "\<not> is_separator (hd k)" and eq: "\<forall>c \<in> set k. c \<noteq> CHR ''=''"
    using assms(1) by (auto simp: label_key_def list_all_iff)
  have dr: "dropWhile is_separator (json_pair k body @ rest) = json_pair k body @ rest"
    using hd by (cases k) (simp_all add: json_pair_def)
  have dk: "dropWhile (\<lambda>c. c \<noteq> CHR ''='') (json_pair k body @ rest) = CHR ''='' # CHR 0x22 # body @ CHR 0x22 # rest"
    "takeWhile (\<lambda>c. c \<noteq> CHR ''='') (json_pair k body @ rest) = k"
    using eq by (simp_all add: json_pair_def dropWhile_append2 takeWhile_append2)
  have ne: "json_pair k body @ rest \<noteq> []" by (simp add: json_pair_def)
  have "parse_labels_from (json_pair k body @ rest) labels = parse_labels_from rest (labels(k \<mapsto> v))"
    by (subst parse_labels_from.simps) (simp add: dr dk v ne trim_key [OF assms(1)] Let_def del: append_is_Nil_conv)
  then show ?thesis by blast
qed

text \<open>A line with labels in JSON text, and a line with a number.\<close>

lemma labelled_line_other:
  assumes "prom_name name" "other_name name" "parse_labels_from inner Map.empty = Ok labels" "labels ''le'' = None" "CHR 0x0A \<notin> set inner"
  shows "other_line (name @ CHR ''{'' # inner @ ''} 1'')"
proof -
  let ?d = "name @ CHR ''{'' # inner @ ''}''"
  have nm: "\<forall>c \<in> set name. c \<noteq> CHR ''{''" "name \<noteq> []" "hd name \<noteq> CHR ''#''" "\<not> is_space (hd name)" "CHR 0x0A \<notin> set name"
    using prom_name_chars [OF assms(1)] assms(1) by (auto simp: prom_name_def is_space_def)
  have one: "value_text ''1''" "parse_f64 ''1'' = Some (Fin 1)"
    using parse_f64_nat [of 1] by (simp_all add: value_text_def is_space_def show_nat.simps fround_nat [of 1, simplified])
  have "parse_descriptor ?d = Ok (name, labels)"
    using nm assms(3) by (simp add: parse_descriptor_def parse_labels_def dropWhile_append2 takeWhile_append2 result_simps butlast_append)
  from descriptor_value [OF one _ _ this nm(2)]
  have p: "parse_line (name @ CHR ''{'' # inner @ ''} 1'') = Ok \<lparr>ps_name = name, ps_labels = labels, ps_value = Fin 1\<rparr>"
    by (simp add: is_space_def)
  moreover have "\<not> is_comment (name @ CHR ''{'' # inner @ ''} 1'')" using nm by (simp add: is_comment_def)
  ultimately show ?thesis using nm assms(2,4,5)
    by (auto simp: other_line_def good_line_def line_sample_def result_ok_def bound_ok_def is_space_def)
qed

lemma number_line_other:
  assumes "prom_name name" "other_name name"
  shows "other_line (name @ '' '' @ show_nat n)"
proof -
  have "value_text (show_nat n)" using show_nat_digits [of n] digits_no_space by (auto simp: value_text_def list_all_iff)
  then have "good_line (sample_line name [] (show_nat n)) \<and> line_sample (sample_line name [] (show_nat n)) =
      Some \<lparr>ps_name = name, ps_labels = map_of [], ps_value = fround (of_nat n)\<rparr>"
    by (intro sample_line_good [OF assms(1)]) (simp_all add: parse_f64_nat)
  then show ?thesis using assms(2) by (simp add: other_line_def sample_line_def)
qed

lemma updater_name: "list_all name_char t \<Longrightarrow> prom_name (''nf_updater_'' @ t) \<and> other_name (''nf_updater_'' @ t)"
  by (simp add: name_defs other_name_def)

text \<open>Text made of other lines, and what is appended to it.\<close>

definition other_text :: "string \<Rightarrow> bool" where
  "other_text s \<longleftrightarrow> (\<exists>ls. s = unlines ls \<and> list_all other_line ls)"

lemma other_text_app: "other_text a \<Longrightarrow> other_text b \<Longrightarrow> other_text (a @ b)"
  unfolding other_text_def by (metis concat_append list_all_append map_append unlines_def)

lemma other_text_line: "other_line l \<Longrightarrow> other_text (l @ [CHR 0x0A])"
  unfolding other_text_def by (rule exI [of _ "[l]"]) (simp add: unlines_def)

lemma metric_line_other: "list_all name_char name \<Longrightarrow> other_text (metric_line name (show_nat n))"
  using other_text_line [OF number_line_other [of "''nf_updater_'' @ name" n]] updater_name [of name] by (simp add: metric_line_def)

lemma other_text_fold:
  assumes "other_text out" "\<And>x out. x \<in> set xs \<Longrightarrow> other_text out \<Longrightarrow> other_text (f x out)"
  shows "other_text (fold f xs out)"
  using assms by (induction xs arbitrary: out) simp_all

lemma build_line_other:
  assumes "json_chars a" "json_chars b"
  shows "other_line (''nf_build_info{release_tag='' @ (CHR 0x22 # a @ [CHR 0x22]) @ '',commit_sha='' @ (CHR 0x22 # b @ [CHR 0x22]) @ ''} 1'')"
proof -
  have k: "label_key ''release_tag''" "label_key ''commit_sha''"
    by (simp_all add: label_key_def is_separator_def is_ascii_whitespace_def is_space_def)
  let ?in = "json_pair ''release_tag'' a @ CHR '','' # json_pair ''commit_sha'' b"
  obtain v where v: "parse_labels_from ?in Map.empty = parse_labels_from (CHR '','' # json_pair ''commit_sha'' b) [''release_tag'' \<mapsto> v]"
    using parse_json_pair [OF k(1) assms(1), of "CHR '','' # json_pair ''commit_sha'' b" Map.empty] by auto
  obtain w where "parse_labels_from (json_pair ''commit_sha'' b @ []) [''release_tag'' \<mapsto> v] = parse_labels_from [] [''release_tag'' \<mapsto> v, ''commit_sha'' \<mapsto> w]"
    using parse_json_pair [OF k(2) assms(2), of "[]"] by blast
  then have "parse_labels_from ?in Map.empty = Ok [''release_tag'' \<mapsto> v, ''commit_sha'' \<mapsto> w]"
    using v by (simp add: parse_separator parse_labels_from.simps [of "[]"])
  moreover have "CHR 0x0A \<notin> set ?in" using json_no_newline assms by (auto simp: json_pair_def)
  ultimately show ?thesis using labelled_line_other [of "''nf_build_info''" ?in] by (simp add: json_pair_def name_defs other_name_def)
qed

lemma desired_line_other:
  assumes "json_chars a"
  shows "other_line (''nf_updater_desired_info{release_tag='' @ (CHR 0x22 # a @ [CHR 0x22]) @ ''} 1'')"
proof -
  have k: "label_key ''release_tag''" by (simp add: label_key_def is_separator_def is_ascii_whitespace_def is_space_def)
  obtain v where "parse_labels_from (json_pair ''release_tag'' a @ []) Map.empty = parse_labels_from [] [''release_tag'' \<mapsto> v]"
    using parse_json_pair [OF k assms, of "[]"] by blast
  then have "parse_labels_from (json_pair ''release_tag'' a) Map.empty = Ok [''release_tag'' \<mapsto> v]" by (simp add: parse_labels_from.simps [of "[]"])
  moreover have "CHR 0x0A \<notin> set (json_pair ''release_tag'' a)" using json_no_newline assms by (auto simp: json_pair_def)
  ultimately show ?thesis
    using labelled_line_other [of "''nf_updater_desired_info''" "json_pair ''release_tag'' a"] by (simp add: json_pair_def name_defs other_name_def)
qed

lemma other_text_opt:
  "other_text out \<Longrightarrow> (\<And>x. other_text (f x)) \<Longrightarrow> other_text (case o' of None \<Rightarrow> out | Some x \<Rightarrow> out @ f x)"
  by (cases o') (simp_all add: other_text_app)

lemma status_metrics_other:
  assumes "json_strings to_text"
  shows "other_text (status_metrics to_text from_json b file)"
proof -
  obtain ta where ta: "to_text (json_index (build_info b) ''release_tag'') = CHR 0x22 # ta @ [CHR 0x22]" "json_chars ta"
    using assms by (auto simp: json_strings_def build_info_def json_index_def unwrap_or_def)
  obtain tb where tb: "to_text (json_index (build_info b) ''commit_sha'') = CHR 0x22 # tb @ [CHR 0x22]" "json_chars tb"
    using assms by (auto simp: json_strings_def build_info_def json_index_def unwrap_or_def)
  have comment: "other_line ''# TYPE nf_build_info gauge''" by (simp add: other_line_def good_line_def line_sample_def is_comment_def)
  have start: "other_text (''# TYPE nf_build_info gauge'' @ newline @ ''nf_build_info{release_tag='' @ to_text (json_index (build_info b) ''release_tag'') @
      '',commit_sha='' @ to_text (json_index (build_info b) ''commit_sha'') @ ''} 1'' @ newline)"
    using other_text_app [OF other_text_line [OF comment] other_text_line [OF build_line_other [OF ta(2) tb(2)]]] ta(1) tb(1) by simp
  have counter: "list_all name_char metric" if "(field, metric) \<in> set COUNTER_FIELDS" for field metric
    using that by (auto simp: COUNTER_FIELDS_def name_defs)
  have bits: "(if v then ''1'' else ''0'') = show_nat (if v then 1 else 0)" for v by (simp add: show_nat.simps)
  have flags: "list_all name_char ''enabled''" "list_all name_char ''converged''" "list_all name_char ''desired_height''" by (simp_all add: name_defs)
  have desired: "other_text (''nf_updater_desired_info{release_tag='' @ to_text (JString tag) @ ''} 1'' @ newline)" for tag
  proof -
    obtain t where "to_text (JString tag) = CHR 0x22 # t @ [CHR 0x22]" "json_chars t" using assms unfolding json_strings_def by blast
    then show ?thesis using other_text_line [OF desired_line_other] by simp
  qed
  have counters: "other_text (fold (\<lambda>(field, metric) out.
      case as_u64 (json_index st field) of None \<Rightarrow> out | Some n \<Rightarrow> out @ metric_line metric (show_nat (unat n))) COUNTER_FIELDS out)"
    if "other_text out" for out st
    by (rule other_text_fold [OF that]) (auto intro!: other_text_opt metric_line_other dest: counter)
  have booleans: "other_text (fold (\<lambda>field out.
      case as_bool (json_index st field) of None \<Rightarrow> out | Some v \<Rightarrow> out @ metric_line field (show_nat (if v then 1 else 0))) [''enabled'', ''converged''] out)"
    if "other_text out" for out st
    by (rule other_text_fold [OF that]) (use flags in \<open>auto intro!: other_text_opt metric_line_other\<close>)
  show ?thesis
    unfolding status_metrics_def Let_def bits
    by (intro other_text_opt desired metric_line_other flags(3) booleans counters start)
qed

section \<open>Exact counts\<close>

text \<open>Below the range of the counters the responses of an endpoint are as many as its durations.\<close>

definition counts_exact :: "tracker \<Rightarrow> bool" where
  "counts_exact s \<longleftrightarrow> tracker_inv s \<and>
     (\<forall>ep. length (http_request_duration (fst s) ep) < 2 ^ 64 \<longrightarrow> responses (fst s) ep (\<lambda>_. True) = length (http_request_duration (fst s) ep))"

lemma responses_upd:
  assumes "http_requests m' = (http_requests m)((e, endpoint_method e, st) := http_requests m (e, endpoint_method e, st) + 1)"
    and "unat (http_requests m (e, endpoint_method e, st)) + 1 < 2 ^ 64"
  shows "responses m' ep (\<lambda>_. True) = responses m ep (\<lambda>_. True) + (if e = ep then 1 else 0)"
proof -
  let ?k = "\<lambda>ep st'. unat (http_requests m (ep, endpoint_method ep, st'))"
  have "unat (http_requests m (e, endpoint_method e, st) + 1) = ?k e st + 1" using assms(2) by (simp add: unat_word_ariths)
  then have "unat (http_requests m' (ep, endpoint_method ep, st')) = (if st' = st \<and> e = ep then ?k ep st + 1 else ?k ep st')" for st'
    unfolding assms(1) by auto
  then show ?thesis using sum_count [of st "?k ep" 1] by (simp add: responses_def)
qed

lemma counts_exact_step:
  assumes "track_step s s'" "counts_exact s"
  shows "counts_exact s'"
proof -
  have inv: "tracker_inv s'" using tracker_inv_step [OF assms(1)] assms(2) by (simp add: counts_exact_def)
  have old: "responses (fst s) ep (\<lambda>_. True) = length (http_request_duration (fst s) ep)" if "length (http_request_duration (fst s) ep) < 2 ^ 64" for ep
    using assms(2) that by (simp add: counts_exact_def)
  have same: "counts_exact s'" if "http_requests (fst s') = http_requests (fst s)" "http_request_duration (fst s') = http_request_duration (fst s)"
    using inv old that by (simp add: counts_exact_def responses_def)
  from assms(1) show ?thesis
  proof cases
    case (arrive i now me p)
    then show ?thesis by (intro same) (auto simp: track_begin_def split: option.splits)
  next
    case (handle i r now m' timer)
    then show ?thesis by (intro same) (auto simp: start_tier1_processing_with_def)
  next
    case (handled i r timer now)
    then show ?thesis by (intro same) (auto simp: timer_drop_def)
  next
    case (cancel i r now)
    then show ?thesis by (intro same) (auto simp: timer_drop_def Let_def split: option.splits)
  next
    case (respond i r now status)
    let ?e = "or_endpoint r"
    have me: "method_as_str (or_method r) = endpoint_method ?e"
      using assms(2) respond(2) by (auto simp: counts_exact_def tracker_inv_def Let_def split: prod.splits)
    have upd: "http_requests (fst s') = (http_requests (fst s))((?e, endpoint_method ?e, status) := http_requests (fst s) (?e, endpoint_method ?e, status) + 1)"
      and dur: "length (http_request_duration (fst s') ep) = length (http_request_duration (fst s) ep) + (if ?e = ep then 1 else 0)" for ep
      using respond(1) me by (auto simp: track_end_def Let_def observe_def)
    have "responses (fst s') ep (\<lambda>_. True) = length (http_request_duration (fst s') ep)" if "length (http_request_duration (fst s') ep) < 2 ^ 64" for ep
    proof (cases "?e = ep")
      case True
      then have "length (http_request_duration (fst s) ep) + 1 < 2 ^ 64" using that dur [of ep] by simp
      then have "unat (http_requests (fst s) (?e, endpoint_method ?e, status)) + 1 < 2 ^ 64"
        using old [of ep] responses_bound [of "fst s" ep status] True by simp
      then show ?thesis using responses_upd [OF upd] old [of ep] that dur [of ep] True by simp
    next
      case False
      then have "responses (fst s') ep (\<lambda>_. True) = responses (fst s) ep (\<lambda>_. True)" unfolding responses_def upd by (intro sum.cong) auto
      then show ?thesis using old [of ep] that dur [of ep] False by simp
    qed
    then show ?thesis using inv by (simp add: counts_exact_def)
  qed
qed

interpretation counting_run: step_invariant track_step counts_exact
  by unfold_locales (rule counts_exact_step)

text \<open>
  C37. From the middleware to the agent. Building the registry does not panic. After any interleaving of
  requests, the answer of \<^verbatim>\<open>GET /metrics\<close>, with the updater's part appended whatever its
  status file holds, is a text the monitoring agent can parse; and, up to \<open>2 ^ 53\<close> requests, the
  snapshot it gets has for each of its endpoints exactly the number of requests answered and the number of
  those answered with a status that begins with 5, the number of open ones, and for queries the number being processed. Of the
  Prometheus library it is assumed that \<^verbatim>\<open>gather\<close> returns the registered families that have samples and that the encoder
  writes the exposition format of families that have samples; the metrics not used yet have none.
\<close>

theorem metrics_reach_agent:
  assumes "registry_laws P" "gather_laws P" "text_encoder P disp" "f64_display disp" "json_strings to_text"
    and "track_step\<^sup>*\<^sup>* (no_requests, Map.empty) (sv_requests m, reqs)"
    and "labels_used (sv_requests m) touched eps" "process_families process" "list_all ascii_string (bm_outcomes (sv_boot m))"
    and "ep \<in> set ENDPOINTS" "length (http_request_duration (sv_requests m) ep) \<le> 2 ^ 53" "card (dom reqs) \<le> 2 ^ 53"
  shows "build_metrics P = Ok (metric_descs @ pr_process P) \<and>
    (\<exists>body s. handle_metrics P (registered touched eps process m) to_text from_json b file = (200, pr_format_type P, body) \<and>
       parse_prometheus body now = Ok s \<and>
       ec_requests (endpoint_of s ep) = Fin (of_nat (length (http_request_duration (sv_requests m) ep))) \<and>
       ec_errors_5xx (endpoint_of s ep) = Fin (of_nat (responses (sv_requests m) ep server_error)) \<and>
       ec_in_flight (endpoint_of s ep) = Fin (of_nat (card {i. \<exists>r. reqs i = Some r \<and> or_endpoint r = ep})) \<and>
       (ep = ENDPOINT \<longrightarrow> ec_processing_in_flight (endpoint_of s ep) = Fin (of_nat (card {i. \<exists>r. reqs i = Some r \<and> or_timer r \<noteq> None}))))"
proof -
  let ?r = "sv_requests m"
  have start: "counts_exact (no_requests, Map.empty)"
    by (simp add: counts_exact_def tracker_inv_def no_requests_def open_at_def timing_def responses_def)
  note inv = counting_run.reachable_inv [OF assms(6) start]
  have dur: "responses ?r ep (\<lambda>_. True) = length (http_request_duration ?r ep)" using inv assms(11) by (simp add: counts_exact_def)
  have fin: "finite (dom reqs)" "http_in_flight ?r ep = of_nat (card (open_at reqs ep))" "http_processing_in_flight ?r ENDPOINT = of_nat (card (timing reqs))"
    using inv by (simp_all add: counts_exact_def tracker_inv_def)
  have "card (open_at reqs ep) \<le> 2 ^ 53" "card (timing reqs) \<le> 2 ^ 53"
    by (rule order.trans [OF card_mono [OF fin(1)] assms(12)]; auto simp: open_at_def timing_def)+
  moreover have "sint (of_nat n :: u64) = int n" if "n \<le> 2 ^ 53" for n using that by (simp add: signed_of_nat signed_take_bit_int_eq_self)
  ultimately have g: "shown disp (sint (http_in_flight ?r ep)) = Fin (of_nat (card (open_at reqs ep)))"
    "shown disp (sint (http_processing_in_flight ?r ENDPOINT)) = Fin (of_nat (card (timing reqs)))"
    by (simp_all add: fin shown_nat [OF assms(4)])
  note gathered = gathered_lines [OF assms(2) registered_distinct [OF assms(8)] registered_families_ok [OF assms(7-9)]]
  obtain ls where ls: "pr_encode P (pr_gather P (registered touched eps process m)) = Ok (unlines ls)" "utf8_valid (unlines ls)" "list_all (\<lambda>l. CHR 0x0A \<notin> set l) ls"
    "mset (filter (\<lambda>l. \<not> is_comment l) ls) = mset (concat (map (family_lines disp) (registered touched eps process m)))"
    using assms(3) gathered unfolding text_encoder_def by metis
  obtain sl where sl: "status_metrics to_text from_json b file = unlines sl" "list_all other_line sl"
    using status_metrics_other [OF assms(5)] unfolding other_text_def by blast
  have body: "handle_metrics P (registered touched eps process m) to_text from_json b file = (200, pr_format_type P, unlines (ls @ sl))"
    using ls sl(1) by (simp add: handle_metrics_def Let_def unlines_def)
  obtain s where s: "parse_prometheus (unlines (ls @ sl)) now = Ok s"
    "ec_requests (endpoint_of s ep) = Fin (of_nat (length (http_request_duration ?r ep)))"
    "ec_errors_5xx (endpoint_of s ep) = Fin (of_nat (responses ?r ep server_error))"
    "ec_in_flight (endpoint_of s ep) = Fin (of_nat (card (open_at reqs ep)))"
    "ec_processing_in_flight (endpoint_of s ep) = shown disp (sint (http_processing_in_flight ?r ep))"
    using gathered_parse [OF assms(4,7-9) _ assms(10) ls(4,3) sl(2), of now] assms(11) unfolding dur g(1) by blast
  show ?thesis
  proof (intro conjI exI)
    show "ep = ENDPOINT \<longrightarrow> ec_processing_in_flight (endpoint_of s ep) = Fin (of_nat (card {i. \<exists>r. reqs i = Some r \<and> or_timer r \<noteq> None}))"
      using s(5) g(2) by (auto simp: timing_def)
  qed (use s body build_metrics_Ok [OF assms(1)] in \<open>simp_all add: open_at_def\<close>)
qed

section \<open>An instance\<close>

fun digits_display :: "f64 \<Rightarrow> string" where
  "digits_display (Fin x) = show_nat (nat \<lfloor>x\<rfloor>)"
| "digits_display PosInf = ''inf''"
| "digits_display NegInf = ''-inf''"
| "digits_display NaN = ''NaN''"

lemma digits_display_laws: "f64_display digits_display"
proof -
  have "parse_f64 ''NaN'' = Some NaN" by code_simp
  moreover have "parse_f64 ''inf'' = Some PosInf" "parse_f64 ''-inf'' = Some NegInf" by code_simp+
  ultimately have "(\<exists>y. parse_f64 (digits_display x) = Some y) \<and> digits_display x \<noteq> [] \<and> ascii_string (digits_display x) \<and> list_all (\<lambda>c. \<not> is_space c) (digits_display x)" for x
    using show_nat_digits digits_no_space show_nat_ascii parse_f64_nat
    by (cases x) (auto simp: list_all_iff ascii_string_def is_space_def)
  then show ?thesis by (auto simp: f64_display_def)
qed

definition plain_prometheus :: prometheus where
  "plain_prometheus = \<lparr>pr_new = valid_desc, pr_register = (\<lambda>reg c. ds_name ` set reg \<inter> ds_name ` set c = {}), pr_process = [],
     pr_gather = filter has_samples, pr_format_type = ''text/plain; version=0.0.4'',
     pr_encode = (\<lambda>fs. if list_all has_samples fs then Ok (unlines (concat (map (family_lines digits_display) fs)))
       else Bail ''MetricFamily has no metrics'')\<rparr>"

lemma utf8_ascii: "ascii_string s \<Longrightarrow> utf8_valid s"
  by (induction s) (auto simp: ascii_string_def byte_in_def)

lemma plain_encoder: "text_encoder plain_prometheus digits_display"
  unfolding text_encoder_def
proof (intro allI impI)
  fix fs assume fs: "list_all (\<lambda>f. family_ok f \<and> has_samples f) fs"
  let ?ls = "concat (map (family_lines digits_display) fs)"
  have l: "good_line l \<and> ascii_string l \<and> \<not> is_comment l" if "l \<in> set ?ls" for l
    using that family_line [OF digits_display_laws] fs by (fastforce simp: list_all_iff line_sample_def split: if_splits)
  then have "ascii_string (unlines ?ls)" by (fastforce simp: unlines_def ascii_string_def list_all_iff)
  moreover have "filter (\<lambda>l. \<not> is_comment l) ?ls = ?ls" using l by (simp add: filter_id_conv)
  ultimately show "\<exists>ls. pr_encode plain_prometheus fs = Ok (unlines ls) \<and> utf8_valid (unlines ls) \<and> list_all (\<lambda>l. CHR 0x0A \<notin> set l) ls \<and>
      mset (filter (\<lambda>l. \<not> is_comment l) ls) = mset ?ls"
    using l utf8_ascii fs by (intro exI [of _ ?ls]) (auto simp: plain_prometheus_def list_all_iff good_line_def)
qed

definition json_escape :: "string \<Rightarrow> string" where
  "json_escape s = concat (map (\<lambda>c. if c = CHR 0x22 \<or> c = CHR 0x5C then [CHR 0x5C, c]
     else if (of_char c :: nat) < 0x20 then CHR 0x5C # ''u00'' @ [if (of_char c :: nat) < 16 then CHR ''0'' else CHR ''1'', ''0123456789abcdef'' ! (of_char c mod 16)]
     else [c]) s)"

fun string_text :: "json \<Rightarrow> string" where
  "string_text (JString s) = CHR 0x22 # json_escape s @ [CHR 0x22]"
| "string_text _ = ''null''"

lemma json_chars_plain: "list_all (\<lambda>c. c \<noteq> CHR 0x22 \<and> c \<noteq> CHR 0x5C \<and> 0x20 \<le> (of_char c :: nat)) t \<Longrightarrow> json_chars s \<Longrightarrow> json_chars (t @ s)"
  by (induction t) (auto intro: json_chars.intros)

lemma hex_digit_plain:
  assumes "d < 16"
  shows "(\<lambda>c. c \<noteq> CHR 0x22 \<and> c \<noteq> CHR 0x5C \<and> 0x20 \<le> (of_char c :: nat)) (''0123456789abcdef'' ! d)"
proof -
  have "list_all (\<lambda>c. c \<noteq> CHR 0x22 \<and> c \<noteq> CHR 0x5C \<and> 0x20 \<le> (of_char c :: nat)) ''0123456789abcdef''" by simp
  then show ?thesis using assms by (simp add: list_all_length)
qed

lemma json_escape_chars: "json_chars (json_escape s)"
proof (induction s)
  case (Cons c s)
  have "json_chars ([CHR ''0'', CHR ''0'', if (of_char c :: nat) < 16 then CHR ''0'' else CHR ''1'', ''0123456789abcdef'' ! (of_char c mod 16)] @ json_escape s)"
    using Cons hex_digit_plain [of "of_char c mod 16"] by (intro json_chars_plain) auto
  then show ?case using Cons by (auto simp: json_escape_def intro: json_chars.intros)
qed (simp add: json_escape_def json_chars.intros)

text \<open>One answered request for Tier 0.\<close>

theorem metrics_reach_agent_witness:
  "\<exists>m body s. handle_metrics plain_prometheus (registered [(''tier0'', ''GET'', 200)] (\<lambda>_. [''tier0'']) [] m) string_text (\<lambda>_. None)
       \<lparr>bi_release_tag = Some ''v1'', bi_commit_sha = None, bi_package_version = ''0.1.0'', bi_feature_serve = True\<rparr> None =
     (200, ''text/plain; version=0.0.4'', body) \<and>
     parse_prometheus body 5 = Ok s \<and> ec_requests (endpoint_of s ''tier0'') = Fin 1 \<and> ec_in_flight (endpoint_of s ''tier0'') = Fin 0"
proof -
  let ?b = "\<lparr>bi_release_tag = Some ''v1'', bi_commit_sha = None, bi_package_version = ''0.1.0'', bi_feature_serve = True\<rparr>"
  let ?s1 = "track_begin 10 0 GET ''/tier0'' (no_requests, Map.empty)"
  let ?r = "\<lparr>or_endpoint = ''tier0'', or_method = GET, or_started = 10, or_timer = None, or_handled = False\<rparr>"
  let ?s2 = "track_end 30 0 ?r 200 ?s1"
  let ?m = "\<lparr>sv_boot = \<lparr>bm_gauges = no_gauges, bm_attempts = 1, bm_outcomes = [''bootstrapped''], bm_bytes = 7\<rparr>, sv_boot_duration = [9],
     sv_requests = fst ?s2\<rparr>"
  have s1: "snd ?s1 = [0 \<mapsto> ?r]" by (simp add: track_begin_def allowlisted_endpoint_def)
  have "track_step (no_requests, Map.empty) ?s1" by (rule track_step.arrive) simp
  moreover have "track_step ?s1 ?s2" by (rule track_step.respond) (simp_all add: s1)
  ultimately have "track_step\<^sup>*\<^sup>* (no_requests, Map.empty) ?s2" by (meson converse_rtranclp_into_rtranclp rtranclp.rtrancl_refl)
  moreover have "?s2 = (fst ?s2, Map.empty)" by (simp add: track_end_def Let_def s1)
  ultimately have run: "track_step\<^sup>*\<^sup>* (no_requests, Map.empty) (sv_requests ?m, Map.empty)" by simp
  note sim = track_end_def track_begin_def allowlisted_endpoint_def no_requests_def guard_new_def guard_drop_def observe_def Let_def
  have laws: "registry_laws plain_prometheus" by (simp add: registry_laws_def plain_prometheus_def)
  have gl: "gather_laws plain_prometheus" by (simp add: gather_laws_def plain_prometheus_def)
  have js: "json_strings string_text" using json_escape_chars by (auto simp: json_strings_def)
  have used: "labels_used (sv_requests ?m) [(''tier0'', ''GET'', 200)] (\<lambda>_. [''tier0''])"
    by (auto simp: labels_used_def sim ENDPOINTS_def endpoint_method_def ENDPOINT_def)
  have dur: "length (http_request_duration (sv_requests ?m) ''tier0'') = 1" by (simp add: sim)
  have small: "length (http_request_duration (sv_requests ?m) ''tier0'') \<le> 2 ^ 53" "card (dom (Map.empty :: nat \<rightharpoonup> open_request)) \<le> 2 ^ 53"
    "list_all ascii_string (bm_outcomes (sv_boot ?m))" "process_families []" "''tier0'' \<in> set ENDPOINTS"
    unfolding dur by (simp_all add: ascii_string_def process_families_def ENDPOINTS_def)
  show ?thesis
    using metrics_reach_agent [OF laws gl plain_encoder digits_display_laws js run used small(4,3,5,1,2), of "\<lambda>_. None" ?b None 5] dur
    by (auto simp: plain_prometheus_def)
qed

end
