(* ===== verification/End_To_End.thy ===== *)
theory End_To_End
  imports Serve
begin

text \<open>
  The client of \<^verbatim>\<open>pir/client\<close> talking to the server of \<^verbatim>\<open>nf-server\<close>: the server's handlers as
  the network the client sees, what connecting gives, and the retrieval of a proof over
  the wire. The cryptography of YPIR enters as the contract \<open>ypir_correct\<close> between the two
  library halves.
\<close>

definition server_net :: "('y, 'o) ypir_server \<Rightarrow> server_json \<Rightarrow> ('y, 'o) AppState \<Rightarrow> string \<Rightarrow> net" where
  "server_net Y W st base =
     \<lparr>net_get = (\<lambda>url.
        if url = base @ ''/root'' then Ok (get_root W st)
        else if url = base @ ''/tier0'' then Ok (get_tier0 W st)
        else if url = base @ ''/params/tier1'' then Ok (get_params_tier1 W st)
        else Ok (respond 404 ''text/plain'' [])),
      net_post = (\<lambda>url body.
        if url = base @ ''/tier1/query'' then catch_unwind ''connection closed'' (snd (post_tier1_query Y W st body))
        else Ok (respond 404 ''text/plain'' []))\<rparr>"

text \<open>The printers of the server and the parsers of the client agree on what is served.\<close>

definition codecs_agree :: "server_json \<Rightarrow> parsers \<Rightarrow> meta_codec \<Rightarrow> PirMetadata \<Rightarrow> YpirScenario \<Rightarrow> bool" where
  "codecs_agree W J C m scn \<longleftrightarrow>
     parse_root_info J (root_to_json W (root_info m scn)) = Ok (root_info m scn) \<and>
     parse_ypir_scenario J (scenario_to_json W scn) = Ok scn \<and>
     (\<forall>s bs. hex_to C s = Some bs \<longrightarrow> hex_decode J s = Ok bs)"

section \<open>Connecting\<close>

lemma get_responses:
  assumes "serving st = Some ss"
  shows "is_success (rsp_status (get_root W st))" "is_success (rsp_status (get_tier0 W st))"
    "is_success (rsp_status (get_params_tier1 W st))"
    "rsp_body (get_root W st) = root_to_json W (root_info (ss_metadata ss) (ss_tier1_scenario ss))"
    "rsp_body (get_tier0 W st) = ss_tier0_data ss"
    "rsp_body (get_params_tier1 W st) = scenario_to_json W (ss_tier1_scenario ss)"
  using assms
  by (simp_all add: get_root_def get_tier0_def get_params_tier1_def require_serving_def respond_def is_success_def)

lemma decode_root_hex_Ok:
  "hex_decode J s = Ok (to_repr x) \<Longrightarrow> decode_root_hex J s = Ok x"
  by (simp add: decode_root_hex_def)

text \<open>The root response of a loaded server passes the client's checks.\<close>

lemma check_root_served:
  assumes s: "serving st = Some ss" and wf: "serving_wf TYPE('p::len) C network degree ss"
    and ag: "codecs_agree W J C (ss_metadata ss) (ss_tier1_scenario ss)"
  shows "check_root (server_net Y W st base) J (base @ ''/root'') (md_pir_layout (ss_metadata ss)) =
    Ok (root_info (ss_metadata ss) (ss_tier1_scenario ss))"
proof -
  let ?m = "ss_metadata ss" and ?scn = "ss_tier1_scenario ss"
  have L: "supported (md_pir_layout ?m)" "poly_len (md_pir_layout ?m) = degree" "?scn = layout_scenario (md_pir_layout ?m) degree"
    and cur: "is_current_dataset (md_nullifier_pool ?m) (md_dataset_version ?m)" "md_pir_depth ?m = pir_depth (md_pir_layout ?m)"
    using wf by (simp_all add: serving_wf_def Let_def)
  have v: "validate_layout (md_pir_layout ?m) = Ok ()" using L(1) by (simp add: validate_layout_def validate_supported_iff)
  have "ri_pir_layout (root_info ?m ?scn) = md_pir_layout ?m" using L(2) by (simp add: root_info_def L(3) layout_scenario_def)
  moreover have "net_get (server_net Y W st base) (base @ ''/root'') = Ok (get_root W st)" by (simp add: server_net_def)
  moreover have "ri_nullifier_pool (root_info ?m ?scn) = md_nullifier_pool ?m" "ri_dataset_version (root_info ?m ?scn) = md_dataset_version ?m"
    "ri_pir_depth (root_info ?m ?scn) = md_pir_depth ?m" by (simp_all add: root_info_def)
  ultimately show ?thesis
    using ag by (simp add: check_root_def body_for_status_def get_responses [OF s] codecs_agree_def cur v)
qed

text \<open>A client connects with a root exactly if that is what the advertised circuit root decodes to.\<close>

lemma connect_served_root:
  fixes cr :: "'p::len fp"
  assumes s: "serving st = Some ss" and wf: "serving_wf TYPE('p) C network degree ss"
    and ag: "codecs_agree W J C (ss_metadata ss) (ss_tier1_scenario ss)"
    and cr: "decode_root_hex J (md_circuit_root (ss_metadata ss)) = Ok cr"
  shows "\<exists>t0. tier0_from_layout TYPE('p) (ss_tier0_data ss) (md_pir_layout (ss_metadata ss)) = Ok t0 \<and>
    with_transport P (server_net Y W st (trim_end_slashes url)) J url (md_pir_layout (ss_metadata ss)) =
     (Ok \<lparr>pc_server_url = trim_end_slashes url, pc_layout = md_pir_layout (ss_metadata ss), pc_tier0 = t0,
          pc_tier1_scenario = ss_tier1_scenario ss, pc_tier1_row_bytes = md_tier1_row_bytes (ss_metadata ss),
          pc_num_ranges = md_num_ranges (ss_metadata ss), pc_empty_hashes = precompute_empty_hashes P,
          pc_circuit_root = cr\<rparr>,
      [Get (trim_end_slashes url @ ''/root''), Get (trim_end_slashes url @ ''/tier0''),
       Get (trim_end_slashes url @ ''/params/tier1'')])"
proof -
  let ?m = "ss_metadata ss" and ?N = "server_net Y W st (trim_end_slashes url)"
  let ?L = "md_pir_layout ?m" and ?scn = "ss_tier1_scenario ss"
  have L: "supported ?L" "poly_len ?L = degree" and cur: "is_current_dataset (md_nullifier_pool ?m) (md_dataset_version ?m)"
    and sz: "md_pir_depth ?m = pir_depth ?L" "md_tier1_rows ?m = 2 ^ tier0_layers ?L" "md_tier1_row_bytes ?m = 2 ^ tier1_layers ?L * 96"
    and scn: "?scn = layout_scenario ?L degree"
    using wf by (simp_all add: serving_wf_def Let_def)
  obtain t rt where t: "tier0_from_layout TYPE('p) (ss_tier0_data ss) ?L = Ok t" "tier0_root t = Ok (rt :: 'p fp)"
    "hex_to C (md_pir_root ?m) = Some (to_repr rt)"
    using wf by (auto simp: serving_wf_def Let_def)
  have v: "validate_layout ?L = Ok ()" using L(1) by (simp add: validate_layout_def validate_supported_iff)
  have ri: "ri_pir_layout (root_info ?m ?scn) = ?L"
    using L(2) by (simp add: root_info_def scn layout_scenario_def)
  have rif: "ri_nullifier_pool (root_info ?m ?scn) = md_nullifier_pool ?m" "ri_dataset_version (root_info ?m ?scn) = md_dataset_version ?m"
    "ri_pir_depth (root_info ?m ?scn) = md_pir_depth ?m" "ri_tier1_rows (root_info ?m ?scn) = md_tier1_rows ?m"
    "ri_tier1_row_bytes (root_info ?m ?scn) = md_tier1_row_bytes ?m" "ri_num_ranges (root_info ?m ?scn) = md_num_ranges ?m"
    "ri_pir_root (root_info ?m ?scn) = md_pir_root ?m" "ri_circuit_root (root_info ?m ?scn) = md_circuit_root ?m"
    by (simp_all add: root_info_def)
  have net: "net_get ?N (trim_end_slashes url @ ''/root'') = Ok (get_root W st)"
    "net_get ?N (trim_end_slashes url @ ''/tier0'') = Ok (get_tier0 W st)"
    "net_get ?N (trim_end_slashes url @ ''/params/tier1'') = Ok (get_params_tier1 W st)"
    by (simp_all add: server_net_def)
  have items: "num_items ?scn = 2 ^ tier0_layers ?L" "item_size_bits ?scn = 2 ^ tier1_layers ?L * 96 * 8" "scn_poly_len ?scn = degree"
    by (simp_all add: scn layout_scenario_def)
  have root: "check_root ?N J (trim_end_slashes url @ ''/root'') ?L = Ok (root_info ?m ?scn)"
    by (rule check_root_served [OF s wf ag])
  have hex: "decode_root_hex J (md_pir_root ?m) = Ok rt" "decode_root_hex J (md_circuit_root ?m) = Ok cr"
    using ag t(3) cr by (auto simp: codecs_agree_def intro!: decode_root_hex_Ok)
  have len: "length (ss_tier0_data ss) = (2 ^ tier0_layers ?L - 1) * 32 + 2 ^ tier0_layers ?L * 64"
    using t(1) by (simp add: tier0_from_layout_Ok_iff [OF L(1)])
  have layers: "11 \<le> tier0_layers ?L" "6 \<le> tier1_layers ?L" "tier1_layers ?L \<le> 15"
    using L(1) by (simp_all add: supported_def)
  have "(2::nat) ^ 11 \<le> 2 ^ tier0_layers ?L" "(2::nat) ^ 6 \<le> 2 ^ tier1_layers ?L" "(2::nat) ^ tier1_layers ?L \<le> 2 ^ 15"
    using layers by (simp_all add: power_increasing del: power_numeral)
  then have big: "YPIR_MIN_ROWS \<le> 2 ^ tier0_layers ?L" "YPIR_MIN_ITEM_BITS \<le> 2 ^ tier1_layers ?L * 96 * 8"
    "2 ^ tier1_layers ?L * 96 * 8 < (2::nat) ^ USIZE_BITS"
    by (simp_all add: YPIR_MIN_ROWS_def YPIR_MIN_ITEM_BITS_def USIZE_BITS_def)
  have mul: "checked_mul (2 ^ tier1_layers ?L * 96) 8 = Some (2 ^ tier1_layers ?L * 96 * 8)"
    using big(3) by (simp only: checked_mul_def if_True)
  have geo: "tier1_geometry ?L = Ok (2 ^ tier0_layers ?L, 2 ^ tier1_layers ?L, 2 ^ tier1_layers ?L * 96)"
    by (simp add: tier1_geometry_def supported_geometry [OF L(1)])
  have parse: "parse_ypir_scenario J (scenario_to_json W ?scn) = Ok ?scn" using ag by (simp add: codecs_agree_def)
  have "connect_data P ?N J (trim_end_slashes url) ?L (root_info ?m ?scn) =
      Ok \<lparr>pc_server_url = trim_end_slashes url, pc_layout = ?L, pc_tier0 = t, pc_tier1_scenario = ?scn,
          pc_tier1_row_bytes = md_tier1_row_bytes ?m, pc_num_ranges = md_num_ranges ?m,
          pc_empty_hashes = precompute_empty_hashes P, pc_circuit_root = cr\<rparr>"
    using big(1,2)
    by (simp add: connect_data_def net body_for_status_def get_responses [OF s] parse items L(2)
      ri rif sz geo mul supported_geometry(7) [OF L(1)] len t(1,2) hex del: One_nat_def)
  then show ?thesis
    by (intro exI [of _ t] conjI t(1)) (simp add: with_transport_def v Let_def root)
qed

lemma connect_served:
  fixes cr :: "'p::len fp"
  assumes "serving st = Some ss" "serving_wf TYPE('p) C network degree ss"
    and "codecs_agree W J C (ss_metadata ss) (ss_tier1_scenario ss)"
    and "hex_to C (md_circuit_root (ss_metadata ss)) = Some (to_repr cr)"
  shows "\<exists>t0. tier0_from_layout TYPE('p) (ss_tier0_data ss) (md_pir_layout (ss_metadata ss)) = Ok t0 \<and>
    with_transport P (server_net Y W st (trim_end_slashes url)) J url (md_pir_layout (ss_metadata ss)) =
     (Ok \<lparr>pc_server_url = trim_end_slashes url, pc_layout = md_pir_layout (ss_metadata ss), pc_tier0 = t0,
          pc_tier1_scenario = ss_tier1_scenario ss, pc_tier1_row_bytes = md_tier1_row_bytes (ss_metadata ss),
          pc_num_ranges = md_num_ranges (ss_metadata ss), pc_empty_hashes = precompute_empty_hashes P,
          pc_circuit_root = cr\<rparr>,
      [Get (trim_end_slashes url @ ''/root''), Get (trim_end_slashes url @ ''/tier0''),
       Get (trim_end_slashes url @ ''/params/tier1'')])"
  using assms(3,4) by (intro connect_served_root [OF assms(1-3)]) (auto simp: codecs_agree_def intro!: decode_root_hex_Ok)

lemma connect_served_iff:
  fixes cr :: "'p::len fp"
  assumes "serving st = Some ss" "serving_wf TYPE('p) C network degree ss"
    and "codecs_agree W J C (ss_metadata ss) (ss_tier1_scenario ss)"
  shows "(\<exists>c. fst (with_transport P (server_net Y W st (trim_end_slashes url)) J url (md_pir_layout (ss_metadata ss))) = Ok c \<and> pc_circuit_root c = cr) \<longleftrightarrow>
    decode_root_hex J (md_circuit_root (ss_metadata ss)) = Ok cr"
proof
  assume "decode_root_hex J (md_circuit_root (ss_metadata ss)) = Ok cr"
  from connect_served_root [OF assms this, of P Y url]
  show "\<exists>c. fst (with_transport P (server_net Y W st (trim_end_slashes url)) J url (md_pir_layout (ss_metadata ss))) = Ok c \<and> pc_circuit_root c = cr"
    by auto
next
  assume "\<exists>c. fst (with_transport P (server_net Y W st (trim_end_slashes url)) J url (md_pir_layout (ss_metadata ss))) = Ok c \<and> pc_circuit_root c = cr"
  then obtain c where "connect_data P (server_net Y W st (trim_end_slashes url)) J (trim_end_slashes url) (md_pir_layout (ss_metadata ss))
      (root_info (ss_metadata ss) (ss_tier1_scenario ss)) = Ok c" "pc_circuit_root c = cr"
    using check_root_served [OF assms, of Y "trim_end_slashes url"]
    by (auto simp: with_transport_def Let_def split: sum.splits)
  then have "decode_root_hex J (ri_circuit_root (root_info (ss_metadata ss) (ss_tier1_scenario ss))) = Ok cr"
    by (auto simp: connect_data_def result_simps)
  then show "decode_root_hex J (md_circuit_root (ss_metadata ss)) = Ok cr" by (simp add: root_info_def)
qed

section \<open>Rows over the wire\<close>

text \<open>
  What the YPIR library promises for a database: queries of the dimensions the server
  expects, small enough for its body limit, and a response that decodes to bytes that start
  with the queried row.
\<close>

definition ypir_correct :: "('y, 'o) ypir_server \<Rightarrow> ypir_client \<Rightarrow> YpirScenario \<Rightarrow> bytes \<Rightarrow> nat \<Rightarrow> bool" where
  "ypir_correct Y Yc scn data seed \<longleftrightarrow>
     dims_fit Y scn \<and> 0 < ys_db_rows_padded Y scn \<and> 0 < pp_words Y scn \<and>
     8 + 8 * ys_db_rows_padded Y scn + 8 * pp_words Y scn \<le> MAX_QUERY_BODY_BYTES \<and>
     (\<forall>row < num_items scn. \<exists>q pp dec.
        generate_query_simplepir Yc scn seed row = (q, pp) \<and>
        length q = ys_db_rows_padded Y scn \<and> length pp = pp_words Y scn \<and>
        decode_response_simplepir Yc scn seed
          (ys_online Y scn (fst (ys_build Y scn data)) (snd (ys_build Y scn data)) q pp) = Ok dec \<and>
        item_size_bits scn div 8 \<le> length dec \<and>
        take (item_size_bits scn div 8) dec =
          take (item_size_bits scn div 8) (drop (row * (item_size_bits scn div 8)) data))"

lemma post_served_query:
  assumes "serving st = Some ss" "dims_fit Y (ts_scenario (ss_tier1 ss))"
    and "length q = ys_db_rows_padded Y (ts_scenario (ss_tier1 ss))" "length pp = pp_words Y (ts_scenario (ss_tier1 ss))"
    and "q \<noteq> []" "pp \<noteq> []" "8 + 8 * length q + 8 * length pp \<le> MAX_QUERY_BODY_BYTES"
  shows "\<exists>resp. net_post (server_net Y W st base) (base @ ''/tier1/query'') (serialize_ypir_query q pp) = Ok resp \<and>
    is_success (rsp_status resp) \<and>
    rsp_body resp = ys_online Y (ts_scenario (ss_tier1 ss)) (ts_server (ss_tier1 ss)) (ts_offline (ss_tier1 ss)) q pp"
proof -
  from dispatch_query_Ok [OF answer_serialized [OF assms(2-6)], of "ctrs st"] obtain resp where
    r: "snd (dispatch_query Y (ss_tier1 ss) (serialize_ypir_query q pp) (ctrs st)) = Ok resp" "rsp_status resp = 200"
      "rsp_body resp = ys_online Y (ts_scenario (ss_tier1 ss)) (ts_server (ss_tier1 ss)) (ts_offline (ss_tier1 ss)) q pp"
    by blast
  have "\<not> MAX_QUERY_BODY_BYTES < length (serialize_ypir_query q pp)"
    using assms(7) by (simp add: length_serialize_ypir_query)
  with r assms(1) show ?thesis
    by (simp add: server_net_def post_tier1_query_def case_prod_unfold Let_def catch_unwind_def is_success_def)
qed

lemma answers_rows_served:
  assumes s: "serving st = Some ss" and scn: "ts_scenario (ss_tier1 ss) = layout_scenario L (poly_len L)"
    and st: "(ts_server (ss_tier1 ss), ts_offline (ss_tier1 ss)) = ys_build Y (layout_scenario L (poly_len L)) (tier1_of ranges L)"
    and c: "pc_layout c = L" "pc_server_url c = base" "pc_tier1_scenario c = layout_scenario L (poly_len L)"
      "pc_tier1_row_bytes c = 2 ^ tier1_layers L * 96"
    and y: "ypir_correct Y Yc (layout_scenario L (poly_len L)) (tier1_of ranges L) seed"
  shows "answers_rows (server_net Y W st base) Yc seed c ranges"
  unfolding answers_rows_def c
proof (intro allI impI)
  fix row :: nat
  assume row: "row < 2 ^ tier0_layers L"
  let ?scn = "layout_scenario L (poly_len L)" and ?rb = "2 ^ tier1_layers L * 96"
  have sz: "num_items ?scn = 2 ^ tier0_layers L" "item_size_bits ?scn div 8 = ?rb" by (simp_all add: layout_scenario_def)
  from y row obtain q pp dec where q: "generate_query_simplepir Yc ?scn seed row = (q, pp)"
    "length q = ys_db_rows_padded Y ?scn" "length pp = pp_words Y ?scn"
    and dec: "decode_response_simplepir Yc ?scn seed (ys_online Y ?scn (ts_server (ss_tier1 ss)) (ts_offline (ss_tier1 ss)) q pp) = Ok dec"
      "?rb \<le> length dec" "take ?rb dec = take ?rb (drop (row * ?rb) (tier1_of ranges L))"
    unfolding ypir_correct_def sz st [symmetric] by (metis fst_conv snd_conv)
  have ne: "q \<noteq> []" "pp \<noteq> []" and fit: "dims_fit Y ?scn"
    and lim: "8 + 8 * length q + 8 * length pp \<le> MAX_QUERY_BODY_BYTES"
    using y q(2,3) by (auto simp: ypir_correct_def)
  obtain resp where resp: "net_post (server_net Y W st base) (base @ ''/tier1/query'') (serialize_ypir_query q pp) = Ok resp"
    "is_success (rsp_status resp)" "rsp_body resp = ys_online Y ?scn (ts_server (ss_tier1 ss)) (ts_offline (ss_tier1 ss)) q pp"
    using post_served_query [OF s, unfolded scn, OF fit q(2,3) ne lim] by blast
  have "take ?rb dec = tier1_blob (row_recs ranges (2 ^ tier1_layers L) row)"
    using dec(3) tier1_of_row [OF row, of ranges] by (auto simp: slice_res_Ok_iff)
  with resp dec show "\<exists>resp dec. net_post (server_net Y W st base) (base @ ''/tier1/query'')
      (case generate_query_simplepir Yc ?scn seed row of (q, pp) \<Rightarrow> serialize_ypir_query q pp) = Ok resp \<and>
    is_success (rsp_status resp) \<and> decode_response_simplepir Yc ?scn seed (rsp_body resp) = Ok dec \<and>
    ?rb \<le> length dec \<and> take ?rb dec = tier1_blob (row_recs ranges (2 ^ tier1_layers L) row)"
    by (simp add: q(1))
qed

section \<open>A server of an exported snapshot\<close>

text \<open>What a server that loaded the snapshot of some ranges holds.\<close>

definition snapshot_state ::
  "meta_codec \<Rightarrow> ('y, 'o) ypir_server \<Rightarrow> 'p::len poseidon_constants \<Rightarrow> 'p fp3 list \<Rightarrow> ZcashNetwork \<Rightarrow> u64 option \<Rightarrow> PirLayout \<Rightarrow>
   usize \<Rightarrow> ('y, 'o) ServingState" where
  "snapshot_state C Y P ranges network height L degree =
     \<lparr>ss_tier0_data = tier0_of P ranges L,
      ss_tier1 = \<lparr>ts_server = fst (ys_build Y (layout_scenario L degree) (tier1_of ranges L)),
                  ts_offline = snd (ys_build Y (layout_scenario L degree) (tier1_of ranges L)),
                  ts_scenario = layout_scenario L degree\<rparr>,
      ss_tier1_scenario = layout_scenario L degree,
      ss_metadata = served_meta C P ranges network height L degree\<rparr>"

text \<open>A directory with the three files and no precompute cache loads as that state.\<close>

lemma load_snapshot_fresh:
  assumes "supported L" "degree = 2048 \<or> degree = 4096"
    and "meta_from_json C (meta_to_json C (snapshot_meta C P ranges network height L)) = Some (snapshot_meta C P ranges network height L)"
    and "hex_to C (hex_of C (to_repr (pt_pir_root (pir_tree_of P ranges)))) = Some (to_repr (pt_pir_root (pir_tree_of P ranges)))"
    and "d tier0_file = Some (tier0_of P ranges L)" "d tier1_file = Some (tier1_of ranges L)"
    and "d root_file = Some (meta_to_json C (snapshot_meta C P ranges network height L))"
    and "d TIER1_PRECOMPUTE_FILE = None"
  shows "\<exists>d'. load_serving_state_with_poly_len TYPE('p::len) C H T Y env d network degree =
    (d', Ok (snapshot_state C Y (P :: 'p poseidon_constants) ranges network height L degree))"
proof -
  let ?scn = "layout_scenario L degree"
  have disk: "snapshot_on_disk C P ranges network height L d"
    using assms(3,5-7) by (simp add: snapshot_on_disk_def)
  obtain d' where "new_or_load H T Y env d TIER1_FILE ?scn TIER1_PRECOMPUTE_FILE = (d', Ok (ys_build Y ?scn (tier1_of ranges L), False))"
    using assms(6,8) by (auto simp: new_or_load_def try_load_cache_def case_prod_unfold Let_def tier1_file_names(1))
  then have "new_or_load H T Y env d TIER1_FILE ?scn TIER1_PRECOMPUTE_FILE =
      (d', Ok ((fst (ys_build Y ?scn (tier1_of ranges L)), snd (ys_build Y ?scn (tier1_of ranges L))), False))" by simp
  from load_serving_state_snapshot [OF disk assms(1,2,4) this] show ?thesis by (auto simp: snapshot_state_def)
qed

text \<open>Exporting removes the precompute cache, so the next start builds from the new rows.\<close>

lemma load_after_export:
  assumes "supported L" "pir_depth L = PIR_DEPTH" "degree = 2048 \<or> degree = 4096"
    and "meta_from_json C (meta_to_json C (snapshot_meta C P ranges network height L)) = Some (snapshot_meta C P ranges network height L)"
    and "hex_to C (hex_of C (to_repr (pt_pir_root (pir_tree_of P ranges)))) = Some (to_repr (pt_pir_root (pir_tree_of P ranges)))"
  shows "\<exists>d'. load_serving_state_with_poly_len TYPE('p::len) C H T Y env
      (fst (export_all_with_layout C (pir_tree_of (P :: 'p poseidon_constants) ranges) d network height L)) network degree =
    (d', Ok (snapshot_state C Y P ranges network height L degree))"
proof -
  let ?d = "fst (export_all_with_layout C (pir_tree_of P ranges) d network height L)"
  have d: "?d = run_ops (export_ops C (snapshot_meta C P ranges network height L) (tier0_of P ranges L) (tier1_of ranges L)) d"
    by (simp add: export_all_with_layout_eq [OF assms(1,2)])
  have "?d TIER1_PRECOMPUTE_FILE = None"
    by (simp add: d export_ops_def TIER1_PRECOMPUTE_FILE_def evict_stale_precompute_def root_file_def)
  then show ?thesis
    by (intro load_snapshot_fresh [OF assms(1,3-5)]) (simp_all add: d run_export_ops)
qed

text \<open>A client of a server of that state holds the snapshot and gets its rows.\<close>

lemma served_client:
  fixes P :: "'p::len poseidon_constants"
  assumes ok: "snapshot_ok ranges L" and deg: "degree = 2048 \<or> degree = 4096"
    and wf: "serving_wf TYPE('p) C network degree (snapshot_state C Y P ranges network height L degree)"
    and hex: "\<And>bs. hex_to C (hex_of C bs) = Some bs"
    and ag: "codecs_agree W J C (served_meta C P ranges network height L degree) (layout_scenario L degree)"
    and y: "ypir_correct Y Yc (layout_scenario L degree) (tier1_of ranges L) seed"
    and st: "serving st = Some (snapshot_state C Y P ranges network height L degree)"
  obtains c rs where
    "with_transport P (server_net Y W st (trim_end_slashes url)) J url (L\<lparr>poly_len := degree\<rparr>) = (Ok c, rs)"
    "client_wf c" "pc_layout c = L\<lparr>poly_len := degree\<rparr>" "holds_snapshot P c ranges"
    "answers_rows (server_net Y W st (trim_end_slashes url)) Yc seed c ranges"
proof -
  let ?L = "L\<lparr>poly_len := degree\<rparr>" and ?scn = "layout_scenario L degree" and ?m = "served_meta C P ranges network height L degree"
  let ?ss = "snapshot_state C Y P ranges network height L degree"
  let ?cr = "tree_node P (commit_punctured_ranges P ranges) TREE_DEPTH 0"
  let ?c = "\<lambda>t0. \<lparr>pc_server_url = trim_end_slashes url, pc_layout = ?L, pc_tier0 = t0, pc_tier1_scenario = ?scn,
     pc_tier1_row_bytes = 2 ^ tier1_layers L * 96, pc_num_ranges = length ranges,
     pc_empty_hashes = precompute_empty_hashes P, pc_circuit_root = ?cr\<rparr>"
  note dep = snapshot_depths [OF ok]
  have sup: "supported ?L" using dep(5) deg by (rule supported_degree)
  have ss: "ss_metadata ?ss = ?m" "ss_tier1_scenario ?ss = ?scn" "ss_tier0_data ?ss = tier0_of P ranges L"
    by (simp_all add: snapshot_state_def)
  have md: "md_pir_layout ?m = ?L" "md_num_ranges ?m = length ranges" "md_tier1_row_bytes ?m = 2 ^ tier1_layers L * 96"
    "md_circuit_root ?m = hex_of C (to_repr ?cr)"
    by (simp_all add: served_meta_def snapshot_meta_def export_metadata_def pir_tree_of_def Let_def)
  obtain t0 where t0: "tier0_from_layout TYPE('p) (tier0_of P ranges L) ?L = Ok t0"
    and con: "with_transport P (server_net Y W st (trim_end_slashes url)) J url ?L =
     (Ok (?c t0),
      [Get (trim_end_slashes url @ ''/root''), Get (trim_end_slashes url @ ''/tier0''), Get (trim_end_slashes url @ ''/params/tier1'')])"
    using connect_served [OF st wf, of W J ?cr P Y url] ag by (auto simp: ss md hex)
  have "t0 = tier0_view P ranges ?L"
    using t0 tier0_of_parses [OF sup, of P ranges] by simp
  then have holds: "holds_snapshot P (?c t0) ranges" by (simp add: holds_snapshot_def)
  have "layout_scenario ?L (poly_len ?L) = ?scn" by (simp add: layout_scenario_def)
  then have "answers_rows (server_net Y W st (trim_end_slashes url)) Yc seed (?c t0) ranges"
    using y st by (intro answers_rows_served [where ss = ?ss and L = ?L]) (simp_all add: snapshot_state_def)
  with that [OF con] with_transport_wf [OF con] holds show thesis by simp
qed

lemma service_client:
  fixes P :: "'p::len poseidon_constants"
  assumes ok: "snapshot_ok ranges L" and deg: "degree = 2048 \<or> degree = 4096"
    and js: "meta_from_json C (meta_to_json C (snapshot_meta C P ranges network height L)) = Some (snapshot_meta C P ranges network height L)"
    and hex: "\<And>bs. hex_to C (hex_of C bs) = Some bs"
    and ag: "codecs_agree W J C (served_meta C P ranges network height L degree) (layout_scenario L degree)"
    and y: "ypir_correct Y Yc (layout_scenario L degree) (tier1_of ranges L) seed"
  obtains d' ss c rs where
    "load_serving_state_with_poly_len TYPE('p) C H T Y env
       (fst (export_all_with_layout C (pir_tree_of P ranges) d network height L)) network degree = (d', Ok ss)"
    "with_transport P (server_net Y W (st\<lparr>serving := Some ss\<rparr>) (trim_end_slashes url)) J url (L\<lparr>poly_len := degree\<rparr>) = (Ok c, rs)"
    "client_wf c" "pc_layout c = L\<lparr>poly_len := degree\<rparr>" "holds_snapshot P c ranges"
    "answers_rows (server_net Y W (st\<lparr>serving := Some ss\<rparr>) (trim_end_slashes url)) Yc seed c ranges"
proof -
  let ?ss = "snapshot_state C Y P ranges network height L degree"
  note dep = snapshot_depths [OF ok]
  obtain d' where ld: "load_serving_state_with_poly_len TYPE('p) C H T Y env
      (fst (export_all_with_layout C (pir_tree_of P ranges) d network height L)) network degree = (d', Ok ?ss)"
    using load_after_export [OF dep(5,6) deg js hex] by blast
  have "serving (st\<lparr>serving := Some ?ss\<rparr>) = Some ?ss" by simp
  from served_client [OF ok deg load_serving_wf [OF ld] hex ag y this] that [OF ld] show thesis by blast
qed

end
