(* ===== verification/Built_Tree.thy ===== *)
theory Built_Tree
  imports End_To_End
begin

text \<open>
  What a tree built from a list of nullifiers and its export are, in terms of the padded
  nullifier set: the facts that link the build of \<^verbatim>\<open>pir/export/src/lib.rs\<close> to the retrieval of
  \<^verbatim>\<open>pir/client/src/lib.rs\<close>.
\<close>

lemma built_tree:
  assumes "build_pir_tree_from_nullifiers P nfs = Inr tree"
  shows "pad_slot_free nfs" and "length (triples (nf_list nfs)) \<le> 2 ^ PIR_DEPTH"
    and "tree = pir_tree_of P (triples (nf_list nfs))"
  using assms by (simp_all add: build_pir_tree_from_nullifiers_Ok_iff)

lemma built_tree_fields:
  assumes "build_pir_tree_from_nullifiers P nfs = Inr tree"
  shows "pt_ranges tree = triples (nf_list nfs)"
    and "pt_circuit_root tree = tree_node P (commit_punctured_ranges P (triples (nf_list nfs))) TREE_DEPTH 0"
    and "pt_empty_hashes tree = precompute_empty_hashes P"
  unfolding built_tree(3) [OF assms] by (simp_all add: pir_tree_of_def Let_def precompute_empty_hashes_eq)

lemma built_snapshot:
  assumes "build_pir_tree_from_nullifiers P nfs = Inr tree"
    and "validate_supported L = Inr ()" and "pir_depth L = PIR_DEPTH"
  shows "snapshot_ok (pt_ranges tree) L"
    and "export_for_layout tree L = Ok (tier0_of P (pt_ranges tree) L, tier1_of (pt_ranges tree) L)"
proof -
  have L: "supported L" using assms(2) by (simp add: validate_supported_iff)
  show "snapshot_ok (pt_ranges tree) L"
    unfolding built_tree_fields [OF assms(1)] by (rule snapshot_from_nullifiers [OF built_tree(1,2) [OF assms(1)] L assms(3)])
  show "export_for_layout tree L = Ok (tier0_of P (pt_ranges tree) L, tier1_of (pt_ranges tree) L)"
    unfolding built_tree_fields(1) [OF assms(1)] unfolding built_tree(3) [OF assms(1)]
    by (rule export_for_layout_tree [OF L assms(3)])
qed

lemma built_covered:
  assumes "build_pir_tree_from_nullifiers P nfs = Inr tree"
  shows "(\<exists>i < length (pt_ranges tree). covers (pt_ranges tree ! i) v) \<longleftrightarrow> v \<notin> padded_set nfs"
  unfolding built_tree_fields(1) [OF assms] by (rule covered_iff_not_padded [OF built_tree(1) [OF assms]])

lemma not_padded_minus_one: "v \<notin> padded_set nfs \<Longrightarrow> v \<noteq> - 1"
  using zero_in_nf_set(2) nf_set_subset_padded by blast

lemma retrieval_of_built:
  assumes "build_pir_tree_from_nullifiers P nfs = Inr tree"
    and "validate_supported L = Inr ()" and "pir_depth L = PIR_DEPTH"
    and "export_for_layout tree L = Inr (t0, t1)"
    and "v \<notin> padded_set nfs"
  shows "\<exists>pr. fetch_proof_local_layout P t0 t1 L (length (pt_ranges tree)) v
                (pt_empty_hashes tree) (pt_circuit_root tree) = Inr pr \<and>
              proof_wf pr \<and> root pr = pt_circuit_root tree \<and> verify P pr v"
proof -
  note ok = built_snapshot(1) [OF assms(1-3)]
  have t: "t0 = tier0_of P (pt_ranges tree) L" "t1 = tier1_of (pt_ranges tree) L"
    using assms(4) built_snapshot(2) [OF assms(1-3)] by simp_all
  obtain i where i: "i < length (pt_ranges tree)" "covers (pt_ranges tree ! i) v"
    using built_covered [OF assms(1)] assms(5) by blast
  obtain s p1 where "process_tier0 (tier0_view P (pt_ranges tree) L) L v (replicate TREE_DEPTH 0) = Ok (s, p1)"
    "s < 2 ^ tier0_layers L"
    "process_tier1_and_build P (snapshot_input P (pt_ranges tree) L s v) p1 = Ok (snapshot_proof P (pt_ranges tree) i)"
    using retrieval_covered [OF ok i not_padded_minus_one [OF assms(5)]] by blast
  then show ?thesis
    using local_as_stages [OF ok] verify_snapshot_proof [OF ok i, of P]
    by (auto simp: t built_tree_fields [OF assms(1)] snapshot_proof_def)
qed

lemma snapshot_ok_degree:
  "snapshot_ok ranges L \<Longrightarrow> degree = 2048 \<or> degree = 4096 \<Longrightarrow> snapshot_ok ranges (L\<lparr>poly_len := degree\<rparr>)"
  by (simp add: snapshot_ok_def supported_degree)

lemma remote_retrieval:
  assumes "client_wf c" "answers_rows N Y seed c ranges" "holds_snapshot P c ranges" "snapshot_ok ranges (pc_layout c)"
    and "i < length ranges" "covers (ranges ! i) v" "v \<noteq> - 1"
  shows "fetch_proof P N Y seed c v = Ok (snapshot_proof P ranges i)"
  using retrieval_covered [OF assms(4-7), of P] remote_as_stages [OF assms(1-3)] by metis

text \<open>A client that holds the snapshot of a built tree and gets its rows obtains a verified proof.\<close>

lemma built_proof_over_wire:
  fixes P :: "'p::len poseidon_constants"
  assumes "build_pir_tree_from_nullifiers P nfs = Inr tree" "validate_supported L = Inr ()" "pir_depth L = PIR_DEPTH"
    and deg: "degree = 2048 \<or> degree = 4096"
    and c: "client_wf c" "pc_layout c = L\<lparr>poly_len := degree\<rparr>" "holds_snapshot P c (pt_ranges tree)"
      "answers_rows net Yc seed c (pt_ranges tree)"
    and v: "v \<notin> padded_set nfs"
  shows "\<exists>pr. fetch_proof P net Yc seed c v = Ok pr \<and> proof_wf pr \<and> root pr = pt_circuit_root tree \<and> verify P pr v"
proof -
  note ok = built_snapshot(1) [OF assms(1-3)]
  obtain i where i: "i < length (pt_ranges tree)" "covers (pt_ranges tree ! i) v"
    using built_covered [OF assms(1)] v by blast
  have "snapshot_ok (pt_ranges tree) (pc_layout c)"
    using snapshot_ok_degree [OF ok deg] c(2) by simp
  from remote_retrieval [OF c(1,4,3) this i not_padded_minus_one [OF v]] show ?thesis
    using verify_snapshot_proof [OF ok i, of P] built_tree_fields [OF assms(1)]
    by (auto simp: snapshot_proof_def)
qed

end
