(* ===== verification/Examples.thy ===== *)
theory Examples
  imports End_To_End
begin

text \<open>
  Concrete data on which the properties of the root theory are instantiated: the Pallas
  modulus as an instance of the field type, a small nullifier set with its tree, codecs and
  YPIR functions that meet the contracts assumed of them, and the facts about them that the
  instances share.
\<close>

section \<open>The Pallas base field\<close>

type_synonym pallas = "45560315531419706090280762371685220352"

lemma pallas_modulus:
  "fp_modulus TYPE(pallas) = 0x40000000000000000000000000000000224698fc094cf91b992d30ed00000001"
  by (simp add: fp_modulus_def)

definition sample_constants :: "pallas poseidon_constants" where
  "sample_constants = \<lparr>pc_round = (\<lambda>i. (of_nat i, 1, 2)), pc_mds = ((1, 2, 3), (4, 5, 6), (7, 8, 10))\<rparr>"

section \<open>A snapshot of two nullifiers\<close>

definition sample_nfs :: "pallas fp list" where
  "sample_nfs = [9, 5]"

definition sample_ranges :: "pallas fp3 list" where
  "sample_ranges = triples (nf_list sample_nfs)"

definition sample_tree :: "pallas PirTree" where
  "sample_tree = pir_tree_of sample_constants sample_ranges"

lemma fp_val_small_numeral [simp]:
  "fp_val (5 :: pallas fp) = 5" "fp_val (7 :: pallas fp) = 7" "fp_val (9 :: pallas fp) = 9"
  "fp_val (1 :: pallas fp) = 1" "fp_val (2 :: pallas fp) = 2"
  by (simp_all add: fp_val_numeral pallas_modulus)

lemma sample_pad_slot_free: "pad_slot_free sample_nfs"
  by (simp add: pad_slot_free_def sample_nfs_def fp_eq_iff)

lemma sample_seven_free: "7 \<notin> padded_set sample_nfs"
proof -
  have "(7 :: pallas fp) \<notin> set sentinels" by (rule small_not_sentinel) simp_all
  then show ?thesis by (simp add: padded_set_def nf_set_def sample_nfs_def fp_eq_iff)
qed

lemma sample_five_taken: "5 \<in> padded_set sample_nfs"
  by (simp add: padded_set_def nf_set_def sample_nfs_def)

lemma length_sample_ranges: "length sample_ranges \<le> 2 ^ PIR_DEPTH"
proof -
  have "card (nf_set sample_nfs) \<le> length (sample_nfs @ sentinels)"
    unfolding nf_set_def by (metis card_length set_append)
  then have "card (nf_set sample_nfs) \<le> 36"
    by (simp add: sample_nfs_def sentinels_def Let_def SENTINEL_COUNT_def)
  then have "card (padded_set sample_nfs) \<le> 37"
    by (simp add: padded_set_def card_insert_if)
  then show ?thesis
    by (simp add: sample_ranges_def triples_def nf_list_def PIR_DEPTH_def)
qed

lemma pt_ranges_sample_tree [simp]: "pt_ranges sample_tree = sample_ranges"
  by (simp add: sample_tree_def pir_tree_of_def Let_def)

lemma sample_build: "build_pir_tree_from_nullifiers sample_constants sample_nfs = Inr sample_tree"
  using sample_pad_slot_free length_sample_ranges
  by (simp add: build_pir_tree_from_nullifiers_Ok_iff sample_tree_def sample_ranges_def)

lemma compiled_layout_supported: "validate_supported COMPILED_PIR_LAYOUT = Inr ()"
  by (simp add: validate_supported_iff supported_compiled)

lemma compiled_depth: "pir_depth COMPILED_PIR_LAYOUT = PIR_DEPTH"
  by (simp add: COMPILED_PIR_LAYOUT_def)

lemma sample_export:
  "export_for_layout sample_tree COMPILED_PIR_LAYOUT =
     Inr (tier0_of sample_constants sample_ranges COMPILED_PIR_LAYOUT, tier1_of sample_ranges COMPILED_PIR_LAYOUT)"
  unfolding sample_tree_def by (rule export_for_layout_tree [OF supported_compiled compiled_depth])

section \<open>Codecs and a server for the sample snapshot\<close>

definition sample_hex :: meta_codec where
  "sample_hex =
     \<lparr>meta_to_json = (\<lambda>_. []), meta_from_json = (\<lambda>_. None),
      hex_of = map (\<lambda>b. char_of (unat b)), hex_to = (\<lambda>s. Some (map (\<lambda>c. word_of_nat (of_char c)) s))\<rparr>"

abbreviation sample_height :: "u64 option" where
  "sample_height \<equiv> Some 3428150"

definition sample_codec :: meta_codec where
  "sample_codec = sample_hex\<lparr>meta_from_json :=
     (\<lambda>_. Some (snapshot_meta sample_hex sample_constants sample_ranges Main sample_height COMPILED_PIR_LAYOUT))\<rparr>"

lemma sample_hex_round_trip: "hex_to sample_codec (hex_of sample_codec bs) = Some bs"
proof -
  have "map (\<lambda>b. word_of_nat (of_char (char_of (unat b)))) bs = bs"
    by (rule map_idI) (simp add: unat_byte_less take_bit_nat_eq_self)
  then show ?thesis by (simp add: sample_codec_def sample_hex_def comp_def)
qed

lemma sample_meta_round_trip:
  "meta_from_json sample_codec (meta_to_json sample_codec m) =
     Some (snapshot_meta sample_codec sample_constants sample_ranges Main sample_height COMPILED_PIR_LAYOUT)"
  by (simp add: sample_codec_def snapshot_meta_def export_metadata_def)

abbreviation sample_scenario :: YpirScenario where
  "sample_scenario \<equiv> layout_scenario COMPILED_PIR_LAYOUT 4096"

abbreviation sample_served :: PirMetadata where
  "sample_served \<equiv> served_meta sample_codec sample_constants sample_ranges Main sample_height COMPILED_PIR_LAYOUT 4096"

definition sample_printer :: server_json where
  "sample_printer = \<lparr>root_to_json = (\<lambda>_. []), scenario_to_json = (\<lambda>_. []), health_to_json = (\<lambda>_. []),
     phase_to_json = (\<lambda>_. []), ok_to_json = [], gone_to_json = []\<rparr>"

definition sample_parsers :: parsers where
  "sample_parsers = \<lparr>parse_root_info = (\<lambda>_. Ok (root_info sample_served sample_scenario)),
     parse_ypir_scenario = (\<lambda>_. Ok sample_scenario),
     hex_decode = (\<lambda>s. Ok (map (\<lambda>c. word_of_nat (of_char c)) s))\<rparr>"

lemma sample_codecs_agree: "codecs_agree sample_printer sample_parsers sample_codec sample_served sample_scenario"
  by (simp add: codecs_agree_def sample_parsers_def sample_codec_def sample_hex_def)

text \<open>A library that sends the row number in the clear: it meets the contract of retrieval.\<close>

definition clear_ypir :: "(bytes, unit) ypir_server" where
  "clear_ypir =
     \<lparr>ys_db_rows_padded = (\<lambda>_. 1), ys_poly_len_log2 = (\<lambda>_. 1), ys_t_exp_left = (\<lambda>_. 1), ys_poly_len = (\<lambda>_. 1),
      ys_build = (\<lambda>_ data. (data, ())),
      ys_online = (\<lambda>scn data _ q _. take (item_size_bits scn div 8) (drop (unat (hd q) * (item_size_bits scn div 8)) data)),
      ys_dump_server = (\<lambda>_. None), ys_dump_offline = (\<lambda>_. None),
      ys_load_server = (\<lambda>_ _. None), ys_load_offline = (\<lambda>_ _. None)\<rparr>"

definition clear_client :: ypir_client where
  "clear_client =
     \<lparr>generate_query_simplepir = (\<lambda>_ _ row. ([word_of_nat row], [0])), decode_response_simplepir = (\<lambda>_ _ resp. Ok resp)\<rparr>"

lemma clear_ypir_correct:
  "ypir_correct clear_ypir clear_client sample_scenario (tier1_of sample_ranges COMPILED_PIR_LAYOUT) seed"
proof -
  let ?rb = "item_size_bits sample_scenario div 8"
  have n: "num_items sample_scenario = 4096" "?rb = 12288"
    by (simp_all add: layout_scenario_def COMPILED_PIR_LAYOUT_def TIER0_LAYERS_def TIER1_LAYERS_def)
  have len: "length (tier1_of sample_ranges COMPILED_PIR_LAYOUT) = 4096 * 12288"
    by (simp add: length_tier1_of COMPILED_PIR_LAYOUT_def TIER0_LAYERS_def TIER1_LAYERS_def)
  have row: "unat (word_of_nat row :: u64) = row" if "row < 4096" for row
    using that by (simp add: unat_of_nat)
  show ?thesis
    unfolding ypir_correct_def n
    by (simp add: clear_ypir_def clear_client_def dims_fit_def pp_words_def MAX_QUERY_BODY_BYTES_def n row len) auto
qed

definition sample_target :: build_target where
  "sample_target = \<lparr>bt_arch = ascii ''x86_64'', bt_os = ascii ''linux'', bt_little_endian = True,
     bt_ptr_size = ascii ''8'', bt_avx512f = True\<rparr>"

definition sample_digest :: "bytes \<Rightarrow> bytes" where
  "sample_digest bs = le_bytes 32 (le_val bs)"

lemma length_sample_digest [simp]: "length (sample_digest bs) = 32"
  by (simp add: sample_digest_def)

text \<open>A library whose state is one bit of the tier bytes: its dump loads back.\<close>

definition bit_ypir :: "(bool, unit) ypir_server" where
  "bit_ypir =
     \<lparr>ys_db_rows_padded = (\<lambda>_. 1), ys_poly_len_log2 = (\<lambda>_. 1), ys_t_exp_left = (\<lambda>_. 1), ys_poly_len = (\<lambda>_. 1),
      ys_build = (\<lambda>_ data. (data \<noteq> [], ())), ys_online = (\<lambda>_ b _ _ _. [if b then 1 else 0]),
      ys_dump_server = (\<lambda>b. Some [if b then 1 else 0]), ys_dump_offline = (\<lambda>_. Some []),
      ys_load_server = (\<lambda>_ bs. case bs of [] \<Rightarrow> None | x # _ \<Rightarrow> Some (x = 1, 1)),
      ys_load_offline = (\<lambda>_ _. Some ((), 0))\<rparr>"

lemma bit_ypir_contract: "cache_contract sample_digest bit_ypir"
  by (simp add: cache_contract_def bit_ypir_def)

lemma sample_scenario_wf: "scenario_wf sample_scenario"
  by (simp add: scenario_wf_def layout_scenario_def COMPILED_PIR_LAYOUT_def TIER0_LAYERS_def TIER1_LAYERS_def)

definition bit_server :: "(bool, unit) TierServer" where
  "bit_server = \<lparr>ts_server = True, ts_offline = (), ts_scenario = sample_scenario\<rparr>"

lemma bit_dims: "dims_fit bit_ypir scn" "ys_db_rows_padded bit_ypir scn = 1" "pp_words bit_ypir scn = 1"
  by (simp_all add: dims_fit_def pp_words_def bit_ypir_def)

section \<open>Arguments of a server\<close>

definition sample_serve_args :: serve_args where
  "sample_serve_args =
     \<lparr>sv_zcash_network = Main, sv_port = 3000, sv_pir_poly_len = 4096, sv_lwd_url = ''https://us.zec.stardust.rest:443'', sv_chain_url = None,
      sv_pir_config_url = None, sv_voting_config_url = [], sv_precomputed_base_url = ''https://cdn/'', sv_bootstrap_timeout_secs = 1800,
      sv_force_snapshot_height = Some 3428150, sv_stale_threshold_secs = 1800, sv_watchdog_tick_secs = 60, sv_sentry_dsn = ''https://sentry''\<rparr>"

end
