(* ===== verification/Standalone.thy ===== *)
theory Standalone
  imports Registry Built_Tree Examples
begin

text \<open>
  The standalone server \<^verbatim>\<open>pir-server\<close> (\<^verbatim>\<open>pir/server/src/main.rs\<close>): its arguments and start-up, its
  handlers and its router; and the router of \<^verbatim>\<open>nf-server serve\<close> (\<^verbatim>\<open>cmd_serve.rs\<close>). The extractor of a number
  from a path segment and the layer for cross-origin requests belong to the HTTP framework and are parameters, as is JSON
  text. The lemmas show that on the routes of the standalone server the two answer every sequence of
  requests alike up to the headers of that layer, and that a standalone server started on an exported directory serves proofs.
\<close>

section \<open>Requests and routes\<close>

record http_req =
  rq_method :: http_method
  rq_path :: string
  rq_body :: bytes

definition not_found :: TransportResponse where
  "not_found = \<lparr>rsp_status = 404, rsp_headers = [], rsp_body = []\<rparr>"

definition method_not_allowed :: "string \<Rightarrow> TransportResponse" where
  "method_not_allowed allow = \<lparr>rsp_status = 405, rsp_headers = [(''allow'', allow)], rsp_body = []\<rparr>"

text \<open>\<open>get(handler)\<close> also answers \<open>HEAD\<close>, without the body.\<close>

definition on_get :: "http_req \<Rightarrow> TransportResponse \<Rightarrow> TransportResponse" where
  "on_get rq r =
     (if rq_method rq = GET then r
      else if rq_method rq = OtherMethod ''HEAD'' then r\<lparr>rsp_body := []\<rparr>
      else method_not_allowed ''GET,HEAD'')"

text \<open>The parameter of \<open>/tier1/row/:idx\<close>: one segment that is not empty.\<close>

definition row_segment :: "string \<Rightarrow> string option" where
  "row_segment p =
     (if starts_with p ''/tier1/row/'' \<and> drop 11 p \<noteq> [] \<and> CHR ''/'' \<notin> set (drop 11 p) then Some (drop 11 p) else None)"

definition row_route :: "(string \<Rightarrow> usize option) \<Rightarrow> string \<Rightarrow> (usize \<Rightarrow> TransportResponse) \<Rightarrow> TransportResponse" where
  "row_route path_usize seg handler =
     (case path_usize seg of
        None \<Rightarrow> respond 400 ''text/plain; charset=utf-8'' (ascii ''Invalid URL'')
      | Some idx \<Rightarrow> handler idx)"

section \<open>The standalone server\<close>

record ('y, 'o) app_state =
  ap_serving :: "('y, 'o) ServingState"
  ap_data_dir :: dir
  ap_ctrs :: counters

definition DEFAULT_PORT :: u16 where
  "DEFAULT_PORT = 3001"

text \<open>\<open>str::parse::<u16>\<close>.\<close>

definition parse_u16 :: "string \<Rightarrow> u16 option" where
  "parse_u16 s = (case parse_u64 s of Some n \<Rightarrow> if n < 65536 then Some (word_of_nat n) else None | None \<Rightarrow> None)"

text \<open>
  \<open>main\<close> up to the listener: the arguments, the network of the environment, and the loaded
  snapshot. \<open>dirs\<close> is the contents of a directory.
\<close>

definition standalone_main ::
  "'p::len itself \<Rightarrow> meta_codec \<Rightarrow> (bytes \<Rightarrow> bytes) \<Rightarrow> build_target \<Rightarrow> ('y, 'o) ypir_server \<Rightarrow> (dir \<Rightarrow> dir) \<Rightarrow>
   string list \<Rightarrow> string option \<Rightarrow> (string \<Rightarrow> dir) \<Rightarrow> (u16 \<times> ('y, 'o) app_state) result" where
  "standalone_main P C H T Y env args network_var dirs =
     (let data_dir = (case args of _ # d # _ \<Rightarrow> d | _ \<Rightarrow> ''./pir-data'')
      in and_then (case args of _ # _ # s # _ \<Rightarrow> ok_or (parse_u16 s) (Error ''invalid port number'') | _ \<Rightarrow> Ok DEFAULT_PORT) (\<lambda>port.
         and_then (ok_or network_var (Error ''SVOTE_ZCASH_NETWORK must be set to main or test'')) (\<lambda>name.
         and_then (network_from_str name) (\<lambda>network.
         let (d, loaded) = load_serving_state P C H T Y env (dirs data_dir) network
         in and_then loaded (\<lambda>serving.
            Ok (port, \<lparr>ap_serving = serving, ap_data_dir = d, ap_ctrs = \<lparr>next_req_id = 0, inflight_requests = 0\<rparr>\<rparr>))))))"

definition standalone_get_tier0 :: "('y, 'o) app_state \<Rightarrow> TransportResponse" where
  "standalone_get_tier0 st = respond 200 ''application/octet-stream'' (ss_tier0_data (ap_serving st))"

definition standalone_get_params_tier1 :: "server_json \<Rightarrow> ('y, 'o) app_state \<Rightarrow> TransportResponse" where
  "standalone_get_params_tier1 W st = respond 200 ''application/json'' (scenario_to_json W (ss_tier1_scenario (ap_serving st)))"

definition standalone_post_tier1_query ::
  "('y, 'o) ypir_server \<Rightarrow> ('y, 'o) app_state \<Rightarrow> bytes \<Rightarrow> ('y, 'o) app_state \<times> TransportResponse result" where
  "standalone_post_tier1_query Y st body =
     (if length body > MAX_QUERY_BODY_BYTES then (st, Ok (respond 413 ''text/plain'' []))
      else let (ctr, resp) = dispatch_query Y (ss_tier1 (ap_serving st)) body (ap_ctrs st) in (st\<lparr>ap_ctrs := ctr\<rparr>, resp))"

definition get_tier_row_inner :: "('y, 'o) app_state \<Rightarrow> usize \<Rightarrow> string \<Rightarrow> usize \<Rightarrow> usize \<Rightarrow> TransportResponse" where
  "get_tier_row_inner st idx filename num_rows row_bytes =
     (if idx \<ge> num_rows then respond 404 ''text/plain'' (ascii ''row index out of range'')
      else
        (case read_tier_row (ap_data_dir st) filename (idx * row_bytes) row_bytes of
           Inr row \<Rightarrow> respond 200 ''application/octet-stream'' row
         | Inl _ \<Rightarrow> respond 500 ''text/plain'' (ascii ''read error'')))"

definition standalone_get_tier1_row :: "('y, 'o) app_state \<Rightarrow> usize \<Rightarrow> TransportResponse" where
  "standalone_get_tier1_row st idx =
     get_tier_row_inner st idx ''tier1.bin'' (md_tier1_rows (ss_metadata (ap_serving st))) (md_tier1_row_bytes (ss_metadata (ap_serving st)))"

definition standalone_get_root :: "server_json \<Rightarrow> ('y, 'o) app_state \<Rightarrow> TransportResponse" where
  "standalone_get_root W st =
     (let m = ss_metadata (ap_serving st); layout = (md_pir_layout m)\<lparr>poly_len := scn_poly_len (ss_tier1_scenario (ap_serving st))\<rparr>
      in respond 200 ''application/json''
           (root_to_json W
             \<lparr>ri_zcash_network = md_zcash_network m, ri_nullifier_pool = md_nullifier_pool m,
              ri_dataset_version = md_dataset_version m, ri_circuit_root = md_circuit_root m,
              ri_pir_root = md_pir_root m, ri_num_ranges = md_num_ranges m, ri_pir_layout = layout,
              ri_pir_depth = md_pir_depth m, ri_tier1_rows = md_tier1_rows m,
              ri_tier1_row_bytes = md_tier1_row_bytes m, ri_height = md_height m\<rparr>))"

definition standalone_get_health :: "server_json \<Rightarrow> ('y, 'o) app_state \<Rightarrow> TransportResponse" where
  "standalone_get_health W st =
     respond 200 ''application/json''
       (health_to_json W
         \<lparr>hi_status = ''ok'', hi_tier1_rows = num_items (ss_tier1_scenario (ap_serving st)),
          hi_tier1_row_bytes = md_tier1_row_bytes (ss_metadata (ap_serving st))\<rparr>)"

text \<open>The router of \<open>main\<close>.\<close>

definition standalone_router ::
  "('y, 'o) ypir_server \<Rightarrow> server_json \<Rightarrow> (string \<Rightarrow> usize option) \<Rightarrow> ('y, 'o) app_state \<Rightarrow> http_req \<Rightarrow>
   ('y, 'o) app_state \<times> TransportResponse result" where
  "standalone_router Y W path_usize st rq =
     (let p = rq_path rq
      in if p = ''/tier0'' then (st, Ok (on_get rq (standalone_get_tier0 st)))
         else if p = ''/params/tier1'' then (st, Ok (on_get rq (standalone_get_params_tier1 W st)))
         else if p = ''/tier1/query'' then
           (if rq_method rq = POST then standalone_post_tier1_query Y st (rq_body rq) else (st, Ok (method_not_allowed ''POST'')))
         else if p = ''/root'' then (st, Ok (on_get rq (standalone_get_root W st)))
         else if p = ''/health'' then (st, Ok (on_get rq (standalone_get_health W st)))
         else
           (case row_segment p of
              Some seg \<Rightarrow> (st, Ok (on_get rq (row_route path_usize seg (standalone_get_tier1_row st))))
            | None \<Rightarrow> (st, Ok not_found)))"

section \<open>The router of nf-server\<close>













section \<open>The two servers answer alike\<close>




definition same_snapshot :: "('y, 'o) app_state \<Rightarrow> ('y, 'o) AppState \<Rightarrow> bool" where
  "same_snapshot a st \<longleftrightarrow>
     phase st = Serving \<and> serving st = Some (ap_serving a) \<and> pir_data_dir st = ap_data_dir a \<and> ctrs st = ap_ctrs a"

lemma same_handlers:
  assumes "same_snapshot a st"
  shows "standalone_get_tier0 a = get_tier0 W st" "standalone_get_params_tier1 W a = get_params_tier1 W st"
    "standalone_get_root W a = get_root W st" "standalone_get_health W a = get_health W st" "standalone_get_tier1_row a idx = get_tier1_row W st idx"
  using assms
  by (simp_all add: same_snapshot_def standalone_get_tier0_def get_tier0_def standalone_get_params_tier1_def get_params_tier1_def
      standalone_get_root_def get_root_def root_info_def standalone_get_health_def get_health_def standalone_get_tier1_row_def get_tier1_row_def
      get_tier_row_inner_def get_tier_row_def require_serving_def Let_def)

lemma same_query:
  assumes "same_snapshot a st"
  shows "snd (standalone_post_tier1_query Y a body) = snd (post_tier1_query Y W st body)"
    "same_snapshot (fst (standalone_post_tier1_query Y a body)) (fst (post_tier1_query Y W st body))"
  using assms by (auto simp: same_snapshot_def standalone_post_tier1_query_def post_tier1_query_def split: prod.splits)











section \<open>Proofs from a standalone server\<close>

text \<open>What a client of the server at a base address reaches.\<close>

definition standalone_net ::
  "('y, 'o) ypir_server \<Rightarrow> server_json \<Rightarrow> (string \<Rightarrow> usize option) \<Rightarrow> ('y, 'o) app_state \<Rightarrow> string \<Rightarrow> net" where
  "standalone_net Y W f a base =
     \<lparr>net_get = (\<lambda>url. if starts_with url base
        then snd (standalone_router Y W f a \<lparr>rq_method = GET, rq_path = drop (length base) url, rq_body = []\<rparr>) else Bail ''no route''),
      net_post = (\<lambda>url body. if starts_with url base
        then catch_unwind ''connection closed'' (snd (standalone_router Y W f a \<lparr>rq_method = POST, rq_path = drop (length base) url, rq_body = body\<rparr>))
        else Bail ''no route'')\<rparr>"

lemma standalone_net_same:
  assumes "same_snapshot a st"
  shows "net_get (standalone_net Y W f a base) (base @ ''/root'') = net_get (server_net Y W st base) (base @ ''/root'')"
    "net_get (standalone_net Y W f a base) (base @ ''/tier0'') = net_get (server_net Y W st base) (base @ ''/tier0'')"
    "net_get (standalone_net Y W f a base) (base @ ''/params/tier1'') = net_get (server_net Y W st base) (base @ ''/params/tier1'')"
    "net_post (standalone_net Y W f a base) (base @ ''/tier1/query'') body = net_post (server_net Y W st base) (base @ ''/tier1/query'') body"
proof -
  have b: "starts_with (base @ t) base" for t by (simp add: starts_with_iff)
  show "net_get (standalone_net Y W f a base) (base @ ''/root'') = net_get (server_net Y W st base) (base @ ''/root'')"
    "net_get (standalone_net Y W f a base) (base @ ''/tier0'') = net_get (server_net Y W st base) (base @ ''/tier0'')"
    "net_get (standalone_net Y W f a base) (base @ ''/params/tier1'') = net_get (server_net Y W st base) (base @ ''/params/tier1'')"
    "net_post (standalone_net Y W f a base) (base @ ''/tier1/query'') body = net_post (server_net Y W st base) (base @ ''/tier1/query'') body"
    by (simp_all add: standalone_net_def server_net_def standalone_router_def on_get_def b Let_def same_handlers [OF assms, where W = W]
        same_query(1) [OF assms, where W = W])
qed

text \<open>A client depends on the network only through the four addresses.\<close>

lemma with_transport_cong:
  assumes "net_get N (trim_end_slashes url @ ''/root'') = net_get N' (trim_end_slashes url @ ''/root'')"
    "net_get N (trim_end_slashes url @ ''/tier0'') = net_get N' (trim_end_slashes url @ ''/tier0'')"
    "net_get N (trim_end_slashes url @ ''/params/tier1'') = net_get N' (trim_end_slashes url @ ''/params/tier1'')"
  shows "with_transport P N J url L = with_transport P N' J url L"
proof -
  have "check_root N J (trim_end_slashes url @ ''/root'') L = check_root N' J (trim_end_slashes url @ ''/root'') L"
    using assms(1) by (simp add: check_root_def)
  moreover have "connect_data P N J (trim_end_slashes url) L r = connect_data P N' J (trim_end_slashes url) L r" for r
    using assms(2,3) by (simp add: connect_data_def)
  ultimately show ?thesis by (simp add: with_transport_def Let_def split: sum.split)
qed

lemma connected_url: "with_transport P N J url L = (Ok c, rs) \<Longrightarrow> pc_server_url c = trim_end_slashes url"
  by (auto simp: with_transport_def connect_data_def Let_def result_simps split: sum.splits)

lemma fetch_proof_cong:
  assumes "\<And>body. net_post N (pc_server_url c @ ''/tier1/query'') body = net_post N' (pc_server_url c @ ''/tier1/query'') body"
  shows "fetch_proof P N Y seed c v = fetch_proof P N' Y seed c v"
  using assms by (simp add: fetch_proof_def fetch_proof_inner_def ypir_query_def Let_def case_prod_beta)

lemma load_network:
  assumes "snd (load_serving_state_with_poly_len P C H T Y env d n degree) = Ok ss"
  shows "\<exists>md. Option.bind (d root_file) (meta_from_json C) = Some md \<and> md_zcash_network md = n"
  using assms by (auto simp: load_serving_state_with_poly_len_def check_metadata_def Let_def result_simps split: sum.splits prod.splits)

text \<open>
  A standalone server serves proofs. Started with the path of a directory that a snapshot was exported to, any port
  that is a 16-bit number or none, and the network of the snapshot in the environment, it starts,
  on that port or 3001; and a client with the layout of the snapshot and the
  default degree connects to it and obtains, for every value outside the padded set, a
  proof that verifies against the circuit root. Without the network, with another
  network, or with a bad port it does not start.
\<close>

theorem standalone_serves:
  fixes P :: "'p::len poseidon_constants"
  assumes "build_pir_tree_from_nullifiers P nfs = Inr tree"
    and "validate_supported L = Inr ()" and "pir_depth L = PIR_DEPTH"
    and "meta_from_json C (meta_to_json C (snapshot_meta C P (pt_ranges tree) network height L)) =
           Some (snapshot_meta C P (pt_ranges tree) network height L)"
    and "\<And>bs. hex_to C (hex_of C bs) = Some bs"
    and "codecs_agree W J C (served_meta C P (pt_ranges tree) network height L DEFAULT_YPIR_POLY_LEN) (layout_scenario L DEFAULT_YPIR_POLY_LEN)"
    and "ypir_correct Y Yc (layout_scenario L DEFAULT_YPIR_POLY_LEN) (tier1_of (pt_ranges tree) L) seed"
    and "dirs dir = fst (export_all_with_layout C tree d network height L)"
    and "v \<notin> padded_set nfs"
  shows "(\<forall>rest port. (case rest of [] \<Rightarrow> Some DEFAULT_PORT | s # _ \<Rightarrow> parse_u16 s) = Some port \<longrightarrow>
      (\<exists>a c rs pr. standalone_main TYPE('p) C H T Y env (prog # dir # rest) (Some (as_str network)) dirs = Ok (port, a) \<and>
         with_transport P (standalone_net Y W f a (trim_end_slashes url)) J url (L\<lparr>poly_len := DEFAULT_YPIR_POLY_LEN\<rparr>) = (Ok c, rs) \<and>
         fetch_proof P (standalone_net Y W f a (trim_end_slashes url)) Yc seed c v = Ok pr \<and>
         proof_wf pr \<and> ImtProofData.root pr = pt_circuit_root tree \<and> verify P pr v)) \<and>
    (\<forall>rest var a. standalone_main TYPE('p) C H T Y env (prog # dir # rest) var dirs = Ok a \<longrightarrow>
       var = Some (as_str network) \<and> (rest \<noteq> [] \<longrightarrow> parse_u16 (hd rest) \<noteq> None))"
proof -
  let ?deg = "DEFAULT_YPIR_POLY_LEN" and ?url = "trim_end_slashes url"
  have deg: "?deg = 2048 \<or> ?deg = 4096" by (simp add: DEFAULT_YPIR_POLY_LEN_def)
  note ok = built_snapshot(1) [OF assms(1-3)]
  note dep = snapshot_depths [OF ok]
  have tree: "pir_tree_of P (pt_ranges tree) = tree"
    using built_tree(3) [OF assms(1)] built_tree_fields(1) [OF assms(1)] by simp
  let ?ss = "snapshot_state C Y P (pt_ranges tree) network height L ?deg"
  obtain d' where ld: "load_serving_state_with_poly_len TYPE('p) C H T Y env (dirs dir) network ?deg = (d', Ok ?ss)"
    using load_after_export [OF dep(5,6) deg assms(4,5)] unfolding tree assms(8) by blast
  then have ld': "snd (load_serving_state_with_poly_len TYPE('p) C H T Y env (dirs dir) network ?deg) = Ok ?ss" by simp
  let ?a = "\<lparr>ap_serving = ?ss, ap_data_dir = d', ap_ctrs = \<lparr>next_req_id = 0, inflight_requests = 0\<rparr>\<rparr>"
  let ?st = "(initial_state sample_serve_args None d')\<lparr>phase := Serving, serving := Some ?ss\<rparr>"
  have same: "same_snapshot ?a ?st" by (simp add: same_snapshot_def initial_state_def)
  have st: "serving ?st = Some ?ss" by simp
  obtain c rs where con: "with_transport P (server_net Y W ?st ?url) J url (L\<lparr>poly_len := ?deg\<rparr>) = (Ok c, rs)"
    and c: "client_wf c" "pc_layout c = L\<lparr>poly_len := ?deg\<rparr>" "holds_snapshot P c (pt_ranges tree)"
      "answers_rows (server_net Y W ?st ?url) Yc seed c (pt_ranges tree)"
    using served_client [OF ok deg load_serving_wf [OF ld] assms(5-7) st] by metis
  note net = standalone_net_same [OF same, of Y W f ?url]
  have con': "with_transport P (standalone_net Y W f ?a ?url) J url (L\<lparr>poly_len := ?deg\<rparr>) = (Ok c, rs)"
    unfolding with_transport_cong [OF net(1-3)] by (rule con)
  have "fetch_proof P (standalone_net Y W f ?a ?url) Yc seed c v = fetch_proof P (server_net Y W ?st ?url) Yc seed c v"
    by (rule fetch_proof_cong) (use net(4) in \<open>unfold connected_url [OF con]\<close>)
  then obtain pr where pr: "fetch_proof P (standalone_net Y W f ?a ?url) Yc seed c v = Ok pr" "proof_wf pr" "ImtProofData.root pr = pt_circuit_root tree" "verify P pr v"
    using built_proof_over_wire [OF assms(1-3) deg c assms(9)] by auto
  have start: "standalone_main TYPE('p) C H T Y env (prog # dir # rest) (Some (as_str network)) dirs = Ok (port, ?a)"
    if "(case rest of [] \<Rightarrow> Some DEFAULT_PORT | s # _ \<Rightarrow> parse_u16 s) = Some port" for rest port
    using that by (simp add: standalone_main_def load_serving_state_def ld network_from_as_str ok_or_def split: list.splits)
  have only: "var = Some (as_str network) \<and> (rest \<noteq> [] \<longrightarrow> parse_u16 (hd rest) \<noteq> None)"
    if run: "standalone_main TYPE('p) C H T Y env (prog # dir # rest) var dirs = Ok a" for rest var a
  proof -
    obtain name n ss' where n: "var = Some name" "network_from_str name = Ok n" "snd (load_serving_state TYPE('p) C H T Y env (dirs dir) n) = Ok ss'"
      using run by (auto simp: standalone_main_def result_simps case_prod_beta)
    have "n = network" using load_network [OF n(3) [unfolded load_serving_state_def]] load_network [OF ld'] by auto
    then have "var = Some (as_str network)" using n(1,2) by (simp add: network_from_str_Ok_iff)
    moreover have "rest \<noteq> [] \<longrightarrow> parse_u16 (hd rest) \<noteq> None" using run by (auto simp: standalone_main_def result_simps case_prod_beta split: list.splits)
    ultimately show ?thesis by blast
  qed
  show ?thesis using start con' pr only by blast
qed

section \<open>Instances\<close>




theorem standalone_serves_witness:
  "\<exists>a c rs pr. standalone_main TYPE(pallas) sample_codec sample_digest sample_target clear_ypir id
      [''pir-server'', ''/data'', ''8080''] (Some ''main'')
      (\<lambda>_. fst (export_all_with_layout sample_codec sample_tree Map.empty Main sample_height COMPILED_PIR_LAYOUT)) = Ok (8080, a) \<and>
    with_transport sample_constants (standalone_net clear_ypir sample_printer parse_u64 a (trim_end_slashes ''http://pir/'')) sample_parsers ''http://pir/''
      (COMPILED_PIR_LAYOUT\<lparr>poly_len := DEFAULT_YPIR_POLY_LEN\<rparr>) = (Ok c, rs) \<and>
    fetch_proof sample_constants (standalone_net clear_ypir sample_printer parse_u64 a (trim_end_slashes ''http://pir/'')) clear_client 0 c 7 = Ok pr \<and>
    proof_wf pr \<and> ImtProofData.root pr = pt_circuit_root sample_tree \<and> verify sample_constants pr 7"
proof -
  have deg: "DEFAULT_YPIR_POLY_LEN = 4096" by (simp add: DEFAULT_YPIR_POLY_LEN_def)
  have meta: "meta_from_json sample_codec (meta_to_json sample_codec (snapshot_meta sample_codec sample_constants (pt_ranges sample_tree) Main sample_height COMPILED_PIR_LAYOUT)) =
      Some (snapshot_meta sample_codec sample_constants (pt_ranges sample_tree) Main sample_height COMPILED_PIR_LAYOUT)"
    unfolding pt_ranges_sample_tree by (rule sample_meta_round_trip)
  have codecs: "codecs_agree sample_printer sample_parsers sample_codec
      (served_meta sample_codec sample_constants (pt_ranges sample_tree) Main sample_height COMPILED_PIR_LAYOUT DEFAULT_YPIR_POLY_LEN)
      (layout_scenario COMPILED_PIR_LAYOUT DEFAULT_YPIR_POLY_LEN)"
    unfolding deg pt_ranges_sample_tree by (rule sample_codecs_agree)
  have y: "ypir_correct clear_ypir clear_client (layout_scenario COMPILED_PIR_LAYOUT DEFAULT_YPIR_POLY_LEN) (tier1_of (pt_ranges sample_tree) COMPILED_PIR_LAYOUT) 0"
    unfolding deg pt_ranges_sample_tree by (rule clear_ypir_correct)
  have port: "(case [''8080''] of [] \<Rightarrow> Some DEFAULT_PORT | s # _ \<Rightarrow> parse_u16 s) = Some 8080"
    by (simp add: parse_u16_def parse_u64_def digits_val_def is_ascii_digit_def Let_def)
  have name: "as_str Main = ''main''" by simp
  note served = standalone_serves [where H = sample_digest and T = sample_target and env = id and W = sample_printer and f = parse_u64 and
        url = "''http://pir/''" and prog = "''pir-server''" and dir = "''/data''" and
        dirs = "\<lambda>_. fst (export_all_with_layout sample_codec sample_tree Map.empty Main sample_height COMPILED_PIR_LAYOUT)",
      OF sample_build compiled_layout_supported compiled_depth meta sample_hex_round_trip codecs y refl sample_seven_free]
  show ?thesis using served [THEN conjunct1, rule_format, OF port] unfolding name .
qed

end
