(* ===== verification/Agent.thy ===== *)
theory Agent
  imports Dashboard Standalone
begin

text \<open>
  The monitoring agent as a process: its configuration (\<^verbatim>\<open>deploy/pir-apm/src/config.rs\<close>), the notifier
  (\<^verbatim>\<open>slack.rs\<close>), the loop that scrapes and notifies, the routes and the start of the program (\<^verbatim>\<open>main.rs\<close>). The
  webhook, the environment, the parser of socket addresses and the network are parameters. The properties show that the
  messages of the webhook, replayed, are the alerts on the dashboard, and how the routes and the
  configuration behave.
\<close>

section \<open>Configuration\<close>

record 'a agent_config =
  cf_scrape_url :: string
  cf_listen :: 'a
  cf_slack_webhook_url :: "string option"
  cf_environment :: string
  cf_hostname :: string
  cf_data_dir :: string
  cf_interval :: nat

text \<open>A variable that is set and not blank.\<close>

definition env_var :: "(string \<rightharpoonup> string) \<Rightarrow> string \<Rightarrow> string option" where
  "env_var env name = (case env name of Some value \<Rightarrow> if trim value \<noteq> [] then Some value else None | None \<Rightarrow> None)"

definition env_value :: "(string \<rightharpoonup> string) \<Rightarrow> string \<Rightarrow> string \<Rightarrow> string" where
  "env_value env name dflt = (case env_var env name of Some value \<Rightarrow> value | None \<Rightarrow> dflt)"

text \<open>The parser of socket addresses and the name of the host are given. The interval is in seconds.\<close>

definition from_env :: "(string \<Rightarrow> 'a option) \<Rightarrow> string option \<Rightarrow> (string \<rightharpoonup> string) \<Rightarrow> 'a agent_config result" where
  "from_env parse_addr host_name env =
     (let scrape_url = trim_end_slashes (env_value env ''PIR_APM_SCRAPE_URL'' ''http://127.0.0.1:3000'')
      in case parse_addr (env_value env ''PIR_APM_LISTEN'' ''127.0.0.1:3002'') of
           None \<Rightarrow> Bail ''PIR_APM_LISTEN must be an IP:port socket address''
         | Some listen \<Rightarrow>
             (case parse_u64 (env_value env ''PIR_APM_INTERVAL_SECONDS'' ''15'') of
                None \<Rightarrow> Bail ''PIR_APM_INTERVAL_SECONDS must be an integer''
              | Some interval_seconds \<Rightarrow>
                  if interval_seconds = 0 then Bail ''PIR_APM_INTERVAL_SECONDS must be greater than zero''
                  else Ok \<lparr>cf_scrape_url = scrape_url, cf_listen = listen,
                           cf_slack_webhook_url = env_var env ''PIR_APM_SLACK_WEBHOOK_URL'',
                           cf_environment = env_value env ''PIR_APM_ENVIRONMENT'' ''unknown'',
                           cf_hostname = (case env_var env ''PIR_APM_HOSTNAME'' of
                              Some value \<Rightarrow> value
                            | None \<Rightarrow> (case host_name of Some h \<Rightarrow> h | None \<Rightarrow> ''unknown'')),
                           cf_data_dir = env_value env ''PIR_APM_DATA_DIR'' ''/opt/nf-ingest/pir-data'',
                           cf_interval = interval_seconds\<rparr>))"

section \<open>The notifier\<close>

record SlackNotifier =
  sn_webhook_url :: "string option"
  sn_environment :: string
  sn_hostname :: string

definition slack_new :: "'a agent_config \<Rightarrow> SlackNotifier" where
  "slack_new config =
     \<lparr>sn_webhook_url = cf_slack_webhook_url config, sn_environment = cf_environment config, sn_hostname = cf_hostname config\<rparr>"

text \<open>
  What the agent does outside its memory: a line on the standard error, or a JSON object of text fields posted to an address.
  The answer of the webhook may depend on everything done before; \<open>status_text\<close> prints a status.
\<close>

datatype agent_event = Eprint string | Posted string "(string \<times> string) list"

record webhook =
  wh_post :: "agent_event list \<Rightarrow> string \<Rightarrow> (string \<times> string) list \<Rightarrow> u16 result"
  wh_status_text :: "u16 \<Rightarrow> string"

definition send :: "webhook \<Rightarrow> SlackNotifier \<Rightarrow> string \<Rightarrow> agent_event list \<Rightarrow> agent_event list \<times> unit result" where
  "send H n text ev =
     (case sn_webhook_url n of
        None \<Rightarrow> (ev @ [Eprint (''Slack webhook not configured; notification logged only: '' @ text)], Ok ())
      | Some webhook_url \<Rightarrow>
          let json = [(''text'', text)]
          in (ev @ [Posted webhook_url json],
              case wh_post H ev webhook_url json of
                Inl _ \<Rightarrow> Bail ''Slack notification request failed''
              | Inr status \<Rightarrow>
                  if \<not> (200 \<le> status \<and> status < 300) then Bail (''Slack notification returned HTTP '' @ wh_status_text H status)
                  else Ok ()))"

text \<open>The lines of a message.\<close>

definition field :: "string \<Rightarrow> string \<Rightarrow> string" where
  "field name value = CHR 0x0A # name @ '': '' @ value"

definition fire_text :: "SlackNotifier \<Rightarrow> string \<Rightarrow> string \<Rightarrow> string \<Rightarrow> string" where
  "fire_text n check observed threshold =
     [CHR 0xF0, CHR 0x9F, CHR 0x94, CHR 0xA5] @ '' PIR APM ALERT'' @ field ''Environment'' (sn_environment n) @ field ''Hostname'' (sn_hostname n) @
     field ''Check'' check @ field ''Observed'' observed @ field ''Threshold'' threshold @ field ''Dashboard'' ''/apm/''"

definition recover_text :: "SlackNotifier \<Rightarrow> string \<Rightarrow> string \<Rightarrow> string" where
  "recover_text n check threshold =
     [CHR 0xE2, CHR 0x9C, CHR 0x85] @ '' PIR APM RECOVERY'' @ field ''Environment'' (sn_environment n) @ field ''Hostname'' (sn_hostname n) @
     field ''Check'' check @ field ''Observed'' ''clear'' @ field ''Threshold'' threshold @ field ''Dashboard'' ''/apm/''"

definition fire :: "webhook \<Rightarrow> SlackNotifier \<Rightarrow> Alert \<Rightarrow> agent_event list \<Rightarrow> agent_event list \<times> unit result" where
  "fire H n alert = send H n (fire_text n (al_check alert) (alert_observed alert) (al_threshold alert))"

definition recover :: "webhook \<Rightarrow> SlackNotifier \<Rightarrow> Alert \<Rightarrow> agent_event list \<Rightarrow> agent_event list \<times> unit result" where
  "recover H n alert = send H n (recover_text n (al_check alert) (al_threshold alert))"

definition slack_test :: "webhook \<Rightarrow> SlackNotifier \<Rightarrow> agent_event list \<Rightarrow> agent_event list \<times> unit result" where
  "slack_test H n =
     send H n ([CHR 0xF0, CHR 0x9F, CHR 0xA7, CHR 0xAA] @ '' PIR APM TEST ALERT'' @ field ''Environment'' (sn_environment n) @
       field ''Hostname'' (sn_hostname n) @ field ''Check'' ''test_alert'' @ field ''Observed'' ''CLI test requested'' @
       field ''Threshold'' ''n/a'' @ field ''Dashboard'' ''/apm/'')"

text \<open>The synthetic alert: the recovery is sent two seconds after the alert, if the alert was delivered.\<close>

definition forced_high_latency :: "webhook \<Rightarrow> SlackNotifier \<Rightarrow> agent_event list \<Rightarrow> agent_event list \<times> unit result" where
  "forced_high_latency H n ev =
     (let check = ''high_latency''; threshold = ''forced by --force-alert'';
          (ev, r) = send H n (fire_text n check ''synthetic staging verification'' threshold) ev
      in case r of
           Inl e \<Rightarrow> (ev, Inl e)
         | Inr _ \<Rightarrow> send H n (recover_text n check threshold) ev)"

section \<open>The loop\<close>

text \<open>The transitions of one iteration are sent in order; a failure is printed and the next one is sent.\<close>

fun notify :: "webhook \<Rightarrow> SlackNotifier \<Rightarrow> AlertTransition list \<Rightarrow> agent_event list \<Rightarrow> agent_event list" where
  "notify H n [] ev = ev"
| "notify H n (t # ts) ev =
     (let (ev, r) = (case t of Fired alert \<Rightarrow> fire H n alert ev | RecoveredFrom alert \<Rightarrow> recover H n alert ev)
      in notify H n ts (case err_text r of Some e \<Rightarrow> ev @ [Eprint (''Slack notification failed: '' @ e)] | None \<Rightarrow> ev))"

text \<open>The release of the server is printed when it changes.\<close>

definition note_release :: "FetchResponse result \<Rightarrow> nat \<Rightarrow> string option \<Rightarrow> agent_event list \<Rightarrow> string option \<times> agent_event list" where
  "note_release metrics_result now tag ev =
     (case and_then metrics_result (\<lambda>response. parse_prometheus (fr_body response) now) of
        Inl _ \<Rightarrow> (tag, ev)
      | Inr snapshot \<Rightarrow>
          if ms_server_release_tag snapshot \<noteq> tag
          then (ms_server_release_tag snapshot,
                ev @ [Eprint (case ms_server_release_tag snapshot of
                   Some tag \<Rightarrow> ''scraped nf-server release '' @ tag
                 | None \<Rightarrow> ''scraped nf-server reports no release tag; it predates nf_build_info'')])
          else (tag, ev))"

text \<open>What the world gives to one tick: the network, the host, the monotonic and the wall clock.\<close>

record agent_tick =
  tk_http :: agent_http
  tk_os :: os_info
  tk_now :: nat
  tk_wall :: nat

record agent_state =
  as_core :: "RollingMetrics \<times> AlertEngine \<times> DashboardData"
  as_release_tag :: "string option"
  as_events :: "agent_event list"

definition agent_step :: "webhook \<Rightarrow> SlackNotifier \<Rightarrow> 'a agent_config \<Rightarrow> agent_tick \<Rightarrow> agent_state \<Rightarrow> agent_state" where
  "agent_step H n config t s =
     (let metrics_result = fetch (tk_http t) (cf_scrape_url config) ''/metrics'' True;
          (tag, ev) = note_release metrics_result (tk_now t) (as_release_tag s) (as_events s);
          (core, transitions) = scrape_iteration (tk_http t) (cf_scrape_url config) (tk_os t) (cf_data_dir config) (tk_now t) (tk_wall t) (as_core s)
      in \<lparr>as_core = core, as_release_tag = tag, as_events = notify H n transitions ev\<rparr>)"

definition agent_start :: "HostHealth \<Rightarrow> agent_state" where
  "agent_start host = \<lparr>as_core = ([], engine_default, dashboard_new host), as_release_tag = None, as_events = []\<rparr>"

definition scrape_loop :: "webhook \<Rightarrow> SlackNotifier \<Rightarrow> 'a agent_config \<Rightarrow> agent_tick list \<Rightarrow> agent_state \<Rightarrow> agent_state" where
  "scrape_loop H n config ts s = fold (agent_step H n config) ts s"

section \<open>Routes and start\<close>

definition index :: "page \<Rightarrow> TransportResponse" where
  "index p = respond 200 ''text/html; charset=utf-8'' (ascii (render p))"

definition healthz :: TransportResponse where
  "healthz = respond 200 ''text/plain; charset=utf-8'' (ascii (''ok'' @ [CHR 0x0A]))"

definition agent_router :: "page \<Rightarrow> http_req \<Rightarrow> TransportResponse" where
  "agent_router p rq =
     (if rq_path rq \<in> set [''/'', ''/apm'', ''/apm/''] then on_get rq (index p)
      else if rq_path rq = ''/healthz'' then on_get rq healthz
      else not_found)"

record agent_cli =
  cl_send_test_alert :: bool
  cl_force_alert :: bool

datatype 'a agent_end = AgentExit "unit result" | AgentServing "'a agent_config" agent_state

definition agent_main ::
  "(string \<Rightarrow> 'a option) \<Rightarrow> string option \<Rightarrow> (string \<rightharpoonup> string) \<Rightarrow> (string \<Rightarrow> os_info) \<Rightarrow> ('a \<Rightarrow> unit result) \<Rightarrow> webhook \<Rightarrow>
   agent_cli \<Rightarrow> agent_event list \<times> 'a agent_end" where
  "agent_main parse_addr host_name env os bind H cli =
     (case from_env parse_addr host_name env of
        Inl e \<Rightarrow> ([], AgentExit (Inl e))
      | Inr config \<Rightarrow>
          let notifier = slack_new config
          in if cl_send_test_alert cli then (let (ev, r) = slack_test H notifier [] in (ev, AgentExit r))
             else if cl_force_alert cli then (let (ev, r) = forced_high_latency H notifier [] in (ev, AgentExit r))
             else case bind (cf_listen config) of
                    Inl e \<Rightarrow> ([], AgentExit (Inl e))
                  | Inr _ \<Rightarrow> ([], AgentServing config (agent_start (collect (os (cf_data_dir config)) (cf_data_dir config)))))"

section \<open>Messages and alerts\<close>

text \<open>What was posted, and the message of a transition.\<close>

definition posted :: "agent_event list \<Rightarrow> (string \<times> (string \<times> string) list) list" where
  "posted ev = List.map_filter (\<lambda>e. case e of Posted url json \<Rightarrow> Some (url, json) | Eprint _ \<Rightarrow> None) ev"

fun message :: "SlackNotifier \<Rightarrow> AlertTransition \<Rightarrow> string" where
  "message n (Fired alert) = fire_text n (al_check alert) (alert_observed alert) (al_threshold alert)"
| "message n (RecoveredFrom alert) = recover_text n (al_check alert) (al_threshold alert)"

text \<open>
  A reader who follows the channel keeps a set of checks that are firing. A message is redundant if it announces a check
  that is in the set, or the recovery of one that is not.
\<close>

fun replay :: "(bool \<times> string) list \<Rightarrow> string set \<Rightarrow> string set option" where
  "replay [] S = Some S"
| "replay ((fired, c) # ms) S =
     (if fired = (c \<in> S) then None else replay ms (if fired then insert c S else S - {c}))"

lemma posted_simps [simp]:
  "posted [] = []" "posted (a @ b) = posted a @ posted b" "posted (Eprint t # ev) = posted ev"
  "posted (Posted url json # ev) = (url, json) # posted ev"
  by (simp_all add: posted_def map_filter_def)

lemma replay_append: "replay ms S = Some T \<Longrightarrow> replay (ms @ ms') S = replay ms' T"
  by (induction ms S rule: replay.induct) (auto split: if_splits)

lemma posted_send:
  "posted (fst (send H n t ev)) = posted ev @ (case sn_webhook_url n of None \<Rightarrow> [] | Some url \<Rightarrow> [(url, [(''text'', t)])])"
  by (simp add: send_def Let_def split: option.split)

text \<open>Every transition is posted once, in order, whatever the webhook answers.\<close>

lemma posted_notify:
  "posted (notify H n ts ev) =
     posted ev @ (case sn_webhook_url n of None \<Rightarrow> [] | Some url \<Rightarrow> map (\<lambda>t. (url, [(''text'', message n t)])) ts)"
proof (induction ts arbitrary: ev)
  case (Cons t ts)
  define x where "x = (case t of Fired alert \<Rightarrow> fire H n alert ev | RecoveredFrom alert \<Rightarrow> recover H n alert ev)"
  have p: "posted (fst x) = posted ev @ (case sn_webhook_url n of None \<Rightarrow> [] | Some url \<Rightarrow> [(url, [(''text'', message n t)])])"
    by (cases t) (simp_all add: x_def fire_def recover_def posted_send split: option.split)
  have "notify H n (t # ts) ev =
      notify H n ts (case err_text (snd x) of Some e \<Rightarrow> fst x @ [Eprint (''Slack notification failed: '' @ e)] | None \<Rightarrow> fst x)"
    unfolding notify.simps x_def [symmetric] by (simp add: case_prod_unfold)
  then show ?case by (simp only: Cons.IH) (simp add: p split: option.split)
qed (simp split: option.split)

lemma posted_release: "posted (snd (note_release r now tag ev)) = posted ev"
  by (simp add: note_release_def split: sum.split)

text \<open>The transitions of an evaluation replay to its active alerts.\<close>

definition named :: "(string \<rightharpoonup> Alert) \<Rightarrow> bool" where
  "named active \<longleftrightarrow> (\<forall>k a. active k = Some a \<longrightarrow> al_check a = k)"

definition replays :: "AlertEngine \<times> AlertTransition list \<Rightarrow> string set \<Rightarrow> bool" where
  "replays s S \<longleftrightarrow> named (ae_active (fst s)) \<and> replay (map transition_of (snd s)) S = Some (dom (ae_active (fst s)))"

lemma transition_step_replays:
  assumes "replays s S"
  shows "replays (transition_step wall entry s) S"
proof -
  obtain e ts check firing ob th where s: "s = (e, ts)" "entry = (check, firing, ob, th)" by (cases s; cases entry)
  have n: "named (ae_active e)" and r: "replay (map transition_of ts) S = Some (dom (ae_active e))"
    using assms by (simp_all add: replays_def s)
  show ?thesis
  proof (cases "firing = (ae_active e check = None)")
    case False
    then have "transition_step wall entry s = s" by (auto simp: s transition_step_def Let_def split: option.split bool.split)
    then show ?thesis using assms by simp
  next
    case True
    have check: "al_check a = check" if "ae_active e check = Some a" for a using that n by (simp add: named_def)
    show ?thesis using True n check
      by (auto simp: replays_def s transition_step_def Let_def record_line_def named_def replay_append [OF r] transition_of_def split: option.split bool.split)
  qed
qed

lemma evaluate_replays:
  assumes "named (ae_active e)"
  shows "replays (evaluate wall e input) (dom (ae_active e))"
proof -
  have "replays (fold (transition_step wall) cs s) S" if "replays s S" for cs s S
    using that by (induction cs arbitrary: s) (simp_all add: transition_step_replays)
  then show ?thesis using assms by (simp add: evaluate_def Let_def replays_def)
qed

lemma scrape_tick_engine:
  "\<exists>input. evaluate wall e input =
     (fst (snd (fst (scrape_tick now wall host m h r (rolling, e, d)))), snd (scrape_tick now wall host m h r (rolling, e, d)))"
  by (simp add: scrape_tick_def Let_def case_prod_unfold) blast

lemma scrape_tick_view:
  "dd_active_alerts (snd (snd (fst (scrape_tick now wall host m h r (rolling, e, d))))) =
     ae_active (fst (snd (fst (scrape_tick now wall host m h r (rolling, e, d)))))"
  by (simp add: scrape_tick_def Let_def case_prod_unfold)

lemma scrape_tick_replays:
  assumes "named (ae_active e)" "scrape_tick now wall host m h r (rolling, e, d) = ((rolling', e', d'), ts)"
  shows "replays (e', ts) (dom (ae_active e))" "dd_active_alerts d' = ae_active e'"
  using evaluate_replays [OF assms(1)] scrape_tick_engine [of wall e now host m h r rolling d]
    scrape_tick_view [of now wall host m h r rolling e d]
  by (auto simp: assms(2)) metis

text \<open>The invariant of the loop: what was posted replays to the engine's alerts, which the dashboard shows.\<close>

definition in_step :: "SlackNotifier \<Rightarrow> agent_state \<Rightarrow> bool" where
  "in_step n s \<longleftrightarrow>
     (case as_core s of (_, e, d) \<Rightarrow>
        named (ae_active e) \<and> dd_active_alerts d = ae_active e \<and>
        (\<exists>trs. posted (as_events s) =
            (case sn_webhook_url n of None \<Rightarrow> [] | Some url \<Rightarrow> map (\<lambda>t. (url, [(''text'', message n t)])) trs) \<and>
          replay (map transition_of trs) {} = Some (dom (ae_active e))))"

lemma agent_step_in_step:
  assumes "in_step n s"
  shows "in_step n (agent_step H n config t s)"
proof -
  obtain rolling e d where c: "as_core s = (rolling, e, d)" by (cases "as_core s")
  obtain trs where nm: "named (ae_active e)"
    and p: "posted (as_events s) = (case sn_webhook_url n of None \<Rightarrow> [] | Some url \<Rightarrow> map (\<lambda>t. (url, [(''text'', message n t)])) trs)"
    and r: "replay (map transition_of trs) {} = Some (dom (ae_active e))"
    using assms by (auto simp: in_step_def c)
  obtain tag ev where rel: "note_release (fetch (tk_http t) (cf_scrape_url config) ''/metrics'' True) (tk_now t) (as_release_tag s) (as_events s) = (tag, ev)"
    by fastforce
  obtain rolling' e' d' ts where it: "scrape_iteration (tk_http t) (cf_scrape_url config) (tk_os t) (cf_data_dir config) (tk_now t) (tk_wall t)
      (rolling, e, d) = ((rolling', e', d'), ts)" by (metis prod_cases3 surj_pair)
  have q: "replays (e', ts) (dom (ae_active e))" "dd_active_alerts d' = ae_active e'"
    using scrape_tick_replays [OF nm it [unfolded scrape_iteration_def]] by simp_all
  have s': "agent_step H n config t s = \<lparr>as_core = (rolling', e', d'), as_release_tag = tag, as_events = notify H n ts ev\<rparr>"
    by (simp add: agent_step_def rel c it Let_def)
  have "posted ev = posted (as_events s)" using posted_release [of _ _ _ "as_events s"] rel by (metis snd_conv)
  then have "posted (notify H n ts ev) =
      (case sn_webhook_url n of None \<Rightarrow> [] | Some url \<Rightarrow> map (\<lambda>t. (url, [(''text'', message n t)])) (trs @ ts))"
    by (simp add: posted_notify p split: option.split)
  moreover have "replay (map transition_of (trs @ ts)) {} = Some (dom (ae_active e'))"
    using q(1) by (simp add: replay_append [OF r] replays_def)
  ultimately show ?thesis using q by (auto simp: in_step_def s' replays_def)
qed

lemma scrape_loop_in_step: "in_step n (scrape_loop H n config ts (agent_start host))"
proof (induction ts rule: rev_induct)
  case Nil
  show ?case by (simp add: scrape_loop_def in_step_def agent_start_def engine_default_def dashboard_new_def named_def split: option.split)
     (metis list.simps(8) replay.simps(1))
next
  case (snoc t ts)
  then show ?case using agent_step_in_step by (simp add: scrape_loop_def)
qed

text \<open>C40. What is posted to the webhook is what the dashboard shows. After any number of ticks, whatever the server,
  the host and the webhook do, the messages posted so far are one per transition, in order, also when earlier posts failed, and
  following them from the start never meets a redundant message and ends with exactly the checks whose
  alerts the dashboard shows as active; without a webhook nothing is posted.\<close>

theorem messages_match_dashboard:
  "let s = scrape_loop H n config ts (agent_start host)
   in \<exists>trs. posted (as_events s) =
        (case sn_webhook_url n of None \<Rightarrow> [] | Some url \<Rightarrow> map (\<lambda>t. (url, [(''text'', message n t)])) trs) \<and>
      replay (map transition_of trs) {} = Some (dom (dd_active_alerts (snd (snd (as_core s)))))"
  using scrape_loop_in_step [of n H config ts host] unfolding in_step_def Let_def by (auto split: prod.splits)

end
