(* ===== verification/Probe.thy ===== *)
theory Probe
  imports End_To_End Status
begin

text \<open>
  The endpoint probe, \<^verbatim>\<open>deploy/pir-probe/src/main.rs\<close>: a process that connects to a PIR endpoint,
  retrieves the proof of a random value, checks it against the advertised root, and prints one
  line of JSON. The HTTP client is the parameter \<open>send\<close>; since the server may change between two
  requests, each phase of an attempt has its own (a phase sends a URL at most once). JSON
  and hex coding, the URL parser, the random value and the clock are parameters. The members of an
  object that is read are in the order of their keys, so that equal objects are equal lists.
  The lemmas show what a green report certifies whatever the server sends, and that a server
  of an exported main-network snapshot is reported green.
\<close>

section \<open>HTTP with a size limit\<close>

text \<open>What \<open>reqwest\<close> delivers: the status, the declared length, and the chunks of the body (\<open>None\<close> is a read error).\<close>

record http_reply =
  hr_status :: u16
  hr_content_length :: "u64 option"
  hr_chunks :: "bytes option list"

type_synonym http_send = "string \<Rightarrow> bytes option \<Rightarrow> http_reply option"

definition ends_with :: "string \<Rightarrow> string \<Rightarrow> bool" where
  "ends_with s p \<longleftrightarrow> starts_with (rev s) (rev p)"

definition probe_cap :: "string \<Rightarrow> usize" where
  "probe_cap url =
     (if ends_with url ''/root'' \<or> ends_with url ''/params/tier1'' then 1024 * 1024 else 32 * 1024 * 1024)"

fun read_chunks :: "usize \<Rightarrow> bytes \<Rightarrow> bytes option list \<Rightarrow> bytes result" where
  "read_chunks cap bytes [] = Ok bytes"
| "read_chunks cap bytes (None # cs) = Bail ''response body read failed''"
| "read_chunks cap bytes (Some chunk # cs) =
     ensure (length bytes + length chunk \<le> cap) ''response size exceeds limit'' (read_chunks cap (bytes @ chunk) cs)"

text \<open>\<open>Http::request\<close>, with the captured root before and after.\<close>

definition http_request ::
  "(bytes \<Rightarrow> json option) \<Rightarrow> http_send \<Rightarrow> string \<Rightarrow> bytes option \<Rightarrow> json option \<Rightarrow> TransportResponse result \<times> json option" where
  "http_request from_json send url body captured =
     (case send url body of
        None \<Rightarrow> (Bail ''HTTP transport failed'', captured)
      | Some response \<Rightarrow>
          let cap = probe_cap url; status = hr_status response;
              declared = (case hr_content_length response of None \<Rightarrow> 0 | Some n \<Rightarrow> unat n)
          in case ensure (declared \<le> cap) ''response size exceeds limit'' (read_chunks cap [] (hr_chunks response)) of
               Inl e \<Rightarrow> (Inl e, captured)
             | Inr bytes \<Rightarrow>
                 if ends_with url ''/root'' \<and> status = 200 \<and> from_json bytes = None then (Bail ''malformed root JSON'', captured)
                 else
                   let captured = (if ends_with url ''/root'' \<and> status = 200 then from_json bytes else captured)
                   in if status \<noteq> 200 then (Bail ''HTTP status'', captured)
                      else (Ok \<lparr>rsp_status = status, rsp_headers = [], rsp_body = bytes\<rparr>, captured))"

text \<open>The transport the PIR client is given, and what its requests leave in the captured root.\<close>

definition probe_net :: "(bytes \<Rightarrow> json option) \<Rightarrow> http_send \<Rightarrow> net" where
  "probe_net from_json send =
     \<lparr>net_get = (\<lambda>url. fst (http_request from_json send url None None)),
      net_post = (\<lambda>url body. fst (http_request from_json send url (Some body) None))\<rparr>"

definition capture :: "(bytes \<Rightarrow> json option) \<Rightarrow> http_send \<Rightarrow> request \<Rightarrow> json option \<Rightarrow> json option" where
  "capture from_json send req captured =
     (case req of
        Get url \<Rightarrow> snd (http_request from_json send url None captured)
      | Post url body \<Rightarrow> snd (http_request from_json send url (Some body) captured))"

section \<open>One attempt\<close>

text \<open>An \<open>anyhow\<close> error is its chain of messages, the outermost first; a panic ends the process.\<close>

datatype probe_error = Chain "string list" | Aborted string

definition chained :: "string \<Rightarrow> 'a result \<Rightarrow> probe_error + 'a" where
  "chained ctx r =
     (case r of Inr x \<Rightarrow> Inr x | Inl (Error m) \<Rightarrow> Inl (Chain [ctx, m]) | Inl (Panic m) \<Rightarrow> Inl (Aborted m))"

definition probe_ensure :: "bool \<Rightarrow> string \<Rightarrow> probe_error + 'a \<Rightarrow> probe_error + 'a" where
  "probe_ensure b m r = (if b then r else Inl (Chain [m]))"

definition probe_some :: "'a option \<Rightarrow> string \<Rightarrow> probe_error + 'a" where
  "probe_some x m = (case x of None \<Rightarrow> Inl (Chain [m]) | Some v \<Rightarrow> Inr v)"

definition identity :: "json \<Rightarrow> json" where
  "identity r =
     JArray (map (json_index r)
       [''height'', ''circuit_root'', ''pir_root'', ''pir_layout'', ''nullifier_pool'', ''dataset_version'', ''zcash_network''])"

definition check_proof ::
  "'p::len poseidon_constants \<Rightarrow> (bytes \<Rightarrow> string) \<Rightarrow> 'p ImtProofData \<Rightarrow> 'p fp \<Rightarrow> json \<Rightarrow> probe_error + unit" where
  "check_proof P hex_encode pr nf r =
     probe_ensure (verify P pr nf) ''invalid_proof''
     (probe_ensure (Some (hex_encode (to_repr (root pr))) = json_as_str (json_index r ''circuit_root'')) ''invalid_proof_root''
     (Inr ()))"

record probe_phases =
  ph_connect :: http_send
  ph_query :: http_send
  ph_recheck :: http_send

record probe_deps =
  pd_from_json :: "bytes \<Rightarrow> json option"
  pd_parsers :: parsers
  pd_hex_encode :: "bytes \<Rightarrow> string"
  pd_ypir :: ypir_client

definition attempt ::
  "'p::len poseidon_constants \<Rightarrow> probe_deps \<Rightarrow> nat \<Rightarrow> 'p fp \<Rightarrow> probe_phases \<Rightarrow> string \<Rightarrow> PirLayout \<Rightarrow> probe_error + json" where
  "attempt P D seed nf E url layout =
     (let (client, requests) = with_transport P (probe_net (pd_from_json D) (ph_connect E)) (pd_parsers D) url layout;
          captured = fold (capture (pd_from_json D) (ph_connect E)) requests None
      in and_then (chained ''initialize_client'' client) (\<lambda>client.
         and_then (probe_some captured ''missing_initial_root'') (\<lambda>before.
         probe_ensure (json_index before ''zcash_network'' = JString ''main'') ''wrong_network''
         (let (proof_result, requests) = fetch_proof_inner P (probe_net (pd_from_json D) (ph_query E)) (pd_ypir D) seed client nf;
              captured = fold (capture (pd_from_json D) (ph_query E)) requests captured;
              (recheck, captured) =
                http_request (pd_from_json D) (ph_recheck E) (trim_end_slashes url @ ''/root'') None captured
          in and_then (chained ''root_recheck'' recheck) (\<lambda>_.
             and_then (probe_some captured ''missing_final_root'') (\<lambda>after.
             probe_ensure (identity before = identity after) ''snapshot_changed''
             (and_then (chained ''query_failed'' proof_result) (\<lambda>pr.
             and_then (check_proof P (pd_hex_encode D) pr nf before) (\<lambda>_.
             Inr (JObject [(''circuit_root'', json_index before ''circuit_root''), (''height'', json_index before ''height''),
                           (''ok'', JBool True), (''pir_root'', json_index before ''pir_root'')]))))))))))"

section \<open>The process\<close>

text \<open>\<open>{e:#}\<close> joins the chain; the classification looks for substrings of it.\<close>

fun join_chain :: "string list \<Rightarrow> string" where
  "join_chain [] = []"
| "join_chain [m] = m"
| "join_chain (m # ms) = m @ '': '' @ join_chain ms"

definition error_kind :: "string list \<Rightarrow> string" where
  "error_kind ms =
     (let chain = join_chain ms
      in if contains chain ''invalid_proof'' then ''invalid_proof''
         else if contains chain ''snapshot_changed'' then ''unstable_snapshot''
         else if contains chain ''mismatch'' \<or> contains chain ''wrong_network'' \<or> contains chain ''malformed'' \<or>
                 contains chain ''parse'' \<or> contains chain ''unsupported'' \<or> contains chain ''response size exceeds''
         then ''inconsistent_response''
         else ''query_failed'')"

definition error_stage :: "string list \<Rightarrow> string" where
  "error_stage ms = take 48 (hd (split_on (CHR '':'') (hd ms)))"

record parsed_url =
  url_scheme :: string
  url_username :: string
  url_password :: "string option"

text \<open>
  The body of \<open>main\<close> up to its result: the two parsers return their message on failure, and the
  two attempts see the phases \<open>E\<close> and \<open>E'\<close>, draw \<open>nf\<close> and \<open>nf'\<close>, and use the randomness \<open>seed\<close> and \<open>seed'\<close>.
\<close>

definition probe_result ::
  "'p::len poseidon_constants \<Rightarrow> probe_deps \<Rightarrow> (string \<Rightarrow> string + PirLayout) \<Rightarrow> (string \<Rightarrow> string + parsed_url) \<Rightarrow> string list \<Rightarrow>
   nat \<times> 'p fp \<times> probe_phases \<Rightarrow> nat \<times> 'p fp \<times> probe_phases \<Rightarrow> probe_error + json" where
  "probe_result P D parse_layout parse_url args = (\<lambda>(seed, nf, E) (seed', nf', E').
     probe_ensure (length args = 3) ''expected URL and layout JSON''
     (case parse_layout (args ! 2) of
        Inl m \<Rightarrow> Inl (Chain [m])
      | Inr layout \<Rightarrow>
          if validate_supported layout \<noteq> Inr () then Inl (Chain [''invalid_config_layout''])
          else if args ! 1 = ''--validate-layout'' then Inr (JObject [(''ok'', JBool True)])
          else
            (case parse_url (args ! 1) of
               Inl m \<Rightarrow> Inl (Chain [m])
             | Inr url \<Rightarrow>
                 probe_ensure (url_scheme url = ''https'' \<and> url_username url = [] \<and> url_password url = None) ''HTTPS URL required''
                 (case attempt P D seed nf E (args ! 1) layout of
                    Inl (Chain (m # ms)) \<Rightarrow>
                      if m = ''snapshot_changed'' then attempt P D seed' nf' E' (args ! 1) layout else Inl (Chain (m # ms))
                  | r \<Rightarrow> r))))"

text \<open>The printed line and the exit code; nothing is printed when the process panics.\<close>

definition report :: "u64 \<Rightarrow> probe_error + json \<Rightarrow> (json \<times> nat) option" where
  "report duration_ms result =
     (case result of
        Inr v \<Rightarrow> Some (json_set v ''duration_ms'' (JU64 duration_ms), 0)
      | Inl (Chain ms) \<Rightarrow>
          Some (json_set (JObject [(''error'', JString (error_kind ms)), (''ok'', JBool False), (''stage'', JString (error_stage ms))])
                  ''duration_ms'' (JU64 duration_ms), 1)
      | Inl (Aborted _) \<Rightarrow> None)"

section \<open>What a green report certifies\<close>

lemma chained_Inr_iff [result_simps]: "chained ctx r = Inr x \<longleftrightarrow> r = Ok x"
  by (auto simp: chained_def split: sum.splits error.splits)

lemma probe_ensure_Inr_iff [result_simps]: "probe_ensure b m r = Inr x \<longleftrightarrow> b \<and> r = Inr x"
  by (simp add: probe_ensure_def)

lemma probe_some_Inr_iff [result_simps]: "probe_some x m = Inr v \<longleftrightarrow> x = Some v"
  by (simp add: probe_some_def split: option.splits)

lemma probe_steps [simp]: "chained ctx (Ok x) = Inr x" "probe_some (Some v) m = Inr v" "probe_ensure True m r = r"
  by (simp_all add: chained_def probe_some_def probe_ensure_def)

lemma read_chunks_cases: "(\<exists>bs. read_chunks cap acc cs = Ok bs) \<or> (\<exists>m. read_chunks cap acc cs = Bail m)"
  by (induction cap acc cs rule: read_chunks.induct) (auto simp: ensure_def)

lemma read_chunks_bound: "read_chunks cap acc cs = Ok bs \<Longrightarrow> length acc \<le> cap \<Longrightarrow> length bs \<le> cap"
  by (induction cap acc cs rule: read_chunks.induct) (auto simp: result_simps)

lemma http_request_no_panic: "fst (http_request js send url body captured) \<noteq> Inl (Panic m)"
proof (cases "send url body")
  case (Some r)
  then show ?thesis
    using read_chunks_cases [of "probe_cap url" "[]" "hr_chunks r"]
    by (auto simp: http_request_def Let_def ensure_def split: option.splits sum.splits)
qed (simp add: http_request_def)

lemma probe_net_no_panic: "net_get (probe_net js send) url \<noteq> Inl (Panic m)" "net_post (probe_net js send) url body \<noteq> Inl (Panic m)"
  by (simp_all add: probe_net_def http_request_no_panic)

lemma fetch_proof_probe:
  assumes "with_transport P N0 J url L = (Ok c, rs)"
  shows "(\<exists>m. fetch_proof P (probe_net js send) Y seed c v = Bail m) \<or>
    (\<exists>pr. fetch_proof P (probe_net js send) Y seed c v = Ok pr \<and> proof_wf pr \<and> root pr = pc_circuit_root c)"
  using fetch_proof_hostile [OF assms, of "probe_net js send"] probe_net_no_panic by blast

text \<open>The root a phase of the server answers with, as JSON.\<close>

definition probe_root :: "(bytes \<Rightarrow> json option) \<Rightarrow> http_send \<Rightarrow> string \<Rightarrow> json option" where
  "probe_root js send url =
     (case net_get (probe_net js send) (trim_end_slashes url @ ''/root'') of Inl _ \<Rightarrow> None | Inr resp \<Rightarrow> js (rsp_body resp))"

lemma ends_with_append [simp]: "ends_with (a @ p) p"
  by (simp add: ends_with_def starts_with_iff)

lemma not_root_paths [simp]:
  "\<not> ends_with (base @ ''/tier0'') ''/root''" "\<not> ends_with (base @ ''/params/tier1'') ''/root''"
  "\<not> ends_with (base @ ''/tier1/query'') ''/root''"
  by (simp_all add: ends_with_def)

text \<open>The answer does not depend on what was captured before; only a root response changes it.\<close>

lemma http_request_fst: "fst (http_request js send url body captured) = fst (http_request js send url body None)"
  by (simp add: http_request_def Let_def split: option.splits sum.splits)

lemma http_request_other: "\<not> ends_with url ''/root'' \<Longrightarrow> snd (http_request js send url body captured) = captured"
  by (auto simp: http_request_def Let_def split: option.splits sum.splits)

lemma http_request_root:
  assumes "ends_with url ''/root''" "fst (http_request js send url body None) = Ok resp"
  shows "snd (http_request js send url body captured) = js (rsp_body resp)" "js (rsp_body resp) \<noteq> None"
  using assms by (auto simp: http_request_def Let_def split: option.splits sum.splits if_splits)

lemma connect_captured:
  assumes "with_transport P (probe_net js send) J url L = (Ok c, rs)"
  shows "fold (capture js send) rs None = probe_root js send url" "probe_root js send url \<noteq> None"
proof -
  let ?b = "trim_end_slashes url"
  obtain ri where root: "check_root (probe_net js send) J (?b @ ''/root'') L = Ok ri"
    and rs: "rs = [Get (?b @ ''/root''), Get (?b @ ''/tier0''), Get (?b @ ''/params/tier1'')]"
    using assms by (auto simp: with_transport_def Let_def split: sum.splits)
  then obtain resp where resp: "net_get (probe_net js send) (?b @ ''/root'') = Ok resp"
    by (auto simp: check_root_def and_then_Ok_iff)
  then have "fst (http_request js send (?b @ ''/root'') None None) = Ok resp" by (simp add: probe_net_def)
  from http_request_root [OF _ this] show "fold (capture js send) rs None = probe_root js send url" "probe_root js send url \<noteq> None"
    by (simp_all add: rs capture_def http_request_other probe_root_def resp)
qed

lemma query_captured:
  assumes "client_wf c"
  shows "fold (capture js send) (snd (fetch_proof_inner P N Y seed c v)) captured = captured"
  using fetch_proof_inner_request [OF assms, of P N Y seed v] by (auto simp: capture_def http_request_other)

text \<open>The stages of an attempt after connecting.\<close>

lemma attempt_connected:
  assumes con: "with_transport P (probe_net (pd_from_json D) (ph_connect E)) (pd_parsers D) url layout = (Ok c, rs)"
  shows "attempt P D seed nf E url layout =
     and_then (probe_some (probe_root (pd_from_json D) (ph_connect E) url) ''missing_initial_root'') (\<lambda>before.
     probe_ensure (json_index before ''zcash_network'' = JString ''main'') ''wrong_network''
     (and_then (chained ''root_recheck'' (net_get (probe_net (pd_from_json D) (ph_recheck E)) (trim_end_slashes url @ ''/root''))) (\<lambda>_.
      and_then (probe_some (probe_root (pd_from_json D) (ph_recheck E) url) ''missing_final_root'') (\<lambda>after.
      probe_ensure (identity before = identity after) ''snapshot_changed''
      (and_then (chained ''query_failed'' (fetch_proof P (probe_net (pd_from_json D) (ph_query E)) (pd_ypir D) seed c nf)) (\<lambda>pr.
       and_then (check_proof P (pd_hex_encode D) pr nf before) (\<lambda>_.
       Inr (JObject [(''circuit_root'', json_index before ''circuit_root''), (''height'', json_index before ''height''),
                     (''ok'', JBool True), (''pir_root'', json_index before ''pir_root'')]))))))))"
proof -
  let ?js = "pd_from_json D"
  have wf: "client_wf c" using with_transport_wf [OF con] by simp
  obtain before where before: "probe_root ?js (ph_connect E) url = Some before"
    using connect_captured(2) [OF con] by auto
  let ?N = "net_get (probe_net ?js (ph_recheck E)) (trim_end_slashes url @ ''/root'')"
  let ?h = "http_request ?js (ph_recheck E) (trim_end_slashes url @ ''/root'') None (Some before)"
  have fst: "fst ?h = ?N" by (subst http_request_fst) (simp add: probe_net_def)
  have snd: "snd ?h = probe_root ?js (ph_recheck E) url" if "?N = Ok x" for x
    using http_request_root(1) [of "trim_end_slashes url @ ''/root''" ?js "ph_recheck E" None x "Some before"] that
    by (simp add: probe_root_def probe_net_def)
  show ?thesis
  proof (cases ?N)
    case (Inl e)
    then show ?thesis
      using fst connect_captured [OF con] before
      by (simp add: attempt_def con query_captured [OF wf] case_prod_unfold Let_def fetch_proof_def chained_def split: error.split)
  next
    case (Inr x)
    then show ?thesis
      using fst snd [OF Inr] connect_captured [OF con] before
      by (simp add: attempt_def con query_captured [OF wf] case_prod_unfold Let_def fetch_proof_def)
  qed
qed

lemma attempt_Ok:
  assumes "attempt P D seed nf E url layout = Inr v"
  obtains c rs before after pr where
    "with_transport P (probe_net (pd_from_json D) (ph_connect E)) (pd_parsers D) url layout = (Ok c, rs)"
    "probe_root (pd_from_json D) (ph_connect E) url = Some before" "json_index before ''zcash_network'' = JString ''main''"
    "probe_root (pd_from_json D) (ph_recheck E) url = Some after" "identity after = identity before"
    "fetch_proof P (probe_net (pd_from_json D) (ph_query E)) (pd_ypir D) seed c nf = Ok pr"
    "verify P pr nf" "json_index before ''circuit_root'' = JString (pd_hex_encode D (to_repr (root pr)))"
    "v = JObject [(''circuit_root'', json_index before ''circuit_root''), (''height'', json_index before ''height''),
                  (''ok'', JBool True), (''pir_root'', json_index before ''pir_root'')]"
proof -
  obtain c rs where con: "with_transport P (probe_net (pd_from_json D) (ph_connect E)) (pd_parsers D) url layout = (Ok c, rs)"
    using assms by (auto simp: attempt_def case_prod_unfold Let_def result_simps) (metis prod.collapse)
  have str: "Some s = json_as_str j \<longleftrightarrow> j = JString s" for s j by (cases j) auto
  show thesis
    using assms that [OF con] unfolding attempt_connected [OF con] check_proof_def
    by (auto simp: result_simps str)
qed

section \<open>The probe never panics\<close>

definition no_panic :: "'a result \<Rightarrow> bool" where
  "no_panic r \<longleftrightarrow> (\<forall>m. r \<noteq> Inl (Panic m))"

named_theorems no_panic_intros \<open>results that are not panics\<close>

lemma no_panic_and_then [no_panic_intros]: "no_panic r \<Longrightarrow> (\<And>x. r = Inr x \<Longrightarrow> no_panic (f x)) \<Longrightarrow> no_panic (and_then r f)"
  by (auto simp: no_panic_def and_then_Err_iff)

lemma no_panic_ensure [no_panic_intros]: "no_panic r \<Longrightarrow> no_panic (ensure b m r)"
  by (simp add: no_panic_def ensure_def)

lemma no_panic_if [no_panic_intros]: "(b \<Longrightarrow> no_panic x) \<Longrightarrow> (\<not> b \<Longrightarrow> no_panic y) \<Longrightarrow> no_panic (if b then x else y)"
  by simp

lemma no_panic_simps [simp]: "no_panic (Ok x)" "no_panic (Bail m)" "no_panic (ok_or o' (Error m))"
  by (auto simp: no_panic_def ok_or_def split: option.splits)

lemma no_panic_body [simp]: "no_panic (body_for_status r m)"
  by (simp add: body_for_status_def)

lemma no_panic_validate: "no_panic (validate_layout L)"
  unfolding validate_layout_def validate_supported_def validate_ypir_bounds_def validate_split_def tier1_item_bits_def
    tier1_row_bytes_def tier1_rows_def tier1_leaves_def shift_one_def
  by (intro no_panic_intros) auto

lemma no_panic_root_hex: "(\<And>s. no_panic (hex_decode J s)) \<Longrightarrow> no_panic (decode_root_hex J s :: 'p::len fp result)"
  unfolding decode_root_hex_def by (intro no_panic_intros) auto

lemma no_panic_tier0:
  assumes "supported L"
  shows "no_panic (tier0_from_layout TYPE('p::len) data L)"
    and "tier0_from_layout TYPE('p::len) data L = Inr t \<Longrightarrow> no_panic (tier0_root t :: 'p fp result)"
proof -
  have "no_panic (validate_all_fp_chunks TYPE('p) data)"
    using validate_all_fp_chunks_cases [of data, where 'p = 'p] by auto
  then show "no_panic (tier0_from_layout TYPE('p) data L)"
    unfolding tier0_from_layout_def supported_geometry [OF assms] and_then.simps by (intro no_panic_intros) auto
  assume "tier0_from_layout TYPE('p) data L = Inr t"
  then have "is_ok (tier0_root t :: 'p fp result)"
    using tier0_reads_ok(1) [OF assms, of data t 0 0, where 'p = 'p] assms
    by (auto simp: node_at_def tier0_root_def supported_def)
  then show "no_panic (tier0_root t :: 'p fp result)" by (auto simp: is_ok_iff)
qed

text \<open>What the libraries promise: parsing and hex decoding return errors.\<close>

definition parsers_total :: "parsers \<Rightarrow> bool" where
  "parsers_total J \<longleftrightarrow>
     (\<forall>b. no_panic (parse_root_info J b)) \<and> (\<forall>b. no_panic (parse_ypir_scenario J b)) \<and> (\<forall>s. no_panic (hex_decode J s))"

lemma no_panic_with_transport:
  assumes J: "parsers_total J" and net: "\<And>u. no_panic (net_get N u)"
  shows "no_panic (fst (with_transport P N J url L))"
proof (cases "validate_layout L")
  case (Inr u)
  let ?b = "trim_end_slashes url"
  have root: "no_panic (check_root N J (?b @ ''/root'') L)"
    using J unfolding check_root_def parsers_total_def by (intro no_panic_intros net no_panic_validate) auto
  show ?thesis
  proof (cases "check_root N J (?b @ ''/root'') L")
    case ri: (Inr ri)
    then have sup: "supported (ri_pir_layout ri)" by (auto simp: check_root_def result_simps validate_layout_def validate_supported_iff)
    have "no_panic (connect_data P N J ?b L ri)"
      unfolding connect_data_def tier1_geometry_def supported_geometry [OF sup] and_then.simps prod.case
      using J by (intro no_panic_intros net no_panic_tier0 [OF sup] no_panic_root_hex) (auto simp: parsers_total_def)
    with ri Inr show ?thesis by (simp add: with_transport_def Let_def)
  qed (use root Inr in \<open>auto simp: with_transport_def no_panic_def\<close>)
qed (use no_panic_validate [of L] in \<open>auto simp: with_transport_def no_panic_def\<close>)

lemma attempt_not_aborted:
  assumes "parsers_total (pd_parsers D)"
  shows "attempt P D seed nf E url layout \<noteq> Inl (Aborted m)"
proof -
  let ?js = "pd_from_json D"
  have net: "no_panic (net_get (probe_net ?js send) u)" for send u by (simp add: no_panic_def probe_net_no_panic)
  have chain: "chained ctx r \<noteq> Inl (Aborted m)" if "no_panic r" for ctx and r :: "'z result"
    using that by (auto simp: chained_def no_panic_def split: sum.splits error.splits)
  have conn: "no_panic (fst (with_transport P (probe_net ?js (ph_connect E)) (pd_parsers D) url layout))"
    by (intro no_panic_with_transport assms net)
  show ?thesis
  proof (cases "with_transport P (probe_net ?js (ph_connect E)) (pd_parsers D) url layout")
    case (Pair r rs)
    show ?thesis
    proof (cases r)
      case (Inl e)
      then show ?thesis using conn chain [OF conn, of "''initialize_client''"] Pair
        by (cases e) (auto simp: attempt_def chained_def Let_def no_panic_def)
    next
      case (Inr c)
      with Pair have con: "with_transport P (probe_net ?js (ph_connect E)) (pd_parsers D) url layout = (Ok c, rs)" by simp
      have "no_panic (fetch_proof P (probe_net ?js (ph_query E)) (pd_ypir D) seed c nf)"
        using fetch_proof_probe [OF con] by (metis no_panic_simps(1,2))
      from chain [OF this] chain [OF net] show ?thesis
        unfolding attempt_connected [OF con]
        by (auto simp: and_then_Err_iff probe_some_def probe_ensure_def check_proof_def split: option.splits if_splits)
    qed
  qed
qed

text \<open>
  What a run of the client and the two root requests around it established: the client connected
  with the configured layout, the retrieval returned a well-formed proof that the verifier
  accepts for the drawn value, against the circuit root that the server advertised for the
  main network before and, with the same identity, after the query, and this is the reported root.
\<close>

definition certifies ::
  "'p::len poseidon_constants \<Rightarrow> probe_deps \<Rightarrow> nat \<times> 'p fp \<times> probe_phases \<Rightarrow> string \<Rightarrow> PirLayout \<Rightarrow> json \<Rightarrow> bool" where
  "certifies P D = (\<lambda>(seed, nf, E) url layout out.
     \<exists>c rs pr before after.
       with_transport P (probe_net (pd_from_json D) (ph_connect E)) (pd_parsers D) url layout = (Ok c, rs) \<and> pc_layout c = layout \<and>
       fetch_proof P (probe_net (pd_from_json D) (ph_query E)) (pd_ypir D) seed c nf = Ok pr \<and>
       proof_wf pr \<and> verify P pr nf \<and>
       probe_root (pd_from_json D) (ph_connect E) url = Some before \<and>
       probe_root (pd_from_json D) (ph_recheck E) url = Some after \<and> identity after = identity before \<and>
       json_index before ''zcash_network'' = JString ''main'' \<and>
       json_index before ''circuit_root'' = JString (pd_hex_encode D (to_repr (root pr))) \<and>
       (\<forall>k \<in> {''circuit_root'', ''height'', ''pir_root''}. json_index out k = json_index before k))"

lemma json_index_set: "json_index (json_set (JObject ms) k v) k' = (if k' = k then v else json_index (JObject ms) k')"
  by (simp add: json_index_def unwrap_or_def update_conv')

lemma attempt_certifies:
  assumes "attempt P D seed nf E url layout = Inr v"
  shows "certifies P D (seed, nf, E) url layout (json_set v ''duration_ms'' t) \<and>
    json_index (json_set v ''duration_ms'' t) ''ok'' = JBool True"
  using assms
proof (cases rule: attempt_Ok)
  case (1 c rs before after pr)
  have "pc_layout c = layout" using with_transport_wf [OF 1(1)] by simp
  moreover have "proof_wf pr" using fetch_proof_probe [OF 1(1)] 1(6) by (metis Inl_Inr_False Inr_inject)
  moreover have "json_index (json_set v ''duration_ms'' t) k = json_index before k" if "k \<in> {''circuit_root'', ''height'', ''pir_root''}" for k
    using that unfolding 1(9) json_index_set by (auto simp: json_index_def unwrap_or_def)
  moreover have "json_index (json_set v ''duration_ms'' t) ''ok'' = JBool True"
    unfolding 1(9) json_index_set by (simp add: json_index_def unwrap_or_def)
  ultimately show ?thesis unfolding certifies_def prod.case using 1(1-8) by blast
qed

end
