(* ===== verification/Probe_Theorems.thy ===== *)
theory Probe_Theorems
  imports Probe Built_Tree Examples
begin

text \<open>
  The two theorems on the endpoint probe: what its verdict means against any server, and that it is
  green against a server of an exported snapshot of the main network.
\<close>

section \<open>Against any server\<close>

text \<open>
  C33. The verdict of the probe. Whatever the server sends in either attempt, the process prints a
  report: a failure with exit code 1 and one of four fixed kinds, or a success with exit code 0; and a
  success that is not the layout check means that one of the two attempts certified the root it
  reports, the second one only when the snapshot changed during the first.
\<close>

theorem probe_verdict:
  assumes "parsers_total (pd_parsers D)"
  shows "\<exists>out code. report t (probe_result P D parse_layout parse_url args (seed, nf, E) (seed', nf', E')) = Some (out, code) \<and>
    (code = 1 \<and> json_index out ''ok'' = JBool False \<and>
       json_index out ''error'' \<in> JString ` {''invalid_proof'', ''unstable_snapshot'', ''inconsistent_response'', ''query_failed''} \<or>
     code = 0 \<and> json_index out ''ok'' = JBool True \<and>
       (args ! 1 = ''--validate-layout'' \<or>
        (\<exists>layout. parse_layout (args ! 2) = Inr layout \<and> validate_supported layout = Inr () \<and>
           (certifies P D (seed, nf, E) (args ! 1) layout out \<or>
            (\<exists>ms. attempt P D seed nf E (args ! 1) layout = Inl (Chain (''snapshot_changed'' # ms))) \<and>
            certifies P D (seed', nf', E') (args ! 1) layout out))))"
proof (cases "probe_result P D parse_layout parse_url args (seed, nf, E) (seed', nf', E')")
  case (Inl e)
  then obtain ms where "e = Chain ms"
    using attempt_not_aborted [OF assms, of P]
    by (cases e) (auto simp: probe_result_def probe_ensure_def split: if_splits sum.splits probe_error.splits list.splits)
  moreover have "error_kind ms \<in> {''invalid_proof'', ''unstable_snapshot'', ''inconsistent_response'', ''query_failed''}" for ms
    by (simp add: error_kind_def Let_def)
  ultimately show ?thesis using Inl
    by (auto simp: report_def json_index_set) (auto simp: json_index_def unwrap_or_def)
next
  case (Inr v)
  then show ?thesis
    using attempt_certifies [of P D seed nf E "args ! 1" _ v "JU64 t"] attempt_certifies [of P D seed' nf' E' "args ! 1" _ v "JU64 t"]
    by (auto simp: report_def probe_result_def probe_ensure_def json_index_set split: if_splits sum.splits probe_error.splits list.splits)
      (simp add: json_index_def unwrap_or_def)
qed


text \<open>An endpoint that does not answer.\<close>

theorem probe_verdict_witness:
  "\<exists>out code. report 12 (probe_result sample_constants
       \<lparr>pd_from_json = (\<lambda>_. None), pd_parsers = sample_parsers, pd_hex_encode = (\<lambda>_. []), pd_ypir = clear_client\<rparr>
       (\<lambda>_. Inr COMPILED_PIR_LAYOUT) (\<lambda>_. Inr \<lparr>url_scheme = ''https'', url_username = [], url_password = None\<rparr>)
       [''pir-probe'', ''https://pir'', ''{}'']
       (0, 7, \<lparr>ph_connect = (\<lambda>_ _. None), ph_query = (\<lambda>_ _. None), ph_recheck = (\<lambda>_ _. None)\<rparr>)
       (0, 7, \<lparr>ph_connect = (\<lambda>_ _. None), ph_query = (\<lambda>_ _. None), ph_recheck = (\<lambda>_ _. None)\<rparr>)) = Some (out, code) \<and>
     json_index out ''ok'' \<in> {JBool True, JBool False}"
proof -
  let ?D = "\<lparr>pd_from_json = (\<lambda>_. None), pd_parsers = sample_parsers, pd_hex_encode = (\<lambda>_. []), pd_ypir = clear_client\<rparr>"
  have "parsers_total (pd_parsers ?D)" by (simp add: parsers_total_def sample_parsers_def)
  from probe_verdict [OF this] show ?thesis by blast
qed

section \<open>Against a server of a snapshot\<close>

text \<open>The HTTP library delivers what the server answers, in any chunks.\<close>

definition delivers :: "net \<Rightarrow> http_send \<Rightarrow> bool" where
  "delivers N send \<longleftrightarrow>
     (\<forall>url body resp. (case body of None \<Rightarrow> net_get N url | Some b \<Rightarrow> net_post N url b) = Ok resp \<longrightarrow>
        (\<exists>chunks declared. concat chunks = rsp_body resp \<and> declared \<in> {None, Some (word_of_nat (length (rsp_body resp)))} \<and>
           send url body = Some \<lparr>hr_status = rsp_status resp, hr_content_length = declared, hr_chunks = map Some chunks\<rparr>))"

lemma read_chunks_all: "length acc + length (concat chunks) \<le> cap \<Longrightarrow> read_chunks cap acc (map Some chunks) = Ok (acc @ concat chunks)"
  by (induction chunks arbitrary: acc) auto

lemma probe_cap_bounds: "probe_cap url \<le> 32 * 1024 * 1024" "ends_with url ''/root'' \<Longrightarrow> probe_cap url = 1024 * 1024"
  by (simp_all add: probe_cap_def)

lemma http_request_delivered:
  assumes "delivers N send" "(case body of None \<Rightarrow> net_get N url | Some b \<Rightarrow> net_post N url b) = Ok resp"
    and "rsp_status resp = 200" "length (rsp_body resp) \<le> probe_cap url"
    and "ends_with url ''/root'' \<Longrightarrow> js (rsp_body resp) \<noteq> None"
  shows "fst (http_request js send url body None) = Ok \<lparr>rsp_status = 200, rsp_headers = [], rsp_body = rsp_body resp\<rparr>"
proof -
  obtain chunks declared where c: "concat chunks = rsp_body resp" "declared \<in> {None, Some (word_of_nat (length (rsp_body resp)))}"
    "send url body = Some \<lparr>hr_status = rsp_status resp, hr_content_length = declared, hr_chunks = map Some chunks\<rparr>"
    using assms(1,2) unfolding delivers_def by blast
  have "length (rsp_body resp) < 2 ^ 64" using assms(4) probe_cap_bounds(1) [of url] by simp
  then have "unat (word_of_nat (length (rsp_body resp)) :: u64) = length (rsp_body resp)" by (simp add: unat_of_nat)
  then have "(case declared of None \<Rightarrow> 0 | Some n \<Rightarrow> unat n) \<le> probe_cap url" using c(2) assms(4) by auto
  moreover have "read_chunks (probe_cap url) [] (map Some chunks) = Ok (rsp_body resp)"
    using read_chunks_all [of "[]" chunks "probe_cap url"] assms(4) c(1) by simp
  ultimately show ?thesis using c(3) assms(3,5) by (simp add: http_request_def Let_def)
qed

text \<open>Connecting depends on the status and the body of three responses.\<close>

lemma with_transport_same:
  assumes "\<And>p. p \<in> {''/root'', ''/tier0'', ''/params/tier1''} \<Longrightarrow>
      \<exists>r r'. net_get N (trim_end_slashes url @ p) = Ok r \<and> net_get N' (trim_end_slashes url @ p) = Ok r' \<and>
        rsp_status r = rsp_status r' \<and> rsp_body r = rsp_body r'"
  shows "with_transport P N J url L = with_transport P N' J url L"
proof -
  obtain r0 r0' r1 r1' r2 r2' where
    "net_get N (trim_end_slashes url @ ''/root'') = Ok r0" "net_get N' (trim_end_slashes url @ ''/root'') = Ok r0'"
    "net_get N (trim_end_slashes url @ ''/tier0'') = Ok r1" "net_get N' (trim_end_slashes url @ ''/tier0'') = Ok r1'"
    "net_get N (trim_end_slashes url @ ''/params/tier1'') = Ok r2" "net_get N' (trim_end_slashes url @ ''/params/tier1'') = Ok r2'"
    "rsp_status r0 = rsp_status r0'" "rsp_body r0 = rsp_body r0'" "rsp_status r1 = rsp_status r1'" "rsp_body r1 = rsp_body r1'"
    "rsp_status r2 = rsp_status r2'" "rsp_body r2 = rsp_body r2'"
    using assms [of "''/root''"] assms [of "''/tier0''"] assms [of "''/params/tier1''"] by blast
  then have "check_root N J (trim_end_slashes url @ ''/root'') L = check_root N' J (trim_end_slashes url @ ''/root'') L"
    "\<And>ri. connect_data P N J (trim_end_slashes url) L ri = connect_data P N' J (trim_end_slashes url) L ri"
    by (simp_all add: check_root_def connect_data_def body_for_status_def)
  then show ?thesis by (simp only: with_transport_def Let_def)
qed

lemma server_net_post_body:
  assumes "serving st = Some ss" "\<And>sv off q pp. length (ys_online Y (ts_scenario (ss_tier1 ss)) sv off q pp) \<le> 32 * 1024 * 1024"
    and "net_post (server_net Y W st base) u b = Ok resp" "is_success (rsp_status resp)"
  shows "rsp_status resp = 200 \<and> length (rsp_body resp) \<le> 32 * 1024 * 1024"
proof -
  have "snd (post_tier1_query Y W st b) = Ok resp"
    using assms(3,4) by (auto simp: server_net_def is_success_def respond_def split: if_splits)
  then show ?thesis using assms(1,2,4)
    by (auto simp: post_tier1_query_def dispatch_query_def answer_query_def respond_def is_success_def Let_def case_prod_unfold result_simps
        split: if_splits option.splits sum.splits error.splits)
qed

lemma query_cap [simp]: "probe_cap (base @ ''/tier1/query'') = 32 * 1024 * 1024" "probe_cap (base @ ''/tier0'') = 32 * 1024 * 1024"
  "probe_cap (base @ ''/params/tier1'') = 1024 * 1024" "probe_cap (base @ ''/root'') = 1024 * 1024"
  by (simp_all add: probe_cap_def) (simp_all add: ends_with_def)

lemma answers_rows_probe:
  assumes del: "delivers (server_net Y W st base) send" and s: "serving st = Some ss"
    and small: "\<And>sv off q pp. length (ys_online Y (ts_scenario (ss_tier1 ss)) sv off q pp) \<le> 32 * 1024 * 1024"
    and rows: "answers_rows (server_net Y W st base) Yc seed c ranges"
  shows "answers_rows (probe_net js send) Yc seed c ranges"
  unfolding answers_rows_def
proof (intro allI impI)
  fix row :: nat
  assume row: "row < 2 ^ tier0_layers (pc_layout c)"
  let ?u = "pc_server_url c @ ''/tier1/query''"
  let ?b = "case generate_query_simplepir Yc (pc_tier1_scenario c) seed row of (q, pp) \<Rightarrow> serialize_ypir_query q pp"
  obtain resp dec where r: "net_post (server_net Y W st base) ?u ?b = Ok resp" "is_success (rsp_status resp)"
    and dec: "decode_response_simplepir Yc (pc_tier1_scenario c) seed (rsp_body resp) = Ok dec"
      "pc_tier1_row_bytes c \<le> length dec"
      "take (pc_tier1_row_bytes c) dec = tier1_blob (row_recs ranges (2 ^ tier1_layers (pc_layout c)) row)"
    using rows row unfolding answers_rows_def by blast
  note ok = server_net_post_body [OF s small r]
  have "net_post (probe_net js send) ?u ?b = Ok \<lparr>rsp_status = 200, rsp_headers = [], rsp_body = rsp_body resp\<rparr>"
    using http_request_delivered [OF del, of ?u "Some ?b" resp js] r(1) ok by (simp add: probe_net_def)
  with dec show "\<exists>resp dec. net_post (probe_net js send) ?u ?b = Ok resp \<and> is_success (rsp_status resp) \<and>
      decode_response_simplepir Yc (pc_tier1_scenario c) seed (rsp_body resp) = Ok dec \<and> pc_tier1_row_bytes c \<le> length dec \<and>
      take (pc_tier1_row_bytes c) dec = tier1_blob (row_recs ranges (2 ^ tier1_layers (pc_layout c)) row)"
    by (auto simp: is_success_def)
qed

text \<open>
  What the probe relies on from the libraries for a served snapshot: hex coding is that of the
  exporter, the root response is JSON with the network and the circuit root as text, and
  the JSON responses and the answers of YPIR are within the limits.
\<close>

definition probe_codecs :: "probe_deps \<Rightarrow> server_json \<Rightarrow> meta_codec \<Rightarrow> ('y, 'o) ypir_server \<Rightarrow> PirMetadata \<Rightarrow> YpirScenario \<Rightarrow> bool" where
  "probe_codecs D W C Y m scn \<longleftrightarrow>
     pd_hex_encode D = hex_of C \<and> codecs_agree W (pd_parsers D) C m scn \<and>
     (\<exists>rv. pd_from_json D (root_to_json W (root_info m scn)) = Some rv \<and>
        json_index rv ''zcash_network'' = JString ''main'' \<and> json_index rv ''circuit_root'' = JString (md_circuit_root m)) \<and>
     length (root_to_json W (root_info m scn)) \<le> 1024 * 1024 \<and> length (scenario_to_json W scn) \<le> 1024 * 1024 \<and>
     (\<forall>sv off q pp. length (ys_online Y scn sv off q pp) \<le> 32 * 1024 * 1024)"


lemma tier0_within_cap:
  assumes "validate_supported L = Inr ()" "pir_depth L = PIR_DEPTH"
  shows "length (tier0_of P ranges L) \<le> 32 * 1024 * 1024"
proof -
  have "tier0_layers L \<le> 13" using assms by (auto simp: validate_supported_iff supported_def PIR_DEPTH_def)
  then have "(2 :: nat) ^ tier0_layers L \<le> 2 ^ 13" by (rule power_increasing) simp
  then show ?thesis by (simp add: length_tier0_of)
qed

text \<open>The client of the probe connects to a served snapshot as any client does.\<close>

lemma probe_connects:
  assumes del: "delivers (server_net Y W st (trim_end_slashes url)) send" and s: "serving st = Some ss"
    and "length (root_to_json W (root_info (ss_metadata ss) (ss_tier1_scenario ss))) \<le> 1024 * 1024"
      "length (scenario_to_json W (ss_tier1_scenario ss)) \<le> 1024 * 1024" "length (ss_tier0_data ss) \<le> 32 * 1024 * 1024"
    and rv: "js (root_to_json W (root_info (ss_metadata ss) (ss_tier1_scenario ss))) = Some rv"
  shows "with_transport P (probe_net js send) J url L = with_transport P (server_net Y W st (trim_end_slashes url)) J url L"
    and "probe_root js send url = Some rv" and "is_ok (net_get (probe_net js send) (trim_end_slashes url @ ''/root''))"
proof -
  let ?N = "server_net Y W st (trim_end_slashes url)" and ?b = "trim_end_slashes url"
  have st: "rsp_status (get_root W st) = 200" "rsp_status (get_tier0 W st) = 200" "rsp_status (get_params_tier1 W st) = 200"
    using s by (simp_all add: get_root_def get_tier0_def get_params_tier1_def require_serving_def respond_def)
  note bodies = get_responses(4-6) [OF s, of W]
  have net: "net_get ?N (?b @ ''/root'') = Ok (get_root W st)" "net_get ?N (?b @ ''/tier0'') = Ok (get_tier0 W st)"
    "net_get ?N (?b @ ''/params/tier1'') = Ok (get_params_tier1 W st)"
    by (simp_all add: server_net_def)
  have got: "net_get (probe_net js send) (?b @ p) = Ok \<lparr>rsp_status = 200, rsp_headers = [], rsp_body = rsp_body r\<rparr>"
    if "net_get ?N (?b @ p) = Ok r" "rsp_status r = 200" "length (rsp_body r) \<le> probe_cap (?b @ p)"
      "ends_with (?b @ p) ''/root'' \<Longrightarrow> js (rsp_body r) \<noteq> None" for p r
    using http_request_delivered [OF del, of "?b @ p" None r js] that by (simp add: probe_net_def)
  have root: "net_get (probe_net js send) (?b @ ''/root'') = Ok \<lparr>rsp_status = 200, rsp_headers = [], rsp_body = rsp_body (get_root W st)\<rparr>"
    using got [OF net(1) st(1)] bodies(1) assms(3) rv by simp
  moreover have "net_get (probe_net js send) (?b @ ''/tier0'') = Ok \<lparr>rsp_status = 200, rsp_headers = [], rsp_body = rsp_body (get_tier0 W st)\<rparr>"
    using got [OF net(2) st(2)] bodies(2) assms(5) by simp
  moreover have "net_get (probe_net js send) (?b @ ''/params/tier1'') = Ok \<lparr>rsp_status = 200, rsp_headers = [], rsp_body = rsp_body (get_params_tier1 W st)\<rparr>"
    using got [OF net(3) st(3)] bodies(3) assms(4) by simp
  ultimately show "with_transport P (probe_net js send) J url L = with_transport P ?N J url L"
    using net st by (intro with_transport_same) auto
  show "probe_root js send url = Some rv" "is_ok (net_get (probe_net js send) (?b @ ''/root''))"
    using root rv by (simp_all add: probe_root_def bodies(1))
qed

text \<open>
  C34. A healthy endpoint is reported green: take a server of a snapshot exported for the main network
  as in the end-to-end theorem, reached over https, whose responses the HTTP library delivers
  unchanged in any chunks throughout an attempt. Then the probe, given the layout of the
  snapshot, prints success and exits with 0, for every drawn value outside the padded nullifier set.
\<close>

theorem healthy_endpoint_green:
  fixes P :: "'p::len poseidon_constants"
  assumes "build_pir_tree_from_nullifiers P nfs = Inr tree"
    and "validate_supported L = Inr ()" and "pir_depth L = PIR_DEPTH" and "degree = 2048 \<or> degree = 4096"
    and "meta_from_json C (meta_to_json C (snapshot_meta C P (pt_ranges tree) Main height L)) =
           Some (snapshot_meta C P (pt_ranges tree) Main height L)"
    and "\<And>bs. hex_to C (hex_of C bs) = Some bs"
    and codecs: "probe_codecs D W C Y (served_meta C P (pt_ranges tree) Main height L degree) (layout_scenario L degree)"
    and "ypir_correct Y (pd_ypir D) (layout_scenario L degree) (tier1_of (pt_ranges tree) L) seed"
    and "nf \<notin> padded_set nfs"
    and args: "args = [prog, url, layout_text]" "parse_layout layout_text = Inr (L\<lparr>poly_len := degree\<rparr>)"
      "parse_url url = Inr \<lparr>url_scheme = ''https'', url_username = [], url_password = None\<rparr>" "url \<noteq> ''--validate-layout''"
  shows "\<exists>d' ss. load_serving_state_with_poly_len TYPE('p) C H T Y env
      (fst (export_all_with_layout C tree d Main height L)) Main degree = (d', Ok ss) \<and>
    (\<forall>E second. (\<forall>send \<in> {ph_connect E, ph_query E, ph_recheck E}.
         delivers (server_net Y W (st\<lparr>serving := Some ss\<rparr>) (trim_end_slashes url)) send) \<longrightarrow>
       (\<exists>out. report t (probe_result P D parse_layout parse_url args (seed, nf, E) second) = Some (out, 0) \<and>
          json_index out ''ok'' = JBool True))"
proof -
  let ?ranges = "pt_ranges tree" and ?m = "served_meta C P (pt_ranges tree) Main height L degree" and ?scn = "layout_scenario L degree"
  let ?ss = "snapshot_state C Y P ?ranges Main height L degree" and ?L = "L\<lparr>poly_len := degree\<rparr>"
  let ?st = "st\<lparr>serving := Some ?ss\<rparr>" and ?js = "pd_from_json D"
  note ok = built_snapshot(1) [OF assms(1-3)]
  note dep = snapshot_depths [OF ok]
  have tree: "pir_tree_of P ?ranges = tree"
    using built_tree(3) [OF assms(1)] built_tree_fields(1) [OF assms(1)] by simp
  obtain d' where ld: "load_serving_state_with_poly_len TYPE('p) C H T Y env (fst (export_all_with_layout C tree d Main height L)) Main degree = (d', Ok ?ss)"
    using load_after_export [OF dep(5,6) assms(4,5,6)] unfolding tree by blast
  have ss: "ss_metadata ?ss = ?m" "ss_tier1_scenario ?ss = ?scn" "ss_tier0_data ?ss = tier0_of P ?ranges L"
    "ts_scenario (ss_tier1 ?ss) = ?scn"
    by (simp_all add: snapshot_state_def)
  obtain rv where rv: "?js (root_to_json W (root_info ?m ?scn)) = Some rv" "json_index rv ''zcash_network'' = JString ''main''"
      "json_index rv ''circuit_root'' = JString (md_circuit_root ?m)"
    and ag: "codecs_agree W (pd_parsers D) C ?m ?scn" and hex: "pd_hex_encode D = hex_of C"
    and sz: "length (root_to_json W (root_info ?m ?scn)) \<le> 1024 * 1024" "length (scenario_to_json W ?scn) \<le> 1024 * 1024"
      "\<And>sv off q pp. length (ys_online Y ?scn sv off q pp) \<le> 32 * 1024 * 1024"
    using codecs unfolding probe_codecs_def by blast
  have st: "serving ?st = Some ?ss" by simp
  obtain c rs where con: "with_transport P (server_net Y W ?st (trim_end_slashes url)) (pd_parsers D) url ?L = (Ok c, rs)"
    and c: "client_wf c" "pc_layout c = ?L" "holds_snapshot P c ?ranges"
      "answers_rows (server_net Y W ?st (trim_end_slashes url)) (pd_ypir D) seed c ?ranges"
    using served_client [OF ok assms(4) load_serving_wf [OF ld] assms(6) ag assms(8) st] by blast
  have sup: "validate_supported ?L = Inr ()" using dep(5) assms(4) by (simp add: validate_supported_iff supported_degree)
  have cr: "md_circuit_root ?m = hex_of C (to_repr (pt_circuit_root tree))"
    using tree by (simp add: served_meta_def snapshot_meta_def export_metadata_def)
  have "\<exists>out. report t (probe_result P D parse_layout parse_url args (seed, nf, E) second) = Some (out, 0) \<and> json_index out ''ok'' = JBool True"
    if del: "\<And>send. send \<in> {ph_connect E, ph_query E, ph_recheck E} \<Longrightarrow> delivers (server_net Y W ?st (trim_end_slashes url)) send" for E second
  proof -
    note pc = probe_connects [where js = ?js, OF del st, unfolded ss, OF _ sz(1,2) tier0_within_cap [OF assms(2,3)] rv(1)]
    obtain pr where pr: "fetch_proof P (probe_net ?js (ph_query E)) (pd_ypir D) seed c nf = Ok pr" "root pr = pt_circuit_root tree" "verify P pr nf"
      using built_proof_over_wire [OF assms(1-4) c(1-3) answers_rows_probe [OF del st, unfolded ss, OF _ sz(3) c(4)] assms(9)] by blast
    have "attempt P D seed nf E url ?L = Inr (JObject [(''circuit_root'', json_index rv ''circuit_root''),
        (''height'', json_index rv ''height''), (''ok'', JBool True), (''pir_root'', json_index rv ''pir_root'')])"
      using pc(1) [of "ph_connect E" P "pd_parsers D" ?L] con pc(2) [of "ph_connect E"] pc(2,3) [of "ph_recheck E"] pr
      by (subst attempt_connected) (auto simp: is_ok_iff rv(2,3) check_proof_def cr hex)
    then show ?thesis using sup args
      by (auto simp: probe_result_def report_def case_prod_unfold) (simp add: json_index_def unwrap_or_def)
  qed
  then show ?thesis using ld by blast
qed


text \<open>A library that delivers every body in one chunk, and the data of the sample snapshot.\<close>

definition one_chunk :: "net \<Rightarrow> http_send" where
  "one_chunk N url body =
     (case (case body of None \<Rightarrow> net_get N url | Some b \<Rightarrow> net_post N url b) of
        Inl _ \<Rightarrow> None
      | Inr resp \<Rightarrow> Some \<lparr>hr_status = rsp_status resp, hr_content_length = None, hr_chunks = [Some (rsp_body resp)]\<rparr>)"

lemma delivers_one_chunk: "delivers N (one_chunk N)"
  unfolding delivers_def by (auto simp: one_chunk_def intro!: exI [of _ "[_]"])

definition sample_probe :: probe_deps where
  "sample_probe =
     \<lparr>pd_from_json = (\<lambda>_. Some (JObject [(''circuit_root'', JString (md_circuit_root sample_served)), (''zcash_network'', JString ''main'')])),
      pd_parsers = sample_parsers, pd_hex_encode = hex_of sample_codec, pd_ypir = clear_client\<rparr>"

abbreviation sample_phases :: "http_send \<Rightarrow> probe_phases" where
  "sample_phases send \<equiv> \<lparr>ph_connect = send, ph_query = send, ph_recheck = send\<rparr>"

lemma sample_probe_codecs: "probe_codecs sample_probe sample_printer sample_codec clear_ypir sample_served sample_scenario"
proof -
  have "length (ys_online clear_ypir sample_scenario sv off q pp) \<le> 12288" for sv off q pp
    by (simp add: clear_ypir_def layout_scenario_def COMPILED_PIR_LAYOUT_def TIER0_LAYERS_def TIER1_LAYERS_def)
  then have "length (ys_online clear_ypir sample_scenario sv off q pp) \<le> 32 * 1024 * 1024" for sv off q pp
    by (rule order_trans) simp
  moreover have "codecs_agree sample_printer (pd_parsers sample_probe) sample_codec sample_served sample_scenario"
    using sample_codecs_agree by (simp add: sample_probe_def)
  ultimately show ?thesis
    unfolding probe_codecs_def by (simp add: sample_probe_def sample_printer_def json_index_def unwrap_or_def)
qed

theorem healthy_endpoint_green_witness:
  "\<exists>ss out. report 12 (probe_result sample_constants sample_probe (\<lambda>_. Inr (COMPILED_PIR_LAYOUT\<lparr>poly_len := 4096\<rparr>))
        (\<lambda>_. Inr \<lparr>url_scheme = ''https'', url_username = [], url_password = None\<rparr>) [''pir-probe'', ''https://pir/'', ''{}'']
        (0, 7, sample_phases (one_chunk (server_net clear_ypir sample_printer
            ((initial_state sample_serve_args None Map.empty)\<lparr>serving := Some ss\<rparr>) (trim_end_slashes ''https://pir/''))))
        (0, 7, sample_phases (\<lambda>_ _. None))) = Some (out, 0) \<and>
     json_index out ''ok'' = JBool True"
proof -
  let ?N = "\<lambda>ss. server_net clear_ypir sample_printer ((initial_state sample_serve_args None Map.empty)\<lparr>serving := Some ss\<rparr>) (trim_end_slashes ''https://pir/'')"
  let ?layout = "\<lambda>_. Inr (COMPILED_PIR_LAYOUT\<lparr>poly_len := 4096\<rparr>)" and ?url = "\<lambda>_. Inr \<lparr>url_scheme = ''https'', url_username = [], url_password = None\<rparr>"
  have meta: "meta_from_json sample_codec (meta_to_json sample_codec (snapshot_meta sample_codec sample_constants (pt_ranges sample_tree) Main sample_height COMPILED_PIR_LAYOUT)) =
      Some (snapshot_meta sample_codec sample_constants (pt_ranges sample_tree) Main sample_height COMPILED_PIR_LAYOUT)"
    and y: "ypir_correct clear_ypir (pd_ypir sample_probe) sample_scenario (tier1_of (pt_ranges sample_tree) COMPILED_PIR_LAYOUT) 0"
    and codecs: "probe_codecs sample_probe sample_printer sample_codec clear_ypir
      (served_meta sample_codec sample_constants (pt_ranges sample_tree) Main sample_height COMPILED_PIR_LAYOUT 4096) sample_scenario"
    by (simp_all add: sample_meta_round_trip clear_ypir_correct sample_probe_codecs) (simp add: sample_probe_def clear_ypir_correct)
  have url: "''https://pir/'' \<noteq> ''--validate-layout''" by simp
  obtain ss where green: "\<forall>E second. (\<forall>send \<in> {ph_connect E, ph_query E, ph_recheck E}. delivers (?N ss) send) \<longrightarrow>
     (\<exists>out. report 12 (probe_result sample_constants sample_probe ?layout ?url [''pir-probe'', ''https://pir/'', ''{}''] (0, 7, E) second) = Some (out, 0) \<and>
       json_index out ''ok'' = JBool True)"
    using healthy_endpoint_green [where parse_layout = ?layout and parse_url = ?url and H = sample_digest and T = sample_target and env = id and
        d = Map.empty and st = "initial_state sample_serve_args None Map.empty" and t = 12 and prog = "''pir-probe''" and layout_text = "''{}''",
      OF sample_build compiled_layout_supported compiled_depth disjI2 [OF refl] meta sample_hex_round_trip codecs y sample_seven_free refl refl refl url]
    by blast
  have "\<exists>out. report 12 (probe_result sample_constants sample_probe ?layout ?url [''pir-probe'', ''https://pir/'', ''{}'']
      (0, 7, sample_phases (one_chunk (?N ss))) (0, 7, sample_phases (\<lambda>_ _. None))) = Some (out, 0) \<and> json_index out ''ok'' = JBool True"
    using green by (auto simp: delivers_one_chunk)
  then show ?thesis by blast
qed

end
