(* ===== verification/Timing.thy ===== *)
theory Timing
  imports Format Apm_Parse Examples
begin

text \<open>
  Timing of a query on both sides: the headers that \<open>dispatch_query\<close> of \<^verbatim>\<open>pir/server/src/lib.rs\<close> adds to
  an answer, and how the client of \<^verbatim>\<open>pir/client/src/lib.rs\<close> reads them into its timing record.
  Durations are binary64 numbers read from a clock, which are arguments. The lemmas show that
  timing changes neither the response nor the result of a query, and that the
  client reads back what the server measured, to the printed precision.
\<close>

section \<open>Server\<close>

record QueryTiming =
  qt_validate_ms :: f64
  qt_decode_copy_ms :: f64
  qt_online_compute_ms :: f64
  qt_total_ms :: f64
  qt_response_bytes :: usize

text \<open>\<open>HeaderValue::from_str\<close> accepts visible ASCII; \<open>HeaderMap::insert\<close> replaces a header of the name.\<close>

definition header_value_ok :: "string \<Rightarrow> bool" where
  "header_value_ok s \<longleftrightarrow> list_all (\<lambda>c. 32 \<le> (of_char c :: nat) \<and> (of_char c :: nat) < 127) s"

definition header_insert :: "(string \<times> string) list \<Rightarrow> string \<times> string \<Rightarrow> (string \<times> string) list" where
  "header_insert hs nv = filter (\<lambda>h. fst h \<noteq> fst nv) hs @ [nv]"

definition write_timing_headers :: "(string \<times> string) list \<Rightarrow> u64 \<Rightarrow> QueryTiming \<Rightarrow> (string \<times> string) list" where
  "write_timing_headers headers req_id timing =
     (let entries =
        [(''x-pir-req-id'', show_nat (unat req_id)),
         (''x-pir-server-total-ms'', fmt_fixed 3 (qt_total_ms timing)),
         (''x-pir-server-validate-ms'', fmt_fixed 3 (qt_validate_ms timing)),
         (''x-pir-server-decode-copy-ms'', fmt_fixed 3 (qt_decode_copy_ms timing)),
         (''x-pir-server-compute-ms'', fmt_fixed 3 (qt_online_compute_ms timing)),
         (''x-pir-server-response-bytes'', show_nat (qt_response_bytes timing))]
      in fold (\<lambda>nv hs. if header_value_ok (snd nv) then header_insert hs nv else hs) entries headers)"

text \<open>The answer of a query with its timing, and the whole of \<open>dispatch_query\<close>.\<close>

definition answer_query_timed ::
  "('y, 'o) ypir_server \<Rightarrow> ('y, 'o) TierServer \<Rightarrow> bytes \<Rightarrow> QueryTiming \<Rightarrow> (bytes \<times> QueryTiming) result" where
  "answer_query_timed Y self query_bytes clock =
     and_then (answer_query Y self query_bytes) (\<lambda>response.
     Ok (response, clock\<lparr>qt_response_bytes := length response\<rparr>))"

definition dispatch_query_timed ::
  "('y, 'o) ypir_server \<Rightarrow> ('y, 'o) TierServer \<Rightarrow> bytes \<Rightarrow> counters \<Rightarrow> QueryTiming \<Rightarrow> counters \<times> TransportResponse result" where
  "dispatch_query_timed Y tier_state body ctr clock =
     (let ctr = ctr\<lparr>next_req_id := next_req_id ctr + 1\<rparr>; req_id = next_req_id ctr;
          ctr = ctr\<lparr>inflight_requests := inflight_requests ctr + 1\<rparr>;
          answer = answer_query_timed Y tier_state body clock;
          ctr = ctr\<lparr>inflight_requests := inflight_requests ctr - 1\<rparr>
      in (ctr,
          (case answer of
             Inr (response, timing) \<Rightarrow>
               Ok \<lparr>rsp_status = 200,
                   rsp_headers = write_timing_headers [(''content-type'', ''application/octet-stream'')] req_id timing,
                   rsp_body = response\<rparr>
           | Inl (Error m) \<Rightarrow> Ok \<lparr>rsp_status = 400, rsp_headers = [], rsp_body = ascii m\<rparr>
           | Inl (Panic m) \<Rightarrow> Err (Panic m))))"

section \<open>Client\<close>

record TierTiming =
  tt_gen_ms :: f64
  tt_upload_bytes :: usize
  tt_upload_q_bytes :: usize
  tt_upload_pp_bytes :: usize
  tt_download_bytes :: usize
  tt_rtt_ms :: f64
  tt_decode_ms :: f64
  tt_server_req_id :: "u64 option"
  tt_server_total_ms :: "f64 option"
  tt_server_validate_ms :: "f64 option"
  tt_server_decode_copy_ms :: "f64 option"
  tt_server_compute_ms :: "f64 option"
  tt_net_queue_ms :: "f64 option"
  tt_upload_to_server_ms :: "f64 option"
  tt_download_from_server_ms :: f64

record NoteTiming =
  nt_tier1 :: TierTiming
  nt_total_ms :: f64

definition header_find :: "(string \<times> string) list \<Rightarrow> string \<Rightarrow> string option" where
  "header_find headers name = map_option snd (find (\<lambda>h. eq_ignore_ascii_case (fst h) name) headers)"

definition parse_header_f64 :: "(string \<times> string) list \<Rightarrow> string \<Rightarrow> f64 option" where
  "parse_header_f64 headers name = Option.bind (header_find headers name) parse_f64"

definition parse_header_u64 :: "(string \<times> string) list \<Rightarrow> string \<Rightarrow> u64 option" where
  "parse_header_u64 headers name = map_option word_of_nat (Option.bind (header_find headers name) parse_u64)"

text \<open>The clock readings of one query, in milliseconds.\<close>

record query_clock =
  qc_gen_ms :: f64
  qc_send_ms :: f64
  qc_rtt_ms :: f64
  qc_decode_ms :: f64

definition tier_timing :: "query_clock \<Rightarrow> u64 list \<Rightarrow> u64 list \<Rightarrow> TransportResponse \<Rightarrow> TierTiming" where
  "tier_timing clk q pp resp =
     (let headers = rsp_headers resp; server_total_ms = parse_header_f64 headers ''x-pir-server-total-ms''
      in \<lparr>tt_gen_ms = qc_gen_ms clk, tt_upload_bytes = length (serialize_ypir_query q pp),
          tt_upload_q_bytes = U64_BYTES * length q, tt_upload_pp_bytes = U64_BYTES * length pp,
          tt_download_bytes = length (rsp_body resp), tt_rtt_ms = qc_rtt_ms clk, tt_decode_ms = qc_decode_ms clk,
          tt_server_req_id = parse_header_u64 headers ''x-pir-req-id'',
          tt_server_total_ms = server_total_ms,
          tt_server_validate_ms = parse_header_f64 headers ''x-pir-server-validate-ms'',
          tt_server_decode_copy_ms = parse_header_f64 headers ''x-pir-server-decode-copy-ms'',
          tt_server_compute_ms = parse_header_f64 headers ''x-pir-server-compute-ms'',
          tt_net_queue_ms = map_option (\<lambda>server_ms. f_max (f_sub (qc_rtt_ms clk) server_ms) (Fin 0)) server_total_ms,
          tt_upload_to_server_ms = map_option (\<lambda>server_ms. f_max (f_sub (qc_send_ms clk) server_ms) (Fin 0)) server_total_ms,
          tt_download_from_server_ms = f_max (f_sub (qc_rtt_ms clk) (qc_send_ms clk)) (Fin 0)\<rparr>)"

text \<open>\<open>ypir_query\<close> with its timing.\<close>

definition ypir_query_timed ::
  "net \<Rightarrow> ypir_client \<Rightarrow> string \<Rightarrow> YpirScenario \<Rightarrow> string \<Rightarrow> nat \<Rightarrow> usize \<Rightarrow> usize \<Rightarrow> query_clock \<Rightarrow> (bytes \<times> TierTiming) result" where
  "ypir_query_timed N Y server_url scenario tier_name seed row_idx expected_row_bytes clk =
     ensure (row_idx < num_items scenario) ''row_idx >= num_items''
     (ensure (scn_poly_len scenario = 2048 \<or> scn_poly_len scenario = 4096) ''advertised unsupported YPIR polynomial degree''
     (let (pqr, pub_params) = generate_query_simplepir Y scenario seed row_idx;
          payload = serialize_ypir_query pqr pub_params
      in and_then (net_post N (server_url @ ''/'' @ tier_name @ ''/query'') payload) (\<lambda>resp.
         if \<not> is_success (rsp_status resp) then Bail ''query failed''
         else
           and_then (catch_unwind ''response decryption panicked'' (decode_response_simplepir Y scenario seed (rsp_body resp))) (\<lambda>decoded.
           ensure (length decoded \<ge> expected_row_bytes) ''decoded response too short''
             (Ok (take expected_row_bytes decoded, tier_timing clk pqr pub_params resp))))))"

definition fetch_proof_with_timing ::
  "'p::len poseidon_constants \<Rightarrow> net \<Rightarrow> ypir_client \<Rightarrow> nat \<Rightarrow> 'p PirClient \<Rightarrow> 'p fp \<Rightarrow> query_clock \<Rightarrow> f64 \<Rightarrow>
   ('p ImtProofData \<times> NoteTiming) result" where
  "fetch_proof_with_timing P N Y seed self nullifier clk total_ms =
     (let tier0_result = catch_unwind ''Tier 0 processing panicked''
            (process_tier0 (pc_tier0 self) (pc_layout self) nullifier (replicate TREE_DEPTH 0));
          query_row = (case tier0_result of Inr (s1, _) \<Rightarrow> s1 | Inl _ \<Rightarrow> DUMMY_TIER1_ROW);
          tier1_result = ypir_query_timed N Y (pc_server_url self) (pc_tier1_scenario self) ''tier1'' seed query_row
            (pc_tier1_row_bytes self) clk
      in and_then tier0_result (\<lambda>(s1, pth).
         and_then tier1_result (\<lambda>(tier1_row, tier1_timing).
         and_then (process_tier1_and_build P
            \<lparr>in_tier1_row = tier1_row, in_layout = pc_layout self, in_row_idx = s1,
             in_num_ranges = pc_num_ranges self, in_nullifier = nullifier,
             in_empty_hashes = pc_empty_hashes self, in_circuit_root = pc_circuit_root self\<rparr> pth) (\<lambda>pr.
         Ok (pr, \<lparr>nt_tier1 = tier1_timing, nt_total_ms = total_ms\<rparr>)))))"

section \<open>Timing does not change results\<close>

lemma dispatch_query_timed_same:
  "fst (dispatch_query_timed Y ts body ctr clock) = fst (dispatch_query Y ts body ctr)"
  "map_sum id (\<lambda>r. (rsp_status r, rsp_body r)) (snd (dispatch_query_timed Y ts body ctr clock)) =
   map_sum id (\<lambda>r. (rsp_status r, rsp_body r)) (snd (dispatch_query Y ts body ctr))"
  by (auto simp: dispatch_query_timed_def dispatch_query_def answer_query_timed_def Let_def split: sum.splits error.splits)

lemma map_sum_and_then: "map_sum id g (and_then r f) = and_then r (\<lambda>x. map_sum id g (f x))"
  by (cases r) auto

lemma and_then_Ok_id: "and_then r (\<lambda>x. Inr x) = r"
  by (cases r) auto

lemma map_sum_ensure: "map_sum id g (ensure b m r) = ensure b m (map_sum id g r)"
  by (simp add: ensure_def)

lemma ypir_query_timed_same:
  "map_sum id fst (ypir_query_timed N Y url scn tier seed row len clk) = fst (ypir_query N Y url scn tier seed row len)"
  by (auto simp: ypir_query_timed_def ypir_query_def Let_def map_sum_and_then map_sum_ensure case_prod_unfold intro!: and_then_cong)

lemma fetch_proof_with_timing_same:
  "map_sum id fst (fetch_proof_with_timing P N Y seed c v clk t) = fetch_proof P N Y seed c v"
proof -
  have row: "and_then (map_sum id fst r) g = and_then r (\<lambda>x. g (fst x))" for r :: "(bytes \<times> TierTiming) result" and g
    by (cases r) auto
  show ?thesis
    unfolding fetch_proof_def fetch_proof_inner_def fetch_proof_with_timing_def Let_def case_prod_unfold fst_conv snd_conv
      map_sum_and_then map_sum.simps ypir_query_timed_same [symmetric, where clk = clk] row
    by (simp add: and_then_Ok_id)
qed

section \<open>The headers read back\<close>

text \<open>A decimal parses to the double nearest to its value.\<close>

lemma parse_f64_decimal:
  assumes w: "w \<noteq> []" "list_all is_ascii_digit w" and f: "list_all is_ascii_digit f"
  shows "parse_f64 (w @ CHR ''.'' # f) = Some (fround (of_nat (digits_val (w @ f)) * 10 powi (- int (length f))))"
proof -
  have take: "takeWhile is_ascii_digit (w @ CHR ''.'' # f) = w" "dropWhile is_ascii_digit (w @ CHR ''.'' # f) = CHR ''.'' # f"
    using w(2) by (simp_all add: takeWhile_append dropWhile_append list_all_iff is_ascii_digit_def)
  have take_f: "takeWhile is_ascii_digit f = f" "dropWhile is_ascii_digit f = []"
    using f by (simp_all add: takeWhile_eq_all_conv dropWhile_eq_Nil_conv list_all_iff)
  have num: "parse_number (w @ CHR ''.'' # f) = Some (of_nat (digits_val (w @ f)) * 10 powi (- int (length f)))"
    unfolding parse_number_def Let_def take by (simp add: take_f w(1) parse_exponent_def)
  obtain c cs where c: "w = c # cs" "is_ascii_digit c" using w by (cases w) auto
  then have sign: "split_sign (w @ CHR ''.'' # f) = (False, w @ CHR ''.'' # f)"
    by (auto simp: split_sign_def is_ascii_digit_def)
  have "to_ascii_lowercase (w @ CHR ''.'' # f) = c # to_ascii_lowercase (cs @ CHR ''.'' # f)"
    using c by (auto simp: to_ascii_lowercase_def is_ascii_digit_def)
  moreover have "c \<noteq> CHR ''i''" "c \<noteq> CHR ''n''" using c(2) by (auto simp: is_ascii_digit_def)
  ultimately show ?thesis by (simp add: parse_f64_def sign num)
qed

lemma parse_fmt_fixed:
  assumes "0 \<le> x"
  shows "parse_f64 (fmt_fixed 3 (Fin x)) = Some (fround (of_int (round_half_even (x * 1000)) / 1000))"
proof -
  define n where "n = nat (round_half_even (x * 1000))"
  have n: "(of_nat n :: rat) = of_int (round_half_even (x * 1000))" using round_half_even_nonneg [of "x * 1000"] assms by (simp add: n_def)
  have s: "fmt_fixed 3 (Fin x) = show_nat (n div 1000) @ CHR ''.'' # pad_left 3 (CHR ''0'') (show_nat (n mod 1000))"
    using assms by (simp add: fmt_fixed_def n_def Let_def)
  have f: "length (pad_left 3 (CHR ''0'') (show_nat (n mod 1000))) = 3" "list_all is_ascii_digit (pad_left 3 (CHR ''0'') (show_nat (n mod 1000)))"
    "digits_val (pad_left 3 (CHR ''0'') (show_nat (n mod 1000))) = n mod 1000"
    using pad_left_digits [of "n mod 1000" 3] by simp_all
  have sd: "show_nat (n div 1000) \<noteq> []" "list_all is_ascii_digit (show_nat (n div 1000))" "digits_val (show_nat (n div 1000)) = n div 1000"
    using show_nat_digits [of "n div 1000"] by auto
  have d: "digits_val (show_nat (n div 1000) @ pad_left 3 (CHR ''0'') (show_nat (n mod 1000))) = n"
    unfolding digits_val_append f(1,3) sd(3) by simp
  have e: "of_nat n * 10 powi (- int 3) = (of_int (round_half_even (x * 1000)) / 1000 :: rat)"
    unfolding n by (simp add: power_int_minus)
  show ?thesis unfolding s parse_f64_decimal [OF sd(1,2) f(2), unfolded d f(1)] e by (rule refl)
qed

lemma numeral_header_ok: "list_all numeral_char s \<Longrightarrow> header_value_ok s"
  by (auto simp: header_value_ok_def list_all_iff numeral_char_def is_ascii_digit_def)

lemma timing_header_values [simp]: "header_value_ok (fmt_fixed k x)" "header_value_ok (show_nat n)"
  using fmt_fixed_chars [of k x] show_nat_digits [of n] list_all_numeral by (simp_all add: numeral_header_ok)

lemma write_timing_headers_eq:
  "write_timing_headers [(''content-type'', ct)] req_id timing =
     [(''content-type'', ct), (''x-pir-req-id'', show_nat (unat req_id)),
      (''x-pir-server-total-ms'', fmt_fixed 3 (qt_total_ms timing)),
      (''x-pir-server-validate-ms'', fmt_fixed 3 (qt_validate_ms timing)),
      (''x-pir-server-decode-copy-ms'', fmt_fixed 3 (qt_decode_copy_ms timing)),
      (''x-pir-server-compute-ms'', fmt_fixed 3 (qt_online_compute_ms timing)),
      (''x-pir-server-response-bytes'', show_nat (qt_response_bytes timing))]"
  by (simp add: write_timing_headers_def header_insert_def)

lemma timing_headers_found:
  fixes req_id timing ct
  defines "hs \<equiv> write_timing_headers [(''content-type'', ct)] req_id timing"
  shows "header_find hs ''x-pir-req-id'' = Some (show_nat (unat req_id))"
    and "header_find hs ''x-pir-server-total-ms'' = Some (fmt_fixed 3 (qt_total_ms timing))"
    and "header_find hs ''x-pir-server-validate-ms'' = Some (fmt_fixed 3 (qt_validate_ms timing))"
    and "header_find hs ''x-pir-server-decode-copy-ms'' = Some (fmt_fixed 3 (qt_decode_copy_ms timing))"
    and "header_find hs ''x-pir-server-compute-ms'' = Some (fmt_fixed 3 (qt_online_compute_ms timing))"
  by (simp_all add: hs_def write_timing_headers_eq header_find_def eq_ignore_ascii_case_def to_ascii_lowercase_def)

lemma u64_bound: "unat (x :: u64) < 2 ^ 64"
  using unsigned_less [of x, where ?'a = nat] by simp

lemma parse_u64_show: "n < 2 ^ 64 \<Longrightarrow> parse_u64 (show_nat n) = Some n"
  using show_nat_digits [of n] by (cases "show_nat n") (auto simp: parse_u64_def is_ascii_digit_def)

text \<open>A duration that was read back: the nearest double of a decimal within half a microsecond.\<close>

definition read_back :: "f64 \<Rightarrow> f64 option \<Rightarrow> bool" where
  "read_back measured read \<longleftrightarrow> (\<exists>x y. measured = Fin x \<and> read = Some (fround y) \<and> \<bar>y - x\<bar> \<le> 1 / 2000)"

lemma read_back_fixed: "0 \<le> x \<Longrightarrow> read_back (Fin x) (parse_f64 (fmt_fixed 3 (Fin x)))"
proof -
  assume x: "0 \<le> x"
  have "\<bar>of_int (round_half_even (x * 1000)) - x * 1000\<bar> \<le> 1 / 2" by (rule round_half_even_error)
  then have "\<bar>of_int (round_half_even (x * 1000)) / 1000 - x\<bar> \<le> 1 / 2000" by (simp add: abs_le_iff field_simps)
  then show ?thesis using parse_fmt_fixed [OF x] by (auto simp: read_back_def)
qed

text \<open>
  C35. Timing over the wire. When the server answers a query, with measured durations that are
  finite and not negative, the client's timing record has the number of the request and, for each of the four
  stages, the double nearest to a decimal within half a microsecond of the measured
  milliseconds; and timing changes neither the status nor the body of the response.
\<close>

theorem timing_headers_round_trip:
  assumes "dispatch_query_timed Y ts body ctr clock = (ctr', Ok resp)" "rsp_status resp = 200"
    and "\<forall>t \<in> {qt_total_ms clock, qt_validate_ms clock, qt_decode_copy_ms clock, qt_online_compute_ms clock}. case t of Fin x \<Rightarrow> 0 \<le> x | _ \<Rightarrow> False"
  shows "tt_server_req_id (tier_timing clk q pp resp) = Some (next_req_id ctr + 1) \<and>
    read_back (qt_total_ms clock) (tt_server_total_ms (tier_timing clk q pp resp)) \<and>
    read_back (qt_validate_ms clock) (tt_server_validate_ms (tier_timing clk q pp resp)) \<and>
    read_back (qt_decode_copy_ms clock) (tt_server_decode_copy_ms (tier_timing clk q pp resp)) \<and>
    read_back (qt_online_compute_ms clock) (tt_server_compute_ms (tier_timing clk q pp resp)) \<and>
    (\<exists>resp'. snd (dispatch_query Y ts body ctr) = Ok resp' \<and> rsp_status resp' = 200 \<and> rsp_body resp' = rsp_body resp)"
proof -
  obtain response where a: "answer_query Y ts body = Ok response"
    and hs: "rsp_headers resp = write_timing_headers [(''content-type'', ''application/octet-stream'')] (next_req_id ctr + 1)
      (clock\<lparr>qt_response_bytes := length response\<rparr>)" and rb: "rsp_body resp = response"
    using assms(1,2)
    by (cases "answer_query Y ts body") (auto simp: dispatch_query_timed_def answer_query_timed_def Let_def split: error.splits)
  obtain x1 x2 x3 x4 where x: "qt_total_ms clock = Fin x1" "0 \<le> x1" "qt_validate_ms clock = Fin x2" "0 \<le> x2"
    "qt_decode_copy_ms clock = Fin x3" "0 \<le> x3" "qt_online_compute_ms clock = Fin x4" "0 \<le> x4"
    using assms(3) by (auto split: f64.splits)
  have "unat (next_req_id ctr + 1) < 2 ^ 64" by (rule u64_bound)
  then show ?thesis
    using x(2,4,6,8)
    by (simp add: tier_timing_def Let_def hs parse_header_f64_def parse_header_u64_def timing_headers_found x(1,3,5,7) read_back_fixed
        parse_u64_show a rb dispatch_query_def)
qed

theorem timing_headers_round_trip_witness:
  "\<exists>resp. snd (dispatch_query_timed bit_ypir bit_server (serialize_ypir_query [5] [7]) \<lparr>next_req_id = 41, inflight_requests = 0\<rparr>
       \<lparr>qt_validate_ms = Fin (1 / 8), qt_decode_copy_ms = Fin (1 / 3), qt_online_compute_ms = Fin 7, qt_total_ms = Fin (15 / 2), qt_response_bytes = 0\<rparr>) = Ok resp \<and>
     tt_server_req_id (tier_timing \<lparr>qc_gen_ms = Fin 1, qc_send_ms = Fin 9, qc_rtt_ms = Fin 10, qc_decode_ms = Fin 2\<rparr> [5] [7] resp) = Some 42 \<and>
     read_back (Fin (15 / 2)) (tt_server_total_ms (tier_timing \<lparr>qc_gen_ms = Fin 1, qc_send_ms = Fin 9, qc_rtt_ms = Fin 10, qc_decode_ms = Fin 2\<rparr> [5] [7] resp))"
proof -
  let ?clock = "\<lparr>qt_validate_ms = Fin (1 / 8), qt_decode_copy_ms = Fin (1 / 3), qt_online_compute_ms = Fin 7, qt_total_ms = Fin (15 / 2), qt_response_bytes = 0\<rparr>"
  let ?ctr = "\<lparr>next_req_id = 41, inflight_requests = 0\<rparr>"
  have "answer_query bit_ypir bit_server (serialize_ypir_query [5] [7]) = Ok [1]"
    using answer_serialized [of bit_ypir bit_server "[5]" "[7]"] bit_dims by (simp add: bit_ypir_def bit_server_def)
  then obtain ctr' resp where d: "dispatch_query_timed bit_ypir bit_server (serialize_ypir_query [5] [7]) ?ctr ?clock = (ctr', Ok resp)" "rsp_status resp = 200"
    by (simp add: dispatch_query_timed_def answer_query_timed_def Let_def)
  have clock: "\<forall>t \<in> {qt_total_ms ?clock, qt_validate_ms ?clock, qt_decode_copy_ms ?clock, qt_online_compute_ms ?clock}. case t of Fin x \<Rightarrow> 0 \<le> x | _ \<Rightarrow> False" by simp
  from timing_headers_round_trip [OF d clock, of "\<lparr>qc_gen_ms = Fin 1, qc_send_ms = Fin 9, qc_rtt_ms = Fin 10, qc_decode_ms = Fin 2\<rparr>" "[5]" "[7]"] d(1)
  show ?thesis by (intro exI [of _ resp]) simp
qed

end
