(* ===== verification/Load.thy ===== *)
theory Load
  imports Timing Built_Tree File_Store "HOL-Library.Multiset"
begin

text \<open>
  The load generator, \<^verbatim>\<open>pir/test/src/load.rs\<close>: the pool of query values, one request, the worker and
  spawner tasks of a phase as a step relation, the collector of samples, and the checks of the
  run. The histogram library is the parameter \<open>G\<close>, the random numbers, the clock readings and the text of an error are
  arguments, and so is the order in which the hash map of error classes is iterated.
  Progress output and the JSON file are left out.
  The lemmas show that every issued request is counted exactly once whatever the
  interleaving, that the number of requests in flight respects the configured bound, and that a run against a server of the
  snapshot the nullifiers belong to has no errors.
\<close>

section \<open>Samples\<close>

record load_config =
  lc_url :: string
  lc_expected_layout :: PirLayout
  lc_concurrency :: usize
  lc_rps :: "f64 option"
  lc_max_inflight :: usize
  lc_no_verify :: bool
  lc_max_error_rate :: f64
  lc_slo_p99_ms :: "f64 option"

datatype ErrorClass = Timeout | Http503 | VerifyFail | Other

fun class_name :: "ErrorClass \<Rightarrow> string" where
  "class_name Timeout = ''timeout''"
| "class_name Http503 = ''http_503''"
| "class_name VerifyFail = ''verify_fail''"
| "class_name Other = ''other''"

definition classify_error :: "string \<Rightarrow> ErrorClass" where
  "classify_error msg =
     (if contains msg ''timed out'' \<or> contains msg ''timeout'' then Timeout
      else if contains msg ''HTTP 503'' then Http503
      else Other)"

record Sample =
  sm_total_ms :: f64
  sm_tier1_rtt_ms :: f64
  sm_tier1_server_ms :: "f64 option"
  sm_success :: bool
  sm_error_class :: "ErrorClass option"

text \<open>
  One request: the value of the pool for its number, the retrieval, and the sample. \<open>text_of\<close> prints
  an error with its causes; \<open>elapsed_ms\<close> is the clock at the end.
\<close>

definition do_request ::
  "'p::len poseidon_constants \<Rightarrow> net \<Rightarrow> ypir_client \<Rightarrow> (error \<Rightarrow> string) \<Rightarrow> nat \<Rightarrow> 'p PirClient \<Rightarrow> 'p fp list \<Rightarrow> nat \<Rightarrow> bool \<Rightarrow>
   query_clock \<Rightarrow> f64 \<Rightarrow> f64 \<Rightarrow> Sample result" where
  "do_request P N Y text_of seed client pool idx no_verify clk total_ms elapsed_ms =
     assert_panic (pool \<noteq> []) ''attempt to calculate the remainder with a divisor of zero''
     (let value = pool ! (idx mod length pool)
      in case fetch_proof_with_timing P N Y seed client value clk total_ms of
           Inr (pr, timing) \<Rightarrow>
             if \<not> (no_verify \<or> verify P pr value)
             then Ok \<lparr>sm_total_ms = elapsed_ms, sm_tier1_rtt_ms = tt_rtt_ms (nt_tier1 timing),
                      sm_tier1_server_ms = tt_server_total_ms (nt_tier1 timing), sm_success = False, sm_error_class = Some VerifyFail\<rparr>
             else Ok \<lparr>sm_total_ms = nt_total_ms timing, sm_tier1_rtt_ms = tt_rtt_ms (nt_tier1 timing),
                      sm_tier1_server_ms = tt_server_total_ms (nt_tier1 timing), sm_success = True, sm_error_class = None\<rparr>
         | Inl (Panic m) \<Rightarrow> Inl (Panic m)
         | Inl e \<Rightarrow>
             Ok \<lparr>sm_total_ms = elapsed_ms, sm_tier1_rtt_ms = Fin 0, sm_tier1_server_ms = None, sm_success = False,
                 sm_error_class = Some (classify_error (text_of e))\<rparr>)"

text \<open>The pool: one above the lower bound of ranges drawn by \<open>gen_range\<close>, which panics on an empty list.\<close>

definition build_query_pool :: "'p::len fp3 list \<Rightarrow> usize \<Rightarrow> (nat \<Rightarrow> usize) \<Rightarrow> 'p fp list result" where
  "build_query_pool ranges n gen_range =
     assert_panic (ranges \<noteq> [] \<or> n = 0) ''cannot sample empty range''
     (Ok (map (\<lambda>i. fst (ranges ! gen_range i) + 1) [0..<n]))"

section \<open>Collecting\<close>

text \<open>\<open>f64 as u64\<close> saturates.\<close>

fun f_to_u64 :: "f64 \<Rightarrow> u64" where
  "f_to_u64 (Fin x) = (if x < 0 then 0 else if x \<ge> 2 ^ 64 then - 1 else word_of_int \<lfloor>x\<rfloor>)"
| "f_to_u64 PosInf = - 1"
| "f_to_u64 NegInf = 0"
| "f_to_u64 NaN = 0"

definition f_of_nat :: "nat \<Rightarrow> f64" where
  "f_of_nat n = fround (of_nat n)"

text \<open>The histogram library: recording a value fails when it is out of range.\<close>

record 'h hdr =
  hdr_new :: 'h
  hdr_record :: "u64 \<Rightarrow> 'h \<Rightarrow> 'h option"
  hdr_len :: "'h \<Rightarrow> nat"
  hdr_value_at_quantile :: "rat \<Rightarrow> 'h \<Rightarrow> u64"
  hdr_max :: "'h \<Rightarrow> u64"

definition hdr_try :: "'h hdr \<Rightarrow> f64 \<Rightarrow> 'h \<Rightarrow> 'h" where
  "hdr_try G ms h = (case hdr_record G (f_to_u64 ms) h of None \<Rightarrow> h | Some h' \<Rightarrow> h')"

record 'h StatsCollector =
  sc_end_to_end :: 'h
  sc_tier1_rtt :: 'h
  sc_tier1_server :: 'h
  sc_ok_count :: nat
  sc_err_count :: nat
  sc_error_counts :: "ErrorClass \<rightharpoonup> nat"

definition stats_new :: "'h hdr \<Rightarrow> 'h StatsCollector" where
  "stats_new G = \<lparr>sc_end_to_end = hdr_new G, sc_tier1_rtt = hdr_new G, sc_tier1_server = hdr_new G,
     sc_ok_count = 0, sc_err_count = 0, sc_error_counts = Map.empty\<rparr>"

definition stats_record :: "'h hdr \<Rightarrow> Sample \<Rightarrow> 'h StatsCollector \<Rightarrow> 'h StatsCollector" where
  "stats_record G sample self =
     (let self = self\<lparr>sc_end_to_end := hdr_try G (sm_total_ms sample) (sc_end_to_end self)\<rparr>
      in if sm_success sample then
           let self = self\<lparr>sc_ok_count := sc_ok_count self + 1, sc_tier1_rtt := hdr_try G (sm_tier1_rtt_ms sample) (sc_tier1_rtt self)\<rparr>
           in case sm_tier1_server_ms sample of
                None \<Rightarrow> self
              | Some ms \<Rightarrow> self\<lparr>sc_tier1_server := hdr_try G ms (sc_tier1_server self)\<rparr>
         else
           let self = self\<lparr>sc_err_count := sc_err_count self + 1\<rparr>
           in case sm_error_class sample of
                None \<Rightarrow> self
              | Some class \<Rightarrow>
                  self\<lparr>sc_error_counts := (sc_error_counts self)(class \<mapsto>
                    (case sc_error_counts self class of None \<Rightarrow> 0 | Some n \<Rightarrow> n) + 1)\<rparr>)"

record StageSummary =
  st_name :: string
  st_n :: nat
  st_p50_ms :: f64
  st_p90_ms :: f64
  st_p95_ms :: f64
  st_p99_ms :: f64
  st_p999_ms :: f64
  st_max_ms :: f64

definition stage_summary :: "'h hdr \<Rightarrow> string \<Rightarrow> 'h \<Rightarrow> StageSummary" where
  "stage_summary G name h =
     (let quantile = (\<lambda>q. f_of_nat (unat (hdr_value_at_quantile G q h)))
      in \<lparr>st_name = name, st_n = hdr_len G h, st_p50_ms = quantile (50 / 100), st_p90_ms = quantile (90 / 100),
          st_p95_ms = quantile (95 / 100), st_p99_ms = quantile (99 / 100), st_p999_ms = quantile (999 / 1000),
          st_max_ms = f_of_nat (unat (hdr_max G h))\<rparr>)"

record LoadSummary =
  sum_url :: string
  sum_poly_len :: usize
  sum_duration_s :: f64
  sum_concurrency :: usize
  sum_completed :: nat
  sum_errors :: nat
  sum_error_rate :: f64
  sum_stages :: "StageSummary list"
  sum_error_classes :: "(string \<times> nat) list"

definition into_summary ::
  "'h hdr \<Rightarrow> ErrorClass list \<Rightarrow> 'h StatsCollector \<Rightarrow> string \<Rightarrow> usize \<Rightarrow> f64 \<Rightarrow> usize \<Rightarrow> LoadSummary" where
  "into_summary G order self url degree duration_s concurrency =
     (let completed = sc_ok_count self + sc_err_count self;
          error_rate = (if completed > 0 then f_div (f_of_nat (sc_err_count self)) (f_of_nat completed) else Fin 0);
          stages = [stage_summary G ''end-to-end'' (sc_end_to_end self), stage_summary G ''tier1_rtt'' (sc_tier1_rtt self)] @
            (if hdr_len G (sc_tier1_server self) \<noteq> 0 then [stage_summary G ''tier1_srvr'' (sc_tier1_server self)] else []);
          error_classes = sort_key (\<lambda>e. - int (snd e))
            (List.map_filter (\<lambda>class. map_option (Pair (class_name class)) (sc_error_counts self class)) order)
      in \<lparr>sum_url = url, sum_poly_len = degree, sum_duration_s = duration_s, sum_concurrency = concurrency,
          sum_completed = completed, sum_errors = sc_err_count self, sum_error_rate = error_rate,
          sum_stages = stages, sum_error_classes = error_classes\<rparr>)"

text \<open>The checks at the end of the run.\<close>

definition slo_check :: "load_config \<Rightarrow> LoadSummary \<Rightarrow> unit result" where
  "slo_check cfg summary =
     (let failed = f_lt (lc_max_error_rate cfg) (sum_error_rate summary);
          failed = (failed \<or>
            (case lc_slo_p99_ms cfg of
               None \<Rightarrow> False
             | Some slo \<Rightarrow> (case sum_stages summary of [] \<Rightarrow> False | e2e # _ \<Rightarrow> f_lt slo (st_p99_ms e2e))))
      in if failed then Bail ''SLO check failed'' else Ok ())"


section \<open>A phase\<close>

text \<open>
  The tasks of a phase. In the closed loop each of the workers takes numbers until the deadline; in the open loop the spawner
  waits for a permit of the semaphore before it starts a task, which returns the permit at its end.
  A task reserves its number, counts itself in flight, runs the request, counts itself out, and
  sends the sample. The counters are natural numbers; \<open>sample n\<close> is the outcome of request \<open>n\<close>.
\<close>

datatype task = Ready | Reserved nat | Running nat | Sending nat | Releasing | Finished

datatype spawner = Checking | Waiting | Stopped

record load_state =
  ls_tasks :: "task list"
  ls_spawner :: spawner
  ls_permits :: nat
  ls_request_idx :: nat
  ls_inflight :: nat
  ls_channel :: "Sample list"
  ls_expired :: bool

definition load_start :: "load_config \<Rightarrow> load_state" where
  "load_start cfg =
     (case lc_rps cfg of
        None \<Rightarrow> \<lparr>ls_tasks = replicate (lc_concurrency cfg) Ready, ls_spawner = Stopped, ls_permits = 0,
          ls_request_idx = 0, ls_inflight = 0, ls_channel = [], ls_expired = False\<rparr>
      | Some _ \<Rightarrow> \<lparr>ls_tasks = [], ls_spawner = Checking, ls_permits = lc_max_inflight cfg,
          ls_request_idx = 0, ls_inflight = 0, ls_channel = [], ls_expired = False\<rparr>)"

abbreviation set_task :: "nat \<Rightarrow> task \<Rightarrow> load_state \<Rightarrow> load_state" where
  "set_task i t s \<equiv> s\<lparr>ls_tasks := (ls_tasks s)[i := t]\<rparr>"

inductive load_step :: "load_config \<Rightarrow> (nat \<Rightarrow> Sample) \<Rightarrow> load_state \<Rightarrow> load_state \<Rightarrow> bool"
  for cfg :: load_config and sample :: "nat \<Rightarrow> Sample" where
  expire: "load_step cfg sample s (s\<lparr>ls_expired := True\<rparr>)"
| start: "i < length (ls_tasks s) \<Longrightarrow> ls_tasks s ! i = Ready \<Longrightarrow> \<not> ls_expired s \<Longrightarrow>
     load_step cfg sample s ((set_task i (Reserved (ls_request_idx s)) s)\<lparr>ls_request_idx := ls_request_idx s + 1\<rparr>)"
| stop: "i < length (ls_tasks s) \<Longrightarrow> ls_tasks s ! i = Ready \<Longrightarrow> ls_expired s \<Longrightarrow> load_step cfg sample s (set_task i Finished s)"
| check: "ls_spawner s = Checking \<Longrightarrow> \<not> ls_expired s \<Longrightarrow> load_step cfg sample s (s\<lparr>ls_spawner := Waiting\<rparr>)"
| stop_spawning: "ls_spawner s = Checking \<Longrightarrow> ls_expired s \<Longrightarrow> load_step cfg sample s (s\<lparr>ls_spawner := Stopped\<rparr>)"
| spawn: "ls_spawner s = Waiting \<Longrightarrow> 0 < ls_permits s \<Longrightarrow>
     load_step cfg sample s (s\<lparr>ls_spawner := Checking, ls_permits := ls_permits s - 1,
       ls_tasks := ls_tasks s @ [Reserved (ls_request_idx s)], ls_request_idx := ls_request_idx s + 1\<rparr>)"
| run: "i < length (ls_tasks s) \<Longrightarrow> ls_tasks s ! i = Reserved n \<Longrightarrow>
     load_step cfg sample s ((set_task i (Running n) s)\<lparr>ls_inflight := ls_inflight s + 1\<rparr>)"
| answered: "i < length (ls_tasks s) \<Longrightarrow> ls_tasks s ! i = Running n \<Longrightarrow>
     load_step cfg sample s ((set_task i (Sending n) s)\<lparr>ls_inflight := ls_inflight s - 1\<rparr>)"
| send: "i < length (ls_tasks s) \<Longrightarrow> ls_tasks s ! i = Sending n \<Longrightarrow>
     load_step cfg sample s ((set_task i (if lc_rps cfg = None then Ready else Releasing) s)\<lparr>ls_channel := ls_channel s @ [sample n]\<rparr>)"
| release: "i < length (ls_tasks s) \<Longrightarrow> ls_tasks s ! i = Releasing \<Longrightarrow>
     load_step cfg sample s ((set_task i Finished s)\<lparr>ls_permits := ls_permits s + 1\<rparr>)"

definition load_done :: "load_state \<Rightarrow> bool" where
  "load_done s \<longleftrightarrow> ls_spawner s = Stopped \<and> list_all (\<lambda>t. t = Finished) (ls_tasks s)"

text \<open>The collector reads the channel after the tasks have ended; a warm-up phase drops the samples.\<close>

definition collect_phase :: "'h hdr \<Rightarrow> ErrorClass list \<Rightarrow> load_config \<Rightarrow> f64 \<Rightarrow> bool \<Rightarrow> load_state \<Rightarrow> LoadSummary" where
  "collect_phase G order cfg duration_s collect_stats s =
     into_summary G order
       (if collect_stats then fold (stats_record G) (ls_channel s) (stats_new G) else stats_new G)
       (lc_url cfg) (poly_len (lc_expected_layout cfg)) duration_s (lc_concurrency cfg)"

section \<open>Every request is counted once\<close>

fun task_num :: "task \<Rightarrow> nat multiset" where
  "task_num (Reserved n) = {#n#}"
| "task_num (Running n) = {#n#}"
| "task_num (Sending n) = {#n#}"
| "task_num _ = {#}"

definition is_running :: "task \<Rightarrow> nat" where
  "is_running t = (case t of Running _ \<Rightarrow> 1 | _ \<Rightarrow> 0)"

definition holds_permit :: "task \<Rightarrow> nat" where
  "holds_permit t = (if t = Finished then 0 else 1)"

lemma sum_list_set:
  fixes f :: "'a \<Rightarrow> 'b::comm_monoid_add"
  shows "i < length xs \<Longrightarrow> sum_list (map f (xs[i := y])) + f (xs ! i) = sum_list (map f xs) + f y"
proof (induction xs arbitrary: i)
  case (Cons x xs)
  then show ?case by (cases i) (simp_all add: ac_simps)
qed simp

definition load_inv :: "load_config \<Rightarrow> (nat \<Rightarrow> Sample) \<Rightarrow> load_state \<Rightarrow> bool" where
  "load_inv cfg sample s \<longleftrightarrow>
     (\<exists>sent. ls_channel s = map sample sent \<and> mset sent + sum_list (map task_num (ls_tasks s)) = mset [0..<ls_request_idx s]) \<and>
     ls_inflight s = sum_list (map is_running (ls_tasks s)) \<and>
     (if lc_rps cfg = None then length (ls_tasks s) = lc_concurrency cfg \<and> Releasing \<notin> set (ls_tasks s) \<and> ls_spawner s = Stopped
      else Ready \<notin> set (ls_tasks s) \<and> ls_permits s + sum_list (map holds_permit (ls_tasks s)) = lc_max_inflight cfg)"

lemma load_inv_start: "load_inv cfg sample (load_start cfg)"
proof -
  have "sum_list (replicate n {#}) = {#}" for n by (induction n) auto
  then show ?thesis by (auto simp: load_inv_def load_start_def is_running_def split: option.splits)
qed

text \<open>A step of one task: what it changes of the three sums.\<close>

lemma set_task_sums:
  assumes "i < length ts" "ts ! i = a"
  shows "sum_list (map task_num (ts[i := b])) + task_num a = sum_list (map task_num ts) + task_num b"
    and "sum_list (map is_running (ts[i := b])) + is_running a = sum_list (map is_running ts) + is_running b"
    and "sum_list (map holds_permit (ts[i := b])) + holds_permit a = sum_list (map holds_permit ts) + holds_permit b"
  using sum_list_set [OF assms(1), where f = task_num and y = b] sum_list_set [OF assms(1), where f = is_running and y = b]
    sum_list_set [OF assms(1), where f = holds_permit and y = b] assms
  by auto

lemma load_inv_step:
  assumes "load_step cfg sample s s'" "load_inv cfg sample s"
  shows "load_inv cfg sample s'"
proof -
  obtain sent where sent: "ls_channel s = map sample sent" "mset sent + sum_list (map task_num (ls_tasks s)) = mset [0..<ls_request_idx s]"
    and fl: "ls_inflight s = sum_list (map is_running (ls_tasks s))"
    and mode: "if lc_rps cfg = None then length (ls_tasks s) = lc_concurrency cfg \<and> Releasing \<notin> set (ls_tasks s) \<and> ls_spawner s = Stopped
      else Ready \<notin> set (ls_tasks s) \<and> ls_permits s + sum_list (map holds_permit (ls_tasks s)) = lc_max_inflight cfg"
    using assms(2) unfolding load_inv_def by blast
  note defs = is_running_def holds_permit_def
  from assms(1) show ?thesis
  proof cases
    case expire
    then show ?thesis using assms(2) by (simp add: load_inv_def)
  next
    case (start i)
    note u = set_task_sums [OF start(2,3), of "Reserved (ls_request_idx s)"]
    have "lc_rps cfg = None" using mode nth_mem [OF start(2)] start(3) by (auto split: if_splits)
    then show ?thesis unfolding load_inv_def using u(1,2) sent fl mode
      by (auto simp: start(1) defs intro!: exI [of _ sent] dest!: set_update_subset_insert [THEN subsetD])
  next
    case (stop i)
    note u = set_task_sums [OF stop(2,3), of Finished]
    have "lc_rps cfg = None" using mode nth_mem [OF stop(2)] stop(3) by (auto split: if_splits)
    then show ?thesis unfolding load_inv_def using u(1,2) sent fl mode
      by (auto simp: stop(1) defs intro!: exI [of _ sent] dest!: set_update_subset_insert [THEN subsetD])
  next
    case check
    then show ?thesis using assms(2) by (auto simp: load_inv_def split: if_splits)
  next
    case stop_spawning
    then show ?thesis using assms(2) by (auto simp: load_inv_def split: if_splits)
  next
    case spawn
    then have "lc_rps cfg \<noteq> None" using mode by (auto split: if_splits)
    then show ?thesis unfolding load_inv_def using sent fl mode spawn(3)
      by (auto simp: spawn(1) defs intro!: exI [of _ sent] dest!: set_update_subset_insert [THEN subsetD])
  next
    case (run i n)
    note u = set_task_sums [OF run(2,3), of "Running n"]
    show ?thesis unfolding load_inv_def using u(1-3) sent fl mode
      by (auto simp: run(1) defs intro!: exI [of _ sent] dest!: set_update_subset_insert [THEN subsetD] split: if_splits)
  next
    case (answered i n)
    note u = set_task_sums [OF answered(2,3), of "Sending n"]
    show ?thesis unfolding load_inv_def using u(1-3) sent fl mode
      by (auto simp: answered(1) defs intro!: exI [of _ sent] dest!: set_update_subset_insert [THEN subsetD] split: if_splits)
  next
    case (send i n)
    note u = set_task_sums [OF send(2,3), of "if lc_rps cfg = None then Ready else Releasing"]
    have "mset (sent @ [n]) + sum_list (map task_num ((ls_tasks s)[i := (if lc_rps cfg = None then Ready else Releasing)])) = mset [0..<ls_request_idx s]"
      using u(1) [symmetric] sent(2) by (auto split: if_splits)
    then show ?thesis unfolding load_inv_def using u(2,3) sent fl mode
      by (intro conjI exI [of _ "sent @ [n]"]) (auto simp: send(1) defs dest!: set_update_subset_insert [THEN subsetD] split: if_splits)
  next
    case (release i)
    note u = set_task_sums [OF release(2,3), of Finished]
    have "lc_rps cfg \<noteq> None" using mode nth_mem [OF release(2)] release(3) by (auto split: if_splits)
    then show ?thesis unfolding load_inv_def using u(1-3) sent fl mode
      by (auto simp: release(1) defs intro!: exI [of _ sent] dest!: set_update_subset_insert [THEN subsetD])
  qed
qed

interpretation load_run: step_invariant "load_step cfg sample" "load_inv cfg sample"
  by unfold_locales (rule load_inv_step)


lemma stats_record_counts:
  "sc_ok_count (stats_record G x c) = sc_ok_count c + (if sm_success x then 1 else 0)"
  "sc_err_count (stats_record G x c) = sc_err_count c + (if sm_success x then 0 else 1)"
  by (simp_all add: stats_record_def Let_def split: option.splits)

lemma stats_fold_counts:
  "sc_ok_count (fold (stats_record G) xs c) = sc_ok_count c + length (filter sm_success xs)"
  "sc_err_count (fold (stats_record G) xs c) = sc_err_count c + length (filter (\<lambda>x. \<not> sm_success x) xs)"
  by (induction xs arbitrary: c) (simp_all add: stats_record_counts)

lemma running_le: "sum_list (map is_running ts) \<le> length ts" "sum_list (map is_running ts) \<le> sum_list (map holds_permit ts)"
  by (induction ts) (auto simp: is_running_def holds_permit_def split: task.splits)

lemma load_done_sums:
  assumes "load_done s"
  shows "sum_list (map task_num (ls_tasks s)) = {#}" "sum_list (map is_running (ls_tasks s)) = 0"
proof -
  have "list_all (\<lambda>t. t = Finished) ts \<Longrightarrow> sum_list (map task_num ts) = {#} \<and> sum_list (map is_running ts) = 0" for ts
    by (induction ts) (auto simp: is_running_def)
  then show "sum_list (map task_num (ls_tasks s)) = {#}" "sum_list (map is_running (ls_tasks s)) = 0"
    using assms by (auto simp: load_done_def)
qed

lemma load_reachable_inv: "(load_step cfg sample)\<^sup>*\<^sup>* (load_start cfg) s \<Longrightarrow> load_inv cfg sample s"
  by (rule load_run.reachable_inv [OF _ load_inv_start])

lemma load_done_counts:
  assumes inv: "load_inv cfg sample s" and fin: "load_done s"
  shows "mset (ls_channel s) = image_mset sample (mset [0..<ls_request_idx s])"
    and "sum_completed (collect_phase G order cfg d True s) = ls_request_idx s"
    and "sum_errors (collect_phase G order cfg d True s) = card {i. i < ls_request_idx s \<and> \<not> sm_success (sample i)}"
proof -
  obtain sent where sent: "ls_channel s = map sample sent" "mset sent + sum_list (map task_num (ls_tasks s)) = mset [0..<ls_request_idx s]"
    using inv by (auto simp: load_inv_def)
  have perm: "mset sent = mset [0..<ls_request_idx s]" using sent(2) load_done_sums(1) [OF fin] by simp
  then show "mset (ls_channel s) = image_mset sample (mset [0..<ls_request_idx s])" using sent(1) by simp
  have len: "length sent = ls_request_idx s" using mset_eq_length [OF perm] by simp
  have "length (filter (\<lambda>x. \<not> sm_success x) (ls_channel s)) = size (filter_mset (\<lambda>x. \<not> sm_success (sample x)) (mset sent))"
    by (simp add: sent(1) filter_map comp_def flip: size_mset mset_filter)
  also have "\<dots> = card {i. i < ls_request_idx s \<and> \<not> sm_success (sample i)}"
    unfolding perm by (simp add: conj_commute)
  finally have err: "length (filter (\<lambda>x. \<not> sm_success x) (ls_channel s)) = card {i. i < ls_request_idx s \<and> \<not> sm_success (sample i)}" .
  have "length (filter sm_success (ls_channel s)) + length (filter (\<lambda>x. \<not> sm_success x) (ls_channel s)) = ls_request_idx s"
    using sum_length_filter_compl [of sm_success "ls_channel s"] len by (simp add: sent(1))
  with err show "sum_completed (collect_phase G order cfg d True s) = ls_request_idx s"
    "sum_errors (collect_phase G order cfg d True s) = card {i. i < ls_request_idx s \<and> \<not> sm_success (sample i)}"
    by (simp_all add: collect_phase_def into_summary_def Let_def stats_fold_counts stats_new_def)
qed

text \<open>
  C36. Counting under load. In every interleaving of workers, spawner, requests and the deadline the
  number of requests in flight stays within the configured bound; and when the phase is over nothing is in
  flight, the channel holds exactly one sample for each number handed out, and the summary
  counts as many requests as were issued and as many errors as requests failed. Requests end with a
  sample; a task that panics has no step.
\<close>

theorem load_counts_every_request:
  assumes "(load_step cfg sample)\<^sup>*\<^sup>* (load_start cfg) s"
  shows "ls_inflight s \<le> (if lc_rps cfg = None then lc_concurrency cfg else lc_max_inflight cfg) \<and>
    (load_done s \<longrightarrow>
       ls_inflight s = 0 \<and> mset (ls_channel s) = image_mset sample (mset [0..<ls_request_idx s]) \<and>
       sum_completed (collect_phase G order cfg d True s) = ls_request_idx s \<and>
       sum_errors (collect_phase G order cfg d True s) = card {i. i < ls_request_idx s \<and> \<not> sm_success (sample i)})"
proof -
  note inv = load_reachable_inv [OF assms]
  have "ls_inflight s \<le> (if lc_rps cfg = None then lc_concurrency cfg else lc_max_inflight cfg)"
    using inv running_le [of "ls_tasks s"] by (auto simp: load_inv_def split: if_splits)
  moreover have "ls_inflight s = 0" if "load_done s" using inv load_done_sums(2) [OF that] by (simp add: load_inv_def)
  ultimately show ?thesis using load_done_counts [OF inv] by blast
qed

section \<open>The run\<close>

text \<open>Up to the timed phase: the pool, the client, and one verified proof.\<close>

definition load_setup ::
  "'p::len poseidon_constants \<Rightarrow> net \<Rightarrow> parsers \<Rightarrow> ypir_client \<Rightarrow> nat \<Rightarrow> (nat \<Rightarrow> usize) \<Rightarrow> load_config \<Rightarrow> bytes option \<Rightarrow>
   ('p PirClient \<times> 'p fp list) result" where
  "load_setup P N J Y seed gen_range cfg file =
     and_then (ok_or file (Error ''reading nullifiers'')) (\<lambda>nf_data.
     and_then (parse_nullifier_bytes nf_data) (\<lambda>nfs :: 'p fp list.
     ensure (nfs \<noteq> []) ''nullifiers file is empty''
     (and_then (prepare_nullifiers nfs) (\<lambda>ranges.
      and_then (build_query_pool ranges 1024 gen_range) (\<lambda>pool.
      and_then (fst (with_transport P N J (lc_url cfg) (lc_expected_layout cfg))) (\<lambda>client.
      and_then (index_res pool 0) (\<lambda>first.
      and_then (fetch_proof P N Y seed client first) (\<lambda>pr.
      ensure (lc_no_verify cfg \<or> verify P pr first) ''warmup proof verification failed''
      (Ok (client, pool))))))))))"

text \<open>Values of the pool are outside the padded set when no member has its successor in it.\<close>

lemma pool_value_free:
  assumes "i < length (triples (nf_list nfs))" "\<And>x. x \<in> padded_set nfs \<Longrightarrow> x \<noteq> - 1 \<Longrightarrow> x + 1 \<notin> padded_set nfs"
  shows "fst (triples (nf_list nfs) ! i) + 1 \<notin> padded_set nfs"
proof (rule assms(2))
  let ?r = "triples (nf_list nfs) ! i"
  have "ordered_ranges (triples (nf_list nfs))" by (rule ordered_triples [OF nf_list_sorted])
  then have "fst ?r < snd (snd ?r)" using assms(1) by (rule ordered_rangesD(1))
  also have "\<dots> \<le> - 1" by simp
  finally show "fst ?r \<noteq> - 1" by simp
  have "2 * i < length (nf_list nfs)" using assms(1) by auto
  then have "nf_list nfs ! (2 * i) \<in> set (nf_list nfs)" by (rule nth_mem)
  then show "fst ?r \<in> padded_set nfs" using assms(1) by (simp add: triple_at_def)
qed

text \<open>A request for such a value against a server of the snapshot succeeds.\<close>

lemma do_request_succeeds:
  assumes "pool \<noteq> []" "fetch_proof P N Y seed c (pool ! (idx mod length pool)) = Ok pr" "verify P pr (pool ! (idx mod length pool))"
  shows "\<exists>sample. do_request P N Y text_of seed c pool idx no_verify clk t_ms elapsed = Ok sample \<and> sm_success sample"
proof -
  obtain timing where "fetch_proof_with_timing P N Y seed c (pool ! (idx mod length pool)) clk t_ms = Ok (pr, timing)"
    using fetch_proof_with_timing_same [of P N Y seed c "pool ! (idx mod length pool)" clk t_ms] assms(2)
    by (cases "fetch_proof_with_timing P N Y seed c (pool ! (idx mod length pool)) clk t_ms") auto
  then show ?thesis using assms(1,3) by (auto simp: do_request_def Let_def)
qed

lemma no_error_rate: "f_div (f_of_nat 0) (f_of_nat n) = Fin 0 \<or> f_div (f_of_nat 0) (f_of_nat n) = NaN"
proof -
  have "f_of_nat 0 = Fin 0" by (simp add: f_of_nat_def fround_def)
  moreover have "f_div (Fin 0) y = Fin 0 \<or> f_div (Fin 0) y = NaN" for y
    by (cases y) (auto simp: f_signed_inf_def fround_def)
  ultimately show ?thesis by simp
qed

text \<open>
  A load test against a healthy server is clean. Take a server of the snapshot built from the
  nullifiers of the file, as in the end-to-end theorem, where no member of the padded set
  other than the last field element has its successor in the set. Then the set-up
  succeeds, every request succeeds; in every interleaving of the timed phase the summary has no error; and without a
  latency objective the run passes for every error-rate threshold that is not negative.
\<close>

theorem load_run_clean:
  fixes P :: "'p::len poseidon_constants"
  assumes "build_pir_tree_from_nullifiers P nfs = Inr tree"
    and "validate_supported L = Inr ()" and "pir_depth L = PIR_DEPTH" and "degree = 2048 \<or> degree = 4096"
    and "meta_from_json C (meta_to_json C (snapshot_meta C P (pt_ranges tree) network height L)) =
           Some (snapshot_meta C P (pt_ranges tree) network height L)"
    and "\<And>bs. hex_to C (hex_of C bs) = Some bs"
    and "codecs_agree W J C (served_meta C P (pt_ranges tree) network height L degree) (layout_scenario L degree)"
    and "\<And>seed. ypir_correct Y Yc (layout_scenario L degree) (tier1_of (pt_ranges tree) L) seed"
    and "nfs \<noteq> []" "parse_nullifier_bytes data = Ok nfs" "\<And>i. gen_range i < length (pt_ranges tree)"
    and "\<And>x. x \<in> padded_set nfs \<Longrightarrow> x \<noteq> - 1 \<Longrightarrow> x + 1 \<notin> padded_set nfs"
    and "lc_expected_layout cfg = L\<lparr>poly_len := degree\<rparr>"
  shows "\<exists>d' ss c pool. load_serving_state_with_poly_len TYPE('p) C H T Y env
      (fst (export_all_with_layout C tree d network height L)) network degree = (d', Ok ss) \<and>
    (let N = server_net Y W (st\<lparr>serving := Some ss\<rparr>) (trim_end_slashes (lc_url cfg))
     in load_setup P N J Yc seed gen_range cfg (Some data) = Ok (c, pool) \<and>
        (\<exists>sample. (\<forall>n. do_request P N Yc text_of (seeds n) c pool n (lc_no_verify cfg) (clk n) (t_ms n) (elapsed n) = Ok (sample n) \<and>
             sm_success (sample n)) \<and>
           (\<forall>s. (load_step cfg sample)\<^sup>*\<^sup>* (load_start cfg) s \<longrightarrow> load_done s \<longrightarrow>
           sum_errors (collect_phase G order cfg dur True s) = 0 \<and>
           (lc_slo_p99_ms cfg = None \<longrightarrow> \<not> f_lt (lc_max_error_rate cfg) (Fin 0) \<longrightarrow>
              slo_check cfg (collect_phase G order cfg dur True s) = Ok ()))))"
proof -
  let ?ranges = "pt_ranges tree" and ?L = "L\<lparr>poly_len := degree\<rparr>"
  let ?ss = "snapshot_state C Y P (pt_ranges tree) network height L degree"
  let ?N = "server_net Y W (st\<lparr>serving := Some ?ss\<rparr>) (trim_end_slashes (lc_url cfg))"
  note ok = built_snapshot(1) [OF assms(1-3)]
  note dep = snapshot_depths [OF ok]
  have tree: "pir_tree_of P ?ranges = tree"
    using built_tree(3) [OF assms(1)] built_tree_fields(1) [OF assms(1)] by simp
  obtain d' where ld: "load_serving_state_with_poly_len TYPE('p) C H T Y env
      (fst (export_all_with_layout C tree d network height L)) network degree = (d', Ok ?ss)"
    using load_after_export [OF dep(5,6) assms(4,5,6)] unfolding tree by blast
  have st: "serving (st\<lparr>serving := Some ?ss\<rparr>) = Some ?ss" by simp
  note client = served_client [OF ok assms(4) load_serving_wf [OF ld] assms(6,7) assms(8) st, of "lc_url cfg"]
  obtain c rs where con: "with_transport P ?N J (lc_url cfg) ?L = (Ok c, rs)" using client by metis
  have fetch: "\<exists>pr. fetch_proof P ?N Yc sd c v = Ok pr \<and> verify P pr v" if v: "v \<notin> padded_set nfs" for sd v
  proof -
    obtain c' rs' where c': "with_transport P ?N J (lc_url cfg) ?L = (Ok c', rs')" "client_wf c'" "pc_layout c' = ?L" "holds_snapshot P c' ?ranges"
      "answers_rows ?N Yc sd c' ?ranges"
      using client by metis
    with con have "c' = c" by simp
    with built_proof_over_wire [OF assms(1-4) c'(2-5) v] show ?thesis by blast
  qed
  let ?pool = "map (\<lambda>i. fst (?ranges ! gen_range i) + 1) [0..<1024]"
  have ranges: "prepare_nullifiers nfs = Ok ?ranges"
    using built_tree(1) [OF assms(1)] built_tree_fields(1) [OF assms(1)] by (simp add: prepare_nullifiers_eq)
  have ne: "?ranges \<noteq> []" using assms(11) [of 0] by auto
  have pool: "build_query_pool ?ranges 1024 gen_range = Ok ?pool" using ne by (simp add: build_query_pool_def)
  have free: "v \<notin> padded_set nfs" if "v \<in> set ?pool" for v
    using that pool_value_free [OF _ assms(12)] assms(11) built_tree_fields(1) [OF assms(1)] by auto
  have len: "length ?pool = 1024" by simp
  then have nth: "?pool ! (n mod length ?pool) \<in> set ?pool" for n by (intro nth_mem) simp
  have first: "index_res ?pool 0 = Ok (?pool ! 0)" by (simp add: index_res_def del: upt_conv_Cons upt_rec_numeral)
  obtain pr where "fetch_proof P ?N Yc seed c (?pool ! 0) = Ok pr" "verify P pr (?pool ! 0)"
    using fetch [OF free [OF nth [of 0]]] by auto
  then have prep: "load_setup P ?N J Yc seed gen_range cfg (Some data) = Ok (c, ?pool)"
    unfolding load_setup_def ok_or_simps and_then.simps assms(10,13) ranges pool con fst_conv first using assms(9) by simp
  have "\<exists>x. do_request P ?N Yc text_of (seeds n) c ?pool n (lc_no_verify cfg) (clk n) (t_ms n) (elapsed n) = Ok x \<and> sm_success x" for n
    using fetch [OF free [OF nth [of n]]] do_request_succeeds [of ?pool] len by (metis length_0_conv zero_neq_numeral)
  then obtain sample where
    req: "\<And>n. do_request P ?N Yc text_of (seeds n) c ?pool n (lc_no_verify cfg) (clk n) (t_ms n) (elapsed n) = Ok (sample n) \<and> sm_success (sample n)"
    by metis
  have clean: "sum_errors (collect_phase G order cfg dur True s) = 0"
    if run: "(load_step cfg sample)\<^sup>*\<^sup>* (load_start cfg) s" "load_done s" for s
    using req load_done_counts(3) [OF load_reachable_inv [OF run(1)] run(2)] by simp
  have "slo_check cfg (collect_phase G order cfg dur True s) = Ok ()"
    if "sum_errors (collect_phase G order cfg dur True s) = 0" "lc_slo_p99_ms cfg = None" "\<not> f_lt (lc_max_error_rate cfg) (Fin 0)" for s
  proof -
    have zero: "sum_error_rate (collect_phase G order cfg dur True s) \<in> {Fin 0, NaN}"
      using that(1) by (auto simp: collect_phase_def into_summary_def Let_def no_error_rate)
    have "\<not> f_lt (lc_max_error_rate cfg) NaN" by (cases "lc_max_error_rate cfg") auto
    with zero that(2,3) show ?thesis by (auto simp: slo_check_def Let_def)
  qed
  with clean prep ld req show ?thesis unfolding Let_def by blast
qed

section \<open>Instances\<close>

definition list_hdr :: "u64 list hdr" where
  "list_hdr = \<lparr>hdr_new = [], hdr_record = (\<lambda>v h. if v \<le> 300000 then Some (v # h) else None), hdr_len = length,
     hdr_value_at_quantile = (\<lambda>_ h. fold max h 0), hdr_max = (\<lambda>h. fold max h 0)\<rparr>"

definition sample_load :: load_config where
  "sample_load = \<lparr>lc_url = ''http://pir/'', lc_expected_layout = COMPILED_PIR_LAYOUT\<lparr>poly_len := 4096\<rparr>, lc_concurrency = 1, lc_rps = None,
     lc_max_inflight = 256, lc_no_verify = False, lc_max_error_rate = Fin (1 / 100), lc_slo_p99_ms = None\<rparr>"

text \<open>One worker, one failed request, then the deadline.\<close>

theorem load_counts_every_request_witness:
  "\<exists>s. (load_step sample_load (\<lambda>_. \<lparr>sm_total_ms = Fin 7, sm_tier1_rtt_ms = Fin 0, sm_tier1_server_ms = None, sm_success = False, sm_error_class = Some Other\<rparr>))\<^sup>*\<^sup>*
      (load_start sample_load) s \<and> load_done s \<and> sum_completed (collect_phase list_hdr [Other] sample_load (Fin 60) True s) = 1 \<and>
    sum_errors (collect_phase list_hdr [Other] sample_load (Fin 60) True s) = 1"
proof -
  let ?x = "\<lparr>sm_total_ms = Fin 7, sm_tier1_rtt_ms = Fin 0, sm_tier1_server_ms = None, sm_success = False, sm_error_class = Some Other\<rparr>"
  let ?R = "load_step sample_load (\<lambda>_. ?x)"
  let ?s = "\<lambda>t idx fl ch ex. \<lparr>ls_tasks = [t], ls_spawner = Stopped, ls_permits = 0, ls_request_idx = idx, ls_inflight = fl, ls_channel = ch, ls_expired = ex\<rparr>"
  have s0: "load_start sample_load = ?s Ready 0 0 [] False" by (simp add: load_start_def sample_load_def)
  have "?R (?s Ready 0 0 [] False) (?s (Reserved 0) 1 0 [] False)" using load_step.start [of 0 "?s Ready 0 0 [] False"] by simp
  moreover have "?R (?s (Reserved 0) 1 0 [] False) (?s (Running 0) 1 1 [] False)" using load_step.run [of 0 "?s (Reserved 0) 1 0 [] False" 0] by simp
  moreover have "?R (?s (Running 0) 1 1 [] False) (?s (Sending 0) 1 0 [] False)" using load_step.answered [of 0 "?s (Running 0) 1 1 [] False" 0] by simp
  moreover have "?R (?s (Sending 0) 1 0 [] False) (?s Ready 1 0 [?x] False)"
    using load_step.send [of 0 "?s (Sending 0) 1 0 [] False" 0 sample_load "\<lambda>_. ?x"] by (simp add: sample_load_def)
  moreover have "?R (?s Ready 1 0 [?x] False) (?s Ready 1 0 [?x] True)" using load_step.expire [of _ _ "?s Ready 1 0 [?x] False"] by simp
  moreover have "?R (?s Ready 1 0 [?x] True) (?s Finished 1 0 [?x] True)" using load_step.stop [of 0 "?s Ready 1 0 [?x] True"] by simp
  ultimately have run: "?R\<^sup>*\<^sup>* (load_start sample_load) (?s Finished 1 0 [?x] True)"
    unfolding s0 by (meson converse_rtranclp_into_rtranclp rtranclp.rtrancl_refl)
  have fin: "load_done (?s Finished 1 0 [?x] True)" by (simp add: load_done_def)
  have "card {i. i < (1 :: nat) \<and> \<not> False} = 1" by simp
  with load_counts_every_request [OF run, of list_hdr "[Other]" "Fin 60"] fin run show ?thesis by auto
qed

lemma sample_residues:
  assumes "x \<in> padded_set sample_nfs" "x \<noteq> - 1"
  shows "fp_val x mod 2 ^ 249 \<in> {0, 2, 5, 9}"
proof -
  have "x \<in> {2, 5, 9} \<or> x \<in> set sentinels" using assms(1) by (auto simp: padded_set_def nf_set_def sample_nfs_def split: if_splits)
  then consider "x \<in> {2, 5, 9}" | k where "k \<le> 32" "x = 2 ^ SENTINEL_EXPONENT * of_nat k"
    using assms(2) unfolding set_sentinels by auto
  then show ?thesis by cases (auto simp: sentinel_val)
qed

lemma sample_gaps:
  assumes x: "x \<in> padded_set sample_nfs" "x \<noteq> - 1"
  shows "x + 1 \<notin> padded_set sample_nfs"
proof
  assume y: "x + 1 \<in> padded_set sample_nfs"
  have "fp_val x \<noteq> fp_modulus TYPE(pallas) - 1" using x(2) by (simp add: fp_eq_iff fp_val_minus_one)
  then have "fp_val x + 1 < fp_modulus TYPE(pallas)" using fp_val_less [of x] by linarith
  then have next1: "fp_val (x + 1) = fp_val x + 1" by (simp add: fp_val_add)
  have "(fp_val x + 1) mod 2 ^ 249 = (fp_val x mod 2 ^ 249 + 1) mod 2 ^ 249" by (rule mod_add_left_eq [symmetric])
  then have r: "fp_val (x + 1) mod 2 ^ 249 \<in> {1, 3, 6, 10}" using sample_residues [OF x] unfolding next1 by auto
  show False
  proof (cases "x + 1 = - 1")
    case True
    have "fp_val (x + 1) mod 2 ^ 249 = 0x224698fc094cf91b992d30ed00000000"
      unfolding True by (simp add: fp_val_minus_one pallas_modulus)
    with r show False by auto
  next
    case False
    with sample_residues [OF y] r show False by auto
  qed
qed

theorem load_run_clean_witness:
  "\<exists>ss c pool. load_setup sample_constants
      (server_net clear_ypir sample_printer ((initial_state sample_serve_args None Map.empty)\<lparr>serving := Some ss\<rparr>) (trim_end_slashes (lc_url sample_load)))
      sample_parsers clear_client 0 (\<lambda>_. 0) sample_load (Some (concat (map to_repr sample_nfs))) = Ok (c, pool)"
proof -
  have "\<exists>i < length (pt_ranges sample_tree). covers (pt_ranges sample_tree ! i) 7"
    using built_covered [OF sample_build, of 7] sample_seven_free by blast
  then have gen: "\<And>i :: nat. (\<lambda>_. 0) i < length (pt_ranges sample_tree)" by auto
  have ne: "sample_nfs \<noteq> []" by (simp add: sample_nfs_def)
  have meta: "meta_from_json sample_codec (meta_to_json sample_codec (snapshot_meta sample_codec sample_constants (pt_ranges sample_tree) Main sample_height COMPILED_PIR_LAYOUT)) =
      Some (snapshot_meta sample_codec sample_constants (pt_ranges sample_tree) Main sample_height COMPILED_PIR_LAYOUT)"
    and y: "\<And>seed. ypir_correct clear_ypir clear_client sample_scenario (tier1_of (pt_ranges sample_tree) COMPILED_PIR_LAYOUT) seed"
    and codecs: "codecs_agree sample_printer sample_parsers sample_codec
      (served_meta sample_codec sample_constants (pt_ranges sample_tree) Main sample_height COMPILED_PIR_LAYOUT 4096) sample_scenario"
    by (simp_all add: sample_meta_round_trip clear_ypir_correct sample_codecs_agree)
  have cfg: "lc_expected_layout sample_load = COMPILED_PIR_LAYOUT\<lparr>poly_len := 4096\<rparr>" by (simp add: sample_load_def)
  show ?thesis
    using load_run_clean [where cfg = sample_load and H = sample_digest and T = sample_target and env = id and d = Map.empty and
        st = "initial_state sample_serve_args None Map.empty" and seed = 0 and text_of = "\<lambda>_. []" and seeds = id and G = list_hdr,
      OF sample_build compiled_layout_supported compiled_depth disjI2 [OF refl] meta sample_hex_round_trip codecs y ne
        parse_nullifier_bytes_concat gen sample_gaps cfg]
    unfolding Let_def by blast
qed

end
