(* ===== verification/Rebuild.thy ===== *)
theory Rebuild
  imports Status
begin

text \<open>
  The in-process rebuild of \<^verbatim>\<open>nf-server/src/serve/rebuild.rs\<close>: the check for an active round, the
  prepare handler and the rebuild task. In this version the route answers 410 and the
  handler is not reachable; the code is kept for the case that it is enabled again, and so
  is its verification. Any number of handlers and tasks run concurrently with each other and with queries. A handler
  advances from one await to the next, holding the lock from the moment it takes it until it refuses,
  is dropped because its client went away, or hands the lock to the task it spawns; a task
  advances by stages and reports progress within them. A sync or an export that fails may have changed the directory, so
  a failed stage leaves any directory. The lemmas show that at most one job holds the lock, and that the
  loaded snapshot is replaced and never dropped, also by a task that fails.
\<close>

section \<open>Active rounds\<close>

definition round_of :: "json \<Rightarrow> string option" where
  "round_of body =
     (case json_get body ''round'' of
        Some (JObject ms) \<Rightarrow> Some (unwrap_or (Option.bind (json_get (JObject ms) ''vote_round_id'') json_as_str) ''unknown'')
      | _ \<Rightarrow> None)"

definition check_active_round :: "http \<Rightarrow> (bytes \<Rightarrow> json option) \<Rightarrow> string \<Rightarrow> string option result" where
  "check_active_round http from_json url =
     and_then (http (trim_end_slashes url @ ''/shielded-vote/v1/rounds/active'')) (\<lambda>resp.
     if rsp_status resp = 404 then Ok None
     else if \<not> is_success (rsp_status resp) then Bail ''active round query returned an HTTP error''
     else and_then (ok_or (from_json (rsp_body resp)) (Error ''decode active round'')) (\<lambda>body. Ok (round_of body)))"

section \<open>The handler\<close>

text \<open>What the handler and the task use besides the state.\<close>

record (overloaded) 'p rebuild_deps =
  rd_sync :: "'p sync_deps"
  rd_http :: http
  rd_from_json :: "bytes \<Rightarrow> json option"

text \<open>The answers of the handler.\<close>

definition json_error :: "string \<Rightarrow> json" where
  "json_error msg = JObject [(''error'', JString msg)]"

definition prepare_tip_ok :: "'p::len rebuild_deps \<Rightarrow> ('y, 'o) AppState \<Rightarrow> u64 \<Rightarrow> (u16 \<times> json) option" where
  "prepare_tip_ok R st height =
     (let lwd_url = (case lwd_urls st of [] \<Rightarrow> [] | u # _ \<Rightarrow> u)
      in if lwd_url = [] then None
         else case fetch_chain_tip (dep_connect (rd_sync R)) lwd_url of
                Inr tip \<Rightarrow>
                  if unat height > tip
                  then Some (400, json_error (''height '' @ show_nat (unat height) @ '' exceeds chain tip ('' @ show_nat tip @ '')''))
                  else None
              | Inl _ \<Rightarrow> None)"

definition prepare_round_ok :: "'p::len rebuild_deps \<Rightarrow> ('y, 'o) AppState \<Rightarrow> (u16 \<times> json) option" where
  "prepare_round_ok R st =
     (case chain_url st of
        None \<Rightarrow> None
      | Some url \<Rightarrow>
          (case check_active_round (rd_http R) (rd_from_json R) url of
             Inr (Some round_id) \<Rightarrow>
               Some (409, JObject [(''error'', JString ''cannot rebuild while round is active''), (''round_id'', JString round_id)])
           | _ \<Rightarrow> None))"

definition ready_for_rebuild :: "ServerPhase \<Rightarrow> bool" where
  "ready_for_rebuild p = (case p of Serving \<Rightarrow> True | Rebuilding _ _ _ \<Rightarrow> True | _ \<Rightarrow> False)"

text \<open>
  Where a handler is: at the check of the phase, about to try the lock, at the refusal because the
  lock is taken, and, with the lock held, at the check of the tip, at the check of the round, at the write of the phase
  and before the task is spawned; or answered.
\<close>

datatype prepare_pc =
    PrPhase u64 | PrTryLock u64 | PrConflict | PrTip u64 | PrRound u64 | PrStart u64 | PrSpawn u64 | PrAnswered u16 json

definition prepare_begin :: "('y, 'o) AppState \<Rightarrow> u64 \<Rightarrow> prepare_pc" where
  "prepare_begin st height =
     (case validate_export_height (unat height) (zcash_network st) of
        Inl e \<Rightarrow> PrAnswered 400 (json_error (error_text e))
      | Inr _ \<Rightarrow> PrPhase height)"

fun prepare_next :: "'p::len rebuild_deps \<Rightarrow> ('y, 'o) AppState \<Rightarrow> prepare_pc \<Rightarrow> ('y, 'o) AppState \<times> prepare_pc" where
  "prepare_next R st (PrPhase height) =
     (st, if ready_for_rebuild (phase st) then PrTryLock height
          else PrAnswered 503 (JObject [(''error'', JString ''server not ready for rebuild''), (''current'', phase_json (phase st))]))"
| "prepare_next R st (PrTryLock height) = (if rebuild_lock st then (st, PrConflict) else (st\<lparr>rebuild_lock := True\<rparr>, PrTip height))"
| "prepare_next R st PrConflict =
     (st, PrAnswered 409 (JObject [(''error'', JString ''rebuild already in progress''), (''current'', phase_json (phase st))]))"
| "prepare_next R st (PrTip height) =
     (case prepare_tip_ok R st height of
        Some (status, body) \<Rightarrow> (st\<lparr>rebuild_lock := False\<rparr>, PrAnswered status body)
      | None \<Rightarrow> (st, PrRound height))"
| "prepare_next R st (PrRound height) =
     (case prepare_round_ok R st of
        Some (status, body) \<Rightarrow> (st\<lparr>rebuild_lock := False\<rparr>, PrAnswered status body)
      | None \<Rightarrow> (st, PrStart height))"
| "prepare_next R st (PrStart height) = (st\<lparr>phase := Rebuilding height ''starting'' 0\<rparr>, PrSpawn height)"
| "prepare_next R st (PrSpawn height) =
     (st, PrAnswered 202 (JObject [(''status'', JString ''rebuilding''), (''target_height'', JU64 height)]))"
| "prepare_next R st (PrAnswered status body) = (st, PrAnswered status body)"

text \<open>A handler that waits can be dropped: there is no await between the phase and the lock, nor between the last write and the spawn.\<close>

fun awaiting :: "prepare_pc \<Rightarrow> bool" where
  "awaiting (PrTryLock _) = False"
| "awaiting (PrSpawn _) = False"
| "awaiting (PrAnswered _ _) = False"
| "awaiting _ = True"

section \<open>The task\<close>

datatype rebuild_pc = RbStart u64 | RbCheck u64 | RbSync u64 | RbExport u64 | RbLoad u64 | RbPublish u64 | RbRelease

text \<open>The blocking stage that loads the nullifiers of the target and exports unless that was done.\<close>

definition rebuild_export :: "'p::len rebuild_deps \<Rightarrow> ZcashNetwork \<Rightarrow> u64 \<Rightarrow> dir \<Rightarrow> dir result" where
  "rebuild_export R network target_height d =
     and_then (offset_for_height d target_height) (\<lambda>entry.
     and_then (ok_or entry (Error ''no index entry for target height'')) (\<lambda>(idx_height, byte_offset).
     and_then (load_nullifiers_up_to d byte_offset) (\<lambda>nfs :: 'p fp list.
     and_then (tiers_complete_for_height TYPE('p) (dep_codec (rd_sync R)) d network idx_height) (\<lambda>complete.
     if complete then Ok d else export_tree_and_tiers_from_nullifiers (rd_sync R) nfs d network idx_height))))"

text \<open>A task that failed reports the error.\<close>

definition rebuild_failed :: "string \<Rightarrow> dir \<Rightarrow> ('y, 'o) AppState \<Rightarrow> ('y, 'o) AppState" where
  "rebuild_failed msg d st = st\<lparr>phase := PhaseError msg, pir_data_dir := d\<rparr>"

inductive task_step ::
  "'p::len rebuild_deps \<Rightarrow> (bytes \<Rightarrow> bytes) \<Rightarrow> build_target \<Rightarrow> ('y, 'o) ypir_server \<Rightarrow>
   rebuild_pc \<times> ('y, 'o) AppState \<Rightarrow> rebuild_pc \<times> ('y, 'o) AppState \<Rightarrow> bool"
  for R :: "'p::len rebuild_deps" and H T Y where
  start: "task_step R H T Y (RbStart h, st) (RbCheck h, st\<lparr>phase := Rebuilding h ''checking sync state'' 0\<rparr>)"
| check: "load_checkpoint (pir_data_dir st) = Inr cp \<Longrightarrow> current = (case cp of None \<Rightarrow> 0 | Some (c, _) \<Rightarrow> c) \<Longrightarrow>
     task_step R H T Y (RbCheck h, st)
       (if h > current
        then (RbSync h, st\<lparr>phase := Rebuilding h (''syncing blocks '' @ show_nat (unat current) @ ''..'' @ show_nat (unat h)) 2\<rparr>)
        else (RbExport h, st\<lparr>phase := Rebuilding h ''loading nullifiers'' 10\<rparr>))"
| check_failed: "load_checkpoint (pir_data_dir st) = Inl e \<Longrightarrow>
     task_step R H T Y (RbCheck h, st) (RbRelease, rebuild_failed (error_text e) (pir_data_dir st) st)"
| progress: "pc = RbSync h \<or> pc = RbExport h \<Longrightarrow> task_step R H T Y (pc, st) (pc, st\<lparr>phase := Rebuilding h msg pct\<rparr>)"
| sync: "sync (dep_markers (rd_sync R)) (dep_connect (rd_sync R)) (pir_data_dir st) (lwd_urls st) (zcash_network st) (Some (unat h)) = Inr (d, res) \<Longrightarrow>
     task_step R H T Y (RbSync h, st) (RbExport h, st\<lparr>phase := Rebuilding h ''loading nullifiers'' 10, pir_data_dir := d\<rparr>)"
| sync_failed: "sync (dep_markers (rd_sync R)) (dep_connect (rd_sync R)) (pir_data_dir st) (lwd_urls st) (zcash_network st) (Some (unat h)) = Inl e \<Longrightarrow>
     task_step R H T Y (RbSync h, st) (RbRelease, rebuild_failed (error_text e) d st)"
| export: "rebuild_export R (zcash_network st) h (pir_data_dir st) = Inr d \<Longrightarrow>
     task_step R H T Y (RbExport h, st) (RbLoad h, st\<lparr>phase := Rebuilding h ''loading YPIR servers'' 60, pir_data_dir := d\<rparr>)"
| export_failed: "rebuild_export R (zcash_network st) h (pir_data_dir st) = Inl e \<Longrightarrow>
     task_step R H T Y (RbExport h, st) (RbRelease, rebuild_failed (error_text e) d st)"
| load: "load_serving_state_with_poly_len TYPE('p) (dep_codec (rd_sync R)) H T Y env (pir_data_dir st) (zcash_network st) (pir_poly_len st) = (d, Inr ss) \<Longrightarrow>
     task_step R H T Y (RbLoad h, st) (RbPublish h, st\<lparr>serving := Some ss, pir_data_dir := d\<rparr>)"
| load_failed: "load_serving_state_with_poly_len TYPE('p) (dep_codec (rd_sync R)) H T Y env (pir_data_dir st) (zcash_network st) (pir_poly_len st) = (d, Inl e) \<Longrightarrow>
     task_step R H T Y (RbLoad h, st) (RbRelease, rebuild_failed (error_text e) d st)"
| publish: "task_step R H T Y (RbPublish h, st) (RbRelease, st\<lparr>phase := Serving\<rparr>)"

section \<open>Handlers, tasks and queries together\<close>

datatype job = Prepare prepare_pc | Task rebuild_pc

text \<open>Which jobs own the guard of the lock: a task owns it to its end.\<close>

fun holds_lock :: "job \<Rightarrow> bool" where
  "holds_lock (Prepare (PrTip _)) = True"
| "holds_lock (Prepare (PrRound _)) = True"
| "holds_lock (Prepare (PrStart _)) = True"
| "holds_lock (Prepare (PrSpawn _)) = True"
| "holds_lock (Prepare _) = False"
| "holds_lock (Task _) = True"

text \<open>The outside world \<open>R'\<close> of a handler's requests may answer differently each time.\<close>

inductive rebuild_step ::
  "'p::len rebuild_deps \<Rightarrow> (bytes \<Rightarrow> bytes) \<Rightarrow> build_target \<Rightarrow> ('y, 'o) ypir_server \<Rightarrow> server_json \<Rightarrow>
   (nat \<rightharpoonup> job) \<times> ('y, 'o) AppState \<Rightarrow> (nat \<rightharpoonup> job) \<times> ('y, 'o) AppState \<Rightarrow> bool"
  for R :: "'p::len rebuild_deps" and H T Y W where
  request: "jobs i = None \<Longrightarrow> rebuild_step R H T Y W (jobs, st) (jobs(i \<mapsto> Prepare (prepare_begin st height)), st)"
| handler: "jobs i = Some (Prepare p) \<Longrightarrow> \<forall>h. p \<noteq> PrSpawn h \<Longrightarrow> prepare_next (R' :: 'p rebuild_deps) st p = (st', p') \<Longrightarrow>
     rebuild_step R H T Y W (jobs, st) (jobs(i \<mapsto> Prepare p'), st')"
| spawn: "jobs i = Some (Prepare (PrSpawn h)) \<Longrightarrow> jobs j = None \<Longrightarrow> prepare_next R st (PrSpawn h) = (st', p') \<Longrightarrow>
     rebuild_step R H T Y W (jobs, st) (jobs(i \<mapsto> Prepare p', j \<mapsto> Task (RbStart h)), st')"
| dropped: "jobs i = Some (Prepare p) \<Longrightarrow> awaiting p \<Longrightarrow>
     rebuild_step R H T Y W (jobs, st) (jobs(i := None), if holds_lock (Prepare p) then st\<lparr>rebuild_lock := False\<rparr> else st)"
| task: "jobs i = Some (Task pc) \<Longrightarrow> task_step R H T Y (pc, st) (pc', st') \<Longrightarrow> rebuild_step R H T Y W (jobs, st) (jobs(i \<mapsto> Task pc'), st')"
| ended: "jobs i = Some (Task RbRelease) \<Longrightarrow> rebuild_step R H T Y W (jobs, st) (jobs(i := None), st\<lparr>rebuild_lock := False\<rparr>)"
| query: "rebuild_step R H T Y W (jobs, st) (jobs, fst (post_tier1_query Y W st body))"

section \<open>One owner of the lock, and always a snapshot\<close>

definition loaded_ok :: "'p::len itself \<Rightarrow> meta_codec \<Rightarrow> ZcashNetwork \<Rightarrow> usize \<Rightarrow> ('y, 'o) AppState \<Rightarrow> bool" where
  "loaded_ok P C network degree st \<longleftrightarrow>
     zcash_network st = network \<and> pir_poly_len st = degree \<and> inflight_requests (ctrs st) = 0 \<and>
     (\<exists>ss. serving st = Some ss \<and> serving_wf P C network degree ss)"

definition owners :: "(nat \<rightharpoonup> job) \<Rightarrow> nat set" where
  "owners jobs = {i. \<exists>a. jobs i = Some a \<and> holds_lock a}"

definition lock_ok :: "(nat \<rightharpoonup> job) \<Rightarrow> ('y, 'o) AppState \<Rightarrow> bool" where
  "lock_ok jobs st \<longleftrightarrow> (if rebuild_lock st then \<exists>i. owners jobs = {i} else owners jobs = {})"

definition rebuild_inv ::
  "'p::len itself \<Rightarrow> meta_codec \<Rightarrow> ZcashNetwork \<Rightarrow> usize \<Rightarrow> (nat \<rightharpoonup> job) \<times> ('y, 'o) AppState \<Rightarrow> bool" where
  "rebuild_inv P C network degree s \<longleftrightarrow> loaded_ok P C network degree (snd s) \<and> lock_ok (fst s) (snd s)"

text \<open>A handler touches only the lock and the phase; the lock stands for its ownership.\<close>

lemma prepare_next_frame:
  assumes "prepare_next R st p = (st', p')"
  shows "serving st' = serving st" "zcash_network st' = zcash_network st" "pir_poly_len st' = pir_poly_len st" "ctrs st' = ctrs st"
  using assms by (cases p; auto split: if_splits option.splits prod.splits)+

lemma prepare_next_lock:
  assumes "prepare_next R st p = (st', p')" "\<forall>h. p \<noteq> PrSpawn h"
  shows "holds_lock (Prepare p) \<and> rebuild_lock st' = (holds_lock (Prepare p') \<and> rebuild_lock st) \<or>
    \<not> holds_lock (Prepare p) \<and> (if holds_lock (Prepare p') then \<not> rebuild_lock st \<and> rebuild_lock st' else rebuild_lock st' = rebuild_lock st)"
  using assms by (cases p) (auto split: if_splits option.splits prod.splits)

lemma task_step_frame:
  assumes "task_step (R :: 'p::len rebuild_deps) H T Y s s'" "loaded_ok TYPE('p) (dep_codec (rd_sync R)) network degree (snd s)"
  shows "loaded_ok TYPE('p) (dep_codec (rd_sync R)) network degree (snd s') \<and> rebuild_lock (snd s') = rebuild_lock (snd s)"
  using assms
proof (induction rule: task_step.induct)
  case (load env st d ss h)
  then show ?case using load_serving_wf [OF load(1)] by (simp add: loaded_ok_def)
qed (auto simp: loaded_ok_def rebuild_failed_def)

lemma owners_upd:
  "owners (jobs(i := x)) = (if \<exists>a. x = Some a \<and> holds_lock a then insert i (owners jobs) else owners jobs - {i})"
  by (auto simp: owners_def split: if_splits)

lemma owner_iff: "jobs i = Some a \<Longrightarrow> i \<in> owners jobs \<longleftrightarrow> holds_lock a" "jobs i = None \<Longrightarrow> i \<notin> owners jobs"
  by (auto simp: owners_def)

lemma handler_lock_ok:
  assumes "lock_ok jobs st" "jobs i = Some (Prepare p)" "\<forall>h. p \<noteq> PrSpawn h" "prepare_next R st p = (st', p')"
  shows "lock_ok (jobs(i \<mapsto> Prepare p')) st'"
  using assms(1) prepare_next_lock [OF assms(4,3)] owner_iff(1) [of jobs i, OF assms(2)]
  by (cases "holds_lock (Prepare p)"; cases "holds_lock (Prepare p')") (auto simp: lock_ok_def owners_upd split: if_splits)

lemma rebuild_step_inv:
  assumes "rebuild_step (R :: 'p::len rebuild_deps) H T Y W s s'" "rebuild_inv TYPE('p) (dep_codec (rd_sync R)) network degree s"
  shows "rebuild_inv TYPE('p) (dep_codec (rd_sync R)) network degree s'"
  using assms
proof (induction rule: rebuild_step.induct)
  case (request jobs i st height)
  have "\<not> holds_lock (Prepare (prepare_begin st height))" by (simp add: prepare_begin_def split: sum.split)
  then show ?case using request owner_iff(2) [of jobs i, OF request(1)] by (auto simp: rebuild_inv_def lock_ok_def owners_upd split: if_splits)
next
  case (handler jobs i p R' st st' p')
  then show ?case using handler_lock_ok [of jobs st i, OF _ handler(1-3)] prepare_next_frame [OF handler(3)] by (simp add: rebuild_inv_def loaded_ok_def)
next
  case (spawn jobs i h j st st' p')
  have keep: "st' = st" "\<not> holds_lock (Prepare p')" using spawn(3) by auto
  have "i \<in> owners jobs" using owner_iff(1) [of jobs i, OF spawn(1)] by simp
  then have "rebuild_lock st" "owners jobs = {i}" using spawn(4) by (auto simp: rebuild_inv_def lock_ok_def split: if_splits)
  then have "owners (jobs(i \<mapsto> Prepare p', j \<mapsto> Task (RbStart h))) = {j}" using keep by (simp add: owners_upd)
  then show ?case using spawn(4) keep \<open>rebuild_lock st\<close> by (simp add: rebuild_inv_def lock_ok_def)
next
  case (dropped jobs i p st)
  then show ?case using owner_iff(1) [of jobs i, OF dropped(1)] by (auto simp: rebuild_inv_def loaded_ok_def lock_ok_def owners_upd split: if_splits)
next
  case (task jobs i pc st pc' st')
  then show ?case using task_step_frame [OF task(2)] owner_iff(1) [of jobs i, OF task(1)] by (auto simp: rebuild_inv_def lock_ok_def owners_upd split: if_splits)
next
  case (ended jobs i st)
  then show ?case using owner_iff(1) [of jobs i, OF ended(1)] by (auto simp: rebuild_inv_def loaded_ok_def lock_ok_def owners_upd split: if_splits)
next
  case (query jobs st body)
  then show ?case by (simp add: rebuild_inv_def loaded_ok_def lock_ok_def post_tier1_query_frame)
qed

interpretation rebuilding_run: step_invariant
    "rebuild_step (R :: 'p::len rebuild_deps) H T Y W" "rebuild_inv TYPE('p) (dep_codec (rd_sync R)) network degree"
  by unfold_locales (rule rebuild_step_inv)

end
