(* ===== verification/Snapshot_Theorems.thy ===== *)
theory Snapshot_Theorems
  imports Examples
begin

text \<open>
  The properties of the files between a build and the next start of the server: the
  precompute cache of \<^verbatim>\<open>pir/server/src/precompute_cache.rs\<close>, the tree checkpoint of
  \<^verbatim>\<open>pir/export/src/tree_checkpoint.rs\<close> and the completeness check of the exported tiers in
  \<^verbatim>\<open>pir/export/src/lib.rs\<close>, each with a concrete instance.
\<close>

section \<open>The precompute cache\<close>

text \<open>
  C9. Starting from a cache is starting from the data. After any history of starts with any
  scenarios and build targets, of crashes while a cache was written, of evictions and of
  changes to the tier file, a start returns exactly the state built from the current tier
  bytes, whether the cache was used or not, unless two of the inputs that were really hashed
  collide.
\<close>

theorem cached_start_equals_build:
  assumes "cache_contract H Y"
    and "(cache_step H Y TIER1_FILE TIER1_PRECOMPUTE_FILE)\<^sup>*\<^sup>* (d0, {}) (d, U)" "d0 TIER1_PRECOMPUTE_FILE = None"
    and "scenario_wf scn" "d TIER1_FILE = Some tier" "\<not> cache_collision H U scn tier"
  shows "\<exists>d' hit. new_or_load H T Y id d TIER1_FILE scn TIER1_PRECOMPUTE_FILE = (d', Ok (ys_build Y scn tier, hit))"
proof -
  have tmp: "with_extension TIER1_PRECOMPUTE_FILE ''precompute.tmp'' \<noteq> TIER1_PRECOMPUTE_FILE"
    by (rule tier1_file_names(2))
  from cache_reachable_sound [OF assms(2,1) tmp assms(3)] have s: "cache_sound H Y U TIER1_PRECOMPUTE_FILE d" by simp
  obtain d' r where nl: "new_or_load H T Y id d TIER1_FILE scn TIER1_PRECOMPUTE_FILE = (d', r)" by fastforce
  from new_or_load_correct(1) [where env = id, OF assms(1) tmp assms(4) s _ assms(5) nl] assms(6) nl
  show ?thesis by auto
qed

theorem cached_start_equals_build_witness:
  "\<exists>d1 d2 hit. fst (new_or_load sample_digest sample_target bit_ypir id [TIER1_FILE \<mapsto> [1]] TIER1_FILE sample_scenario TIER1_PRECOMPUTE_FILE) = d1 \<and>
     d1 TIER1_PRECOMPUTE_FILE \<noteq> None \<and>
     new_or_load sample_digest sample_target bit_ypir id d1 TIER1_FILE sample_scenario TIER1_PRECOMPUTE_FILE = (d2, Ok ((True, ()), hit))"
proof -
  let ?d0 = "[TIER1_FILE \<mapsto> [1]] :: dir"
  define d1 where "d1 = fst (new_or_load sample_digest sample_target bit_ypir id ?d0 TIER1_FILE sample_scenario TIER1_PRECOMPUTE_FILE)"
  have "cache_step sample_digest bit_ypir TIER1_FILE TIER1_PRECOMPUTE_FILE (?d0, {}) (d1, {(sample_scenario, [1])})"
    unfolding d1_def by (rule cache_step.start [OF sample_scenario_wf]) simp_all
  then have run: "(cache_step sample_digest bit_ypir TIER1_FILE TIER1_PRECOMPUTE_FILE)\<^sup>*\<^sup>* (?d0, {}) (d1, {(sample_scenario, [1])})" by blast
  have no: "\<not> cache_collision sample_digest {(sample_scenario, [1])} sample_scenario [1]" by (simp add: cache_collision_def)
  have cold: "?d0 TIER1_PRECOMPUTE_FILE = None" by (simp add: TIER1_FILE_def TIER1_PRECOMPUTE_FILE_def)
  have files: "d1 TIER1_FILE = Some [1]" "d1 TIER1_PRECOMPUTE_FILE \<noteq> None"
    by (simp_all add: d1_def new_or_load_def try_load_cache_def cold write_cache_def bit_ypir_def write_cache_ops_def Let_def
        TIER1_FILE_def TIER1_PRECOMPUTE_FILE_def with_extension_def file_stem_def)
  have "ys_build bit_ypir sample_scenario [1] = (True, ())" by (simp add: bit_ypir_def)
  then show ?thesis
    using cached_start_equals_build [OF bit_ypir_contract run cold sample_scenario_wf files(1) no, of sample_target] files(2) d1_def
    by auto
qed

text \<open>
  A written cache loads back as the state it was written from; a reader with another
  build target, scenario or tier file is told which of them differs, in this order, when its
  hash differs.
\<close>

theorem cache_round_trip:
  assumes "cache_contract H Y" "d' TIER1_FILE = Some tier'"
    and "write_cache H T Y d TIER1_PRECOMPUTE_FILE (H tier) scn (fst (ys_build Y scn tier)) (snd (ys_build Y scn tier)) = (d', Ok ())"
  shows "(T' = T \<and> scn' = scn \<and> tier' = tier \<longrightarrow>
      try_load_cache H T' Y d' TIER1_PRECOMPUTE_FILE TIER1_FILE scn' = Inr (ys_build Y scn tier)) \<and>
    (target_hash H T \<noteq> target_hash H T' \<longrightarrow>
      try_load_cache H T' Y d' TIER1_PRECOMPUTE_FILE TIER1_FILE scn' = Inl TargetMismatch) \<and>
    (T' = T \<and> hash_scenario H scn \<noteq> hash_scenario H scn' \<longrightarrow>
      try_load_cache H T' Y d' TIER1_PRECOMPUTE_FILE TIER1_FILE scn' = Inl ScenarioMismatch) \<and>
    (T' = T \<and> scn' = scn \<and> H tier \<noteq> H tier' \<longrightarrow>
      try_load_cache H T' Y d' TIER1_PRECOMPUTE_FILE TIER1_FILE scn' = Inl TierSourceMismatch)"
proof -
  have H: "\<And>x. length (H x) = 32" using assms(1) by (simp add: cache_contract_def)
  from write_cache_image [OF assms(1) tier1_file_names(2) assms(3)]
  obtain bs where img: "d' TIER1_PRECOMPUTE_FILE = cache_image H T Y scn tier" "d' TIER1_PRECOMPUTE_FILE = Some bs" by blast
  then obtain p where p: "build_payload Y scn tier = Some p"
    "d' TIER1_PRECOMPUTE_FILE = Some (header_write_to (cache_header H T scn (H tier) (H p) (word_of_nat (length p))) @ p)"
    by (cases "build_payload Y scn tier") (auto simp: cache_image_def)
  show ?thesis
    using try_load_header [of H, OF H p(2) assms(2), of T' Y scn'] load_payload_built [OF assms(1) p(1), of T] by auto
qed

theorem cache_round_trip_witness:
  "\<exists>d'. write_cache sample_digest sample_target bit_ypir [TIER1_FILE \<mapsto> [1]] TIER1_PRECOMPUTE_FILE (sample_digest [1]) sample_scenario True () = (d', Ok ()) \<and>
     try_load_cache sample_digest sample_target bit_ypir d' TIER1_PRECOMPUTE_FILE TIER1_FILE sample_scenario = Inr (True, ())"
proof -
  obtain d' where w: "write_cache sample_digest sample_target bit_ypir [TIER1_FILE \<mapsto> [1]] TIER1_PRECOMPUTE_FILE (sample_digest [1]) sample_scenario True () = (d', Ok ())"
    by (simp add: write_cache_def bit_ypir_def)
  then have f: "d' TIER1_FILE = Some [1]"
    by (auto simp: write_cache_def bit_ypir_def write_cache_ops_def Let_def
        TIER1_FILE_def TIER1_PRECOMPUTE_FILE_def with_extension_def file_stem_def)
  have b: "ys_build bit_ypir sample_scenario [1] = (True, ())" by (simp add: bit_ypir_def)
  have w': "write_cache sample_digest sample_target bit_ypir [TIER1_FILE \<mapsto> [1]] TIER1_PRECOMPUTE_FILE (sample_digest [1]) sample_scenario
      (fst (ys_build bit_ypir sample_scenario [1])) (snd (ys_build bit_ypir sample_scenario [1])) = (d', Ok ())"
    using w by (simp add: b)
  from cache_round_trip [OF bit_ypir_contract f w', of sample_target sample_scenario] w show ?thesis by (simp add: b)
qed

text \<open>
  Damage inside a cache is noticed: a cache file with the header that was written and any
  other payload loads only if the other payload has the same hash.
\<close>

theorem damaged_cache_refused:
  assumes "\<And>x. length (H x) = 32" "d TIER1_FILE = Some tier" "H p' \<noteq> H p"
    and "d TIER1_PRECOMPUTE_FILE = Some (header_write_to (cache_header H T' scn' (H tier') (H p) (word_of_nat (length p))) @ p')"
  shows "\<exists>e. try_load_cache H T Y d TIER1_PRECOMPUTE_FILE TIER1_FILE scn = Inl e"
  using damaged_payload_refused [of H, OF assms(1,2,4), of T Y scn] assms(3)
  by (cases "try_load_cache H T Y d TIER1_PRECOMPUTE_FILE TIER1_FILE scn") auto

lemma digests_differ: "sample_digest [2] \<noteq> sample_digest [1]"
proof
  assume "sample_digest [2] = sample_digest [1]"
  then have "le_val (sample_digest [2]) = le_val (sample_digest [1])" by simp
  then show False by (simp add: sample_digest_def)
qed

theorem damaged_cache_refused_witness:
  "\<exists>e. try_load_cache sample_digest sample_target bit_ypir
      [TIER1_FILE \<mapsto> [1], TIER1_PRECOMPUTE_FILE \<mapsto>
         header_write_to (cache_header sample_digest sample_target sample_scenario (sample_digest [1]) (sample_digest [1]) (word_of_nat (length [1 :: 8 word]))) @ [2]]
      TIER1_PRECOMPUTE_FILE TIER1_FILE sample_scenario = Inl e"
  by (rule damaged_cache_refused [where p = "[1]" and p' = "[2]" and tier = "[1]" and tier' = "[1]" and scn' = sample_scenario and T' = sample_target])
    (simp_all add: digests_differ TIER1_FILE_def TIER1_PRECOMPUTE_FILE_def)

section \<open>Tree checkpoint and tier files\<close>

text \<open>
  C30. The tree checkpoint: a tree built from nullifiers and saved is loaded back for the same
  height, and refused for every other height.
\<close>

theorem tree_checkpoint_round_trip:
  fixes P :: "'p::len poseidon_constants"
  assumes "materialize_tree_checkpoint P B nfs d h = Inr (d', tree)"
    and "\<And>bs. bincode_serialize B (tree_to_wire tree) = Some bs \<Longrightarrow> bincode_deserialize B bs = Some (tree_to_wire tree)"
  shows "build_pir_tree_from_nullifiers P nfs = Inr tree \<and> load_tree_checkpoint B d' h = Ok (Some tree) \<and>
    read_tree_checkpoint_header d' = Ok (Some (TREE_SCHEMA_VERSION, h)) \<and>
    (\<forall>h'. h' \<noteq> h \<longrightarrow> load_tree_checkpoint B d' h' = (Bail ''nullifiers.tree height does not match'' :: 'p PirTree option result))"
proof -
  from materialize_is_build [OF assms(1)] have b: "build_pir_tree_from_nullifiers P nfs = Inr tree"
    and s: "save_tree_checkpoint B d tree h = Inr d'" by simp_all
  from load_saved_tree [OF s assms(2) built_tree_levels [OF b]] have l: "load_tree_checkpoint B d' h = Ok (Some tree)" .
  from save_tree_file [OF s] obtain payload where "d' tree_file = Some (tree_header h @ payload)" by blast
  then have "load_tree_checkpoint B d' h' = (Bail ''nullifiers.tree height does not match'' :: 'p PirTree option result)" if "h' \<noteq> h" for h'
    using that by (simp add: load_tree_checkpoint_def read_header_written)
  with b l load_tree_checkpoint_Some [OF l] show ?thesis by simp
qed

definition sample_bincode :: bincode where
  "sample_bincode = \<lparr>bincode_serialize = (\<lambda>_. Some []), bincode_deserialize = (\<lambda>_. Some (tree_to_wire sample_tree))\<rparr>"

lemma sample_materialize:
  "materialize_tree_checkpoint sample_constants sample_bincode sample_nfs Map.empty 3428150 =
     Inr (run_ops (save_tree_ops [] 3428150) Map.empty, sample_tree)"
proof -
  have "prepare_nullifiers sample_nfs = Inr sample_ranges"
    by (simp add: prepare_nullifiers_eq sample_pad_slot_free sample_ranges_def)
  moreover from this have "build_pir_tree sample_constants sample_ranges = Inr sample_tree"
    using sample_build by (simp add: build_pir_tree_from_nullifiers_def)
  ultimately show ?thesis
    by (simp add: materialize_tree_checkpoint_def save_tree_checkpoint_def encode_tree_def sample_bincode_def)
qed

theorem tree_checkpoint_round_trip_witness:
  "load_tree_checkpoint sample_bincode (run_ops (save_tree_ops [] 3428150) Map.empty) 3428150 = Ok (Some sample_tree) \<and>
   load_tree_checkpoint sample_bincode (run_ops (save_tree_ops [] 3428150) Map.empty) 3428160 =
     (Bail ''nullifiers.tree height does not match'' :: pallas PirTree option result)"
  using tree_checkpoint_round_trip [OF sample_materialize] by (auto simp: sample_bincode_def)

text \<open>
  Saving a tree is atomic: whatever operation of the save is interrupted, at whatever
  byte, the checkpoint file is the old one or the complete new one, so a later load gives the
  old answer or the new tree.
\<close>

theorem save_tree_atomic:
  assumes "encode_tree B tree = Inr payload" "bincode_deserialize B payload = Some (tree_to_wire tree)"
    and "length (pt_levels tree) = PIR_DEPTH" "crash (save_tree_ops payload h) d d'"
  shows "load_tree_checkpoint B d' = (load_tree_checkpoint B d :: u64 \<Rightarrow> 'p::len PirTree option result) \<or>
    load_tree_checkpoint B d' h = Ok (Some (tree :: 'p PirTree))"
proof (cases "d' tree_file = d tree_file")
  case True
  then have "load_tree_checkpoint B d' = (load_tree_checkpoint B d :: u64 \<Rightarrow> 'p PirTree option result)"
    by (simp add: load_tree_checkpoint_def fun_eq_iff)
  then show ?thesis ..
next
  case False
  with crash_save_tree [OF assms(4)] have "d' tree_file = Some (tree_header h @ payload)" by blast
  moreover have "run_ops (save_tree_ops payload h) d tree_file = Some (tree_header h @ payload)"
    by (simp add: save_tree_ops_def)
  ultimately have same: "load_tree_checkpoint B d' h = (load_tree_checkpoint B (run_ops (save_tree_ops payload h) d) h :: 'p PirTree option result)"
    by (simp add: load_tree_checkpoint_def)
  have "bincode_serialize B (tree_to_wire tree) = Some payload"
    using assms(1) by (cases "bincode_serialize B (tree_to_wire tree)") (simp_all add: encode_tree_def)
  moreover have "save_tree_checkpoint B d tree h = Inr (run_ops (save_tree_ops payload h) d)"
    using assms(1) by (simp add: save_tree_checkpoint_def)
  ultimately have "load_tree_checkpoint B (run_ops (save_tree_ops payload h) d) h = Ok (Some tree)"
    using assms(2,3) by (intro load_saved_tree) simp_all
  with same show ?thesis by simp
qed

theorem save_tree_atomic_witness:
  "load_tree_checkpoint sample_bincode (torn_op (WriteFile tree_file_tmp (tree_header 3428150)) 9 Map.empty) =
      (load_tree_checkpoint sample_bincode Map.empty :: u64 \<Rightarrow> pallas PirTree option result) \<or>
   load_tree_checkpoint sample_bincode (torn_op (WriteFile tree_file_tmp (tree_header 3428150)) 9 Map.empty) 3428150 = Ok (Some sample_tree)"
proof (rule save_tree_atomic [where payload = "[]"])
  show "encode_tree sample_bincode sample_tree = Inr []" by (simp add: encode_tree_def sample_bincode_def)
  show "bincode_deserialize sample_bincode [] = Some (tree_to_wire sample_tree)" by (simp add: sample_bincode_def)
  show "length (pt_levels sample_tree) = PIR_DEPTH" by (rule built_tree_levels [OF sample_build])
  have "crash [WriteFile tree_file_tmp (tree_header 3428150), RenameFile tree_file_tmp tree_file] Map.empty
     (torn_op (WriteFile tree_file_tmp (tree_header 3428150)) 9 Map.empty)"
    by (rule crash.torn)
  moreover have "apply_op (RemoveFile tree_file_tmp) Map.empty = Map.empty" by (simp add: fun_eq_iff)
  ultimately show "crash (save_tree_ops [] 3428150) Map.empty (torn_op (WriteFile tree_file_tmp (tree_header 3428150)) 9 Map.empty)"
    unfolding save_tree_ops_def append_Nil2 by (metis crash.later)
qed

text \<open>
  An export is complete for its height: the check that decides whether an existing export
  can be served accepts the directory right after an export of a built tree, for that network
  and height, and for no other height or network.
\<close>

theorem complete_after_export:
  fixes P :: "'p::len poseidon_constants"
  assumes "build_pir_tree_from_nullifiers P nfs = Inr tree" "validate_supported L = Inr ()" "pir_depth L = PIR_DEPTH"
    and "meta_from_json C (meta_to_json C (snapshot_meta C P (pt_ranges tree) network (Some h) L)) =
      Some (snapshot_meta C P (pt_ranges tree) network (Some h) L)"
    and "hex_to C (hex_of C (to_repr (pt_pir_root tree))) = Some (to_repr (pt_pir_root tree))"
  shows "tiers_complete_for_height TYPE('p) C (fst (export_all_with_layout C tree d network (Some h) L)) network' h' =
    Ok (network' = network \<and> h' = h)"
proof -
  have tree: "tree = pir_tree_of P (pt_ranges tree)"
    using assms(1) by (simp add: build_pir_tree_from_nullifiers_Ok_iff pir_tree_of_def Let_def)
  have L: "supported L" using assms(2) by (simp add: validate_supported_iff)
  let ?d = "fst (export_all_with_layout C tree d network (Some h) L)"
  show ?thesis
  proof (cases "network' = network \<and> h' = h")
    case True
    then show ?thesis
      using tiers_complete_after_export [OF L assms(3,4), of d] assms(5) tree by simp
  next
    case False
    let ?m = "snapshot_meta C P (pt_ranges tree) network (Some h) L"
    have "?d root_file = Some (meta_to_json C ?m)"
      using export_all_with_layout_eq [OF L assms(3), of C P "pt_ranges tree" d network "Some h"] tree
      by (simp add: run_export_ops)
    moreover have "\<not> metadata_matches ?m network' h'"
      using False by (auto simp: metadata_matches_def snapshot_meta_def export_metadata_def split: sum.splits)
    ultimately show ?thesis using False assms(4) by (auto simp: tiers_complete_for_height_def)
  qed
qed

theorem complete_after_export_witness:
  "tiers_complete_for_height TYPE(pallas) sample_codec
     (fst (export_all_with_layout sample_codec sample_tree Map.empty Main (Some 3428150) COMPILED_PIR_LAYOUT)) Main 3428150 = Ok True \<and>
   tiers_complete_for_height TYPE(pallas) sample_codec
     (fst (export_all_with_layout sample_codec sample_tree Map.empty Main (Some 3428150) COMPILED_PIR_LAYOUT)) Test 3428150 = Ok False"
proof -
  note c = complete_after_export [OF sample_build compiled_layout_supported compiled_depth, of sample_codec Main 3428150 Map.empty]
  show ?thesis
    using c [of Main 3428150] c [of Test 3428150] by (simp add: sample_meta_round_trip sample_hex_round_trip)
qed

text \<open>
  An interrupted export is not taken for a complete one: if the check accepts a directory
  that an export was writing when the process died, then either none of the three files has
  been touched, or the metadata on disk carries the root of the tree that was being exported.
\<close>

theorem interrupted_export_noticed:
  fixes P :: "'p::len poseidon_constants"
  assumes "validate_supported L = Inr ()" "pir_depth L = PIR_DEPTH"
    and "crash (export_ops C (snapshot_meta C P ranges network height L) (tier0_of P ranges L) (tier1_of ranges L)) d d'"
    and "tiers_complete_for_height TYPE('p) C d' network' h = Ok True"
  shows "export_all_with_layout C (pir_tree_of P ranges) d network height L =
      (run_ops (export_ops C (snapshot_meta C P ranges network height L) (tier0_of P ranges L) (tier1_of ranges L)) d, Ok ()) \<and>
    ((d' tier0_file = d tier0_file \<and> d' tier1_file = d tier1_file \<and> d' root_file = d root_file) \<or>
     (\<exists>m. Option.bind (d' root_file) (meta_from_json C) = Some m \<and>
          hex_to C (md_pir_root m) = Some (to_repr (pt_pir_root (pir_tree_of P ranges)))))"
proof
  have L: "supported L" using assms(1) by (simp add: validate_supported_iff)
  then show "export_all_with_layout C (pir_tree_of P ranges) d network height L =
      (run_ops (export_ops C (snapshot_meta C P ranges network height L) (tier0_of P ranges L) (tier1_of ranges L)) d, Ok ())"
    using assms(2) by (rule export_all_with_layout_eq)
  from L have "0 < tier0_layers L" by (simp add: supported_def)
  from interrupted_export_detected [OF assms(3) this assms(4)]
  show "(d' tier0_file = d tier0_file \<and> d' tier1_file = d tier1_file \<and> d' root_file = d root_file) \<or>
     (\<exists>m. Option.bind (d' root_file) (meta_from_json C) = Some m \<and>
          hex_to C (md_pir_root m) = Some (to_repr (pt_pir_root (pir_tree_of P ranges))))" .
qed

theorem interrupted_export_noticed_witness:
  "\<exists>d' m. crash (export_ops sample_codec (snapshot_meta sample_codec sample_constants sample_ranges Main (Some 3428150) COMPILED_PIR_LAYOUT)
        (tier0_of sample_constants sample_ranges COMPILED_PIR_LAYOUT) (tier1_of sample_ranges COMPILED_PIR_LAYOUT)) Map.empty d' \<and>
     Option.bind (d' root_file) (meta_from_json sample_codec) = Some m"
proof -
  let ?ops = "export_ops sample_codec (snapshot_meta sample_codec sample_constants sample_ranges Main (Some 3428150) COMPILED_PIR_LAYOUT)
    (tier0_of sample_constants sample_ranges COMPILED_PIR_LAYOUT) (tier1_of sample_ranges COMPILED_PIR_LAYOUT)"
  have eq: "export_all_with_layout sample_codec (pir_tree_of sample_constants sample_ranges) Map.empty Main (Some 3428150) COMPILED_PIR_LAYOUT =
      (run_ops ?ops Map.empty, Ok ())"
    by (rule export_all_with_layout_eq [OF supported_compiled compiled_depth])
  have "tiers_complete_for_height TYPE(pallas) sample_codec (run_ops ?ops Map.empty) Main 3428150 = Ok True"
    using tiers_complete_after_export [OF supported_compiled compiled_depth, of sample_codec sample_constants sample_ranges Main 3428150 Map.empty] eq
    by (simp add: sample_meta_round_trip sample_hex_round_trip)
  from interrupted_export_noticed [OF compiled_layout_supported compiled_depth crash_complete this]
  obtain m where "Option.bind (run_ops ?ops Map.empty root_file) (meta_from_json sample_codec) = Some m"
    by (auto simp: run_export_ops)
  then show ?thesis using crash_complete [of ?ops Map.empty] by blast
qed

end
