(* ===== verification/Store_Theorems.thy ===== *)
theory Store_Theorems
  imports Sync_Correct
begin

text \<open>
  The properties of the nullifier store and of ingestion, each with a concrete instance:
  dataset identity, the nullifier file, the checkpoint and the height index of
  \<^verbatim>\<open>nf-ingest/src/file_store.rs\<close>, and the sync loop of \<^verbatim>\<open>nf-ingest/src/sync_nullifiers.rs\<close>
  with crashes between any two bytes it writes.
\<close>

section \<open>A sample chain\<close>

text \<open>A marker coding that knows the marker of mainnet.\<close>

definition main_marker :: DatasetMarker where
  "main_marker = \<lparr>dm_zcash_network = Main, dm_nullifier_pool = NULLIFIER_POOL, dm_dataset_version = DATASET_VERSION\<rparr>"

definition sample_markers :: marker_json where
  "sample_markers = \<lparr>marker_to_json = (\<lambda>_. []), marker_from_json = (\<lambda>_. Some main_marker)\<rparr>"

text \<open>A chain whose every block has one transaction with the given nullifier.\<close>

definition const_chain :: "bytes \<Rightarrow> chain" where
  "const_chain nf h = \<lparr>cb_height = word_of_nat h, cb_vtx = [\<lparr>ironwood_actions = [nf]\<rparr>]\<rparr>"

definition const_lwd :: "bytes \<Rightarrow> nat \<Rightarrow> lwd" where
  "const_lwd nf tip = \<lparr>lwd_latest = Ok tip,
     lwd_tree_state = (\<lambda>h. Ok \<lparr>ts_network = as_str Main, ts_height = h, ts_ironwood_tree = ''00''\<rparr>),
     lwd_blocks = (\<lambda>s e. Ok (map (const_chain nf) [s..<Suc e]))\<rparr>"

lemma const_serves: "serves (const_chain nf) h (const_lwd nf tip)"
  by (simp add: serves_def const_lwd_def del: upt_Suc)

lemma const_block_nfs: "block_nfs (const_chain nf h) = [(word_of_nat h, nf)]"
  by (simp add: block_nfs_def const_chain_def)

lemma const_chain_wf: "length nf = 32 \<Longrightarrow> chain_wf (const_chain nf)"
  by (simp add: chain_wf_def const_chain_def)

lemma length_const_chain: "length (chain_nfs (const_chain nf) s e) = Suc e - s"
  by (simp add: chain_nfs_def const_block_nfs length_concat comp_def sum_list_triv del: upt_Suc)

lemma const_chain_bytes: "map snd (chain_nfs (const_chain nf) s e) = replicate (Suc e - s) nf"
proof -
  have "map snd (concat (map (\<lambda>h. block_nfs (const_chain nf h)) hs)) = replicate (length hs) nf" for hs
    by (induction hs) (simp_all add: const_block_nfs)
  then show ?thesis by (simp add: chain_nfs_def del: upt_Suc)
qed

lemma const_tip: "lwd_latest (const_lwd nf tip) = Ok tip"
  by (simp add: const_lwd_def)

lemma const_tree_state: "require_ironwood_tree_state (const_lwd nf tip) Main h = Inr ()"
  by (simp add: require_ironwood_tree_state_def const_lwd_def validate_ironwood_tree_state_def)

abbreviation sample_chain :: chain where
  "sample_chain \<equiv> const_chain (replicate 32 1)"

abbreviation sample_lwd :: "nat \<Rightarrow> lwd" where
  "sample_lwd \<equiv> const_lwd (replicate 32 1)"

lemma sample_chain_wf: "chain_wf sample_chain"
  by (simp add: const_chain_wf)

lemma fresh_recovers: "recovers Map.empty None"
  by (simp add: recovers_def committed_bytes_def)

lemma fresh_dataset:
  "ensure_ironwood_dataset sample_markers Map.empty Main = Ok [DATASET_MARKER_FILENAME \<mapsto> [10]]"
  by (simp add: ensure_ironwood_dataset_def sample_markers_def marker_tmp_def DATASET_MARKER_FILENAME_def fun_eq_iff)

lemma marked_dataset:
  "d DATASET_MARKER_FILENAME = Some bs \<Longrightarrow> ensure_ironwood_dataset sample_markers d Main = Ok d"
  by (simp add: ensure_ironwood_dataset_def check_marker_def sample_markers_def main_marker_def is_current_dataset_def)

lemma fresh_resume:
  "resume_height sample_markers Map.empty Main = Ok (3428142, [DATASET_MARKER_FILENAME \<mapsto> [10]])"
  by (simp add: resume_height_def fresh_dataset load_checkpoint_def truncate_to_checkpoint_def
      NU6_3_MAINNET_ACTIVATION_HEIGHT_def)

lemma fresh_clean: "clean [DATASET_MARKER_FILENAME \<mapsto> [10]] None"
  using resume_restores(1) [OF fresh_recovers fresh_resume] .

section \<open>Crash safety\<close>

text \<open>
  A commit cycle (append the nullifiers, write the checkpoint, rename it, append to the
  index) that is cut at any operation and any byte is all or nothing: the next start finds
  exactly the bytes and the height from before the cycle, or exactly those after it.
\<close>

theorem crash_then_resume:
  assumes "clean d a" "\<forall>(_, nf) \<in> set nfs. length nf = 32" "length (committed_bytes a) + 32 * length nfs < 2 ^ 64"
    and "crash (cycle_ops d nfs h) d d'" "resume_height J d' network = Inr (start, d'')"
  shows "commit_cycle d nfs h = Inr (run_ops (cycle_ops d nfs h) d) \<and>
    (\<exists>b. (b = a \<or> b = acommit a h nfs) \<and> clean d'' b \<and> file_bytes d'' nullifiers_path = committed_bytes b \<and>
       start = (case b of None \<Rightarrow> nu6_3_activation_height network - 1 | Some (h, _) \<Rightarrow> unat h))"
proof
  show "commit_cycle d nfs h = Inr (run_ops (cycle_ops d nfs h) d)" using assms(2) by (simp add: commit_cycle_ops)
  obtain b where b: "b = a \<or> b = acommit a h nfs" "recovers d' b" using crash_cycle [OF assms(1-4)] by blast
  from resume_restores [OF b(2) assms(5)] b(1)
  show "\<exists>b. (b = a \<or> b = acommit a h nfs) \<and> clean d'' b \<and> file_bytes d'' nullifiers_path = committed_bytes b \<and>
       start = (case b of None \<Rightarrow> nu6_3_activation_height network - 1 | Some (h, _) \<Rightarrow> unat h)"
    by (auto simp: clean_def)
qed

theorem crash_then_resume_witness:
  "\<exists>b d''. resume_height sample_markers
       (torn_op (AppendFile nullifiers_path (replicate 32 1)) 5 [DATASET_MARKER_FILENAME \<mapsto> [10]]) Main = Inr (3428142, d'') \<and>
     clean d'' b"
proof -
  let ?d = "[DATASET_MARKER_FILENAME \<mapsto> [10]] :: dir" and ?nfs = "[(3428143, replicate 32 1)] :: (u64 \<times> bytes) list"
  let ?t = "torn_op (AppendFile nullifiers_path (replicate 32 1)) 5 ?d"
  have "crash (AppendFile nullifiers_path (replicate 32 1) # ops) (apply_op (AppendFile nullifiers_path []) ?d) ?t" for ops
    using crash.torn [of "AppendFile nullifiers_path (replicate 32 1)" ops "apply_op (AppendFile nullifiers_path []) ?d" 5]
    by (simp add: file_bytes_def)
  then have cr: "crash (cycle_ops ?d ?nfs 3428143) ?d ?t"
    unfolding cycle_ops_def append_nullifiers_ops_def by (auto intro: crash.later)
  have "?t DATASET_MARKER_FILENAME = Some [10]" by simp
  then have e: "ensure_ironwood_dataset sample_markers ?t Main = Ok ?t" by (rule marked_dataset)
  have r: "resume_height sample_markers ?t Main = Inr (3428142, truncate_to_checkpoint ?t 0)"
    using e by (simp add: resume_height_def load_checkpoint_def NU6_3_MAINNET_ACTIVATION_HEIGHT_def)
  have "\<forall>(_, nf) \<in> set ?nfs. length nf = 32" "length (committed_bytes None) + 32 * length ?nfs < 2 ^ 64"
    by (simp_all add: committed_bytes_def)
  from crash_then_resume [OF fresh_clean this cr r] r show ?thesis by blast
qed

text \<open>
  C8. The store refines its specification. Over any history of starts, commits, stops and
  crashes inside a commit, the directory recovers to a state of the abstract store, which only
  changes by whole batches: the committed bytes only grow, in whole 32-byte nullifiers, and a
  running session holds exactly the committed bytes.
\<close>

theorem store_refines:
  assumes "(store_step J network)\<^sup>*\<^sup>* (False, Map.empty) (running, d)"
  shows "\<exists>a. astep\<^sup>*\<^sup>* None a \<and> recovers d a \<and> length (committed_bytes a) mod 32 = 0 \<and>
    load_checkpoint d = Ok (case a of None \<Rightarrow> None | Some (h, bs) \<Rightarrow> Some (h, word_of_nat (length bs))) \<and>
    (running \<longrightarrow> file_bytes d nullifiers_path = committed_bytes a)"
proof -
  have "store_rel (False, Map.empty) None" by (simp add: store_rel_def fresh_recovers)
  from store_reachable_refines [OF assms this] obtain a where a: "store_rel (running, d) a" "astep\<^sup>*\<^sup>* None a" by blast
  from acommit_whole_nullifiers [OF a(2)] have "length (committed_bytes a) mod 32 = 0" by (simp add: committed_bytes_def)
  with a store_rel_recovers [OF a(1)] load_checkpoint_recovers show ?thesis
    by (intro exI [of _ a]) (auto simp: store_rel_def clean_def)
qed

theorem store_refines_witness:
  "\<exists>d a. (store_step sample_markers Main)\<^sup>*\<^sup>* (False, Map.empty) (True, d) \<and> astep\<^sup>*\<^sup>* None a \<and>
     file_bytes d nullifiers_path = committed_bytes a \<and> d checkpoint_path \<noteq> None"
proof -
  let ?d = "[DATASET_MARKER_FILENAME \<mapsto> [10]] :: dir" and ?nfs = "block_nfs (sample_chain 3428143)"
  let ?d' = "run_ops (cycle_ops ?d ?nfs 3428143) ?d"
  have "store_step sample_markers Main (False, Map.empty) (True, ?d)" by (rule store_step.resume [OF fresh_resume])
  moreover have "commit_cycle ?d ?nfs 3428143 = Inr ?d'" by (simp add: commit_cycle_ops const_block_nfs)
  then have "store_step sample_markers Main (True, ?d) (True, ?d')"
    by (rule store_step.commit) (simp add: file_bytes_def const_block_nfs)
  ultimately have run: "(store_step sample_markers Main)\<^sup>*\<^sup>* (False, Map.empty) (True, ?d')"
    by (meson converse_rtranclp_into_rtranclp rtranclp.rtrancl_refl)
  have "?d' checkpoint_path \<noteq> None"
    by (simp add: cycle_ops_def save_checkpoint_ops_def append_index_ops_def)
  with store_refines [OF run] run show ?thesis by blast
qed

text \<open>
  Starting up always succeeds on a directory the store left behind, with one exception: a
  checkpoint from before the activation of the pool is refused. Otherwise the height returned is
  the committed one (or the block before activation), and the data file is cut to the
  committed bytes.
\<close>

theorem resume_total:
  assumes "recovers d a" "ensure_ironwood_dataset J d network = Inr d0"
  shows "case a of
     None \<Rightarrow> \<exists>d'. resume_height J d network = Ok (nu6_3_activation_height network - 1, d') \<and> clean d' None
   | Some (h, bs) \<Rightarrow>
       if unat h < nu6_3_activation_height network
       then resume_height J d network = Bail ''checkpoint height predates NU6.3 activation''
       else \<exists>d'. resume_height J d network = Ok (unat h, d') \<and> clean d' a"
proof -
  note lc = load_checkpoint_recovers [OF ensure_dataset_recovers [OF assms(2,1)]]
  show ?thesis
  proof (cases a)
    case None
    then have "resume_height J d network = Ok (nu6_3_activation_height network - 1, truncate_to_checkpoint d0 0)"
      using lc assms(2) by (simp add: resume_height_def)
    with resume_restores(1) [OF assms(1) this] None show ?thesis by simp
  next
    case (Some p)
    obtain h bs where a: "a = Some (h, bs)" using Some by (cases p) simp
    show ?thesis
    proof (cases "unat h < nu6_3_activation_height network")
      case True
      with lc assms(2) a show ?thesis by (simp add: resume_height_def)
    next
      case False
      then have "resume_height J d network = Ok (unat h, truncate_to_checkpoint d0 (word_of_nat (length bs)))"
        using lc assms(2) a by (simp add: resume_height_def)
      with resume_restores(1) [OF assms(1) this] a False show ?thesis by simp
    qed
  qed
qed

theorem resume_total_witness:
  "\<exists>d'. resume_height sample_markers Map.empty Main = Ok (3428142, d') \<and> clean d' None"
  using resume_total [OF fresh_recovers fresh_dataset] by (simp add: NU6_3_MAINNET_ACTIVATION_HEIGHT_def)

section \<open>Ingestion\<close>

text \<open>
  C14. A sync against servers whose block streams are those of one chain terminates and returns: the store then
  holds, after the bytes it had committed, exactly the nullifiers of all Ironwood actions of all
  transactions of the blocks from the one after the resume height to the target, in chain order, with the target as the committed
  height, and the result counts the blocks and nullifiers.
\<close>

theorem sync_correct:
  assumes "lwd_urls \<noteq> []" "recovers d a" "ensure_ironwood_dataset J d network = Inr d0"
    and "List.map_filter connect_lwd lwd_urls = client # clients" "lwd_latest client = Inr tip"
    and "resume_height J d0 network = Inr (start, d1)" "resolve_target start max_height tip = Inr target"
    and "\<And>c. c \<in> set (client # clients) \<Longrightarrow> require_ironwood_tree_state c network target = Inr () \<and> serves chain target c"
    and "chain_wf chain" "target + BATCH_SIZE < 2 ^ USIZE_BITS" "start < target"
    and "length (committed_bytes a) + 32 * length (chain_nfs chain (start + 1) target) < 2 ^ 64"
  shows "\<exists>d'. sync J connect_lwd d lwd_urls network max_height =
      Ok (d', \<lparr>sr_chain_tip = tip, sr_blocks_synced = target - start,
               sr_nullifiers_synced = length (chain_nfs chain (start + 1) target)\<rparr>) \<and>
    file_bytes d' nullifiers_path = committed_bytes a @ concat (map snd (chain_nfs chain (start + 1) target)) \<and>
    load_checkpoint d' = Ok (Some (word_of_nat target, word_of_nat (length (file_bytes d' nullifiers_path))))"
  by (rule sync_chain [OF assms])

theorem sync_correct_witness:
  "\<exists>d'. sync sample_markers (\<lambda>_. Some (sample_lwd 3428150)) Map.empty [''https://zec.rocks:443''] Main None =
      Ok (d', \<lparr>sr_chain_tip = 3428150, sr_blocks_synced = 8, sr_nullifiers_synced = 8\<rparr>) \<and>
    length (file_bytes d' nullifiers_path) = 256"
proof -
  let ?d0 = "[DATASET_MARKER_FILENAME \<mapsto> [10]] :: dir" and ?c = "sample_lwd 3428150"
  have res: "resume_height sample_markers ?d0 Main = Inr (3428142, ?d0)"
    using marked_dataset [of ?d0 "[10]"]
    by (simp add: resume_height_def load_checkpoint_def truncate_to_checkpoint_def NU6_3_MAINNET_ACTIVATION_HEIGHT_def)
  have tip: "lwd_latest ?c = Inr 3428150" by (simp add: const_lwd_def)
  have tgt: "resolve_target 3428142 None 3428150 = Inr 3428150" by (simp add: resolve_target_def)
  have ts: "require_ironwood_tree_state ?c Main 3428150 = Inr () \<and> serves sample_chain 3428150 ?c"
    by (simp add: const_serves const_tree_state)
  have len: "length (concat (map snd (chain_nfs sample_chain 3428143 3428150))) = 256"
    using cycle_appended [OF chain_nfs_lengths [OF sample_chain_wf, of 3428143 3428150]] by (simp add: length_const_chain)
  have "\<exists>d'. sync sample_markers (\<lambda>_. Some ?c) Map.empty [''https://zec.rocks:443''] Main None =
      Ok (d', \<lparr>sr_chain_tip = 3428150, sr_blocks_synced = 3428150 - 3428142,
               sr_nullifiers_synced = length (chain_nfs sample_chain (3428142 + 1) 3428150)\<rparr>) \<and>
    file_bytes d' nullifiers_path = committed_bytes None @ concat (map snd (chain_nfs sample_chain (3428142 + 1) 3428150)) \<and>
    load_checkpoint d' = Ok (Some (word_of_nat 3428150, word_of_nat (length (file_bytes d' nullifiers_path))))"
    by (rule sync_correct [where client = ?c and clients = "[]", OF _ fresh_recovers fresh_dataset _ tip res tgt _ sample_chain_wf])
      (use ts in \<open>simp_all add: map_filter_simps BATCH_SIZE_def USIZE_BITS_def committed_bytes_def length_const_chain\<close>)
  then show ?thesis using len by (auto simp: length_const_chain committed_bytes_def)
qed

text \<open>
  The batches of a cycle: at least one and at most one per client, consecutive from the
  current height, none beyond the target, none longer than \<open>BATCH_SIZE\<close> blocks.
\<close>

theorem batches_are_consecutive:
  assumes "current \<le> target" "0 < n" "target + BATCH_SIZE < 2 ^ USIZE_BITS"
  shows "\<exists>ranges. build_batch_ranges current target n = Ok ranges \<and> ranges \<noteq> [] \<and> length ranges \<le> n \<and>
    concat (map (\<lambda>(s, e). [s..<Suc e]) ranges) = [current..<Suc (snd (last ranges))] \<and>
    snd (last ranges) \<le> target \<and> (\<forall>(s, e) \<in> set ranges. s \<le> e \<and> e < s + BATCH_SIZE)"
  using build_batch_ranges_Ok [OF assms] by (elim exE conjE) (intro exI conjI, assumption+)

theorem batches_are_consecutive_witness:
  "build_batch_ranges 3428143 3450000 2 = Ok [(3428143, 3438142), (3438143, 3448142)] \<and>
   (\<exists>ranges. build_batch_ranges 3428143 3450000 2 = Ok ranges \<and> length ranges \<le> 2 \<and> snd (last ranges) \<le> 3450000)"
proof
  have "build_batch_ranges 3428143 3450000 (Suc (Suc 0)) = Ok [(3428143, 3438142), (3438143, 3448142)]"
    by (simp add: checked_add_def USIZE_BITS_def BATCH_SIZE_def)
  then show "build_batch_ranges 3428143 3450000 2 = Ok [(3428143, 3438142), (3438143, 3448142)]"
    by (simp only: numeral_2_eq_2)
  show "\<exists>ranges. build_batch_ranges 3428143 3450000 2 = Ok ranges \<and> length ranges \<le> 2 \<and> snd (last ranges) \<le> 3450000"
  proof -
    have fits: "3450000 + BATCH_SIZE < 2 ^ USIZE_BITS" by (simp add: BATCH_SIZE_def USIZE_BITS_def)
    have le: "(3428143 :: nat) \<le> 3450000" by simp
    show ?thesis
      using batches_are_consecutive [OF le zero_less_numeral fits, of "num.Bit0 num.One"]
      by (elim exE conjE) (intro exI conjI, assumption+)
  qed
qed

text \<open>
  The extraction of nullifiers from a block: all nullifiers of all transactions in block
  order, each with the block's height, or an error if one of them does not have 32 bytes.
\<close>

theorem extraction_exact:
  "extract_ironwood_nullifiers block =
     (if \<forall>tx \<in> set (cb_vtx block). \<forall>nf \<in> set (ironwood_actions tx). length nf = 32
      then Ok (map (Pair (cb_height block)) (concat (map ironwood_actions (cb_vtx block))))
      else Bail ''Ironwood nullifier has wrong length'')"
  by (rule extract_ironwood_nullifiers_eq)

theorem extraction_exact_witness:
  "extract_ironwood_nullifiers \<lparr>cb_height = 9, cb_vtx = [\<lparr>ironwood_actions = [replicate 32 1]\<rparr>, \<lparr>ironwood_actions = [replicate 32 2]\<rparr>]\<rparr> =
     Ok [(9, replicate 32 1), (9, replicate 32 2)]"
  unfolding extraction_exact by simp

section \<open>Files\<close>

text \<open>
  The height index, with non-decreasing heights as commits write them: the binary search
  returns the last entry at or below the target, or nothing when there is none.
\<close>

theorem index_lookup:
  assumes "d index_path = Some (index_blob es)" "sorted (map fst es)"
  shows "offset_for_height d target =
    Ok (if filter (\<lambda>e. fst e \<le> target) es = [] then None
        else Some (last (filter (\<lambda>e. fst e \<le> target) es)))"
  using assms by (rule offset_for_height_sorted)

theorem index_lookup_witness:
  "offset_for_height [index_path \<mapsto> index_blob [(10, 320), (20, 640), (20, 704), (30, 960)]] 25 = Ok (Some (20, 704))"
  by (subst index_lookup [of _ "[(10, 320), (20, 640), (20, 704), (30, 960)]"]) simp_all

text \<open>
  The checkpoint round trip: what \<open>save_checkpoint\<close> wrote is what \<open>load_checkpoint\<close> returns,
  for every height and offset and whatever the directory held; a checkpoint file of another
  length is reported as corrupt, and a missing one as none.
\<close>

theorem checkpoint_round_trip:
  "load_checkpoint (save_checkpoint d h off) = Ok (Some (h, off)) \<and>
   (load_checkpoint d = Ok None \<longleftrightarrow> d checkpoint_path = None) \<and>
   (load_checkpoint d = Bail ''corrupt checkpoint'' \<longleftrightarrow>
      (\<exists>bs. d checkpoint_path = Some bs \<and> length bs \<noteq> 16)) \<and>
   offset_for_height (save_checkpoint Map.empty h off) h = Ok (Some (h, off))"
proof (intro conjI)
  show "load_checkpoint (save_checkpoint d h off) = Ok (Some (h, off))" by (rule load_save_checkpoint)
  show "load_checkpoint d = Ok None \<longleftrightarrow> d checkpoint_path = None"
    by (simp add: load_checkpoint_def split: option.split)
  show "load_checkpoint d = Bail ''corrupt checkpoint'' \<longleftrightarrow> (\<exists>bs. d checkpoint_path = Some bs \<and> length bs \<noteq> 16)"
    by (simp add: load_checkpoint_def CHECKPOINT_SIZE_def split: option.split)
  have "save_checkpoint Map.empty h off index_path = Some (index_blob [(h, off)])"
    by (simp add: save_checkpoint_index file_bytes_def index_blob_def)
  then show "offset_for_height (save_checkpoint Map.empty h off) h = Ok (Some (h, off))"
    by (simp add: offset_for_height_sorted)
qed

text \<open>
  C29. A torn append to the index is never repaired. There is a moment in \<open>save_checkpoint\<close>
  at which a crash leaves a committed checkpoint and an index whose length is not a multiple of
  the entry size; the start-up rebuild does not touch it, and however many checkpoints
  follow, every lookup reports a corrupt index.
\<close>

theorem torn_index_never_repaired:
  assumes "d index_path = Some (index_blob es)"
  shows "\<exists>d'. crash (save_checkpoint_ops h off) d d' \<and> load_checkpoint d' = Ok (Some (h, off)) \<and>
    rebuild_index d' = Ok d' \<and>
    (\<forall>entries t. offset_for_height (fold (\<lambda>(h, off) d. save_checkpoint d h off) entries d') t = Bail ''corrupt index file'')"
proof -
  let ?ops = "[WriteFile checkpoint_tmp (checkpoint_bytes h off), RenameFile checkpoint_tmp checkpoint_path]"
  let ?d = "run_ops ?ops d"
  let ?t = "torn_op (AppendFile index_path (checkpoint_bytes h off)) 7 ?d"
  have "crash (append_index_ops h off) ?d ?t" unfolding append_index_ops_def by (rule crash.torn)
  then have cr: "crash (save_checkpoint_ops h off) d ?t"
    unfolding save_checkpoint_ops_def crash_append_iff by (rule disjI2)
  have "?d index_path = d index_path" by simp
  then have ix: "?t index_path = Some (index_blob es @ take 7 (checkpoint_bytes h off))"
    using assms by (simp add: file_bytes_def)
  have cp: "load_checkpoint ?t = Ok (Some (h, off))"
    by (simp add: load_checkpoint_def checkpoint_bytes_def CHECKPOINT_SIZE_def)
  have "length (file_bytes ?t index_path) mod 16 \<noteq> 0"
    using ix by (simp add: file_bytes_def)
  then have "offset_for_height (fold (\<lambda>(h, off) d. save_checkpoint d h off) entries ?t) t = Bail ''corrupt index file''"
    for entries t by (rule torn_index_corrupt)
  moreover have "rebuild_index ?t = Ok ?t" using ix by (simp add: rebuild_index_def)
  ultimately show ?thesis using cr cp by blast
qed

theorem torn_index_never_repaired_witness:
  "\<exists>d'. crash (save_checkpoint_ops 20 640) [index_path \<mapsto> index_blob [(10, 320)]] d' \<and>
     offset_for_height (save_checkpoint d' 30 960) 20 = Bail ''corrupt index file''"
proof -
  obtain d' where "crash (save_checkpoint_ops 20 640) [index_path \<mapsto> index_blob [(10, 320)]] d'"
    "\<forall>entries t. offset_for_height (fold (\<lambda>(h, off) d. save_checkpoint d h off) entries d') t = Bail ''corrupt index file''"
    using torn_index_never_repaired [of "[index_path \<mapsto> index_blob [(10, 320)]]" "[(10, 320)]" 20 640] by auto
  from this(1) this(2) [THEN spec, THEN spec, of "[(30, 960)]" 20] show ?thesis by auto
qed

text \<open>
  The nullifier file. Appending nullifiers returns the new length, and loading gives back
  the elements that were there followed by the new ones; the prefix up to the old offset
  loads as before. An append with a nullifier of another length changes nothing.
\<close>

theorem nullifier_file_round_trip:
  fixes us vs :: "'p::len fp list"
  assumes "d nullifiers_path = Some (concat (map to_repr us))" "32 * (length us + length vs) < 2 ^ 64"
    and "map snd nfs = map to_repr vs"
  shows "\<exists>d'. append_nullifiers d nfs = Ok (d', word_of_nat (32 * (length us + length vs))) \<and>
    load_all_nullifiers d' = Ok (us @ vs) \<and>
    load_nullifiers_up_to d' (word_of_nat (32 * length us)) = Ok us \<and>
    nullifier_count d' = word_of_nat (length us + length vs)"
proof -
  let ?d' = "run_ops (append_nullifiers_ops nfs) d" and ?data = "concat (map to_repr (us @ vs))"
  have n: "length nfs = length vs" using assms(3) by (metis length_map)
  have "snd ` set nfs = to_repr ` set vs" using assms(3) by (metis set_map)
  then have "\<forall>nf \<in> snd ` set nfs. length nf = 32" by auto
  then have len: "\<forall>(_, nf) \<in> set nfs. length nf = 32" by fastforce
  have d': "?d' nullifiers_path = Some ?data"
    using run_appends [of nullifiers_path "[] # map snd nfs" d] assms(1,3)
    by (simp add: append_nullifiers_ops_def file_bytes_def)
  have dl: "length ?data = 32 * (length us + length vs)" by (simp add: fp_codec.length_concat_enc)
  have pre: "take (32 * length us) ?data = concat (map to_repr us)" by (simp add: fp_codec.length_concat_enc)
  have ap: "append_nullifiers d nfs = Ok (?d', word_of_nat (32 * (length us + length vs)))"
    using len n assms(1) by (simp add: append_nullifiers_Ok_iff file_bytes_def fp_codec.length_concat_enc add.commute)
  have "load_all_nullifiers ?d' = Ok (us @ vs)"
    using d' dl parse_nullifier_bytes_concat [of "us @ vs"] by (simp add: load_all_nullifiers_def NULLIFIER_SIZE_def)
  moreover have "unat (word_of_nat (32 * length us) :: u64) = 32 * length us"
    using assms(2) by (simp add: unat_of_nat del: of_nat_mult)
  then have "load_nullifiers_up_to ?d' (word_of_nat (32 * length us)) = Ok us"
    using d' dl pre parse_nullifier_bytes_concat [of us]
    by (cases vs) (simp_all add: load_nullifiers_up_to_def NULLIFIER_SIZE_def Let_def)
  moreover have "nullifier_count ?d' = word_of_nat (length us + length vs)"
    using d' dl by (simp add: nullifier_count_def NULLIFIER_SIZE_def)
  ultimately show ?thesis using ap by blast
qed

theorem nullifier_file_round_trip_witness:
  "\<exists>d'. append_nullifiers [nullifiers_path \<mapsto> to_repr (5 :: 8 fp)] [(7, to_repr (9 :: 8 fp))] = Ok (d', 64) \<and>
     load_all_nullifiers d' = Ok [5 :: 8 fp, 9]"
  using nullifier_file_round_trip [of "[nullifiers_path \<mapsto> to_repr (5 :: 8 fp)]" "[5]" "[9 :: 8 fp]" "[(7, to_repr (9 :: 8 fp))]"]
  by auto

section \<open>Dataset identity\<close>

text \<open>
  The dataset marker decides who may use a directory. A directory with a marker is accepted,
  unchanged, exactly when the marker names the expected network, pool and dataset version; one
  without a marker is accepted exactly when it holds none of the raw artifacts, and then the
  marker is written and nothing else; a later call with the same network accepts it.
\<close>

theorem dataset_marker:
  assumes "marker_from_json J (marker_to_json J \<lparr>dm_zcash_network = network, dm_nullifier_pool = NULLIFIER_POOL, dm_dataset_version = DATASET_VERSION\<rparr> @ [10]) =
    Some \<lparr>dm_zcash_network = network, dm_nullifier_pool = NULLIFIER_POOL, dm_dataset_version = DATASET_VERSION\<rparr>"
  shows "(\<forall>bs. d DATASET_MARKER_FILENAME = Some bs \<longrightarrow>
      (ensure_ironwood_dataset J d network = Inr d' \<longleftrightarrow>
        d' = d \<and> marker_from_json J bs =
          Some \<lparr>dm_zcash_network = network, dm_nullifier_pool = NULLIFIER_POOL, dm_dataset_version = DATASET_VERSION\<rparr>)) \<and>
    (d DATASET_MARKER_FILENAME = None \<and> ensure_ironwood_dataset J d network = Inr d' \<longrightarrow>
      (\<forall>name \<in> set RAW_DATASET_ARTIFACTS. d name = None) \<and>
      (\<forall>name. name \<noteq> DATASET_MARKER_FILENAME \<longrightarrow> name \<noteq> marker_tmp \<longrightarrow> d' name = d name) \<and>
      ensure_ironwood_dataset J d' network = Inr d' \<and> dataset_network J d' = Ok network)"
proof (intro conjI allI impI)
  fix bs
  assume "d DATASET_MARKER_FILENAME = Some bs"
  moreover have "m = \<lparr>dm_zcash_network = network, dm_nullifier_pool = NULLIFIER_POOL, dm_dataset_version = DATASET_VERSION\<rparr> \<longleftrightarrow>
      is_current_dataset (dm_nullifier_pool m) (dm_dataset_version m) \<and> dm_zcash_network m = network" for m :: DatasetMarker
    by (cases m) (auto simp: is_current_dataset_def)
  ultimately show "ensure_ironwood_dataset J d network = Inr d' \<longleftrightarrow> d' = d \<and> marker_from_json J bs =
      Some \<lparr>dm_zcash_network = network, dm_nullifier_pool = NULLIFIER_POOL, dm_dataset_version = DATASET_VERSION\<rparr>"
    by (cases "marker_from_json J bs") (auto simp: ensure_ironwood_dataset_def check_marker_def result_simps)
next
  assume a: "d DATASET_MARKER_FILENAME = None \<and> ensure_ironwood_dataset J d network = Inr d'"
  let ?m = "\<lparr>dm_zcash_network = network, dm_nullifier_pool = NULLIFIER_POOL, dm_dataset_version = DATASET_VERSION\<rparr>"
  from a show raw: "\<forall>name \<in> set RAW_DATASET_ARTIFACTS. d name = None"
    by (auto simp: ensure_ironwood_dataset_def split: if_splits)
  with a have d': "d' = run_ops [WriteFile marker_tmp (marker_to_json J ?m @ [10]), RenameFile marker_tmp DATASET_MARKER_FILENAME] d"
    by (auto simp: ensure_ironwood_dataset_def)
  then have mk: "d' DATASET_MARKER_FILENAME = Some (marker_to_json J ?m @ [10])"
    by (simp add: marker_tmp_def DATASET_MARKER_FILENAME_def)
  have cur: "is_current_dataset NULLIFIER_POOL DATASET_VERSION" by (simp add: is_current_dataset_def)
  show "d' name = d name" if "name \<noteq> DATASET_MARKER_FILENAME" "name \<noteq> marker_tmp" for name
    using that by (simp add: d')
  show "ensure_ironwood_dataset J d' network = Inr d'" "dataset_network J d' = Ok network"
    using mk cur assms by (simp_all add: ensure_ironwood_dataset_def dataset_network_def check_marker_def)
qed

theorem dataset_marker_witness:
  "ensure_ironwood_dataset sample_markers Map.empty Main = Inr [DATASET_MARKER_FILENAME \<mapsto> [10]] \<and>
   ensure_ironwood_dataset sample_markers [DATASET_MARKER_FILENAME \<mapsto> [10]] Main = Inr [DATASET_MARKER_FILENAME \<mapsto> [10]] \<and>
   dataset_network sample_markers [DATASET_MARKER_FILENAME \<mapsto> [10]] = Ok Main"
proof -
  have "marker_from_json sample_markers (marker_to_json sample_markers
      \<lparr>dm_zcash_network = Main, dm_nullifier_pool = NULLIFIER_POOL, dm_dataset_version = DATASET_VERSION\<rparr> @ [10]) =
    Some \<lparr>dm_zcash_network = Main, dm_nullifier_pool = NULLIFIER_POOL, dm_dataset_version = DATASET_VERSION\<rparr>"
    by (simp add: sample_markers_def main_marker_def)
  from dataset_marker [OF this, of Map.empty "[DATASET_MARKER_FILENAME \<mapsto> [10]]"] fresh_dataset show ?thesis by simp
qed

end
