(* ===== verification/Sync_Theorems.thy ===== *)
theory Sync_Theorems
  imports Cmd_Sync Built_Tree Store_Theorems Examples
begin

text \<open>
  The properties of the command \<^verbatim>\<open>nf-server sync\<close>: a run brings the store to the target and
  exports exactly the nullifiers of the chain up to it, its loops end, and two situations in
  which the exported snapshot does not hold the nullifiers its height promises.
\<close>

section \<open>A run of the command\<close>

text \<open>
  C7. The whole command. On a directory whose store has committed a chain up to some height
  below the target, with servers whose block streams are those of that chain, a run syncs to the
  target (chain tip, capped by the requested and the voting height and aligned to ten
  blocks), commits it, and exports the tree of exactly the chain's nullifiers from activation to
  the target, labelled with the target. An earlier run may have left a tree checkpoint and an
  export, of any other height: neither is used. (A tree checkpoint of the target height is, without a
  look at the nullifiers.)
\<close>

theorem cmd_sync_exports_chain:
  fixes D :: "'p::len sync_deps" and nfs :: "'p fp list"
  assumes "\<not> env_truthy (ev_reset ev)"
    and "ensure_ironwood_dataset (dep_markers D) d (sa_zcash_network args) = Inr d" "d DATASET_MARKER_FILENAME \<noteq> None"
    and "recovers d a" "holds_chain (sa_zcash_network args) chain start a" "start < target"
    and "if trim (sa_voting_config_url args) = [] then snap = None
         else \<exists>s. dep_snapshot_height D (trim (sa_voting_config_url args)) = Inr s \<and> snap = Some s"
    and "urls = resolve_lwd_urls_with_override (sa_lwd_url args) (ev_lwd_urls ev)"
    and "fetch_chain_tip (dep_connect D) (hd urls) = Inr tip" "sync_target args snap tip = Inr target"
    and "\<And>c. c \<in> set (List.map_filter (dep_connect D) urls) \<Longrightarrow>
      require_ironwood_tree_state c (sa_zcash_network args) target = Inr () \<and> serves chain target c"
    and "chain_wf chain" "target + BATCH_SIZE < 2 ^ USIZE_BITS"
    and "32 * length (chain_nfs chain (nu6_3_activation_height (sa_zcash_network args)) target) < 2 ^ 64"
    and "earlier_tree d (word_of_nat target)" "earlier_tiers (dep_codec D) d (word_of_nat target)"
    and "map snd (chain_nfs chain (nu6_3_activation_height (sa_zcash_network args)) target) = map to_repr nfs"
    and "build_pir_tree_from_nullifiers (dep_constants D) nfs = Inr tree"
    and "bincode_serialize (dep_bincode D) (tree_to_wire tree) = Some payload"
  shows "\<exists>d'. cmd_sync_run D args ev d = Ok d' \<and>
    exported (dep_codec D) (dep_constants D) tree (sa_zcash_network args) (word_of_nat target) d' \<and>
    file_bytes d' nullifiers_path = concat (map to_repr nfs) \<and>
    load_checkpoint d' = Ok (Some (word_of_nat target, word_of_nat (32 * length nfs)))"
proof -
  have urls: "urls \<noteq> []" unfolding assms(8) by (rule resolve_lwd_urls_nonempty)
  have "cmd_sync_run D args ev d = sync_run_loop D args ev urls snap target d"
    using assms(1,2,7,9,10) urls by (auto simp: cmd_sync_run_def Let_def assms(8) [symmetric] split: if_splits)
  with sync_run_loop_chain [of d, OF assms(4-6) assms(2,3,9) urls validated_target(3,4) [OF assms(10)] assms(11-19)]
  show ?thesis by simp
qed

text \<open>A chain of one nullifier per block, from an empty store to eight blocks after activation.\<close>

definition nine_deps :: "pallas sync_deps" where
  "nine_deps = \<lparr>dep_constants = sample_constants,
     dep_bincode = \<lparr>bincode_serialize = (\<lambda>_. Some []), bincode_deserialize = (\<lambda>_. None)\<rparr>,
     dep_codec = sample_codec, dep_markers = sample_markers,
     dep_connect = (\<lambda>_. Some (const_lwd (to_repr (9 :: pallas fp)) 3428157)), dep_snapshot_height = (\<lambda>_. Bail ''unused'')\<rparr>"

definition main_args :: sync_args where
  "main_args = \<lparr>sa_zcash_network = Main, sa_lwd_url = ''https://zec.rocks:443'', sa_max_height = None,
     sa_voting_config_url = [], sa_non_interactive = True, sa_invalidate_after_blocks = False\<rparr>"

definition quiet_env :: sync_env where
  "quiet_env = \<lparr>ev_reset = None, ev_ack = None, ev_lwd_urls = None, ev_stdin_tty = False, ev_stdin_line = []\<rparr>"

abbreviation marked_dir :: dir where
  "marked_dir \<equiv> [DATASET_MARKER_FILENAME \<mapsto> [10]]"

lemma pad_slot_free_plain: "1 \<notin> set nfs \<Longrightarrow> 2 \<notin> set nfs \<Longrightarrow> pad_slot_free nfs"
  by (simp add: pad_slot_free_def)

lemma few_ranges: "length nfs \<le> 1000 \<Longrightarrow> length (triples (nf_list nfs)) \<le> 2 ^ PIR_DEPTH"
proof -
  assume "length nfs \<le> 1000"
  moreover have "card (nf_set nfs) \<le> length (nfs @ sentinels)"
    unfolding nf_set_def by (metis card_length set_append)
  ultimately have "card (nf_set nfs) \<le> 1100"
    by (simp add: sentinels_def Let_def SENTINEL_COUNT_def)
  then have "card (padded_set nfs) \<le> 1101" by (simp add: padded_set_def card_insert_if)
  then show ?thesis by (simp add: triples_def nf_list_def PIR_DEPTH_def)
qed

lemma small_build:
  assumes "length nfs \<le> 1000" "1 \<notin> set nfs" "2 \<notin> set nfs"
  shows "build_pir_tree_from_nullifiers P nfs = Inr (pir_tree_of P (triples (nf_list nfs)))"
  using pad_slot_free_plain [OF assms(2,3)] few_ranges [OF assms(1)]
  by (simp add: build_pir_tree_from_nullifiers_Ok_iff)

text \<open>
  A store that was synced to 3428150 and exported then, and servers whose chain has grown by
  seventeen blocks.
\<close>

definition grown_deps :: "pallas sync_deps" where
  "grown_deps = nine_deps\<lparr>dep_connect := (\<lambda>_. Some (const_lwd (to_repr (9 :: pallas fp)) 3428167))\<rparr>"

definition exported_dir :: dir where
  "exported_dir = [DATASET_MARKER_FILENAME \<mapsto> [10], checkpoint_path \<mapsto> checkpoint_bytes 3428150 256,
     nullifiers_path \<mapsto> concat (map to_repr (replicate 8 (9 :: pallas fp))), tree_file \<mapsto> tree_header 3428150, root_file \<mapsto> []]"

lemma exported_dir_files:
  "exported_dir DATASET_MARKER_FILENAME = Some [10]" "exported_dir checkpoint_path = Some (checkpoint_bytes 3428150 256)"
  "exported_dir nullifiers_path = Some (concat (map to_repr (replicate 8 (9 :: pallas fp))))"
  "exported_dir tree_file = Some (tree_header 3428150)" "exported_dir root_file = Some []"
  by (simp_all add: exported_dir_def path_defs tree_file_def root_file_def)

lemma exported_dir_earlier:
  "earlier_tree exported_dir (word_of_nat 3428160)" "earlier_tiers sample_codec exported_dir (word_of_nat 3428160)"
proof -
  have "read_tree_checkpoint_header exported_dir = Ok (Some (TREE_SCHEMA_VERSION, 3428150))"
    using read_header_written [of 3428150 "[]"] by (simp add: read_tree_checkpoint_header_def exported_dir_files)
  then show "earlier_tree exported_dir (word_of_nat 3428160)" by (simp add: earlier_tree_def)
  show "earlier_tiers sample_codec exported_dir (word_of_nat 3428160)"
    by (simp add: earlier_tiers_def exported_dir_files sample_codec_def snapshot_meta_def export_metadata_def)
qed

theorem cmd_sync_exports_chain_witness:
  "\<exists>d'. cmd_sync_run grown_deps main_args quiet_env exported_dir = Ok d' \<and>
     exported sample_codec sample_constants (pir_tree_of sample_constants (triples (nf_list (replicate 18 9)))) Main 3428160 d' \<and>
     load_checkpoint d' = Ok (Some (3428160, 576))"
proof -
  let ?nf = "to_repr (9 :: pallas fp)" and ?nfs = "replicate 18 (9 :: pallas fp)"
  let ?chain = "const_chain ?nf" and ?a = "Some (3428150, concat (map to_repr (replicate 8 (9 :: pallas fp))))"
  have nfs: "map snd (chain_nfs ?chain (nu6_3_activation_height (sa_zcash_network main_args)) 3428160) = map to_repr ?nfs"
    by (simp add: main_args_def NU6_3_MAINNET_ACTIVATION_HEIGHT_def const_chain_bytes)
  have urls: "[''https://zec.rocks:443''] = resolve_lwd_urls_with_override (sa_lwd_url main_args) (ev_lwd_urls quiet_env)"
    by (simp add: resolve_lwd_urls_with_override_def main_args_def quiet_env_def DEFAULT_SINGLE_LWD_URL_def)
  have tgt: "sync_target main_args None 3428167 = Inr 3428160"
    by (simp add: sync_target_def main_args_def validate_export_height_def NU6_3_MAINNET_ACTIVATION_HEIGHT_def)
  have build: "build_pir_tree_from_nullifiers (dep_constants grown_deps) ?nfs = Inr (pir_tree_of sample_constants (triples (nf_list ?nfs)))"
    by (simp add: grown_deps_def nine_deps_def) (rule small_build; simp add: fp_eq_iff)
  have holds: "holds_chain (sa_zcash_network main_args) ?chain 3428150 ?a"
    by (simp add: holds_chain_def main_args_def NU6_3_MAINNET_ACTIVATION_HEIGHT_def committed_bytes_def const_chain_bytes)
  have len: "length (concat (map to_repr (replicate 8 (9 :: pallas fp)))) = 256"
    by (simp only: fp_codec.length_concat_enc length_replicate)
  have rec: "recovers exported_dir ?a"
    unfolding recovers_def committed_bytes_def by (simp add: len exported_dir_files del: map_replicate)
  have stale: "earlier_tree exported_dir (word_of_nat 3428160)" "earlier_tiers (dep_codec grown_deps) exported_dir (word_of_nat 3428160)"
    using exported_dir_earlier by (simp_all add: grown_deps_def nine_deps_def)
  have "\<exists>d'. cmd_sync_run grown_deps main_args quiet_env exported_dir = Ok d' \<and>
    exported (dep_codec grown_deps) (dep_constants grown_deps) (pir_tree_of sample_constants (triples (nf_list ?nfs)))
      (sa_zcash_network main_args) (word_of_nat 3428160) d' \<and>
    file_bytes d' nullifiers_path = concat (map to_repr ?nfs) \<and>
    load_checkpoint d' = Ok (Some (word_of_nat 3428160, word_of_nat (32 * length ?nfs)))"
    by (rule cmd_sync_exports_chain [OF _ _ _ rec holds _ _ urls _ tgt _ const_chain_wf _ _ stale nfs build])
      (simp_all add: quiet_env_def env_truthy_def grown_deps_def nine_deps_def main_args_def marked_dataset exported_dir_files trim_def
        fetch_chain_tip_def map_filter_simps const_tree_state const_serves BATCH_SIZE_def USIZE_BITS_def length_const_chain
        NU6_3_MAINNET_ACTIVATION_HEIGHT_def const_tip)
  then show ?thesis by (auto simp: grown_deps_def nine_deps_def main_args_def)
qed

section \<open>Termination\<close>

text \<open>One cycle of the sync loop: batches, downloads, commit.\<close>

inductive sync_cycle :: "lwd list \<Rightarrow> nat \<Rightarrow> nat \<times> dir \<times> nat \<times> nat \<Rightarrow> nat \<times> dir \<times> nat \<times> nat \<Rightarrow> bool" for clients target where
  cycle: "current \<le> target \<Longrightarrow> build_batch_ranges current target (length clients) = Ok ranges \<Longrightarrow> ranges \<noteq> [] \<Longrightarrow>
    fetch_cycle clients ranges = Ok nfs \<Longrightarrow> commit_cycle d nfs (snd (last ranges)) = Ok d' \<Longrightarrow>
    sync_cycle clients target (current, d, tn, bs)
      (snd (last ranges) + 1, d', tn + length nfs, bs + (snd (last ranges) - current + 1))"

inductive_cases sync_cycleE: "sync_cycle clients target (current, d, tn, bs) s"

lemma sync_cycle_done: "target < current \<Longrightarrow> \<not> sync_cycle clients target (current, d, tn, bs) s"
  by (auto elim: sync_cycleE)

text \<open>A loop below the target makes a cycle or returns its error.\<close>

lemma sync_loop_cycle:
  assumes "current \<le> target"
  shows "(\<exists>e. sync_loop clients target current d tn bs = Err e \<and> (\<forall>s. \<not> sync_cycle clients target (current, d, tn, bs) s)) \<or>
    (\<exists>current' d' tn' bs'. current < current' \<and> sync_cycle clients target (current, d, tn, bs) (current', d', tn', bs') \<and>
      sync_loop clients target current d tn bs = sync_loop clients target current' d' tn' bs')"
proof (cases "\<exists>s. sync_cycle clients target (current, d, tn, bs) s")
  case True
  then obtain ranges nfs d' where s: "build_batch_ranges current target (length clients) = Ok ranges" "ranges \<noteq> []"
    "fetch_cycle clients ranges = Ok nfs" "commit_cycle d nfs (snd (last ranges)) = Ok d'"
    by (blast elim: sync_cycleE)
  have "current < snd (last ranges) + 1" using batches_progress [OF s(1,2)] by simp
  then show ?thesis using sync_cycle.cycle [OF assms s, of tn bs] sync_loop_step [OF assms s] by blast
next
  case False
  have "\<exists>e. sync_loop clients target current d tn bs = Err e"
  proof (rule ccontr)
    assume "\<nexists>e. sync_loop clients target current d tn bs = Err e"
    then obtain r where "sync_loop clients target current d tn bs = Ok r" by (cases "sync_loop clients target current d tn bs") auto
    then obtain ranges nfs d' where "build_batch_ranges current target (length clients) = Ok ranges" "ranges \<noteq> []"
      "fetch_cycle clients ranges = Ok nfs" "commit_cycle d nfs (snd (last ranges)) = Ok d'"
      using assms by (subst (asm) sync_loop.simps) (auto simp: result_simps split: if_splits)
    then show False using False sync_cycle.cycle [OF assms, of clients ranges nfs d d' tn bs] by blast
  qed
  then show ?thesis using False by blast
qed

text \<open>
  C27. Both loops end, whatever the servers answer. A run of the sync loop is a chain of at most as many cycles as
  there are blocks left, after which no cycle is possible; there it is past the target and has
  returned what the last cycle left, or it is not and has returned an error. And when the
  command wipes the store it goes straight to its stages, without asking or wiping again.
\<close>

theorem sync_loops_end:
  "(\<exists>n current' d' tn' bs'. n \<le> target + 1 - current \<and>
      (sync_cycle clients target ^^ n) (current, d, tn, bs) (current', d', tn', bs') \<and>
      (\<forall>s. \<not> sync_cycle clients target (current', d', tn', bs') s) \<and>
      (if target < current' then sync_loop clients target current d tn bs = Ok (d', tn', bs')
       else \<exists>e. sync_loop clients target current d tn bs = Err e)) \<and>
   sync_run_loop D args ev urls snap export_target (delete_sync_artifacts d0) =
     and_then (sync_stage D args urls export_target None (delete_sync_artifacts d0)) (export_stage D args export_target)"
proof (rule conjI [OF _ sync_run_loop_wiped])
  show "\<exists>n current' d' tn' bs'. n \<le> target + 1 - current \<and>
      (sync_cycle clients target ^^ n) (current, d, tn, bs) (current', d', tn', bs') \<and>
      (\<forall>s. \<not> sync_cycle clients target (current', d', tn', bs') s) \<and>
      (if target < current' then sync_loop clients target current d tn bs = Ok (d', tn', bs')
       else \<exists>e. sync_loop clients target current d tn bs = Err e)"
  proof (induction "target + 1 - current" arbitrary: current d tn bs rule: less_induct)
    case less
    show ?case
    proof (cases "target < current")
      case True
      then show ?thesis
        using sync_cycle_done [OF True] by (intro exI [of _ 0] exI [of _ current] exI) (simp add: sync_loop.simps)
    next
      case False
      then have le: "current \<le> target" by simp
      consider (err) e where "sync_loop clients target current d tn bs = Err e" "\<forall>s. \<not> sync_cycle clients target (current, d, tn, bs) s"
        | (step) c1 d1 t1 b1 where "current < c1" "sync_cycle clients target (current, d, tn, bs) (c1, d1, t1, b1)"
          "sync_loop clients target current d tn bs = sync_loop clients target c1 d1 t1 b1"
        using sync_loop_cycle [OF le, of clients d tn bs] by blast
      then show ?thesis
      proof cases
        case err
        then show ?thesis using False by (intro exI [of _ 0] exI [of _ current] exI) auto
      next
        case step
        have "target + 1 - c1 < target + 1 - current" using step(1) le by simp
        from less [OF this, of d1 t1 b1] obtain n current' d' tn' bs' where IH: "n \<le> target + 1 - c1"
          "(sync_cycle clients target ^^ n) (c1, d1, t1, b1) (current', d', tn', bs')"
          "\<forall>s. \<not> sync_cycle clients target (current', d', tn', bs') s"
          "if target < current' then sync_loop clients target c1 d1 t1 b1 = Ok (d', tn', bs')
           else \<exists>e. sync_loop clients target c1 d1 t1 b1 = Err e" by blast
        have "Suc n \<le> target + 1 - current" using IH(1) step(1) le by simp
        moreover have "(sync_cycle clients target ^^ Suc n) (current, d, tn, bs) (current', d', tn', bs')"
          using relpowp_Suc_I2 [of "sync_cycle clients target", OF step(2) IH(2)] .
        ultimately show ?thesis using IH(3,4) step(3) by (intro exI [of _ "Suc n"] exI conjI) auto
      qed
    qed
  qed
qed

section \<open>Exports that do not match their label\<close>

text \<open>
  C31. A label above the data. When the checkpoint is above the export height, the nullifiers are
  cut at the last index entry at or below that height, but the snapshot is labelled with the
  height asked for. If the entry is lower, the nullifiers between the two are missing: a value
  spent there gets a proof that verifies against the exported root.
\<close>

theorem export_labelled_above_data:
  fixes D :: "'p::len sync_deps" and us vs :: "'p fp list"
  assumes "load_checkpoint d = Ok (Some (ch, off))" "target < unat ch" "d tree_file = None" "d root_file = None"
    and "d index_path = Some (index_blob (es @ (idx_height, word_of_nat (32 * length us)) # later))"
    and "sorted (map fst (es @ (idx_height, word_of_nat (32 * length us)) # later))"
    and "idx_height < word_of_nat target" "\<forall>e \<in> set later. word_of_nat target < fst e"
    and "d nullifiers_path = Some (concat (map to_repr (us @ vs)))" "32 * length us < 2 ^ 64"
    and "build_pir_tree_from_nullifiers (dep_constants D) us = Inr tree"
    and "bincode_serialize (dep_bincode D) (tree_to_wire tree) = Some payload"
    and "v \<in> set vs" "v \<notin> padded_set us"
  shows "(\<exists>d'. export_stage D args target d = Ok d' \<and>
      exported (dep_codec D) (dep_constants D) tree (sa_zcash_network args) (word_of_nat target) d') \<and>
    (\<exists>pr. proof_wf pr \<and> root pr = pt_circuit_root tree \<and> verify (dep_constants D) pr v)"
proof
  let ?es = "es @ (idx_height, word_of_nat (32 * length us)) # later"
  have "fst e \<le> idx_height" if "e \<in> set es" for e
    using assms(6) that by (auto simp: sorted_append)
  then have "filter (\<lambda>e. fst e \<le> word_of_nat target) es = es"
    using assms(7) by (fastforce simp: filter_id_conv)
  moreover have "filter (\<lambda>e. fst e \<le> word_of_nat target) later = []"
    using assms(8) by (auto simp: filter_empty_conv not_le)
  ultimately have f: "filter (\<lambda>e. fst e \<le> word_of_nat target) ?es = es @ [(idx_height, word_of_nat (32 * length us))]"
    using assms(7) by simp
  have off: "offset_for_height d (word_of_nat target) = Ok (Some (idx_height, word_of_nat (32 * length us)))"
    using offset_for_height_sorted [of d, OF assms(5,6), of "word_of_nat target"] unfolding f by simp
  have n: "unat (word_of_nat (32 * length us) :: u64) = 32 * length us"
    using assms(10) by (simp add: unat_of_nat del: of_nat_mult)
  have "load_nullifiers_up_to d (word_of_nat (32 * length us)) = Ok us"
    using n assms(9) parse_nullifier_bytes_concat [of us]
    by (cases vs) (simp_all add: load_nullifiers_up_to_def NULLIFIER_SIZE_def Let_def fp_codec.length_concat_enc del: of_nat_mult)
  with off assms(2) have "select_nullifiers d (unat ch) target = Ok us"
    by (simp add: select_nullifiers_def del: of_nat_mult)
  from export_stage_fresh [of d, OF assms(1) _ no_earlier_files(1) [of d, OF assms(3)] no_earlier_files(2) [of d, OF assms(4)] this assms(11,12)] assms(2)
  show "\<exists>d'. export_stage D args target d = Ok d' \<and>
      exported (dep_codec D) (dep_constants D) tree (sa_zcash_network args) (word_of_nat target) d'" by auto
next
  have "validate_supported COMPILED_PIR_LAYOUT = Inr ()" "pir_depth COMPILED_PIR_LAYOUT = PIR_DEPTH"
    by (rule compiled_layout_supported, rule compiled_depth)
  from retrieval_of_built [OF assms(11) this built_snapshot(2) [OF assms(11) this] assms(14)]
  show "\<exists>pr. proof_wf pr \<and> root pr = pt_circuit_root tree \<and> verify (dep_constants D) pr v" by blast
qed

text \<open>A store synced to 3428150 with nullifier 9 and then to 3428190 with nullifier 7.\<close>

definition two_step_dir :: dir where
  "two_step_dir = [checkpoint_path \<mapsto> checkpoint_bytes 3428190 64,
     index_path \<mapsto> index_blob [(3428150, 32), (3428190, 64)],
     nullifiers_path \<mapsto> concat (map to_repr [9 :: pallas fp, 7])]"

theorem export_labelled_above_data_witness:
  "(\<exists>d'. export_stage nine_deps main_args 3428170 two_step_dir = Ok d' \<and>
      exported sample_codec sample_constants (pir_tree_of sample_constants (triples (nf_list [9]))) Main 3428170 d') \<and>
   (\<exists>pr. root pr = pt_circuit_root (pir_tree_of sample_constants (triples (nf_list [9 :: pallas fp]))) \<and> verify sample_constants pr 7)"
proof -
  let ?tree = "pir_tree_of sample_constants (triples (nf_list [9 :: pallas fp]))"
  have build: "build_pir_tree_from_nullifiers (dep_constants nine_deps) [9] = Inr ?tree"
    by (simp add: nine_deps_def) (rule small_build; simp add: fp_eq_iff)
  have free: "(7 :: pallas fp) \<notin> padded_set [9]"
  proof -
    have "(7 :: pallas fp) \<notin> set sentinels" by (rule small_not_sentinel) simp_all
    then show ?thesis by (simp add: padded_set_def nf_set_def fp_eq_iff)
  qed
  have cp: "load_checkpoint two_step_dir = Ok (Some (3428190, 64))"
    by (simp add: load_checkpoint_def two_step_dir_def checkpoint_bytes_def CHECKPOINT_SIZE_def)
  have "(\<exists>d'. export_stage nine_deps main_args 3428170 two_step_dir = Ok d' \<and>
      exported (dep_codec nine_deps) (dep_constants nine_deps) ?tree (sa_zcash_network main_args) (word_of_nat 3428170) d') \<and>
    (\<exists>pr. proof_wf pr \<and> root pr = pt_circuit_root ?tree \<and> verify (dep_constants nine_deps) pr 7)"
    by (rule export_labelled_above_data [OF cp, where es = "[]" and idx_height = 3428150 and later = "[(3428190, 64)]"
          and us = "[9]" and vs = "[7]" and payload = "[]", OF _ _ _ _ _ _ _ _ _ build _ _ free])
      (simp_all add: two_step_dir_def nine_deps_def path_defs tree_file_def root_file_def)
  then show ?thesis by (auto simp: nine_deps_def main_args_def)
qed

text \<open>
  C32. Uncommitted data in an export. When the checkpoint is exactly at the export height, no
  sync runs, so the bytes a crashed append left after the committed ones are not cut; the
  export then loads the whole file and the snapshot holds nullifiers that were never
  committed, from blocks above its label.
\<close>

theorem export_with_uncommitted_data:
  fixes D :: "'p::len sync_deps" and us vs :: "'p fp list"
  assumes "recovers d (Some (word_of_nat target, concat (map to_repr us)))" "target < 2 ^ 64"
    and "d nullifiers_path = Some (concat (map to_repr us) @ concat (map to_repr vs))" "d index_path \<noteq> None"
    and "d tree_file = None" "d root_file = None" "\<And>s. snap = Some s \<Longrightarrow> target \<le> s"
    and "build_pir_tree_from_nullifiers (dep_constants D) (us @ vs) = Inr tree"
    and "bincode_serialize (dep_bincode D) (tree_to_wire tree) = Some payload"
  shows "\<exists>d'. sync_run_loop D args ev urls snap target d = Ok d' \<and>
    exported (dep_codec D) (dep_constants D) tree (sa_zcash_network args) (word_of_nat target) d' \<and>
    set vs \<subseteq> padded_set (us @ vs)"
proof -
  have t64: "unat (word_of_nat target :: u64) = target" using assms(2) by (simp add: unat_of_nat)
  have cp: "load_checkpoint d = Ok (Some (word_of_nat target, word_of_nat (length (concat (map to_repr us)))))"
    using load_checkpoint_recovers [OF assms(1)] by simp
  have "file_bytes d nullifiers_path = concat (map to_repr (us @ vs))" using assms(3) by (simp add: file_bytes_def)
  then have sel: "select_nullifiers d (unat (word_of_nat target :: u64)) target = Ok (us @ vs)"
    by (simp add: select_nullifiers_def t64 load_all_concat)
  obtain d' where d': "export_stage D args target d = Ok d'"
    "exported (dep_codec D) (dep_constants D) tree (sa_zcash_network args) (word_of_nat target) d'"
    using export_stage_fresh [of d, OF cp _ no_earlier_files(1) [of d, OF assms(5)] no_earlier_files(2) [of d, OF assms(6)] sel assms(8,9)] t64 by auto
  have ix: "rebuild_index d = Ok d" using assms(4) by (simp add: rebuild_index_def)
  have "sync_run_loop D args ev urls snap target d = Ok d'"
  proof (cases snap)
    case None
    then show ?thesis using ix cp d'(1) t64 by (simp add: sync_run_loop.simps [of D args ev urls _ target d] sync_stage_def)
  next
    case (Some s)
    then show ?thesis using ix cp d'(1) t64 assms(7) [OF Some] by (simp add: sync_run_loop.simps [of D args ev urls _ target d] sync_stage_def)
  qed
  with d'(2) show ?thesis by (auto simp: padded_set_def nf_set_def)
qed

text \<open>Height 3428150 committed with nullifier 9; nullifier 7 was appended before a crash.\<close>

definition torn_append_dir :: dir where
  "torn_append_dir = [checkpoint_path \<mapsto> checkpoint_bytes 3428150 32, index_path \<mapsto> index_blob [(3428150, 32)],
     nullifiers_path \<mapsto> concat (map to_repr [9 :: pallas fp]) @ concat (map to_repr [7 :: pallas fp])]"

theorem export_with_uncommitted_data_witness:
  "\<exists>d'. sync_run_loop nine_deps main_args quiet_env [] None 3428150 torn_append_dir = Ok d' \<and>
     exported sample_codec sample_constants (pir_tree_of sample_constants (triples (nf_list ([9] @ [7])))) Main 3428150 d' \<and>
     set [7] \<subseteq> padded_set ([9] @ [7 :: pallas fp])"
proof -
  let ?tree = "pir_tree_of sample_constants (triples (nf_list ([9 :: pallas fp] @ [7])))"
  have build: "build_pir_tree_from_nullifiers (dep_constants nine_deps) ([9] @ [7]) = Inr ?tree"
    unfolding nine_deps_def by (simp del: append.simps) (rule small_build; simp add: fp_eq_iff)
  have rec: "recovers torn_append_dir (Some (word_of_nat 3428150, concat (map to_repr [9 :: pallas fp])))"
    by (simp add: recovers_def torn_append_dir_def committed_bytes_def)
  have "\<exists>d'. sync_run_loop nine_deps main_args quiet_env [] None 3428150 torn_append_dir = Ok d' \<and>
    exported (dep_codec nine_deps) (dep_constants nine_deps) ?tree (sa_zcash_network main_args) (word_of_nat 3428150) d' \<and>
    set [7] \<subseteq> padded_set ([9] @ [7 :: pallas fp])"
    by (rule export_with_uncommitted_data [OF rec _ _ _ _ _ _ build, where payload = "[]"])
      (simp_all add: torn_append_dir_def nine_deps_def path_defs tree_file_def root_file_def)
  then show ?thesis by (simp only: nine_deps_def main_args_def sync_deps.simps sync_args.simps of_nat_numeral)
qed

end
