(* ===== verification/Bootstrap_Theorems.thy ===== *)
theory Bootstrap_Theorems
  imports Bootstrap Built_Tree Examples
begin

text \<open>
  The properties of the snapshot bootstrap: what an installed snapshot is, what a failed
  bootstrap leaves alone, that an interrupted one is completed by the next start, what the
  counters record, and that a server started on any directory ends up serving the published
  snapshot.
\<close>

section \<open>Runs of the bootstrap\<close>

lemma resolve_legacy_snd:
  "snd (resolve_legacy_voting_height B cfg m) = snd (resolve_legacy_voting_height B cfg m')"
  by (auto simp: resolve_legacy_voting_height_def split: sum.split option.split)

text \<open>The height that is resolved depends on the network only.\<close>

lemma resolve_expected_snd:
  "snd (resolve_expected_height B cfg source m) = snd (resolve_expected_height B cfg source m')"
  using resolve_legacy_snd [of B cfg m m']
  by (auto simp: resolve_expected_height_def split: Source.split sum.split)

lemma resolve_keeps_counters:
  "bm_outcomes (fst (resolve_expected_height B cfg source m)) = bm_outcomes m"
  "bm_attempts (fst (resolve_expected_height B cfg source m)) = bm_attempts m"
  by (auto simp: resolve_expected_height_def resolve_legacy_voting_height_def set_expected_def
      split: Source.split sum.split option.split)

text \<open>A run that has a height to fetch, on any directory, is \<open>bootstrap_to_height\<close> for it.\<close>

definition aims_at :: "boot_deps \<Rightarrow> boot_config \<Rightarrow> bool \<Rightarrow> u64 \<Rightarrow> bool" where
  "aims_at B cfg forced h \<longleftrightarrow>
     (case bc_force_snapshot_height cfg of
        Some h' \<Rightarrow> forced \<and> h' = h \<and> validate_force_snapshot_height h (bc_zcash_network cfg) = Inr ()
      | None \<Rightarrow> \<not> forced \<and> (\<exists>source. resolve_source (bc_pir_config_url cfg) (bc_voting_config_url cfg) = Inr source \<and>
          source \<noteq> SourceDisabled \<and> (\<forall>m. snd (resolve_expected_height B cfg source m) = Inr (Some h))))"

lemma run_aims_at:
  assumes "aims_at B cfg forced h"
  shows "\<exists>m'. bm_attempts m' = bm_attempts m + 1 \<and> bm_outcomes m' = bm_outcomes m \<and> g_expected (bm_gauges m') = h \<and>
    bootstrap_run B cfg (d, m) =
      bootstrap_to_height B cfg h (read_local_height (bd_codec B) d (bc_zcash_network cfg)) forced (d, m')"
proof (cases "bc_force_snapshot_height cfg")
  case (Some h')
  with assms show ?thesis
    by (auto simp: aims_at_def bootstrap_run_def Let_def set_expected_def expected_height_set_def set_served_def bootstrap_attempts_inc_def
        intro!: exI [where x = "set_expected h (case read_local_height (bd_codec B) d (bc_zcash_network cfg) of
          None \<Rightarrow> bootstrap_attempts_inc m | Some h \<Rightarrow> set_served h (bootstrap_attempts_inc m))"] split: option.split)
next
  case None
  let ?m = "case read_local_height (bd_codec B) d (bc_zcash_network cfg) of
          None \<Rightarrow> bootstrap_attempts_inc m | Some h \<Rightarrow> set_served h (bootstrap_attempts_inc m)"
  from None assms obtain source where s: "resolve_source (bc_pir_config_url cfg) (bc_voting_config_url cfg) = Inr source"
    "source \<noteq> SourceDisabled" "snd (resolve_expected_height B cfg source ?m) = Inr (Some h)" "\<not> forced"
    by (auto simp: aims_at_def)
  then obtain m' where m': "resolve_expected_height B cfg source ?m = (m', Inr (Some h))" by (metis prod.collapse)
  with resolve_keeps_counters [of B cfg source ?m] have "bm_attempts m' = bm_attempts m + 1" "bm_outcomes m' = bm_outcomes m"
    by (auto simp: set_served_def bootstrap_attempts_inc_def split: option.splits)
  moreover from m' s(2) have "g_expected (bm_gauges m') = h"
    by (auto simp: resolve_expected_height_def resolve_legacy_voting_height_def set_expected_def expected_height_set_def
        split: Source.splits sum.splits option.splits if_splits)
  ultimately show ?thesis using None s m'
    by (intro exI [of _ m']) (auto simp: bootstrap_run_def Let_def split: Source.split)
qed

text \<open>The other runs touch nothing but the counters.\<close>

lemma run_cases:
  assumes "bootstrap_run B cfg (d, m) = ((d', m'), r)"
  obtains (aims) forced h where "aims_at B cfg forced h"
  | (rest) "d' = d" "bm_attempts m' = bm_attempts m + 1"
      "r = Inr Disabled \<and> bm_outcomes m' = bm_outcomes m @ [''disabled''] \<and> bc_force_snapshot_height cfg = None \<or>
       (\<exists>h. r = Inr (UsingLocalSnapshot h) \<and> bm_outcomes m' = bm_outcomes m @ [''using_local_snapshot'']) \<and> bc_force_snapshot_height cfg = None \<or>
       (\<exists>e. r = Inl e) \<and> bm_outcomes m' = bm_outcomes m @ [''failed_voting_config''] \<and> bc_force_snapshot_height cfg = None \<or>
       (\<exists>h e. r = Inl e \<and> bc_force_snapshot_height cfg = Some h \<and>
              validate_force_snapshot_height h (bc_zcash_network cfg) = Inl e \<and> bm_outcomes m' = bm_outcomes m)"
proof (cases "\<exists>forced h. aims_at B cfg forced h")
  case True
  with aims show thesis by blast
next
  case False
  let ?m = "case read_local_height (bd_codec B) d (bc_zcash_network cfg) of
          None \<Rightarrow> bootstrap_attempts_inc m | Some h \<Rightarrow> set_served h (bootstrap_attempts_inc m)"
  have m0: "bm_attempts ?m = bm_attempts m + 1" "bm_outcomes ?m = bm_outcomes m"
    by (simp_all add: bootstrap_attempts_inc_def set_served_def split: option.split)
  show thesis
  proof (cases "bc_force_snapshot_height cfg")
    case (Some h)
    with False obtain e where v: "validate_force_snapshot_height h (bc_zcash_network cfg) = Inl e"
      by (cases "validate_force_snapshot_height h (bc_zcash_network cfg)") (auto simp: aims_at_def)
    with Some assms have "d' = d" "m' = ?m" "r = Inl e" by (auto simp: bootstrap_run_def Let_def)
    then show thesis by (intro rest) (simp_all add: m0 Some v)
  next
    case None
    obtain source where s: "resolve_source (bc_pir_config_url cfg) (bc_voting_config_url cfg) = Inr source"
      using resolve_source_total by blast
    show thesis
    proof (cases "source = SourceDisabled")
      case True
      with None assms rest s m0 show thesis by (auto simp: bootstrap_run_def Let_def bootstrap_outcome_inc_def)
    next
      case on: False
      obtain m1 r1 where r1: "resolve_expected_height B cfg source ?m = (m1, r1)" by fastforce
      have "r1 \<noteq> Inr (Some h)" for h
        using False None s on r1 resolve_expected_snd [of B cfg source _ ?m] by (auto simp: aims_at_def)
      then consider (err) e where "r1 = Inl e" | (none) "r1 = Inr None" by (cases r1; cases "projr r1") auto
      moreover have m1: "bm_attempts m1 = bm_attempts m + 1" "bm_outcomes m1 = bm_outcomes m"
        using resolve_keeps_counters [of B cfg source ?m] r1 m0 by simp_all
      have go: "bootstrap_run B cfg (d, m) =
          (case (m1, r1) of
             (m, Inr (Some h)) \<Rightarrow> bootstrap_to_height B cfg h (read_local_height (bd_codec B) d (bc_zcash_network cfg)) False (d, m)
           | (m, Inr None) \<Rightarrow>
               (case read_local_height (bd_codec B) d (bc_zcash_network cfg) of
                  Some h \<Rightarrow> ((d, bootstrap_outcome_inc ''using_local_snapshot'' m), Ok (UsingLocalSnapshot h))
                | None \<Rightarrow> ((d, bootstrap_outcome_inc ''failed_voting_config'' m),
                     Bail ''no configured snapshot_height discovered and no local snapshot exists''))
           | (m, Inl e) \<Rightarrow> ((d, bootstrap_outcome_inc ''failed_voting_config'' m), Inl e))"
        using None s on r1 by (cases source) (simp_all add: bootstrap_run_def Let_def)
      ultimately show thesis
        using assms rest m1 None unfolding go
        by cases (auto simp: bootstrap_outcome_inc_def split: option.splits)
    qed
  qed
qed
lemma to_height_Bootstrapped:
  "bootstrap_to_height B cfg h local forced (d, m) = ((d', m'), Inr (BootstrappedTo k)) \<longleftrightarrow>
     k = h \<and> local \<noteq> Some h \<and> bc_precomputed_base_url cfg \<noteq> [] \<and>
     (\<exists>n. fetch_and_install B cfg h d = (d', Inr n) \<and>
          m' = bootstrap_outcome_inc ''bootstrapped'' (set_served h (bootstrap_bytes_inc n m)))"
  by (auto simp: bootstrap_to_height_def Let_def split: prod.splits sum.splits)

lemma run_Bootstrapped:
  assumes "bootstrap_run B cfg (d, m) = ((d', m'), Inr (BootstrappedTo h))"
  obtains forced n where "aims_at B cfg forced h" "fetch_and_install B cfg h d = (d', Inr n)"
    "read_local_height (bd_codec B) d (bc_zcash_network cfg) \<noteq> Some h" "bc_precomputed_base_url cfg \<noteq> []"
    "g_served (bm_gauges m') = h"
proof (cases rule: run_cases [OF assms])
  case (1 forced k)
  from run_aims_at [OF 1, of m d] assms obtain m1 where
    "bootstrap_to_height B cfg k (read_local_height (bd_codec B) d (bc_zcash_network cfg)) forced (d, m1) =
      ((d', m'), Inr (BootstrappedTo h))" by auto
  then show thesis
    using that [of forced] 1
    by (auto simp: to_height_Bootstrapped set_served_def served_height_set_def bootstrap_outcome_inc_def)
qed auto

section \<open>Properties\<close>

text \<open>
  C17. An installed snapshot is the published one. When the bootstrap reports that it fetched
  height \<open>h\<close>, the three snapshot files have exactly the sizes and the SHA-256 of a manifest of
  schema 2, of the current dataset and for \<open>h\<close>, the installed metadata passes every check for
  the configured network and names \<open>h\<close>, stale caches and legacy files are gone, nothing is left
  in the staging directory, and every other file is as before.
\<close>

theorem bootstrap_installs_published:
  assumes "bootstrap_run B cfg (d, m) = ((d', m'), Ok (BootstrappedTo h))"
  shows "(\<exists>manifest. fetch_manifest B cfg h None = Ok manifest \<and> pm_schema_version manifest = 2 \<and>
      is_current_dataset (pm_nullifier_pool manifest) (pm_dataset_version manifest) \<and> pm_height manifest = h \<and>
      list_all (\<lambda>name. \<exists>entry body. map_of (pm_files manifest) name = Some entry \<and> d' name = Some body \<and>
        body_of B (snapshot_dir cfg h @ ''/'' @ name) = Some body \<and> length body = unat (mf_size entry) \<and>
        eq_ignore_ascii_case (bd_sha256_hex B body) (mf_sha256 entry)) SNAPSHOT_FILES) \<and>
    read_local_height (bd_codec B) d' (bc_zcash_network cfg) = Some h \<and>
    (f \<in> set SNAPSHOT_FILES \<or> d' f = (if f \<in> set stale_files \<or> in_staging f then None else d f)) \<and>
    served_height_get (bm_gauges m') = gauge_read h"
proof -
  from assms obtain n where f: "fetch_and_install B cfg h d = (d', Inr n)" and g: "g_served (bm_gauges m') = h"
    by (rule run_Bootstrapped)
  from f obtain manifest where man: "fetch_manifest B cfg h None = Inr manifest"
    and new: "\<forall>name \<in> set SNAPSHOT_FILES. vouched B (snapshot_dir cfg h) manifest name \<noteq> None"
    and d': "d' = installed (vouched B (snapshot_dir cfg h) manifest) d"
    and rh: "read_local_height (bd_codec B) d' (bc_zcash_network cfg) = Some h"
    by (auto simp: fetch_and_install_def fetch_authenticated_Ok_iff)
  from man have "pm_schema_version manifest = 2 \<and> is_current_dataset (pm_nullifier_pool manifest) (pm_dataset_version manifest) \<and> pm_height manifest = h"
    by (simp add: fetch_manifest_Ok_iff) blast
  moreover have "\<exists>entry body. map_of (pm_files manifest) name = Some entry \<and> d' name = Some body \<and>
      body_of B (snapshot_dir cfg h @ ''/'' @ name) = Some body \<and> length body = unat (mf_size entry) \<and>
      eq_ignore_ascii_case (bd_sha256_hex B body) (mf_sha256 entry)" if "name \<in> set SNAPSHOT_FILES" for name
  proof -
    from new that obtain body where "vouched B (snapshot_dir cfg h) manifest name = Some body" by blast
    with that show ?thesis
      by (auto simp: d' installed_def vouched_def bind_eq_Some_conv split: if_splits)
  qed
  ultimately have "(\<exists>manifest. fetch_manifest B cfg h None = Ok manifest \<and> pm_schema_version manifest = 2 \<and>
      is_current_dataset (pm_nullifier_pool manifest) (pm_dataset_version manifest) \<and> pm_height manifest = h \<and>
      list_all (\<lambda>name. \<exists>entry body. map_of (pm_files manifest) name = Some entry \<and> d' name = Some body \<and>
        body_of B (snapshot_dir cfg h @ ''/'' @ name) = Some body \<and> length body = unat (mf_size entry) \<and>
        eq_ignore_ascii_case (bd_sha256_hex B body) (mf_sha256 entry)) SNAPSHOT_FILES)"
    using man by (auto simp: list_all_iff)
  then show ?thesis using rh by (simp add: served_height_get_def g d' installed_def)
qed

text \<open>
  A bootstrap that does not report a fetched snapshot leaves every live file alone: it
  writes only in the staging directory, whatever the network sends and wherever it fails.
\<close>

theorem failed_bootstrap_keeps_files:
  assumes "bootstrap_run B cfg (d, m) = ((d', m'), r)" "\<not> (\<exists>h. r = Ok (BootstrappedTo h))" "\<not> in_staging f"
  shows "d' f = d f"
proof (cases rule: run_cases [OF assms(1)])
  case (1 forced h)
  from run_aims_at [OF 1, of m d] assms(1) obtain m1 where
    "bootstrap_to_height B cfg h (read_local_height (bd_codec B) d (bc_zcash_network cfg)) forced (d, m1) = ((d', m'), r)"
    by auto
  with assms(2,3) show ?thesis
    by (auto simp: bootstrap_to_height_def Let_def fetch_and_install_def
        dest: fetch_authenticated_Err_frame split: if_splits prod.splits sum.splits)
qed simp

text \<open>
  C11. An interrupted bootstrap is repaired by the next start. If a run on a directory would
  install height \<open>h\<close>, and it is killed at any point, then a new run against the same network
  succeeds, the three snapshot files are then those of the uninterrupted run, and every
  other live file is as it was before the first run.
\<close>

theorem interrupted_bootstrap_recovers:
  assumes "bootstrap_run B cfg (d, m) = ((dn, mn), Ok (BootstrappedTo h))"
    and "interrupted B cfg h d dc"
  shows "\<exists>d' m' out. bootstrap_run B cfg (dc, mc) = ((d', m'), Ok out) \<and>
      (out = BootstrappedTo h \<and> d' = dn \<or> out = AlreadyAtHeight h \<and> d' = dc) \<and>
      list_all (\<lambda>name. d' name = dn name) SNAPSHOT_FILES \<and>
      (f \<in> set SNAPSHOT_FILES \<or> f \<in> set stale_files \<or> in_staging f \<or> d' f = d f)"
proof -
  from assms(1) obtain forced n where aim: "aims_at B cfg forced h" and fetch: "fetch_and_install B cfg h d = (dn, Inr n)"
    and old: "read_local_height (bd_codec B) d (bc_zcash_network cfg) \<noteq> Some h" and base: "bc_precomputed_base_url cfg \<noteq> []"
    by (rule run_Bootstrapped)
  let ?lh = "\<lambda>d. read_local_height (bd_codec B) d (bc_zcash_network cfg)"
  note int = interrupted_cases [OF fetch assms(2)]
  from run_aims_at [OF aim, of mc dc] obtain m1 where
    run: "bootstrap_run B cfg (dc, mc) = bootstrap_to_height B cfg h (?lh dc) forced (dc, m1)" by blast
  from fetch obtain manifest where dn: "dn = installed (vouched B (snapshot_dir cfg h) manifest) d"
    and man: "fetch_manifest B cfg h None = Inr manifest"
      "\<forall>name \<in> set SNAPSHOT_FILES. vouched B (snapshot_dir cfg h) manifest name \<noteq> None"
    and rh: "?lh dn = Some h"
    by (auto simp: fetch_and_install_def fetch_authenticated_Ok_iff)
  from int(1) consider (old) "dc root_file = d root_file" | (new) "\<forall>name \<in> set SNAPSHOT_FILES. dc name = dn name" by blast
  then show ?thesis
  proof cases
    case old
    then have lh: "?lh dc \<noteq> Some h" using \<open>?lh d \<noteq> Some h\<close> read_local_cong [of dc d] by simp
    have same: "installed (vouched B (snapshot_dir cfg h) manifest) dc = dn"
      unfolding dn using int(2) by (auto simp: installed_def fun_eq_iff)
    then have "\<exists>n. fetch_and_install B cfg h dc = (dn, Inr n)"
      using man rh by (auto simp: fetch_and_install_def fetch_authenticated_Ok_iff)
    then obtain k where "fetch_and_install B cfg h dc = (dn, Inr k)" by blast
    with run lh base have "\<exists>m'. bootstrap_run B cfg (dc, mc) = ((dn, m'), Ok (BootstrappedTo h))"
      by (auto simp: to_height_Bootstrapped)
    then show ?thesis by (auto simp: dn installed_def list_all_iff)
  next
    case new
    then have "?lh dc = Some h" using rh read_local_cong [of dc dn] by (simp add: SNAPSHOT_FILES_def)
    with run have "\<exists>m'. bootstrap_run B cfg (dc, mc) = ((dc, m'), Ok (AlreadyAtHeight h))"
      by (auto simp: bootstrap_to_height_def)
    with new int(2) [of f] show ?thesis by (auto simp: list_all_iff)
  qed
qed

fun outcome_label :: "Outcome \<Rightarrow> string" where
  "outcome_label Disabled = ''disabled''"
| "outcome_label (AlreadyAtHeight _) = ''already_at_height''"
| "outcome_label (UsingLocalSnapshot _) = ''using_local_snapshot''"
| "outcome_label (BootstrappedTo _) = ''bootstrapped''"
| "outcome_label (FellThrough _) = ''fell_through''"
lemma to_height_counts:
  assumes "bootstrap_to_height B cfg h local forced (d, m) = ((d', m'), r)"
  shows "bm_attempts m' = bm_attempts m \<and>
    (case r of
       Inr out \<Rightarrow> bm_outcomes m' = bm_outcomes m @ [outcome_label out]
     | Inl _ \<Rightarrow> forced \<and> (\<exists>label \<in> {''failed_precomputed_config'', ''failed_cdn_fetch''}. bm_outcomes m' = bm_outcomes m @ [label])) \<and>
    (forced \<longrightarrow> r \<in> {Inr (AlreadyAtHeight h), Inr (BootstrappedTo h)} \<union> range Inl)"
  using assms
  by (auto simp: bootstrap_to_height_def bootstrap_outcome_inc_def set_served_def bootstrap_bytes_inc_def
      split: if_splits prod.splits sum.splits)

text \<open>
  The counters. Every run counts one attempt and one outcome, labelled after its result; an
  error has one of three labels, except that an invalid forced height counts no outcome. A
  forced height is either served afterwards or an error: it never falls through to another
  local snapshot.
\<close>

theorem bootstrap_counts:
  "case bootstrap_run B cfg (d, m) of
     ((d', m'), r) \<Rightarrow>
       bm_attempts m' = bm_attempts m + 1 \<and>
       (case r of
          Inr out \<Rightarrow> bm_outcomes m' = bm_outcomes m @ [outcome_label out]
        | Inl _ \<Rightarrow>
            (\<exists>label. label \<in> {''failed_voting_config'', ''failed_precomputed_config'', ''failed_cdn_fetch''} \<and>
                     bm_outcomes m' = bm_outcomes m @ [label]) \<or>
            (\<exists>h e. bc_force_snapshot_height cfg = Some h \<and> validate_force_snapshot_height h (bc_zcash_network cfg) = Inl e \<and>
                   bm_outcomes m' = bm_outcomes m)) \<and>
       (case bc_force_snapshot_height cfg of
          None \<Rightarrow> True
        | Some h \<Rightarrow> r \<in> {Inr (AlreadyAtHeight h), Inr (BootstrappedTo h)} \<union> range Inl)"
proof -
  obtain d' m' r where run: "bootstrap_run B cfg (d, m) = ((d', m'), r)" by (metis prod.exhaust)
  show ?thesis
  proof (cases rule: run_cases [OF run])
    case (1 forced h)
    from run_aims_at [OF 1, of m d] run obtain m1 where m1: "bm_attempts m1 = bm_attempts m + 1" "bm_outcomes m1 = bm_outcomes m"
      "bootstrap_to_height B cfg h (read_local_height (bd_codec B) d (bc_zcash_network cfg)) forced (d, m1) = ((d', m'), r)"
      by auto
    from 1 have "bc_force_snapshot_height cfg = Some k \<Longrightarrow> forced \<and> k = h" for k by (simp add: aims_at_def)
    with to_height_counts [OF m1(3)] m1(1,2) run show ?thesis
      by (cases "bc_force_snapshot_height cfg"; cases r) auto
  next
    case 2
    from 2(3) consider "r = Inr Disabled" "bm_outcomes m' = bm_outcomes m @ [''disabled'']" "bc_force_snapshot_height cfg = None"
      | h where "r = Inr (UsingLocalSnapshot h)" "bm_outcomes m' = bm_outcomes m @ [''using_local_snapshot'']" "bc_force_snapshot_height cfg = None"
      | e where "r = Inl e" "bm_outcomes m' = bm_outcomes m @ [''failed_voting_config'']" "bc_force_snapshot_height cfg = None"
      | h e where "r = Inl e" "bc_force_snapshot_height cfg = Some h" "validate_force_snapshot_height h (bc_zcash_network cfg) = Inl e"
          "bm_outcomes m' = bm_outcomes m"
      by auto
    then show ?thesis using run 2(2) by cases simp_all
  qed
qed
section \<open>From a published snapshot to a verified proof\<close>

text \<open>The bootstrap as the start-up task calls it.\<close>

definition serve_bootstrap_config :: "serve_args \<Rightarrow> boot_config" where
  "serve_bootstrap_config args =
     \<lparr>bc_zcash_network = sv_zcash_network args, bc_pir_config_url = map_option trim_end_slashes (sv_pir_config_url args),
      bc_voting_config_url = trim_end_slashes (sv_voting_config_url args),
      bc_precomputed_base_url = trim_end_slashes (sv_precomputed_base_url args),
      bc_force_snapshot_height = sv_force_snapshot_height args\<rparr>"

definition startup_bootstrap ::
  "boot_deps \<Rightarrow> boot_config \<Rightarrow> boot_metrics \<Rightarrow> dir \<times> gauges \<Rightarrow> (dir \<times> gauges) \<times> unit result" where
  "startup_bootstrap B cfg m s =
     (case bootstrap_run B cfg (fst s, m\<lparr>bm_gauges := snd s\<rparr>) of ((d', m'), r) \<Rightarrow> ((d', bm_gauges m'), and_then r (\<lambda>_. Ok ())))"

definition startup_env :: "boot_deps \<Rightarrow> serve_args \<Rightarrow> boot_metrics \<Rightarrow> boot_env" where
  "startup_env B args m = \<lparr>be_args = args, be_bootstrap = startup_bootstrap B (serve_bootstrap_config args) m\<rparr>"

text \<open>The snapshot of the ranges is published at a height: the manifest vouches for its three files.\<close>

definition published :: "boot_deps \<Rightarrow> boot_config \<Rightarrow> u64 \<Rightarrow> 'p::len poseidon_constants \<Rightarrow> 'p fp3 list \<Rightarrow> PirLayout \<Rightarrow> bool" where
  "published B cfg h P ranges L \<longleftrightarrow>
     (\<exists>manifest. fetch_manifest B cfg h None = Ok manifest \<and>
        vouched B (snapshot_dir cfg h) manifest tier0_file = Some (tier0_of P ranges L) \<and>
        vouched B (snapshot_dir cfg h) manifest tier1_file = Some (tier1_of ranges L) \<and>
        vouched B (snapshot_dir cfg h) manifest root_file =
          Some (meta_to_json (bd_codec B) (snapshot_meta (bd_codec B) P ranges (bc_zcash_network cfg) (Some h) L)))"

lemma exported_local_height:
  assumes "supported L"
    and "meta_from_json C (meta_to_json C (snapshot_meta C P ranges network (Some h) L)) = Some (snapshot_meta C P ranges network (Some h) L)"
    and "d root_file = Some (meta_to_json C (snapshot_meta C P ranges network (Some h) L))"
  shows "read_local_height C d network = Some h"
  using assms
  by (simp add: read_local_height_def validate_pir_metadata_def validate_supported_iff [THEN iffD2]
      snapshot_meta_def export_metadata_def is_current_dataset_def supported_geometry [OF assms(1)])

lemma published_bootstraps:
  assumes "published B cfg h P ranges L" "aims_at B cfg forced h" "bc_precomputed_base_url cfg \<noteq> []" "supported L"
    and "meta_from_json (bd_codec B) (meta_to_json (bd_codec B) (snapshot_meta (bd_codec B) P ranges (bc_zcash_network cfg) (Some h) L)) =
      Some (snapshot_meta (bd_codec B) P ranges (bc_zcash_network cfg) (Some h) L)"
    and "read_local_height (bd_codec B) d (bc_zcash_network cfg) \<noteq> Some h"
  obtains d' g' where "startup_bootstrap B cfg m (d, g) = ((d', g'), Ok ())" "g_expected g' = h" "d' tier0_file = Some (tier0_of P ranges L)"
    "d' tier1_file = Some (tier1_of ranges L)" "d' TIER1_PRECOMPUTE_FILE = None"
    "d' root_file = Some (meta_to_json (bd_codec B) (snapshot_meta (bd_codec B) P ranges (bc_zcash_network cfg) (Some h) L))"
proof -
  from assms(1) obtain manifest where man: "fetch_manifest B cfg h None = Ok manifest"
    and v: "vouched B (snapshot_dir cfg h) manifest tier0_file = Some (tier0_of P ranges L)"
      "vouched B (snapshot_dir cfg h) manifest tier1_file = Some (tier1_of ranges L)"
      "vouched B (snapshot_dir cfg h) manifest root_file =
        Some (meta_to_json (bd_codec B) (snapshot_meta (bd_codec B) P ranges (bc_zcash_network cfg) (Some h) L))"
    by (auto simp: published_def)
  let ?d = "installed (vouched B (snapshot_dir cfg h) manifest) d"
  have files: "?d tier0_file = Some (tier0_of P ranges L)" "?d tier1_file = Some (tier1_of ranges L)"
    "?d root_file = Some (meta_to_json (bd_codec B) (snapshot_meta (bd_codec B) P ranges (bc_zcash_network cfg) (Some h) L))"
    "?d TIER1_PRECOMPUTE_FILE = None"
    using v by (simp_all add: installed_def SNAPSHOT_FILES_def)
      (simp add: stale_files_def TIER1_PRECOMPUTE_FILE_def tier0_file_def tier1_file_def root_file_def)
  have "read_local_height (bd_codec B) ?d (bc_zcash_network cfg) = Some h"
    by (rule exported_local_height [OF assms(4,5)]) (rule files(3))
  moreover have "\<forall>name \<in> set SNAPSHOT_FILES. vouched B (snapshot_dir cfg h) manifest name \<noteq> None"
    using v by (simp add: SNAPSHOT_FILES_def)
  ultimately obtain n where fetch: "fetch_and_install B cfg h d = (?d, Inr n)"
    using man by (auto simp: fetch_and_install_def fetch_authenticated_Ok_iff)
  from run_aims_at [OF assms(2), of "m\<lparr>bm_gauges := g\<rparr>" d] obtain m1 where exp: "g_expected (bm_gauges m1) = h" and
    "bootstrap_run B cfg (d, m\<lparr>bm_gauges := g\<rparr>) =
       bootstrap_to_height B cfg h (read_local_height (bd_codec B) d (bc_zcash_network cfg)) forced (d, m1)"
    by blast
  with fetch assms(3,6) have "startup_bootstrap B cfg m (d, g) = ((?d, served_height_set h (bm_gauges m1)), Ok ())"
    by (simp add: startup_bootstrap_def bootstrap_to_height_def bootstrap_outcome_inc_def set_served_def bootstrap_bytes_inc_def)
  moreover have "g_expected (served_height_set h (bm_gauges m1)) = h" using exp by (simp add: served_height_set_def)
  ultimately show thesis using files by (intro that)
qed

text \<open>
  C4. From a published snapshot to a verified proof. Take the snapshot of a tree built from
  nullifiers, published with a manifest that vouches for its files, and a server
  configured for its height, started on any directory that is not already at that height and
  whose nullifier index exists or can be rebuilt.
  The start-up task can run to readiness; the server is then ready, the first observation of
  the watchdog reports nothing, and a client that connects to the server obtains, for every
  value outside the padded nullifier set, a proof that the verifier accepts against the root
  of the tree.
\<close>

theorem published_snapshot_served:
  fixes P :: "'p::len poseidon_constants"
  assumes "build_pir_tree_from_nullifiers P nfs = Ok tree"
    and "validate_supported L = Ok ()" and "pir_depth L = PIR_DEPTH" and "sv_pir_poly_len args = 2048 \<or> sv_pir_poly_len args = 4096"
    and "meta_from_json (bd_codec B) (meta_to_json (bd_codec B) (snapshot_meta (bd_codec B) P (pt_ranges tree) (sv_zcash_network args) (Some h) L)) =
           Some (snapshot_meta (bd_codec B) P (pt_ranges tree) (sv_zcash_network args) (Some h) L)"
    and "\<And>bs. hex_to (bd_codec B) (hex_of (bd_codec B) bs) = Some bs"
    and "codecs_agree W J (bd_codec B) (served_meta (bd_codec B) P (pt_ranges tree) (sv_zcash_network args) (Some h) L (sv_pir_poly_len args))
           (layout_scenario L (sv_pir_poly_len args))"
    and "ypir_correct Y Yc (layout_scenario L (sv_pir_poly_len args)) (tier1_of (pt_ranges tree) L) seed"
    and "published B (serve_bootstrap_config args) h P (pt_ranges tree) L" "aims_at B (serve_bootstrap_config args) forced h"
    and "bc_precomputed_base_url (serve_bootstrap_config args) \<noteq> []"
    and "rebuild_index d = Ok d1" "read_local_height (bd_codec B) d1 (sv_zcash_network args) \<noteq> Some h"
    and "v \<notin> padded_set nfs"
  shows "\<exists>st c rs pr.
    (serve_step TYPE('p) (bd_codec B) H T Y (startup_env B args m) W)\<^sup>*\<^sup>* (BootInit, initial_state args lwd_env d) (BootDone, st) \<and>
    rsp_status (get_ready W st) = 200 \<and>
    snd (watch_iteration threshold now (state_default, process_gauges st)) = [] \<and>
    with_transport P (server_net Y W st (trim_end_slashes url)) J url (L\<lparr>poly_len := sv_pir_poly_len args\<rparr>) = (Ok c, rs) \<and>
    fetch_proof P (server_net Y W st (trim_end_slashes url)) Yc seed c v = Ok pr \<and>
    proof_wf pr \<and> root pr = pt_circuit_root tree \<and> verify P pr v"
proof -
  let ?net = "sv_zcash_network args" and ?C = "bd_codec B" and ?cfg = "serve_bootstrap_config args" and ?degree = "sv_pir_poly_len args"
  let ?ss = "snapshot_state ?C Y P (pt_ranges tree) ?net (Some h) L ?degree"
  have sup: "supported L" using assms(2) by (simp add: validate_supported_iff)
  have net: "bc_zcash_network ?cfg = ?net" by (simp add: serve_bootstrap_config_def)
  obtain d2 g where boot: "startup_bootstrap B ?cfg m (d1, no_gauges) = ((d2, g), Ok ())" and g: "g_expected g = h" and files:
    "d2 tier0_file = Some (tier0_of P (pt_ranges tree) L)" "d2 tier1_file = Some (tier1_of (pt_ranges tree) L)"
    "d2 TIER1_PRECOMPUTE_FILE = None"
    "d2 root_file = Some (meta_to_json ?C (snapshot_meta ?C P (pt_ranges tree) ?net (Some h) L))"
    by (rule published_bootstraps [OF assms(9-11) sup, unfolded net, OF assms(5,13)])
  obtain d3 where ld: "load_serving_state_with_poly_len TYPE('p) ?C H T Y undefined d2 ?net ?degree = (d3, Ok ?ss)"
    using load_snapshot_fresh [OF sup assms(4-6) files(1,2,4,3)] by blast
  let ?g = "case md_height (ss_metadata ?ss) of None \<Rightarrow> g | Some h \<Rightarrow> served_height_set h g"
  let ?st = "(initial_state args lwd_env d3)\<lparr>phase := Serving, serving := Some ?ss, rebuild_lock := False,
    process_gauges := ?g, watchdog_loop := watchdog_settings args\<rparr>"
  have run: "(serve_step TYPE('p) ?C H T Y (startup_env B args m) W)\<^sup>*\<^sup>* (BootInit, initial_state args lwd_env d) (BootDone, ?st)"
    using boot_run [OF assms(12), of "startup_env B args m" d2 g "TYPE('p)" ?C H T Y undefined d3 ?ss W lwd_env] boot ld
    by (simp add: startup_env_def)
  have ready: "rsp_status (get_ready W ?st) = 200" by (simp add: get_ready_def respond_def)
  have "served_height_get ?g = expected_height_get ?g"
    using g by (simp add: snapshot_state_def served_meta_def snapshot_meta_def export_metadata_def served_height_get_def expected_height_get_def served_height_set_def)
  then have watch: "snd (watch_iteration threshold now (state_default, process_gauges ?st)) = []"
    by (simp add: watch_iteration_def tick_def state_default_def apply_action_def Let_def)
  have "serving ?st = Some ?ss" by simp
  from served_client [OF built_snapshot(1) [OF assms(1-3)] assms(4) load_serving_wf [OF ld] assms(6-8) this, of url]
  obtain c rs where con: "with_transport P (server_net Y W ?st (trim_end_slashes url)) J url (L\<lparr>poly_len := ?degree\<rparr>) = (Ok c, rs)"
    and c: "client_wf c" "pc_layout c = L\<lparr>poly_len := ?degree\<rparr>" "holds_snapshot P c (pt_ranges tree)"
      "answers_rows (server_net Y W ?st (trim_end_slashes url)) Yc seed c (pt_ranges tree)" .
  from built_proof_over_wire [OF assms(1-4) c assms(14)] run ready watch con show ?thesis by blast
qed

section \<open>A published sample\<close>

abbreviation sample_t0 :: bytes where "sample_t0 \<equiv> tier0_of sample_constants sample_ranges COMPILED_PIR_LAYOUT"

abbreviation sample_t1 :: bytes where "sample_t1 \<equiv> tier1_of sample_ranges COMPILED_PIR_LAYOUT"

definition sample_manifest :: PublishedManifest where
  "sample_manifest =
     \<lparr>pm_schema_version = 2, pm_nullifier_pool = NULLIFIER_POOL, pm_dataset_version = DATASET_VERSION, pm_height = 3428150,
      pm_files = [(tier0_file, \<lparr>mf_size = word_of_nat (length sample_t0), mf_sha256 = hex_of sample_codec sample_t0\<rparr>),
                  (tier1_file, \<lparr>mf_size = word_of_nat (length sample_t1), mf_sha256 = hex_of sample_codec sample_t1\<rparr>),
                  (root_file, \<lparr>mf_size = 0, mf_sha256 = []\<rparr>)]\<rparr>"

text \<open>A bucket of the sample snapshot, whose digest is the identity in hexadecimal; the host is forced to its height.\<close>

definition sample_base :: string where
  "sample_base = ''https://cdn/snapshots/main/3428150''"

definition sample_cdn :: cdn where
  "sample_cdn url =
     (let ok = (\<lambda>body. Ok \<lparr>sr_status = 200, sr_content_length = None, sr_chunks = [body], sr_broken = False\<rparr>)
      in if url = sample_base @ ''/manifest.json'' then ok []
         else if url = sample_base @ ''/'' @ tier0_file then ok sample_t0
         else if url = sample_base @ ''/'' @ tier1_file then ok sample_t1
         else if url = sample_base @ ''/'' @ root_file then ok []
         else Bail ''connection refused'')"

definition sample_boot :: boot_deps where
  "sample_boot =
     \<lparr>bd_http = (\<lambda>_. Bail ''connection refused''),
      bd_source_json = \<lparr>discovery_from_json = (\<lambda>_. None), active_from_json = (\<lambda>_. None), pir_config_from_json = (\<lambda>_. None)\<rparr>,
      bd_cdn = sample_cdn, bd_codec = sample_codec, bd_manifest_from_json = (\<lambda>_. Some sample_manifest),
      bd_sha256_hex = hex_of sample_codec\<rparr>"

definition sample_boot_config :: boot_config where
  "sample_boot_config =
     \<lparr>bc_zcash_network = Main, bc_pir_config_url = None, bc_voting_config_url = [],
      bc_precomputed_base_url = ''https://cdn'', bc_force_snapshot_height = Some 3428150\<rparr>"

definition no_metrics :: boot_metrics where
  "no_metrics = \<lparr>bm_gauges = \<lparr>g_served = 0, g_expected = 0, g_stale_seconds = 0\<rparr>, bm_attempts = 0, bm_outcomes = [], bm_bytes = 0\<rparr>"

lemma sample_dir: "snapshot_dir sample_boot_config 3428150 = sample_base"
  by (simp add: snapshot_dir_def sample_boot_config_def sample_base_def PIR_SNAPSHOTS_PATH_def show_nat.simps)

lemma sample_sizes: "unat (word_of_nat (length sample_t0) :: u64) = length sample_t0"
  "unat (word_of_nat (length sample_t1) :: u64) = length sample_t1"
  by (simp_all add: unat_of_nat length_tier0_of length_tier1_of COMPILED_PIR_LAYOUT_def TIER0_LAYERS_def TIER1_LAYERS_def)

lemma sample_bodies:
  "body_of sample_boot (sample_base @ ''/'' @ tier0_file) = Some sample_t0"
  "body_of sample_boot (sample_base @ ''/'' @ tier1_file) = Some sample_t1"
  "body_of sample_boot (sample_base @ ''/'' @ root_file) = Some []"
  by (simp_all add: body_of_def sample_boot_def sample_cdn_def Let_def tier0_file_def tier1_file_def root_file_def)

lemma sample_boot_fields: "bd_sha256_hex sample_boot = hex_of sample_codec" "bd_codec sample_boot = sample_codec" "bd_cdn sample_boot = sample_cdn"
  by (simp_all add: sample_boot_def)

lemma sample_published: "published sample_boot sample_boot_config 3428150 sample_constants sample_ranges COMPILED_PIR_LAYOUT"
proof -
  have man: "fetch_manifest sample_boot sample_boot_config 3428150 None = Ok sample_manifest"
    unfolding fetch_manifest_Ok_iff sample_dir
    by (simp add: sample_boot_def sample_cdn_def Let_def sample_manifest_def is_current_dataset_def SNAPSHOT_FILES_def)
  have "meta_to_json sample_codec meta = []" for meta by (simp add: sample_codec_def sample_hex_def)
  moreover have "hex_of sample_codec [] = []" by (simp add: sample_codec_def sample_hex_def)
  ultimately have "vouched sample_boot sample_base sample_manifest tier0_file = Some sample_t0"
    "vouched sample_boot sample_base sample_manifest tier1_file = Some sample_t1"
    "vouched sample_boot sample_base sample_manifest root_file =
      Some (meta_to_json (bd_codec sample_boot) (snapshot_meta (bd_codec sample_boot) sample_constants sample_ranges
        (bc_zcash_network sample_boot_config) (Some 3428150) COMPILED_PIR_LAYOUT))"
    using sample_bodies sample_sizes unfolding vouched_def sample_manifest_def
    by (simp_all add: sample_boot_fields eq_ignore_ascii_case_def)
  with man show ?thesis unfolding published_def sample_dir by blast
qed

lemma sample_aims: "aims_at sample_boot sample_boot_config True 3428150"
  by (simp add: aims_at_def sample_boot_config_def validate_force_snapshot_height_def validate_export_height_def
      NU6_3_MAINNET_ACTIVATION_HEIGHT_def)

lemma sample_fresh: "read_local_height C Map.empty network \<noteq> Some h"
  by (simp add: read_local_height_def validate_pir_metadata_def)

lemma sample_boot_meta:
  "meta_from_json (bd_codec sample_boot) (meta_to_json (bd_codec sample_boot)
     (snapshot_meta (bd_codec sample_boot) sample_constants sample_ranges (bc_zcash_network sample_boot_config) (Some 3428150) COMPILED_PIR_LAYOUT)) =
   Some (snapshot_meta (bd_codec sample_boot) sample_constants sample_ranges (bc_zcash_network sample_boot_config) (Some 3428150) COMPILED_PIR_LAYOUT)"
  by (simp add: sample_boot_def sample_boot_config_def sample_meta_round_trip)

lemma sample_boot_run:
  "\<exists>d' m'. bootstrap_run sample_boot sample_boot_config (Map.empty, m) = ((d', m'), Ok (BootstrappedTo 3428150))"
proof -
  from sample_aims run_aims_at [of sample_boot sample_boot_config True 3428150 m Map.empty] obtain m1 where
    "bootstrap_run sample_boot sample_boot_config (Map.empty, m) =
       bootstrap_to_height sample_boot sample_boot_config 3428150 (read_local_height (bd_codec sample_boot) Map.empty Main) True (Map.empty, m1)"
    by (auto simp: sample_boot_config_def)
  moreover obtain d' g' where "startup_bootstrap sample_boot sample_boot_config m (Map.empty, bm_gauges m) = ((d', g'), Ok ())"
    using published_bootstraps [OF sample_published sample_aims _ supported_compiled sample_boot_meta sample_fresh]
    by (metis sample_boot_config_def boot_config.select_convs(4) list.distinct(1))
  ultimately show ?thesis
    using sample_fresh [of "bd_codec sample_boot" Main 3428150]
    by (auto simp: startup_bootstrap_def bootstrap_to_height_def Let_def split: prod.splits sum.splits if_splits)
qed
theorem bootstrap_installs_published_witness:
  "\<exists>d'. read_local_height sample_codec d' Main = Some 3428150 \<and> d' ''tier2.bin'' = None"
proof -
  obtain d' m' where "bootstrap_run sample_boot sample_boot_config (Map.empty, no_metrics) = ((d', m'), Ok (BootstrappedTo 3428150))"
    using sample_boot_run by blast
  from bootstrap_installs_published [OF this, of "''tier2.bin''"] show ?thesis
    by (intro exI [of _ d']) (auto simp: sample_boot_fields sample_boot_config_def stale_files_def boot_files)
qed

text \<open>A start without a network: it falls through and keeps the directory.\<close>

definition offline_config :: boot_config where
  "offline_config = sample_boot_config\<lparr>bc_precomputed_base_url := ''https://gone''\<rparr>"

theorem failed_bootstrap_keeps_files_witness:
  "fst (fst (bootstrap_run sample_boot offline_config ([''tier0.bin'' \<mapsto> [1]], no_metrics))) ''tier0.bin'' = Some [1]"
proof -
  obtain d' m' r where run: "bootstrap_run sample_boot offline_config ([''tier0.bin'' \<mapsto> [1]], no_metrics) = ((d', m'), r)"
    by (metis prod.exhaust)
  have "\<not> in_staging ''tier0.bin''" by (simp add: in_staging_def staging_def)
  moreover have "r \<noteq> Ok (BootstrappedTo h)" for h
  proof
    assume "r = Ok (BootstrappedTo h)"
    with run obtain n where "fetch_and_install sample_boot offline_config h [''tier0.bin'' \<mapsto> [1]] = (d', Inr n)"
      by (auto elim: run_Bootstrapped)
    then have "\<exists>man. fetch_manifest sample_boot offline_config h None = Ok man"
      by (auto simp: fetch_and_install_def fetch_authenticated_Ok_iff)
    then show False
      by (simp add: fetch_manifest_def sample_boot_def sample_cdn_def snapshot_dir_def offline_config_def sample_base_def
          sample_boot_config_def PIR_SNAPSHOTS_PATH_def)
  qed
  ultimately show ?thesis
    using failed_bootstrap_keeps_files [OF run, of "''tier0.bin''"] run by auto
qed

text \<open>A start killed before it moved anything, with a stray file in the staging directory.\<close>

theorem interrupted_bootstrap_recovers_witness:
  "\<exists>d' m' out. bootstrap_run sample_boot sample_boot_config ([''.bootstrap-staging/x'' \<mapsto> [0]], no_metrics) = ((d', m'), Ok out) \<and>
     (out = BootstrappedTo 3428150 \<or> out = AlreadyAtHeight 3428150)"
proof -
  obtain dn mn where "bootstrap_run sample_boot sample_boot_config (Map.empty, no_metrics) = ((dn, mn), Ok (BootstrappedTo 3428150))"
    using sample_boot_run by blast
  moreover have "interrupted sample_boot sample_boot_config 3428150 Map.empty [''.bootstrap-staging/x'' \<mapsto> [0]]"
    by (auto simp: interrupted_def in_staging_def staging_def)
  ultimately show ?thesis
    using interrupted_bootstrap_recovers [of sample_boot sample_boot_config Map.empty no_metrics dn mn 3428150
        "[''.bootstrap-staging/x'' \<mapsto> [0]]" no_metrics] by blast
qed

lemma sample_serve_config: "serve_bootstrap_config sample_serve_args = sample_boot_config"
  by (simp add: serve_bootstrap_config_def sample_serve_args_def sample_boot_config_def trim_end_slashes_def)

theorem published_snapshot_served_witness:
  "\<exists>st c rs pr.
    (serve_step TYPE(pallas) (bd_codec sample_boot) sample_digest sample_target clear_ypir
       (startup_env sample_boot sample_serve_args no_metrics) sample_printer)\<^sup>*\<^sup>*
      (BootInit, initial_state sample_serve_args None Map.empty) (BootDone, st) \<and>
    rsp_status (get_ready sample_printer st) = 200 \<and>
    snd (watch_iteration 1800000000000 5 (state_default, process_gauges st)) = [] \<and>
    with_transport sample_constants (server_net clear_ypir sample_printer st (trim_end_slashes ''http://pir/'')) sample_parsers
      ''http://pir/'' (COMPILED_PIR_LAYOUT\<lparr>poly_len := sv_pir_poly_len sample_serve_args\<rparr>) = (Ok c, rs) \<and>
    fetch_proof sample_constants (server_net clear_ypir sample_printer st (trim_end_slashes ''http://pir/'')) clear_client 0 c 7 = Ok pr \<and>
    proof_wf pr \<and> root pr = pt_circuit_root sample_tree \<and> verify sample_constants pr 7"
proof (rule published_snapshot_served [OF sample_build compiled_layout_supported compiled_depth])
  show "published sample_boot (serve_bootstrap_config sample_serve_args) 3428150 sample_constants (pt_ranges sample_tree) COMPILED_PIR_LAYOUT"
    using sample_published by (simp add: sample_serve_config)
  show "aims_at sample_boot (serve_bootstrap_config sample_serve_args) True 3428150" unfolding sample_serve_config by (rule sample_aims)
  show "bc_precomputed_base_url (serve_bootstrap_config sample_serve_args) \<noteq> []"
    unfolding sample_serve_config by (simp add: sample_boot_config_def)
  show "rebuild_index Map.empty = Ok Map.empty" by (simp add: rebuild_index_def load_checkpoint_def)
  show "read_local_height (bd_codec sample_boot) Map.empty (sv_zcash_network sample_serve_args) \<noteq> Some 3428150" by (rule sample_fresh)
qed (use sample_boot_meta sample_hex_round_trip sample_codecs_agree clear_ypir_correct sample_seven_free in
    \<open>simp_all add: sample_boot_fields sample_serve_config sample_boot_config_def sample_serve_args_def\<close>)

end
