(* ===== verification/Update_Theorems.thy ===== *)
theory Update_Theorems
  imports Pir_Update Bootstrap_Theorems
begin

text \<open>
  The properties of authorized updates: the signed message is unambiguous, an accepted update
  was signed, and the signed manifest digest fixes the staged snapshot.
\<close>

section \<open>Signed updates and staged snapshots\<close>

text \<open>
  The signed message is unambiguous: it determines the scope and the five digests of the
  payload, so no signature for one environment or one set of artifacts is one for another.
\<close>

theorem signing_bytes_injective:
  assumes "signing_bytes scope p = Ok message" "signing_bytes scope' p' = Ok message"
  shows "scope = scope' \<and> p = p'"
  by (rule signing_bytes_inj [OF assms])

text \<open>
  C15. An accepted update was signed. If the trusted keys verify only messages the coordinator
  signed, then whatever the two files contain, an accepted update carries a payload that the
  coordinator signed for exactly this scope, the configuration has the signed digest, and
  its tag and height are in the accepted ranges.
\<close>

theorem accepted_update_is_signed:
  assumes "verify_with_keys U config attestations scope keys = Ok (cfg, p)"
    and "\<And>key raw k message sb. key \<in> set keys \<Longrightarrow> ud_base64_decode U (key_pubkey key) = Some raw \<Longrightarrow>
       ud_key_from_bytes U raw = Some k \<Longrightarrow> ud_verify_strict U k message sb \<Longrightarrow> message \<in> authentic"
    and "authentic = {message. \<exists>(s, q) \<in> approved. signing_bytes s q = Ok message}"
  shows "(scope, p) \<in> approved \<and> ud_sha256_hex U config = config_sha256 p \<and> ud_config_from_json U config = Some cfg \<and>
    valid_tag (uc_binary_tag cfg) \<and> 0 < uc_snapshot_height cfg \<and> uc_snapshot_height cfg < 2 ^ 53"
proof -
  from assms(1) obtain message key pk sb k where m: "signing_bytes scope p = Inr message" "ud_sha256_hex U config = config_sha256 p"
    "ud_config_from_json U config = Some cfg" "valid_tag (uc_binary_tag cfg)" "0 < uc_snapshot_height cfg" "uc_snapshot_height cfg < 2 ^ 53"
    and v: "key \<in> set keys" "ud_base64_decode U (key_pubkey key) = Some pk" "ud_key_from_bytes U pk = Some k" "ud_verify_strict U k message sb"
    by (auto elim: verify_with_keys_Ok)
  from assms(2) [OF v] assms(3) obtain s' q where "(s', q) \<in> approved" "signing_bytes s' q = Inr message" by auto
  with m signing_bytes_inj [OF m(1)] show ?thesis by blast
qed

text \<open>
  C16. A signed payload fixes the staged snapshot. Two hosts that accept updates with the same
  manifest digest and stage them, from whatever buckets and whatever those serve, end up
  with byte-identical snapshot files, and the metadata of a staged snapshot is for the network and the height asked
  for. The only exception is a file for which the hosts have been delivered a collision: the two
  staged files themselves, or the two manifests they were checked against, differ and have one digest.
\<close>

theorem staged_snapshot_is_signed:
  assumes "stage B args d = (d', Ok ())" "stage B2 args2 e = (e', Ok ())"
    and "stg_manifest_sha256 args = snapshot_manifest_sha256 p" "stg_manifest_sha256 args2 = snapshot_manifest_sha256 p"
    and "bd_sha256_hex B2 = bd_sha256_hex B" "bd_manifest_from_json B2 = bd_manifest_from_json B" "name \<in> set SNAPSHOT_FILES"
  shows "d' name \<noteq> None \<and>
    (d' name = e' name \<or> collide (bd_sha256_hex B) (d' name) (e' name) \<or>
      collide (bd_sha256_hex B) (manifest_body B (stage_config args) (stg_height args)) (manifest_body B2 (stage_config args2) (stg_height args2))) \<and>
    read_local_height (bd_codec B) d' (stg_zcash_network args) = Some (stg_height args)"
proof -
  from assms(1) obtain n where f: "fetch_authenticated B (stage_config args) (stg_height args) (Some (stg_manifest_sha256 args)) Map.empty = (d', Inr n)"
    by (rule stage_Ok)
  from assms(2) obtain n2 where f2: "fetch_authenticated B2 (stage_config args2) (stg_height args2) (Some (stg_manifest_sha256 args)) Map.empty = (e', Inr n2)"
    using assms(3,4) by (auto elim: stage_Ok)
  from f have "d' name \<noteq> None" "read_local_height (bd_codec B) d' (stg_zcash_network args) = Some (stg_height args)"
    using assms(7) by (auto simp: fetch_authenticated_Ok_iff installed_def stage_config_def)
  with fetch_authenticated_unique [OF f f2 assms(5-7)] show ?thesis by blast
qed

section \<open>A signed sample\<close>

definition zeros64 :: string where
  "zeros64 = replicate 64 (CHR ''0'')"

definition sample_payload :: Payload where
  "sample_payload = \<lparr>config_sha256 = zeros64, linux_amd64_sha256 = zeros64, linux_arm64_sha256 = zeros64,
     snapshot_manifest_sha256 = zeros64, service_sha256 = zeros64\<rparr>"

definition sample_message :: bytes where
  "sample_message = ascii (''valargroup/pir-update/v1'' @ [CHR 0x0A] @ ''prod'' @ [CHR 0x0A] @ concat (replicate 5 (zeros64 @ [CHR 0x0A])))"

definition sample_update :: UpdateConfig where
  "sample_update = \<lparr>uc_schema_version = 1, uc_snapshot_height = 3428150, uc_binary_tag = ''v1.0.0''\<rparr>"

text \<open>A key that verifies the sample message only.\<close>

definition sample_deps :: "unit update_deps" where
  "sample_deps =
     \<lparr>ud_att_from_json = (\<lambda>_. Some \<lparr>att_schema_version = 1, att_payload = sample_payload,
        att_signatures = [\<lparr>sig_key_id = ''k'', sig_alg = ''ed25519'', sig_sig = ''s''\<rparr>]\<rparr>),
      ud_config_from_json = (\<lambda>_. Some sample_update), ud_sha256_hex = (\<lambda>_. zeros64),
      ud_base64_decode = (\<lambda>s. Some (replicate (if s = ''p'' then 32 else 64) 0)),
      ud_key_from_bytes = (\<lambda>_. Some ()), ud_verify_strict = (\<lambda>_ message _. message = sample_message)\<rparr>"

lemma sample_signing: "signing_bytes ''prod'' sample_payload = Ok sample_message"
proof -
  have "is_sha256_hex zeros64" by (simp add: is_sha256_hex_def zeros64_def is_ascii_digit_def list_all_iff)
  then show ?thesis
    by (simp add: signing_bytes_Ok_iff payload_hashes_def sample_payload_def sample_message_def eval_nat_numeral)
qed

lemma sample_verified:
  "verify_with_keys sample_deps [] [] ''prod'' [\<lparr>key_key_id = ''k'', key_pubkey = ''p''\<rparr>] = Ok (sample_update, sample_payload)"
proof -
  have "signature_valid sample_deps [\<lparr>key_key_id = ''k'', key_pubkey = ''p''\<rparr>] sample_message
      \<lparr>sig_key_id = ''k'', sig_alg = ''ed25519'', sig_sig = ''s''\<rparr>"
    by (simp add: signature_valid_def key_accepts_def sample_deps_def)
  moreover have "valid_tag (uc_binary_tag sample_update)"
    by (simp add: valid_tag_def sample_update_def is_ascii_alphanumeric_def is_ascii_digit_def)
  moreover have "config_sha256 sample_payload = zeros64" by (simp add: sample_payload_def)
  ultimately show ?thesis
    using sample_signing by (simp add: verify_with_keys_def sample_deps_def) (simp add: sample_update_def)
qed

theorem signing_bytes_injective_witness:
  "signing_bytes ''prod'' sample_payload = Ok sample_message \<and> signing_bytes ''stage'' sample_payload \<noteq> Ok sample_message"
  using signing_bytes_injective [OF sample_signing, of "''stage''" sample_payload] sample_signing by auto

theorem accepted_update_is_signed_witness:
  "(''prod'', sample_payload) \<in> {(''prod'', sample_payload)} \<and> uc_snapshot_height sample_update < 2 ^ 53"
proof -
  have only: "message \<in> {sample_message}" if "ud_verify_strict sample_deps k message sb" for k message sb
    using that by (simp only: sample_deps_def update_deps.select_convs insertI1)
  have auth: "{sample_message} = {message. \<exists>(s, q) \<in> {(''prod'', sample_payload)}. signing_bytes s q = Ok message}"
    by (simp add: sample_signing Collect_conv_if)
  have "(''prod'', sample_payload) \<in> {(''prod'', sample_payload)} \<and> ud_sha256_hex sample_deps [] = config_sha256 sample_payload \<and>
    ud_config_from_json sample_deps [] = Some sample_update \<and> valid_tag (uc_binary_tag sample_update) \<and>
    0 < uc_snapshot_height sample_update \<and> uc_snapshot_height sample_update < 2 ^ 53"
    by (rule accepted_update_is_signed [OF sample_verified _ auth]) (rule only)
  then show ?thesis by blast
qed

definition sample_stage :: StageArgs where
  "sample_stage = \<lparr>stg_zcash_network = Main, stg_height = 3428150, stg_precomputed_base_url = ''https://cdn/'', stg_manifest_sha256 = []\<rparr>"

text \<open>A mirror at another address, which delivers every byte in a chunk of its own.\<close>

definition rechunk :: "stream_response \<Rightarrow> stream_response" where
  "rechunk r = r\<lparr>sr_chunks := map (\<lambda>b. [b]) (concat (sr_chunks r))\<rparr>"

definition mirror_cdn :: cdn where
  "mirror_cdn url =
     (if starts_with url ''https://mirror'' then and_then (sample_cdn (''https://cdn'' @ drop 14 url)) (\<lambda>r. Ok (rechunk r))
      else Bail ''connection refused'')"

definition mirror_boot :: boot_deps where
  "mirror_boot = sample_boot\<lparr>bd_cdn := mirror_cdn\<rparr>"

definition mirror_stage :: StageArgs where
  "mirror_stage = sample_stage\<lparr>stg_precomputed_base_url := ''https://mirror/''\<rparr>"

lemma concat_singletons: "concat (map (\<lambda>b. [b]) bs) = bs"
  by (induction bs) simp_all

lemma mirror_response: "mirror_cdn (''https://mirror'' @ r) = and_then (sample_cdn (''https://cdn'' @ r)) (\<lambda>x. Ok (rechunk x))"
  by (simp add: mirror_cdn_def)

lemma mirror_body: "body_of mirror_boot (''https://mirror'' @ r) = body_of sample_boot (''https://cdn'' @ r)"
  by (cases "sample_cdn (''https://cdn'' @ r)")
    (simp_all add: body_of_def mirror_boot_def mirror_response rechunk_def concat_singletons sample_boot_fields(3) del: append.simps append_Cons)

lemma stage_dirs:
  "snapshot_dir (stage_config sample_stage) 3428150 = sample_base"
  "snapshot_dir (stage_config mirror_stage) 3428150 = ''https://mirror'' @ drop 11 sample_base"
  "sample_base = ''https://cdn'' @ drop 11 sample_base"
  using sample_dir
  by (simp_all add: snapshot_dir_def stage_config_def mirror_stage_def sample_stage_def sample_boot_config_def sample_base_def trim_end_slashes_def
      PIR_SNAPSHOTS_PATH_def show_nat.simps)

lemma mirror_vouched:
  "vouched mirror_boot (''https://mirror'' @ drop 11 sample_base) m name = vouched sample_boot sample_base m name"
proof -
  have "body_of mirror_boot ((''https://mirror'' @ drop 11 sample_base) @ x) = body_of sample_boot (sample_base @ x)" for x
    using mirror_body [of "drop 11 sample_base @ x"] stage_dirs(3) by (metis append.assoc)
  then show ?thesis by (simp add: vouched_def mirror_boot_def)
qed

lemma mirror_manifest:
  "manifest_body sample_boot (stage_config sample_stage) (stg_height sample_stage) =
   manifest_body mirror_boot (stage_config mirror_stage) (stg_height mirror_stage)"
proof -
  have h: "stg_height sample_stage = 3428150" "stg_height mirror_stage = 3428150" by (simp_all add: mirror_stage_def sample_stage_def)
  have "body_of mirror_boot ((''https://mirror'' @ drop 11 sample_base) @ ''/manifest.json'') = body_of sample_boot (sample_base @ ''/manifest.json'')"
    using mirror_body [of "drop 11 sample_base @ ''/manifest.json''"] stage_dirs(3) by (metis append.assoc)
  then show ?thesis unfolding manifest_body_def h stage_dirs(1,2) by (rule sym)
qed

lemma sample_manifest_staged: "fetch_manifest sample_boot (stage_config sample_stage) 3428150 (Some []) = Ok sample_manifest"
  unfolding fetch_manifest_Ok_iff stage_dirs(1,2)
  by (simp add: sample_boot_def sample_cdn_def Let_def sample_manifest_def is_current_dataset_def SNAPSHOT_FILES_def sample_codec_def sample_hex_def)

lemma mirror_manifest_staged: "fetch_manifest mirror_boot (stage_config mirror_stage) 3428150 (Some []) = Ok sample_manifest"
proof -
  have "mirror_cdn ((''https://mirror'' @ drop 11 sample_base) @ ''/manifest.json'') =
      and_then (sample_cdn (sample_base @ ''/manifest.json'')) (\<lambda>x. Ok (rechunk x))"
    using mirror_response [of "drop 11 sample_base @ ''/manifest.json''"] stage_dirs(3) by (metis append.assoc)
  then show ?thesis
    unfolding fetch_manifest_Ok_iff stage_dirs(1,2)
    by (simp add: mirror_boot_def rechunk_def sample_boot_def sample_cdn_def Let_def sample_manifest_def is_current_dataset_def SNAPSHOT_FILES_def
        sample_codec_def sample_hex_def del: append_Cons)
qed

text \<open>Staging the sample snapshot, from the bucket or from the mirror.\<close>

lemma staged_of_manifest:
  assumes "fetch_manifest B (stage_config args) 3428150 (Some []) = Ok sample_manifest" "stg_height args = 3428150" "stg_zcash_network args = Main"
    and "stg_manifest_sha256 args = []" "bd_codec B = sample_codec"
    and "\<And>name. vouched B (snapshot_dir (stage_config args) 3428150) sample_manifest name = vouched sample_boot sample_base sample_manifest name"
  shows "\<exists>d'. stage B args Map.empty = (d', Ok ())"
proof -
  let ?v = "vouched sample_boot sample_base sample_manifest"
  from sample_published obtain manifest where man: "fetch_manifest sample_boot sample_boot_config 3428150 None = Ok manifest"
    and v: "\<forall>name \<in> set SNAPSHOT_FILES. vouched sample_boot sample_base manifest name \<noteq> None"
    and root: "vouched sample_boot sample_base manifest root_file =
      Some (meta_to_json (bd_codec sample_boot) (snapshot_meta (bd_codec sample_boot) sample_constants sample_ranges
        (bc_zcash_network sample_boot_config) (Some 3428150) COMPILED_PIR_LAYOUT))"
    by (auto simp: published_def SNAPSHOT_FILES_def sample_dir)
  have m: "manifest = sample_manifest" using man by (auto simp: fetch_manifest_Ok_iff sample_boot_def)
  have "read_local_height (bd_codec sample_boot) (installed ?v Map.empty) (bc_zcash_network sample_boot_config) = Some 3428150"
    by (rule exported_local_height [OF supported_compiled sample_boot_meta]) (simp add: installed_def SNAPSHOT_FILES_def root [unfolded m])
  then have "read_local_height (bd_codec B) (installed ?v Map.empty) (bc_zcash_network (stage_config args)) = Some 3428150"
    using assms(3,5) by (simp add: sample_boot_fields stage_config_def sample_boot_config_def)
  moreover have "vouched B (snapshot_dir (stage_config args) 3428150) sample_manifest = ?v" using assms(6) by blast
  ultimately have "\<exists>d' n. fetch_authenticated B (stage_config args) 3428150 (Some []) Map.empty = (d', Inr n)"
    using assms(1) v [unfolded m] unfolding fetch_authenticated_Ok_iff by auto
  then obtain d' n where "fetch_authenticated B (stage_config args) 3428150 (Some []) Map.empty = (d', Inr n)" by blast
  moreover have "validate_force_snapshot_height 3428150 Main = Ok ()"
    by (simp add: validate_force_snapshot_height_def validate_export_height_def NU6_3_MAINNET_ACTIVATION_HEIGHT_def)
  ultimately show ?thesis using assms(2-4) unfolding stage_def by (simp add: stage_config_def)
qed

lemma sample_staged: "\<exists>d'. stage sample_boot sample_stage Map.empty = (d', Ok ())"
  by (rule staged_of_manifest [OF sample_manifest_staged]) (simp_all add: sample_stage_def sample_boot_fields stage_dirs(1) [unfolded sample_stage_def])

lemma mirror_staged: "\<exists>d'. stage mirror_boot mirror_stage Map.empty = (d', Ok ())"
  by (rule staged_of_manifest [OF mirror_manifest_staged])
    (simp_all add: stage_dirs(2) mirror_vouched del: append_Cons, simp_all add: mirror_stage_def sample_stage_def mirror_boot_def sample_boot_fields)

theorem staged_snapshot_is_signed_witness:
  "\<exists>d' e'. stage sample_boot sample_stage Map.empty = (d', Ok ()) \<and> stage mirror_boot mirror_stage Map.empty = (e', Ok ()) \<and>
     read_local_height sample_codec d' Main = Some 3428150 \<and>
     (d' tier0_file = e' tier0_file \<or> collide (bd_sha256_hex sample_boot) (d' tier0_file) (e' tier0_file))"
proof -
  obtain d' where s: "stage sample_boot sample_stage Map.empty = (d', Ok ())" using sample_staged by blast
  obtain e' where m: "stage mirror_boot mirror_stage Map.empty = (e', Ok ())" using mirror_staged by blast
  have p: "stg_manifest_sha256 sample_stage = snapshot_manifest_sha256 (sample_payload\<lparr>snapshot_manifest_sha256 := []\<rparr>)"
    "stg_manifest_sha256 mirror_stage = snapshot_manifest_sha256 (sample_payload\<lparr>snapshot_manifest_sha256 := []\<rparr>)"
    by (simp_all add: sample_stage_def mirror_stage_def)
  have fields: "bd_sha256_hex mirror_boot = bd_sha256_hex sample_boot" "bd_manifest_from_json mirror_boot = bd_manifest_from_json sample_boot"
    "tier0_file \<in> set SNAPSHOT_FILES"
    by (simp_all add: mirror_boot_def SNAPSHOT_FILES_def)
  have "\<not> collide sha (manifest_body sample_boot (stage_config sample_stage) (stg_height sample_stage))
      (manifest_body mirror_boot (stage_config mirror_stage) (stg_height mirror_stage))" for sha
    using mirror_manifest by (simp add: collide_def)
  with staged_snapshot_is_signed [OF s m p fields] s m show ?thesis by (auto simp: sample_boot_fields sample_stage_def)
qed

end
