(* ===== verification/Verify_Root.thy ===== *)
theory Verify_Root
  imports Bootstrap Built_Tree Pir_Update
begin

text \<open>
  The command \<^verbatim>\<open>nf-server verify-root\<close>: block authentication (\<^verbatim>\<open>root_verifier.rs\<close>), the bounded
  RPC client (\<^verbatim>\<open>raw_block_rpc.rs\<close>) and the walk from the trusted block back to activation
  (\<^verbatim>\<open>cmd_verify_root.rs\<close>). Block decoding, block and transaction hashes and the transaction
  Merkle root belong to another library and are parameters. The lemmas show that a walk that
  succeeds against any RPC server has collected the nullifiers of the chain that ends in the
  trusted block, unless a delivered block and the real one are a collision of those hashes.
\<close>

section \<open>Blocks\<close>

record block_header =
  hd_previous :: bytes
  hd_merkle_root :: bytes
  hd_rest :: bytes

record chain_tx =
  tx_raw :: bytes
  tx_ironwood :: "bytes list"

record full_block =
  fb_header :: block_header
  fb_transactions :: "chain_tx list"

text \<open>The block library: decoding with the position it stopped at, hashes, and the size limit.\<close>

record block_lib =
  bl_deserialize :: "bytes \<Rightarrow> (full_block \<times> nat) option"
  bl_hash :: "block_header \<Rightarrow> bytes"
  bl_txid :: "chain_tx \<Rightarrow> bytes"
  bl_merkle :: "bytes list \<Rightarrow> bytes"
  bl_coinbase_height :: "full_block \<Rightarrow> nat option"
  bl_max_bytes :: nat
  bl_hash_from_hex :: "string \<Rightarrow> bytes option"
  bl_hash_to_string :: "bytes \<Rightarrow> string"

record VerifiedBlock =
  vb_previous_hash :: bytes
  vb_nullifiers :: "bytes list"

definition block_nullifiers :: "full_block \<Rightarrow> bytes list" where
  "block_nullifiers b = concat (map tx_ironwood (fb_transactions b))"

definition verify_block :: "block_lib \<Rightarrow> bytes \<Rightarrow> bytes \<Rightarrow> nat \<Rightarrow> VerifiedBlock result" where
  "verify_block Z raw expected_hash expected_height =
     ensure (length raw \<le> bl_max_bytes Z) ''raw block exceeds size limit''
     (and_then (ok_or (bl_deserialize Z raw) (Error ''decode raw block'')) (\<lambda>(block, position).
     ensure (position = length raw) ''trailing bytes after block''
     (ensure (bl_hash Z (fb_header block) = expected_hash) ''block hash mismatch''
     (ensure (bl_coinbase_height Z block = Some expected_height) ''coinbase height mismatch''
     (ensure (fb_transactions block \<noteq> []) ''empty transaction list''
     (let txids = map (bl_txid Z) (fb_transactions block)
      in ensure (card (set txids) = length txids) ''duplicate transaction IDs''
         (ensure (bl_merkle Z txids = hd_merkle_root (fb_header block)) ''transaction Merkle root mismatch''
         (Ok \<lparr>vb_previous_hash = hd_previous (fb_header block), vb_nullifiers = block_nullifiers block\<rparr>))))))))"

section \<open>RPC client\<close>

record url_parts =
  url_scheme :: string
  url_host :: "string option"
  url_username :: string
  url_password :: "string option"
  url_fragment :: "string option"

text \<open>\<open>str::split_once\<close> on a character.\<close>

fun split_once :: "char \<Rightarrow> string \<Rightarrow> (string \<times> string) option" where
  "split_once c [] = None"
| "split_once c (x # xs) =
     (if x = c then Some ([], xs) else map_option (\<lambda>(a, b). (x # a, b)) (split_once c xs))"

record RawBlockRpc =
  rpc_credentials :: "(string \<times> string) option"

text \<open>The cookie file is absent from the arguments (\<open>None\<close>), or named, and then readable or not.\<close>

definition rpc_new :: "(string \<Rightarrow> url_parts option) \<Rightarrow> string \<Rightarrow> string option option \<Rightarrow> nat \<Rightarrow> RawBlockRpc result" where
  "rpc_new url_parse url cookie_file timeout_secs =
     and_then (ok_or (url_parse url) (Error ''invalid block RPC URL'')) (\<lambda>url.
     ensure ((url_scheme url = ''http'' \<or> url_scheme url = ''https'') \<and> url_host url \<noteq> None) ''block RPC URL must use HTTP or HTTPS''
     (ensure (url_username url = [] \<and> url_password url = None \<and> url_fragment url = None)
        ''use a cookie file for RPC credentials; URL credentials and fragments are forbidden''
     (ensure (timeout_secs > 0) ''HTTP timeout must be positive''
     (and_then (case cookie_file of
                  None \<Rightarrow> Ok None
                | Some contents \<Rightarrow>
                    and_then (ok_or contents (Error ''read RPC cookie file'')) (\<lambda>cookie.
                    and_then (ok_or (split_once (CHR '':'') (trim cookie)) (Error ''RPC cookie must contain user:password'')) (\<lambda>(user, password).
                    ensure (user \<noteq> [] \<and> password \<noteq> []) ''RPC cookie credentials must be nonempty'' (Ok (Some (user, password)))))) (\<lambda>credentials.
      Ok \<lparr>rpc_credentials = credentials\<rparr>)))))"

datatype FetchError = Transient | Invalid error

record RpcResponse =
  rr_id :: json
  rr_result :: "string option"
  rr_error :: "json option"

text \<open>
  The transport: what the attempt with a number answers to the request for a hash with the
  credentials; \<open>None\<close> is a transport error.
\<close>

record rpc_deps =
  rd_send :: "nat \<Rightarrow> (string \<times> string) option \<Rightarrow> string \<Rightarrow> stream_response option"
  rd_from_json :: "bytes \<Rightarrow> RpcResponse option"
  rd_hex_decode :: "string \<Rightarrow> bytes option"
  rd_url_parse :: "string \<Rightarrow> url_parts option"

definition MAX_RESPONSE_BYTES :: "block_lib \<Rightarrow> nat" where
  "MAX_RESPONSE_BYTES Z = bl_max_bytes Z * 2 + 65536"

definition ATTEMPTS :: nat where
  "ATTEMPTS = 3"

definition decode_response :: "block_lib \<Rightarrow> rpc_deps \<Rightarrow> bytes \<Rightarrow> bytes result" where
  "decode_response Z R body =
     ensure (length body \<le> MAX_RESPONSE_BYTES Z) ''block RPC response exceeds size limit''
     (and_then (ok_or (rd_from_json R body) (Error ''invalid block RPC response'')) (\<lambda>response.
     ensure (rr_id response = JU64 1) ''block RPC response ID mismatch''
     (ensure (rr_error response = None) ''block RPC reported an error (block may be unavailable)''
     (and_then (ok_or (rr_result response) (Error ''block RPC omitted the raw block'')) (\<lambda>encoded.
     ensure (length encoded \<le> bl_max_bytes Z * 2) ''raw block exceeds size limit''
     (ok_or (rd_hex_decode R encoded) (Error ''block RPC returned invalid raw-block hex'')))))))"

fun read_body :: "nat \<Rightarrow> bytes list \<Rightarrow> bool \<Rightarrow> bytes \<Rightarrow> FetchError + bytes" where
  "read_body limit [] broken body = (if broken then Inl Transient else Inr body)"
| "read_body limit (chunk # chunks) broken body =
     (if length chunk > limit - length body then Inl (Invalid (Error ''block RPC response exceeds size limit''))
      else read_body limit chunks broken (body @ chunk))"

definition fetch_once :: "block_lib \<Rightarrow> rpc_deps \<Rightarrow> RawBlockRpc \<Rightarrow> nat \<Rightarrow> bytes \<Rightarrow> FetchError + bytes" where
  "fetch_once Z R rpc attempt block_hash =
     (case rd_send R attempt (rpc_credentials rpc) (bl_hash_to_string Z block_hash) of
        None \<Rightarrow> Inl Transient
      | Some response \<Rightarrow>
          if sr_status response \<ge> 500 \<and> sr_status response < 600 \<or> sr_status response = 429 then Inl Transient
          else if \<not> (200 \<le> sr_status response \<and> sr_status response < 300)
          then Inl (Invalid (Error ''block RPC returned HTTP status''))
          else if (case sr_content_length response of None \<Rightarrow> False | Some n \<Rightarrow> n > MAX_RESPONSE_BYTES Z)
          then Inl (Invalid (Error ''block RPC response exceeds size limit''))
          else
            (case read_body (MAX_RESPONSE_BYTES Z) (sr_chunks response) (sr_broken response) [] of
               Inl e \<Rightarrow> Inl e
             | Inr body \<Rightarrow> (case decode_response Z R body of Inl e \<Rightarrow> Inl (Invalid e) | Inr raw \<Rightarrow> Inr raw)))"

text \<open>The loop over the attempts \<open>k, k + 1, \<dots>\<close> with \<open>n\<close> left; after the last one the loop has returned.\<close>

fun fetch_loop :: "block_lib \<Rightarrow> rpc_deps \<Rightarrow> RawBlockRpc \<Rightarrow> bytes \<Rightarrow> nat \<Rightarrow> nat \<Rightarrow> bytes result" where
  "fetch_loop Z R rpc block_hash attempt 0 = Err (Panic ''the last attempt always returns'')"
| "fetch_loop Z R rpc block_hash attempt (Suc n) =
     (case fetch_once Z R rpc attempt block_hash of
        Inr raw \<Rightarrow> Ok raw
      | Inl (Invalid e) \<Rightarrow> Inl e
      | Inl Transient \<Rightarrow>
          if attempt + 1 < ATTEMPTS then fetch_loop Z R rpc block_hash (attempt + 1) n
          else Bail ''block RPC transport failed'')"

definition rpc_fetch :: "block_lib \<Rightarrow> rpc_deps \<Rightarrow> RawBlockRpc \<Rightarrow> bytes \<Rightarrow> bytes result" where
  "rpc_fetch Z R rpc block_hash = fetch_loop Z R rpc block_hash 0 ATTEMPTS"

section \<open>The command\<close>

record verify_args =
  va_zcash_network :: ZcashNetwork
  va_height :: nat
  va_trusted_block_hash :: string
  va_expected_circuit_root :: string
  va_block_rpc_url :: string
  va_cookie_file :: "string option option"
  va_http_timeout_secs :: nat

definition parse_root :: "(string \<Rightarrow> bytes option) \<Rightarrow> string \<Rightarrow> 'p::len fp result" where
  "parse_root from_hex encoded =
     and_then (ok_or (Option.bind (from_hex encoded) (\<lambda>bs. if length bs = 32 then Some bs else None))
                 (Error ''circuit root must be 32 bytes of hex'')) (\<lambda>bytes.
     ok_or (from_repr bytes) (Error ''circuit root is not a canonical field element''))"

text \<open>The loop over \<open>n\<close> heights, downwards from \<open>height\<close>.\<close>

fun verify_walk ::
  "block_lib \<Rightarrow> rpc_deps \<Rightarrow> RawBlockRpc \<Rightarrow> nat \<Rightarrow> nat \<Rightarrow> bytes \<Rightarrow> bytes list \<Rightarrow> bytes list result" where
  "verify_walk Z R rpc 0 height expected_hash nullifiers = Ok nullifiers"
| "verify_walk Z R rpc (Suc n) height expected_hash nullifiers =
     and_then (rpc_fetch Z R rpc expected_hash) (\<lambda>raw.
     and_then (verify_block Z raw expected_hash height) (\<lambda>verified.
     ensure (length (nullifiers @ vb_nullifiers verified) \<le> 2 * 2 ^ PIR_DEPTH) ''Ironwood action count exceeds verifier capacity''
       (verify_walk Z R rpc n (height - 1) (vb_previous_hash verified) (nullifiers @ vb_nullifiers verified))))"

text \<open>What the command prints: both roots, the counts and whether the roots match.\<close>

record (overloaded) 'p verify_report =
  vr_expected_root :: "'p fp"
  vr_computed_circuit_root :: "'p fp"
  vr_computed_pir_root :: "'p fp"
  vr_verified_blocks :: nat
  vr_ironwood_actions :: nat
  vr_matches :: bool

definition verify_report_of :: "'p::len poseidon_constants \<Rightarrow> block_lib \<Rightarrow> rpc_deps \<Rightarrow> verify_args \<Rightarrow> 'p verify_report result" where
  "verify_report_of P Z R args =
     and_then (validate_export_height (va_height args) (va_zcash_network args)) (\<lambda>_.
     and_then (ok_or (bl_hash_from_hex Z (va_trusted_block_hash args)) (Error ''trusted block hash'')) (\<lambda>trusted_hash.
     and_then (parse_root (rd_hex_decode R) (va_expected_circuit_root args)) (\<lambda>expected_root.
     and_then (rpc_new (rd_url_parse R) (va_block_rpc_url args) (va_cookie_file args) (va_http_timeout_secs args)) (\<lambda>rpc.
     let activation = nu6_3_activation_height (va_zcash_network args);
         block_count = va_height args - activation + 1
     in and_then (verify_walk Z R rpc block_count (va_height args) trusted_hash []) (\<lambda>nullifiers.
        and_then (parse_nullifier_bytes (concat nullifiers)) (\<lambda>fields.
        and_then (build_pir_tree_from_nullifiers P fields) (\<lambda>tree.
        Ok \<lparr>vr_expected_root = expected_root, vr_computed_circuit_root = pt_circuit_root tree,
            vr_computed_pir_root = pt_pir_root tree, vr_verified_blocks = block_count,
            vr_ironwood_actions = length nullifiers, vr_matches = (pt_circuit_root tree = expected_root)\<rparr>)))))))"

text \<open>The command: the printed report, if any, and the result.\<close>

definition verify_root_run :: "'p::len poseidon_constants \<Rightarrow> block_lib \<Rightarrow> rpc_deps \<Rightarrow> verify_args \<Rightarrow> 'p verify_report option \<times> unit result" where
  "verify_root_run P Z R args =
     (case verify_report_of P Z R args of
        Inl e \<Rightarrow> (None, Inl e)
      | Inr report \<Rightarrow>
          (Some report,
           ensure (vr_matches report) ''proposed circuit root does not match the authenticated Ironwood dataset'' (Ok ())))"

end
