(* ===== verification/Verify_Theorems.thy ===== *)
theory Verify_Theorems
  imports Verify_Root Examples
begin

text \<open>
  The properties of root verification: what a successful run against an untrusted RPC server
  shows, that a run against an honest one reports the right verdict, and what the retry loop
  returns.
\<close>

section \<open>Blocks and chains\<close>

definition block_txids :: "block_lib \<Rightarrow> full_block \<Rightarrow> bytes list" where
  "block_txids Z b = map (bl_txid Z) (fb_transactions b)"

lemma verify_block_Ok_iff:
  "verify_block Z raw hh height = Inr v \<longleftrightarrow>
     length raw \<le> bl_max_bytes Z \<and>
     (\<exists>b. bl_deserialize Z raw = Some (b, length raw) \<and> bl_hash Z (fb_header b) = hh \<and>
          bl_coinbase_height Z b = Some height \<and> fb_transactions b \<noteq> [] \<and> distinct (block_txids Z b) \<and>
          bl_merkle Z (block_txids Z b) = hd_merkle_root (fb_header b) \<and>
          v = \<lparr>vb_previous_hash = hd_previous (fb_header b), vb_nullifiers = block_nullifiers b\<rparr>)"
proof -
  have "distinct xs \<longleftrightarrow> card (set xs) = length xs" for xs :: "bytes list"
    using distinct_card card_distinct by blast
  then show ?thesis by (auto simp: verify_block_def result_simps Let_def block_txids_def)
qed

text \<open>A chain of blocks that ends in a hash: linked headers, and transactions under their roots.\<close>

definition block_wf :: "block_lib \<Rightarrow> full_block \<Rightarrow> bool" where
  "block_wf Z b \<longleftrightarrow>
     bl_merkle Z (block_txids Z b) = hd_merkle_root (fb_header b) \<and> distinct (block_txids Z b) \<and>
     (\<forall>nf \<in> set (block_nullifiers b). length nf = 32)"

definition hash_chain :: "block_lib \<Rightarrow> (nat \<Rightarrow> full_block) \<Rightarrow> nat \<Rightarrow> nat \<Rightarrow> bytes \<Rightarrow> bool" where
  "hash_chain Z chain a h tip \<longleftrightarrow>
     bl_hash Z (fb_header (chain h)) = tip \<and>
     (\<forall>i. a \<le> i \<and> i < h \<longrightarrow> hd_previous (fb_header (chain (Suc i))) = bl_hash Z (fb_header (chain i))) \<and>
     (\<forall>i. a \<le> i \<and> i \<le> h \<longrightarrow> block_wf Z (chain i))"

definition chain_nullifiers :: "(nat \<Rightarrow> full_block) \<Rightarrow> nat list \<Rightarrow> bytes list" where
  "chain_nullifiers chain hs = concat (map (block_nullifiers \<circ> chain) hs)"

text \<open>
  What an attacker needs: another header with the same hash, another list of distinct
  transaction identifiers with the same Merkle root, or another transaction with the same
  identifier and other nullifiers.
\<close>

definition block_collision :: "block_lib \<Rightarrow> full_block \<Rightarrow> full_block \<Rightarrow> bool" where
  "block_collision Z b b' \<longleftrightarrow>
     (fb_header b \<noteq> fb_header b' \<and> bl_hash Z (fb_header b) = bl_hash Z (fb_header b')) \<or>
     (block_txids Z b \<noteq> block_txids Z b' \<and> distinct (block_txids Z b) \<and> distinct (block_txids Z b') \<and>
      bl_merkle Z (block_txids Z b) = bl_merkle Z (block_txids Z b')) \<or>
     (\<exists>t \<in> set (fb_transactions b). \<exists>t' \<in> set (fb_transactions b'). bl_txid Z t = bl_txid Z t' \<and> tx_ironwood t \<noteq> tx_ironwood t')"

text \<open>A block the RPC server delivered for a hash.\<close>

definition delivered :: "block_lib \<Rightarrow> rpc_deps \<Rightarrow> RawBlockRpc \<Rightarrow> bytes \<Rightarrow> full_block \<Rightarrow> bool" where
  "delivered Z R rpc hh b \<longleftrightarrow> (\<exists>raw pos. rpc_fetch Z R rpc hh = Inr raw \<and> bl_deserialize Z raw = Some (b, pos))"

lemma same_ids_same_nullifiers:
  assumes "map f ts = map f ts'" "\<And>t t'. t \<in> set ts \<Longrightarrow> t' \<in> set ts' \<Longrightarrow> f t = f t' \<Longrightarrow> g t = g t'"
  shows "map g ts = map g ts'"
proof -
  from assms(1) have len: "length ts = length ts'" by (rule map_eq_imp_length_eq)
  have "f (ts ! i) = f (ts' ! i)" if "i < length ts" for i
    using that assms(1) len by (metis nth_map)
  then show ?thesis using assms(2) len by (intro nth_equalityI) auto
qed

lemma verify_block_real:
  assumes "verify_block Z raw (bl_hash Z (fb_header b')) height = Inr v" "block_wf Z b'"
  shows "v = \<lparr>vb_previous_hash = hd_previous (fb_header b'), vb_nullifiers = block_nullifiers b'\<rparr> \<or>
    (\<exists>b. bl_deserialize Z raw = Some (b, length raw) \<and> block_collision Z b b')"
proof -
  from assms(1) obtain b where b: "bl_deserialize Z raw = Some (b, length raw)" "bl_hash Z (fb_header b) = bl_hash Z (fb_header b')"
    "distinct (block_txids Z b)" "bl_merkle Z (block_txids Z b) = hd_merkle_root (fb_header b)"
    "v = \<lparr>vb_previous_hash = hd_previous (fb_header b), vb_nullifiers = block_nullifiers b\<rparr>"
    by (auto simp: verify_block_Ok_iff)
  show ?thesis
  proof (cases "block_collision Z b b'")
    case True
    with b show ?thesis by blast
  next
    case False
    with b(2) have hd: "fb_header b = fb_header b'" by (simp add: block_collision_def)
    with False b(3,4) assms(2) have "block_txids Z b = block_txids Z b'" by (auto simp: block_collision_def block_wf_def)
    then have "map tx_ironwood (fb_transactions b) = map tx_ironwood (fb_transactions b')"
      unfolding block_txids_def by (rule same_ids_same_nullifiers) (use False in \<open>auto simp: block_collision_def\<close>)
    then have "block_nullifiers b = block_nullifiers b'" by (simp add: block_nullifiers_def)
    with b(5) hd show ?thesis by simp
  qed
qed

section \<open>The walk\<close>

lemma verify_walk_real:
  assumes "verify_walk Z R rpc n height hh acc = Inr nfs" "hash_chain Z chain a height hh" "Suc height = a + n \<or> n = 0"
  shows "nfs = acc @ chain_nullifiers chain (rev [a..<a + n]) \<or>
    (\<exists>i b. a \<le> i \<and> i < a + n \<and> delivered Z R rpc (bl_hash Z (fb_header (chain i))) b \<and> block_collision Z b (chain i))"
  using assms
proof (induction n arbitrary: height hh acc)
  case 0
  then show ?case by (simp add: chain_nullifiers_def)
next
  case (Suc n)
  then have h: "height = a + n" by simp
  from Suc.prems(2) have tip: "hh = bl_hash Z (fb_header (chain height))" and wf: "block_wf Z (chain height)"
    using h by (auto simp: hash_chain_def)
  from Suc.prems(1) obtain raw v where raw: "rpc_fetch Z R rpc hh = Inr raw"
    and v: "verify_block Z raw (bl_hash Z (fb_header (chain height))) height = Inr v"
    and rest: "verify_walk Z R rpc n (height - 1) (vb_previous_hash v) (acc @ vb_nullifiers v) = Inr nfs"
    unfolding tip by (auto simp: result_simps)
  from verify_block_real [OF v wf] consider
      (real) "v = \<lparr>vb_previous_hash = hd_previous (fb_header (chain height)), vb_nullifiers = block_nullifiers (chain height)\<rparr>"
    | (forged) b where "bl_deserialize Z raw = Some (b, length raw)" "block_collision Z b (chain height)"
    by blast
  then show ?case
  proof cases
    case real
    have link: "n \<noteq> 0 \<Longrightarrow> hash_chain Z chain a (height - 1) (vb_previous_hash v)"
      using Suc.prems(2) h real by (auto simp: hash_chain_def gr0_conv_Suc)
    have "nfs = (acc @ vb_nullifiers v) @ chain_nullifiers chain (rev [a..<a + n]) \<or>
        (\<exists>i b. a \<le> i \<and> i < a + n \<and> delivered Z R rpc (bl_hash Z (fb_header (chain i))) b \<and> block_collision Z b (chain i))"
    proof (cases "n = 0")
      case True
      with rest show ?thesis by (simp add: chain_nullifiers_def)
    next
      case False
      with h show ?thesis by (intro Suc.IH [OF rest link]) auto
    qed
    with real h show ?thesis by (auto simp: chain_nullifiers_def less_Suc_eq)
  next
    case forged
    then have "delivered Z R rpc (bl_hash Z (fb_header (chain height))) b"
      using raw by (auto simp: delivered_def tip)
    with forged(2) h show ?thesis by auto
  qed
qed

text \<open>The tree depends on the set of nullifiers only, not on their order or multiplicity.\<close>

lemma build_set_cong: "set xs = set ys \<Longrightarrow> build_pir_tree_from_nullifiers P xs = build_pir_tree_from_nullifiers P ys"
proof -
  assume "set xs = set ys"
  then have "nf_set xs = nf_set ys" "pad_slot_free xs = pad_slot_free ys"
    by (simp_all add: nf_set_def pad_slot_free_def)
  then have "prepare_nullifiers xs = prepare_nullifiers ys"
    by (simp add: prepare_nullifiers_eq nf_list_def padded_set_def)
  then show ?thesis by (simp add: build_pir_tree_from_nullifiers_def)
qed

lemma parse_lines:
  assumes "parse_nullifier_bytes (concat ls) = Inr (nfs :: 'p::len fp list)" "\<forall>l \<in> set ls. length l = 32"
  shows "ls = map to_repr nfs"
proof -
  from assms(2) have "chunks_exact NULLIFIER_SIZE (concat ls) = ls" by (simp add: NULLIFIER_SIZE_def chunks_exact_concat)
  with assms(1) have "list_all2 (\<lambda>l v. from_repr l = Some v) ls nfs"
    by (simp add: parse_nullifier_bytes_def result_simps try_map_Ok_iff)
  then show ?thesis by (induction rule: list_all2_induct) (auto dest: to_from_repr)
qed

lemma chain_nullifiers_wf:
  "hash_chain Z chain a h tip \<Longrightarrow> set hs \<subseteq> {a..h} \<Longrightarrow> \<forall>l \<in> set (chain_nullifiers chain hs). length l = 32"
  by (auto simp: chain_nullifiers_def hash_chain_def block_wf_def)

lemma reorder_fields:
  assumes "map to_repr (xs :: 'p::len fp list) = chain_nullifiers chain (rev hs)"
  obtains ys where "map to_repr ys = chain_nullifiers chain hs" "set ys = set xs"
proof -
  have "set (chain_nullifiers chain hs) = to_repr ` set xs"
    using arg_cong [OF assms, of set] by (auto simp: chain_nullifiers_def)
  then have "chain_nullifiers chain hs = map to_repr (map (the \<circ> from_repr) (chain_nullifiers chain hs) :: 'p fp list)"
    and "set (map (the \<circ> from_repr) (chain_nullifiers chain hs) :: 'p fp list) = set xs"
    by (auto simp: image_image intro!: map_idI [symmetric])
  with that show thesis by metis
qed
lemma verify_report_Ok:
  assumes "verify_report_of P Z R args = Inr report"
  obtains tip expected rpc nfs vs tree where
    "validate_export_height (va_height args) (va_zcash_network args) = Inr ()"
    "bl_hash_from_hex Z (va_trusted_block_hash args) = Some tip"
    "parse_root (rd_hex_decode R) (va_expected_circuit_root args) = Inr expected"
    "rpc_new (rd_url_parse R) (va_block_rpc_url args) (va_cookie_file args) (va_http_timeout_secs args) = Inr rpc"
    "verify_walk Z R rpc (va_height args - nu6_3_activation_height (va_zcash_network args) + 1) (va_height args) tip [] = Inr nfs"
    "parse_nullifier_bytes (concat nfs) = Inr vs" "build_pir_tree_from_nullifiers P vs = Inr tree"
    "vr_matches report \<longleftrightarrow> pt_circuit_root tree = expected"
  using assms that by (auto simp: verify_report_of_def result_simps Let_def)

lemma valid_height_above: "validate_export_height h network = Inr () \<Longrightarrow> nu6_3_activation_height network \<le> h"
  by (simp add: validate_export_height_def result_simps)

section \<open>Properties\<close>

text \<open>
  C5. Soundness of root verification. Whatever the RPC server answers, if the command succeeds
  for a trusted block hash and an expected root, then the expected root is the circuit root of
  the tree over exactly the nullifiers of the chain that ends in the trusted block, from
  activation to the given height, unless the server delivered a block that collides with
  the real one at its height: another header with its hash, another transaction list with
  its Merkle root, or another transaction with one of its identifiers.
\<close>

theorem verify_root_sound:
  fixes P :: "'p::len poseidon_constants"
  assumes "verify_root_run P Z R args = (report, Ok ())"
    and "bl_hash_from_hex Z (va_trusted_block_hash args) = Some tip"
    and "hash_chain Z chain (nu6_3_activation_height (va_zcash_network args)) (va_height args) tip"
  shows "(\<exists>vs tree. map to_repr vs = chain_nullifiers chain [nu6_3_activation_height (va_zcash_network args)..<Suc (va_height args)] \<and>
       build_pir_tree_from_nullifiers P vs = Ok tree \<and>
       parse_root (rd_hex_decode R) (va_expected_circuit_root args) = Ok (pt_circuit_root tree)) \<or>
    (\<exists>rpc i b. i \<le> va_height args \<and> delivered Z R rpc (bl_hash Z (fb_header (chain i))) b \<and> block_collision Z b (chain i))"
proof -
  let ?a = "nu6_3_activation_height (va_zcash_network args)" and ?h = "va_height args"
  from assms(1) obtain rep where "verify_report_of P Z R args = Inr rep" "vr_matches rep"
    by (auto simp: verify_root_run_def ensure_def split: sum.splits if_splits)
  with assms(2) obtain expected rpc nfs vs tree where v: "validate_export_height ?h (va_zcash_network args) = Inr ()"
    and root: "parse_root (rd_hex_decode R) (va_expected_circuit_root args) = Inr expected"
    and walk: "verify_walk Z R rpc (?h - ?a + 1) ?h tip [] = Inr nfs"
    and vs: "parse_nullifier_bytes (concat nfs) = Inr vs" and tree: "build_pir_tree_from_nullifiers P vs = Inr tree"
    and eq: "pt_circuit_root tree = expected"
    by (auto elim!: verify_report_Ok)
  from valid_height_above [OF v] have n: "Suc ?h = ?a + (?h - ?a + 1)" by simp
  then have "Suc ?h = ?a + (?h - ?a + 1) \<or> ?h - ?a + 1 = 0" by simp
  from verify_walk_real [OF walk assms(3) this, folded n] consider
      (real) "nfs = chain_nullifiers chain (rev [?a..<Suc ?h])"
    | (forged) i b where "i \<le> ?h" "delivered Z R rpc (bl_hash Z (fb_header (chain i))) b" "block_collision Z b (chain i)"
    by (auto simp: less_Suc_eq_le simp del: upt_Suc)
  then show ?thesis
  proof cases
    case real
    have "\<forall>l \<in> set nfs. length l = 32"
      unfolding real by (rule chain_nullifiers_wf [OF assms(3)]) auto
    from parse_lines [OF vs this] real have "map to_repr vs = chain_nullifiers chain (rev [?a..<Suc ?h])" by simp
    then obtain ys where "map to_repr ys = chain_nullifiers chain [?a..<Suc ?h]" "set ys = set vs" by (rule reorder_fields)
    with tree root eq build_set_cong [of ys vs P] show ?thesis by auto
  qed blast
qed
text \<open>
  The retry loop. A fetch returns what the first of three attempts that is not a
  transient failure returns, its block or its error, and an error after three transient
  failures; it never reaches the end of its loop.
\<close>

theorem rpc_fetch_first_settled:
  "rpc_fetch Z R rpc hh =
     (case List.find (\<lambda>k. fetch_once Z R rpc k hh \<noteq> Inl Transient) [0, 1, 2] of
        None \<Rightarrow> Bail ''block RPC transport failed''
      | Some k \<Rightarrow> (case fetch_once Z R rpc k hh of
                     Inr raw \<Rightarrow> Ok raw
                   | Inl (Invalid e) \<Rightarrow> Inl e
                   | Inl Transient \<Rightarrow> Err (Panic ''unreachable'')))"
  by (auto simp: rpc_fetch_def ATTEMPTS_def eval_nat_numeral split: sum.split FetchError.split)

lemma read_body_Inr_iff:
  "length bs \<le> limit \<Longrightarrow>
     read_body limit chunks broken bs = Inr body \<longleftrightarrow> \<not> broken \<and> body = bs @ concat chunks \<and> length body \<le> limit"
  by (induction chunks arbitrary: bs) auto

lemma fetch_once_Inr:
  assumes "fetch_once Z R rpc k hh = Inr raw"
  obtains resp where "rd_send R k (rpc_credentials rpc) (bl_hash_to_string Z hh) = Some resp" "\<not> sr_broken resp"
    "length (concat (sr_chunks resp)) \<le> MAX_RESPONSE_BYTES Z" "decode_response Z R (concat (sr_chunks resp)) = Inr raw"
  using assms that
  by (auto simp: fetch_once_def read_body_Inr_iff simp del: length_concat split: option.splits if_splits sum.splits)

text \<open>
  Bounds. The raw block a fetch returns was decoded from a complete response of at most
  twice the block limit plus 64 KiB, received in one of at most three attempts, from a hex
  string of at most twice the block limit, so a server cannot make the client hold more.
\<close>

theorem rpc_fetch_bounded:
  assumes "rpc_fetch Z R rpc hh = Ok raw"
  shows "\<exists>k resp encoded. k < 3 \<and> rd_send R k (rpc_credentials rpc) (bl_hash_to_string Z hh) = Some resp \<and>
    length (concat (sr_chunks resp)) \<le> 2 * bl_max_bytes Z + 65536 \<and>
    rd_hex_decode R encoded = Some raw \<and> length encoded \<le> 2 * bl_max_bytes Z"
proof -
  have "\<exists>k<3. fetch_once Z R rpc k hh = Inr raw"
  proof -
    from assms have "fetch_once Z R rpc 0 hh = Inr raw \<or> fetch_once Z R rpc 1 hh = Inr raw \<or> fetch_once Z R rpc 2 hh = Inr raw"
      by (auto simp: rpc_fetch_def ATTEMPTS_def eval_nat_numeral split: sum.splits FetchError.splits)
    moreover have "(0::nat) < 3" "(1::nat) < 3" "(2::nat) < 3" by simp_all
    ultimately show ?thesis by blast
  qed
  then obtain k where k: "k < 3" "fetch_once Z R rpc k hh = Inr raw" by blast
  from k(2) obtain resp where r: "rd_send R k (rpc_credentials rpc) (bl_hash_to_string Z hh) = Some resp"
    "length (concat (sr_chunks resp)) \<le> MAX_RESPONSE_BYTES Z" "decode_response Z R (concat (sr_chunks resp)) = Inr raw"
    by (rule fetch_once_Inr)
  from r(3) obtain encoded where "rd_hex_decode R encoded = Some raw" "length encoded \<le> 2 * bl_max_bytes Z"
    by (auto simp: decode_response_def result_simps mult.commute)
  with k(1) r(1,2) show ?thesis by (auto simp: MAX_RESPONSE_BYTES_def mult.commute simp del: length_concat)
qed
text \<open>An RPC server of the chain: every block from \<open>a\<close> to \<open>h\<close> is delivered and carries its height.\<close>

definition serves_blocks :: "block_lib \<Rightarrow> rpc_deps \<Rightarrow> RawBlockRpc \<Rightarrow> (nat \<Rightarrow> full_block) \<Rightarrow> nat \<Rightarrow> nat \<Rightarrow> bool" where
  "serves_blocks Z R rpc chain a h \<longleftrightarrow>
     (\<forall>i. a \<le> i \<and> i \<le> h \<longrightarrow>
        (\<exists>raw. rpc_fetch Z R rpc (bl_hash Z (fb_header (chain i))) = Ok raw \<and> length raw \<le> bl_max_bytes Z \<and>
               bl_deserialize Z raw = Some (chain i, length raw) \<and> bl_coinbase_height Z (chain i) = Some i \<and>
               fb_transactions (chain i) \<noteq> []))"

lemma verify_walk_honest:
  assumes "serves_blocks Z R rpc chain a (a + n - 1)" "hash_chain Z chain a (a + n - 1) hh" "height = a + n - 1"
    and "length (acc @ chain_nullifiers chain (rev [a..<a + n])) \<le> 2 * 2 ^ PIR_DEPTH"
  shows "verify_walk Z R rpc n height hh acc = Ok (acc @ chain_nullifiers chain (rev [a..<a + n]))"
  using assms
proof (induction n arbitrary: height hh acc)
  case 0
  then show ?case by (simp add: chain_nullifiers_def)
next
  case (Suc n)
  have h: "height = a + n" using Suc.prems(3) by simp
  have hh: "hh = bl_hash Z (fb_header (chain height))" and wf: "block_wf Z (chain height)"
    using Suc.prems(2) h by (auto simp: hash_chain_def)
  have "a \<le> height \<and> height \<le> a + Suc n - 1" using h by simp
  with Suc.prems(1) obtain raw where raw: "rpc_fetch Z R rpc hh = Ok raw" "length raw \<le> bl_max_bytes Z"
    "bl_deserialize Z raw = Some (chain height, length raw)" "bl_coinbase_height Z (chain height) = Some height"
    "fb_transactions (chain height) \<noteq> []"
    unfolding serves_blocks_def hh by blast
  let ?v = "\<lparr>vb_previous_hash = hd_previous (fb_header (chain height)), vb_nullifiers = block_nullifiers (chain height)\<rparr>"
  have v: "verify_block Z raw hh height = Ok ?v"
    using raw wf hh by (auto simp: verify_block_Ok_iff block_wf_def)
  have nfs: "acc @ chain_nullifiers chain (rev [a..<a + Suc n]) =
      (acc @ block_nullifiers (chain height)) @ chain_nullifiers chain (rev [a..<a + n])"
    by (simp add: chain_nullifiers_def h)
  have "verify_walk Z R rpc n (height - 1) (vb_previous_hash ?v) (acc @ block_nullifiers (chain height)) =
      Ok ((acc @ block_nullifiers (chain height)) @ chain_nullifiers chain (rev [a..<a + n]))"
  proof (cases "n = 0")
    case True
    then show ?thesis by (simp add: chain_nullifiers_def)
  next
    case False
    then obtain m where m: "n = Suc m" using not0_implies_Suc by blast
    show ?thesis
    proof (rule Suc.IH)
      show "serves_blocks Z R rpc chain a (a + n - 1)" using Suc.prems(1) by (auto simp: serves_blocks_def)
      show "hash_chain Z chain a (a + n - 1) (vb_previous_hash ?v)"
        using Suc.prems(2) h m by (auto simp: hash_chain_def)
      show "height - 1 = a + n - 1" using h by simp
      show "length ((acc @ block_nullifiers (chain height)) @ chain_nullifiers chain (rev [a..<a + n])) \<le> 2 * 2 ^ PIR_DEPTH"
        using Suc.prems(4) unfolding nfs .
    qed
  qed
  moreover have "length (acc @ vb_nullifiers ?v) \<le> 2 * 2 ^ PIR_DEPTH"
    using Suc.prems(4) unfolding nfs by simp
  ultimately show ?case using raw(1) v unfolding nfs by simp
qed

lemma verify_root_honest:
  fixes P :: "'p::len poseidon_constants" and vs :: "'p fp list"
  assumes "validate_export_height (va_height args) (va_zcash_network args) = Ok ()"
    and "bl_hash_from_hex Z (va_trusted_block_hash args) = Some tip"
    and "parse_root (rd_hex_decode R) (va_expected_circuit_root args) = Ok expected"
    and "rpc_new (rd_url_parse R) (va_block_rpc_url args) (va_cookie_file args) (va_http_timeout_secs args) = Ok rpc"
    and "hash_chain Z chain (nu6_3_activation_height (va_zcash_network args)) (va_height args) tip"
    and "serves_blocks Z R rpc chain (nu6_3_activation_height (va_zcash_network args)) (va_height args)"
    and "map to_repr vs = chain_nullifiers chain [nu6_3_activation_height (va_zcash_network args)..<Suc (va_height args)]"
    and "length vs \<le> 2 * 2 ^ PIR_DEPTH" "build_pir_tree_from_nullifiers P vs = Ok tree"
  shows "verify_root_run P Z R args =
    (Some \<lparr>vr_expected_root = expected, vr_computed_circuit_root = pt_circuit_root tree, vr_computed_pir_root = pt_pir_root tree,
           vr_verified_blocks = va_height args - nu6_3_activation_height (va_zcash_network args) + 1,
           vr_ironwood_actions = length vs, vr_matches = (pt_circuit_root tree = expected)\<rparr>,
     if pt_circuit_root tree = expected then Ok ()
     else Bail ''proposed circuit root does not match the authenticated Ironwood dataset'')"
proof -
  let ?a = "nu6_3_activation_height (va_zcash_network args)" and ?h = "va_height args"
  let ?n = "?h - ?a + 1"
  from valid_height_above [OF assms(1)] have n: "?a + ?n = Suc ?h" "?a + ?n - 1 = ?h" by simp_all
  let ?nfs = "chain_nullifiers chain (rev [?a..<Suc ?h])"
  have "map to_repr vs = chain_nullifiers chain (rev (rev [?a..<Suc ?h]))" using assms(7) by simp
  then obtain ys where ys: "map to_repr ys = ?nfs" "set ys = set vs" by (rule reorder_fields)
  have "length (concat xs) = length (concat (rev xs))" for xs :: "bytes list list"
    by (simp add: length_concat rev_map [symmetric] sum_list_rev)
  from this [of "map (block_nullifiers \<circ> chain) [?a..<Suc ?h]"] have "length ?nfs = length (map (to_repr :: 'p fp \<Rightarrow> bytes) vs)"
    unfolding assms(7) by (simp add: chain_nullifiers_def rev_map del: upt_Suc length_concat)
  then have len: "length ?nfs = length vs" by simp
  have "verify_walk Z R rpc ?n ?h tip [] = Ok ([] @ chain_nullifiers chain (rev [?a..<?a + ?n]))"
    by (rule verify_walk_honest) (use assms(5,6,8) n len in \<open>simp_all del: upt_Suc\<close>)
  then have walk: "verify_walk Z R rpc ?n ?h tip [] = Ok ?nfs" unfolding n by simp
  have parse: "parse_nullifier_bytes (concat ?nfs) = Ok ys" unfolding ys(1) [symmetric] by (rule parse_nullifier_bytes_concat)
  have build: "build_pir_tree_from_nullifiers P ys = Ok tree" using assms(9) build_set_cong [OF ys(2)] by simp
  show ?thesis
    unfolding verify_root_run_def verify_report_of_def
    using assms(1-4) walk parse build len by (simp add: ensure_def del: upt_Suc)
qed
text \<open>
  C18. Completeness of root verification. Against a server that delivers the blocks of the
  chain, with at most \<open>2\<^sup>20\<close> nullifiers of which a tree can be built, the command prints a report
  over all blocks from activation to the height, and succeeds exactly when the expected root
  is the root of that tree.
\<close>

theorem verify_root_complete:
  fixes P :: "'p::len poseidon_constants" and vs :: "'p fp list"
  assumes "validate_export_height (va_height args) (va_zcash_network args) = Ok ()"
    and "bl_hash_from_hex Z (va_trusted_block_hash args) = Some tip"
    and "parse_root (rd_hex_decode R) (va_expected_circuit_root args) = Ok expected"
    and "rpc_new (rd_url_parse R) (va_block_rpc_url args) (va_cookie_file args) (va_http_timeout_secs args) = Ok rpc"
    and "hash_chain Z chain (nu6_3_activation_height (va_zcash_network args)) (va_height args) tip"
    and "serves_blocks Z R rpc chain (nu6_3_activation_height (va_zcash_network args)) (va_height args)"
    and "map to_repr vs = chain_nullifiers chain [nu6_3_activation_height (va_zcash_network args)..<Suc (va_height args)]"
    and "length vs \<le> 2 * 2 ^ PIR_DEPTH" "build_pir_tree_from_nullifiers P vs = Ok tree"
  shows "verify_root_run P Z R args =
    (Some \<lparr>vr_expected_root = expected, vr_computed_circuit_root = pt_circuit_root tree, vr_computed_pir_root = pt_pir_root tree,
           vr_verified_blocks = va_height args - nu6_3_activation_height (va_zcash_network args) + 1,
           vr_ironwood_actions = length vs, vr_matches = (pt_circuit_root tree = expected)\<rparr>,
     if pt_circuit_root tree = expected then Ok ()
     else Bail ''proposed circuit root does not match the authenticated Ironwood dataset'')"
  by (rule verify_root_honest [OF assms])

section \<open>A sample chain\<close>

text \<open>
  Blocks whose bytes are their height: the header repeats it and the previous one, and the
  one transaction carries the sample nullifiers.
\<close>

definition num_block :: "nat \<Rightarrow> full_block" where
  "num_block i =
     \<lparr>fb_header = \<lparr>hd_previous = le_bytes 8 (i - 1), hd_merkle_root = [7], hd_rest = le_bytes 8 i\<rparr>,
      fb_transactions = [\<lparr>tx_raw = [7], tx_ironwood = if i = 3428143 then map to_repr sample_nfs else []\<rparr>]\<rparr>"

definition num_lib :: block_lib where
  "num_lib =
     \<lparr>bl_deserialize = (\<lambda>raw. Some (num_block (le_val raw), length raw)), bl_hash = hd_rest, bl_txid = tx_raw, bl_merkle = concat,
      bl_coinbase_height = (\<lambda>b. Some (le_val (hd_rest (fb_header b)))), bl_max_bytes = 2000000,
      bl_hash_from_hex = (\<lambda>_. Some (le_bytes 8 3428150)), bl_hash_to_string = hex_of sample_codec\<rparr>"

definition num_rpc :: rpc_deps where
  "num_rpc =
     \<lparr>rd_send = (\<lambda>_ _ s. Some \<lparr>sr_status = 200, sr_content_length = None, sr_chunks = [the (hex_to sample_codec s)], sr_broken = False\<rparr>),
      rd_from_json = (\<lambda>body. Some \<lparr>rr_id = JU64 1, rr_result = Some (hex_of sample_codec body), rr_error = None\<rparr>),
      rd_hex_decode = hex_to sample_codec,
      rd_url_parse = (\<lambda>_. Some \<lparr>url_scheme = ''http'', url_host = Some ''node'', url_username = [], url_password = None, url_fragment = None\<rparr>)\<rparr>"

definition num_args :: verify_args where
  "num_args =
     \<lparr>va_zcash_network = Main, va_height = 3428150, va_trusted_block_hash = ''00'',
      va_expected_circuit_root = hex_of sample_codec (to_repr (pt_circuit_root sample_tree)), va_block_rpc_url = ''http://node'',
      va_cookie_file = None, va_http_timeout_secs = 30\<rparr>"

lemma length_sample_hex: "length (hex_of sample_codec bs) = length bs"
  by (simp add: sample_codec_def sample_hex_def)

lemma num_fetch: "rpc_fetch num_lib num_rpc \<lparr>rpc_credentials = None\<rparr> (le_bytes 8 i) = Ok (le_bytes 8 i)"
proof -
  have dec: "decode_response num_lib num_rpc (le_bytes 8 i) = Ok (le_bytes 8 i)"
    by (simp add: decode_response_def num_rpc_def num_lib_def sample_hex_round_trip length_sample_hex MAX_RESPONSE_BYTES_def)
  have once: "fetch_once num_lib num_rpc \<lparr>rpc_credentials = None\<rparr> 0 (le_bytes 8 i) = Inr (le_bytes 8 i)"
    using dec unfolding fetch_once_def
    by (simp add: num_rpc_def num_lib_def sample_hex_round_trip MAX_RESPONSE_BYTES_def)
  have attempts: "ATTEMPTS = Suc 2" by (simp add: ATTEMPTS_def)
  show ?thesis unfolding rpc_fetch_def attempts fetch_loop.simps once by simp
qed

lemma num_block_fields:
  "fb_header (num_block i) = \<lparr>hd_previous = le_bytes 8 (i - 1), hd_merkle_root = [7], hd_rest = le_bytes 8 i\<rparr>"
  "block_nullifiers (num_block i) = (if i = 3428143 then map to_repr sample_nfs else [])"
  "fb_transactions (num_block i) \<noteq> []" "block_txids num_lib (num_block i) = [[7]]"
  by (simp_all add: num_block_def block_nullifiers_def block_txids_def num_lib_def)

lemma num_chain: "hash_chain num_lib num_block 3428143 3428150 (le_bytes 8 3428150)"
proof -
  have "block_wf num_lib (num_block i)" for i
    by (auto simp: block_wf_def num_block_fields) (simp add: num_lib_def)
  moreover have "bl_hash num_lib (fb_header (num_block i)) = le_bytes 8 i" "hd_previous (fb_header (num_block (Suc i))) = le_bytes 8 i" for i
    by (simp_all add: num_lib_def num_block_fields)
  ultimately show ?thesis unfolding hash_chain_def by simp
qed

lemma num_serves: "serves_blocks num_lib num_rpc \<lparr>rpc_credentials = None\<rparr> num_block 3428143 3428150"
proof -
  have val: "le_val (le_bytes 8 i) = i" if "i \<le> 3428150" for i using that by simp
  have hh: "bl_hash num_lib (fb_header (num_block i)) = le_bytes 8 i" for i by (simp add: num_lib_def num_block_fields)
  show ?thesis
    unfolding serves_blocks_def hh num_fetch
    by (auto simp: num_block_fields simp del: le_val_le_bytes) (auto simp: num_lib_def num_block_fields val simp del: le_val_le_bytes)
qed

lemma num_nullifiers: "chain_nullifiers num_block [3428143..<Suc 3428150] = map to_repr sample_nfs"
proof -
  have "[3428143..<Suc 3428150] = [3428143, 3428144, 3428145, 3428146, 3428147, 3428148, 3428149, 3428150]"
    by (simp add: upt_rec)
  then show ?thesis by (simp add: chain_nullifiers_def num_block_fields)
qed

lemma num_params:
  "validate_export_height (va_height num_args) (va_zcash_network num_args) = Ok ()"
  "bl_hash_from_hex num_lib (va_trusted_block_hash num_args) = Some (le_bytes 8 3428150)"
  "parse_root (rd_hex_decode num_rpc) (va_expected_circuit_root num_args) = Ok (pt_circuit_root sample_tree)"
  "rpc_new (rd_url_parse num_rpc) (va_block_rpc_url num_args) (va_cookie_file num_args) (va_http_timeout_secs num_args) =
     Ok \<lparr>rpc_credentials = None\<rparr>"
  "nu6_3_activation_height (va_zcash_network num_args) = 3428143" "va_height num_args = 3428150"
  by (simp_all add: num_args_def num_lib_def num_rpc_def validate_export_height_def NU6_3_MAINNET_ACTIVATION_HEIGHT_def
      parse_root_def sample_hex_round_trip rpc_new_def)

lemma num_capacity: "length sample_nfs \<le> 2 * 2 ^ PIR_DEPTH"
  by (simp add: sample_nfs_def PIR_DEPTH_def)

theorem verify_root_complete_witness:
  "snd (verify_root_run sample_constants num_lib num_rpc num_args) = Ok ()"
  using verify_root_complete [OF num_params(1-4), of num_block sample_nfs sample_constants sample_tree] num_chain num_serves
    num_nullifiers num_capacity sample_build
  unfolding num_params(5,6) by simp

lemma num_run: "\<exists>report. verify_root_run sample_constants num_lib num_rpc num_args = (report, Ok ())"
  using verify_root_honest [OF num_params(1-4), of num_block sample_nfs sample_constants sample_tree] num_chain num_serves
    num_nullifiers num_capacity sample_build
  unfolding num_params(5,6) by simp

theorem verify_root_sound_witness:
  "(\<exists>vs tree. map to_repr vs = map to_repr sample_nfs \<and> build_pir_tree_from_nullifiers sample_constants vs = Ok tree \<and>
      parse_root (rd_hex_decode num_rpc) (va_expected_circuit_root num_args) = Ok (pt_circuit_root tree)) \<or>
   (\<exists>rpc i b. i \<le> 3428150 \<and> delivered num_lib num_rpc rpc (bl_hash num_lib (fb_header (num_block i))) b \<and>
      block_collision num_lib b (num_block i))"
proof -
  obtain report where run: "verify_root_run sample_constants num_lib num_rpc num_args = (report, Ok ())" using num_run by blast
  show ?thesis
    using verify_root_sound [OF run num_params(2), of num_block] num_chain unfolding num_params(5,6) num_nullifiers by simp
qed

theorem rpc_fetch_bounded_witness:
  "\<exists>k resp encoded. k < 3 \<and> rd_send num_rpc k None (bl_hash_to_string num_lib (le_bytes 8 5)) = Some resp \<and>
    length (concat (sr_chunks resp)) \<le> 2 * bl_max_bytes num_lib + 65536 \<and>
    rd_hex_decode num_rpc encoded = Some (le_bytes 8 5) \<and> length encoded \<le> 2 * bl_max_bytes num_lib"
  using rpc_fetch_bounded [OF num_fetch [of 5]] by simp

end
