(* ===== verification/Spec2Isabelle.thy ===== *)
theory Spec2Isabelle
  imports Doctor Agent Standalone Probe_Theorems Load Apm_Scrape Request_Metrics Rebuild Built_Tree Snapshot_Theorems Store_Theorems Sync_Theorems Watchdog Bootstrap_Theorems Update_Theorems Verify_Theorems
begin

text \<open>
  A private non-membership service for spent nullifiers. The exporter turns the nullifiers of a
  chain into an indexed Merkle tree and a two-tier snapshot; a server answers encrypted
  (YPIR) row queries over it; a client assembles and checks a proof that a value is not in the
  set, without telling the server which value it asked about. Around this core are the
  ingestion of nullifiers from lightwalletd, the publication and start-up download of
  snapshots, signed host updates, the verification of a root against the chain, a standalone
  server, an endpoint probe, a load test, and a monitoring agent with a dashboard.

  \<^bold>\<open>Theories and sources.\<close> Each theory opens with what it holds; in the order of the program:

  \<^item> \<open>Prelude\<close>, \<open>Ascii\<close>, \<open>Codec\<close>, \<open>Search\<close>, \<open>Merkle\<close>, \<open>Fs\<close>: results and panics as values, \<open>usize\<close>
    arithmetic, strings, and the interfaces as locales: \<open>fixed_codec\<close> (fixed-width encodings),
    \<open>keyed_records\<close> (binary search over sorted records), \<open>empty_table\<close> (hashes of empty subtrees),
    \<open>step_invariant\<close> (step relations with an invariant); directories whose writes can be torn by a crash.
  \<^item> \<open>Field\<close>, \<open>Hasher\<close>, \<open>Imt_Tree\<close>, \<open>Imt_Proof\<close>: \<^verbatim>\<open>imt-tree/src\<close>.
  \<^item> \<open>Pir_Types\<close>, \<open>Fp_Utils\<close>, \<open>Tier0\<close>, \<open>Tier1\<close>: \<^verbatim>\<open>pir/types/src\<close>.
  \<^item> \<open>Pir_Export\<close>, \<open>Export_Ranges\<close>, \<open>Export_Tiers\<close>, \<open>Snapshot_Fs\<close>, \<open>Tree_Checkpoint\<close>: \<^verbatim>\<open>pir/export/src\<close>.
  \<^item> \<open>Pir_Client\<close>, \<open>Client_Proofs\<close>: \<^verbatim>\<open>pir/client/src\<close>.
  \<^item> \<open>Pir_Server\<close>, \<open>Precompute_Cache\<close>: \<^verbatim>\<open>pir/server/src\<close>; \<open>Timing\<close>: the stage timings of server and client and the headers
    between them.
  \<^item> \<open>File_Store\<close>, \<open>Store_Recovery\<close>, \<open>Sync\<close>, \<open>Sync_Correct\<close>: \<^verbatim>\<open>nf-ingest/src\<close>.
  \<^item> \<open>Serve\<close>, \<open>Watchdog\<close>, \<open>Request_Metrics\<close>, \<open>Registry\<close>, \<open>Status\<close>, \<open>Rebuild\<close>: \<^verbatim>\<open>nf-server/src/serve\<close>, \<^verbatim>\<open>cmd_serve.rs\<close>, \<^verbatim>\<open>metrics.rs\<close>,
    \<^verbatim>\<open>update_status.rs\<close>, \<^verbatim>\<open>build_info.rs\<close>; \<open>Standalone\<close>: the routers of both servers and \<^verbatim>\<open>pir/server/src/main.rs\<close>, with
    the locale \<open>lockstep\<close> for two servers that answer alike.
  \<^item> \<open>Cmd_Sync\<close>, \<open>Snapshot_Source\<close>, \<open>Bootstrap\<close>, \<open>Pir_Update\<close>, \<open>Verify_Root\<close>: the commands and modules of
    \<^verbatim>\<open>nf-server/src\<close> of those names, with \<^verbatim>\<open>pir_config.rs\<close>, \<^verbatim>\<open>voting_config.rs\<close>, \<^verbatim>\<open>root_verifier.rs\<close> and \<^verbatim>\<open>raw_block_rpc.rs\<close>;
    \<open>Doctor\<close>: \<^verbatim>\<open>cmd_doctor.rs\<close>.
  \<^item> \<open>Float64\<close>, \<open>Apm_Metrics\<close>, \<open>Apm_Parse\<close>, \<open>Alerts\<close>, \<open>Apm_Scrape\<close>, \<open>Dashboard\<close>, \<open>Agent\<close>: binary64 arithmetic and
    \<^verbatim>\<open>deploy/pir-apm/src\<close>; \<open>Format\<close>: the decimal formatting of numbers.
  \<^item> \<open>Probe\<close>, \<open>Probe_Theorems\<close>: \<^verbatim>\<open>deploy/pir-probe/src/main.rs\<close>; \<open>Load\<close>: \<^verbatim>\<open>pir/test/src/load.rs\<close>.
  \<^item> \<open>End_To_End\<close>, \<open>Built_Tree\<close>, \<open>Examples\<close>, \<open>Store_Theorems\<close>, \<open>Snapshot_Theorems\<close>, \<open>Sync_Theorems\<close>, \<open>Bootstrap_Theorems\<close>,
    \<open>Update_Theorems\<close>, \<open>Verify_Theorems\<close> and this theory: properties, the compositions they rest on, and
    the concrete data they are instantiated with.

  \<^bold>\<open>How state and operations correspond.\<close> A function of the source is a function here with its
  name, prefixed where it would clash. A Rust \<open>Result\<close> is an \<open>error\<close> or a value, and a panic is an error
  of its own, so a theorem that a call returns also shows that it does not panic. A data
  directory is a map from file names to bytes; a writer is a list of file operations, and a crash
  keeps a prefix of them, the next one cut at any byte. The server (\<open>boot_step\<close>, \<open>serve_step\<close>, \<open>rebuild_step\<close>) and the
  request middleware (\<open>track_step\<close>) are step relations, because requests interleave with them; so is
  a phase of the load test (\<open>load_step\<close>), with its workers or tasks. What the agent does outside its memory, posts and lines on the
  standard error, is a list of events.

  \<^bold>\<open>What is shown.\<close> Building and proving: the preparation of ranges covers the field with the
  nullifiers as punctures, the levels are those of the reference tree, and the tiers read
  back. Retrieval: against an exported snapshot a client gets, for every value outside the
  padded set, a proof the verifier accepts, is refused for every member, sends the same one
  query in either case, and does not panic on any server. Persistence: the store refines an
  abstract store under crashes, sync ends with exactly the nullifiers of the chain, caches
  and checkpoints round-trip. Operation: the sync command, the start-up download and its
  recovery, signed updates and staging, root verification against an untrusted RPC server, the
  server's readiness, rebuild and metrics, the watchdog and the alert engine, the last two
  against specifications over their whole history, and the agent's counters and error-rate
  alert, which are exact in spite of rounding. What the middleware counts is what the agent
  reads (\<open>metrics_reach_agent\<close>), what the agent posts is what its dashboard shows (\<open>messages_match_dashboard\<close>), and nothing a
  server sends can add markup to that page (\<open>dashboard_no_injection\<close>). The probe reports one of four fixed
  errors or a verified proof whatever the server sends, the load test counts every request it
  starts, timings survive the headers, and the standalone server answers as \<^verbatim>\<open>nf-server\<close> does on the routes they share, but for
  cross-origin headers and \<open>OPTIONS\<close>.
  \<open>published_snapshot_served\<close> composes download, start-up, watchdog, client and verifier.

  \<^bold>\<open>Parameters.\<close> Code outside the repository is an argument: the Poseidon constants, YPIR, BLAKE3,
  SHA-256, Ed25519, base64, hexadecimal and JSON codecs, bincode, HTTP, lightwalletd, the block,
  date and histogram libraries, the Prometheus library with its \<^verbatim>\<open>gather\<close> and text encoder, and, of the HTTP framework, the path
  extractor and the layer for cross-origin requests. A property names what it needs of them, such as \<open>codecs_agree\<close> and \<open>ypir_correct\<close>, and its
  instance shows functions that have it. The field size is a type parameter; \<open>Examples\<close> fixes Pallas.

  \<^bold>\<open>Loops.\<close> Loops over data are structural, and no loop has fuel. \<open>sync_loop\<close> is total because every cycle advances
  the height, \<open>sync_run_loop\<close> because a wipe removes the checkpoint that could start it over; both have termination proofs, and
  \<open>sync_loops_end\<close> bounds their cycles. \<open>fetch_loop\<close> counts the three attempts of the source.

  \<^bold>\<open>Not modelled.\<close> Operating-system errors other than crashes; asynchronous scheduling below the
  steps of the relations; timers and the TCP listeners; argument parsing by \<^verbatim>\<open>clap\<close> and the
  dispatch to commands (\<^verbatim>\<open>nf-server/src/main.rs\<close>, \<^verbatim>\<open>pir/export/src/main.rs\<close>); the generated gRPC client; the
  benchmark commands of \<^verbatim>\<open>pir/test/src\<close> other than the load test, which time and print calls of the modelled libraries. These
  are I/O, set-up of libraries, or generated.
\<close>

section \<open>From nullifiers to verified non-membership proofs\<close>

text \<open>
  C2. End-to-end completeness. Whenever a tree is built from a list of nullifiers and
  exported with a supported layout of depth 19, the in-process retrieval of any value that is
  not in the padded nullifier set returns a well-formed proof against the tree's circuit
  root, and the out-of-circuit verifier accepts it for that value.
\<close>

theorem retrieval_complete:
  assumes "build_pir_tree_from_nullifiers P nfs = Inr tree"
    and "validate_supported L = Inr ()" and "pir_depth L = PIR_DEPTH"
    and "export_for_layout tree L = Inr (t0, t1)"
    and "v \<notin> padded_set nfs"
  shows "\<exists>pr. fetch_proof_local_layout P t0 t1 L (length (pt_ranges tree)) v
                (pt_empty_hashes tree) (pt_circuit_root tree) = Inr pr \<and>
              proof_wf pr \<and> root pr = pt_circuit_root tree \<and> verify P pr v"
  by (rule retrieval_of_built [OF assms])

theorem retrieval_complete_witness:
  "\<exists>pr. fetch_proof_local_layout sample_constants (tier0_of sample_constants sample_ranges COMPILED_PIR_LAYOUT)
          (tier1_of sample_ranges COMPILED_PIR_LAYOUT) COMPILED_PIR_LAYOUT (length (pt_ranges sample_tree)) 7
          (pt_empty_hashes sample_tree) (pt_circuit_root sample_tree) = Inr pr \<and>
        proof_wf pr \<and> root pr = pt_circuit_root sample_tree \<and> verify sample_constants pr 7"
  by (rule retrieval_complete [OF sample_build compiled_layout_supported compiled_depth sample_export sample_seven_free])

text \<open>
  C6. A value of the padded nullifier set is never given a proof: the retrieval returns the
  error of the leaf scan (no panic), for every supported layout of depth 19.
\<close>

theorem retrieval_member_refused:
  assumes "build_pir_tree_from_nullifiers P nfs = Inr tree"
    and "validate_supported L = Inr ()" and "pir_depth L = PIR_DEPTH"
    and "export_for_layout tree L = Inr (t0, t1)"
    and "v \<in> padded_set nfs"
  shows "fetch_proof_local_layout P t0 t1 L (length (pt_ranges tree)) v
           (pt_empty_hashes tree) (pt_circuit_root tree) = Bail ''nullifier not found in Tier 1 leaf scan''"
proof -
  note ok = built_snapshot(1) [OF assms(1-3)]
  have t: "t0 = tier0_of P (pt_ranges tree) L" "t1 = tier1_of (pt_ranges tree) L"
    using assms(4) built_snapshot(2) [OF assms(1-3)] by simp_all
  have "\<forall>i < length (pt_ranges tree). \<not> covers (pt_ranges tree ! i) v"
    using built_covered [OF assms(1)] assms(5) by blast
  then obtain s p1 where "process_tier0 (tier0_view P (pt_ranges tree) L) L v (replicate TREE_DEPTH 0) = Ok (s, p1)"
    "s < 2 ^ tier0_layers L"
    "process_tier1_and_build P (snapshot_input P (pt_ranges tree) L s v) p1 =
       Bail ''nullifier not found in Tier 1 leaf scan''"
    using retrieval_uncovered [OF ok] by blast
  then show ?thesis
    using local_as_stages [OF ok] by (simp add: t built_tree_fields [OF assms(1)])
qed

theorem retrieval_member_refused_witness:
  "fetch_proof_local_layout sample_constants (tier0_of sample_constants sample_ranges COMPILED_PIR_LAYOUT)
     (tier1_of sample_ranges COMPILED_PIR_LAYOUT) COMPILED_PIR_LAYOUT (length (pt_ranges sample_tree)) 5
     (pt_empty_hashes sample_tree) (pt_circuit_root sample_tree) = Bail ''nullifier not found in Tier 1 leaf scan''"
  by (rule retrieval_member_refused [OF sample_build compiled_layout_supported compiled_depth sample_export sample_five_taken])

text \<open>
  C3. Soundness of the verifier. A well-formed proof accepted for \<open>v\<close> against the circuit
  root of a built tree shows that \<open>v\<close> is not in the nullifier set (nor a sentinel), unless
  the proof itself contains a collision of the Poseidon hash at a named place.
\<close>

theorem verified_not_in_set:
  assumes "build_pir_tree_from_nullifiers P nfs = Inr tree"
    and "proof_wf pr" and "root pr = pt_circuit_root tree" and "verify P pr v"
  shows "v \<notin> padded_set nfs \<and> v \<notin> set nfs \<or> exhibits_collision P (pt_ranges tree) pr"
proof (intro disjCI)
  assume "\<not> exhibits_collision P (pt_ranges tree) pr"
  then have "v \<notin> set (nf_list nfs)"
    using verify_sound [of pr P v "nf_list nfs"] assms(2,4) built_tree_fields [OF assms(1)] assms(3)
      odd_length_nf_list [OF built_tree(1) [OF assms(1)]] by simp
  moreover have "set nfs \<subseteq> padded_set nfs"
    using nf_set_subset_padded [of nfs] by (auto simp: nf_set_def)
  ultimately show "v \<notin> padded_set nfs \<and> v \<notin> set nfs" by auto
qed

text \<open>An honest proof of the sample snapshot, which contains no collision.\<close>

lemma sample_proof:
  obtains i where "proof_wf (snapshot_proof sample_constants sample_ranges i)"
    "root (snapshot_proof sample_constants sample_ranges i) = pt_circuit_root sample_tree"
    "verify sample_constants (snapshot_proof sample_constants sample_ranges i) 7"
    "\<not> exhibits_collision sample_constants (pt_ranges sample_tree) (snapshot_proof sample_constants sample_ranges i)"
proof -
  note b = built_tree_fields [OF sample_build, folded sample_ranges_def]
  obtain i where i: "i < length sample_ranges" "covers (sample_ranges ! i) 7"
    using built_covered [OF sample_build] sample_seven_free b(1) by auto
  have ok: "snapshot_ok sample_ranges COMPILED_PIR_LAYOUT"
    using built_snapshot(1) [OF sample_build compiled_layout_supported compiled_depth] b(1) by simp
  have "length sample_ranges \<le> 2 ^ TREE_DEPTH"
    using length_sample_ranges by (simp add: PIR_DEPTH_def TREE_DEPTH_def)
  then have "\<not> exhibits_collision sample_constants sample_ranges (snapshot_proof sample_constants sample_ranges i)"
    using i(1) by (intro honest_no_collision [of i]) (simp_all add: snapshot_proof_def)
  then show thesis
    using that verify_snapshot_proof [OF ok i, of sample_constants] b by (simp add: snapshot_proof_def)
qed

theorem verified_not_in_set_witness:
  "\<exists>pr. verify sample_constants pr 7 \<and> root pr = pt_circuit_root sample_tree \<and> 7 \<notin> set sample_nfs"
proof -
  obtain i where i: "proof_wf (snapshot_proof sample_constants sample_ranges i)"
    "root (snapshot_proof sample_constants sample_ranges i) = pt_circuit_root sample_tree"
    "verify sample_constants (snapshot_proof sample_constants sample_ranges i) 7"
    "\<not> exhibits_collision sample_constants (pt_ranges sample_tree) (snapshot_proof sample_constants sample_ranges i)"
    by (rule sample_proof)
  then show ?thesis
    using verified_not_in_set [OF sample_build i(1-3)] by blast
qed

section \<open>Retrieval over the network\<close>

text \<open>
  C1. The whole service. Take a tree built from nullifiers, export it with a supported layout
  of depth 19 into any directory, and start the server on that directory with either
  polynomial degree. Given the contracts of the libraries (JSON and hex coding, correctness
  of YPIR), the server loads the snapshot, a client configured with that layout and degree
  connects to it, and its retrieval over HTTP of any value outside the padded nullifier set
  returns a well-formed proof against the tree's circuit root that the verifier accepts.
\<close>

theorem service_end_to_end:
  fixes P :: "'p::len poseidon_constants"
  assumes "build_pir_tree_from_nullifiers P nfs = Inr tree"
    and "validate_supported L = Inr ()" and "pir_depth L = PIR_DEPTH" and "degree = 2048 \<or> degree = 4096"
    and "meta_from_json C (meta_to_json C (snapshot_meta C P (pt_ranges tree) network height L)) =
           Some (snapshot_meta C P (pt_ranges tree) network height L)"
    and "\<And>bs. hex_to C (hex_of C bs) = Some bs"
    and "codecs_agree W J C (served_meta C P (pt_ranges tree) network height L degree) (layout_scenario L degree)"
    and "ypir_correct Y Yc (layout_scenario L degree) (tier1_of (pt_ranges tree) L) seed"
    and "v \<notin> padded_set nfs"
  shows "\<exists>d' ss c rs pr.
    load_serving_state_with_poly_len TYPE('p) C H T Y env
      (fst (export_all_with_layout C tree d network height L)) network degree = (d', Ok ss) \<and>
    with_transport P (server_net Y W (st\<lparr>serving := Some ss\<rparr>) (trim_end_slashes url)) J url (L\<lparr>poly_len := degree\<rparr>) = (Ok c, rs) \<and>
    fetch_proof P (server_net Y W (st\<lparr>serving := Some ss\<rparr>) (trim_end_slashes url)) Yc seed c v = Ok pr \<and>
    proof_wf pr \<and> root pr = pt_circuit_root tree \<and> verify P pr v"
proof -
  note ok = built_snapshot(1) [OF assms(1-3)]
  have tree: "pir_tree_of P (pt_ranges tree) = tree"
    using built_tree(3) [OF assms(1)] built_tree_fields(1) [OF assms(1)] by simp
  obtain d' ss c rs where ld: "load_serving_state_with_poly_len TYPE('p) C H T Y env
      (fst (export_all_with_layout C tree d network height L)) network degree = (d', Ok ss)"
    and con: "with_transport P (server_net Y W (st\<lparr>serving := Some ss\<rparr>) (trim_end_slashes url)) J url (L\<lparr>poly_len := degree\<rparr>) = (Ok c, rs)"
    and c: "client_wf c" "pc_layout c = L\<lparr>poly_len := degree\<rparr>" "holds_snapshot P c (pt_ranges tree)"
      "answers_rows (server_net Y W (st\<lparr>serving := Some ss\<rparr>) (trim_end_slashes url)) Yc seed c (pt_ranges tree)"
    using service_client [OF ok assms(4-8)] unfolding tree by metis
  from built_proof_over_wire [OF assms(1-4) c assms(9)] ld con show ?thesis by blast
qed

theorem service_end_to_end_witness:
  "\<exists>d' ss c rs pr.
    load_serving_state_with_poly_len TYPE(pallas) sample_codec sample_digest sample_target clear_ypir id
      (fst (export_all_with_layout sample_codec sample_tree Map.empty Main sample_height COMPILED_PIR_LAYOUT)) Main 4096 = (d', Ok ss) \<and>
    with_transport sample_constants
      (server_net clear_ypir sample_printer ((initial_state sample_serve_args None Map.empty)\<lparr>serving := Some ss\<rparr>) (trim_end_slashes ''http://pir/''))
      sample_parsers ''http://pir/'' (COMPILED_PIR_LAYOUT\<lparr>poly_len := 4096\<rparr>) = (Ok c, rs) \<and>
    fetch_proof sample_constants
      (server_net clear_ypir sample_printer ((initial_state sample_serve_args None Map.empty)\<lparr>serving := Some ss\<rparr>) (trim_end_slashes ''http://pir/''))
      clear_client 0 c 7 = Ok pr \<and>
    proof_wf pr \<and> root pr = pt_circuit_root sample_tree \<and> verify sample_constants pr 7"
  by (rule service_end_to_end [OF sample_build compiled_layout_supported compiled_depth])
    (simp_all add: sample_meta_round_trip sample_hex_round_trip sample_codecs_agree clear_ypir_correct sample_seven_free)

text \<open>
  C10. One query per retrieval. Whatever a well-formed client is asked for and whatever the
  server answers, a retrieval sends exactly one request: a POST to the query endpoint whose
  body is the YPIR query of a row of the database. A value the public tier does not route
  is not visible as a missing or an extra request.
\<close>

theorem one_query_per_retrieval:
  assumes "with_transport P N0 J url L = (Ok c, rs)"
  shows "\<exists>row < 2 ^ tier0_layers L.
    snd (fetch_proof_inner P N Y seed c v) =
      [Post (pc_server_url c @ ''/tier1/query'')
        (case generate_query_simplepir Y (pc_tier1_scenario c) seed row of (q, pp) \<Rightarrow> serialize_ypir_query q pp)]"
proof -
  have "client_wf c" "pc_layout c = L" using with_transport_wf [OF assms] by simp_all
  then show ?thesis using fetch_proof_inner_request [of c P N Y seed v] by simp
qed

text \<open>A client connected to the server of the sample snapshot.\<close>

lemma sample_connected:
  "\<exists>N c rs. with_transport sample_constants N sample_parsers ''http://pir/'' (COMPILED_PIR_LAYOUT\<lparr>poly_len := 4096\<rparr>) = (Ok c, rs)"
proof -
  have ok: "snapshot_ok sample_ranges COMPILED_PIR_LAYOUT"
    using built_snapshot(1) [OF sample_build compiled_layout_supported compiled_depth] by simp
  show ?thesis
    by (rule service_client [OF ok _ sample_meta_round_trip sample_hex_round_trip sample_codecs_agree clear_ypir_correct]) auto
qed

theorem one_query_per_retrieval_witness:
  "\<exists>c row. row < 2 ^ tier0_layers COMPILED_PIR_LAYOUT \<and>
    snd (fetch_proof_inner sample_constants \<lparr>net_get = (\<lambda>_. Bail ''down''), net_post = (\<lambda>_ _. Bail ''down'')\<rparr> clear_client 0 c 7) =
      [Post (pc_server_url c @ ''/tier1/query'')
        (case generate_query_simplepir clear_client (pc_tier1_scenario c) 0 row of (q, pp) \<Rightarrow> serialize_ypir_query q pp)]"
proof -
  obtain N c rs where "with_transport sample_constants N sample_parsers ''http://pir/'' (COMPILED_PIR_LAYOUT\<lparr>poly_len := 4096\<rparr>) = (Ok c, rs)"
    using sample_connected by blast
  from one_query_per_retrieval [OF this, of "\<lparr>net_get = (\<lambda>_. Bail ''down''), net_post = (\<lambda>_ _. Bail ''down'')\<rparr>" clear_client 0 7]
  show ?thesis by auto
qed

text \<open>
  C22. What connecting guarantees whatever the server answers: an unsupported configuration
  causes no request, a root response that fails its checks stops after the first request,
  and a client that was returned uses exactly the configured layout, with a YPIR scenario
  and a Tier 0 table of the dimensions of that layout and canonical field elements.
\<close>

theorem connect_checks:
  "(validate_supported L \<noteq> Inr () \<longrightarrow> snd (with_transport P N J url L) = []) \<and>
   (\<forall>e. check_root N J (trim_end_slashes url @ ''/root'') L = Inl e \<longrightarrow>
        length (snd (with_transport P N J url L)) \<le> 1) \<and>
   (\<forall>c. fst (with_transport P N J url L) = Ok c \<longrightarrow>
        pc_layout c = L \<and> validate_supported L = Inr () \<and>
        num_items (pc_tier1_scenario c) = 2 ^ tier0_layers L \<and>
        item_size_bits (pc_tier1_scenario c) = 2 ^ tier1_layers L * 768 \<and>
        scn_poly_len (pc_tier1_scenario c) = poly_len L \<and>
        tier0_from_layout TYPE('p::len) (t0_data (pc_tier0 c)) L = Ok (pc_tier0 (c :: 'p PirClient)))"
proof (intro conjI allI impI)
  assume "validate_supported L \<noteq> Inr ()"
  then show "snd (with_transport P N J url L) = []"
    by (cases "validate_supported L") (auto simp: with_transport_def validate_layout_def)
next
  fix e
  assume "check_root N J (trim_end_slashes url @ ''/root'') L = Inl e"
  then show "length (snd (with_transport P N J url L)) \<le> 1"
    by (auto simp: with_transport_def Let_def split: sum.splits)
next
  fix c
  assume "fst (with_transport P N J url L) = Ok c"
  then have "with_transport P N J url L = (Ok c, snd (with_transport P N J url L))" by (metis prod.collapse)
  from with_transport_wf [OF this] show "pc_layout c = L" "validate_supported L = Inr ()"
    "num_items (pc_tier1_scenario c) = 2 ^ tier0_layers L" "item_size_bits (pc_tier1_scenario c) = 2 ^ tier1_layers L * 768"
    "scn_poly_len (pc_tier1_scenario c) = poly_len L"
    "tier0_from_layout TYPE('p) (t0_data (pc_tier0 c)) L = Ok (pc_tier0 c)"
    by (auto simp: client_wf_def validate_supported_iff)
qed

theorem connect_checks_witness:
  "\<exists>N c. fst (with_transport sample_constants N sample_parsers ''http://pir/'' (COMPILED_PIR_LAYOUT\<lparr>poly_len := 4096\<rparr>)) = Ok c \<and>
     num_items (pc_tier1_scenario c) = 4096"
proof -
  obtain N c rs where c: "with_transport sample_constants N sample_parsers ''http://pir/'' (COMPILED_PIR_LAYOUT\<lparr>poly_len := 4096\<rparr>) = (Ok c, rs)"
    using sample_connected by blast
  with connect_checks [of "COMPILED_PIR_LAYOUT\<lparr>poly_len := 4096\<rparr>" sample_constants N sample_parsers "''http://pir/''"]
  have "num_items (pc_tier1_scenario c) = 2 ^ tier0_layers COMPILED_PIR_LAYOUT" by simp
  with c show ?thesis
    by (intro exI [of _ N] exI [of _ c]) (simp add: COMPILED_PIR_LAYOUT_def TIER0_LAYERS_def)
qed

text \<open>
  A batch sends one query per nullifier, also when some retrievals fail, and returns the
  proofs in the order of the nullifiers exactly when every single retrieval succeeds.
\<close>

theorem batch_retrieval:
  assumes "with_transport P N0 J url L = (Ok c, rs)"
  shows "length (snd (fetch_proofs P N Y seeds c vs)) = length vs \<and>
    (fst (fetch_proofs P N Y seeds c vs) = Ok prs \<longleftrightarrow>
      length prs = length vs \<and> (\<forall>i < length vs. fetch_proof P N Y (seeds i) c (vs ! i) = Ok (prs ! i)))"
proof
  have wf: "client_wf c" using with_transport_wf [OF assms] by simp
  have one: "length (snd (fetch_proof_inner P N Y seed c v)) = 1" for seed v
    using fetch_proof_inner_request [OF wf, of P N Y seed v] by auto
  show "length (snd (fetch_proofs P N Y seeds c vs)) = length vs"
    by (simp add: fetch_proofs_def Let_def length_concat comp_def one sum_list_triv)
  show "fst (fetch_proofs P N Y seeds c vs) = Ok prs \<longleftrightarrow>
      length prs = length vs \<and> (\<forall>i < length vs. fetch_proof P N Y (seeds i) c (vs ! i) = Ok (prs ! i))"
    by (auto simp: fetch_proofs_def Let_def try_map_Ok_iff list_all2_conv_all_nth fetch_proof_def)
qed

theorem batch_retrieval_witness:
  "\<exists>c. length (snd (fetch_proofs sample_constants \<lparr>net_get = (\<lambda>_. Bail ''down''), net_post = (\<lambda>_ _. Bail ''down'')\<rparr>
     clear_client id c [5, 7, 9])) = 3"
proof -
  obtain N c rs where "with_transport sample_constants N sample_parsers ''http://pir/'' (COMPILED_PIR_LAYOUT\<lparr>poly_len := 4096\<rparr>) = (Ok c, rs)"
    using sample_connected by blast
  from batch_retrieval [OF this, of _ clear_client id "[5, 7, 9]"] show ?thesis
    by (intro exI [of _ c]) simp
qed

section \<open>Building the tree\<close>

text \<open>
  C20. \<open>prepare_nullifiers\<close> on any list, with duplicates and in any order: it returns the
  triples of the sorted padded set, except when the sentinels and nullifiers are even in
  number and \<open>1\<close> or \<open>2\<close> is a nullifier; then the inserted padding value breaks the order and it
  panics. The comment in the source names \<open>2\<close> only.
\<close>

theorem prepare_nullifiers_total:
  "prepare_nullifiers nfs =
     (if even (card (set nfs \<union> set sentinels)) \<and> (1 \<in> set nfs \<or> 2 \<in> set nfs)
      then Err (Panic ''punctured range violates strict ordering'')
      else Ok (triples (sorted_list_of_set (padded_set nfs))))"
  using prepare_nullifiers_eq [of nfs] by (auto simp: pad_slot_free_def nf_set_def nf_list_def)

text \<open>
  The prepared ranges cover exactly the complement of the padded set: the lookup finds a
  range for a value if and only if it is neither a nullifier nor a sentinel nor the padding
  value, and the range it finds contains the value strictly between its bounds and off its
  middle.
\<close>

theorem prepared_ranges_cover:
  assumes "prepare_nullifiers nfs = Inr ranges"
  shows "(find_punctured_range_for_value ranges v = None \<longleftrightarrow> v \<in> padded_set nfs) \<and>
    (\<forall>i. find_punctured_range_for_value ranges v = Some i \<longrightarrow>
       i < length ranges \<and> (case ranges ! i of (lo, mid, hi) \<Rightarrow> lo < v \<and> v < hi \<and> v \<noteq> mid))"
proof -
  have free: "pad_slot_free nfs" and r: "ranges = triples (nf_list nfs)"
    using assms by (simp_all add: prepare_nullifiers_Ok_iff)
  have "find_punctured_range_for_value ranges v = None \<longleftrightarrow> v \<in> padded_set nfs"
    using find_in_prepared [OF free, of v] by (auto simp: r)
  then show ?thesis
    using find_triples_Some_iff [OF nf_list_sorted odd_length_nf_list [OF free], of v]
    by (auto simp: r covers_def triples_def split: prod.splits)
qed

lemma sample_prepared: "prepare_nullifiers sample_nfs = Inr sample_ranges"
  by (simp add: prepare_nullifiers_eq sample_pad_slot_free sample_ranges_def)

theorem prepared_ranges_cover_witness:
  "find_punctured_range_for_value sample_ranges 5 = None \<and> find_punctured_range_for_value sample_ranges 7 \<noteq> None"
  using prepared_ranges_cover [OF sample_prepared, of 5] prepared_ranges_cover [OF sample_prepared, of 7]
    sample_five_taken sample_seven_free by simp

text \<open>
  C21. A tree is built exactly when the padding slot is free and the padded set has at most
  \<open>2 ^ 20 + 1\<close> elements; the check of the spans never fails on prepared ranges.
\<close>

theorem build_tree_Ok_iff:
  "(\<exists>tree. build_pir_tree_from_nullifiers P nfs = Inr tree) \<longleftrightarrow>
     \<not> (even (card (set nfs \<union> set sentinels)) \<and> (1 \<in> set nfs \<or> 2 \<in> set nfs)) \<and>
     card (padded_set nfs) \<le> 2 ^ 20 + 1"
proof -
  have len: "length (nf_list nfs) = card (padded_set nfs)" by (simp add: nf_list_def)
  have "odd (card (padded_set nfs))" if "pad_slot_free nfs"
    using odd_length_nf_list [OF that] by (simp add: nf_list_def)
  then have "pad_slot_free nfs \<Longrightarrow> (card (padded_set nfs) - 1) div 2 \<le> 2 ^ PIR_DEPTH \<longleftrightarrow> card (padded_set nfs) \<le> 2 ^ 20 + 1"
    by (auto simp: PIR_DEPTH_def elim!: oddE)
  then show ?thesis
    by (auto simp: build_pir_tree_from_nullifiers_Ok_iff triples_def len pad_slot_free_def nf_set_def)
qed

text \<open>
  C19. The tree that is built: its stored levels give the nodes of the binary Poseidon tree
  over the committed ranges (empty subtrees from the table), its PIR root is that tree's root
  at depth 19, and its circuit root, extended with the empty hashes, is the root of the same
  leaves at depth 29.
\<close>

theorem built_tree_is_merkle_tree:
  assumes "build_pir_tree P ranges = Inr tree"
  shows "pt_pir_root tree = tree_node P (commit_punctured_ranges P ranges) PIR_DEPTH 0 \<and>
    pt_circuit_root tree = tree_node P (commit_punctured_ranges P ranges) TREE_DEPTH 0 \<and>
    (\<forall>l < PIR_DEPTH. \<forall>i. node_or_empty (pt_levels tree) l i (pt_empty_hashes tree) =
       Ok (tree_node P (commit_punctured_ranges P ranges) l i))"
proof -
  have "tree = pir_tree_of P ranges" using assms by (simp add: build_pir_tree_Ok_iff)
  then show ?thesis
    using node_or_empty_tree [of _ P "commit_punctured_ranges P ranges"]
    by (simp add: pir_tree_of_def Let_def del: subroot.simps empty_hash.simps)
qed

lemma sample_build_pir_tree: "build_pir_tree sample_constants sample_ranges = Inr sample_tree"
  using sample_build sample_prepared by (simp add: build_pir_tree_from_nullifiers_def)

theorem built_tree_is_merkle_tree_witness:
  "pt_circuit_root sample_tree = tree_node sample_constants (commit_punctured_ranges sample_constants sample_ranges) TREE_DEPTH 0"
  using built_tree_is_merkle_tree [OF sample_build_pir_tree] by blast

text \<open>
  \<open>build_levels\<close> of any leaves and any depth up to 29, with its sequential and its chunked
  hashing loop, returns the root of the binary tree and, per level, its nodes padded to an
  even number.
\<close>

theorem build_levels_correct:
  assumes "0 < depth" "depth \<le> TREE_DEPTH"
  shows "build_levels P leaves (precompute_empty_hashes P) depth =
    Ok (tree_node P leaves depth 0, map (tree_level P leaves) [0..<depth])"
  using assms by (rule build_levels_tree)

theorem build_levels_correct_witness:
  "build_levels sample_constants [5, 7, 9] (precompute_empty_hashes sample_constants) 3 =
     Ok (tree_node sample_constants [5, 7, 9] 3 0, map (tree_level sample_constants [5, 7, 9]) [0..<3])"
  by (rule build_levels_correct) (simp_all add: TREE_DEPTH_def)

text \<open>
  The specialised hash functions are the Poseidon sponge of the construction: two
  elements in one permutation with capacity \<open>2 * 2 ^ 64\<close>, three elements in two permutations
  with capacity \<open>3 * 2 ^ 64\<close>.
\<close>

theorem hash_functions_are_sponges:
  "hash (poseidon_new P) a b = sponge_hash (poseidon_new P) [a, b] \<and>
   hash3 (poseidon_new P) a b c = sponge_hash (poseidon_new P) [a, b, c]"
  by (simp add: hash_is_sponge hash3_is_sponge)

section \<open>Layouts and tier files\<close>

text \<open>
  The layouts that validate, and the sizes they imply: every geometry function returns
  without overflow.
\<close>

theorem supported_layouts:
  "validate_supported L = Inr () \<longleftrightarrow>
     pir_depth L = tier0_layers L + tier1_layers L \<and> pir_depth L \<le> 29 \<and>
     tier0_layers L \<in> {11..16} \<and> tier1_layers L \<in> {6..15} \<and> poly_len L \<in> {2048, 4096}"
  by (auto simp: validate_supported_iff supported_def)

text \<open>
  C13. A hostile server cannot make a connected client panic or return a malformed proof:
  whatever it sends for the row, and whatever table and range count it sent before, a
  retrieval ends in an error or in a proof with 29 siblings against the advertised root.
\<close>

theorem hostile_server_no_panic:
  assumes "with_transport P N0 J url L = (Ok c, rs)"
    and "\<And>url body m. net_post N url body \<noteq> Inl (Panic m)"
  shows "(\<exists>m. fetch_proof P N Y seed c v = Bail m) \<or>
    (\<exists>pr. fetch_proof P N Y seed c v = Ok pr \<and> length (path pr) = 29 \<and> root pr = pc_circuit_root c)"
  using fetch_proof_hostile [OF assms] by (auto simp: proof_wf_def TREE_DEPTH_def)

theorem hostile_server_no_panic_witness:
  "\<exists>c. (\<exists>m. fetch_proof sample_constants
        \<lparr>net_get = (\<lambda>_. Bail ''''), net_post = (\<lambda>_ _. Ok \<lparr>rsp_status = 200, rsp_headers = [], rsp_body = [255, 255]\<rparr>)\<rparr>
        clear_client 0 c 7 = Bail m) \<or>
     (\<exists>pr. fetch_proof sample_constants
        \<lparr>net_get = (\<lambda>_. Bail ''''), net_post = (\<lambda>_ _. Ok \<lparr>rsp_status = 200, rsp_headers = [], rsp_body = [255, 255]\<rparr>)\<rparr>
        clear_client 0 c 7 = Ok pr \<and> length (path pr) = 29 \<and> root pr = pc_circuit_root c)"
proof -
  obtain N c rs where c: "with_transport sample_constants N sample_parsers ''http://pir/'' (COMPILED_PIR_LAYOUT\<lparr>poly_len := 4096\<rparr>) = (Ok c, rs)"
    using sample_connected by blast
  show ?thesis by (rule exI [of _ c], rule hostile_server_no_panic [OF c]) simp
qed

text \<open>
  Tier 1 print and parse. Every row of an export, cut out of the file and parsed with
  the same layout, gives back the ranges of that row, and zeros in the unused slots.
\<close>

theorem exported_row_reads_back:
  fixes ranges :: "'p::len fp3 list"
  assumes "validate_supported L = Inr ()" "tier1_export_layout ranges L = Inr t1"
    and "s < 2 ^ tier0_layers L" "i < 2 ^ tier1_layers L"
  shows "\<exists>row t. slice_res t1 (s * (2 ^ tier1_layers L * 96)) (2 ^ tier1_layers L * 96) = Ok row \<and>
    tier1_from_layout TYPE('p) row L = Ok t \<and>
    leaf_record t i = Ok (if s * 2 ^ tier1_layers L + i < length ranges then ranges ! (s * 2 ^ tier1_layers L + i) else (0, 0, 0))"
proof -
  let ?recs = "row_recs ranges (2 ^ tier1_layers L) s"
  have L: "supported L" using assms(1) by (simp add: validate_supported_iff)
  have t1: "t1 = tier1_of ranges L" using assms(2) tier1_export_eq [OF L, of ranges] by simp
  have "tier1_from_layout TYPE('p) (tier1_blob ?recs) L = Ok (tier1_parsed (tier1_layers L) ?recs)"
    unfolding tier1_from_layout_Ok_iff [OF L] by (rule exI [of _ ?recs]) simp
  moreover have "leaf_record (tier1_parsed (tier1_layers L) ?recs) i = Ok (bounds_at ranges (s * 2 ^ tier1_layers L + i))"
    using assms(4) by (simp add: leaf_record_parsed row_recs_nth)
  ultimately show ?thesis
    using tier1_of_row [OF assms(3), of ranges] by (simp add: t1 bounds_at_def)
qed

theorem exported_row_reads_back_witness:
  "\<exists>row t. slice_res (tier1_of sample_ranges COMPILED_PIR_LAYOUT)
       (0 * (2 ^ tier1_layers COMPILED_PIR_LAYOUT * 96)) (2 ^ tier1_layers COMPILED_PIR_LAYOUT * 96) = Ok row \<and>
     tier1_from_layout TYPE(pallas) row COMPILED_PIR_LAYOUT = Ok t \<and>
     leaf_record t 0 = Ok (if 0 * 2 ^ tier1_layers COMPILED_PIR_LAYOUT + 0 < length sample_ranges
       then sample_ranges ! (0 * 2 ^ tier1_layers COMPILED_PIR_LAYOUT + 0) else (0, 0, 0))"
  by (rule exported_row_reads_back [OF compiled_layout_supported tier1_export_eq [OF supported_compiled]]) simp_all

text \<open>
  A Tier 0 table that parses never makes a later read panic: every node and every
  subtree record of an accepted table is read as a canonical field element.
\<close>

theorem tier0_reads_never_panic:
  assumes "validate_supported L = Inr ()" and "tier0_from_layout TYPE('p::len) data L = Inr t"
  shows "(\<forall>d < tier0_layers L. \<forall>i < 2 ^ d. is_ok (node_at t d i :: 'p fp result)) \<and>
    (\<forall>i < 2 ^ tier0_layers L. is_ok (subtree_record t i :: ('p fp \<times> 'p fp) result))"
  using tier0_reads_ok [OF _ assms(2)] assms(1) by (simp add: validate_supported_iff)

theorem tier0_reads_never_panic_witness:
  "is_ok (node_at (tier0_view sample_constants sample_ranges COMPILED_PIR_LAYOUT) 0 0 :: pallas fp result)"
proof -
  have "0 < tier0_layers COMPILED_PIR_LAYOUT" by (simp add: COMPILED_PIR_LAYOUT_def TIER0_LAYERS_def)
  then show ?thesis
    using tier0_reads_never_panic [OF compiled_layout_supported tier0_of_parses [OF supported_compiled, of sample_constants sample_ranges]]
    by fastforce
qed

text \<open>
  C28. A supported layout deeper than the tree cannot be exported: writing the public tier
  of a built tree reads a level that does not exist and panics. The validation accepts such
  layouts (up to depth 29) and the tree always has 19 levels.
\<close>

theorem deep_layout_export_panics:
  assumes "validate_supported L = Inr ()" "PIR_DEPTH < pir_depth L" "build_pir_tree P ranges = Inr tree"
  shows "export_for_layout tree L = Err (Panic ''index out of bounds'')"
proof -
  have "supported L" using assms(1) by (simp add: validate_supported_iff)
  moreover have "length (pt_levels tree) = PIR_DEPTH"
    using assms(3) by (auto simp: build_pir_tree_Ok_iff pir_tree_of_def Let_def)
  ultimately have "tier0_export_layout (pt_pir_root tree) (pt_levels tree) (pt_ranges tree) (pt_empty_hashes tree) L =
      Err (Panic ''index out of bounds'')"
    using assms(2) by (intro tier0_export_too_deep)
  then show ?thesis using assms(1) by (simp add: export_for_layout_def)
qed

theorem deep_layout_export_panics_witness:
  "export_for_layout sample_tree \<lparr>pir_depth = 20, tier0_layers = 13, tier1_layers = 7, poly_len = 4096\<rparr> =
     Err (Panic ''index out of bounds'')"
  by (rule deep_layout_export_panics [OF _ _ sample_build_pir_tree])
    (simp_all add: validate_supported_iff supported_def PIR_DEPTH_def)

section \<open>The server\<close>

text \<open>
  The wire format of a query. For a server whose dimensions do not overflow, the
  bodies that are answered are exactly the serializations of query and public parameters
  of the expected lengths, and the library is called with the numbers the client
  serialized; every other body is an error, and no body makes the handler panic.
\<close>

theorem answered_queries:
  assumes "dims_fit Y (ts_scenario ts)" "0 < ys_db_rows_padded Y (ts_scenario ts)" "0 < pp_words Y (ts_scenario ts)"
  shows "answer_query Y ts body = Ok resp \<longleftrightarrow>
      (\<exists>pqr pp. body = serialize_ypir_query pqr pp \<and> length pqr = ys_db_rows_padded Y (ts_scenario ts) \<and>
         length pp = pp_words Y (ts_scenario ts) \<and>
         resp = ys_online Y (ts_scenario ts) (ts_server ts) (ts_offline ts) pqr pp)"
    (is "?l \<longleftrightarrow> ?r")
proof
  assume ?l
  with answer_query_cases [OF assms, of body] show ?r by auto
next
  assume ?r
  then obtain pqr pp where b: "body = serialize_ypir_query pqr pp" "length pqr = ys_db_rows_padded Y (ts_scenario ts)"
    "length pp = pp_words Y (ts_scenario ts)" "resp = ys_online Y (ts_scenario ts) (ts_server ts) (ts_offline ts) pqr pp" by blast
  then have "pqr \<noteq> []" "pp \<noteq> []" using assms(2,3) by auto
  with answer_serialized [OF assms(1) b(2,3)] b show ?l by simp
qed

theorem answered_queries_witness:
  "answer_query bit_ypir bit_server (serialize_ypir_query [5] [7]) = Ok [1]"
proof -
  have "answer_query bit_ypir bit_server (serialize_ypir_query [5] [7]) = Ok [1] \<longleftrightarrow>
      (\<exists>pqr pp. serialize_ypir_query [5] [7] = serialize_ypir_query pqr pp \<and> length pqr = ys_db_rows_padded bit_ypir (ts_scenario bit_server) \<and>
         length pp = pp_words bit_ypir (ts_scenario bit_server) \<and>
         [1] = ys_online bit_ypir (ts_scenario bit_server) (ts_server bit_server) (ts_offline bit_server) pqr pp)"
    by (rule answered_queries) (simp_all add: bit_dims)
  moreover have "[1] = ys_online bit_ypir (ts_scenario bit_server) (ts_server bit_server) (ts_offline bit_server) [5] [7]"
    by (simp add: bit_ypir_def bit_server_def)
  ultimately show ?thesis using bit_dims by (metis length_Cons list.size(3) One_nat_def)
qed

text \<open>
  Dispatching a query always produces a response, 200 with the library's answer or 400,
  counts the request, and leaves the in-flight counter as it was.
\<close>

theorem dispatch_query_total:
  assumes "dims_fit Y (ts_scenario ts)" "0 < ys_db_rows_padded Y (ts_scenario ts)" "0 < pp_words Y (ts_scenario ts)"
  shows "\<exists>resp. dispatch_query Y ts body ctr = (ctr\<lparr>next_req_id := next_req_id ctr + 1\<rparr>, Ok resp) \<and>
    (rsp_status resp = 200 \<and> answer_query Y ts body = Ok (rsp_body resp) \<or>
     rsp_status resp = 400 \<and> \<not> is_ok (answer_query Y ts body))"
  using answer_query_cases [OF assms, of body]
  by (auto simp: dispatch_query_def Let_def)

theorem dispatch_query_total_witness:
  "\<exists>resp. dispatch_query bit_ypir bit_server [1, 2, 3] \<lparr>next_req_id = 41, inflight_requests = 2\<rparr> =
      (\<lparr>next_req_id = 42, inflight_requests = 2\<rparr>, Ok resp) \<and> rsp_status resp \<in> {200, 400}"
proof -
  obtain resp where "dispatch_query bit_ypir bit_server [1, 2, 3] \<lparr>next_req_id = 41, inflight_requests = 2\<rparr> =
      (\<lparr>next_req_id = 41, inflight_requests = 2\<rparr>\<lparr>next_req_id := next_req_id \<lparr>next_req_id = 41, inflight_requests = 2\<rparr> + 1\<rparr>, Ok resp)"
    "rsp_status resp = 200 \<or> rsp_status resp = 400"
    using dispatch_query_total [of bit_ypir bit_server "[1, 2, 3]" "\<lparr>next_req_id = 41, inflight_requests = 2\<rparr>"] bit_dims
    by (metis zero_less_one)
  then show ?thesis by auto
qed

text \<open>
  C12. In every reachable state of the server, with its start-up task interleaved with
  queries, the readiness endpoint answers 200 only when a snapshot of the configured
  network is loaded that passed all load checks. Then a client configured with the
  layout of that snapshot connects if and only if the circuit root of the metadata decodes to a field
  element, which becomes the client's root. Nothing in loading checks that it does, so a server whose
  metadata has another circuit root is ready, and no client can connect to it.
\<close>

theorem ready_means_connectable:
  fixes P :: "'p::len poseidon_constants"
  assumes "(serve_step TYPE('p) C H T Y E W)\<^sup>*\<^sup>* (BootInit, initial_state (be_args E) lwd_env d) (pc, st)"
    and "rsp_status (get_ready W st) = 200"
  shows "\<exists>ss. serving st = Some ss \<and> md_zcash_network (ss_metadata ss) = sv_zcash_network (be_args E) \<and>
    serving_wf TYPE('p) C (sv_zcash_network (be_args E)) (sv_pir_poly_len (be_args E)) ss \<and>
    (codecs_agree W J C (ss_metadata ss) (ss_tier1_scenario ss) \<longrightarrow>
     (\<forall>cr. (\<exists>c. fst (with_transport P (server_net Y W st (trim_end_slashes url)) J url (md_pir_layout (ss_metadata ss))) = Ok c \<and>
          pc_circuit_root c = cr) \<longleftrightarrow>
        decode_root_hex J (md_circuit_root (ss_metadata ss)) = Ok cr))"
proof -
  have inv: "serve_inv TYPE('p) C (be_args E) (pc, st)" using assms(1) by (rule serve_reachable_inv)
  have "phase st = Serving" using assms(2) by (cases "phase st") (auto simp: get_ready_def respond_def)
  then obtain ss where ss: "serving st = Some ss" "serving_wf TYPE('p) C (sv_zcash_network (be_args E)) (sv_pir_poly_len (be_args E)) ss"
    using inv by (auto simp: serve_inv_def)
  then have "md_zcash_network (ss_metadata ss) = sv_zcash_network (be_args E)" by (simp add: serving_wf_def Let_def)
  with ss connect_served_iff [OF ss, of W J P Y url] show ?thesis by (intro exI [of _ ss]) auto
qed

text \<open>A start of the server on the exported sample.\<close>

abbreviation sample_env :: boot_env where
  "sample_env \<equiv> \<lparr>be_args = sample_serve_args, be_bootstrap = (\<lambda>s.
     ((fst (export_all_with_layout sample_codec sample_tree Map.empty Main sample_height COMPILED_PIR_LAYOUT), snd s), Ok ()))\<rparr>"

abbreviation sample_up :: "dir \<Rightarrow> (_, _) ServingState \<Rightarrow> gauges \<Rightarrow> (_, _) AppState" where
  "sample_up d' ss g \<equiv> (initial_state sample_serve_args None d')\<lparr>phase := Serving, serving := Some ss, rebuild_lock := False,
     process_gauges := g, watchdog_loop := watchdog_settings sample_serve_args\<rparr>"

abbreviation sample_loaded :: "(_, _) ServingState" where
  "sample_loaded \<equiv> snapshot_state sample_codec clear_ypir sample_constants sample_ranges Main sample_height COMPILED_PIR_LAYOUT 4096"

lemma sample_ready_state:
  obtains d' g where
    "(serve_step TYPE(pallas) sample_codec sample_digest sample_target clear_ypir sample_env sample_printer)\<^sup>*\<^sup>*
      (BootInit, initial_state (be_args sample_env) None Map.empty)
      (BootDone, sample_up d' sample_loaded g)"
proof -
  let ?d = "fst (export_all_with_layout sample_codec sample_tree Map.empty Main sample_height COMPILED_PIR_LAYOUT)"
  obtain d' where ld: "load_serving_state_with_poly_len TYPE(pallas) sample_codec sample_digest sample_target clear_ypir id ?d Main 4096 = (d', Ok sample_loaded)"
    using load_after_export [of COMPILED_PIR_LAYOUT 4096 sample_codec sample_constants sample_ranges Main sample_height sample_digest sample_target clear_ypir id Map.empty]
      built_tree(3) [OF sample_build, folded sample_ranges_def] supported_compiled compiled_depth
    by (auto simp: sample_meta_round_trip sample_hex_round_trip)
  have args: "sv_zcash_network sample_serve_args = Main" "sv_pir_poly_len sample_serve_args = 4096" by (simp_all add: sample_serve_args_def)
  show thesis
    using boot_run [of Map.empty Map.empty sample_env ?d no_gauges "TYPE(pallas)" sample_codec sample_digest sample_target clear_ypir id d' sample_loaded
        sample_printer None] ld that
    by (simp add: rebuild_index_def load_checkpoint_def args)
qed

lemma sample_ready:
  obtains d' ss g where
    "(serve_step TYPE(pallas) sample_codec sample_digest sample_target clear_ypir sample_env sample_printer)\<^sup>*\<^sup>*
      (BootInit, initial_state (be_args sample_env) None Map.empty)
      (BootDone, sample_up d' ss g)"
  using sample_ready_state by blast

theorem ready_means_connectable_witness:
  "\<exists>pc st c. (serve_step TYPE(pallas) sample_codec sample_digest sample_target clear_ypir sample_env sample_printer)\<^sup>*\<^sup>*
        (BootInit, initial_state (be_args sample_env) None Map.empty) (pc, st) \<and>
    rsp_status (get_ready sample_printer st) = 200 \<and>
    fst (with_transport sample_constants (server_net clear_ypir sample_printer st (trim_end_slashes ''http://pir/'')) sample_parsers ''http://pir/''
      (md_pir_layout sample_served)) = Ok c \<and> pc_circuit_root c = pt_circuit_root sample_tree"
proof -
  obtain d' g where run: "(serve_step TYPE(pallas) sample_codec sample_digest sample_target clear_ypir sample_env sample_printer)\<^sup>*\<^sup>*
      (BootInit, initial_state (be_args sample_env) None Map.empty)
      (BootDone, sample_up d' sample_loaded g)"
    by (rule sample_ready_state)
  let ?st = "sample_up d' sample_loaded g"
  have ready: "rsp_status (get_ready sample_printer ?st) = 200" by (simp add: get_ready_def respond_def)
  have ss: "ss_metadata sample_loaded = sample_served" "ss_tier1_scenario sample_loaded = sample_scenario" by (simp_all add: snapshot_state_def)
  have "hex_to sample_codec (md_circuit_root sample_served) = Some (to_repr (pt_circuit_root sample_tree))"
    using sample_hex_round_trip by (simp add: served_meta_def snapshot_meta_def export_metadata_def built_tree(3) [OF sample_build, folded sample_ranges_def])
  then have root: "decode_root_hex sample_parsers (md_circuit_root sample_served) = Ok (pt_circuit_root sample_tree)"
    using sample_codecs_agree by (auto simp: codecs_agree_def intro!: decode_root_hex_Ok)
  from ready_means_connectable [OF run ready, of sample_parsers sample_constants "''http://pir/''"]
  have "(\<exists>c. fst (with_transport sample_constants (server_net clear_ypir sample_printer ?st (trim_end_slashes ''http://pir/'')) sample_parsers
      ''http://pir/'' (md_pir_layout sample_served)) = Ok c \<and> pc_circuit_root c = pt_circuit_root sample_tree)"
    using sample_codecs_agree root by (simp add: ss)
  with run ready show ?thesis by blast
qed

text \<open>
  A ready server is monitored. In every reachable state in which the readiness endpoint
  answers 200, the start-up task has ended and released its lock, the served-height gauge that
  the watchdog reads is the height of the loaded snapshot, and the watchdog loop runs exactly when a
  threshold and a Sentry DSN are configured, with a tick that is positive and at most the
  threshold.
\<close>

theorem ready_server_monitored:
  assumes "(serve_step TYPE('p::len) C H T Y E W)\<^sup>*\<^sup>* (BootInit, initial_state (be_args E) lwd_env d) (pc, st)"
    and "rsp_status (get_ready W st) = 200"
  shows "pc = BootDone \<and> \<not> rebuild_lock st \<and>
    (\<exists>ss. serving st = Some ss \<and> md_height (ss_metadata ss) \<in> {None, Some (g_served (process_gauges st))}) \<and>
    (if sv_stale_threshold_secs (be_args E) = 0 \<or> trim (sv_sentry_dsn (be_args E)) = [] then watchdog_loop st = None
     else \<exists>tick. watchdog_loop st = Some (tick, unat (sv_stale_threshold_secs (be_args E)) * 10 ^ 9) \<and> 0 < tick \<and>
            tick \<le> unat (sv_stale_threshold_secs (be_args E)) * 10 ^ 9)"
proof -
  have inv: "serve_inv TYPE('p) C (be_args E) (pc, st)" using assms(1) by (rule serve_reachable_inv)
  have s: "phase st = Serving" using assms(2) by (cases "phase st") (auto simp: get_ready_def respond_def)
  then have w: "watchdog_loop st = watchdog_settings (be_args E)" using inv by (simp add: serve_inv_def)
  have pos: "0 < unat (max x 1)" "0 < x \<Longrightarrow> 0 < unat x" for x :: u64
    by (cases "x = 0"; simp add: max_def unat_gt_0)+
  obtain ss where ss: "serving st = Some ss" and "\<And>h. md_height (ss_metadata ss) = Some h \<Longrightarrow> g_served (process_gauges st) = h"
    using inv s by (auto simp: serve_inv_def)
  then have "md_height (ss_metadata ss) \<in> {None, Some (g_served (process_gauges st))}" by (cases "md_height (ss_metadata ss)") auto
  moreover have "pc = BootDone \<and> \<not> rebuild_lock st" using inv s by (simp add: serve_inv_def)
  moreover have "if sv_stale_threshold_secs (be_args E) = 0 \<or> trim (sv_sentry_dsn (be_args E)) = [] then watchdog_loop st = None
     else \<exists>tick. watchdog_loop st = Some (tick, unat (sv_stale_threshold_secs (be_args E)) * 10 ^ 9) \<and> 0 < tick \<and>
            tick \<le> unat (sv_stale_threshold_secs (be_args E)) * 10 ^ 9"
    by (simp add: w watchdog_settings_def Let_def pos word_gt_0)
  ultimately show ?thesis using ss by blast
qed

theorem ready_server_monitored_witness:
  "\<exists>st t. (serve_step TYPE(pallas) sample_codec sample_digest sample_target clear_ypir sample_env sample_printer)\<^sup>*\<^sup>*
        (BootInit, initial_state (be_args sample_env) None Map.empty) (BootDone, st) \<and>
    rsp_status (get_ready sample_printer st) = 200 \<and> watchdog_loop st = Some (t, 1800 * 10 ^ 9) \<and> 0 < t \<and> serving st \<noteq> None"
proof -
  obtain d' ss g where run: "(serve_step TYPE(pallas) sample_codec sample_digest sample_target clear_ypir sample_env sample_printer)\<^sup>*\<^sup>*
      (BootInit, initial_state (be_args sample_env) None Map.empty)
      (BootDone, sample_up d' ss g)"
    by (rule sample_ready)
  let ?st = "sample_up d' ss g"
  have ready: "rsp_status (get_ready sample_printer ?st) = 200" by (simp add: get_ready_def respond_def)
  have args: "sv_stale_threshold_secs (be_args sample_env) = 1800" "trim (sv_sentry_dsn (be_args sample_env)) \<noteq> []"
    by (simp_all add: sample_serve_args_def trim_def is_space_def)
  from ready_server_monitored [OF run ready] args obtain t where "watchdog_loop ?st = Some (t, 1800 * 10 ^ 9)" "0 < t" by auto
  with run ready show ?thesis by (intro exI [of _ ?st]) auto
qed

text \<open>
  C26. Once the server is ready, no rebuild takes it out of service, should the disabled route be enabled again: whatever
  prepare requests arrive, in whatever order their handlers advance from await to await or are dropped, and whatever
  stages, failures and queries follow, a snapshot that passed all load checks stays loaded and the data endpoints
  answer from it. The lock is held exactly while a handler that took it or a task owns it; at most
  one does, so at most one task runs.
\<close>

theorem rebuild_keeps_serving:
  fixes R :: "'p::len rebuild_deps"
  assumes "(serve_step TYPE('p) (dep_codec (rd_sync R)) H T Y E W)\<^sup>*\<^sup>* (BootInit, initial_state (be_args E) lwd_env d) (BootDone, st0)"
    and "rsp_status (get_ready W st0) = 200"
    and "(rebuild_step R H T Y W)\<^sup>*\<^sup>* (Map.empty, st0) (jobs, st)"
  shows "(\<exists>ss. serving st = Some ss \<and> serving_wf TYPE('p) (dep_codec (rd_sync R)) (sv_zcash_network (be_args E)) (sv_pir_poly_len (be_args E)) ss \<and>
      get_tier0 W st = respond 200 ''application/octet-stream'' (ss_tier0_data ss)) \<and>
    (rebuild_lock st \<longleftrightarrow> (\<exists>i a. jobs i = Some a \<and> holds_lock a)) \<and>
    (\<forall>i j a b. jobs i = Some a \<and> jobs j = Some b \<and> holds_lock a \<and> holds_lock b \<longrightarrow> i = j)"
proof -
  let ?inv = "rebuild_inv TYPE('p) (dep_codec (rd_sync R)) (sv_zcash_network (be_args E)) (sv_pir_poly_len (be_args E))"
  have "phase st0 = Serving" using assms(2) by (cases "phase st0") (auto simp: get_ready_def respond_def)
  then have "?inv (Map.empty, st0)"
    using serve_reachable_inv [OF assms(1)] by (auto simp: serve_inv_def rebuild_inv_def loaded_ok_def lock_ok_def owners_def)
  with assms(3) have inv: "?inv (jobs, st)" by (rule rebuilding_run.reachable_inv)
  have owner: "(\<exists>a. jobs i = Some a \<and> holds_lock a) \<longleftrightarrow> i \<in> owners jobs" for i by (simp add: owners_def)
  have "rebuild_lock st \<longleftrightarrow> (\<exists>i a. jobs i = Some a \<and> holds_lock a)" unfolding owner using inv by (auto simp: rebuild_inv_def lock_ok_def split: if_splits)
  moreover have "i = j" if "jobs i = Some a \<and> jobs j = Some b \<and> holds_lock a \<and> holds_lock b" for i j a b
  proof -
    have "i \<in> owners jobs" "j \<in> owners jobs" using that owner by blast+
    then show ?thesis using inv by (auto simp: rebuild_inv_def lock_ok_def split: if_splits)
  qed
  ultimately show ?thesis using inv by (auto simp: rebuild_inv_def loaded_ok_def get_tier0_def require_serving_def)
qed

text \<open>A prepare request up to the task it spawns.\<close>

theorem rebuild_keeps_serving_witness:
  "\<exists>d' ss g jobs st. (rebuild_step \<lparr>rd_sync = nine_deps, rd_http = (\<lambda>_. Bail ''unused''), rd_from_json = (\<lambda>_. None)\<rparr>
       sample_digest sample_target clear_ypir sample_printer)\<^sup>*\<^sup>*
      (Map.empty, sample_up d' ss g) (jobs, st) \<and> jobs 1 = Some (Task (RbStart 3428150)) \<and> phase st \<noteq> Serving \<and>
    rebuild_lock st \<and> rsp_status (get_tier0 sample_printer st) = 200"
proof -
  let ?R = "\<lparr>rd_sync = nine_deps, rd_http = (\<lambda>_. Bail ''unused''), rd_from_json = (\<lambda>_. None)\<rparr>"
  obtain d' ss g where run: "(serve_step TYPE(pallas) sample_codec sample_digest sample_target clear_ypir sample_env sample_printer)\<^sup>*\<^sup>*
      (BootInit, initial_state (be_args sample_env) None Map.empty)
      (BootDone, sample_up d' ss g)"
    by (rule sample_ready)
  let ?st = "sample_up d' ss g" and ?h = "3428150 :: u64"
  let ?locked = "?st\<lparr>rebuild_lock := True\<rparr>" and ?last = "?st\<lparr>rebuild_lock := True, phase := Rebuilding 3428150 ''starting'' 0\<rparr>"
  let ?step = "rebuild_step ?R sample_digest sample_target clear_ypir sample_printer" and ?at = "\<lambda>p. [0 \<mapsto> Prepare p] :: nat \<rightharpoonup> job"
  let ?answer = "PrAnswered 202 (JObject [(''status'', JString ''rebuilding''), (''target_height'', JU64 ?h)])"
  have codec: "dep_codec (rd_sync ?R) = sample_codec" by (simp add: nine_deps_def)
  have ready: "rsp_status (get_ready sample_printer ?st) = 200" by (simp add: get_ready_def respond_def)
  have first: "prepare_begin ?st ?h = PrPhase ?h"
    by (simp add: prepare_begin_def initial_state_def sample_serve_args_def validate_export_height_def NU6_3_MAINNET_ACTIVATION_HEIGHT_def)
  have tip: "prepare_tip_ok ?R ?locked ?h = None"
    by (simp add: prepare_tip_ok_def initial_state_def sample_serve_args_def resolve_lwd_urls_with_override_def DEFAULT_SINGLE_LWD_URL_def
        DEFAULT_LWD_URLS_def fetch_chain_tip_def nine_deps_def const_lwd_def)
  have round: "prepare_round_ok ?R ?locked = None" by (simp add: prepare_round_ok_def initial_state_def sample_serve_args_def)
  have next_pc: "?step (?at p, st) (?at p', st')" if "\<forall>h. p \<noteq> PrSpawn h" "prepare_next ?R st p = (st', p')" for p p' st st'
    using rebuild_step.handler [where jobs = "?at p" and i = 0 and p = p and R' = ?R and st = st and st' = st' and p' = p'] that by simp
  have "?step (Map.empty, ?st) (Map.empty(0 \<mapsto> Prepare (prepare_begin ?st ?h)), ?st)" by (rule rebuild_step.request) simp
  then have "?step (Map.empty, ?st) (?at (PrPhase ?h), ?st)" unfolding first .
  moreover have "?step (?at (PrPhase ?h), ?st) (?at (PrTryLock ?h), ?st)" by (rule next_pc) (simp_all add: ready_for_rebuild_def)
  moreover have "?step (?at (PrTryLock ?h), ?st) (?at (PrTip ?h), ?locked)" by (rule next_pc) simp_all
  moreover have "?step (?at (PrTip ?h), ?locked) (?at (PrRound ?h), ?locked)" by (rule next_pc) (simp, simp only: prepare_next.simps tip option.case)
  moreover have "?step (?at (PrRound ?h), ?locked) (?at (PrStart ?h), ?locked)" by (rule next_pc) (simp, simp only: prepare_next.simps round option.case)
  moreover have "?step (?at (PrStart ?h), ?locked) (?at (PrSpawn ?h), ?last)" by (rule next_pc) simp_all
  moreover have "?step (?at (PrSpawn ?h), ?last) ((?at ?answer)(1 \<mapsto> Task (RbStart ?h)), ?last)"
    using rebuild_step.spawn [where jobs = "?at (PrSpawn ?h)" and i = 0 and h = ?h and j = 1 and R = ?R and st = ?last and st' = ?last and p' = ?answer] by simp
  ultimately have steps: "?step\<^sup>*\<^sup>* (Map.empty, ?st) ((?at ?answer)(1 \<mapsto> Task (RbStart ?h)), ?last)"
    by (meson converse_rtranclp_into_rtranclp rtranclp.rtrancl_refl)
  note kept = rebuild_keeps_serving [of ?R, unfolded codec, OF run ready steps]
  from kept [THEN conjunct1] have answer: "rsp_status (get_tier0 sample_printer ?last) = 200"
    by (elim exE conjE) (simp only: respond_def TransportResponse.simps)
  show ?thesis by (intro exI conjI, rule steps, simp, simp, simp, rule answer)
qed

end
